(* ===== verification/Prelude.thy ===== *)
theory Prelude
  imports Complex_Main "HOL-Library.List_Lexorder" "HOL-Library.Char_ord" "HOL-Library.Product_Lexorder"
    "HOL-Library.Sublist"
begin

text \<open>
  Shared vocabulary of the development: the named fact collections, the error values of
  \<open>internal/domain/errors.go\<close>, time stamps, Go's fixed-width signed integers written out over
  \<open>int\<close>, and the generic lemmas on association lists and lists that the components share.

  Go maps are association lists read through \<open>map_of\<close>; a map that a function ranges over is
  the list in some order, so that a statement about every list is a statement about every
  iteration order Go may choose.
\<close>

named_theorems journal_simps "operations of the tool-execution journal"
named_theorems work_simps "operations of the self-hosted work queue"
named_theorems outbox_simps "operations of the orchestration outbox"
named_theorems go_simps "Go library functions on byte strings"

section \<open>Errors (internal/domain/errors.go)\<close>

datatype ErrKind =
    KindValidation
  | KindConflict
  | KindNotFound
  | KindUnsupported
  | KindTooLarge
  | KindPrecondition

record DomainError =
  dk_Kind :: ErrKind
  dk_Code :: string
  dk_Message :: string

definition Validation :: "string \<Rightarrow> DomainError" where
  "Validation msg = \<lparr>dk_Kind = KindValidation, dk_Code = [], dk_Message = msg\<rparr>"

definition Conflict :: "string \<Rightarrow> DomainError" where
  "Conflict msg = \<lparr>dk_Kind = KindConflict, dk_Code = [], dk_Message = msg\<rparr>"

definition NotFound :: "string \<Rightarrow> DomainError" where
  "NotFound msg = \<lparr>dk_Kind = KindNotFound, dk_Code = [], dk_Message = msg\<rparr>"

definition Unsupported :: "string \<Rightarrow> DomainError" where
  "Unsupported msg = \<lparr>dk_Kind = KindUnsupported, dk_Code = [], dk_Message = msg\<rparr>"

definition TooLarge :: "string \<Rightarrow> DomainError" where
  "TooLarge msg = \<lparr>dk_Kind = KindTooLarge, dk_Code = [], dk_Message = msg\<rparr>"

definition Precondition :: "string \<Rightarrow> DomainError" where
  "Precondition msg = \<lparr>dk_Kind = KindPrecondition, dk_Code = [], dk_Message = msg\<rparr>"

definition MemoryPrecondition :: "string \<Rightarrow> DomainError" where
  "MemoryPrecondition msg =
     \<lparr>dk_Kind = KindConflict, dk_Code = ''memory_precondition_failed_error'', dk_Message = msg\<rparr>"

type_synonym 'a res = "DomainError + 'a"

text \<open>Sequencing of fallible steps: the first error is the result, as an early return is.\<close>

definition bindE :: "'e + 'a \<Rightarrow> ('a \<Rightarrow> 'e + 'b) \<Rightarrow> 'e + 'b" where
  "bindE m f = (case m of Inl e \<Rightarrow> Inl e | Inr x \<Rightarrow> f x)"

lemma bindE_simps [simp]: "bindE (Inl e) f = Inl e" "bindE (Inr x) f = f x"
  by (simp_all add: bindE_def)

lemma bindE_Inr_iff: "bindE m f = Inr y \<longleftrightarrow> (\<exists>x. m = Inr x \<and> f x = Inr y)"
  by (cases m) simp_all

fun mapE :: "('a \<Rightarrow> 'e + 'b) \<Rightarrow> 'a list \<Rightarrow> 'e + 'b list" where
  "mapE f [] = Inr []"
| "mapE f (x # xs) = bindE (f x) (\<lambda>y. bindE (mapE f xs) (\<lambda>ys. Inr (y # ys)))"

definition isOk :: "'e + 'a \<Rightarrow> bool" where
  "isOk r = (case r of Inl _ \<Rightarrow> False | Inr _ \<Rightarrow> True)"

lemma isOk_simps [simp]: "\<not> isOk (Inl e)" "isOk (Inr x)"
  by (simp_all add: isOk_def)

lemma isOk_iff: "isOk r \<longleftrightarrow> (\<exists>x. r = Inr x)"
  by (cases r) simp_all

text \<open>
  What an operation of the store may return instead of a result: an error of the domain, a row that is not
  there, a constraint of the tables, an encoding that fails, or a stored row that does not decode.
\<close>

datatype storeError = Refused DomainError | NoRows | ConstraintViolation | NotEncodable | NotDecodable

section \<open>Time\<close>

text \<open>
  A \<open>time.Time\<close> is its number of nanoseconds (an \<open>int\<close>); \<open>UTC()\<close> changes only the
  presentation and is the identity. \<open>Sub\<close> saturates at the bounds of a 64-bit
  \<open>time.Duration\<close>; \<open>Seconds()\<close> is in \<open>Doubles\<close>.
\<close>

type_synonym time = int

definition durationMax :: int where "durationMax = 2 ^ 63 - 1"
definition durationMin :: int where "durationMin = - (2 ^ 63)"

definition timeSub :: "time \<Rightarrow> time \<Rightarrow> int" where
  "timeSub a b = max durationMin (min durationMax (a - b))"

definition truncMicros :: "time \<Rightarrow> time" where
  "truncMicros t = t - t mod 1000"

lemma timeSub_mono: "a \<le> b \<Longrightarrow> timeSub a c \<le> timeSub b c"
  by (auto simp: timeSub_def)

lemma timeSub_self [simp]: "timeSub a a = 0"
  by (simp add: timeSub_def durationMin_def durationMax_def)

section \<open>64-bit signed integers\<close>

text \<open>Go's \<open>int64\<close> arithmetic wraps; division truncates towards zero.\<close>

definition wrap64 :: "int \<Rightarrow> int" where
  "wrap64 x = (x + 2 ^ 63) mod 2 ^ 64 - 2 ^ 63"

definition i64Add :: "int \<Rightarrow> int \<Rightarrow> int" where
  "i64Add a b = wrap64 (a + b)"

definition i64Mul :: "int \<Rightarrow> int \<Rightarrow> int" where
  "i64Mul a b = wrap64 (a * b)"

definition i64Div :: "int \<Rightarrow> int \<Rightarrow> int" where
  "i64Div a b = wrap64 (sgn a * sgn b * (\<bar>a\<bar> div \<bar>b\<bar>))"

definition i64Mod :: "int \<Rightarrow> int \<Rightarrow> int" where
  "i64Mod a b = sgn a * (\<bar>a\<bar> mod \<bar>b\<bar>)"

definition inInt64 :: "int \<Rightarrow> bool" where
  "inInt64 x \<longleftrightarrow> - (2 ^ 63) \<le> x \<and> x < 2 ^ 63"

lemma wrap64_id: "inInt64 x \<Longrightarrow> wrap64 x = x"
  by (auto simp: wrap64_def inInt64_def)

lemma wrap64_range: "inInt64 (wrap64 x)"
proof -
  have "0 \<le> (x + 2 ^ 63) mod (2 ^ 64 :: int)" and "(x + 2 ^ 63) mod (2 ^ 64 :: int) < 2 ^ 64"
    by simp_all
  then show ?thesis
    by (simp add: wrap64_def inInt64_def)
qed

lemma i64_exact:
  "inInt64 (a + b) \<Longrightarrow> i64Add a b = a + b"
  "inInt64 (a * b) \<Longrightarrow> i64Mul a b = a * b"
  by (simp_all add: i64Add_def i64Mul_def wrap64_id)

lemma i64Div_nonneg:
  assumes "0 \<le> a" "0 < b" "inInt64 a"
  shows "i64Div a b = a div b"
proof -
  have "a div b \<le> a" using assms by (simp add: div_le_dividend int_div_less_self
    zdiv_mono2 [of a 1 b, simplified])
  moreover have "0 \<le> a div b" using assms by (simp add: pos_imp_zdiv_nonneg_iff)
  ultimately have "inInt64 (a div b)" using assms by (auto simp: inInt64_def)
  then show ?thesis
    using assms by (cases "a = 0") (simp_all add: i64Div_def wrap64_id sgn_if)
qed

section \<open>Association lists as Go maps\<close>

fun akeys :: "('k \<times> 'v) list \<Rightarrow> 'k list" where
  "akeys [] = []"
| "akeys ((k, v) # xs) = k # akeys xs"

fun aput :: "'k \<Rightarrow> 'v \<Rightarrow> ('k \<times> 'v) list \<Rightarrow> ('k \<times> 'v) list" where
  "aput k v [] = [(k, v)]"
| "aput k v ((k', v') # xs) = (if k' = k then (k, v) # xs else (k', v') # aput k v xs)"

fun adel :: "'k \<Rightarrow> ('k \<times> 'v) list \<Rightarrow> ('k \<times> 'v) list" where
  "adel k [] = []"
| "adel k ((k', v') # xs) = (if k' = k then adel k xs else (k', v') # adel k xs)"

definition wfmap :: "('k \<times> 'v) list \<Rightarrow> bool" where
  "wfmap m \<longleftrightarrow> distinct (map fst m)"

lemma akeys_fst: "akeys m = map fst m"
  by (induction m rule: akeys.induct) auto

lemma map_of_aput [simp]: "map_of (aput k v m) = (map_of m)(k \<mapsto> v)"
  by (induction k v m rule: aput.induct) auto

lemma map_of_adel [simp]: "map_of (adel k m) = (map_of m)(k := None)"
  by (induction k m rule: adel.induct) auto

lemma set_fst_aput: "fst ` set (aput k v m) = insert k (fst ` set m)"
  by (induction k v m rule: aput.induct) auto

lemma set_fst_adel: "fst ` set (adel k m) = fst ` set m - {k}"
  by (induction k m rule: adel.induct) auto

lemma wfmap_aput: "wfmap m \<Longrightarrow> wfmap (aput k v m)"
  by (induction k v m rule: aput.induct) (auto simp: wfmap_def set_fst_aput)

lemma wfmap_adel: "wfmap m \<Longrightarrow> wfmap (adel k m)"
  by (induction k m rule: adel.induct) (auto simp: wfmap_def set_fst_adel)

lemma wfmap_Nil [simp]: "wfmap []"
  by (simp add: wfmap_def)

lemma set_aput_sub: "x \<in> set (aput k v m) \<Longrightarrow> x = (k, v) \<or> x \<in> set m"
  by (induction k v m rule: aput.induct) (auto split: if_splits)

lemma set_adel_sub: "x \<in> set (adel k m) \<Longrightarrow> x \<in> set m"
  by (induction k m rule: adel.induct) (auto split: if_splits)

section \<open>Lists\<close>

fun updateWhere :: "('a \<Rightarrow> bool) \<Rightarrow> ('a \<Rightarrow> 'a) \<Rightarrow> 'a list \<Rightarrow> 'a list" where
  "updateWhere p f [] = []"
| "updateWhere p f (x # xs) = (if p x then f x else x) # updateWhere p f xs"

text \<open>The rows an SQL \<open>UPDATE ... WHERE\<close> affects, and the table it leaves.\<close>

definition affected :: "('a \<Rightarrow> bool) \<Rightarrow> 'a list \<Rightarrow> nat" where
  "affected p xs = length (filter p xs)"

lemma updateWhere_map: "updateWhere p f xs = map (\<lambda>x. if p x then f x else x) xs"
  by (induction xs) auto

lemma set_updateWhere: "set (updateWhere p f xs) = (\<lambda>x. if p x then f x else x) ` set xs"
  by (simp add: updateWhere_map)

lemma length_updateWhere [simp]: "length (updateWhere p f xs) = length xs"
  by (induction xs) auto

lemma updateWhere_none: "affected p xs = 0 \<Longrightarrow> updateWhere p f xs = xs"
  by (induction xs) (auto simp: affected_def split: if_splits)

lemma map_updateWhere_inv: "(\<And>x. g (f x) = g x) \<Longrightarrow> map g (updateWhere p f xs) = map g xs"
  by (induction xs) auto

lemma find_updateWhere_key:
  "(\<And>x. key (f x) = key x) \<Longrightarrow>
     find (\<lambda>x. key x = k) (updateWhere p f xs) =
     map_option (\<lambda>x. if p x then f x else x) (find (\<lambda>x. key x = k) xs)"
  by (induction xs) auto

lemma find_in_set: "find p xs = Some x \<Longrightarrow> x \<in> set xs \<and> p x"
  by (induction xs) (auto split: if_splits)

lemma find_None_all: "find p xs = None \<longleftrightarrow> (\<forall>x \<in> set xs. \<not> p x)"
  by (induction xs) auto

lemma affected_pos: "0 < affected p xs \<longleftrightarrow> (\<exists>x \<in> set xs. p x)"
  by (auto simp: affected_def filter_empty_conv)

lemma affected_zero: "affected p xs = 0 \<longleftrightarrow> (\<forall>x \<in> set xs. \<not> p x)"
  by (auto simp: affected_def filter_empty_conv)

lemma find_key:
  assumes "distinct (map key xs)" "x \<in> set xs" "key x = k"
  shows "find (\<lambda>x. key x = k) xs = Some x"
  using assms by (induction xs) force+

lemma find_append: "find p (xs @ ys) = (case find p xs of None \<Rightarrow> find p ys | Some x \<Rightarrow> Some x)"
  by (induction xs) auto

lemma affected_le_1:
  assumes "distinct (map key xs)" "\<And>x. p x \<Longrightarrow> key x = k"
  shows "affected p xs \<le> 1"
  using assms
proof (induction xs)
  case (Cons x xs)
  have "affected p xs = 0" if "p x"
    using Cons.prems that unfolding affected_zero by (metis distinct.simps(2) imageI list.set_map list.simps(9))
  with Cons show ?case by (auto simp: affected_def)
qed (simp add: affected_def)

lemma updateWhere_cong:
  "(\<And>x. x \<in> set xs \<Longrightarrow> p x = q x) \<Longrightarrow> updateWhere p f xs = updateWhere q f xs"
  by (induction xs) auto

lemma filter_updateWhere:
  "\<forall>x \<in> set xs. q x \<longrightarrow> \<not> p x \<Longrightarrow> \<forall>x \<in> set xs. p x \<longrightarrow> q (f x) = q x \<Longrightarrow>
     filter q (updateWhere p f xs) = filter q xs"
  by (induction xs) auto

section \<open>Redelivered operations\<close>

text \<open>
  A Temporal activity whose acknowledgement is lost runs again, at a later time, on the state it
  left. An operation of the store is safe to redeliver when a success is repeated with the same
  result and changes nothing. \<open>inv\<close> is what the operation may rely on and keeps.
\<close>

fun redeliver :: "('t \<Rightarrow> 's \<Rightarrow> 'e + 'r \<times> 's) \<Rightarrow> 't list \<Rightarrow> 's \<Rightarrow> 's" where
  "redeliver act [] s = s"
| "redeliver act (t # ts) s = redeliver act ts (case act t s of Inl _ \<Rightarrow> s | Inr (_, s') \<Rightarrow> s')"

locale redeliverable =
  fixes inv :: "'s \<Rightarrow> bool"
    and act :: "'t \<Rightarrow> 's \<Rightarrow> 'e + 'r \<times> 's"
  assumes keeps: "inv s \<Longrightarrow> act t s = Inr (r, s') \<Longrightarrow> inv s'"
    and again: "inv s \<Longrightarrow> act t s = Inr (r, s') \<Longrightarrow> act t' s' = Inr (r, s')"
begin

lemma redeliver_stable:
  assumes "inv s" "act t s = Inr (r, s')"
  shows "redeliver act ts s' = s'"
  using again [OF assms] by (induction ts) auto

lemma redeliver_same_result:
  assumes "inv s" "act t s = Inr (r, s')"
  shows "redeliver act (t # ts) s = s' \<and> act t' (redeliver act (t # ts) s) = Inr (r, s')"
  using redeliver_stable [OF assms] again [OF assms] assms(2) by simp

end

end
