(* ===== verification/GoStrings.thy ===== *)
theory GoStrings
  imports Prelude
begin

text \<open>
  The parts of Go's \<open>strings\<close>, \<open>unicode/utf8\<close>, \<open>unicode\<close> and \<open>path\<close> packages that the program
  uses, on byte strings: a Go \<open>string\<close> is a list of bytes, here a \<open>char list\<close>, so \<open>length\<close> is
  Go's \<open>len\<close>. Runes are code points (\<open>nat\<close>). What the Unicode tables say beyond ASCII is an
  argument (\<open>unicodeTables\<close>); white space and control characters are listed exactly.
\<close>

section \<open>UTF-8\<close>

definition byteOf :: "char \<Rightarrow> nat" where
  "byteOf c = of_char c"

definition isCont :: "char \<Rightarrow> bool" where
  "isCont c \<longleftrightarrow> 128 \<le> byteOf c \<and> byteOf c \<le> 191"

definition runeError :: nat where
  "runeError = 65533"

definition secondOk :: "nat \<Rightarrow> char \<Rightarrow> bool" where
  "secondOk b0 c \<longleftrightarrow>
     (if b0 = 224 then 160 \<le> byteOf c \<and> byteOf c \<le> 191
      else if b0 = 237 then 128 \<le> byteOf c \<and> byteOf c \<le> 159
      else if b0 = 240 then 144 \<le> byteOf c \<and> byteOf c \<le> 191
      else if b0 = 244 then 128 \<le> byteOf c \<and> byteOf c \<le> 143
      else isCont c)"

text \<open>\<open>utf8.DecodeRuneInString\<close>: the rune and its width; an invalid byte is \<open>(RuneError, 1)\<close>.\<close>

fun decodeRune :: "string \<Rightarrow> nat \<times> nat" where
  "decodeRune [] = (runeError, 0)"
| "decodeRune (c0 # cs) =
     (let b0 = byteOf c0 in
      if b0 < 128 then (b0, 1)
      else if 194 \<le> b0 \<and> b0 \<le> 223 then
        (case cs of
           c1 # _ \<Rightarrow> if isCont c1 then ((b0 - 192) * 64 + (byteOf c1 - 128), 2) else (runeError, 1)
         | [] \<Rightarrow> (runeError, 1))
      else if 224 \<le> b0 \<and> b0 \<le> 239 then
        (case cs of
           c1 # c2 # _ \<Rightarrow>
             if secondOk b0 c1 \<and> isCont c2
             then ((b0 - 224) * 4096 + (byteOf c1 - 128) * 64 + (byteOf c2 - 128), 3)
             else (runeError, 1)
         | _ \<Rightarrow> (runeError, 1))
      else if 240 \<le> b0 \<and> b0 \<le> 244 then
        (case cs of
           c1 # c2 # c3 # _ \<Rightarrow>
             if secondOk b0 c1 \<and> isCont c2 \<and> isCont c3
             then ((b0 - 240) * 262144 + (byteOf c1 - 128) * 4096 + (byteOf c2 - 128) * 64
                   + (byteOf c3 - 128), 4)
             else (runeError, 1)
         | _ \<Rightarrow> (runeError, 1))
      else (runeError, 1))"

text \<open>\<open>for _, r := range s\<close>: every rune with the bytes it was decoded from.\<close>

function segments :: "string \<Rightarrow> (nat \<times> string) list" where
  "segments [] = []"
| "segments (c # cs) =
     (let (r, n) = decodeRune (c # cs)
      in (r, take (max 1 n) (c # cs)) # segments (drop (max 1 n - 1) cs))"
  by pat_completeness auto
termination
  by (relation "measure length") auto

definition runes :: "string \<Rightarrow> nat list" where
  "runes s = map fst (segments s)"

definition runeCount :: "string \<Rightarrow> nat" where
  "runeCount s = length (segments s)"

definition validUtf8 :: "string \<Rightarrow> bool" where
  "validUtf8 s \<longleftrightarrow> list_all (\<lambda>(r, bs). \<not> (r = runeError \<and> length bs = 1)) (segments s)"

text \<open>\<open>utf8.EncodeRune\<close> for a code point.\<close>

definition encodeRune :: "nat \<Rightarrow> string" where
  "encodeRune r =
     (if r < 128 then [char_of r]
      else if r < 2048 then [char_of (192 + r div 64), char_of (128 + r mod 64)]
      else if r < 65536 then
        [char_of (224 + r div 4096), char_of (128 + (r div 64) mod 64), char_of (128 + r mod 64)]
      else
        [char_of (240 + r div 262144), char_of (128 + (r div 4096) mod 64),
         char_of (128 + (r div 64) mod 64), char_of (128 + r mod 64)])"

section \<open>Character classes\<close>

definition isControl :: "nat \<Rightarrow> bool" where
  "isControl r \<longleftrightarrow> r < 32 \<or> (127 \<le> r \<and> r < 160)"

definition isSpace :: "nat \<Rightarrow> bool" where
  "isSpace r \<longleftrightarrow>
     (9 \<le> r \<and> r \<le> 13) \<or> r = 32 \<or> r = 133 \<or> r = 160 \<or> r = 5760 \<or> (8192 \<le> r \<and> r \<le> 8202)
     \<or> r = 8232 \<or> r = 8233 \<or> r = 8239 \<or> r = 8287 \<or> r = 12288"

record unicodeTables =
  u_letter :: "nat \<Rightarrow> bool"
  u_digit :: "nat \<Rightarrow> bool"
  u_lower :: "nat \<Rightarrow> nat"

definition asciiUpper :: "nat \<Rightarrow> bool" where
  "asciiUpper r \<longleftrightarrow> 65 \<le> r \<and> r \<le> 90"

definition asciiLower :: "nat \<Rightarrow> bool" where
  "asciiLower r \<longleftrightarrow> 97 \<le> r \<and> r \<le> 122"

definition asciiDigit :: "nat \<Rightarrow> bool" where
  "asciiDigit r \<longleftrightarrow> 48 \<le> r \<and> r \<le> 57"

definition isLetter :: "unicodeTables \<Rightarrow> nat \<Rightarrow> bool" where
  "isLetter u r = (if r < 128 then asciiUpper r \<or> asciiLower r else u_letter u r)"

definition isDigit :: "unicodeTables \<Rightarrow> nat \<Rightarrow> bool" where
  "isDigit u r = (if r < 128 then asciiDigit r else u_digit u r)"

definition toLowerRune :: "unicodeTables \<Rightarrow> nat \<Rightarrow> nat" where
  "toLowerRune u r = (if r < 128 then (if asciiUpper r then r + 32 else r) else u_lower u r)"

definition toLower :: "unicodeTables \<Rightarrow> string \<Rightarrow> string" where
  "toLower u s = concat (map (\<lambda>(r, bs). encodeRune (toLowerRune u r)) (segments s))"

definition isBlank :: "string \<Rightarrow> bool" where
  "isBlank s \<longleftrightarrow> list_all (\<lambda>(r, bs). isSpace r) (segments s)"

definition trimSpace :: "string \<Rightarrow> string" where
  "trimSpace s =
     concat (map snd (rev (dropWhile (\<lambda>(r, bs). isSpace r)
       (rev (dropWhile (\<lambda>(r, bs). isSpace r) (segments s))))))"

text \<open>\<open>strings.Fields\<close>: the maximal runs of bytes that are not white space.\<close>

fun fieldsAcc :: "string \<Rightarrow> (nat \<times> string) list \<Rightarrow> string list" where
  "fieldsAcc acc [] = (if acc = [] then [] else [acc])"
| "fieldsAcc acc ((r, bs) # xs) =
     (if isSpace r then (if acc = [] then fieldsAcc [] xs else acc # fieldsAcc [] xs)
      else fieldsAcc (acc @ bs) xs)"

definition fields :: "string \<Rightarrow> string list" where
  "fields s = fieldsAcc [] (segments s)"

section \<open>Package strings\<close>

text \<open>
  Simple case folding restricted to what can equal an ASCII name: the long s and the Kelvin sign
  are the only other code points that fold to an ASCII letter. \<open>equalFoldAscii s name\<close> is
  \<open>strings.EqualFold(s, name)\<close> for an ASCII \<open>name\<close>, which is also how \<open>encoding/json\<close>
  matches an object key with the name of a struct field.
\<close>

definition foldRune :: "nat \<Rightarrow> nat" where
  "foldRune r = (if asciiUpper r then r + 32 else if r = 383 then 115 else if r = 8490 then 107 else r)"

definition equalFoldAscii :: "string \<Rightarrow> string \<Rightarrow> bool" where
  "equalFoldAscii s name \<longleftrightarrow> map foldRune (runes s) = map foldRune (runes name)"

definition hasPrefix :: "string \<Rightarrow> string \<Rightarrow> bool" where
  "hasPrefix s p \<longleftrightarrow> take (length p) s = p"

definition hasSuffix :: "string \<Rightarrow> string \<Rightarrow> bool" where
  "hasSuffix s p \<longleftrightarrow> length p \<le> length s \<and> drop (length s - length p) s = p"

fun contains :: "string \<Rightarrow> string \<Rightarrow> bool" where
  "contains [] p = (p = [])"
| "contains (c # cs) p = (hasPrefix (c # cs) p \<or> contains cs p)"

definition trimPrefix :: "string \<Rightarrow> string \<Rightarrow> string" where
  "trimPrefix s p = (if hasPrefix s p then drop (length p) s else s)"

definition trimSuffix :: "string \<Rightarrow> string \<Rightarrow> string" where
  "trimSuffix s p = (if hasSuffix s p then take (length s - length p) s else s)"

text \<open>\<open>strings.Split\<close> by one separator byte: always at least one component.\<close>

fun splitOn :: "char \<Rightarrow> string \<Rightarrow> string list" where
  "splitOn d [] = [[]]"
| "splitOn d (c # cs) =
     (if c = d then [] # splitOn d cs
      else (case splitOn d cs of [] \<Rightarrow> [[c]] | w # ws \<Rightarrow> (c # w) # ws))"

fun joinWith :: "string \<Rightarrow> string list \<Rightarrow> string" where
  "joinWith d [] = []"
| "joinWith d [w] = w"
| "joinWith d (w # ws) = w @ d @ joinWith d ws"

section \<open>Package strconv\<close>

text \<open>\<open>strconv.Itoa\<close> and \<open>fmt\<close>'s \<open>%d\<close>, and the decimal \<open>strconv.ParseInt\<close> with 64 bits.\<close>

fun decNat :: "nat \<Rightarrow> string" where
  "decNat n = (if n < 10 then [char_of (48 + n)] else decNat (n div 10) @ [char_of (48 + n mod 10)])"

declare decNat.simps [simp del]

definition itoa :: "int \<Rightarrow> string" where
  "itoa n = (if n < 0 then CHR ''-'' # decNat (nat (- n)) else decNat (nat n))"

definition isDigitByte :: "char \<Rightarrow> bool" where
  "isDigitByte c \<longleftrightarrow> 48 \<le> byteOf c \<and> byteOf c \<le> 57"

definition digitsVal :: "string \<Rightarrow> nat" where
  "digitsVal s = foldl (\<lambda>a c. a * 10 + (byteOf c - 48)) 0 s"

definition parseDigits :: "string \<Rightarrow> nat option" where
  "parseDigits s = (if s = [] \<or> \<not> list_all isDigitByte s then None else Some (digitsVal s))"

definition parseInt64 :: "string \<Rightarrow> int option" where
  "parseInt64 s =
     (let (neg, body) =
        (case s of
           [] \<Rightarrow> (False, [])
         | c # cs \<Rightarrow> if c = CHR ''-'' then (True, cs) else if c = CHR ''+'' then (False, cs) else (False, s))
      in case parseDigits body of
           None \<Rightarrow> None
         | Some n \<Rightarrow> (let v = (if neg then - int n else int n) in if inInt64 v then Some v else None))"

section \<open>Package path\<close>

abbreviation slash :: char where "slash \<equiv> CHR ''/''"

text \<open>
  \<open>path.Clean\<close>: empty and \<open>.\<close> components vanish, \<open>..\<close> removes the component before it (kept at
  the front of a relative path, dropped at the root). The stack is in reverse order.
\<close>

fun cleanStep :: "bool \<Rightarrow> string list \<Rightarrow> string \<Rightarrow> string list" where
  "cleanStep rooted st w =
     (if w = [] \<or> w = ''.'' then st
      else if w = ''..'' then
        (case st of
           [] \<Rightarrow> if rooted then [] else [''..'']
         | x # xs \<Rightarrow> if x = ''..'' then ''..'' # st else xs)
      else w # st)"

definition cleanComps :: "bool \<Rightarrow> string list \<Rightarrow> string list" where
  "cleanComps rooted ws = rev (foldl (cleanStep rooted) [] ws)"

definition pathClean :: "string \<Rightarrow> string" where
  "pathClean p =
     (if p = [] then ''.''
      else let rooted = (hd p = slash);
               body = joinWith ''/'' (cleanComps rooted (splitOn slash p))
           in if rooted then slash # body else if body = [] then ''.'' else body)"

definition pathJoin :: "string \<Rightarrow> string \<Rightarrow> string" where
  "pathJoin a b =
     (if a = [] \<and> b = [] then []
      else if a = [] then pathClean b
      else if b = [] then pathClean a
      else pathClean (a @ ''/'' @ b))"

text \<open>\<open>path.Base\<close>: the last component after trailing slashes are removed.\<close>

definition pathBase :: "string \<Rightarrow> string" where
  "pathBase p =
     (if p = [] then ''.''
      else let q = rev (dropWhile (\<lambda>c. c = slash) (rev p))
           in if q = [] then ''/'' else last (splitOn slash q))"

section \<open>Lemmas\<close>

lemma decodeRune_width: "decodeRune s = (r, n) \<Longrightarrow> n \<le> length s"
  by (cases s) (auto simp: Let_def split: if_splits list.splits)

lemma segments_concat: "concat (map snd (segments s)) = s"
proof (induction s rule: segments.induct)
  case 1
  show ?case by simp
next
  case (2 c cs)
  obtain r n where d: "decodeRune (c # cs) = (r, n)" by (cases "decodeRune (c # cs)") auto
  have "max 1 n = Suc (max 1 n - 1)" by simp
  then have "take (max 1 n) (c # cs) @ drop (max 1 n - 1) cs = c # cs"
    by (metis append_take_drop_id drop_Suc_Cons)
  with 2 d show ?case by (simp add: Let_def)
qed

lemma hasPrefix_append [simp]: "hasPrefix (p @ s) p"
  by (simp add: hasPrefix_def)

lemma hasPrefix_iff: "hasPrefix s p \<longleftrightarrow> (\<exists>t. s = p @ t)"
  by (metis append_eq_conv_conj append_take_drop_id hasPrefix_def)

lemma hasSuffix_iff: "hasSuffix s p \<longleftrightarrow> (\<exists>t. s = t @ p)"
  by (auto simp: hasSuffix_def) (metis append_take_drop_id)

lemma splitOn_nonempty [simp]: "splitOn d s \<noteq> []"
  by (induction s) (auto split: list.splits)

lemma splitOn_join: "joinWith [d] (splitOn d s) = s"
proof (induction s)
  case Nil
  show ?case by simp
next
  case (Cons c cs)
  show ?case
  proof (cases "splitOn d cs")
    case Nil
    then show ?thesis by simp
  next
    case (Cons w ws)
    with Cons.IH show ?thesis by (cases ws) auto
  qed
qed

lemma splitOn_no_sep: "w \<in> set (splitOn d s) \<Longrightarrow> d \<notin> set w"
  by (induction s arbitrary: w) (auto split: list.splits if_splits)

lemma splitOn_id: "d \<notin> set w \<Longrightarrow> splitOn d w = [w]"
  by (induction w) auto

lemma splitOn_append: "d \<notin> set w \<Longrightarrow> splitOn d (w @ d # s) = w # splitOn d s"
  by (induction w) auto

lemma splitOn_joinWith:
  "ws \<noteq> [] \<Longrightarrow> \<forall>w \<in> set ws. d \<notin> set w \<Longrightarrow> splitOn d (joinWith [d] ws) = ws"
  by (induction "[d]" ws rule: joinWith.induct) (auto simp: splitOn_id splitOn_append)

text \<open>A rooted clean path has only proper components: no empty one, no dot, no parent.\<close>

definition properComp :: "string \<Rightarrow> bool" where
  "properComp w \<longleftrightarrow> w \<noteq> [] \<and> w \<noteq> ''.'' \<and> w \<noteq> ''..'' \<and> slash \<notin> set w"

lemma cleanStep_proper:
  "list_all properComp st \<Longrightarrow> slash \<notin> set w \<Longrightarrow> list_all properComp (cleanStep True st w)"
  by (auto simp: properComp_def split: list.splits)

lemma foldl_clean_proper:
  "list_all properComp st \<Longrightarrow> \<forall>w \<in> set ws. slash \<notin> set w \<Longrightarrow>
     list_all properComp (foldl (cleanStep True) st ws)"
  by (induction ws arbitrary: st) (simp_all add: cleanStep_proper del: cleanStep.simps)

lemma cleanComps_proper: "list_all properComp (cleanComps True (splitOn slash p))"
  unfolding cleanComps_def list_all_rev
  by (rule foldl_clean_proper) (auto dest: splitOn_no_sep)

lemma pathClean_rooted:
  "hd p = slash \<Longrightarrow> p \<noteq> [] \<Longrightarrow>
     pathClean p = slash # joinWith ''/'' (cleanComps True (splitOn slash p))"
  by (simp add: pathClean_def)

lemma pathClean_comps:
  assumes "p \<noteq> []" "hd p = slash"
  obtains ws where "pathClean p = slash # joinWith ''/'' ws" "list_all properComp ws"
  using assms pathClean_rooted [of p] cleanComps_proper [of p] by auto

lemma foldl_clean_id:
  "list_all properComp ws \<Longrightarrow> foldl (cleanStep r) st ws = rev ws @ st"
  by (induction ws arbitrary: st) (auto simp: properComp_def)

lemma cleanComps_id: "list_all properComp ws \<Longrightarrow> cleanComps r ws = ws"
  by (simp add: cleanComps_def foldl_clean_id)

lemma pathClean_proper:
  assumes "list_all properComp ws"
  shows "pathClean (slash # joinWith ''/'' ws) = slash # joinWith ''/'' ws"
proof (cases "ws = []")
  case True
  then show ?thesis by (simp add: pathClean_def cleanComps_def)
next
  case False
  have "\<forall>w \<in> set ws. slash \<notin> set w" using assms by (auto simp: list_all_iff properComp_def)
  with False have "splitOn slash (joinWith ''/'' ws) = ws" by (rule splitOn_joinWith)
  moreover have "cleanComps True ([] # ws) = cleanComps True ws"
    by (simp add: cleanComps_def)
  ultimately show ?thesis using assms by (simp add: pathClean_rooted cleanComps_id)
qed

lemma pathClean_idem:
  assumes "p \<noteq> []" "hd p = slash"
  shows "pathClean (pathClean p) = pathClean p"
  using assms by (metis pathClean_comps pathClean_proper)

lemma byteOf_char_of: "n < 256 \<Longrightarrow> byteOf (char_of n) = n"
  by (simp add: byteOf_def of_char_of)

lemma decNat_digits: "list_all isDigitByte (decNat n)"
proof (induction n rule: decNat.induct)
  case (1 n)
  have "\<And>k::nat. k < 10 \<Longrightarrow> isDigitByte (char_of (48 + k))"
    by (simp add: isDigitByte_def byteOf_char_of)
  then have "n < 10 \<longrightarrow> isDigitByte (char_of (48 + n))" "isDigitByte (char_of (48 + n mod 10))"
    by simp_all
  with 1 show ?case
    by (subst decNat.simps) (cases "n < 10"; simp)
qed

lemma decNat_nonempty [simp]: "decNat n \<noteq> []"
  by (subst decNat.simps) simp

lemma digitsVal_append1: "digitsVal (s @ [c]) = digitsVal s * 10 + (byteOf c - 48)"
  by (simp add: digitsVal_def)

lemma digitsVal_decNat: "digitsVal (decNat n) = n"
proof (induction n rule: decNat.induct)
  case (1 n)
  show ?case
  proof (cases "n < 10")
    case True
    then show ?thesis by (subst decNat.simps) (simp add: digitsVal_def byteOf_char_of)
  next
    case False
    have "48 + n mod 10 < 256" using mod_less_divisor [of 10 n] by linarith
    with False 1 show ?thesis
      by (subst decNat.simps) (simp add: digitsVal_append1 byteOf_char_of)
  qed
qed

lemma parseDigits_decNat: "parseDigits (decNat n) = Some n"
  by (simp add: parseDigits_def decNat_digits digitsVal_decNat)

lemma decNat_head:
  obtains c cs where "decNat n = c # cs" "isDigitByte c"
  using decNat_digits [of n] decNat_nonempty [of n] by (cases "decNat n") auto

lemma isDigitByte_sign [simp]: "\<not> isDigitByte (CHR ''-'')" "\<not> isDigitByte (CHR ''+'')"
  by (simp_all add: isDigitByte_def byteOf_def)

lemma parseInt64_itoa: "inInt64 n \<Longrightarrow> parseInt64 (itoa n) = Some n"
proof (cases "n < 0")
  case False
  assume "inInt64 n"
  obtain c cs where d: "decNat (nat n) = c # cs" "isDigitByte c" by (rule decNat_head)
  then have "c \<noteq> CHR ''-''" "c \<noteq> CHR ''+''" by auto
  with d False \<open>inInt64 n\<close> show ?thesis
    using parseDigits_decNat [of "nat n"] by (simp add: parseInt64_def itoa_def)
qed (simp add: parseInt64_def itoa_def parseDigits_decNat)

lemma decNat_zero_head: "hd (decNat n) = CHR ''0'' \<Longrightarrow> n = 0"
proof (induction n rule: decNat.induct)
  case (1 n)
  show ?case
  proof (cases "n < 10")
    case True
    with 1(2) have "byteOf (char_of (48 + n)) = byteOf (CHR ''0'')"
      by (metis decNat.simps list.sel(1))
    with True show ?thesis by (simp add: byteOf_char_of) (simp add: byteOf_def)
  next
    case False
    then have "hd (decNat n) = hd (decNat (n div 10))"
      by (subst decNat.simps) simp
    with 1 False show ?thesis by simp
  qed
qed

text \<open>The rules that evaluate the functions above on a concrete string.\<close>

lemma char_of_eval: "char_of n = Char (odd n) (odd (n div 2)) (odd (n div 4)) (odd (n div 8))
    (odd (n div 16)) (odd (n div 32)) (odd (n div 64)) (odd (n div 128))" for n :: nat
  by (simp add: char_of_def bit_iff_odd)

lemmas go_eval = trimSpace_def segments.simps Let_def byteOf_def isSpace_def toLower_def
  toLowerRune_def asciiUpper_def asciiLower_def asciiDigit_def encodeRune_def char_of_eval
  isDigitByte_def runes_def runeCount_def foldRune_def equalFoldAscii_def hasPrefix_def hasSuffix_def
  isControl_def isLetter_def isDigit_def trimPrefix_def trimSuffix_def isCont_def secondOk_def

end
