(* ===== verification/Events.thy ===== *)
theory Events
  imports GoStrings
begin

text \<open>
  The dynamic values that payloads carry, and the event vocabulary of \<open>internal/domain/event.go\<close>
  and \<open>internal/domain/pending.go\<close>: event types, drafts and committed events, which types a
  client may submit, when an event counts as processed on receipt, and how a client resolution
  refers to the action it answers.
\<close>

section \<open>Dynamic values\<close>

text \<open>
  Go's \<open>any\<close> as the program uses it: decoded JSON (\<open>JNum\<close> is a \<open>float64\<close>, read as the exact
  number it denotes), plus the Go-typed values that payloads built in process hold (\<open>JInt\<close> for
  \<open>int\<close>, \<open>int32\<close>, \<open>int64\<close>; \<open>JStrs\<close> for \<open>[]string\<close>; \<open>JBytes\<close> for \<open>[]byte\<close> and
  \<open>json.RawMessage\<close>; \<open>JSMap\<close> for \<open>map[string]string\<close>). An absent key reads as \<open>None\<close>.
\<close>

datatype jval =
    JNull
  | JBool bool
  | JInt int
  | JNum rat
  | JStr string
  | JArr "jval list"
  | JStrs "string list"
  | JBytes string
  | JSMap "(string \<times> string) list"
  | JObj "(string \<times> jval) list"

type_synonym payload = "(string \<times> jval) list"

definition jget :: "payload \<Rightarrow> string \<Rightarrow> jval option" where
  "jget p k = map_of p k"

text \<open>Type assertions with the comma-ok form: the zero value where the type does not match.\<close>

fun asStr :: "jval option \<Rightarrow> string option" where
  "asStr (Some (JStr s)) = Some s"
| "asStr _ = None"

definition strOf :: "jval option \<Rightarrow> string" where
  "strOf v = (case asStr v of Some s \<Rightarrow> s | None \<Rightarrow> [])"

fun asBool :: "jval option \<Rightarrow> bool option" where
  "asBool (Some (JBool b)) = Some b"
| "asBool _ = None"

definition boolOf :: "jval option \<Rightarrow> bool" where
  "boolOf v = (case asBool v of Some b \<Rightarrow> b | None \<Rightarrow> False)"

fun asObj :: "jval option \<Rightarrow> payload option" where
  "asObj (Some (JObj m)) = Some m"
| "asObj _ = None"

definition objOf :: "jval option \<Rightarrow> payload" where
  "objOf v = (case asObj v of Some m \<Rightarrow> m | None \<Rightarrow> [])"

fun asArr :: "jval option \<Rightarrow> jval list option" where
  "asArr (Some (JArr xs)) = Some xs"
| "asArr _ = None"

fun asNum :: "jval option \<Rightarrow> rat option" where
  "asNum (Some (JNum x)) = Some x"
| "asNum _ = None"

lemma strOf_simps [simp]:
  "strOf None = []" "strOf (Some (JStr s)) = s" "strOf (Some JNull) = []"
  "strOf (Some (JObj m)) = []" "strOf (Some (JArr xs)) = []" "strOf (Some (JBool b)) = []"
  by (simp_all add: strOf_def)

lemma strOf_nonempty: "strOf v \<noteq> [] \<Longrightarrow> v = Some (JStr (strOf v))"
  by (cases v rule: asStr.cases) (auto simp: strOf_def)

text \<open>
  A slice that may be nil, and \<open>reflect.DeepEqual\<close> on the values above: maps are compared by
  their entries, whatever their order.
\<close>

type_synonym 'a slice = "'a list option"

definition elems :: "'a slice \<Rightarrow> 'a list" where
  "elems s = (case s of None \<Rightarrow> [] | Some xs \<Rightarrow> xs)"

lemma size_entry: "(k, v) \<in> set xs \<Longrightarrow> size v < Suc (size_list (size_prod (\<lambda>_. 0) size) xs)"
  by (induction xs) auto

lemma size_zipped: "(v, w) \<in> set (zip xs ys) \<Longrightarrow> size v < Suc (size_list size xs)"
  by (induction xs ys rule: list_induct2') auto

function (sequential) deepEq :: "jval \<Rightarrow> jval \<Rightarrow> bool" where
  "deepEq (JObj xs) (JObj ys) =
     (length xs = length ys
      \<and> list_all (\<lambda>(k, v). case map_of ys k of None \<Rightarrow> False | Some w \<Rightarrow> deepEq v w) xs)"
| "deepEq (JArr xs) (JArr ys) =
     (length xs = length ys \<and> list_all (\<lambda>(v, w). deepEq v w) (zip xs ys))"
| "deepEq (JSMap xs) (JSMap ys) =
     (length xs = length ys \<and> list_all (\<lambda>(k, v). map_of ys k = Some v) xs)"
| "deepEq v w = (v = w)"
  by pat_completeness auto
termination
  by (relation "measure (\<lambda>(v, _). size v)") (auto dest: size_entry size_zipped)

definition metaEq :: "payload option \<Rightarrow> payload option \<Rightarrow> bool" where
  "metaEq a b \<longleftrightarrow>
     (case (a, b) of
        (None, None) \<Rightarrow> True
      | (Some x, Some y) \<Rightarrow> deepEq (JObj x) (JObj y)
      | _ \<Rightarrow> False)"

definition listEq :: "jval slice \<Rightarrow> jval slice \<Rightarrow> bool" where
  "listEq a b \<longleftrightarrow>
     (case (a, b) of
        (None, None) \<Rightarrow> True
      | (Some x, Some y) \<Rightarrow> deepEq (JArr x) (JArr y)
      | _ \<Rightarrow> False)"

section \<open>Event types (internal/domain/event.go)\<close>

definition EvUserMessage :: string where "EvUserMessage = ''user.message''"
definition EvUserInterrupt :: string where "EvUserInterrupt = ''user.interrupt''"
definition EvUserToolConfirmation :: string where
  "EvUserToolConfirmation = ''user.tool_confirmation''"
definition EvUserCustomToolResult :: string where
  "EvUserCustomToolResult = ''user.custom_tool_result''"
definition EvUserToolResult :: string where "EvUserToolResult = ''user.tool_result''"
definition EvUserDefineOutcome :: string where "EvUserDefineOutcome = ''user.define_outcome''"
definition EvSystemMessage :: string where "EvSystemMessage = ''system.message''"
definition EvAgentMessage :: string where "EvAgentMessage = ''agent.message''"
definition EvAgentThinking :: string where "EvAgentThinking = ''agent.thinking''"
definition EvAgentCustomToolUse :: string where "EvAgentCustomToolUse = ''agent.custom_tool_use''"
definition EvAgentToolUse :: string where "EvAgentToolUse = ''agent.tool_use''"
definition EvAgentToolResult :: string where "EvAgentToolResult = ''agent.tool_result''"
definition EvAgentMcpToolUse :: string where "EvAgentMcpToolUse = ''agent.mcp_tool_use''"
definition EvAgentMcpToolResult :: string where "EvAgentMcpToolResult = ''agent.mcp_tool_result''"
definition EvSessionStatusIdle :: string where "EvSessionStatusIdle = ''session.status_idle''"
definition EvSessionStatusRunning :: string where
  "EvSessionStatusRunning = ''session.status_running''"
definition EvSessionStatusTerminated :: string where
  "EvSessionStatusTerminated = ''session.status_terminated''"
definition EvSessionStatusRescheduling :: string where
  "EvSessionStatusRescheduling = ''session.status_rescheduled''"
definition EvSessionError :: string where "EvSessionError = ''session.error''"
definition EvSessionUpdated :: string where "EvSessionUpdated = ''session.updated''"
definition EvSessionUsage :: string where "EvSessionUsage = ''session.usage''"
definition EvSessionDeleted :: string where "EvSessionDeleted = ''session.deleted''"
definition EvSessionThreadStatusIdle :: string where
  "EvSessionThreadStatusIdle = ''session.thread_status_idle''"
definition EvSessionThreadStatusRunning :: string where
  "EvSessionThreadStatusRunning = ''session.thread_status_running''"
definition EvSessionThreadStatusTerminated :: string where
  "EvSessionThreadStatusTerminated = ''session.thread_status_terminated''"
definition EvSessionThreadStatusRescheduled :: string where
  "EvSessionThreadStatusRescheduled = ''session.thread_status_rescheduled''"
definition EvAgentThreadMessageReceived :: string where
  "EvAgentThreadMessageReceived = ''agent.thread_message_received''"
definition EvAgentThreadMessageSent :: string where
  "EvAgentThreadMessageSent = ''agent.thread_message_sent''"
definition EvSpanOutcomeEvaluationStart :: string where
  "EvSpanOutcomeEvaluationStart = ''span.outcome_evaluation_start''"
definition EvSpanOutcomeEvaluationOngoing :: string where
  "EvSpanOutcomeEvaluationOngoing = ''span.outcome_evaluation_ongoing''"
definition EvSpanOutcomeEvaluationEnd :: string where
  "EvSpanOutcomeEvaluationEnd = ''span.outcome_evaluation_end''"

definition InternalCompanionSystemEventID :: string where
  "InternalCompanionSystemEventID = ''__companion_system_event_id''"
definition InternalCompanionSystemContent :: string where
  "InternalCompanionSystemContent = ''__companion_system_content''"
definition InternalToolExecutionOwner :: string where
  "InternalToolExecutionOwner = ''__tool_execution_owner''"
definition InternalOutcomeEvaluationStart :: string where
  "InternalOutcomeEvaluationStart = ''__outcome_evaluation_start_id''"
definition InternalOutcomeIteration :: string where
  "InternalOutcomeIteration = ''__outcome_evaluation_iteration''"
definition InternalOutcomeRubricContent :: string where
  "InternalOutcomeRubricContent = ''__outcome_rubric_content''"
definition InternalFileMessageContents :: string where
  "InternalFileMessageContents = ''__file_message_contents''"

lemmas event_type_defs =
  EvUserMessage_def EvUserInterrupt_def EvUserToolConfirmation_def EvUserCustomToolResult_def
  EvUserToolResult_def EvUserDefineOutcome_def EvSystemMessage_def EvAgentMessage_def
  EvAgentThinking_def EvAgentCustomToolUse_def EvAgentToolUse_def EvAgentToolResult_def
  EvAgentMcpToolUse_def EvAgentMcpToolResult_def EvSessionStatusIdle_def EvSessionStatusRunning_def
  EvSessionStatusTerminated_def EvSessionStatusRescheduling_def EvSessionError_def
  EvSessionUpdated_def EvSessionUsage_def EvSessionDeleted_def EvSessionThreadStatusIdle_def
  EvSessionThreadStatusRunning_def EvSessionThreadStatusTerminated_def
  EvSessionThreadStatusRescheduled_def EvAgentThreadMessageReceived_def EvAgentThreadMessageSent_def
  EvSpanOutcomeEvaluationStart_def EvSpanOutcomeEvaluationOngoing_def EvSpanOutcomeEvaluationEnd_def

section \<open>Drafts and committed events\<close>

record EventDraft =
  d_ID :: string
  d_Type :: string
  d_Payload :: payload

record Event =
  e_ID :: string
  e_SessionID :: string
  e_ThreadID :: string
  e_Sequence :: int
  e_Type :: string
  e_Payload :: payload
  e_TurnEventID :: "string option"
  e_CreatedAt :: time
  e_ProcessedAt :: "time option"

section \<open>Classification\<close>

definition IsUserEvent :: "string \<Rightarrow> bool" where
  "IsUserEvent t \<longleftrightarrow>
     t \<in> {EvUserMessage, EvUserInterrupt, EvUserToolConfirmation, EvUserCustomToolResult,
          EvUserToolResult, EvUserDefineOutcome}"

definition IsClientSubmittable :: "string \<Rightarrow> bool" where
  "IsClientSubmittable t \<longleftrightarrow> IsUserEvent t \<or> t = EvSystemMessage"

definition IsAgentToolUse :: "string \<Rightarrow> bool" where
  "IsAgentToolUse t \<longleftrightarrow> t \<in> {EvAgentToolUse, EvAgentMcpToolUse, EvAgentCustomToolUse}"

definition AgentToolResultReference :: "string \<Rightarrow> payload \<Rightarrow> string \<times> bool" where
  "AgentToolResultReference eventType p =
     (if eventType = EvAgentToolResult then (strOf (jget p ''tool_use_id''), True)
      else if eventType = EvAgentMcpToolResult then (strOf (jget p ''mcp_tool_use_id''), True)
      else ([], False))"

definition AgentToolResultTypeFor :: "string \<Rightarrow> string" where
  "AgentToolResultTypeFor toolUseEventType =
     (if toolUseEventType = EvAgentMcpToolUse then EvAgentMcpToolResult else EvAgentToolResult)"

definition IsInitialEventType :: "string \<Rightarrow> bool" where
  "IsInitialEventType t \<longleftrightarrow> t = EvUserMessage \<or> t = EvUserDefineOutcome"

definition ProcessedOnReceipt :: "string \<Rightarrow> bool" where
  "ProcessedOnReceipt t \<longleftrightarrow>
     (if t = EvAgentThreadMessageReceived then False
      else if \<not> IsClientSubmittable t then True
      else t \<in> {EvUserDefineOutcome, EvUserCustomToolResult, EvUserToolResult})"

section \<open>Pending actions (internal/domain/pending.go)\<close>

datatype PendingActionKind =
    PendingCustomToolResult
  | PendingToolConfirmation
  | PendingToolResult

record PendingAction =
  pa_ID :: string
  pa_SessionID :: string
  pa_ThreadID :: string
  pa_ActionEventID :: string
  pa_ClientActionEventID :: string
  pa_Kind :: PendingActionKind
  pa_ResolvingEventID :: "string option"
  pa_CreatedAt :: time
  pa_ResolvedAt :: "time option"

definition PendingActionKindForEvent :: "string \<Rightarrow> payload \<Rightarrow> PendingActionKind option" where
  "PendingActionKindForEvent eventType p =
     (if eventType = EvAgentCustomToolUse then Some PendingCustomToolResult
      else if eventType = EvAgentToolUse \<or> eventType = EvAgentMcpToolUse then
        (if strOf (jget p InternalToolExecutionOwner) = ''self_hosted'' then Some PendingToolResult
         else if strOf (jget p ''evaluated_permission'') = ''ask'' then Some PendingToolConfirmation
         else None)
      else None)"

definition ResolutionReference :: "string \<Rightarrow> payload \<Rightarrow> (string \<times> PendingActionKind) option" where
  "ResolutionReference eventType p =
     (if eventType = EvUserCustomToolResult then
        (let i = strOf (jget p ''custom_tool_use_id'')
         in if i = [] then None else Some (i, PendingCustomToolResult))
      else if eventType = EvUserToolConfirmation then
        (let i = strOf (jget p ''tool_use_id'')
         in if i = [] then None else Some (i, PendingToolConfirmation))
      else if eventType = EvUserToolResult then
        (let i = strOf (jget p ''tool_use_id'')
         in if i = [] then None else Some (i, PendingToolResult))
      else None)"

section \<open>Lemmas\<close>

text \<open>Values in which no object repeats a key, as every decoded value is.\<close>

fun wfJson :: "jval \<Rightarrow> bool" where
  "wfJson (JObj xs) = (wfmap xs \<and> list_all (\<lambda>(k, v). wfJson v) xs)"
| "wfJson (JArr xs) = list_all wfJson xs"
| "wfJson (JSMap xs) = wfmap xs"
| "wfJson _ = True"

lemma deepEq_refl: "wfJson v \<Longrightarrow> deepEq v v"
proof (induction v rule: wfJson.induct)
  case (1 xs)
  then show ?case by (auto simp: list_all_iff wfmap_def)
next
  case (2 xs)
  then show ?case by (auto simp: list_all_iff set_zip)
next
  case (3 xs)
  then show ?case by (auto simp: list_all_iff wfmap_def)
qed simp_all

lemma ResolutionReference_nonempty: "ResolutionReference t p = Some (i, k) \<Longrightarrow> i \<noteq> []"
  by (auto simp: ResolutionReference_def Let_def split: if_splits)

lemma ResolutionReference_submittable: "ResolutionReference t p = Some r \<Longrightarrow> IsClientSubmittable t"
  by (auto simp: ResolutionReference_def IsClientSubmittable_def IsUserEvent_def split: if_splits)

lemma PendingActionKind_toolUse: "PendingActionKindForEvent t p = Some k \<Longrightarrow> IsAgentToolUse t"
  by (auto simp: PendingActionKindForEvent_def IsAgentToolUse_def split: if_splits)

lemma toolUse_not_submittable: "IsAgentToolUse t \<Longrightarrow> \<not> IsClientSubmittable t"
  by (auto simp: IsAgentToolUse_def IsClientSubmittable_def IsUserEvent_def event_type_defs)

text \<open>
  An event that can park a run is emitted by the server, an event that resolves one is
  submitted by a client, and no event type is both: a client can neither park a run nor forge
  the kind that the server parked.
\<close>

theorem park_and_resolve_disjoint:
  "PendingActionKindForEvent t p = None \<or> ResolutionReference t q = None"
proof (cases "PendingActionKindForEvent t p")
  case (Some k)
  then have "\<not> IsClientSubmittable t"
    by (blast dest: PendingActionKind_toolUse toolUse_not_submittable)
  then show ?thesis
    by (cases "ResolutionReference t q") (auto dest: ResolutionReference_submittable)
qed simp

end
