(* ===== verification/Doubles.thy ===== *)
theory Doubles
  imports Complex_Main "HOL-Library.Log_Nat"
begin

text \<open>
  Go's \<open>float64\<close>. A finite double is the rational number it denotes, and an operation rounds the exact result to the
  nearest double, ties to the even significand. The values of this program (seconds and nano-dollars) are zero or lie
  far inside the normal range, so that neither overflow nor gradual underflow is modelled.
\<close>

section \<open>Rounding\<close>

definition roundEven :: "rat \<Rightarrow> int" where
  "roundEven x = (let n = \<lfloor>x\<rfloor>; d = x - of_int n in if d < 1 / 2 \<or> d = 1 / 2 \<and> even n then n else n + 1)"

text \<open>The exponent of the leading binary digit.\<close>

definition binade :: "rat \<Rightarrow> int" where
  "binade x = (let (p, q) = quotient_of x; k = bitlen p - bitlen q in if 2 powi k \<le> x then k else k - 1)"

definition float64 :: "rat \<Rightarrow> rat" where
  "float64 x =
     (if x = 0 then 0 else let ulp = 2 powi (binade \<bar>x\<bar> - 52) in of_int (roundEven (x / ulp)) * ulp)"

lemma roundEven_mono:
  assumes "x \<le> y" shows "roundEven x \<le> roundEven y"
proof (cases "\<lfloor>x\<rfloor> = \<lfloor>y\<rfloor>")
  case True
  with assms show ?thesis by (auto simp: roundEven_def Let_def)
next
  case False
  with floor_mono [OF assms] have "\<lfloor>x\<rfloor> + 1 \<le> \<lfloor>y\<rfloor>" by linarith
  then show ?thesis by (auto simp: roundEven_def Let_def)
qed

lemma roundEven_int [simp]: "roundEven (of_int n) = n"
  by (simp add: roundEven_def)

lemma roundEven_near: "\<bar>of_int (roundEven x) - x\<bar> \<le> 1 / 2"
proof -
  have "of_int \<lfloor>x\<rfloor> \<le> x" "x < of_int \<lfloor>x\<rfloor> + 1" by linarith+
  then show ?thesis unfolding roundEven_def Let_def abs_le_iff by (simp; linarith)
qed

lemma binade_bounds:
  assumes "0 < x" shows "2 powi binade x \<le> x" "x < 2 powi (binade x + 1)"
proof -
  obtain p q where pq: "quotient_of x = (p, q)" by (cases "quotient_of x")
  then have q: "0 < q" and x: "x = of_int p / of_int q" using quotient_of_denom_pos quotient_of_div by blast+
  have p: "0 < p" using assms q unfolding x by (simp add: zero_less_divide_iff)
  let ?m = "bitlen p" and ?n = "bitlen q"
  have mn: "1 \<le> ?m" "1 \<le> ?n" using p q bitlen_nonneg bitlen_eq_zero_iff by (smt (verit))+
  have pw: "(of_int (2 ^ nat k) :: rat) = 2 powi k" if "0 \<le> k" for k using that by (simp add: power_int_def)
  have b: "2 powi (?m - 1) \<le> (of_int p :: rat)" "(of_int p :: rat) < 2 powi ?m"
      "2 powi (?n - 1) \<le> (of_int q :: rat)" "(of_int q :: rat) < 2 powi ?n"
    using bitlen_bounds [OF p] bitlen_bounds [OF q] mn by (simp_all flip: pw)
  have q': "(0 :: rat) < of_int q" using q by simp
  have split: "(2 :: rat) powi (i + j) = 2 powi i * 2 powi j" for i j by (simp add: power_int_add)
  have "2 powi (?m - ?n - 1) * of_int q \<le> (2 powi (?m - ?n - 1) * 2 powi ?n :: rat)"
    using b(4) by (intro mult_left_mono) auto
  also have "\<dots> = 2 powi (?m - 1)" by (simp flip: split)
  also have "\<dots> \<le> of_int p" by (rule b)
  finally have lo: "2 powi (?m - ?n - 1) \<le> x" unfolding x using q' by (simp add: pos_le_divide_eq)
  have "of_int p < (2 powi (?m - ?n + 1) * 2 powi (?n - 1) :: rat)" using b(2) by (simp flip: split)
  also have "\<dots> \<le> 2 powi (?m - ?n + 1) * of_int q" using b(3) by (intro mult_left_mono) auto
  finally have hi: "x < 2 powi (?m - ?n + 1)" unfolding x using q' by (simp add: pos_divide_less_eq)
  show "2 powi binade x \<le> x" "x < 2 powi (binade x + 1)" using lo hi by (auto simp: binade_def pq Let_def)
qed

lemma powi_shift: "2 powi binade x = (2 ^ 52 * 2 powi (binade x - 52) :: rat)"
    "2 powi (binade x + 1) = (2 ^ 53 * 2 powi (binade x - 52) :: rat)"
proof -
  have "(2 :: rat) powi (52 + (binade x - 52)) = 2 powi 52 * 2 powi (binade x - 52)"
    "(2 :: rat) powi (53 + (binade x - 52)) = 2 powi 53 * 2 powi (binade x - 52)"
    by (rule power_int_add; simp)+
  then show "2 powi binade x = (2 ^ 52 * 2 powi (binade x - 52) :: rat)"
    "2 powi (binade x + 1) = (2 ^ 53 * 2 powi (binade x - 52) :: rat)"
    by (simp_all only: power_int_numeral) (simp_all add: add.commute)
qed

lemma powi_mono: "i \<le> j \<Longrightarrow> (2 :: rat) powi i \<le> 2 powi j"
  by (rule power_int_increasing) simp_all

lemma binade_mono:
  assumes "0 < x" "x \<le> y" shows "binade x \<le> binade y"
proof (rule ccontr)
  assume "\<not> binade x \<le> binade y"
  then have "2 powi (binade y + 1) \<le> (2 powi binade x :: rat)" by (intro powi_mono) simp
  with binade_bounds [OF assms(1)] binade_bounds [of y] assms show False by force
qed

text \<open>The significand of a positive number is at least the hidden bit and at most the next power.\<close>

lemma significand_bounds:
  assumes "0 < x"
  shows "2 ^ 52 \<le> roundEven (x / 2 powi (binade x - 52))" "roundEven (x / 2 powi (binade x - 52)) \<le> 2 ^ 53"
proof -
  let ?u = "2 powi (binade x - 52) :: rat"
  have u: "0 < ?u" by simp
  have "2 ^ 52 \<le> x / ?u" "x / ?u \<le> 2 ^ 53"
    using binade_bounds [OF assms] unfolding powi_shift pos_le_divide_eq [OF u] pos_divide_le_eq [OF u] by - (assumption, rule less_imp_le)
  then have "of_int (2 ^ 52) \<le> x / ?u" "x / ?u \<le> of_int (2 ^ 53)" by simp_all
  from this [THEN roundEven_mono] show "2 ^ 52 \<le> roundEven (x / ?u)" "roundEven (x / ?u) \<le> 2 ^ 53" by (simp_all only: roundEven_int)
qed

lemma float64_zero [simp]: "float64 0 = 0"
  by (simp add: float64_def)

lemma float64_binade:
  assumes "0 < x" shows "2 powi binade x \<le> float64 x" "float64 x \<le> 2 powi (binade x + 1)"
proof -
  let ?u = "2 powi (binade x - 52) :: rat"
  have e: "float64 x = of_int (roundEven (x / ?u)) * ?u" using assms by (simp add: float64_def Let_def)
  have p: "(2 :: rat) powi binade x = of_int (2 ^ 52) * ?u" "(2 :: rat) powi (binade x + 1) = of_int (2 ^ 53) * ?u"
    unfolding powi_shift by simp_all
  have "of_int (2 ^ 52) \<le> (of_int (roundEven (x / ?u)) :: rat)" "(of_int (roundEven (x / ?u)) :: rat) \<le> of_int (2 ^ 53)"
    using significand_bounds [OF assms] by (simp_all only: of_int_le_iff)
  then show "2 powi binade x \<le> float64 x" "float64 x \<le> 2 powi (binade x + 1)"
    unfolding e p by (auto intro: mult_right_mono)
qed

lemma float64_nonneg: "0 \<le> x \<Longrightarrow> 0 \<le> float64 x"
  using float64_binade(1) [of x] by (cases "x = 0") (auto intro: order_trans [rotated])

lemma float64_mono_nonneg:
  assumes "0 \<le> x" "x \<le> y" shows "float64 x \<le> float64 y"
proof (cases "x = 0")
  case True
  with assms show ?thesis by (simp add: float64_nonneg)
next
  case False
  with assms have pos: "0 < x" "0 < y" by auto
  show ?thesis
  proof (cases "binade x = binade y")
    case True
    let ?u = "2 powi (binade y - 52) :: rat"
    have "roundEven (x / ?u) \<le> roundEven (y / ?u)" using assms(2) by (intro roundEven_mono divide_right_mono) auto
    then have "(of_int (roundEven (x / ?u)) :: rat) * ?u \<le> of_int (roundEven (y / ?u)) * ?u"
      by (intro mult_right_mono) auto
    with pos True show ?thesis by (simp add: float64_def Let_def)
  next
    case False
    with binade_mono [OF pos(1) assms(2)] have "binade x + 1 \<le> binade y" by simp
    from float64_binade(2) [OF pos(1)] powi_mono [OF this] float64_binade(1) [OF pos(2)] show ?thesis by linarith
  qed
qed

lemma roundEven_minus: "roundEven (- x) = - roundEven x"
proof (cases "x = of_int \<lfloor>x\<rfloor>")
  case True
  then show ?thesis by (metis of_int_minus roundEven_int)
next
  case False
  then have fl: "\<lfloor>- x\<rfloor> = - \<lfloor>x\<rfloor> - 1" by linarith
  define n where "n = \<lfloor>x\<rfloor>"
  have "even (- n - 1) \<longleftrightarrow> odd n" by presburger
  then show ?thesis unfolding roundEven_def Let_def fl n_def [symmetric] by (auto simp: field_simps)
qed

lemma float64_minus: "float64 (- x) = - float64 x"
  by (simp add: float64_def Let_def roundEven_minus)

lemma float64_mono:
  assumes "x \<le> y" shows "float64 x \<le> float64 y"
proof -
  consider "0 \<le> x" | "x < 0" "0 \<le> y" | "y < 0" by linarith
  then show ?thesis
  proof cases
    case 2
    then show ?thesis using float64_nonneg [of "- x"] float64_nonneg [of y] by (simp add: float64_minus)
  next
    case 3
    then show ?thesis using float64_mono_nonneg [of "- y" "- x"] assms by (simp add: float64_minus)
  qed (use assms float64_mono_nonneg in blast)
qed

text \<open>The relative error is at most half a unit in the last place.\<close>

lemma float64_near:
  assumes "0 \<le> x" shows "\<bar>float64 x - x\<bar> \<le> x / 2 ^ 53"
proof (cases "x = 0")
  case False
  with assms have pos: "0 < x" by simp
  let ?u = "2 powi (binade x - 52) :: rat"
  have u: "0 < ?u" by simp
  have "float64 x - x = (of_int (roundEven (x / ?u)) - x / ?u) * ?u" using pos u by (simp add: float64_def Let_def left_diff_distrib)
  then have "\<bar>float64 x - x\<bar> = \<bar>of_int (roundEven (x / ?u)) - x / ?u\<bar> * ?u" using u by (simp add: abs_mult)
  also have "\<dots> \<le> 1 / 2 * ?u" by (intro mult_right_mono roundEven_near) auto
  also have "\<dots> = 2 powi binade x / 2 ^ 53"
    unfolding powi_shift by simp
  also have "\<dots> \<le> x / 2 ^ 53" using binade_bounds(1) [OF pos] by (intro divide_right_mono) auto
  finally show ?thesis .
qed simp

lemma float64_bounds:
  assumes "0 \<le> x" shows "float64 x \<le> (1 + 1 / 2 ^ 53) * x" "(1 - 1 / 2 ^ 53) * x \<le> float64 x"
  using float64_near [OF assms] by (simp_all only: abs_le_iff distrib_right left_diff_distrib) simp_all

lemma float64_one [simp]: "float64 1 = 1"
  by code_simp

section \<open>Seconds of a duration\<close>

text \<open>
  \<open>time.Duration.Seconds\<close>: whole seconds and nanoseconds, both exact as doubles, the quotient and the sum rounded.
\<close>

definition seconds :: "int \<Rightarrow> rat" where
  "seconds d =
     (let n = \<bar>d\<bar>; s = float64 (of_int (n div 1000000000) + float64 (of_int (n mod 1000000000) / 1000000000))
      in if d < 0 then - s else s)"

lemma seconds_zero [simp]: "seconds 0 = 0"
  by (simp add: seconds_def)

lemma seconds_pos: "0 \<le> d \<Longrightarrow>
    seconds d = float64 (of_int (d div 1000000000) + float64 (of_int (d mod 1000000000) / 1000000000))"
  by (simp add: seconds_def)

lemma parts_nonneg: "0 \<le> d \<Longrightarrow> 0 \<le> (of_int (d div 1000000000) :: rat)" "0 \<le> d \<Longrightarrow> 0 \<le> (of_int (d mod 1000000000) :: rat) / 1000000000"
  by (simp_all add: pos_imp_zdiv_nonneg_iff)

lemma seconds_nonneg [simp]: "0 \<le> d \<Longrightarrow> 0 \<le> seconds d"
  unfolding seconds_pos by (intro float64_nonneg add_nonneg_nonneg parts_nonneg)

lemma seconds_nonpos: "d \<le> 0 \<Longrightarrow> seconds d \<le> 0"
  using seconds_nonneg [of "- d"] by (cases "d = 0") (auto simp: seconds_def Let_def)

lemma seconds_mono_nonneg:
  assumes "0 \<le> a" "a \<le> b" shows "seconds a \<le> seconds b"
proof -
  let ?q = "\<lambda>d. of_int (d div 1000000000) :: rat" and ?r = "\<lambda>d. float64 (of_int (d mod 1000000000) / 1000000000)"
  have "?q a + ?r a \<le> ?q b + ?r b"
  proof (cases "a div 1000000000 = b div 1000000000")
    case True
    then have "a mod 1000000000 \<le> b mod 1000000000" using assms(2) by (smt (verit) div_mult_mod_eq)
    then have "?r a \<le> ?r b" by (intro float64_mono divide_right_mono) auto
    with True show ?thesis by simp
  next
    case False
    with zdiv_mono1 [OF assms(2), of 1000000000] have "a div 1000000000 + 1 \<le> b div 1000000000" by simp
    then have "?q a + 1 \<le> ?q b" by (simp flip: of_int_le_iff)
    moreover have "?r a \<le> float64 1" by (intro float64_mono) (auto intro: less_imp_le)
    moreover have "0 \<le> ?r b" by (intro float64_nonneg parts_nonneg) (use assms in auto)
    ultimately show ?thesis by simp
  qed
  then show ?thesis using assms unfolding seconds_pos [OF assms(1)] seconds_pos [OF order_trans [OF assms]]
    by (intro float64_mono)
qed

lemma seconds_mono: "a \<le> b \<Longrightarrow> max 0 (seconds a) \<le> max 0 (seconds b)"
  using seconds_mono_nonneg [of a b] seconds_nonpos [of a] by (cases "0 \<le> a") auto

text \<open>The number of seconds that a duration really has, and how far the double is from it.\<close>

definition exactSeconds :: "int \<Rightarrow> rat" where
  "exactSeconds d = of_int d / 1000000000"

abbreviation ulpUp :: rat where "ulpUp \<equiv> 1 + 1 / 2 ^ 53"
abbreviation ulpDown :: rat where "ulpDown \<equiv> 1 - 1 / 2 ^ 53"

lemma exactSeconds_parts: "exactSeconds d = of_int (d div 1000000000) + of_int (d mod 1000000000) / 1000000000"
proof -
  have "of_int d = (of_int (d div 1000000000 * 1000000000 + d mod 1000000000) :: rat)" by (simp only: div_mult_mod_eq)
  then show ?thesis unfolding exactSeconds_def of_int_add of_int_mult by (simp only: add_divide_distrib)
qed

lemma seconds_bounds:
  assumes "0 \<le> d" shows "seconds d \<le> ulpUp ^ 2 * exactSeconds d" "ulpDown ^ 2 * exactSeconds d \<le> seconds d"
proof -
  let ?q = "of_int (d div 1000000000) :: rat" and ?r = "of_int (d mod 1000000000) / 1000000000 :: rat"
  note pos = parts_nonneg [OF assms]
  have r: "float64 ?r \<le> ulpUp * ?r" "ulpDown * ?r \<le> float64 ?r" "0 \<le> float64 ?r"
    using float64_bounds [OF pos(2)] float64_nonneg [OF pos(2)] by auto
  have sum: "0 \<le> ?q + float64 ?r" using pos r(3) by simp
  have "?q + float64 ?r \<le> ulpUp * (?q + ?r)" unfolding distrib_left using r(1) pos by (intro add_mono) auto
  then have "ulpUp * (?q + float64 ?r) \<le> ulpUp * (ulpUp * (?q + ?r))" by (intro mult_left_mono) auto
  with float64_bounds(1) [OF sum] show "seconds d \<le> ulpUp ^ 2 * exactSeconds d"
    unfolding seconds_pos [OF assms] exactSeconds_parts power2_eq_square by (simp only: mult.assoc)
  have "ulpDown * (?q + ?r) \<le> ?q + float64 ?r" unfolding distrib_left using r(2) pos by (intro add_mono) auto
  then have "ulpDown * (ulpDown * (?q + ?r)) \<le> ulpDown * (?q + float64 ?r)" by (intro mult_left_mono) auto
  with float64_bounds(2) [OF sum] show "ulpDown ^ 2 * exactSeconds d \<le> seconds d"
    unfolding seconds_pos [OF assms] exactSeconds_parts power2_eq_square by (simp only: mult.assoc)
qed

lemma exactSeconds_add: "exactSeconds (a + b) = exactSeconds a + exactSeconds b"
  by (simp add: exactSeconds_def add_divide_distrib)

lemma exactSeconds_nonneg [simp]: "0 \<le> exactSeconds d \<longleftrightarrow> 0 \<le> d"
  by (simp add: exactSeconds_def zero_le_divide_iff)

lemma ulpUp_pow_mono: "m \<le> n \<Longrightarrow> ulpUp ^ m \<le> ulpUp ^ n"
  by (rule power_increasing) simp_all

text \<open>One more addition costs one more rounding.\<close>

lemma accumulated_seconds:
  assumes "0 \<le> a" "a \<le> ulpUp ^ (k + 2) * exactSeconds d" "0 \<le> d" "0 \<le> e"
  shows "float64 (a + seconds e) \<le> ulpUp ^ (k + 3) * exactSeconds (d + e)"
proof -
  have "seconds e \<le> ulpUp ^ 2 * exactSeconds e" by (rule seconds_bounds(1) [OF assms(4)])
  also have "\<dots> \<le> ulpUp ^ (k + 2) * exactSeconds e" by (intro mult_right_mono ulpUp_pow_mono) (use assms(4) in auto)
  finally have "a + seconds e \<le> ulpUp ^ (k + 2) * exactSeconds (d + e)"
    using assms(2) unfolding exactSeconds_add distrib_left by (rule add_mono [rotated])
  then have "ulpUp * (a + seconds e) \<le> ulpUp * (ulpUp ^ (k + 2) * exactSeconds (d + e))" by (rule mult_left_mono) simp
  moreover have "ulpUp * ulpUp ^ (k + 2) = ulpUp ^ (k + 3)" unfolding power_Suc [symmetric] by (simp only: add_2_eq_Suc' eval_nat_numeral add_Suc_right)
  moreover have "float64 (a + seconds e) \<le> ulpUp * (a + seconds e)" by (rule float64_bounds(1)) (use assms in simp)
  ultimately show ?thesis by (simp only: mult.assoc [symmetric])
qed

lemma later_seconds:
  assumes "a \<le> ulpUp ^ m * exactSeconds d" "0 \<le> d" "d \<le> e" "m \<le> n"
  shows "a \<le> ulpUp ^ n * exactSeconds e"
proof -
  have "exactSeconds d \<le> exactSeconds e" using assms(3) by (simp add: exactSeconds_def divide_right_mono)
  then have "ulpUp ^ m * exactSeconds d \<le> ulpUp ^ n * exactSeconds e"
    by (intro mult_mono ulpUp_pow_mono assms(4)) (use assms(2) in auto)
  with assms(1) show ?thesis by linarith
qed

text \<open>Against the double of the duration, with the distance from one to the next double.\<close>

abbreviation epsilon :: rat where "epsilon \<equiv> 1 / 2 ^ 52"

lemma reported_seconds:
  assumes "a \<le> ulpUp ^ n * exactSeconds d" "0 \<le> d"
  shows "a \<le> (1 + epsilon) ^ (n + 2) * seconds d"
proof -
  have "1 \<le> ((1 + epsilon) * ulpDown) ^ 2" by (rule one_le_power) simp
  then have "1 * exactSeconds d \<le> (1 + epsilon) ^ 2 * ulpDown ^ 2 * exactSeconds d"
    unfolding power_mult_distrib by (rule mult_right_mono) (use assms(2) in simp)
  also have "\<dots> \<le> (1 + epsilon) ^ 2 * seconds d"
    unfolding mult.assoc by (rule mult_left_mono [OF seconds_bounds(2) [OF assms(2)]]) simp
  finally have "exactSeconds d \<le> (1 + epsilon) ^ 2 * seconds d" by simp
  moreover have "ulpUp ^ n \<le> (1 + epsilon) ^ n" by (rule power_mono) simp_all
  ultimately have "ulpUp ^ n * exactSeconds d \<le> (1 + epsilon) ^ n * ((1 + epsilon) ^ 2 * seconds d)"
    by (intro mult_mono) (use assms(2) in auto)
  with assms(1) show ?thesis by (simp only: power_add mult.assoc)
qed

text \<open>One tenth and two tenths of a second add up to more than three tenths.\<close>

lemma tenths_exceed: "seconds 300000000 < float64 (float64 (seconds 100000000) + seconds 200000000)"
  by code_simp

end
