(* ===== verification/Pricing.thy ===== *)
theory Pricing
  imports Events Doubles
begin

text \<open>
  Token usage (\<open>internal/domain/usage.go\<close>), list prices and budgets
  (\<open>internal/domain/budget.go\<close>), the model configuration (\<open>internal/domain/agent.go\<close>) and the
  parser of a client's budget (\<open>internal/httpapi/sessions.go\<close>). Counters and costs are \<open>int64\<close>
  values with Go's wrap-around; the theorems say for which usage no operation wraps or truncates.
\<close>

section \<open>Usage (internal/domain/usage.go)\<close>

record CacheCreationUsage =
  Ephemeral1hInputTokens :: int
  Ephemeral5mInputTokens :: int

record ServerToolUsage =
  WebFetchRequests :: int
  WebSearchRequests :: int

record TokenUsage =
  CacheCreation :: CacheCreationUsage
  CacheReadInputTokens :: int
  InputTokens :: int
  OutputTokens :: int
  ServerToolUse :: ServerToolUsage
  UsageSpeed :: string

definition ContextTokens :: "TokenUsage \<Rightarrow> int" where
  "ContextTokens u =
     i64Add (i64Add (i64Add (i64Add (InputTokens u) (Ephemeral1hInputTokens (CacheCreation u)))
       (Ephemeral5mInputTokens (CacheCreation u))) (CacheReadInputTokens u)) (OutputTokens u)"

definition usageAdd :: "TokenUsage \<Rightarrow> TokenUsage \<Rightarrow> TokenUsage" where
  "usageAdd u v = u\<lparr>
     CacheCreation := \<lparr>
       Ephemeral1hInputTokens =
         i64Add (Ephemeral1hInputTokens (CacheCreation u)) (Ephemeral1hInputTokens (CacheCreation v)),
       Ephemeral5mInputTokens =
         i64Add (Ephemeral5mInputTokens (CacheCreation u)) (Ephemeral5mInputTokens (CacheCreation v))\<rparr>,
     CacheReadInputTokens := i64Add (CacheReadInputTokens u) (CacheReadInputTokens v),
     InputTokens := i64Add (InputTokens u) (InputTokens v),
     OutputTokens := i64Add (OutputTokens u) (OutputTokens v),
     ServerToolUse := \<lparr>
       WebFetchRequests =
         i64Add (WebFetchRequests (ServerToolUse u)) (WebFetchRequests (ServerToolUse v)),
       WebSearchRequests =
         i64Add (WebSearchRequests (ServerToolUse u)) (WebSearchRequests (ServerToolUse v))\<rparr>\<rparr>"

definition zeroUsage :: TokenUsage where
  "zeroUsage = \<lparr>CacheCreation = \<lparr>Ephemeral1hInputTokens = 0, Ephemeral5mInputTokens = 0\<rparr>,
     CacheReadInputTokens = 0, InputTokens = 0, OutputTokens = 0,
     ServerToolUse = \<lparr>WebFetchRequests = 0, WebSearchRequests = 0\<rparr>, UsageSpeed = []\<rparr>"

section \<open>Model configuration (internal/domain/agent.go)\<close>

record Model =
  m_ID :: string
  m_Effort :: string
  m_Speed :: string
  m_InferenceGeo :: string
  m_EffortExplicit :: bool
  m_SpeedExplicit :: bool

definition DefaultModelEffort :: string where "DefaultModelEffort = ''high''"
definition DefaultModelSpeed :: string where "DefaultModelSpeed = ''standard''"

definition NormalizeModel :: "Model \<Rightarrow> Model" where
  "NormalizeModel m =
     (let m1 = (if m_Effort m = [] then m\<lparr>m_Effort := DefaultModelEffort\<rparr> else m)
      in if m_Speed m1 = [] then m1\<lparr>m_Speed := DefaultModelSpeed\<rparr> else m1)"

definition ValidateModel :: "Model \<Rightarrow> unit res" where
  "ValidateModel m =
     (if m_ID m = [] then Inl (Validation ''model is required'')
      else if m_Effort m \<notin> {[], ''low'', ''medium'', ''high'', ''xhigh'', ''max''}
      then Inl (Validation ''model effort must be low, medium, high, xhigh, or max'')
      else if m_Speed m \<notin> {[], ''standard'', ''fast''}
      then Inl (Validation ''model speed must be standard or fast'')
      else if m_InferenceGeo m \<noteq> [] \<and> trimSpace (m_InferenceGeo m) = []
      then Inl (Validation ''model inference_geo must be a non-empty string'')
      else Inr ())"

section \<open>List prices (internal/domain/budget.go)\<close>

definition NanoUSDPerUSD :: int where "NanoUSDPerUSD = 1000000000"
definition NanoUSDPerCent :: int where "NanoUSDPerCent = NanoUSDPerUSD div 100"
definition webSearchRequestNanoUSD :: int where "webSearchRequestNanoUSD = 10000000"
definition runtimeNanoUSDPerHour :: int where "runtimeNanoUSDPerHour = 80000000"

record SessionBudget =
  MaxListCostCents :: int

definition SessionBudget_JSON :: "SessionBudget \<Rightarrow> payload" where
  "SessionBudget_JSON b =
     [(''type'', JStr ''limit''),
      (''max_list_cost'',
       JObj [(''amount'', JStr (itoa (MaxListCostCents b))), (''currency'', JStr ''USD'')])]"

record SessionBudgetUpdate =
  sbu_Budget :: "SessionBudget option"

definition roundedCents :: "int \<Rightarrow> int" where
  "roundedCents nanoUSD0 =
     (let nanoUSD = (if nanoUSD0 < 0 then 0 else nanoUSD0);
          cents = i64Div nanoUSD NanoUSDPerCent
      in if NanoUSDPerCent div 2 \<le> i64Mod nanoUSD NanoUSDPerCent then i64Add cents 1 else cents)"

definition MonetaryAmountJSON :: "int \<Rightarrow> payload" where
  "MonetaryAmountJSON nanoUSD =
     [(''amount'', JStr (itoa (roundedCents nanoUSD))), (''currency'', JStr ''USD'')]"

text \<open>
  The product and the quotient are rounded as doubles; \<open>math.Round\<close> rounds their value half away from zero. The
  conversion to \<open>int64\<close> is exact for the costs that it can hold.
\<close>

definition RuntimeListCostNanoUSD :: "rat \<Rightarrow> int" where
  "RuntimeListCostNanoUSD activeSeconds =
     (if activeSeconds \<le> 0 then 0
      else \<lfloor>float64 (float64 (activeSeconds * of_int runtimeNanoUSDPerHour) / 3600) + 1 / 2\<rfloor>)"

record modelListPrice =
  inputPerToken :: int
  outputPerToken :: int
  geoSurcharge :: bool
  fastEligible :: bool

abbreviation newline :: char where "newline \<equiv> char_of (10 :: nat)"

text \<open>The expression \<open>^(.*?)(?:-[0-9]{8})?$\<close>: one dated suffix is cut, a text of several lines is kept.\<close>

definition datedSuffix :: "string \<Rightarrow> bool" where
  "datedSuffix s \<longleftrightarrow>
     9 \<le> length s \<and> hd (drop (length s - 9) s) = CHR ''-''
     \<and> list_all isDigitByte (drop (length s - 8) s)"

definition canonicalAnthropicModelID :: "unicodeTables \<Rightarrow> string \<Rightarrow> string" where
  "canonicalAnthropicModelID u modelID =
     (let s = toLower u (trimSpace modelID)
      in if datedSuffix s \<and> newline \<notin> set (take (length s - 9) s) then take (length s - 9) s else s)"

definition price :: "int \<Rightarrow> int \<Rightarrow> bool \<Rightarrow> bool \<Rightarrow> modelListPrice" where
  "price i o' g f = \<lparr>inputPerToken = i, outputPerToken = o', geoSurcharge = g, fastEligible = f\<rparr>"

definition catalogPrice :: "string \<Rightarrow> modelListPrice option" where
  "catalogPrice modelID =
     (if modelID = ''claude-fable-5'' \<or> modelID = ''claude-mythos-5''
      then Some (price 10000 50000 True False)
      else if modelID = ''claude-opus-5'' then Some (price 5000 25000 True True)
      else if modelID = ''claude-sonnet-5'' then Some (price 2000 10000 True False)
      else if modelID = ''claude-opus-4-8'' then Some (price 5000 25000 True True)
      else if modelID = ''claude-opus-4-7'' \<or> modelID = ''claude-opus-4-6'' \<or> modelID = ''claude-opus-4-5''
      then Some (price 5000 25000 (modelID = ''claude-opus-4-7'' \<or> modelID = ''claude-opus-4-6'') False)
      else if modelID = ''claude-opus-4-1'' \<or> modelID = ''claude-opus-4''
      then Some (price 15000 75000 False False)
      else if modelID = ''claude-sonnet-4-6'' then Some (price 3000 15000 True False)
      else if modelID = ''claude-sonnet-4-5'' \<or> modelID = ''claude-sonnet-4''
      then Some (price 3000 15000 False False)
      else if modelID = ''claude-haiku-4-5'' then Some (price 1000 5000 False False)
      else if modelID = ''claude-3-5-haiku'' then Some (price 800 4000 False False)
      else None)"

definition anthropicModelListPrice :: "unicodeTables \<Rightarrow> string \<Rightarrow> modelListPrice option" where
  "anthropicModelListPrice u modelID = catalogPrice (canonicalAnthropicModelID u modelID)"

definition HasAnthropicPublicListPrice :: "unicodeTables \<Rightarrow> Model \<Rightarrow> bool" where
  "HasAnthropicPublicListPrice u model \<longleftrightarrow> anthropicModelListPrice u (m_ID model) \<noteq> None"

definition scaled :: "int \<Rightarrow> int \<Rightarrow> int \<Rightarrow> int \<Rightarrow> int" where
  "scaled tokens rate numerator denominator =
     i64Div (i64Mul (i64Mul tokens rate) numerator) denominator"

text \<open>The sum of the six terms, for the rates that apply to one request.\<close>

definition usageCost :: "int \<Rightarrow> int \<Rightarrow> int \<Rightarrow> int \<Rightarrow> TokenUsage \<Rightarrow> int" where
  "usageCost inputRate outputRate geoNumerator geoDenominator u =
     (let c1 = scaled (InputTokens u) inputRate geoNumerator geoDenominator;
          c2 = i64Add c1 (scaled (OutputTokens u) outputRate geoNumerator geoDenominator);
          c3 = i64Add c2 (scaled (Ephemeral5mInputTokens (CacheCreation u)) (i64Mul inputRate 5)
                 geoNumerator (i64Mul geoDenominator 4));
          c4 = i64Add c3 (scaled (Ephemeral1hInputTokens (CacheCreation u)) (i64Mul inputRate 2)
                 geoNumerator geoDenominator);
          c5 = i64Add c4 (scaled (CacheReadInputTokens u) inputRate geoNumerator
                 (i64Mul geoDenominator 10))
      in i64Add c5 (i64Mul (WebSearchRequests (ServerToolUse u)) webSearchRequestNanoUSD))"

definition ModelUsageListCostNanoUSDAt :: "unicodeTables \<Rightarrow> Model \<Rightarrow> TokenUsage \<Rightarrow> int res" where
  "ModelUsageListCostNanoUSDAt u model usage =
     (let canonicalID = canonicalAnthropicModelID u (m_ID model)
      in case anthropicModelListPrice u canonicalID of
           None \<Rightarrow> Inl (Validation (''model has no known Anthropic public list price: '' @ m_ID model))
         | Some p \<Rightarrow>
             if UsageSpeed usage = ''fast'' \<and> \<not> fastEligible p
             then Inl (Validation (''model has no known Anthropic fast-mode list price: '' @ m_ID model))
             else
               let inputRate = (if UsageSpeed usage = ''fast'' then 10000 else inputPerToken p);
                   outputRate = (if UsageSpeed usage = ''fast'' then 50000 else outputPerToken p);
                   geo = equalFoldAscii (m_InferenceGeo model) ''us'' \<and> geoSurcharge p
               in Inr (usageCost inputRate outputRate (if geo then 11 else 1) (if geo then 10 else 1)
                    usage))"

definition ModelResponseListCostNanoUSDAt ::
  "unicodeTables \<Rightarrow> Model \<Rightarrow> TokenUsage \<Rightarrow> string \<Rightarrow> int res" where
  "ModelResponseListCostNanoUSDAt u model usage stopReason =
     (if canonicalAnthropicModelID u (m_ID model) = ''claude-fable-5'' \<and> stopReason = ''refusal''
      then Inr 0
      else ModelUsageListCostNanoUSDAt u model usage)"

section \<open>The budget of a request (internal/httpapi/sessions.go)\<close>

text \<open>
  \<open>encoding/json\<close> turns the trimmed body into a JSON value (the argument \<open>unmarshal\<close>), which
  is then decoded into a struct: \<open>null\<close> leaves a field as it is, an unknown or mistyped field is
  an error.
\<close>

fun decodeMoney :: "payload \<Rightarrow> string \<times> string \<Rightarrow> (string \<times> string) option" where
  "decodeMoney [] v = Some v"
| "decodeMoney ((k, x) # rest) (amount, currency) =
     (if equalFoldAscii k ''amount'' then
        (case x of JStr s \<Rightarrow> decodeMoney rest (s, currency)
         | JNull \<Rightarrow> decodeMoney rest (amount, currency) | _ \<Rightarrow> None)
      else if equalFoldAscii k ''currency'' then
        (case x of JStr s \<Rightarrow> decodeMoney rest (amount, s)
         | JNull \<Rightarrow> decodeMoney rest (amount, currency) | _ \<Rightarrow> None)
      else None)"

fun decodeBudget :: "payload \<Rightarrow> string \<times> string \<times> string \<Rightarrow> (string \<times> string \<times> string) option" where
  "decodeBudget [] v = Some v"
| "decodeBudget ((k, x) # rest) (t, money) =
     (if equalFoldAscii k ''type'' then
        (case x of JStr s \<Rightarrow> decodeBudget rest (s, money)
         | JNull \<Rightarrow> decodeBudget rest (t, money) | _ \<Rightarrow> None)
      else if equalFoldAscii k ''max_list_cost'' then
        (case x of
           JObj m \<Rightarrow> (case decodeMoney m money of None \<Rightarrow> None | Some y \<Rightarrow> decodeBudget rest (t, y))
         | JNull \<Rightarrow> decodeBudget rest (t, money) | _ \<Rightarrow> None)
      else None)"

definition decodeBudgetValue :: "jval \<Rightarrow> (string \<times> string \<times> string) option" where
  "decodeBudgetValue v =
     (case v of JObj m \<Rightarrow> decodeBudget m ([], [], []) | JNull \<Rightarrow> Some ([], [], []) | _ \<Rightarrow> None)"

definition parseSessionBudget ::
  "(string \<Rightarrow> jval option) \<Rightarrow> string \<Rightarrow> SessionBudget option res" where
  "parseSessionBudget unmarshal raw =
     (let trimmed = trimSpace raw
      in if trimmed = [] \<or> trimmed = ''null'' then Inr None
         else case (case unmarshal trimmed of None \<Rightarrow> None | Some v \<Rightarrow> decodeBudgetValue v) of
           None \<Rightarrow> Inl (Validation ''budget must be a valid limit object'')
         | Some (typ, amount, currency) \<Rightarrow>
             if typ \<noteq> ''limit'' then Inl (Validation ''budget type must be limit'')
             else if currency \<noteq> ''USD''
             then Inl (Validation ''budget max_list_cost currency must be USD'')
             else if amount = [] \<or> (amount \<noteq> ''0'' \<and> hasPrefix amount ''0'')
             then Inl (Validation
               ''budget max_list_cost amount must be an integer string without leading zeros'')
             else (case parseInt64 amount of
                 None \<Rightarrow> Inl (Validation
                   ''budget max_list_cost amount must be a non-negative integer string'')
               | Some cents \<Rightarrow>
                   if cents < 0 \<or> i64Div (2 ^ 63 - 1) NanoUSDPerCent < cents
                   then Inl (Validation
                     ''budget max_list_cost amount must be a non-negative integer string'')
                   else Inr (Some \<lparr>MaxListCostCents = cents\<rparr>)))"

definition parseSessionBudgetUpdate ::
  "(string \<Rightarrow> jval option) \<Rightarrow> string \<Rightarrow> SessionBudgetUpdate option res" where
  "parseSessionBudgetUpdate unmarshal raw =
     (let trimmed = trimSpace raw
      in if trimmed = [] then Inr None
         else if trimmed = ''null'' then Inr (Some \<lparr>sbu_Budget = None\<rparr>)
         else bindE (parseSessionBudget unmarshal trimmed) (\<lambda>budget. Inr (Some \<lparr>sbu_Budget = budget\<rparr>)))"

section \<open>What a response costs\<close>

text \<open>The list price as a rational number, with no rounding at any step.\<close>

definition listCost :: "int \<Rightarrow> int \<Rightarrow> bool \<Rightarrow> TokenUsage \<Rightarrow> rat" where
  "listCost inputRate outputRate geo u =
     (if geo then 11 / 10 else 1) *
       (of_int (InputTokens u) * of_int inputRate
        + of_int (OutputTokens u) * of_int outputRate
        + of_int (Ephemeral5mInputTokens (CacheCreation u)) * (of_int inputRate * 5 / 4)
        + of_int (Ephemeral1hInputTokens (CacheCreation u)) * (of_int inputRate * 2)
        + of_int (CacheReadInputTokens u) * (of_int inputRate / 10))
     + of_int (WebSearchRequests (ServerToolUse u)) * of_int webSearchRequestNanoUSD"

definition usageBelow :: "int \<Rightarrow> TokenUsage \<Rightarrow> bool" where
  "usageBelow n u \<longleftrightarrow>
     (0 \<le> InputTokens u \<and> InputTokens u \<le> n) \<and> (0 \<le> OutputTokens u \<and> OutputTokens u \<le> n)
     \<and> (0 \<le> Ephemeral5mInputTokens (CacheCreation u) \<and> Ephemeral5mInputTokens (CacheCreation u) \<le> n)
     \<and> (0 \<le> Ephemeral1hInputTokens (CacheCreation u) \<and> Ephemeral1hInputTokens (CacheCreation u) \<le> n)
     \<and> (0 \<le> CacheReadInputTokens u \<and> CacheReadInputTokens u \<le> n)
     \<and> (0 \<le> WebSearchRequests (ServerToolUse u) \<and> WebSearchRequests (ServerToolUse u) \<le> n)"

lemma inInt64_bounded: "0 \<le> x \<Longrightarrow> x \<le> 9 * 10 ^ 18 \<Longrightarrow> inInt64 x"
  by (simp add: inInt64_def)

lemma mult_bounded:
  fixes t k n m :: int
  shows "0 \<le> t \<Longrightarrow> t \<le> n \<Longrightarrow> 0 \<le> k \<Longrightarrow> k \<le> m \<Longrightarrow> 0 \<le> t * k \<and> t * k \<le> n * m"
  by (simp add: mult_mono)

lemma scaled_exact:
  assumes "0 \<le> t" "t \<le> 10 ^ 12" "0 \<le> r" "r \<le> 75000" "0 < g" "g \<le> 11" "0 < d" "r * g = k * d"
    "0 \<le> k" "k \<le> 10 ^ 6"
  shows "scaled t r g d = t * k \<and> 0 \<le> t * k \<and> t * k \<le> 10 ^ 18"
proof -
  have tr: "0 \<le> t * r \<and> t * r \<le> 10 ^ 12 * 75000"
    using mult_bounded [of t "10 ^ 12" r 75000] assms by simp
  then have trg: "0 \<le> t * r * g \<and> t * r * g \<le> (10 ^ 12 * 75000) * 11"
    using mult_bounded [of "t * r" "10 ^ 12 * 75000" g 11] assms by simp
  have m1: "i64Mul t r = t * r" using tr by (intro i64_exact inInt64_bounded) auto
  have m2: "i64Mul (t * r) g = t * r * g" using trg by (intro i64_exact inInt64_bounded) auto
  have "i64Div (t * r * g) d = t * r * g div d"
    using trg assms by (intro i64Div_nonneg inInt64_bounded) auto
  moreover have "t * r * g = t * k * d" using assms(8) by (simp add: mult.assoc)
  moreover have "t * k * d div d = t * k" using assms(7) by simp
  ultimately have "scaled t r g d = t * k" unfolding scaled_def m1 m2 by metis
  then show ?thesis using mult_bounded [of t "10 ^ 12" k "10 ^ 6"] assms by simp
qed

lemma add_bounded:
  assumes "0 \<le> x" "x \<le> n * 10 ^ 18" "0 \<le> y" "y \<le> 10 ^ 18" "0 \<le> n" "n \<le> 8"
  shows "i64Add x y = x + y \<and> 0 \<le> x + y \<and> x + y \<le> (n + 1) * 10 ^ 18"
  using assms by (intro conjI i64_exact inInt64_bounded) (auto simp: distrib_right)

text \<open>
  Rates that divide exactly: \<open>k\<^sub>1\<close> to \<open>k\<^sub>5\<close> are the whole nano-dollars per token of the five
  counters that \<open>usageCost\<close> scales.
\<close>

definition exactRates :: "int \<Rightarrow> int \<Rightarrow> int \<Rightarrow> int \<Rightarrow> int \<Rightarrow> int \<Rightarrow> int \<Rightarrow> int \<Rightarrow> int \<Rightarrow> bool" where
  "exactRates i r g d k1 k2 k3 k4 k5 \<longleftrightarrow>
     0 \<le> i \<and> i \<le> 15000 \<and> 0 \<le> r \<and> r \<le> 75000 \<and> 0 < g \<and> g \<le> 11 \<and> 0 < d \<and> d \<le> 10
     \<and> i * g = k1 * d \<and> r * g = k2 * d \<and> i * 5 * g = k3 * (d * 4) \<and> i * 2 * g = k4 * d
     \<and> i * g = k5 * (d * 10) \<and> (\<forall>k \<in> {k1, k2, k3, k4, k5}. 0 \<le> k \<and> k \<le> 10 ^ 6)"

lemma usageCost_exact:
  assumes rates: "exactRates i r g d k1 k2 k3 k4 k5" and u: "usageBelow (10 ^ 11) u"
  shows "usageCost i r g d u =
     InputTokens u * k1 + OutputTokens u * k2 + Ephemeral5mInputTokens (CacheCreation u) * k3
     + Ephemeral1hInputTokens (CacheCreation u) * k4 + CacheReadInputTokens u * k5
     + WebSearchRequests (ServerToolUse u) * webSearchRequestNanoUSD"
proof -
  let ?e5 = "Ephemeral5mInputTokens (CacheCreation u)" and ?e1 = "Ephemeral1hInputTokens (CacheCreation u)"
    and ?w = "WebSearchRequests (ServerToolUse u)"
  note rb = rates [unfolded exactRates_def] and ub = u [unfolded usageBelow_def]
  have mults: "i64Mul i 5 = i * 5" "i64Mul i 2 = i * 2" "i64Mul d 4 = d * 4" "i64Mul d 10 = d * 10"
    using rb by (auto intro!: i64_exact inInt64_bounded)
  have t1: "scaled (InputTokens u) i g d = InputTokens u * k1 \<and> 0 \<le> InputTokens u * k1
      \<and> InputTokens u * k1 \<le> 10 ^ 18"
    using ub rb by (intro scaled_exact) auto
  have t2: "scaled (OutputTokens u) r g d = OutputTokens u * k2 \<and> 0 \<le> OutputTokens u * k2
      \<and> OutputTokens u * k2 \<le> 10 ^ 18"
    using ub rb by (intro scaled_exact) auto
  have t3: "scaled ?e5 (i * 5) g (d * 4) = ?e5 * k3 \<and> 0 \<le> ?e5 * k3 \<and> ?e5 * k3 \<le> 10 ^ 18"
    using ub rb by (intro scaled_exact) auto
  have t4: "scaled ?e1 (i * 2) g d = ?e1 * k4 \<and> 0 \<le> ?e1 * k4 \<and> ?e1 * k4 \<le> 10 ^ 18"
    using ub rb by (intro scaled_exact) auto
  have t5: "scaled (CacheReadInputTokens u) i g (d * 10) = CacheReadInputTokens u * k5
      \<and> 0 \<le> CacheReadInputTokens u * k5 \<and> CacheReadInputTokens u * k5 \<le> 10 ^ 18"
    using ub rb by (intro scaled_exact) auto
  have t6: "0 \<le> ?w * 10000000 \<and> ?w * 10000000 \<le> 10 ^ 18" using ub by simp
  then have w: "i64Mul ?w webSearchRequestNanoUSD = ?w * webSearchRequestNanoUSD"
    unfolding webSearchRequestNanoUSD_def by (intro i64_exact inInt64_bounded) auto
  note a2 = add_bounded [of "InputTokens u * k1" 1 "OutputTokens u * k2"]
  note a3 = add_bounded [of "InputTokens u * k1 + OutputTokens u * k2" 2 "?e5 * k3"]
  note a4 = add_bounded [of "InputTokens u * k1 + OutputTokens u * k2 + ?e5 * k3" 3 "?e1 * k4"]
  note a5 = add_bounded [of "InputTokens u * k1 + OutputTokens u * k2 + ?e5 * k3 + ?e1 * k4" 4
    "CacheReadInputTokens u * k5"]
  note a6 = add_bounded [of "InputTokens u * k1 + OutputTokens u * k2 + ?e5 * k3 + ?e1 * k4
    + CacheReadInputTokens u * k5" 5 "?w * 10000000"]
  show ?thesis
    using a2 a3 a4 a5 a6 t1 t2 t3 t4 t5 t6 w
    by (simp add: usageCost_def Let_def mults webSearchRequestNanoUSD_def)
qed

lemma usageCost_listCost:
  assumes "exactRates i r (if geo then 11 else 1) (if geo then 10 else 1) k1 k2 k3 k4 k5"
    "usageBelow (10 ^ 11) u"
  shows "rat_of_int (usageCost i r (if geo then 11 else 1) (if geo then 10 else 1) u) = listCost i r geo u"
proof -
  let ?f = "(if geo then 11 / 10 else 1) :: rat"
  have eqs: "rat_of_int (i * (if geo then 11 else 1)) = of_int (k1 * (if geo then 10 else 1))"
    "rat_of_int (r * (if geo then 11 else 1)) = of_int (k2 * (if geo then 10 else 1))"
    "rat_of_int (i * 5 * (if geo then 11 else 1)) = of_int (k3 * ((if geo then 10 else 1) * 4))"
    "rat_of_int (i * 2 * (if geo then 11 else 1)) = of_int (k4 * (if geo then 10 else 1))"
    "rat_of_int (i * (if geo then 11 else 1)) = of_int (k5 * ((if geo then 10 else 1) * 10))"
    by (rule arg_cong [where f = rat_of_int], use assms(1) [unfolded exactRates_def] in blast)+
  then have "of_int k1 = ?f * of_int i" "of_int k2 = ?f * of_int r" "of_int k3 = ?f * (of_int i * 5 / 4)"
    "of_int k4 = ?f * (of_int i * 2)" "of_int k5 = ?f * (of_int i / 10)"
    by (auto split: if_splits)
  then show ?thesis
    by (simp only: usageCost_exact [OF assms] listCost_def of_int_add of_int_mult distrib_left
        mult.assoc mult.left_commute)
qed

lemma exactRates_plain:
  "0 \<le> m \<Longrightarrow> m \<le> 375 \<Longrightarrow> exactRates (40 * m) (200 * m) 1 1 (40 * m) (200 * m) (50 * m) (80 * m) (4 * m)"
  by (simp add: exactRates_def)

lemma exactRates_geo:
  "0 \<le> n \<Longrightarrow> n \<le> 75 \<Longrightarrow>
     exactRates (200 * n) (1000 * n) 11 10 (220 * n) (1100 * n) (275 * n) (440 * n) (22 * n)"
  by (simp add: exactRates_def)

lemma catalogPrice_in:
  assumes "catalogPrice c = Some p"
  shows "\<exists>g f. p \<in> {price 10000 50000 g f, price 5000 25000 g f, price 2000 10000 g f,
    price 3000 15000 g f, price 15000 75000 False f, price 1000 5000 False f, price 800 4000 False f}"
proof -
  have split: "x = p \<or> r = Some p" if "(if b then Some x else r) = Some p" for b x and r :: "modelListPrice option"
    using that by (cases b) simp_all
  show ?thesis
    using assms unfolding catalogPrice_def
    by (elim split [THEN disjE]) blast+
qed

lemma catalogPrice_rates:
  assumes "catalogPrice c = Some p"
  shows "\<exists>m. inputPerToken p = 40 * m \<and> outputPerToken p = 200 * m \<and> 0 \<le> m \<and> m \<le> 375"
    and "geoSurcharge p \<Longrightarrow>
      \<exists>n. inputPerToken p = 200 * n \<and> outputPerToken p = 1000 * n \<and> 0 \<le> n \<and> n \<le> 75"
proof -
  let ?m = "inputPerToken p div 40" and ?n = "inputPerToken p div 200"
  have "inputPerToken p = 40 * ?m \<and> outputPerToken p = 200 * ?m \<and> 0 \<le> ?m \<and> ?m \<le> 375"
    using catalogPrice_in [OF assms] by (auto simp: price_def)
  then show "\<exists>m. inputPerToken p = 40 * m \<and> outputPerToken p = 200 * m \<and> 0 \<le> m \<and> m \<le> 375" by blast
  assume "geoSurcharge p"
  then have "inputPerToken p = 200 * ?n \<and> outputPerToken p = 1000 * ?n \<and> 0 \<le> ?n \<and> ?n \<le> 75"
    using catalogPrice_in [OF assms] by (auto simp: price_def)
  then show "\<exists>n. inputPerToken p = 200 * n \<and> outputPerToken p = 1000 * n \<and> 0 \<le> n \<and> n \<le> 75" by blast
qed

lemma catalog_listCost:
  assumes "catalogPrice c = Some p" "geo \<longrightarrow> geoSurcharge p" "usageBelow (10 ^ 11) u"
  shows "rat_of_int (usageCost (inputPerToken p) (outputPerToken p) (if geo then 11 else 1)
    (if geo then 10 else 1) u) = listCost (inputPerToken p) (outputPerToken p) geo u"
proof (cases geo)
  case True
  with catalogPrice_rates(2) [OF assms(1)] assms(2) obtain n where
    "inputPerToken p = 200 * n" "outputPerToken p = 1000 * n" "0 \<le> n" "n \<le> 75" by auto
  with True assms(3) exactRates_geo [of n] show ?thesis
    using usageCost_listCost [of _ _ True] by simp
next
  case False
  obtain m where "inputPerToken p = 40 * m" "outputPerToken p = 200 * m" "0 \<le> m" "m \<le> 375"
    using catalogPrice_rates(1) [OF assms(1)] by blast
  with False assms(3) exactRates_plain [of m] show ?thesis
    using usageCost_listCost [of _ _ False] by simp
qed

lemma fast_listCost:
  assumes "usageBelow (10 ^ 11) u"
  shows "rat_of_int (usageCost 10000 50000 (if geo then 11 else 1) (if geo then 10 else 1) u) =
    listCost 10000 50000 geo u"
  using usageCost_listCost [of 10000 50000 geo _ _ _ _ _ u] assms exactRates_geo [of 50] exactRates_plain [of 250]
  by (cases geo) auto

lemma usageBelow_add:
  assumes "usageBelow n u" "usageBelow n v" "n \<le> 10 ^ 12"
  shows "usageBelow (2 * n) (usageAdd u v)"
    and "listCost i r geo (usageAdd u v) = listCost i r geo u + listCost i r geo v"
proof -
  have *: "i64Add a b = a + b" if "0 \<le> a" "0 \<le> b" "a \<le> n" "b \<le> n" for a b
    using that assms(3) by (intro i64_exact inInt64_bounded) auto
  show "usageBelow (2 * n) (usageAdd u v)"
    using assms(1,2) by (auto simp: usageBelow_def usageAdd_def *)
  show "listCost i r geo (usageAdd u v) = listCost i r geo u + listCost i r geo v"
    using assms(1,2) by (simp add: usageBelow_def usageAdd_def * listCost_def algebra_simps
        add_divide_distrib)
qed

lemma ModelUsageListCost_cases:
  assumes "anthropicModelListPrice u (canonicalAnthropicModelID u (m_ID model)) = Some p"
    "usageBelow (10 ^ 11) usage" "UsageSpeed usage = ''fast'' \<longrightarrow> fastEligible p"
  shows "\<exists>c i r geo. ModelUsageListCostNanoUSDAt u model usage = Inr c
    \<and> rat_of_int c = listCost i r geo usage
    \<and> (i, r) = (if UsageSpeed usage = ''fast'' then (10000, 50000) else (inputPerToken p, outputPerToken p))
    \<and> geo = (equalFoldAscii (m_InferenceGeo model) ''us'' \<and> geoSurcharge p)"
proof -
  let ?geo = "equalFoldAscii (m_InferenceGeo model) ''us'' \<and> geoSurcharge p"
  have cat: "catalogPrice (canonicalAnthropicModelID u (canonicalAnthropicModelID u (m_ID model))) = Some p"
    using assms(1) by (simp add: anthropicModelListPrice_def)
  show ?thesis
    using catalog_listCost [OF cat, of ?geo usage] fast_listCost [of usage ?geo] assms
    by (simp add: ModelUsageListCostNanoUSDAt_def Let_def)
qed

text \<open>
  C34. For a model with a public list price and a response of at most a hundred billion of each
  token kind and web searches, the integer cost the program computes is the list price exactly:
  no product or sum wraps around in \<open>int64\<close>, and no division by the geographic or cache
  denominator drops a remainder, whatever the rates, speed and region.
\<close>

theorem pricing_list_cost_exact:
  assumes "anthropicModelListPrice u (canonicalAnthropicModelID u (m_ID model)) = Some p"
    and "usageBelow (10 ^ 11) usage"
    and "UsageSpeed usage = ''fast'' \<longrightarrow> fastEligible p"
  shows "\<exists>c. ModelUsageListCostNanoUSDAt u model usage = Inr c \<and>
    rat_of_int c =
      listCost (if UsageSpeed usage = ''fast'' then 10000 else inputPerToken p)
        (if UsageSpeed usage = ''fast'' then 50000 else outputPerToken p)
        (equalFoldAscii (m_InferenceGeo model) ''us'' \<and> geoSurcharge p) usage"
  using ModelUsageListCost_cases [OF assms] by (cases "UsageSpeed usage = ''fast''") auto

definition asciiTables :: unicodeTables where
  "asciiTables = \<lparr>u_letter = (\<lambda>_. False), u_digit = (\<lambda>_. False), u_lower = (\<lambda>r. r)\<rparr>"

definition sampleUsage :: "int \<Rightarrow> TokenUsage" where
  "sampleUsage n = \<lparr>CacheCreation = \<lparr>Ephemeral1hInputTokens = n, Ephemeral5mInputTokens = n\<rparr>,
     CacheReadInputTokens = n, InputTokens = n, OutputTokens = n,
     ServerToolUse = \<lparr>WebFetchRequests = 0, WebSearchRequests = 1\<rparr>, UsageSpeed = ''fast''\<rparr>"

definition sampleModel :: Model where
  "sampleModel = \<lparr>m_ID = ''Claude-Opus-4-8-20260101'', m_Effort = [], m_Speed = [],
     m_InferenceGeo = ''US'', m_EffortExplicit = False, m_SpeedExplicit = False\<rparr>"

lemma sampleModel_price:
  "anthropicModelListPrice asciiTables (canonicalAnthropicModelID asciiTables (m_ID sampleModel)) =
     Some (price 5000 25000 True True)"
proof -
  have "canonicalAnthropicModelID asciiTables (m_ID sampleModel) = ''claude-opus-4-8''"
    and "canonicalAnthropicModelID asciiTables ''claude-opus-4-8'' = ''claude-opus-4-8''"
    by (simp_all add: canonicalAnthropicModelID_def datedSuffix_def sampleModel_def asciiTables_def go_eval)
  then show ?thesis by (simp add: anthropicModelListPrice_def catalogPrice_def)
qed

theorem pricing_list_cost_exact_witness:
  "\<exists>c. ModelUsageListCostNanoUSDAt asciiTables sampleModel (sampleUsage 1000) = Inr c \<and>
    rat_of_int c = listCost 10000 50000 (equalFoldAscii ''US'' ''us'' \<and> True) (sampleUsage 1000)"
  using pricing_list_cost_exact [OF sampleModel_price, of "sampleUsage 1000"]
  by (simp add: usageBelow_def sampleUsage_def price_def sampleModel_def)

text \<open>
  Pricing a sum of responses is the sum of their prices: the cost a Session accumulates turn
  by turn is the cost of its total usage, so no rounding error builds up over a Session.
\<close>

theorem pricing_additive:
  assumes "anthropicModelListPrice u (canonicalAnthropicModelID u (m_ID model)) = Some p"
    and "usageBelow (10 ^ 10) x" and "usageBelow (10 ^ 10) y"
    and "UsageSpeed x = UsageSpeed y" and "UsageSpeed x = ''fast'' \<longrightarrow> fastEligible p"
  shows "\<exists>cx cy. ModelUsageListCostNanoUSDAt u model x = Inr cx
    \<and> ModelUsageListCostNanoUSDAt u model y = Inr cy
    \<and> ModelUsageListCostNanoUSDAt u model (usageAdd x y) = Inr (cx + cy)"
proof -
  have "usageBelow (2 * 10 ^ 10) (usageAdd x y)"
    and add: "\<And>i r g. listCost i r g (usageAdd x y) = listCost i r g x + listCost i r g y"
    using usageBelow_add [OF assms(2,3)] by simp_all
  then have below: "usageBelow (10 ^ 11) x" "usageBelow (10 ^ 11) y" "usageBelow (10 ^ 11) (usageAdd x y)"
    using assms(2,3) by (auto simp: usageBelow_def)
  have speed: "UsageSpeed (usageAdd x y) = UsageSpeed x" by (simp add: usageAdd_def)
  have inj: "rat_of_int a = of_int b + of_int c \<Longrightarrow> a = b + c" for a b c
    by (metis of_int_add of_int_eq_iff)
  show ?thesis
    using ModelUsageListCost_cases [OF assms(1) below(1)] ModelUsageListCost_cases [OF assms(1) below(2)]
      ModelUsageListCost_cases [OF assms(1) below(3)] assms(4,5) add speed
    by (auto intro!: inj split: if_splits)
qed

theorem pricing_additive_witness:
  "\<exists>cx cy. ModelUsageListCostNanoUSDAt asciiTables sampleModel (sampleUsage 7) = Inr cx
    \<and> ModelUsageListCostNanoUSDAt asciiTables sampleModel (sampleUsage 11) = Inr cy
    \<and> ModelUsageListCostNanoUSDAt asciiTables sampleModel (usageAdd (sampleUsage 7) (sampleUsage 11)) =
        Inr (cx + cy)"
  by (rule pricing_additive [OF sampleModel_price])
    (simp_all add: usageBelow_def sampleUsage_def price_def)

section \<open>Rounding and the budget round trip\<close>

lemma NanoUSDPerCent_eval: "NanoUSDPerCent = 10000000"
  by (simp add: NanoUSDPerCent_def NanoUSDPerUSD_def)

lemma roundedCents_bounds:
  assumes "inInt64 n"
  shows "2 * \<bar>roundedCents n * NanoUSDPerCent - max 0 n\<bar> \<le> NanoUSDPerCent"
proof (cases "0 < n")
  case False
  then have "roundedCents n = 0"
    by (auto simp: roundedCents_def Let_def NanoUSDPerCent_eval i64Div_def i64Mod_def wrap64_def)
  with False show ?thesis by (simp add: NanoUSDPerCent_eval)
next
  case True
  let ?q = "n div 10000000" and ?r = "n mod 10000000"
  have "i64Div n 10000000 = ?q" using True assms by (simp add: i64Div_nonneg)
  moreover have "i64Mod n 10000000 = ?r" using True by (simp add: i64Mod_def)
  moreover have "i64Add ?q 1 = ?q + 1"
    using True assms by (intro i64_exact) (auto simp: inInt64_def)
  ultimately have val: "roundedCents n = (if 5000000 \<le> ?r then ?q + 1 else ?q)"
    using True by (simp add: roundedCents_def Let_def NanoUSDPerCent_eval)
  have parts: "n = ?q * 10000000 + ?r" "0 \<le> ?r" "?r < 10000000" "max 0 n = n"
    using True by simp_all
  show ?thesis
  proof (cases "5000000 \<le> ?r")
    case True
    then have "roundedCents n = ?q + 1" using val by simp
    then have "roundedCents n * 10000000 - max 0 n = 10000000 - ?r" using parts(1,4) by linarith
    with True parts(3) show ?thesis
      unfolding NanoUSDPerCent_eval by (simp only: abs_if split: if_splits) auto
  next
    case False
    then have "roundedCents n = ?q" using val by simp
    then have "roundedCents n * 10000000 - max 0 n = - ?r" using parts(1,4) by linarith
    with False parts(2) show ?thesis
      unfolding NanoUSDPerCent_eval by (simp only: abs_if split: if_splits) auto
  qed
qed

text \<open>
  The public amount is the list cost rounded to the nearest whole cent: it is off by at most
  half a cent, for every cost an \<open>int64\<close> can hold (a negative one shows as zero).
\<close>

theorem MonetaryAmountJSON_nearest:
  assumes "inInt64 nanoUSD"
  shows "\<exists>cents. MonetaryAmountJSON nanoUSD =
      [(''amount'', JStr (itoa cents)), (''currency'', JStr ''USD'')]
    \<and> 2 * \<bar>cents * NanoUSDPerCent - max 0 nanoUSD\<bar> \<le> NanoUSDPerCent"
  using roundedCents_bounds [OF assms] by (auto simp: MonetaryAmountJSON_def)

theorem MonetaryAmountJSON_nearest_witness:
  "\<exists>cents. MonetaryAmountJSON 14999999 =
      [(''amount'', JStr (itoa cents)), (''currency'', JStr ''USD'')]
    \<and> 2 * \<bar>cents * NanoUSDPerCent - max 0 14999999\<bar> \<le> NanoUSDPerCent"
  by (rule MonetaryAmountJSON_nearest) (simp add: inInt64_def)

lemma RuntimeListCost_mono:
  assumes "a \<le> b"
  shows "RuntimeListCostNanoUSD a \<le> RuntimeListCostNanoUSD b"
proof (cases "b \<le> 0")
  case True
  with assms show ?thesis by (simp add: RuntimeListCostNanoUSD_def)
next
  case False
  let ?c = "\<lambda>x. float64 (float64 (x * of_int runtimeNanoUSDPerHour) / 3600)"
  have mono: "?c x \<le> ?c y" if "x \<le> y" for x y
    using that by (intro float64_mono divide_right_mono mult_right_mono) (simp_all add: runtimeNanoUSDPerHour_def)
  show ?thesis
  proof (cases "a \<le> 0")
    case True
    have "0 \<le> ?c b" using mono [of 0 b] False by simp
    with True False show ?thesis by (simp add: RuntimeListCostNanoUSD_def)
  next
    case False
    with \<open>\<not> b \<le> 0\<close> mono [OF assms] show ?thesis by (auto simp: RuntimeListCostNanoUSD_def intro!: floor_mono)
  qed
qed

lemma RuntimeListCost_nonneg: "0 \<le> RuntimeListCostNanoUSD a"
  using RuntimeListCost_mono [of 0 "max 0 a"]
  by (cases "a \<le> 0") (auto simp: RuntimeListCostNanoUSD_def max_def)

lemma equalFold_refl [simp]: "equalFoldAscii s s"
  by (simp add: equalFoldAscii_def)

lemma budget_keys:
  "\<not> equalFoldAscii ''max_list_cost'' ''type''" "\<not> equalFoldAscii ''currency'' ''amount''"
  by (simp_all add: go_eval)

lemma decodeBudget_JSON:
  "decodeBudgetValue (JObj (SessionBudget_JSON b)) = Some (''limit'', itoa (MaxListCostCents b), ''USD'')"
  by (simp add: decodeBudgetValue_def SessionBudget_JSON_def budget_keys)

lemma itoa_canonical: "0 \<le> n \<Longrightarrow> itoa n = ''0'' \<or> \<not> hasPrefix (itoa n) ''0''"
proof (rule ccontr)
  assume n: "0 \<le> n" and "\<not> (itoa n = ''0'' \<or> \<not> hasPrefix (itoa n) ''0'')"
  then have n: "0 \<le> n" "itoa n \<noteq> ''0''" "hasPrefix (itoa n) ''0''" by auto
  then have "hd (decNat (nat n)) = CHR ''0''"
    by (cases "decNat (nat n)") (auto simp: itoa_def hasPrefix_def)
  then have "nat n = 0" by (rule decNat_zero_head)
  with n show False by (simp add: itoa_def decNat.simps char_of_eval)
qed

lemma itoa_nonempty: "itoa n \<noteq> []"
  by (simp add: itoa_def)

definition maxBudgetCents :: int where
  "maxBudgetCents = (2 ^ 63 - 1) div 10000000"

lemma maxBudgetCents_div: "i64Div 9223372036854775807 NanoUSDPerCent = maxBudgetCents"
  by (simp add: maxBudgetCents_def NanoUSDPerCent_eval i64Div_nonneg inInt64_def)

text \<open>
  A budget that the API shows is a budget the API accepts: parsing the public form of any
  ceiling the program may hold gives the same ceiling back.
\<close>

theorem budget_roundtrip:
  assumes "unmarshal (trimSpace raw) = Some (JObj (SessionBudget_JSON b))"
    and "trimSpace raw \<noteq> []" and "trimSpace raw \<noteq> ''null''"
    and "0 \<le> MaxListCostCents b" and "MaxListCostCents b \<le> maxBudgetCents"
  shows "parseSessionBudget unmarshal raw = Inr (Some b)"
proof -
  have "inInt64 (MaxListCostCents b)" using assms(4,5) by (simp add: maxBudgetCents_def inInt64_def)
  then have "parseInt64 (itoa (MaxListCostCents b)) = Some (MaxListCostCents b)" by (rule parseInt64_itoa)
  then show ?thesis
    using assms itoa_canonical [OF assms(4)]
    by (simp add: parseSessionBudget_def Let_def decodeBudget_JSON itoa_nonempty maxBudgetCents_div)
qed

theorem budget_roundtrip_witness:
  "parseSessionBudget (\<lambda>_. Some (JObj (SessionBudget_JSON \<lparr>MaxListCostCents = 500\<rparr>))) ''{...}'' =
     Inr (Some \<lparr>MaxListCostCents = 500\<rparr>)"
  by (rule budget_roundtrip) (simp_all add: go_eval maxBudgetCents_def)

text \<open>
  Whatever a client sends, an accepted ceiling lies between zero and the largest number of
  cents whose nano-dollars fit in \<open>int64\<close>, so the product the budget check computes never wraps.
\<close>

theorem parsed_budget_bounds:
  assumes "parseSessionBudget unmarshal raw = Inr (Some b)"
  shows "0 \<le> MaxListCostCents b \<and> MaxListCostCents b \<le> maxBudgetCents
    \<and> i64Mul (MaxListCostCents b) NanoUSDPerCent = MaxListCostCents b * NanoUSDPerCent"
proof -
  have "0 \<le> MaxListCostCents b \<and> MaxListCostCents b \<le> maxBudgetCents"
    using assms
    by (auto simp: parseSessionBudget_def Let_def maxBudgetCents_div split: if_splits option.splits)
  moreover from this have "inInt64 (MaxListCostCents b * NanoUSDPerCent)"
    by (simp add: inInt64_def maxBudgetCents_def NanoUSDPerCent_eval)
  ultimately show ?thesis by (simp add: i64_exact)
qed

theorem parsed_budget_bounds_witness:
  "let raw = ''{...}'';
       unmarshal = (\<lambda>_. Some (JObj (SessionBudget_JSON \<lparr>MaxListCostCents = 500\<rparr>)))
   in parseSessionBudget unmarshal raw = Inr (Some \<lparr>MaxListCostCents = 500\<rparr>)
      \<and> i64Mul 500 NanoUSDPerCent = 500 * NanoUSDPerCent"
proof -
  have "parseSessionBudget (\<lambda>_. Some (JObj (SessionBudget_JSON \<lparr>MaxListCostCents = 500\<rparr>))) ''{...}'' =
      Inr (Some \<lparr>MaxListCostCents = 500\<rparr>)"
    by (simp add: parseSessionBudget_def go_eval decodeBudget_JSON itoa_def decNat.simps
        parseInt64_def parseDigits_def digitsVal_def inInt64_def maxBudgetCents_div maxBudgetCents_def)
  then show ?thesis using parsed_budget_bounds by (fastforce simp: Let_def)
qed

text \<open>
  A model name with two dated suffixes: the cost function strips one of them and its catalogue
  lookup the other, so a response is priced although the model counts as unlisted.
\<close>

lemma double_dated_model_is_priced:
  "let m = \<lparr>m_ID = ''claude-opus-5-20260101-20260101'', m_Effort = [], m_Speed = [],
             m_InferenceGeo = [], m_EffortExplicit = False, m_SpeedExplicit = False\<rparr>
   in \<not> HasAnthropicPublicListPrice asciiTables m
      \<and> isOk (ModelUsageListCostNanoUSDAt asciiTables m zeroUsage)"
proof -
  have "canonicalAnthropicModelID asciiTables ''claude-opus-5-20260101-20260101'' = ''claude-opus-5-20260101''"
    and "canonicalAnthropicModelID asciiTables ''claude-opus-5-20260101'' = ''claude-opus-5''"
    by (simp_all add: canonicalAnthropicModelID_def datedSuffix_def asciiTables_def go_eval)
  then show ?thesis
    by (simp add: Let_def HasAnthropicPublicListPrice_def anthropicModelListPrice_def catalogPrice_def
        ModelUsageListCostNanoUSDAt_def zeroUsage_def)
qed

end
