(* ===== verification/Tools.thy ===== *)
theory Tools
  imports Pricing "HOL-Library.Word"
begin

text \<open>
  Tool and MCP server configuration (\<open>internal/domain/tools.go\<close>): the strict shape check of new
  requests, the tolerant parser of stored snapshots, the cross checks between toolsets and servers,
  the address filter of MCP endpoints, and how a tool's permission is resolved.

  An error made with \<open>fmt.Errorf\<close> is its format and its arguments (of which one may be any value). \<open>net/url\<close> and
  \<open>netip.ParseAddr\<close> are arguments of the parser of MCP servers.
\<close>

datatype goError = Errorf string "string list" | ErrorfAny string "jval option"

definition BuiltinToolsetType :: string where "BuiltinToolsetType = ''agent_toolset_20260401''"
definition maxAgentToolEntries :: nat where "maxAgentToolEntries = 128"

definition BuiltinToolNames :: "string list" where
  "BuiltinToolNames =
     [''bash'', ''read'', ''write'', ''edit'', ''glob'', ''grep'', ''web_fetch'', ''web_search'']"

record PermissionPolicy =
  pp_Type :: string

record BuiltinConfig =
  bc_Name :: string
  bc_Enabled :: "bool option"
  bc_Policy :: "PermissionPolicy option"

record BuiltinToolset =
  bt_DefaultEnabled :: bool
  bt_DefaultPolicy :: PermissionPolicy
  bt_Configs :: "BuiltinConfig list"

record CustomTool =
  ct_Name :: string
  ct_Description :: string
  ct_InputSchema :: payload

record MCPToolset =
  mt_ServerName :: string
  mt_DefaultEnabled :: bool
  mt_DefaultPolicy :: PermissionPolicy
  mt_Configs :: "BuiltinConfig list"

record MCPServer =
  ms_Name :: string
  ms_URL :: string

record ToolSet =
  ts_Builtin :: "BuiltinToolset option"
  ts_Custom :: "CustomTool list"
  ts_MCP :: "MCPToolset list"

section \<open>Addresses\<close>

text \<open>\<open>netip.Addr\<close>: the zero value, a 32-bit address, or a 128-bit address with its zone.\<close>

datatype ipaddr = NoAddr | IPv4 "32 word" | IPv6 "128 word" string

definition inNet4 :: "32 word \<Rightarrow> 32 word \<Rightarrow> nat \<Rightarrow> bool" where
  "inNet4 a net bits \<longleftrightarrow> drop_bit (32 - bits) a = drop_bit (32 - bits) net"

definition inNet6 :: "128 word \<Rightarrow> 128 word \<Rightarrow> nat \<Rightarrow> bool" where
  "inNet6 a net bits \<longleftrightarrow> drop_bit (128 - bits) a = drop_bit (128 - bits) net"

fun unmap :: "ipaddr \<Rightarrow> ipaddr" where
  "unmap (IPv6 a z) = (if drop_bit 32 a = 65535 then IPv4 (ucast a) else IPv6 a z)"
| "unmap a = a"

fun isUnspecified :: "ipaddr \<Rightarrow> bool" where
  "isUnspecified NoAddr = False"
| "isUnspecified (IPv4 a) = (a = 0)"
| "isUnspecified (IPv6 a z) = (a = 0 \<and> z = [])"

fun isLoopback :: "ipaddr \<Rightarrow> bool" where
  "isLoopback NoAddr = False"
| "isLoopback (IPv4 a) = inNet4 a 0x7F000000 8"
| "isLoopback (IPv6 a z) = (a = 1)"

fun isMulticast :: "ipaddr \<Rightarrow> bool" where
  "isMulticast NoAddr = False"
| "isMulticast (IPv4 a) = inNet4 a 0xE0000000 4"
| "isMulticast (IPv6 a z) = (drop_bit 120 a = 0xFF)"

fun isLinkLocalUnicast :: "ipaddr \<Rightarrow> bool" where
  "isLinkLocalUnicast NoAddr = False"
| "isLinkLocalUnicast (IPv4 a) = inNet4 a 0xA9FE0000 16"
| "isLinkLocalUnicast (IPv6 a z) = (drop_bit 118 a = 0x3FA)"

fun isLinkLocalMulticast :: "ipaddr \<Rightarrow> bool" where
  "isLinkLocalMulticast NoAddr = False"
| "isLinkLocalMulticast (IPv4 a) = inNet4 a 0xE0000000 24"
| "isLinkLocalMulticast (IPv6 a z) = (drop_bit 120 a = 0xFF \<and> take_bit 4 (drop_bit 112 a) = 2)"

fun isPrivate :: "ipaddr \<Rightarrow> bool" where
  "isPrivate NoAddr = False"
| "isPrivate (IPv4 a) = (inNet4 a 0x0A000000 8 \<or> inNet4 a 0xAC100000 12 \<or> inNet4 a 0xC0A80000 16)"
| "isPrivate (IPv6 a z) = (drop_bit 121 a = 0x7E)"

definition isGlobalUnicast :: "ipaddr \<Rightarrow> bool" where
  "isGlobalUnicast a \<longleftrightarrow>
     a \<noteq> NoAddr \<and> a \<noteq> IPv4 0 \<and> a \<noteq> IPv4 0xFFFFFFFF \<and> \<not> isUnspecified a \<and> \<not> isLoopback a
     \<and> \<not> isMulticast a \<and> \<not> isLinkLocalUnicast a"

definition blockedMCPAddressPrefixes :: "(ipaddr \<times> nat) list" where
  "blockedMCPAddressPrefixes =
     [(IPv4 0x64400000, 10), (IPv4 0xC0000000, 24), (IPv4 0xC0000200, 24), (IPv4 0xC6120000, 15),
      (IPv4 0xC6336400, 24), (IPv4 0xCB007100, 24), (IPv4 0xF0000000, 4),
      (IPv6 0x20010DB8000000000000000000000000 [], 32)]"

text \<open>\<open>Prefix.Contains\<close>: the families must agree, and an address with a zone is in no prefix.\<close>

fun prefixContains :: "ipaddr \<times> nat \<Rightarrow> ipaddr \<Rightarrow> bool" where
  "prefixContains (IPv4 net, bits) (IPv4 a) = inNet4 a net bits"
| "prefixContains (IPv6 net _, bits) (IPv6 a z) = (z = [] \<and> inNet6 a net bits)"
| "prefixContains _ _ = False"

definition MCPAddressAllowed :: "ipaddr \<Rightarrow> bool" where
  "MCPAddressAllowed address0 =
     (let address = unmap address0
      in if address = NoAddr \<or> \<not> isGlobalUnicast address \<or> isPrivate address \<or> isLoopback address
            \<or> isLinkLocalUnicast address \<or> isLinkLocalMulticast address \<or> isUnspecified address
         then False
         else \<not> list_ex (\<lambda>p. prefixContains p address) blockedMCPAddressPrefixes)"

section \<open>Shape of a request\<close>

definition validPermissionPolicy :: "PermissionPolicy \<Rightarrow> bool" where
  "validPermissionPolicy p \<longleftrightarrow> pp_Type p = ''always_allow'' \<or> pp_Type p = ''always_ask''"

definition builtinToolsetFields :: "string list" where
  "builtinToolsetFields = [''configs'', ''default_config'', ''type'']"
definition mcpToolsetFields :: "string list" where
  "mcpToolsetFields = [''configs'', ''default_config'', ''mcp_server_name'', ''type'']"
definition customToolFields :: "string list" where
  "customToolFields = [''description'', ''input_schema'', ''name'', ''type'']"
definition toolConfigFields :: "string list" where
  "toolConfigFields = [''enabled'', ''name'', ''permission_policy'']"
definition defaultConfigFields :: "string list" where
  "defaultConfigFields = [''enabled'', ''permission_policy'']"
definition mcpServerFields :: "string list" where
  "mcpServerFields = [''name'', ''type'', ''url'']"
definition policyFields :: "string list" where "policyFields = [''type'']"

text \<open>Byte-wise order of strings, as \<open>slices.Sort\<close> compares them.\<close>

definition bytesLe :: "string \<Rightarrow> string \<Rightarrow> bool" where
  "bytesLe a b \<longleftrightarrow> map byteOf a \<le> map byteOf b"

fun leastString :: "string \<Rightarrow> string list \<Rightarrow> string" where
  "leastString x [] = x"
| "leastString x (y # ys) = leastString (if bytesLe x y then x else y) ys"

definition rejectUnknownFields :: "payload \<Rightarrow> string \<Rightarrow> string list \<Rightarrow> goError + unit" where
  "rejectUnknownFields value ctxt allowed =
     (case filter (\<lambda>key. key \<notin> set allowed) (akeys value) of
        [] \<Rightarrow> Inr ()
      | x # xs \<Rightarrow> Inl (Errorf ''%s does not support field %q'' [ctxt, leastString x xs]))"

definition validateOptionalBool :: "payload \<Rightarrow> string \<Rightarrow> string \<Rightarrow> goError + unit" where
  "validateOptionalBool value key ctxt =
     (case jget value key of
        None \<Rightarrow> Inr ()
      | Some JNull \<Rightarrow> Inr ()
      | Some (JBool _) \<Rightarrow> Inr ()
      | Some _ \<Rightarrow> Inl (Errorf ''%s %s must be a boolean'' [ctxt, key]))"

definition nameRune :: "nat \<Rightarrow> bool" where
  "nameRune r \<longleftrightarrow> asciiLower r \<or> asciiUpper r \<or> asciiDigit r \<or> r = 95 \<or> r = 45"

definition validCustomToolName :: "string \<Rightarrow> bool" where
  "validCustomToolName name =
     (if length name = 0 \<or> 128 < length name then False else list_all nameRune (runes name))"

definition checkPolicyFields :: "payload \<Rightarrow> string \<Rightarrow> goError + unit" where
  "checkPolicyFields config ctxt =
     (case asObj (jget config ''permission_policy'') of
        None \<Rightarrow> Inr ()
      | Some policy \<Rightarrow> rejectUnknownFields policy ctxt policyFields)"

definition checkCustomTool :: "payload \<Rightarrow> goError + unit" where
  "checkCustomTool tool =
     bindE (rejectUnknownFields tool ''custom tool'' customToolFields) (\<lambda>_.
       case asStr (jget tool ''name'') of
         None \<Rightarrow> Inl (Errorf ''custom tool name must match ^[a-zA-Z0-9_-]{1,128}$'' [])
       | Some name \<Rightarrow>
           if \<not> validCustomToolName name
           then Inl (Errorf ''custom tool name must match ^[a-zA-Z0-9_-]{1,128}$'' [])
           else (case asStr (jget tool ''description'') of
               None \<Rightarrow> Inl (Errorf ''custom tool description must be a string'' [])
             | Some description \<Rightarrow>
                 if runeCount description < 1 \<or> 4096 < runeCount description
                 then Inl (Errorf ''custom tool description must contain 1 to 4096 characters'' [])
                 else (case asObj (jget tool ''input_schema'') of
                     None \<Rightarrow> Inl (Errorf ''custom tool input_schema must be an object'' [])
                   | Some schema \<Rightarrow>
                       if jget schema ''type'' \<noteq> Some (JStr ''object'')
                       then Inl (Errorf ''custom tool input_schema type must be object'' [])
                       else Inr ())))"

definition checkDefaultConfig :: "payload \<Rightarrow> string \<Rightarrow> goError + unit" where
  "checkDefaultConfig tool ctxt =
     (case jget tool ''default_config'' of
        None \<Rightarrow> Inr ()
      | Some JNull \<Rightarrow> Inr ()
      | Some (JObj config) \<Rightarrow>
          bindE (rejectUnknownFields config (ctxt @ '' default_config'') defaultConfigFields) (\<lambda>_.
          bindE (validateOptionalBool config ''enabled'' (ctxt @ '' default_config'')) (\<lambda>_.
          checkPolicyFields config (ctxt @ '' default permission_policy'')))
      | Some _ \<Rightarrow> Inl (Errorf ''%s default_config must be an object'' [ctxt]))"

fun checkConfigs :: "string \<Rightarrow> jval list \<Rightarrow> goError + unit" where
  "checkConfigs ctxt [] = Inr ()"
| "checkConfigs ctxt (JObj config # rest) =
     bindE (rejectUnknownFields config (ctxt @ '' config'') toolConfigFields) (\<lambda>_.
     bindE (if ctxt = ''mcp_toolset'' then
              (case asStr (jget config ''name'') of
                 None \<Rightarrow> Inl (Errorf ''mcp tool config name must contain 1 to 128 characters'' [])
               | Some name \<Rightarrow>
                   if runeCount name < 1 \<or> 128 < runeCount name
                   then Inl (Errorf ''mcp tool config name must contain 1 to 128 characters'' [])
                   else Inr ())
            else Inr ()) (\<lambda>_.
     bindE (validateOptionalBool config ''enabled'' (ctxt @ '' config'')) (\<lambda>_.
     bindE (checkPolicyFields config (ctxt @ '' permission_policy'')) (\<lambda>_.
     checkConfigs ctxt rest))))"
| "checkConfigs ctxt (_ # rest) = checkConfigs ctxt rest"

definition checkToolset :: "payload \<Rightarrow> string \<Rightarrow> string list \<Rightarrow> goError + unit" where
  "checkToolset tool ctxt allowed =
     bindE (rejectUnknownFields tool ctxt allowed) (\<lambda>_.
     bindE (checkDefaultConfig tool ctxt) (\<lambda>_.
     case jget tool ''configs'' of
       None \<Rightarrow> Inr ()
     | Some JNull \<Rightarrow> Inr ()
     | Some (JArr configs) \<Rightarrow> checkConfigs ctxt configs
     | Some _ \<Rightarrow> Inl (Errorf ''%s configs must be an array'' [ctxt])))"

definition checkTool :: "jval \<Rightarrow> goError + unit" where
  "checkTool item =
     (case asObj (Some item) of
        None \<Rightarrow> Inr ()
      | Some tool \<Rightarrow>
          (let t = asStr (jget tool ''type'')
           in if t = Some BuiltinToolsetType then checkToolset tool ''built-in toolset'' builtinToolsetFields
              else if t = Some ''mcp_toolset'' then checkToolset tool ''mcp_toolset'' mcpToolsetFields
              else if t = Some ''custom'' then checkCustomTool tool
              else Inr ()))"

fun checkAll :: "('a \<Rightarrow> 'e + unit) \<Rightarrow> 'a list \<Rightarrow> 'e + unit" where
  "checkAll f [] = Inr ()"
| "checkAll f (x # xs) = bindE (f x) (\<lambda>_. checkAll f xs)"

definition validateToolWireShape :: "jval list \<Rightarrow> jval list \<Rightarrow> goError + unit" where
  "validateToolWireShape rawTools rawServers =
     (if maxAgentToolEntries < length rawTools
      then Inl (Errorf ''an agent may configure at most 128 tool entries'' [])
      else bindE (checkAll checkTool rawTools) (\<lambda>_.
        checkAll (\<lambda>item. case asObj (Some item) of
            None \<Rightarrow> Inr ()
          | Some server \<Rightarrow> rejectUnknownFields server ''mcp server'' mcpServerFields) rawServers))"

section \<open>Parsing a tool list\<close>

definition parsePolicy :: "jval \<Rightarrow> PermissionPolicy option" where
  "parsePolicy raw =
     (case asObj (Some raw) of
        None \<Rightarrow> None
      | Some m \<Rightarrow> (let t = strOf (jget m ''type'') in if t = [] then None else Some \<lparr>pp_Type = t\<rparr>))"

definition containsBuiltinTool :: "string \<Rightarrow> bool" where
  "containsBuiltinTool name \<longleftrightarrow> list_ex (\<lambda>candidate. candidate = name) BuiltinToolNames"

text \<open>A \<open>permission_policy\<close> that is present must parse to one of the two policies.\<close>

definition policyField :: "payload \<Rightarrow> goError \<Rightarrow> goError + PermissionPolicy option" where
  "policyField m err =
     (case jget m ''permission_policy'' of
        None \<Rightarrow> Inr None
      | Some rawPolicy \<Rightarrow>
          (case parsePolicy rawPolicy of
             None \<Rightarrow> Inl err
           | Some p \<Rightarrow> if validPermissionPolicy p then Inr (Some p) else Inl err))"

fun parseBuiltinConfigs :: "string list \<Rightarrow> jval list \<Rightarrow> goError + BuiltinConfig list" where
  "parseBuiltinConfigs configuredNames [] = Inr []"
| "parseBuiltinConfigs configuredNames (JObj cm # rest) =
     (let name = strOf (jget cm ''name'')
      in if name = [] then Inl (Errorf ''toolset config requires name'' [])
         else if \<not> containsBuiltinTool name then Inl (Errorf ''unknown built-in tool %q'' [name])
         else if name \<in> set configuredNames
         then Inl (Errorf ''duplicate built-in tool config %q'' [name])
         else bindE (policyField cm (Errorf
                ''built-in tool %q permission_policy must be always_allow or always_ask'' [name])) (\<lambda>p.
              bindE (parseBuiltinConfigs (name # configuredNames) rest) (\<lambda>cfgs.
              Inr (\<lparr>bc_Name = name, bc_Enabled = asBool (jget cm ''enabled''), bc_Policy = p\<rparr> # cfgs))))"
| "parseBuiltinConfigs configuredNames (_ # rest) =
     Inl (Errorf ''toolset config must be an object'' [])"

fun parseMCPConfigs :: "string \<Rightarrow> string list \<Rightarrow> jval list \<Rightarrow> goError + BuiltinConfig list" where
  "parseMCPConfigs sn configuredNames [] = Inr []"
| "parseMCPConfigs sn configuredNames (JObj cm # rest) =
     (let name = strOf (jget cm ''name'')
      in if name = [] then Inl (Errorf ''mcp toolset config requires name'' [])
         else if name \<in> set configuredNames
         then Inl (Errorf ''duplicate mcp tool config %q for server %q'' [name, sn])
         else bindE (policyField cm (Errorf
                ''mcp tool %s/%s permission_policy must be always_allow or always_ask'' [sn, name])) (\<lambda>p.
              bindE (parseMCPConfigs sn (name # configuredNames) rest) (\<lambda>cfgs.
              Inr (\<lparr>bc_Name = name, bc_Enabled = asBool (jget cm ''enabled''), bc_Policy = p\<rparr> # cfgs))))"
| "parseMCPConfigs sn configuredNames (_ # rest) =
     Inl (Errorf ''mcp toolset config must be an object'' [])"

text \<open>The \<open>default_config\<close> of a toolset over its built-in defaults.\<close>

definition parseDefaults ::
  "payload \<Rightarrow> goError \<Rightarrow> bool \<Rightarrow> PermissionPolicy \<Rightarrow> goError + (bool \<times> PermissionPolicy)" where
  "parseDefaults m err enabled0 policy0 =
     (case asObj (jget m ''default_config'') of
        None \<Rightarrow> Inr (enabled0, policy0)
      | Some dc \<Rightarrow>
          (let enabled = (case asBool (jget dc ''enabled'') of Some en \<Rightarrow> en | None \<Rightarrow> enabled0)
           in bindE (policyField dc err) (\<lambda>p.
              Inr (enabled, case p of Some policy \<Rightarrow> policy | None \<Rightarrow> policy0))))"

definition configList :: "payload \<Rightarrow> jval list" where
  "configList m = (case asArr (jget m ''configs'') of Some cfgs \<Rightarrow> cfgs | None \<Rightarrow> [])"

definition parseBuiltinToolset :: "payload \<Rightarrow> goError + BuiltinToolset" where
  "parseBuiltinToolset m =
     bindE (parseDefaults m
       (Errorf ''built-in default permission_policy must be always_allow or always_ask'' [])
       True \<lparr>pp_Type = ''always_allow''\<rparr>) (\<lambda>(enabled, policy).
     bindE (parseBuiltinConfigs [] (configList m)) (\<lambda>cfgs.
     Inr \<lparr>bt_DefaultEnabled = enabled, bt_DefaultPolicy = policy, bt_Configs = cfgs\<rparr>))"

definition parseMCPToolset :: "payload \<Rightarrow> string \<Rightarrow> goError + MCPToolset" where
  "parseMCPToolset m sn =
     bindE (parseDefaults m
       (Errorf ''mcp server %q default permission_policy must be always_allow or always_ask'' [sn])
       True \<lparr>pp_Type = ''always_ask''\<rparr>) (\<lambda>(enabled, policy).
     bindE (parseMCPConfigs sn [] (configList m)) (\<lambda>cfgs.
     Inr \<lparr>mt_ServerName = sn, mt_DefaultEnabled = enabled, mt_DefaultPolicy = policy,
           mt_Configs = cfgs\<rparr>))"

text \<open>
  One entry of the list, added to the toolset parsed so far: the sets of custom names and of MCP
  servers the code keeps beside it are the names already in it.
\<close>

definition parseToolEntry :: "ToolSet \<Rightarrow> jval \<Rightarrow> goError + ToolSet" where
  "parseToolEntry ts item =
     (case asObj (Some item) of
        None \<Rightarrow> Inl (Errorf ''tool entry must be an object'' [])
      | Some m \<Rightarrow>
          (let t = asStr (jget m ''type'')
           in if t = Some BuiltinToolsetType then
                (if ts_Builtin ts \<noteq> None
                 then Inl (Errorf ''only one built-in toolset may be configured'' [])
                 else bindE (parseBuiltinToolset m) (\<lambda>bt. Inr (ts\<lparr>ts_Builtin := Some bt\<rparr>)))
              else if t = Some ''custom'' then
                (let name = strOf (jget m ''name'')
                 in if name = [] then Inl (Errorf ''custom tool requires name'' [])
                    else if name \<in> set (map ct_Name (ts_Custom ts))
                    then Inl (Errorf ''duplicate custom tool %q'' [name])
                    else if containsBuiltinTool name
                    then Inl (Errorf ''custom tool %q conflicts with a built-in tool'' [name])
                    else Inr (ts\<lparr>ts_Custom := ts_Custom ts @
                      [\<lparr>ct_Name = name, ct_Description = strOf (jget m ''description''),
                        ct_InputSchema = objOf (jget m ''input_schema'')\<rparr>]\<rparr>))
              else if t = Some ''mcp_toolset'' then
                (let sn = strOf (jget m ''mcp_server_name'')
                 in if sn = [] then Inl (Errorf ''mcp_toolset requires mcp_server_name'' [])
                    else if sn \<in> set (map mt_ServerName (ts_MCP ts))
                    then Inl (Errorf ''duplicate mcp_toolset for server %q'' [sn])
                    else bindE (parseMCPToolset m sn) (\<lambda>mt. Inr (ts\<lparr>ts_MCP := ts_MCP ts @ [mt]\<rparr>)))
              else Inl (ErrorfAny ''unknown tool type %v'' (jget m ''type''))))"

fun foldE :: "('s \<Rightarrow> 'a \<Rightarrow> 'e + 's) \<Rightarrow> 's \<Rightarrow> 'a list \<Rightarrow> 'e + 's" where
  "foldE f s [] = Inr s"
| "foldE f s (x # xs) = bindE (f s x) (\<lambda>s'. foldE f s' xs)"

definition emptyToolSet :: ToolSet where
  "emptyToolSet = \<lparr>ts_Builtin = None, ts_Custom = [], ts_MCP = []\<rparr>"

definition ParseTools :: "jval list \<Rightarrow> goError + ToolSet" where
  "ParseTools raw = foldE parseToolEntry emptyToolSet raw"

section \<open>Which tools are enabled\<close>

fun applyConfigs :: "string \<Rightarrow> BuiltinConfig list \<Rightarrow> bool \<Rightarrow> PermissionPolicy \<Rightarrow> bool \<times> PermissionPolicy" where
  "applyConfigs name [] enabled policy = (enabled, policy)"
| "applyConfigs name (config # rest) enabled policy =
     (if bc_Name config \<noteq> name then applyConfigs name rest enabled policy
      else applyConfigs name rest
        (case bc_Enabled config of Some en \<Rightarrow> en | None \<Rightarrow> enabled)
        (case bc_Policy config of Some p \<Rightarrow> p | None \<Rightarrow> policy))"

definition ToolEnabled :: "MCPToolset \<Rightarrow> string \<Rightarrow> bool \<times> PermissionPolicy" where
  "ToolEnabled ts name = applyConfigs name (mt_Configs ts) (mt_DefaultEnabled ts) (mt_DefaultPolicy ts)"

definition BuiltinEnabled :: "ToolSet \<Rightarrow> string \<Rightarrow> bool \<times> PermissionPolicy" where
  "BuiltinEnabled ts name =
     (case ts_Builtin ts of
        None \<Rightarrow> (False, \<lparr>pp_Type = []\<rparr>)
      | Some b \<Rightarrow> applyConfigs name (bt_Configs b) (bt_DefaultEnabled b) (bt_DefaultPolicy b))"

section \<open>Servers and cross checks\<close>

record parsedURL =
  url_Scheme :: string
  url_Host :: string
  url_Hostname :: string
  url_HasUser :: bool
  url_Fragment :: string
  url_String :: string

definition parseMCPServer ::
  "(string \<Rightarrow> parsedURL option) \<Rightarrow> (string \<Rightarrow> ipaddr option) \<Rightarrow> (string \<times> MCPServer) list \<Rightarrow> jval
   \<Rightarrow> goError + (string \<times> MCPServer) list" where
  "parseMCPServer parseURL parseAddr servers item =
     (case asObj (Some item) of
        None \<Rightarrow> Inl (Errorf ''mcp server entry must be an object'' [])
      | Some value \<Rightarrow>
          (let name = strOf (jget value ''name''); rawURL = strOf (jget value ''url'')
           in if strOf (jget value ''type'') \<noteq> ''url'' \<or> trimSpace name = [] \<or> trimSpace rawURL = []
              then Inl (Errorf ''mcp server requires type=url, name, and url'' [])
              else if 255 < runeCount name
              then Inl (Errorf ''mcp server name exceeds 255 characters'' [])
              else if 2048 < runeCount rawURL
              then Inl (Errorf ''mcp server %q url exceeds 2048 characters'' [name])
              else if map_of servers name \<noteq> None
              then Inl (Errorf ''duplicate mcp server name %q'' [name])
              else (case parseURL rawURL of
                  None \<Rightarrow> Inl (Errorf ''mcp server %q has an invalid http(s) url'' [name])
                | Some parsed \<Rightarrow>
                    if url_Scheme parsed \<noteq> ''http'' \<and> url_Scheme parsed \<noteq> ''https''
                       \<or> url_Host parsed = [] \<or> url_HasUser parsed \<or> url_Fragment parsed \<noteq> []
                    then Inl (Errorf ''mcp server %q has an invalid http(s) url'' [name])
                    else if (case parseAddr (url_Hostname parsed) of
                               Some address \<Rightarrow> \<not> MCPAddressAllowed address | None \<Rightarrow> False)
                    then Inl (Errorf ''mcp server %q url targets a non-public network'' [name])
                    else Inr (aput name \<lparr>ms_Name = name, ms_URL = url_String parsed\<rparr> servers))))"

definition ParseMCPServers ::
  "(string \<Rightarrow> parsedURL option) \<Rightarrow> (string \<Rightarrow> ipaddr option) \<Rightarrow> jval list
   \<Rightarrow> goError + (string \<times> MCPServer) list" where
  "ParseMCPServers parseURL parseAddr raw =
     (if 20 < length raw then Inl (Errorf ''an agent may configure at most 20 MCP servers'' [])
      else foldE (parseMCPServer parseURL parseAddr) [] raw)"

definition checkProviderNative :: "ToolSet \<Rightarrow> string \<Rightarrow> goError + unit" where
  "checkProviderNative toolSet name =
     (let (enabled, policy) = BuiltinEnabled toolSet name
      in if enabled \<and> pp_Type policy \<noteq> ''always_allow''
         then Inl (Errorf ''%s requires always_allow while it is provider-native'' [name])
         else Inr ())"

definition ValidateStoredToolConfiguration ::
  "(string \<Rightarrow> parsedURL option) \<Rightarrow> (string \<Rightarrow> ipaddr option) \<Rightarrow> jval list \<Rightarrow> jval list \<Rightarrow> goError + unit" where
  "ValidateStoredToolConfiguration parseURL parseAddr rawTools rawServers =
     bindE (ParseTools rawTools) (\<lambda>toolSet.
     bindE (ParseMCPServers parseURL parseAddr rawServers) (\<lambda>servers.
     bindE (checkAll (\<lambda>configured.
         if map_of servers (mt_ServerName configured) = None
         then Inl (Errorf ''mcp_toolset references unknown server %q'' [mt_ServerName configured])
         else Inr ()) (ts_MCP toolSet)) (\<lambda>_.
     bindE (checkAll (\<lambda>name.
         if name \<notin> set (map mt_ServerName (ts_MCP toolSet))
         then Inl (Errorf ''MCP server %q has no matching mcp_toolset'' [name])
         else Inr ()) (akeys servers)) (\<lambda>_.
     checkAll (checkProviderNative toolSet) [''web_search'', ''web_fetch'']))))"

definition ValidateToolConfiguration ::
  "(string \<Rightarrow> parsedURL option) \<Rightarrow> (string \<Rightarrow> ipaddr option) \<Rightarrow> jval list \<Rightarrow> jval list \<Rightarrow> goError + unit" where
  "ValidateToolConfiguration parseURL parseAddr rawTools rawServers =
     bindE (validateToolWireShape rawTools rawServers) (\<lambda>_.
     ValidateStoredToolConfiguration parseURL parseAddr rawTools rawServers)"

definition ValidateSkillToolConfiguration :: "jval list \<Rightarrow> bool \<Rightarrow> goError + unit" where
  "ValidateSkillToolConfiguration rawTools hasSkills =
     (if \<not> hasSkills then Inr ()
      else bindE (ParseTools rawTools) (\<lambda>toolSet.
        if \<not> fst (BuiltinEnabled toolSet ''read'') then Inl (Errorf ''skills require the read tool'' [])
        else checkAll (\<lambda>custom.
          if ct_Name custom = ''Skill''
          then Inl (Errorf ''custom tool %q conflicts with the runtime Skill dispatcher'' [ct_Name custom])
          else Inr ()) (ts_Custom toolSet)))"

section \<open>Resolution of overrides\<close>

text \<open>
  Both kinds of toolset promise the same: defaults, then every entry of the override list that
  carries the name. What a tool resolves to is proved once from that promise.
\<close>

locale config_overrides =
  fixes resolve :: "'ts \<Rightarrow> string \<Rightarrow> bool \<times> PermissionPolicy"
    and configs :: "'ts \<Rightarrow> BuiltinConfig list"
    and dEnabled :: "'ts \<Rightarrow> bool"
    and dPolicy :: "'ts \<Rightarrow> PermissionPolicy"
  assumes resolve_fold: "resolve ts name = applyConfigs name (configs ts) (dEnabled ts) (dPolicy ts)"
begin

lemma resolve_unlisted:
  assumes "name \<notin> bc_Name ` set (configs ts)"
  shows "resolve ts name = (dEnabled ts, dPolicy ts)"
proof -
  have "name \<notin> bc_Name ` set cs \<Longrightarrow> applyConfigs name cs e p = (e, p)" for cs e p
    by (induction name cs e p rule: applyConfigs.induct) auto
  with assms show ?thesis by (simp add: resolve_fold)
qed

lemma resolve_listed:
  assumes "distinct (map bc_Name (configs ts))" and "c \<in> set (configs ts)"
  shows "resolve ts (bc_Name c) =
    (case bc_Enabled c of Some en \<Rightarrow> en | None \<Rightarrow> dEnabled ts,
     case bc_Policy c of Some p \<Rightarrow> p | None \<Rightarrow> dPolicy ts)"
proof -
  have skip: "name \<notin> bc_Name ` set cs \<Longrightarrow> applyConfigs name cs e p = (e, p)" for name cs e p
    by (induction name cs e p rule: applyConfigs.induct) auto
  have "distinct (map bc_Name cs) \<Longrightarrow> c \<in> set cs \<Longrightarrow> applyConfigs (bc_Name c) cs e p =
    (case bc_Enabled c of Some en \<Rightarrow> en | None \<Rightarrow> e, case bc_Policy c of Some q \<Rightarrow> q | None \<Rightarrow> p)" for cs e p
    by (induction "bc_Name c" cs e p rule: applyConfigs.induct) (auto simp: skip)
  with assms show ?thesis by (simp add: resolve_fold)
qed

lemma resolve_policy_valid:
  assumes "validPermissionPolicy (dPolicy ts)"
    and "\<And>c p. c \<in> set (configs ts) \<Longrightarrow> bc_Policy c = Some p \<Longrightarrow> validPermissionPolicy p"
  shows "validPermissionPolicy (snd (resolve ts name))"
proof -
  have "validPermissionPolicy p \<Longrightarrow>
      \<forall>c \<in> set cs. \<forall>q. bc_Policy c = Some q \<longrightarrow> validPermissionPolicy q \<Longrightarrow>
      validPermissionPolicy (snd (applyConfigs name cs e p))" for cs e p
    by (induction name cs e p rule: applyConfigs.induct) (auto split: option.splits)
  with assms show ?thesis by (simp add: resolve_fold)
qed

end

interpretation mcp_tools: config_overrides ToolEnabled mt_Configs mt_DefaultEnabled mt_DefaultPolicy
  by unfold_locales (simp add: ToolEnabled_def)

interpretation builtin_tools: config_overrides
  "\<lambda>b. BuiltinEnabled \<lparr>ts_Builtin = Some b, ts_Custom = [], ts_MCP = []\<rparr>"
  bt_Configs bt_DefaultEnabled bt_DefaultPolicy
  by unfold_locales (simp add: BuiltinEnabled_def)

lemma BuiltinEnabled_Some:
  "ts_Builtin ts = Some b \<Longrightarrow>
     BuiltinEnabled ts name = BuiltinEnabled \<lparr>ts_Builtin = Some b, ts_Custom = [], ts_MCP = []\<rparr> name"
  by (simp add: BuiltinEnabled_def)

section \<open>What the parser guarantees\<close>

lemma foldE_invariant:
  assumes "\<And>s x s'. I s \<Longrightarrow> f s x = Inr s' \<Longrightarrow> I s'" and "I s" and "foldE f s xs = Inr s'"
  shows "I s'"
  using assms(2,3)
proof (induction xs arbitrary: s)
  case (Cons x xs)
  then obtain t where "f s x = Inr t" "foldE f t xs = Inr s'" by (auto simp: bindE_Inr_iff)
  with Cons assms(1) show ?case by blast
qed simp

lemma checkAll_Inr: "checkAll f xs = Inr () \<longleftrightarrow> (\<forall>x \<in> set xs. f x = Inr ())"
  by (induction xs) (auto simp: bindE_Inr_iff)

definition wfConfigs :: "BuiltinConfig list \<Rightarrow> bool" where
  "wfConfigs cfgs \<longleftrightarrow> distinct (map bc_Name cfgs)
     \<and> list_all (\<lambda>c. bc_Name c \<noteq> [] \<and> (case bc_Policy c of None \<Rightarrow> True | Some p \<Rightarrow> validPermissionPolicy p)) cfgs"

definition wfToolSet :: "ToolSet \<Rightarrow> bool" where
  "wfToolSet ts \<longleftrightarrow>
     distinct (map ct_Name (ts_Custom ts))
     \<and> list_all (\<lambda>c. ct_Name c \<noteq> [] \<and> \<not> containsBuiltinTool (ct_Name c)) (ts_Custom ts)
     \<and> distinct (map mt_ServerName (ts_MCP ts))
     \<and> list_all (\<lambda>m. mt_ServerName m \<noteq> [] \<and> wfConfigs (mt_Configs m)
           \<and> validPermissionPolicy (mt_DefaultPolicy m)) (ts_MCP ts)
     \<and> (case ts_Builtin ts of
          None \<Rightarrow> True
        | Some b \<Rightarrow> wfConfigs (bt_Configs b) \<and> validPermissionPolicy (bt_DefaultPolicy b)
            \<and> list_all (\<lambda>c. containsBuiltinTool (bc_Name c)) (bt_Configs b))"

lemma policyField_valid: "policyField m e = Inr (Some p) \<Longrightarrow> validPermissionPolicy p"
  by (auto simp: policyField_def split: option.splits if_splits)

lemma parseBuiltinConfigs_wf:
  "parseBuiltinConfigs used cfgs = Inr cs \<Longrightarrow>
     wfConfigs cs \<and> set (map bc_Name cs) \<inter> set used = {}
     \<and> list_all (\<lambda>c. containsBuiltinTool (bc_Name c)) cs"
proof (induction used cfgs arbitrary: cs rule: parseBuiltinConfigs.induct)
  case (2 used cm rest)
  let ?n = "strOf (jget cm ''name'')"
  from 2(2) obtain p rest' where ok: "?n \<noteq> []" "containsBuiltinTool ?n" "?n \<notin> set used"
    and p: "policyField cm (Errorf
        ''built-in tool %q permission_policy must be always_allow or always_ask'' [?n]) = Inr p"
    and r: "parseBuiltinConfigs (?n # used) rest = Inr rest'"
    and cs: "cs = \<lparr>bc_Name = ?n, bc_Enabled = asBool (jget cm ''enabled''), bc_Policy = p\<rparr> # rest'"
    by (auto simp: Let_def bindE_Inr_iff split: if_splits)
  from 2(1) [OF refl] ok p r have "wfConfigs rest' \<and> set (map bc_Name rest') \<inter> set (?n # used) = {}
      \<and> list_all (\<lambda>c. containsBuiltinTool (bc_Name c)) rest'" by simp
  with ok cs p show ?case by (auto simp: wfConfigs_def dest: policyField_valid split: option.splits)
qed (auto simp: wfConfigs_def)

lemma parseMCPConfigs_wf:
  "parseMCPConfigs sn used cfgs = Inr cs \<Longrightarrow> wfConfigs cs \<and> set (map bc_Name cs) \<inter> set used = {}"
proof (induction sn used cfgs arbitrary: cs rule: parseMCPConfigs.induct)
  case (2 sn used cm rest)
  let ?n = "strOf (jget cm ''name'')"
  from 2(2) obtain p rest' where ok: "?n \<noteq> []" "?n \<notin> set used"
    and p: "policyField cm (Errorf
        ''mcp tool %s/%s permission_policy must be always_allow or always_ask'' [sn, ?n]) = Inr p"
    and r: "parseMCPConfigs sn (?n # used) rest = Inr rest'"
    and cs: "cs = \<lparr>bc_Name = ?n, bc_Enabled = asBool (jget cm ''enabled''), bc_Policy = p\<rparr> # rest'"
    by (auto simp: Let_def bindE_Inr_iff split: if_splits)
  from 2(1) [OF refl] ok p r have "wfConfigs rest' \<and> set (map bc_Name rest') \<inter> set (?n # used) = {}" by simp
  with ok cs p show ?case by (auto simp: wfConfigs_def dest: policyField_valid split: option.splits)
qed (auto simp: wfConfigs_def)

lemma parseDefaults_valid:
  "parseDefaults m e en p0 = Inr (en', p) \<Longrightarrow> validPermissionPolicy p0 \<Longrightarrow> validPermissionPolicy p"
  by (auto simp: parseDefaults_def Let_def bindE_Inr_iff dest: policyField_valid split: option.splits)

lemma default_policies_valid [simp]:
  "validPermissionPolicy \<lparr>pp_Type = ''always_allow''\<rparr>" "validPermissionPolicy \<lparr>pp_Type = ''always_ask''\<rparr>"
  by (simp_all add: validPermissionPolicy_def)

lemma parseBuiltinToolset_wf:
  "parseBuiltinToolset m = Inr b \<Longrightarrow> wfConfigs (bt_Configs b) \<and> validPermissionPolicy (bt_DefaultPolicy b)
     \<and> list_all (\<lambda>c. containsBuiltinTool (bc_Name c)) (bt_Configs b)"
  by (auto simp: parseBuiltinToolset_def bindE_Inr_iff dest!: parseBuiltinConfigs_wf dest: parseDefaults_valid)

lemma parseMCPToolset_wf:
  "parseMCPToolset m sn = Inr t \<Longrightarrow> mt_ServerName t = sn \<and> wfConfigs (mt_Configs t)
     \<and> validPermissionPolicy (mt_DefaultPolicy t)"
  by (auto simp: parseMCPToolset_def bindE_Inr_iff dest!: parseMCPConfigs_wf dest: parseDefaults_valid)

lemma parseToolEntry_wf:
  assumes "wfToolSet ts" "parseToolEntry ts item = Inr ts'"
  shows "wfToolSet ts'"
  using assms
  by (auto simp: parseToolEntry_def Let_def wfToolSet_def bindE_Inr_iff list_all_append
      dest!: parseBuiltinToolset_wf parseMCPToolset_wf split: option.splits if_splits)

lemma emptyToolSet_wf: "wfToolSet emptyToolSet"
  by (simp add: wfToolSet_def emptyToolSet_def)

lemma ParseTools_wfToolSet: "ParseTools raw = Inr ts \<Longrightarrow> wfToolSet ts"
  unfolding ParseTools_def
  by (rule foldE_invariant [where I = wfToolSet, OF parseToolEntry_wf emptyToolSet_wf])

lemma div_eq_range: "0 < k \<Longrightarrow> x div k = q \<longleftrightarrow> q * k \<le> x \<and> x < q * k + k" for x k q :: nat
  using div_nat_eqI [of k q x] dividend_less_div_times [of k x] div_times_less_eq_dividend [of x k]
  by (auto simp: mult.commute)

lemma inNet4_iff:
  assumes "bits \<le> 32" "unat net mod 2 ^ (32 - bits) = 0"
  shows "inNet4 a net bits \<longleftrightarrow> unat net \<le> unat a \<and> unat a < unat net + 2 ^ (32 - bits)"
proof -
  let ?k = "2 ^ (32 - bits) :: nat"
  have "inNet4 a net bits \<longleftrightarrow> unat a div ?k = unat net div ?k"
    unfolding inNet4_def word_unat_eq_iff unat_drop_bit_eq by (simp only: drop_bit_eq_div)
  moreover have "unat net = unat net div ?k * ?k" using assms(2) by (metis add.right_neutral div_mult_mod_eq)
  moreover have "0 < ?k" by simp
  ultimately show ?thesis
    using div_eq_range [of ?k "unat a" "unat net div ?k"] by simp
qed

text \<open>The networks an IPv4 endpoint must stay out of, as ranges of addresses.\<close>

definition nonPublic4 :: "(nat \<times> nat) list" where
  "nonPublic4 =
     [(0, 1), (0x0A000000, 2 ^ 24), (0x64400000, 2 ^ 22), (0x7F000000, 2 ^ 24), (0xA9FE0000, 2 ^ 16),
      (0xAC100000, 2 ^ 20), (0xC0000000, 2 ^ 8), (0xC0000200, 2 ^ 8), (0xC0A80000, 2 ^ 16),
      (0xC6120000, 2 ^ 17), (0xC6336400, 2 ^ 8), (0xCB007100, 2 ^ 8), (0xE0000000, 2 ^ 28),
      (0xF0000000, 2 ^ 28)]"

lemma MCPAddressAllowed_IPv4:
  "MCPAddressAllowed (IPv4 a) \<longleftrightarrow>
     list_all (\<lambda>(base, size). \<not> (base \<le> unat a \<and> unat a < base + size)) nonPublic4"
proof -
  have nets: "list_all (\<lambda>(base, size). \<not> (base \<le> unat a \<and> unat a < base + size)) nonPublic4 \<longleftrightarrow>
      \<not> inNet4 a 0 32 \<and> \<not> inNet4 a 0x0A000000 8 \<and> \<not> inNet4 a 0x64400000 10 \<and> \<not> inNet4 a 0x7F000000 8
      \<and> \<not> inNet4 a 0xA9FE0000 16 \<and> \<not> inNet4 a 0xAC100000 12 \<and> \<not> inNet4 a 0xC0000000 24
      \<and> \<not> inNet4 a 0xC0000200 24 \<and> \<not> inNet4 a 0xC0A80000 16 \<and> \<not> inNet4 a 0xC6120000 15
      \<and> \<not> inNet4 a 0xC6336400 24 \<and> \<not> inNet4 a 0xCB007100 24 \<and> \<not> inNet4 a 0xE0000000 4
      \<and> \<not> inNet4 a 0xF0000000 4"
    by (simp only: nonPublic4_def list.pred_inject inNet4_iff case_prod_conv) (simp add: inNet4_iff)
  have zero: "a = 0 \<longleftrightarrow> inNet4 a 0 32"
    by (simp add: inNet4_def)
  have multi: "inNet4 a 0xE0000000 24 \<Longrightarrow> inNet4 a 0xE0000000 4"
    by (simp add: inNet4_iff)
  have ones: "a = 0xFFFFFFFF \<Longrightarrow> inNet4 a 0xF0000000 4"
    by (simp add: inNet4_iff)
  show ?thesis
    unfolding nets
    by (simp add: MCPAddressAllowed_def isGlobalUnicast_def blockedMCPAddressPrefixes_def Let_def)
      (use zero multi ones in blast)
qed

lemma unmap_mapped: "unmap (IPv6 (push_bit 32 65535 + ucast (a :: 32 word)) zone) = IPv4 a"
proof -
  let ?w = "push_bit 32 65535 + ucast a :: 128 word"
  have a: "unat a < 2 ^ 32" using unsigned_less [of a] by simp
  have u: "unat (ucast a :: 128 word) = unat a"
    by (simp add: unsigned_ucast_eq take_bit_nat_eq_self order_less_trans [OF a])
  have "unat ?w = (unat (push_bit 32 65535 :: 128 word) + unat (ucast a :: 128 word)) mod 2 ^ 128"
    by (simp add: unat_word_ariths)
  also have "\<dots> = 65535 * 2 ^ 32 + unat a"
    using a unfolding u by (simp add: push_bit_eq_mult)
  finally have w: "unat ?w = 65535 * 2 ^ 32 + unat a" .
  have "unat (drop_bit 32 ?w) = 65535"
    unfolding unat_drop_bit_eq w using a by (simp add: drop_bit_eq_div)
  then have "drop_bit 32 ?w = 65535" by (simp add: word_unat_eq_iff)
  moreover have "unat (ucast ?w :: 32 word) = unat a"
    unfolding unsigned_ucast_eq w using a mod_mult_self3 [of 65535 "2 ^ 32" "unat a"]
    by (simp add: take_bit_eq_mod)
  then have "(ucast ?w :: 32 word) = a" by (simp add: word_unat_eq_iff)
  ultimately show ?thesis by simp
qed

text \<open>
  The address filter of MCP endpoints is exact on IPv4: an address passes if and only if it is
  in none of the special ranges (this host, private, shared, loopback, link local, protocol
  assignments, documentation, benchmarking, multicast and reserved), and writing it as an
  IPv4-mapped IPv6 address, with any zone, changes nothing.
\<close>

theorem mcp_filter_exact_on_IPv4:
  "MCPAddressAllowed (IPv4 a) =
     list_all (\<lambda>(base, size). \<not> (base \<le> unat a \<and> unat a < base + size)) nonPublic4
   \<and> MCPAddressAllowed (IPv6 (push_bit 32 65535 + ucast a) zone) = MCPAddressAllowed (IPv4 a)"
proof -
  have "MCPAddressAllowed (IPv6 (push_bit 32 65535 + ucast a) zone) = MCPAddressAllowed (IPv4 a)"
    unfolding MCPAddressAllowed_def unmap_mapped by simp
  with MCPAddressAllowed_IPv4 [of a] show ?thesis by blast
qed

text \<open>
  The unspecified IPv6 address is not public, yet with a zone it passes the filter.
\<close>

lemma mcp_filter_misses_zoned_unspecified:
  "MCPAddressAllowed (IPv6 0 ''lo'')" "\<not> MCPAddressAllowed (IPv6 0 [])"
  by (simp_all add: MCPAddressAllowed_def isGlobalUnicast_def blockedMCPAddressPrefixes_def)

lemma ValidateStored_parts:
  assumes "ValidateStoredToolConfiguration parseURL parseAddr rawTools rawServers = Inr ()"
  obtains ts servers where "ParseTools rawTools = Inr ts"
    "ParseMCPServers parseURL parseAddr rawServers = Inr servers"
    "\<forall>m \<in> set (ts_MCP ts). map_of servers (mt_ServerName m) \<noteq> None"
    "\<forall>n \<in> set (akeys servers). n \<in> set (map mt_ServerName (ts_MCP ts))"
    "checkProviderNative ts ''web_search'' = Inr ()" "checkProviderNative ts ''web_fetch'' = Inr ()"
proof -
  from assms obtain ts servers u1 u2 where p: "ParseTools rawTools = Inr ts"
      "ParseMCPServers parseURL parseAddr rawServers = Inr servers"
    and c: "checkAll (\<lambda>configured. if map_of servers (mt_ServerName configured) = None
        then Inl (Errorf ''mcp_toolset references unknown server %q'' [mt_ServerName configured])
        else Inr ()) (ts_MCP ts) = Inr u1"
      "checkAll (\<lambda>name. if name \<notin> set (map mt_ServerName (ts_MCP ts))
        then Inl (Errorf ''MCP server %q has no matching mcp_toolset'' [name]) else Inr ()) (akeys servers)
        = Inr u2"
      "checkAll (checkProviderNative ts) [''web_search'', ''web_fetch''] = Inr ()"
    unfolding ValidateStoredToolConfiguration_def bindE_Inr_iff by blast
  show ?thesis
    using that [OF p] c by (auto simp: checkAll_Inr bindE_Inr_iff split: if_splits)
qed

text \<open>
  C35. A tool configuration that the admission check accepts parses to a well-formed toolset: at most
  one built-in toolset, distinct custom names that hide no built-in tool, one toolset per MCP
  server, distinct override names with valid policies, a toolset for every configured server
  and a configured server for every toolset, and the provider-native web tools never wait for a
  confirmation that nobody could give.
\<close>

theorem accepted_tools_wellformed:
  assumes "ValidateToolConfiguration parseURL parseAddr rawTools rawServers = Inr ()"
  shows "\<exists>ts servers. ParseTools rawTools = Inr ts
    \<and> ParseMCPServers parseURL parseAddr rawServers = Inr servers
    \<and> wfToolSet ts \<and> set (map mt_ServerName (ts_MCP ts)) = set (akeys servers)
    \<and> list_all (\<lambda>n. case BuiltinEnabled ts n of (enabled, policy) \<Rightarrow>
         \<not> enabled \<or> pp_Type policy = ''always_allow'') [''web_search'', ''web_fetch'']"
proof -
  have "ValidateStoredToolConfiguration parseURL parseAddr rawTools rawServers = Inr ()"
    using assms by (auto simp: ValidateToolConfiguration_def bindE_Inr_iff)
  then obtain ts servers where p: "ParseTools rawTools = Inr ts"
      "ParseMCPServers parseURL parseAddr rawServers = Inr servers"
    and c: "\<forall>m \<in> set (ts_MCP ts). map_of servers (mt_ServerName m) \<noteq> None"
      "\<forall>n \<in> set (akeys servers). n \<in> set (map mt_ServerName (ts_MCP ts))"
      "checkProviderNative ts ''web_search'' = Inr ()" "checkProviderNative ts ''web_fetch'' = Inr ()"
    by (rule ValidateStored_parts)
  have "set (map mt_ServerName (ts_MCP ts)) = set (akeys servers)"
    using c(1,2) by (auto simp: akeys_fst map_of_eq_None_iff)
  moreover have "list_all (\<lambda>n. case BuiltinEnabled ts n of (enabled, policy) \<Rightarrow>
         \<not> enabled \<or> pp_Type policy = ''always_allow'') [''web_search'', ''web_fetch'']"
    using c(3,4) by (auto simp: checkProviderNative_def split: prod.splits if_splits)
  ultimately show ?thesis using p ParseTools_wfToolSet by blast
qed

definition sampleTools :: "jval list" where
  "sampleTools =
     [JObj [(''type'', JStr ''agent_toolset_20260401''),
            (''configs'', JArr [JObj [(''name'', JStr ''bash''),
               (''permission_policy'', JObj [(''type'', JStr ''always_ask'')])]])],
      JObj [(''type'', JStr ''mcp_toolset''), (''mcp_server_name'', JStr ''gh'')]]"

definition sampleServers :: "jval list" where
  "sampleServers = [JObj [(''type'', JStr ''url''), (''name'', JStr ''gh''), (''url'', JStr ''u'')]]"

definition sampleParseURL :: "string \<Rightarrow> parsedURL option" where
  "sampleParseURL s = Some \<lparr>url_Scheme = ''https'', url_Host = ''h'', url_Hostname = ''h'',
     url_HasUser = False, url_Fragment = [], url_String = s\<rparr>"

lemmas sample_eval = sampleTools_def sampleServers_def sampleParseURL_def ValidateToolConfiguration_def
  ValidateStoredToolConfiguration_def validateToolWireShape_def maxAgentToolEntries_def checkTool_def
  checkToolset_def checkDefaultConfig_def checkPolicyFields_def rejectUnknownFields_def
  builtinToolsetFields_def mcpToolsetFields_def toolConfigFields_def policyFields_def mcpServerFields_def
  validateOptionalBool_def jget_def BuiltinToolsetType_def ParseTools_def parseToolEntry_def
  emptyToolSet_def parseBuiltinToolset_def parseMCPToolset_def parseDefaults_def configList_def
  policyField_def parsePolicy_def validPermissionPolicy_def containsBuiltinTool_def BuiltinToolNames_def
  ParseMCPServers_def parseMCPServer_def checkProviderNative_def BuiltinEnabled_def go_eval

theorem accepted_tools_wellformed_witness:
  "\<exists>ts servers. ParseTools sampleTools = Inr ts
    \<and> ParseMCPServers sampleParseURL (\<lambda>_. None) sampleServers = Inr servers
    \<and> wfToolSet ts \<and> set (map mt_ServerName (ts_MCP ts)) = set (akeys servers)
    \<and> list_all (\<lambda>n. case BuiltinEnabled ts n of (enabled, policy) \<Rightarrow>
         \<not> enabled \<or> pp_Type policy = ''always_allow'') [''web_search'', ''web_fetch'']"
  by (rule accepted_tools_wellformed) (simp add: sample_eval)

text \<open>The stored server came from a URL that the checks let through.\<close>

definition publicServer ::
  "(string \<Rightarrow> parsedURL option) \<Rightarrow> (string \<Rightarrow> ipaddr option) \<Rightarrow> MCPServer \<Rightarrow> bool" where
  "publicServer parseURL parseAddr s \<longleftrightarrow>
     (\<exists>rawURL p. parseURL rawURL = Some p \<and> ms_URL s = url_String p
       \<and> (url_Scheme p = ''http'' \<or> url_Scheme p = ''https'') \<and> \<not> url_HasUser p
       \<and> (case parseAddr (url_Hostname p) of None \<Rightarrow> True | Some a \<Rightarrow> MCPAddressAllowed a))"

lemma publicServerI:
  "parseURL rawURL = Some p \<Longrightarrow> url_Scheme p = ''http'' \<or> url_Scheme p = ''https'' \<Longrightarrow> \<not> url_HasUser p \<Longrightarrow>
     (case parseAddr (url_Hostname p) of None \<Rightarrow> True | Some a \<Rightarrow> MCPAddressAllowed a) \<Longrightarrow>
     publicServer parseURL parseAddr \<lparr>ms_Name = n, ms_URL = url_String p\<rparr>"
  unfolding publicServer_def by auto

lemma parseMCPServer_public:
  assumes "list_all (publicServer parseURL parseAddr \<circ> snd) servers"
    and "parseMCPServer parseURL parseAddr servers item = Inr servers'"
  shows "list_all (publicServer parseURL parseAddr \<circ> snd) servers'"
  using assms(2,1)
  by (auto simp: parseMCPServer_def Let_def list_all_iff dest!: set_aput_sub intro!: publicServerI
      split: option.splits if_splits)

text \<open>
  Every MCP server that is stored has an http or https address without credentials, and a
  server given by a literal address is outside every special network.
\<close>

theorem mcp_servers_public:
  assumes "ParseMCPServers parseURL parseAddr raw = Inr servers" and "(n, s) \<in> set servers"
  shows "publicServer parseURL parseAddr s"
proof -
  have "foldE (parseMCPServer parseURL parseAddr) [] raw = Inr servers"
    using assms(1) by (auto simp: ParseMCPServers_def split: if_splits)
  from foldE_invariant [where I = "list_all (publicServer parseURL parseAddr \<circ> snd)",
      OF parseMCPServer_public list.pred_inject(1) this]
  have "list_all (publicServer parseURL parseAddr \<circ> snd) servers" by simp
  with assms(2) show ?thesis by (force simp: list_all_iff)
qed

lemma sampleServers_parse:
  assumes "MCPAddressAllowed a"
  shows "ParseMCPServers sampleParseURL (\<lambda>_. Some a) sampleServers =
      Inr [(''gh'', \<lparr>ms_Name = ''gh'', ms_URL = ''u''\<rparr>)]"
  using assms by (simp add: ParseMCPServers_def parseMCPServer_def sampleServers_def sampleParseURL_def
      jget_def go_eval)

theorem mcp_servers_public_witness:
  "publicServer sampleParseURL (\<lambda>_. Some (IPv4 0x08080808)) \<lparr>ms_Name = ''gh'', ms_URL = ''u''\<rparr>"
proof -
  have "MCPAddressAllowed (IPv4 0x08080808)"
    by (simp add: MCPAddressAllowed_IPv4 nonPublic4_def)
  from mcp_servers_public [OF sampleServers_parse [OF this]]
  show ?thesis by simp
qed

end
