(* ===== verification/Agents.thy ===== *)
theory Agents
  imports Tools
begin

text \<open>
  Agents and Environments as versioned resources: metadata bags (\<open>internal/domain/metadata.go\<close>),
  Skill references (\<open>internal/domain/skill_reference.go\<close>), coordinator rosters, Agent patches and
  Session overrides (\<open>internal/domain/agent.go\<close>), and Environment patches
  (\<open>internal/domain/environment.go\<close>). A metadata bag is \<open>None\<close> where the Go map is nil; raw JSON
  is its text together with the value \<open>encoding/json\<close> reads from it, where a \<open>JInt\<close> is a number
  literal without fraction or exponent.
\<close>

section \<open>Metadata (internal/domain/metadata.go)\<close>

definition MaxMetadataKeys :: nat where "MaxMetadataKeys = 16"
definition MaxMetadataKeyRunes :: nat where "MaxMetadataKeyRunes = 64"
definition MaxMetadataValueRunes :: nat where "MaxMetadataValueRunes = 512"

fun validateEntries :: "payload \<Rightarrow> unit res" where
  "validateEntries [] = Inr ()"
| "validateEntries ((key, raw) # rest) =
     (if MaxMetadataKeyRunes < runeCount key
      then Inl (Validation ''metadata keys cannot exceed 64 characters'')
      else (case raw of
          JStr value \<Rightarrow>
            if MaxMetadataValueRunes < runeCount value
            then Inl (Validation ''metadata values cannot exceed 512 characters'')
            else validateEntries rest
        | _ \<Rightarrow> Inl (Validation ''metadata values must be strings'')))"

definition ValidateMetadata :: "payload \<Rightarrow> unit res" where
  "ValidateMetadata metadata =
     (if MaxMetadataKeys < length metadata
      then Inl (Validation ''metadata cannot contain more than 16 keys'')
      else validateEntries metadata)"

lemma validateEntries_ok:
  "validateEntries m = Inr () \<longleftrightarrow>
     (\<forall>(k, v) \<in> set m. runeCount k \<le> 64 \<and> (\<exists>s. v = JStr s \<and> runeCount s \<le> 512))"
  by (induction m rule: validateEntries.induct)
    (auto simp: MaxMetadataKeyRunes_def MaxMetadataValueRunes_def split: jval.splits)

section \<open>Skill references (internal/domain/skill_reference.go)\<close>

record SkillReference =
  sr_Type :: string
  sr_SkillID :: string
  sr_Version :: string
  sr_legacyJSON :: string

definition SkillReference_IsLegacy :: "SkillReference \<Rightarrow> bool" where
  "SkillReference_IsLegacy r \<longleftrightarrow> 0 < length (sr_legacyJSON r)"

definition SkillReference_MarshalJSON :: "SkillReference \<Rightarrow> jval" where
  "SkillReference_MarshalJSON r =
     (if SkillReference_IsLegacy r then JBytes (sr_legacyJSON r)
      else JObj ([(''type'', JStr (sr_Type r)), (''skill_id'', JStr (sr_SkillID r))]
        @ (if sr_Version r = [] then [] else [(''version'', JStr (sr_Version r))])))"

definition setLegacy :: "string \<Rightarrow> SkillReference" where
  "setLegacy data = \<lparr>sr_Type = [], sr_SkillID = [], sr_Version = [], sr_legacyJSON = data\<rparr>"

text \<open>A string field of a struct: \<open>null\<close> leaves it empty, any other kind of value is an error.\<close>

fun decodeString :: "jval \<Rightarrow> string option" where
  "decodeString (JStr s) = Some s"
| "decodeString JNull = Some []"
| "decodeString _ = None"

definition SkillReference_UnmarshalJSON :: "string \<Rightarrow> jval option \<Rightarrow> SkillReference" where
  "SkillReference_UnmarshalJSON data parsed =
     (case parsed of
        Some (JObj flds) \<Rightarrow>
          if list_ex (\<lambda>key. key \<notin> {''type'', ''skill_id'', ''version''}) (akeys flds) then setLegacy data
          else (case (jget flds ''type'', jget flds ''skill_id'') of
              (Some t, Some i) \<Rightarrow>
                (case (decodeString t, decodeString i,
                       case jget flds ''version'' of None \<Rightarrow> Some [] | Some v \<Rightarrow> decodeString v) of
                   (Some t', Some i', Some v') \<Rightarrow>
                     if t' \<noteq> ''custom'' \<and> t' \<noteq> ''anthropic'' then setLegacy data
                     else \<lparr>sr_Type = t', sr_SkillID = i', sr_Version = v', sr_legacyJSON = []\<rparr>
                 | _ \<Rightarrow> setLegacy data)
            | _ \<Rightarrow> setLegacy data)
      | _ \<Rightarrow> setLegacy data)"

section \<open>Rosters (internal/domain/agent.go)\<close>

record AgentReference =
  r_Type :: string
  r_ID :: string
  r_Version :: int
  r_Model :: string
  r_StringForm :: bool

record Multiagent =
  ma_Type :: string
  ma_Agents :: "AgentReference list"
  ma_legacyRaw :: string

record Advisor =
  av_Type :: string
  av_Model :: string

definition AdvisorAgentName :: string where "AdvisorAgentName = ''anthropic.advisor''"

definition AgentReference_MarshalJSON :: "AgentReference \<Rightarrow> jval" where
  "AgentReference_MarshalJSON r =
     (if r_StringForm r then JStr (r_ID r)
      else JObj ([(''type'', JStr (r_Type r))]
        @ (if r_ID r = [] then [] else [(''id'', JStr (r_ID r))])
        @ (if r_Version r = 0 then [] else [(''version'', JInt (r_Version r))])
        @ (if r_Model r = [] then [] else [(''model'', JStr (r_Model r))])))"

definition emptyReference :: AgentReference where
  "emptyReference = \<lparr>r_Type = [], r_ID = [], r_Version = 0, r_Model = [], r_StringForm = False\<rparr>"

fun decodeInt :: "jval \<Rightarrow> int option" where
  "decodeInt (JInt n) = (if inInt64 n then Some n else None)"
| "decodeInt JNull = Some 0"
| "decodeInt _ = None"

definition stringField :: "payload \<Rightarrow> string \<Rightarrow> string option" where
  "stringField object key = (case jget object key of None \<Rightarrow> None | Some v \<Rightarrow> decodeString v)"

definition AgentReference_UnmarshalJSON :: "jval \<Rightarrow> AgentReference res" where
  "AgentReference_UnmarshalJSON parsed =
     (case parsed of
        JStr s \<Rightarrow> Inr (emptyReference\<lparr>r_ID := s, r_Type := ''agent'', r_StringForm := True\<rparr>)
      | JObj object \<Rightarrow>
          (case stringField object ''type'' of
             None \<Rightarrow> Inl (Validation ''invalid multiagent roster entry type'')
           | Some entryType \<Rightarrow>
               if entryType = ''self'' then
                 (if length object \<noteq> 1 then Inl (Validation ''invalid multiagent self entry'')
                  else Inr (emptyReference\<lparr>r_Type := ''self''\<rparr>))
               else if entryType = ''advisor'' then
                 (if list_ex (\<lambda>f. f \<notin> {''type'', ''model''}) (akeys object)
                  then Inl (Validation ''invalid multiagent advisor entry field'')
                  else (case stringField object ''model'' of
                      None \<Rightarrow> Inl (Validation ''invalid multiagent advisor model'')
                    | Some model \<Rightarrow>
                        if trimSpace model = [] then Inl (Validation ''invalid multiagent advisor model'')
                        else Inr (emptyReference\<lparr>r_Type := ''advisor'', r_Model := model\<rparr>)))
               else if entryType \<noteq> ''agent'' then Inl (Validation ''invalid multiagent roster entry type'')
               else if list_ex (\<lambda>f. f \<notin> {''type'', ''id'', ''version''}) (akeys object)
               then Inl (Validation ''invalid multiagent roster entry field'')
               else (case stringField object ''id'' of
                   None \<Rightarrow> Inl (Validation ''invalid multiagent agent ID'')
                 | Some i \<Rightarrow>
                     if i = [] then Inl (Validation ''invalid multiagent agent ID'')
                     else (case jget object ''version'' of
                         None \<Rightarrow> Inr (emptyReference\<lparr>r_Type := ''agent'', r_ID := i\<rparr>)
                       | Some v \<Rightarrow>
                           (case decodeInt v of
                              None \<Rightarrow> Inl (Validation ''invalid multiagent agent version'')
                            | Some n \<Rightarrow>
                                if n < 1 then Inl (Validation ''invalid multiagent agent version'')
                                else Inr (emptyReference\<lparr>r_Type := ''agent'', r_ID := i, r_Version := n\<rparr>)))))
      | _ \<Rightarrow> Inl (Validation ''invalid multiagent roster entry''))"

definition Multiagent_MarshalJSON :: "Multiagent \<Rightarrow> jval" where
  "Multiagent_MarshalJSON m =
     (if ma_legacyRaw m \<noteq> [] then JBytes (ma_legacyRaw m)
      else JObj [(''type'', JStr (ma_Type m)),
                 (''agents'', JArr (map AgentReference_MarshalJSON (ma_Agents m)))])"

definition legacyMultiagent :: "string \<Rightarrow> Multiagent" where
  "legacyMultiagent raw = \<lparr>ma_Type = [], ma_Agents = [], ma_legacyRaw = raw\<rparr>"

definition Multiagent_UnmarshalJSON :: "string \<Rightarrow> jval option \<Rightarrow> Multiagent res" where
  "Multiagent_UnmarshalJSON data parsed =
     (let trimmed = trimSpace data
      in case parsed of
           Some (JObj object) \<Rightarrow>
             if list_ex (\<lambda>f. f \<notin> {''type'', ''agents''}) (akeys object)
             then Inr (legacyMultiagent trimmed)
             else if stringField object ''type'' \<noteq> Some ''coordinator'' then Inr (legacyMultiagent trimmed)
             else (case jget object ''agents'' of
                 Some (JArr xs) \<Rightarrow>
                   (case mapE AgentReference_UnmarshalJSON xs of
                      Inl _ \<Rightarrow> Inr (legacyMultiagent trimmed)
                    | Inr agents \<Rightarrow>
                        if length agents < 1 \<or> 20 < length agents then Inr (legacyMultiagent trimmed)
                        else Inr \<lparr>ma_Type = ''coordinator'', ma_Agents = agents, ma_legacyRaw = []\<rparr>)
               | _ \<Rightarrow> Inr (legacyMultiagent trimmed))
         | _ \<Rightarrow> Inl (Validation ''invalid stored multiagent configuration''))"

definition IsLegacy :: "Multiagent option \<Rightarrow> bool" where
  "IsLegacy m = (case m of None \<Rightarrow> False | Some x \<Rightarrow> 0 < length (ma_legacyRaw x))"

fun resolvedRefs :: "string list \<Rightarrow> bool \<Rightarrow> AgentReference list \<Rightarrow> bool" where
  "resolvedRefs seen seenAdvisor [] = True"
| "resolvedRefs seen seenAdvisor (r # rest) =
     (if r_Type r = ''agent'' then
        (if r_ID r = [] \<or> r_Version r < 1 \<or> r_Model r \<noteq> [] \<or> r_StringForm r then False
         else if r_ID r \<in> set seen then False
         else resolvedRefs (r_ID r # seen) seenAdvisor rest)
      else if r_Type r = ''advisor'' then
        (if seenAdvisor \<or> r_ID r \<noteq> [] \<or> r_Version r \<noteq> 0 \<or> trimSpace (r_Model r) = [] \<or> r_StringForm r
         then False
         else resolvedRefs seen True rest)
      else False)"

definition IsResolved :: "Multiagent option \<Rightarrow> bool" where
  "IsResolved m =
     (case m of
        None \<Rightarrow> True
      | Some x \<Rightarrow>
          if IsLegacy m \<or> ma_Type x \<noteq> ''coordinator'' \<or> length (ma_Agents x) < 1 \<or> 20 < length (ma_Agents x)
          then False
          else resolvedRefs [] False (ma_Agents x))"

definition Multiagent_Clone :: "Multiagent option \<Rightarrow> Multiagent option" where
  "Multiagent_Clone m =
     (case m of
        None \<Rightarrow> None
      | Some x \<Rightarrow> Some \<lparr>ma_Type = ma_Type x, ma_Agents = ma_Agents x, ma_legacyRaw = ma_legacyRaw x\<rparr>)"

definition rebind :: "string \<Rightarrow> int \<Rightarrow> AgentReference \<Rightarrow> AgentReference" where
  "rebind ownerID version r =
     (if r_ID r = ownerID then r\<lparr>r_Type := ''agent'', r_Version := version, r_StringForm := False\<rparr> else r)"

definition RebindAgentVersion :: "Multiagent \<Rightarrow> string \<Rightarrow> int \<Rightarrow> Multiagent" where
  "RebindAgentVersion m ownerID version = m\<lparr>ma_Agents := map (rebind ownerID version) (ma_Agents m)\<rparr>"

definition HasExternalAgent :: "Multiagent option \<Rightarrow> string \<Rightarrow> bool" where
  "HasExternalAgent m ownerID =
     (case m of None \<Rightarrow> False
      | Some x \<Rightarrow> list_ex (\<lambda>r. r_Type r = ''agent'' \<and> r_ID r \<noteq> ownerID) (ma_Agents x))"

definition rosterAdvisor :: "Multiagent option \<Rightarrow> Advisor option" where
  "rosterAdvisor m =
     (case m of None \<Rightarrow> None
      | Some x \<Rightarrow>
          map_option (\<lambda>r. \<lparr>av_Type = ''advisor'', av_Model = r_Model r\<rparr>)
            (find (\<lambda>r. r_Type r = ''advisor'') (ma_Agents x)))"

definition HasCallableAgents :: "Multiagent option \<Rightarrow> bool" where
  "HasCallableAgents m =
     (case m of None \<Rightarrow> False | Some x \<Rightarrow> list_ex (\<lambda>r. r_Type r = ''agent'') (ma_Agents x))"

section \<open>Agents (internal/domain/agent.go)\<close>

record Agent =
  ag_ID :: string
  ag_Version :: int
  ag_Name :: string
  ag_Model :: Model
  ag_System :: "string option"
  ag_Description :: "string option"
  ag_Tools :: "jval slice"
  ag_MCPServers :: "jval slice"
  ag_Skills :: "SkillReference slice"
  ag_Multiagent :: "Multiagent option"
  ag_Metadata :: "payload option"
  ag_CreatedAt :: time
  ag_UpdatedAt :: time
  ag_ArchivedAt :: "time option"

text \<open>The pointer fields of a patch are options; a nullable field that is set carries an option.\<close>

record AgentPatch =
  ap_Name :: "string option"
  ap_Model :: "Model option"
  ap_System :: "string option option"
  ap_Description :: "string option option"
  ap_Tools :: "jval slice option"
  ap_MCPServers :: "jval slice option"
  ap_Skills :: "SkillReference slice option"
  ap_Multiagent :: "Multiagent option option"
  ap_Metadata :: payload
  ap_ExpectedVersion :: "int option"

text \<open>The metadata loop: a null deletes its key, any other value is stored.\<close>

fun patchAgentMetadata :: "payload option \<Rightarrow> payload \<Rightarrow> payload option" where
  "patchAgentMetadata m [] = m"
| "patchAgentMetadata m ((k, v) # rest) =
     patchAgentMetadata
       (if v = JNull then map_option (adel k) m
        else Some (aput k v (case m of None \<Rightarrow> [] | Some x \<Rightarrow> x))) rest"

definition agentMetadata :: "payload option \<Rightarrow> payload \<Rightarrow> payload option" where
  "agentMetadata m patch =
     (let m' = patchAgentMetadata m patch
      in case m' of None \<Rightarrow> None | Some x \<Rightarrow> if length x = 0 then None else Some x)"

definition patchModel :: "Model \<Rightarrow> Model \<Rightarrow> Model" where
  "patchModel stored model =
     NormalizeModel
       (if m_ID model = m_ID stored \<and> \<not> m_EffortExplicit model
        then model\<lparr>m_Effort := m_Effort stored, m_EffortExplicit := m_EffortExplicit stored\<rparr>
        else model)"

definition agentFieldsEqual :: "Agent \<Rightarrow> Agent \<Rightarrow> bool" where
  "agentFieldsEqual a b \<longleftrightarrow>
     ag_ID a = ag_ID b \<and> ag_Name a = ag_Name b \<and> ag_Model a = ag_Model b \<and> ag_System a = ag_System b
     \<and> ag_Description a = ag_Description b \<and> listEq (ag_Tools a) (ag_Tools b)
     \<and> listEq (ag_MCPServers a) (ag_MCPServers b) \<and> ag_Skills a = ag_Skills b
     \<and> ag_Multiagent a = ag_Multiagent b \<and> metaEq (ag_Metadata a) (ag_Metadata b)
     \<and> ag_ArchivedAt a = ag_ArchivedAt b"

definition orKeep :: "'a option \<Rightarrow> 'a \<Rightarrow> 'a" where
  "orKeep p old = (case p of Some new \<Rightarrow> new | None \<Rightarrow> old)"

definition Agent_Apply :: "Agent \<Rightarrow> AgentPatch \<Rightarrow> (Agent \<times> bool) res" where
  "Agent_Apply a p =
     (if (case ap_ExpectedVersion p of Some v \<Rightarrow> v \<noteq> ag_Version a | None \<Rightarrow> False)
      then Inl (Conflict ''agent version mismatch'')
      else
        let nxt = a\<lparr>
          ag_Multiagent := (case ap_Multiagent p of
              Some m \<Rightarrow> Multiagent_Clone m | None \<Rightarrow> Multiagent_Clone (ag_Multiagent a)),
          ag_Name := orKeep (ap_Name p) (ag_Name a),
          ag_Model := (case ap_Model p of Some model \<Rightarrow> patchModel (ag_Model a) model | None \<Rightarrow> ag_Model a),
          ag_System := orKeep (ap_System p) (ag_System a),
          ag_Description := orKeep (ap_Description p) (ag_Description a),
          ag_Tools := orKeep (ap_Tools p) (ag_Tools a),
          ag_MCPServers := orKeep (ap_MCPServers p) (ag_MCPServers a),
          ag_Skills := orKeep (ap_Skills p) (ag_Skills a),
          ag_Metadata := agentMetadata (ag_Metadata a) (ap_Metadata p)\<rparr>
        in Inr (nxt, \<not> agentFieldsEqual a nxt))"

record AgentOverrides =
  ov_Model :: "Model option"
  ov_System :: "string option option"
  ov_Tools :: "jval slice option"
  ov_MCPServers :: "jval slice option"
  ov_Skills :: "SkillReference slice option"

definition WithOverrides :: "Agent \<Rightarrow> AgentOverrides \<Rightarrow> Agent" where
  "WithOverrides a ov = a\<lparr>
     ag_Model := (case ov_Model ov of
         None \<Rightarrow> ag_Model a
       | Some model \<Rightarrow> NormalizeModel (model\<lparr>m_Effort := m_Effort (ag_Model a),
           m_EffortExplicit := m_EffortExplicit (ag_Model a)\<rparr>)),
     ag_System := orKeep (ov_System ov) (ag_System a),
     ag_Tools := orKeep (ov_Tools ov) (ag_Tools a),
     ag_MCPServers := orKeep (ov_MCPServers ov) (ag_MCPServers a),
     ag_Skills := orKeep (ov_Skills ov) (ag_Skills a)\<rparr>"

definition SessionSnapshotJSON :: "Agent \<Rightarrow> payload" where
  "SessionSnapshotJSON a =
     (let m = ag_Model a;
          model = [(''id'', JStr (m_ID m))]
            @ (if m_Effort m = [] then [] else [(''effort'', JObj [(''type'', JStr (m_Effort m))])])
            @ (if m_Speed m = [] then [] else [(''speed'', JStr (m_Speed m))])
            @ (if m_InferenceGeo m = [] then [] else [(''inference_geo'', JStr (m_InferenceGeo m))])
      in [(''id'', JStr (ag_ID a)), (''type'', JStr ''agent''), (''version'', JInt (ag_Version a)),
          (''name'', JStr (ag_Name a)), (''model'', JObj model),
          (''system'', JStr (case ag_System a of Some s \<Rightarrow> s | None \<Rightarrow> [])),
          (''description'', JStr (case ag_Description a of Some s \<Rightarrow> s | None \<Rightarrow> [])),
          (''multiagent'', case ag_Multiagent a of None \<Rightarrow> JNull | Some x \<Rightarrow> Multiagent_MarshalJSON x),
          (''tools'', JArr (elems (ag_Tools a))), (''mcp_servers'', JArr (elems (ag_MCPServers a))),
          (''skills'', JArr (map SkillReference_MarshalJSON (elems (ag_Skills a))))])"

section \<open>Environments (internal/domain/environment.go)\<close>

record Environment =
  en_ID :: string
  en_Name :: string
  en_Description :: string
  en_Metadata :: "payload option"
  en_Scope :: string
  en_ConfigType :: string
  en_Config :: "payload option"
  en_CreatedAt :: time
  en_UpdatedAt :: time
  en_ArchivedAt :: "time option"

record EnvironmentPatch =
  ep_Name :: "string option"
  ep_Description :: "string option"
  ep_Metadata :: payload
  ep_Scope :: "string option"
  ep_Config :: "payload option option"

text \<open>The copy of a value is the value: sharing of maps and arrays is not part of the model.\<close>

fun cloneEnvironmentValue :: "jval \<Rightarrow> jval" where
  "cloneEnvironmentValue (JObj xs) = JObj (map (\<lambda>(k, v). (k, cloneEnvironmentValue v)) xs)"
| "cloneEnvironmentValue (JArr xs) = JArr (map cloneEnvironmentValue xs)"
| "cloneEnvironmentValue v = v"

definition cloneEnvironmentObject :: "payload option \<Rightarrow> payload option" where
  "cloneEnvironmentObject source =
     map_option (map (\<lambda>(k, v). (k, cloneEnvironmentValue v))) source"

definition SessionConfig :: "Environment \<Rightarrow> payload option" where
  "SessionConfig e = cloneEnvironmentObject (en_Config e)"

fun environmentMetadata :: "payload option \<Rightarrow> payload \<Rightarrow> payload option" where
  "environmentMetadata m [] = m"
| "environmentMetadata m ((k, v) # rest) =
     environmentMetadata
       (if v = JNull \<or> v = JStr [] then map_option (adel k) m
        else Some (aput k v (case m of None \<Rightarrow> [] | Some x \<Rightarrow> x))) rest"

definition environmentFieldsEqual :: "Environment \<Rightarrow> Environment \<Rightarrow> bool" where
  "environmentFieldsEqual l r \<longleftrightarrow>
     en_ID l = en_ID r \<and> en_Name l = en_Name r \<and> en_Description l = en_Description r
     \<and> metaEq (en_Metadata l) (en_Metadata r) \<and> en_Scope l = en_Scope r
     \<and> en_ConfigType l = en_ConfigType r \<and> metaEq (en_Config l) (en_Config r)
     \<and> en_CreatedAt l = en_CreatedAt r \<and> en_ArchivedAt l = en_ArchivedAt r"

definition Environment_Apply :: "Environment \<Rightarrow> EnvironmentPatch \<Rightarrow> Environment \<times> bool" where
  "Environment_Apply e p =
     (let nxt = e\<lparr>
        en_Name := orKeep (ep_Name p) (en_Name e),
        en_Description := orKeep (ep_Description p) (en_Description e),
        en_Metadata := environmentMetadata (en_Metadata e) (ep_Metadata p),
        en_Scope := orKeep (ep_Scope p) (en_Scope e),
        en_Config := (case ep_Config p of
            Some c \<Rightarrow> cloneEnvironmentObject c | None \<Rightarrow> en_Config e)\<rparr>
      in (nxt, \<not> environmentFieldsEqual e nxt))"

section \<open>The metadata patch contract\<close>

definition bagGet :: "payload option \<Rightarrow> string \<Rightarrow> jval option" where
  "bagGet m k = (case m of None \<Rightarrow> None | Some x \<Rightarrow> map_of x k)"

lemma bagGet_simps [simp]:
  "bagGet None k = None" "bagGet (Some x) k = map_of x k"
  by (simp_all add: bagGet_def)

lemma bagGet_del: "bagGet (map_option (adel k) m) j = (if j = k then None else bagGet m j)"
  by (cases m) auto

lemma bagGet_put: "bagGet (Some (aput k v (case m of None \<Rightarrow> [] | Some x \<Rightarrow> x))) j =
    (if j = k then Some v else bagGet m j)"
  by (cases m) auto

text \<open>
  Agents, Environments and Sessions patch their metadata by key: a value that deletes removes its
  key, any other is stored, and a key that the patch does not name keeps its value.
\<close>

locale metadata_patch =
  fixes patch :: "payload option \<Rightarrow> payload \<Rightarrow> payload option"
    and deletes :: "jval \<Rightarrow> bool"
  assumes patch_get: "wfmap p \<Longrightarrow> bagGet (patch m p) k =
    (case map_of p k of None \<Rightarrow> bagGet m k | Some v \<Rightarrow> if deletes v then None else Some v)"
begin

lemma patch_order_irrelevant:
  "wfmap p \<Longrightarrow> wfmap q \<Longrightarrow> map_of p = map_of q \<Longrightarrow> bagGet (patch m p) = bagGet (patch m q)"
  by (rule ext) (simp add: patch_get)

lemma patch_retry: "wfmap p \<Longrightarrow> bagGet (patch (patch m p) p) = bagGet (patch m p)"
  by (rule ext) (simp add: patch_get split: option.splits)

lemma patch_disjoint_commute:
  "wfmap p \<Longrightarrow> wfmap q \<Longrightarrow> fst ` set p \<inter> fst ` set q = {} \<Longrightarrow>
     bagGet (patch (patch m p) q) = bagGet (patch (patch m q) p)"
proof (rule ext)
  fix k
  assume "wfmap p" "wfmap q" "fst ` set p \<inter> fst ` set q = {}"
  moreover from this have "map_of p k = None \<or> map_of q k = None"
    by (auto simp: map_of_eq_None_iff)
  ultimately show "bagGet (patch (patch m p) q) k = bagGet (patch (patch m q) p) k"
    by (auto simp: patch_get split: option.splits)
qed

end

lemma wfmap_Cons: "wfmap ((k, v) # p) \<longleftrightarrow> k \<notin> fst ` set p \<and> wfmap p"
  by (simp add: wfmap_def)

text \<open>The loops of the three resources are instances of one.\<close>

fun patchBag :: "(jval \<Rightarrow> bool) \<Rightarrow> payload option \<Rightarrow> payload \<Rightarrow> payload option" where
  "patchBag deletes m [] = m"
| "patchBag deletes m ((k, v) # rest) =
     patchBag deletes
       (if deletes v then map_option (adel k) m
        else Some (aput k v (case m of None \<Rightarrow> [] | Some x \<Rightarrow> x))) rest"

lemma patchBag_get:
  "wfmap p \<Longrightarrow> bagGet (patchBag deletes m p) k =
     (case map_of p k of None \<Rightarrow> bagGet m k | Some v \<Rightarrow> if deletes v then None else Some v)"
proof (induction deletes m p rule: patchBag.induct)
  case (2 deletes m k' v rest)
  then have "map_of rest k' = None" and "wfmap rest"
    by (auto simp: wfmap_Cons map_of_eq_None_iff)
  with 2 show ?case
    by (cases "deletes v"; cases "k = k'") (simp_all add: bagGet_del bagGet_put del: bagGet_simps(2) split: option.splits)
qed simp

lemma patchAgentMetadata_patchBag: "patchAgentMetadata m p = patchBag (\<lambda>v. v = JNull) m p"
  by (induction m p rule: patchAgentMetadata.induct) simp_all

lemma environmentMetadata_patchBag:
  "environmentMetadata m p = patchBag (\<lambda>v. v = JNull \<or> v = JStr []) m p"
  by (induction m p rule: environmentMetadata.induct) simp_all

lemma patchAgentMetadata_get:
  "wfmap p \<Longrightarrow> bagGet (patchAgentMetadata m p) k =
     (case map_of p k of None \<Rightarrow> bagGet m k | Some v \<Rightarrow> if v = JNull then None else Some v)"
  by (simp only: patchAgentMetadata_patchBag patchBag_get)

lemma agentMetadata_get: "bagGet (agentMetadata m p) k = bagGet (patchAgentMetadata m p) k"
  by (auto simp: agentMetadata_def Let_def split: option.splits)

interpretation agent_bag: metadata_patch agentMetadata "\<lambda>v. v = JNull"
  by unfold_locales (simp add: agentMetadata_get patchAgentMetadata_get)

interpretation environment_bag: metadata_patch environmentMetadata "\<lambda>v. v = JNull \<or> v = JStr []"
  by unfold_locales (simp only: environmentMetadata_patchBag patchBag_get)

text \<open>
  A metadata patch has one outcome: for Agents and for Environments the bag after an update
  does not depend on the order in which Go ranges over the patch, and updates of different keys
  commute.
\<close>

theorem metadata_patch_outcome:
  assumes "wfmap (ap_Metadata p)" "wfmap (ap_Metadata q)" "map_of (ap_Metadata p) = map_of (ap_Metadata q)"
    and "Agent_Apply a p = Inr (b, c)" and "Agent_Apply a q = Inr (b', c')"
  shows "bagGet (ag_Metadata b) = bagGet (ag_Metadata b')
    \<and> bagGet (en_Metadata (fst (Environment_Apply e (ep\<lparr>ep_Metadata := ap_Metadata p\<rparr>)))) =
      bagGet (en_Metadata (fst (Environment_Apply e (ep\<lparr>ep_Metadata := ap_Metadata q\<rparr>))))"
proof -
  have "ag_Metadata b = agentMetadata (ag_Metadata a) (ap_Metadata p)"
    and "ag_Metadata b' = agentMetadata (ag_Metadata a) (ap_Metadata q)"
    using assms(4,5) by (auto simp: Agent_Apply_def Let_def split: if_splits)
  then show ?thesis
    using agent_bag.patch_order_irrelevant [OF assms(1-3)]
      environment_bag.patch_order_irrelevant [OF assms(1-3)]
    by (simp add: Environment_Apply_def Let_def)
qed

definition sampleAgent :: Agent where
  "sampleAgent = \<lparr>ag_ID = ''agent_1'', ag_Version = 3, ag_Name = ''a'', ag_Model = sampleModel,
     ag_System = None, ag_Description = None, ag_Tools = None, ag_MCPServers = None, ag_Skills = None,
     ag_Multiagent = None, ag_Metadata = Some [(''k'', JStr ''v'')], ag_CreatedAt = 0, ag_UpdatedAt = 0,
     ag_ArchivedAt = None\<rparr>"

definition samplePatch :: "payload \<Rightarrow> AgentPatch" where
  "samplePatch md = \<lparr>ap_Name = Some ''b'', ap_Model = Some (sampleModel\<lparr>m_ID := ''x''\<rparr>), ap_System = None,
     ap_Description = Some (Some ''d''), ap_Tools = None, ap_MCPServers = None, ap_Skills = None,
     ap_Multiagent = None, ap_Metadata = md, ap_ExpectedVersion = Some 3\<rparr>"

lemma samplePatch_ok: "\<exists>b c. Agent_Apply sampleAgent (samplePatch md) = Inr (b, c)"
  by (simp add: Agent_Apply_def samplePatch_def sampleAgent_def Let_def)

theorem metadata_patch_outcome_witness:
  "\<exists>b c b' c'.
     Agent_Apply sampleAgent (samplePatch [(''k'', JNull), (''l'', JStr ''w'')]) = Inr (b, c)
     \<and> Agent_Apply sampleAgent (samplePatch [(''l'', JStr ''w''), (''k'', JNull)]) = Inr (b', c')
     \<and> bagGet (ag_Metadata b) = bagGet (ag_Metadata b')"
proof -
  obtain b c b' c' where
    b: "Agent_Apply sampleAgent (samplePatch [(''k'', JNull), (''l'', JStr ''w'')]) = Inr (b, c)"
    and b': "Agent_Apply sampleAgent (samplePatch [(''l'', JStr ''w''), (''k'', JNull)]) = Inr (b', c')"
    using samplePatch_ok by blast
  have "bagGet (ag_Metadata b) = bagGet (ag_Metadata b')"
    using metadata_patch_outcome [OF _ _ _ b b'] by (simp add: samplePatch_def wfmap_def fun_upd_twist)
  with b b' show ?thesis by blast
qed

section \<open>Retried updates\<close>

lemma NormalizeModel_idem: "NormalizeModel (NormalizeModel m) = NormalizeModel m"
  by (simp add: NormalizeModel_def Let_def DefaultModelEffort_def DefaultModelSpeed_def)

lemma NormalizeModel_fields:
  "m_ID (NormalizeModel m) = m_ID m"
  "m_Effort (NormalizeModel m) = (if m_Effort m = [] then DefaultModelEffort else m_Effort m)"
  "m_Speed (NormalizeModel m) = (if m_Speed m = [] then DefaultModelSpeed else m_Speed m)"
  "m_InferenceGeo (NormalizeModel m) = m_InferenceGeo m"
  "m_EffortExplicit (NormalizeModel m) = m_EffortExplicit m"
  "m_SpeedExplicit (NormalizeModel m) = m_SpeedExplicit m"
  by (simp_all add: NormalizeModel_def Let_def)

lemma patchModel_idem: "patchModel (patchModel s m) m = patchModel s m" for m :: Model
  by (rule Model.equality) (simp_all add: patchModel_def NormalizeModel_fields DefaultModelEffort_def)

lemma aput_same: "map_of m k = Some v \<Longrightarrow> wfmap m \<Longrightarrow> aput k v m = m"
  by (induction m) (auto simp: wfmap_def split: if_splits)

lemma adel_absent: "map_of m k = None \<Longrightarrow> adel k m = m"
  by (induction m) (auto split: if_splits)

definition wfbag :: "payload option \<Rightarrow> bool" where
  "wfbag m \<longleftrightarrow> (case m of None \<Rightarrow> True | Some x \<Rightarrow> wfmap x)"

lemma patchAgentMetadata_wf: "wfbag m \<Longrightarrow> wfbag (patchAgentMetadata m p)"
  by (induction m p rule: patchAgentMetadata.induct)
    (auto simp: wfbag_def wfmap_aput wfmap_adel wfmap_Cons split: option.splits)

lemma patchAgentMetadata_fixed:
  "wfbag m \<Longrightarrow> \<forall>(k, v) \<in> set p. bagGet m k = (if v = JNull then None else Some v) \<Longrightarrow>
     patchAgentMetadata m p = m"
  by (induction m p rule: patchAgentMetadata.induct)
    (auto simp: wfbag_def aput_same adel_absent split: option.splits if_splits)

lemma agentMetadata_idem:
  assumes "wfbag m" "wfmap p"
  shows "agentMetadata (agentMetadata m p) p = agentMetadata m p"
proof -
  have "wfbag (agentMetadata m p)"
    using patchAgentMetadata_wf [OF assms(1), of p]
    by (auto simp: agentMetadata_def wfbag_def Let_def split: option.splits)
  moreover have "\<forall>(k, v) \<in> set p. bagGet (agentMetadata m p) k = (if v = JNull then None else Some v)"
    using assms(2) by (auto simp: agentMetadata_get patchAgentMetadata_get wfmap_def)
  ultimately have "patchAgentMetadata (agentMetadata m p) p = agentMetadata m p"
    by (rule patchAgentMetadata_fixed)
  then have "agentMetadata (agentMetadata m p) p =
      (case agentMetadata m p of None \<Rightarrow> None | Some x \<Rightarrow> if length x = 0 then None else Some x)"
    by (simp add: agentMetadata_def Let_def)
  also have "\<dots> = agentMetadata m p"
    by (auto simp: agentMetadata_def Let_def split: option.splits)
  finally show ?thesis .
qed

lemma orKeep_idem: "orKeep p (orKeep p x) = orKeep p x"
  by (cases p) (simp_all add: orKeep_def)

lemma Multiagent_Clone_id [simp]: "Multiagent_Clone m = m"
  by (cases m) (simp_all add: Multiagent_Clone_def)

definition wfAgent :: "Agent \<Rightarrow> bool" where
  "wfAgent a \<longleftrightarrow> wfJson (JArr (elems (ag_Tools a))) \<and> wfJson (JArr (elems (ag_MCPServers a)))
     \<and> (case ag_Metadata a of None \<Rightarrow> True | Some m \<Rightarrow> wfJson (JObj m))"

lemma agentFieldsEqual_refl: "wfAgent a \<Longrightarrow> agentFieldsEqual a a"
  by (auto simp: wfAgent_def agentFieldsEqual_def listEq_def metaEq_def elems_def
      simp del: wfJson.simps deepEq.simps intro!: deepEq_refl split: option.splits)

text \<open>
  Sending an Agent update twice changes the Agent once: after a successful update the same
  patch (without its version guard) leaves the result as it is and reports no change, so a retry
  never publishes a second version.
\<close>

theorem agent_update_retry:
  assumes "Agent_Apply a p = Inr (b, c)" and "wfmap (ap_Metadata p)" and "wfbag (ag_Metadata a)"
    and "wfAgent b"
  shows "Agent_Apply b (p\<lparr>ap_ExpectedVersion := None\<rparr>) = Inr (b, False)"
proof -
  have b: "b = a\<lparr>
      ag_Multiagent := (case ap_Multiagent p of
          Some m \<Rightarrow> Multiagent_Clone m | None \<Rightarrow> Multiagent_Clone (ag_Multiagent a)),
      ag_Name := orKeep (ap_Name p) (ag_Name a),
      ag_Model := (case ap_Model p of Some model \<Rightarrow> patchModel (ag_Model a) model | None \<Rightarrow> ag_Model a),
      ag_System := orKeep (ap_System p) (ag_System a),
      ag_Description := orKeep (ap_Description p) (ag_Description a),
      ag_Tools := orKeep (ap_Tools p) (ag_Tools a),
      ag_MCPServers := orKeep (ap_MCPServers p) (ag_MCPServers a),
      ag_Skills := orKeep (ap_Skills p) (ag_Skills a),
      ag_Metadata := agentMetadata (ag_Metadata a) (ap_Metadata p)\<rparr>"
    using assms(1) by (auto simp: Agent_Apply_def Let_def split: if_splits)
  have "Agent_Apply b (p\<lparr>ap_ExpectedVersion := None\<rparr>) = Inr (b, \<not> agentFieldsEqual b b)"
    unfolding Agent_Apply_def Let_def b
    by (simp add: orKeep_idem patchModel_idem agentMetadata_idem assms(2,3) split: option.splits)
  with agentFieldsEqual_refl [OF assms(4)] show ?thesis by simp
qed

theorem agent_update_retry_witness:
  "\<exists>b. Agent_Apply sampleAgent (samplePatch [(''k'', JNull)]) = Inr (b, True)
    \<and> Agent_Apply b ((samplePatch [(''k'', JNull)])\<lparr>ap_ExpectedVersion := None\<rparr>) = Inr (b, False)"
proof -
  obtain b where b: "Agent_Apply sampleAgent (samplePatch [(''k'', JNull)]) = Inr (b, True)"
    and wf: "wfAgent b"
    by (simp add: Agent_Apply_def samplePatch_def sampleAgent_def Let_def agentFieldsEqual_def orKeep_def
        wfAgent_def elems_def agentMetadata_def)
  have "Agent_Apply b ((samplePatch [(''k'', JNull)])\<lparr>ap_ExpectedVersion := None\<rparr>) = Inr (b, False)"
    by (rule agent_update_retry [OF b _ _ wf]) (simp_all add: samplePatch_def sampleAgent_def wfbag_def wfmap_def)
  with b show ?thesis by blast
qed

section \<open>Rosters\<close>

lemma resolvedRefs_member:
  "resolvedRefs seen adv rs \<Longrightarrow> r \<in> set rs \<Longrightarrow>
     (r_Type r = ''agent'' \<and> r_ID r \<noteq> [] \<and> 1 \<le> r_Version r \<and> r_Model r = [] \<and> \<not> r_StringForm r)
     \<or> (r_Type r = ''advisor'' \<and> r_ID r = [] \<and> r_Version r = 0 \<and> trimSpace (r_Model r) \<noteq> []
        \<and> \<not> r_StringForm r)"
  by (induction seen adv rs rule: resolvedRefs.induct) (auto split: if_splits)

lemma trimSpace_Nil [simp]: "trimSpace [] = []"
  by (simp add: trimSpace_def)

lemma reference_roundtrip:
  assumes "r_Type r = ''agent'' \<and> r_ID r \<noteq> [] \<and> 1 \<le> r_Version r \<and> r_Model r = [] \<and> \<not> r_StringForm r
     \<or> r_Type r = ''advisor'' \<and> r_ID r = [] \<and> r_Version r = 0 \<and> trimSpace (r_Model r) \<noteq> []
        \<and> \<not> r_StringForm r" and "inInt64 (r_Version r)"
  shows "AgentReference_UnmarshalJSON (AgentReference_MarshalJSON r) = Inr r"
  using assms
proof (elim disjE)
  assume "r_Type r = ''agent'' \<and> r_ID r \<noteq> [] \<and> 1 \<le> r_Version r \<and> r_Model r = [] \<and> \<not> r_StringForm r"
  with assms(2) show ?thesis
    by (cases r) (simp add: AgentReference_UnmarshalJSON_def AgentReference_MarshalJSON_def stringField_def
        jget_def emptyReference_def)
next
  assume a: "r_Type r = ''advisor'' \<and> r_ID r = [] \<and> r_Version r = 0 \<and> trimSpace (r_Model r) \<noteq> []
        \<and> \<not> r_StringForm r"
  then have "r_Model r \<noteq> []" by auto
  with a show ?thesis
    by (cases r) (simp add: AgentReference_UnmarshalJSON_def AgentReference_MarshalJSON_def stringField_def
        jget_def emptyReference_def)
qed

lemma mapE_roundtrip: "\<forall>x \<in> set xs. f (g x) = Inr x \<Longrightarrow> mapE f (map g xs) = Inr xs"
  by (induction xs) auto

text \<open>
  C36. A resolved roster survives storage: writing it as JSON and reading it back gives the same
  coordinator, so an executable roster never turns into an unreadable legacy value.
\<close>

theorem roster_roundtrip:
  assumes "IsResolved (Some m)" and "\<forall>r \<in> set (ma_Agents m). inInt64 (r_Version r)"
  shows "Multiagent_UnmarshalJSON data (Some (Multiagent_MarshalJSON m)) = Inr m"
proof -
  have m: "ma_legacyRaw m = []" "ma_Type m = ''coordinator''" "\<not> length (ma_Agents m) < 1"
      "\<not> 20 < length (ma_Agents m)"
    and refs: "resolvedRefs [] False (ma_Agents m)"
    using assms(1) by (auto simp: IsResolved_def IsLegacy_def split: if_splits)
  have "\<forall>r \<in> set (ma_Agents m). AgentReference_UnmarshalJSON (AgentReference_MarshalJSON r) = Inr r"
    using resolvedRefs_member [OF refs] assms(2) reference_roundtrip by blast
  then have "mapE AgentReference_UnmarshalJSON (map AgentReference_MarshalJSON (ma_Agents m)) = Inr (ma_Agents m)"
    by (rule mapE_roundtrip)
  with m show ?thesis
    by (cases m) (simp add: Multiagent_UnmarshalJSON_def Multiagent_MarshalJSON_def stringField_def jget_def)
qed

definition sampleRoster :: Multiagent where
  "sampleRoster = \<lparr>ma_Type = ''coordinator'', ma_Agents =
     [\<lparr>r_Type = ''agent'', r_ID = ''agent_1'', r_Version = 3, r_Model = [], r_StringForm = False\<rparr>,
      \<lparr>r_Type = ''advisor'', r_ID = [], r_Version = 0, r_Model = ''m'', r_StringForm = False\<rparr>],
     ma_legacyRaw = []\<rparr>"

lemma sampleRoster_resolved: "IsResolved (Some sampleRoster)"
  by (simp add: IsResolved_def IsLegacy_def sampleRoster_def go_eval)

theorem roster_roundtrip_witness:
  "Multiagent_UnmarshalJSON ''{}'' (Some (Multiagent_MarshalJSON sampleRoster)) = Inr sampleRoster"
  by (rule roster_roundtrip [OF sampleRoster_resolved]) (simp add: sampleRoster_def inInt64_def)

lemma resolvedRefs_rebind:
  "resolvedRefs seen adv rs \<Longrightarrow> owner \<noteq> [] \<Longrightarrow> 1 \<le> v \<Longrightarrow>
     resolvedRefs seen adv (map (rebind owner v) rs)"
  by (induction seen adv rs rule: resolvedRefs.induct) (auto simp: rebind_def split: if_splits)

text \<open>
  Publishing a new version of a coordinator keeps its roster executable: rebinding the self
  entry to the new version preserves that the roster is resolved, and touches no other member.
\<close>

theorem rebind_keeps_resolved:
  assumes "IsResolved (Some m)" and "owner \<noteq> []" and "1 \<le> version"
  shows "IsResolved (Some (RebindAgentVersion m owner version))
    \<and> filter (\<lambda>r. r_ID r \<noteq> owner) (ma_Agents (RebindAgentVersion m owner version)) =
      filter (\<lambda>r. r_ID r \<noteq> owner) (ma_Agents m)"
proof -
  have "filter (\<lambda>r. r_ID r \<noteq> owner) (map (rebind owner version) rs) = filter (\<lambda>r. r_ID r \<noteq> owner) rs" for rs
    by (induction rs) (auto simp: rebind_def)
  with assms resolvedRefs_rebind [of "[]" False "ma_Agents m" owner version] show ?thesis
    by (auto simp: IsResolved_def IsLegacy_def RebindAgentVersion_def split: if_splits)
qed

theorem rebind_keeps_resolved_witness:
  "IsResolved (Some (RebindAgentVersion sampleRoster ''agent_1'' 4))"
  using rebind_keeps_resolved [OF sampleRoster_resolved, of "''agent_1''" 4] by simp

end
