(* ===== verification/Resources.thy ===== *)
theory Resources
  imports Agents
begin

text \<open>
  Session resources (\<open>internal/domain/session_resource.go\<close>): the normalisation of mount paths for
  File, Git repository and Memory Store attachments, and the collision test between them. A path
  is a byte string; \<open>net/url\<close> is an argument.
\<close>

definition SessionUploadsRoot :: string where "SessionUploadsRoot = ''/mnt/session/uploads''"
definition SessionOutputsRoot :: string where "SessionOutputsRoot = ''/mnt/session/outputs''"
definition SessionMemoryRoot :: string where "SessionMemoryRoot = ''/mnt/memory''"
definition SessionRepositoryRoot :: string where "SessionRepositoryRoot = ''/workspace''"
definition SessionSkillsRoot :: string where "SessionSkillsRoot = ''/workspace/skills''"
definition MaxSessionFileMountPathBytes :: nat where "MaxSessionFileMountPathBytes = 1024"
definition MaxSessionFileMountComponentBytes :: nat where "MaxSessionFileMountComponentBytes = 255"

datatype SessionResourceState = SessionResourceActive | SessionResourceDeleting

record SessionResource =
  rs_ID :: string
  rs_SessionID :: string
  rs_ResourceType :: string
  rs_SourceFileID :: string
  rs_FileID :: string
  rs_BlobKey :: string
  rs_MemoryStoreID :: string
  rs_MemoryAccess :: string
  rs_MemoryInstructions :: string
  rs_MemoryStoreName :: string
  rs_MemoryStoreDescription :: string
  rs_RepositoryURL :: string
  rs_RepositoryCheckoutType :: string
  rs_RepositoryCheckoutValue :: string
  rs_RepositoryResolvedCommit :: string
  rs_MountPath :: string
  rs_CreatedAt :: time
  rs_UpdatedAt :: time
  rs_State :: SessionResourceState

definition SessionResource_Type :: "SessionResource \<Rightarrow> string" where
  "SessionResource_Type r = (if rs_ResourceType r = [] then ''file'' else rs_ResourceType r)"

record repoURL = parsedURL +
  url_RawQuery :: string
  url_ForceQuery :: bool
  url_Opaque :: string
  url_Path :: string

section \<open>Checkouts and repository addresses\<close>

definition isHexByte :: "char \<Rightarrow> bool" where
  "isHexByte c \<longleftrightarrow> isDigitByte c \<or> (65 \<le> byteOf c \<and> byteOf c \<le> 70) \<or> (97 \<le> byteOf c \<and> byteOf c \<le> 102)"

definition gitCommitPattern :: "string \<Rightarrow> bool" where
  "gitCommitPattern s \<longleftrightarrow> length s = 40 \<and> list_all isHexByte s"

definition forbiddenBranchRune :: "nat \<Rightarrow> bool" where
  "forbiddenBranchRune r \<longleftrightarrow>
     isControl r \<or> isSpace r \<or> r \<in> {126, 94, 58, 63, 42, 91, 92}"

definition validGitBranchName :: "string \<Rightarrow> bool" where
  "validGitBranchName v =
     (if v = [] \<or> 1024 < length v \<or> \<not> validUtf8 v \<or> hasPrefix v ''-'' \<or> hasPrefix v ''/''
         \<or> hasSuffix v ''/'' \<or> hasSuffix v ''.'' \<or> contains v ''..'' \<or> contains v (CHR ''@'' # ''{'')
         \<or> contains v ''//''
      then False
      else if list_ex (\<lambda>c. c = [] \<or> c = ''.'' \<or> c = ''..'' \<or> hasPrefix c ''.'' \<or> hasSuffix c ''.lock'')
           (splitOn slash v)
      then False
      else \<not> list_ex forbiddenBranchRune (runes v))"

definition NormalizeGitRepositoryCheckout ::
  "unicodeTables \<Rightarrow> string \<Rightarrow> string \<Rightarrow> (string \<times> string) res" where
  "NormalizeGitRepositoryCheckout u checkoutType v =
     (if checkoutType = [] \<and> v = [] then Inr ([], [])
      else if checkoutType = ''commit'' then
        (if \<not> gitCommitPattern v
         then Inl (Validation ''checkout.sha must be a full 40-character Git commit SHA'')
         else Inr (checkoutType, toLower u v))
      else if checkoutType = ''branch'' then
        (if \<not> validGitBranchName v
         then Inl (Validation ''checkout.name is not a valid Git branch name'')
         else Inr (checkoutType, v))
      else Inl (Validation ''checkout.type must be branch or commit''))"

definition validateGitRepositoryURL :: "(string \<Rightarrow> repoURL option) \<Rightarrow> string \<Rightarrow> repoURL res" where
  "validateGitRepositoryURL parseURL raw =
     (if raw = [] \<or> 2048 < length raw \<or> \<not> validUtf8 raw
      then Inl (Validation ''url must be a valid HTTPS Git repository URL'')
      else (case parseURL raw of
          None \<Rightarrow> Inl (Validation
            ''url must be an anonymous HTTPS Git repository URL without query or fragment'')
        | Some p \<Rightarrow>
            if url_Scheme p \<noteq> ''https'' \<or> url_Host p = [] \<or> url_Hostname p = [] \<or> url_HasUser p
               \<or> url_RawQuery p \<noteq> [] \<or> url_ForceQuery p \<or> url_Fragment p \<noteq> [] \<or> contains raw ''#''
               \<or> url_Opaque p \<noteq> []
            then Inl (Validation
              ''url must be an anonymous HTTPS Git repository URL without query or fragment'')
            else if url_Path p = [] \<or> url_Path p = ''/''
            then Inl (Validation ''url must identify a Git repository'')
            else if list_ex isControl (runes raw)
            then Inl (Validation ''url cannot contain control characters'')
            else Inr p))"

definition ValidateGitRepositoryURL :: "(string \<Rightarrow> repoURL option) \<Rightarrow> string \<Rightarrow> unit res" where
  "ValidateGitRepositoryURL parseURL raw =
     bindE (validateGitRepositoryURL parseURL raw) (\<lambda>_. Inr ())"

definition hexVal :: "char \<Rightarrow> nat" where
  "hexVal c = (if isDigitByte c then byteOf c - 48
     else if 97 \<le> byteOf c then byteOf c - 87 else byteOf c - 55)"

text \<open>\<open>url.PathUnescape\<close>.\<close>

fun pathUnescape :: "string \<Rightarrow> string option" where
  "pathUnescape [] = Some []"
| "pathUnescape (c # cs) =
     (if c = CHR ''%'' then
        (case cs of
           a # b # rest \<Rightarrow>
             if isHexByte a \<and> isHexByte b
             then map_option ((#) (char_of (hexVal a * 16 + hexVal b))) (pathUnescape rest)
             else None
         | _ \<Rightarrow> None)
      else map_option ((#) c) (pathUnescape cs))"

definition repositoryName :: "repoURL \<Rightarrow> string res" where
  "repositoryName parsed =
     (case pathUnescape (pathBase (trimSuffix (url_Path parsed) ''/'')) of
        None \<Rightarrow> Inl (Validation ''url contains an invalid repository path'')
      | Some raw \<Rightarrow>
          (let name = trimSuffix raw ''.git''
           in if name = [] \<or> name = ''.'' \<or> name = ''..'' \<or> contains name ''/'' \<or> \<not> validUtf8 name
                 \<or> MaxSessionFileMountComponentBytes < length name
              then Inl (Validation ''url must produce a safe repository mount name'')
              else if list_ex isControl (runes name)
              then Inl (Validation ''url must produce a safe repository mount name'')
              else Inr name))"

section \<open>Mount paths\<close>

definition validateSessionFileMountPath :: "string \<Rightarrow> unit res" where
  "validateSessionFileMountPath mountPath =
     (if MaxSessionFileMountPathBytes < length mountPath
      then Inl (Validation ''mount_path exceeds 1024 bytes after normalization'')
      else if list_ex (\<lambda>c. MaxSessionFileMountComponentBytes < length c)
           (splitOn slash (trimPrefix mountPath ''/''))
      then Inl (Validation ''mount_path components cannot exceed 255 bytes'')
      else Inr ())"

definition SessionFileMountPathsConflict :: "string \<Rightarrow> string \<Rightarrow> bool" where
  "SessionFileMountPathsConflict left0 right0 =
     (let left = pathClean left0; right = pathClean right0
      in left = right \<or> hasPrefix left (right @ ''/'') \<or> hasPrefix right (left @ ''/''))"

text \<open>The checks on a path that the client asked for, shared by Files and repositories.\<close>

definition requestedPath :: "string \<Rightarrow> string res" where
  "requestedPath raw =
     (if raw = [] \<or> \<not> hasPrefix raw ''/'' then Inl (Validation ''mount_path must be an absolute path'')
      else if \<not> validUtf8 raw then Inl (Validation ''mount_path must be valid UTF-8'')
      else if list_ex isControl (runes raw)
      then Inl (Validation ''mount_path cannot contain control characters'')
      else if list_ex (\<lambda>c. c = ''..'') (splitOn slash raw)
      then Inl (Validation ''mount_path cannot contain parent traversal'')
      else Inr (pathClean raw))"

definition NormalizeGitRepositoryMountPath ::
  "(string \<Rightarrow> repoURL option) \<Rightarrow> string \<Rightarrow> string option \<Rightarrow> string res" where
  "NormalizeGitRepositoryMountPath parseURL rawURL requested =
     bindE (validateGitRepositoryURL parseURL rawURL) (\<lambda>parsed.
     bindE (case requested of
         None \<Rightarrow> bindE (repositoryName parsed) (\<lambda>name. Inr (pathJoin SessionRepositoryRoot name))
       | Some r \<Rightarrow> Inr r) (\<lambda>raw.
     bindE (requestedPath raw) (\<lambda>clean.
     if clean = SessionRepositoryRoot \<or> \<not> hasPrefix clean (SessionRepositoryRoot @ ''/'')
     then Inl (Validation ''mount_path must be a child of /workspace'')
     else if SessionFileMountPathsConflict clean SessionSkillsRoot
     then Inl (Validation ''mount_path cannot overlap the custom Skill directory'')
     else bindE (validateSessionFileMountPath clean) (\<lambda>_. Inr clean))))"

fun memorySlug :: "unicodeTables \<Rightarrow> string \<Rightarrow> bool \<Rightarrow> nat list \<Rightarrow> string" where
  "memorySlug u slug lastHyphen [] = slug"
| "memorySlug u slug lastHyphen (r # rest) =
     (if isLetter u r \<or> isDigit u r then memorySlug u (slug @ encodeRune r) False rest
      else if 0 < length slug \<and> \<not> lastHyphen then memorySlug u (slug @ ''-'') True rest
      else memorySlug u slug lastHyphen rest)"

definition NormalizeSessionMemoryStoreMountPath :: "unicodeTables \<Rightarrow> string \<Rightarrow> string res" where
  "NormalizeSessionMemoryStoreMountPath u name =
     (if \<not> validUtf8 name then Inl (Validation ''memory store name must be valid UTF-8'')
      else
        let v = trimSuffix (memorySlug u [] False (runes (toLower u name))) ''-''
        in if v = [] then Inl (Validation ''memory store name must produce a non-empty mount slug'')
           else if MaxSessionFileMountComponentBytes < length v
           then Inl (Validation ''memory store mount slug cannot exceed 255 bytes'')
           else Inr (pathJoin SessionMemoryRoot v))"

definition requestedFileMount :: "string \<Rightarrow> string res" where
  "requestedFileMount clean =
     (if clean = ''/'' \<or> clean = SessionUploadsRoot
      then Inl (Validation ''mount_path must identify a file'')
      else
        let mountPath = (if hasPrefix clean (SessionUploadsRoot @ ''/'') then clean
                         else pathJoin SessionUploadsRoot (trimPrefix clean ''/''))
        in bindE (validateSessionFileMountPath mountPath) (\<lambda>_. Inr mountPath))"

definition NormalizeSessionFileMountPath :: "string \<Rightarrow> string option \<Rightarrow> string res" where
  "NormalizeSessionFileMountPath fileID requested =
     (if fileID = [] then Inl (Validation ''file_id is required'')
      else if \<not> validUtf8 fileID \<or> contains fileID ''/'' then Inl (Validation ''file_id is invalid'')
      else if list_ex isControl (runes fileID) then Inl (Validation ''file_id is invalid'')
      else (case requested of
          None \<Rightarrow>
            (let mountPath = pathJoin SessionUploadsRoot fileID
             in if \<not> hasPrefix mountPath (SessionUploadsRoot @ ''/'')
                then Inl (Validation ''file_id cannot escape the Session uploads directory'')
                else bindE (validateSessionFileMountPath mountPath) (\<lambda>_. Inr mountPath))
        | Some raw \<Rightarrow>
            bindE (requestedPath raw) requestedFileMount))"

section \<open>Clean paths\<close>

definition pathOf :: "string list \<Rightarrow> string" where
  "pathOf ws = slash # joinWith ''/'' ws"

lemma joinWith_snoc: "vs \<noteq> [] \<Longrightarrow> joinWith d (vs @ [w]) = joinWith d vs @ d @ w"
  by (induction d vs rule: joinWith.induct) auto

lemma joinWith_append: "vs \<noteq> [] \<Longrightarrow> ws \<noteq> [] \<Longrightarrow> joinWith d (vs @ ws) = joinWith d vs @ d @ joinWith d ws"
  by (induction d vs rule: joinWith.induct) (auto simp: neq_Nil_conv)

lemma splitOn_join_append:
  "vs \<noteq> [] \<Longrightarrow> \<forall>v \<in> set vs. d \<notin> set v \<Longrightarrow> splitOn d (joinWith [d] vs @ d # t) = vs @ splitOn d t"
  by (induction "[d]" vs rule: joinWith.induct) (auto simp: splitOn_append)

lemma proper_no_slash: "list_all properComp ws \<Longrightarrow> \<forall>w \<in> set ws. slash \<notin> set w"
  by (auto simp: list_all_iff properComp_def)

lemma splitOn_pathOf: "list_all properComp ws \<Longrightarrow> ws \<noteq> [] \<Longrightarrow> splitOn slash (joinWith ''/'' ws) = ws"
  by (rule splitOn_joinWith) (auto dest: proper_no_slash)

lemma pathOf_inj:
  "list_all properComp vs \<Longrightarrow> list_all properComp ws \<Longrightarrow> vs \<noteq> [] \<Longrightarrow> ws \<noteq> [] \<Longrightarrow> pathOf vs = pathOf ws \<Longrightarrow> vs = ws"
  using splitOn_pathOf by (metis list.inject pathOf_def)

lemma pathClean_pathOf: "list_all properComp ws \<Longrightarrow> pathClean (pathOf ws) = pathOf ws"
  unfolding pathOf_def by (rule pathClean_proper)

text \<open>A clean path lies below another exactly when its components extend the other's.\<close>

lemma hasPrefix_pathOf:
  assumes "list_all properComp vs" "list_all properComp ws" "vs \<noteq> []"
  shows "hasPrefix (pathOf ws) (pathOf vs @ ''/'') \<longleftrightarrow> (\<exists>us. us \<noteq> [] \<and> ws = vs @ us)"
proof
  assume "hasPrefix (pathOf ws) (pathOf vs @ ''/'')"
  then obtain t where t: "joinWith ''/'' ws = joinWith ''/'' vs @ slash # t"
    by (auto simp: hasPrefix_iff pathOf_def)
  then have "ws \<noteq> []" by auto
  then have "ws = vs @ splitOn slash t"
    using splitOn_join_append [of vs slash t] splitOn_pathOf [of ws] assms proper_no_slash t by metis
  then show "\<exists>us. us \<noteq> [] \<and> ws = vs @ us" by auto
next
  assume "\<exists>us. us \<noteq> [] \<and> ws = vs @ us"
  then show "hasPrefix (pathOf ws) (pathOf vs @ ''/'')"
    using assms(3) by (auto simp: hasPrefix_iff pathOf_def joinWith_append)
qed

text \<open>
  The collision test is exact on clean paths: two mounts conflict if and only if they are the
  same path or one is an ancestor directory of the other, so it is symmetric, and accepted
  mounts can be materialised in any order.
\<close>

theorem mount_conflict_exact:
  assumes "list_all properComp vs" "list_all properComp ws" "vs \<noteq> []" "ws \<noteq> []"
  shows "SessionFileMountPathsConflict (pathOf vs) (pathOf ws) = (prefix vs ws \<or> prefix ws vs)"
proof -
  have "SessionFileMountPathsConflict (pathOf vs) (pathOf ws) \<longleftrightarrow>
      vs = ws \<or> (\<exists>us. us \<noteq> [] \<and> vs = ws @ us) \<or> (\<exists>us. us \<noteq> [] \<and> ws = vs @ us)"
    using pathOf_inj [OF assms(1,2)] assms
    by (auto simp: SessionFileMountPathsConflict_def Let_def pathClean_pathOf hasPrefix_pathOf)
  also have "\<dots> \<longleftrightarrow> prefix vs ws \<or> prefix ws vs"
    by (auto simp: prefix_def)
  finally show ?thesis .
qed

theorem mount_conflict_exact_witness:
  "SessionFileMountPathsConflict (pathOf [''mnt'', ''a'']) (pathOf [''mnt'', ''ab'']) = False"
  by (subst mount_conflict_exact) (simp_all add: properComp_def)

section \<open>Confinement\<close>

text \<open>
  A normaliser with a root returns only clean paths strictly below the root. From this: the paths
  are fixed points of cleaning, never the root itself, and mounts of two disjoint roots never
  collide.
\<close>

definition below :: "string list \<Rightarrow> string \<Rightarrow> bool" where
  "below rt p \<longleftrightarrow> (\<exists>us. us \<noteq> [] \<and> list_all properComp us \<and> p = pathOf (rt @ us))"

locale mount_normaliser =
  fixes norm :: "'q \<Rightarrow> string res" and rt :: "string list"
  assumes root_proper: "list_all properComp rt" "rt \<noteq> []"
    and confined: "norm q = Inr p \<Longrightarrow> below rt p"
begin

lemma norm_clean: "norm q = Inr p \<Longrightarrow> pathClean p = p"
  using confined [of q p] root_proper by (auto simp: below_def pathClean_pathOf)

lemma norm_disjoint:
  assumes "norm q = Inr p" "below other p'" "list_all properComp other" "\<not> prefix rt other" "\<not> prefix other rt"
  shows "\<not> SessionFileMountPathsConflict p p'"
proof -
  obtain us vs where p: "p = pathOf (rt @ us)" "list_all properComp us"
    and p': "p' = pathOf (other @ vs)" "list_all properComp vs" "vs \<noteq> []"
    using confined [OF assms(1)] assms(2) by (auto simp: below_def)
  have "\<not> prefix (rt @ us) (other @ vs)" "\<not> prefix (other @ vs) (rt @ us)"
    using assms(4,5) by (metis append_prefixD prefix_append prefix_def prefix_same_cases)+
  then show ?thesis
    using mount_conflict_exact [of "rt @ us" "other @ vs"] p p' root_proper assms(3) by simp
qed

end

definition uploadsComps :: "string list" where "uploadsComps = [''mnt'', ''session'', ''uploads'']"
definition workspaceComps :: "string list" where "workspaceComps = [''workspace'']"
definition memoryComps :: "string list" where "memoryComps = [''mnt'', ''memory'']"

lemma roots:
  "SessionUploadsRoot = pathOf uploadsComps" "SessionRepositoryRoot = pathOf workspaceComps"
  "SessionMemoryRoot = pathOf memoryComps"
  "list_all properComp uploadsComps" "list_all properComp workspaceComps" "list_all properComp memoryComps"
  "uploadsComps \<noteq> []" "workspaceComps \<noteq> []" "memoryComps \<noteq> []"
  by (simp_all add: SessionUploadsRoot_def SessionRepositoryRoot_def SessionMemoryRoot_def pathOf_def
      uploadsComps_def workspaceComps_def memoryComps_def properComp_def)

lemma cleaned_below:
  assumes "hasPrefix raw ''/''" "hasPrefix (pathClean raw) (pathOf vs @ ''/'')" "list_all properComp vs" "vs \<noteq> []"
  shows "below vs (pathClean raw)"
proof -
  have "raw \<noteq> []" "hd raw = slash" using assms(1) by (auto simp: hasPrefix_iff)
  then obtain ws where ws: "pathClean raw = pathOf ws" "list_all properComp ws"
    unfolding pathOf_def by (rule pathClean_comps)
  then obtain us where "us \<noteq> []" "ws = vs @ us"
    using assms hasPrefix_pathOf [of vs ws] by auto
  with ws show ?thesis by (auto simp: below_def)
qed

lemma requestedPath_ok:
  "requestedPath raw = Inr c \<Longrightarrow> c = pathClean raw \<and> hasPrefix raw ''/'' \<and> raw \<noteq> []"
  by (auto simp: requestedPath_def split: if_splits)

lemma splitOn_Cons_sep: "splitOn d (d # s) = [] # splitOn d s"
  by simp

lemma pathJoin_clean:
  assumes "list_all properComp vs" "list_all properComp ws" "vs \<noteq> []" "ws \<noteq> []"
  shows "pathJoin (pathOf vs) (joinWith ''/'' ws) = pathOf (vs @ ws)"
proof -
  have "joinWith ''/'' ws \<noteq> []"
    using assms(2,4) by (cases ws; cases "tl ws") (auto simp: properComp_def)
  then have "pathJoin (pathOf vs) (joinWith ''/'' ws) = pathClean (pathOf vs @ ''/'' @ joinWith ''/'' ws)"
    by (simp add: pathJoin_def pathOf_def)
  also have "pathOf vs @ ''/'' @ joinWith ''/'' ws = pathOf (vs @ ws)"
    using assms(3,4) by (simp add: pathOf_def joinWith_append)
  finally show ?thesis using assms pathClean_pathOf [of "vs @ ws"] by simp
qed

lemma pathJoin_pathOf_head: "pathJoin (pathOf vs) w = pathClean (pathOf vs @ (if w = [] then [] else ''/'' @ w))"
  by (simp add: pathJoin_def pathOf_def)

lemma NormalizeSessionFileMountPath_below:
  assumes "NormalizeSessionFileMountPath fileID requested = Inr p"
  shows "below uploadsComps p"
proof (cases requested)
  case None
  then have p: "p = pathJoin SessionUploadsRoot fileID" "hasPrefix p (SessionUploadsRoot @ ''/'')"
    using assms by (auto simp: NormalizeSessionFileMountPath_def Let_def bindE_Inr_iff split: if_splits)
  let ?raw = "pathOf uploadsComps @ (if fileID = [] then [] else ''/'' @ fileID)"
  have "p = pathClean ?raw" using p(1) by (simp only: roots pathJoin_pathOf_head)
  moreover have "hasPrefix ?raw ''/''" by (simp add: pathOf_def hasPrefix_def)
  ultimately show ?thesis using p(2) cleaned_below roots by metis
next
  case (Some raw)
  then obtain c where r: "requestedPath raw = Inr c" "requestedFileMount c = Inr p"
    using assms by (auto simp: NormalizeSessionFileMountPath_def bindE_Inr_iff split: if_split_asm)
  then have c: "requestedPath raw = Inr c" "c \<noteq> ''/''" "c \<noteq> SessionUploadsRoot"
    by (auto simp: requestedFileMount_def)
  have p: "p = (if hasPrefix c (SessionUploadsRoot @ ''/'') then c
                 else pathJoin SessionUploadsRoot (trimPrefix c ''/''))"
    using r(2) unfolding requestedFileMount_def Let_def
    by (simp only: c if_False bindE_Inr_iff HOL.simp_thms) (elim exE conjE, simp)
  note cr = requestedPath_ok [OF c(1)]
  show ?thesis
  proof (cases "hasPrefix c (SessionUploadsRoot @ ''/'')")
    case True
    with p cr cleaned_below roots show ?thesis by metis
  next
    case False
    from cr have "raw \<noteq> []" "hd raw = slash" by (auto simp: hasPrefix_iff)
    then obtain ws where ws: "c = pathOf ws" "list_all properComp ws"
      unfolding pathOf_def using cr by (metis pathClean_comps)
    with c(2) have "ws \<noteq> []" by (auto simp: pathOf_def)
    moreover have "trimPrefix c ''/'' = joinWith ''/'' ws"
      using ws by (simp add: trimPrefix_def pathOf_def hasPrefix_def)
    ultimately have "p = pathOf (uploadsComps @ ws)"
      using p False ws roots pathJoin_clean by metis
    with ws \<open>ws \<noteq> []\<close> show ?thesis by (auto simp: below_def)
  qed
qed

lemma NormalizeGitRepositoryMountPath_below:
  assumes "NormalizeGitRepositoryMountPath parseURL rawURL requested = Inr p"
  shows "below workspaceComps p"
proof -
  obtain raw where "requestedPath raw = Inr p" "hasPrefix p (SessionRepositoryRoot @ ''/'')"
    using assms by (auto simp: NormalizeGitRepositoryMountPath_def bindE_Inr_iff split: if_splits)
  with requestedPath_ok [OF this(1)] show ?thesis using cleaned_below roots by metis
qed

lemma decodeRune_bound: "fst (decodeRune s) < 1310720"
proof -
  have b: "byteOf c < 256" for c by (simp add: byteOf_def)
  have c: "isCont c \<Longrightarrow> byteOf c - 128 < 64" for c by (auto simp: isCont_def)
  have sec: "secondOk b0 c \<Longrightarrow> byteOf c - 128 < 64" for b0 c
    using b [of c] by (auto simp: secondOk_def isCont_def split: if_splits)
  show ?thesis
  proof (cases s)
    case (Cons c0 cs)
    show ?thesis
      unfolding Cons decodeRune.simps Let_def runeError_def
      using b [of c0] by (auto split: list.splits dest!: c sec)
  qed (simp add: runeError_def)
qed

lemma runes_bound: "r \<in> set (runes s) \<Longrightarrow> r < 1310720"
proof (induction s rule: segments.induct)
  case (2 c cs)
  obtain r' n where d: "decodeRune (c # cs) = (r', n)" by (cases "decodeRune (c # cs)") auto
  with 2 decodeRune_bound [of "c # cs"] show ?case by (auto simp: runes_def Let_def)
qed (simp add: runes_def)

text \<open>A letter or digit never encodes to a slash or a dot.\<close>

lemma encodeRune_alnum:
  assumes "isLetter u r \<or> isDigit u r" "r < 1310720"
  shows "slash \<notin> set (encodeRune r) \<and> CHR ''.'' \<notin> set (encodeRune r) \<and> encodeRune r \<noteq> []"
proof (cases "r < 128")
  case True
  then have "r \<noteq> 47" "r \<noteq> 46"
    using assms(1) by (auto simp: isLetter_def isDigit_def asciiUpper_def asciiLower_def asciiDigit_def)
  moreover have "c = char_of r \<Longrightarrow> r = byteOf c" for c
    using True by (auto simp: byteOf_char_of)
  then have "slash = char_of r \<Longrightarrow> r = 47" "CHR ''.'' = char_of r \<Longrightarrow> r = 46"
    by (fastforce simp: byteOf_def)+
  ultimately show ?thesis using True by (auto simp: encodeRune_def)
next
  case False
  have "128 \<le> byteOf c" if "c \<in> set (encodeRune r)" for c
    using that False assms(2) by (auto simp: encodeRune_def byteOf_char_of split: if_splits)
  then have "c \<notin> set (encodeRune r)" if "byteOf c < 128" for c using that by force
  moreover have "encodeRune r \<noteq> []" by (simp add: encodeRune_def)
  ultimately show ?thesis by (simp add: byteOf_def)
qed

lemma memorySlug_chars:
  assumes "slash \<notin> set slug \<and> CHR ''.'' \<notin> set slug" "\<forall>r \<in> set rs. r < 1310720"
  shows "slash \<notin> set (memorySlug u slug h rs) \<and> CHR ''.'' \<notin> set (memorySlug u slug h rs)"
  using assms
proof (induction u slug h rs rule: memorySlug.induct)
  case (2 u slug h r rest)
  then show ?case using encodeRune_alnum [of u r] by (cases "isLetter u r \<or> isDigit u r") auto
qed simp

lemma trimSuffix_sub: "set (trimSuffix s p) \<subseteq> set s"
  by (auto simp: trimSuffix_def dest: in_set_takeD)

lemma NormalizeSessionMemoryStoreMountPath_below:
  assumes "NormalizeSessionMemoryStoreMountPath u name = Inr p"
  shows "below memoryComps p"
proof -
  let ?v = "trimSuffix (memorySlug u [] False (runes (toLower u name))) ''-''"
  have p: "p = pathJoin SessionMemoryRoot ?v" "?v \<noteq> []"
    using assms by (auto simp: NormalizeSessionMemoryStoreMountPath_def Let_def split: if_splits)
  have "slash \<notin> set ?v \<and> CHR ''.'' \<notin> set ?v"
    using memorySlug_chars [of "[]" "runes (toLower u name)" u False] trimSuffix_sub runes_bound by fastforce
  then have "list_all properComp [?v]" using p(2) by (auto simp: properComp_def)
  then have "p = pathOf (memoryComps @ [?v])"
    using p pathJoin_clean [of memoryComps "[?v]"] roots by simp
  with \<open>list_all properComp [?v]\<close> show ?thesis unfolding below_def by blast
qed

interpretation file_mounts: mount_normaliser "\<lambda>(f, r). NormalizeSessionFileMountPath f r" uploadsComps
  by unfold_locales (auto simp: roots intro: NormalizeSessionFileMountPath_below)

interpretation git_mounts: mount_normaliser "\<lambda>(p, u, r). NormalizeGitRepositoryMountPath p u r" workspaceComps
  by unfold_locales (auto simp: roots intro: NormalizeGitRepositoryMountPath_below)

interpretation memory_mounts: mount_normaliser "\<lambda>(u, n). NormalizeSessionMemoryStoreMountPath u n" memoryComps
  by unfold_locales (auto simp: roots intro: NormalizeSessionMemoryStoreMountPath_below)

text \<open>
  No accepted mount escapes its directory: whatever path, address or name a client sends, a
  File lands strictly below the uploads directory, a repository strictly below the workspace and
  clear of the Skill directory, and a Memory Store strictly below the memory directory, each
  at a path with no empty, dot or parent component.
\<close>

theorem mounts_confined:
  "(case NormalizeSessionFileMountPath fileID requested of Inl _ \<Rightarrow> True | Inr p \<Rightarrow> below uploadsComps p)
   \<and> (case NormalizeGitRepositoryMountPath parseURL rawURL requested of Inl _ \<Rightarrow> True
      | Inr p \<Rightarrow> below workspaceComps p \<and> \<not> SessionFileMountPathsConflict p SessionSkillsRoot)
   \<and> (case NormalizeSessionMemoryStoreMountPath u name of Inl _ \<Rightarrow> True | Inr p \<Rightarrow> below memoryComps p)"
proof -
  have "NormalizeGitRepositoryMountPath parseURL rawURL requested = Inr p \<Longrightarrow>
      \<not> SessionFileMountPathsConflict p SessionSkillsRoot" for p
    by (auto simp: NormalizeGitRepositoryMountPath_def bindE_Inr_iff split: if_splits)
  then show ?thesis
    using NormalizeSessionFileMountPath_below NormalizeGitRepositoryMountPath_below
      NormalizeSessionMemoryStoreMountPath_below by (auto split: sum.splits)
qed

text \<open>
  Attachments of different kinds never collide: the mount of a File, of a repository and of a
  Memory Store are pairwise free of conflict, so only attachments of one kind need the test.
\<close>

theorem mounts_of_kinds_disjoint:
  assumes "NormalizeSessionFileMountPath fileID requested = Inr pf"
    and "NormalizeGitRepositoryMountPath parseURL rawURL requested' = Inr pg"
    and "NormalizeSessionMemoryStoreMountPath u name = Inr pm"
  shows "\<not> SessionFileMountPathsConflict pf pg \<and> \<not> SessionFileMountPathsConflict pf pm
    \<and> \<not> SessionFileMountPathsConflict pg pm"
proof -
  have apart: "\<not> prefix uploadsComps workspaceComps" "\<not> prefix workspaceComps uploadsComps"
    "\<not> prefix uploadsComps memoryComps" "\<not> prefix memoryComps uploadsComps"
    "\<not> prefix workspaceComps memoryComps" "\<not> prefix memoryComps workspaceComps"
    by (simp_all add: uploadsComps_def workspaceComps_def memoryComps_def)
  show ?thesis
    using file_mounts.norm_disjoint [of "(fileID, requested)" pf workspaceComps pg]
      file_mounts.norm_disjoint [of "(fileID, requested)" pf memoryComps pm]
      git_mounts.norm_disjoint [of "(parseURL, rawURL, requested')" pg memoryComps pm]
      NormalizeGitRepositoryMountPath_below [OF assms(2)]
      NormalizeSessionMemoryStoreMountPath_below [OF assms(3)] assms apart roots
    by simp
qed

definition sampleRepo :: "string \<Rightarrow> repoURL option" where
  "sampleRepo s = Some \<lparr>url_Scheme = ''https'', url_Host = ''h'', url_Hostname = ''h'',
     url_HasUser = False, url_Fragment = [], url_String = s, url_RawQuery = [], url_ForceQuery = False,
     url_Opaque = [], url_Path = ''/r''\<rparr>"

lemmas mount_eval = NormalizeSessionFileMountPath_def requestedFileMount_def
  NormalizeGitRepositoryMountPath_def validateGitRepositoryURL_def repositoryName_def requestedPath_def
  NormalizeSessionMemoryStoreMountPath_def validateSessionFileMountPath_def sampleRepo_def pathJoin_def
  pathClean_def cleanComps_def pathBase_def validUtf8_def SessionFileMountPathsConflict_def
  SessionUploadsRoot_def SessionRepositoryRoot_def SessionMemoryRoot_def SessionSkillsRoot_def
  MaxSessionFileMountPathBytes_def MaxSessionFileMountComponentBytes_def runeError_def

lemma sample_mounts:
  "NormalizeSessionFileMountPath ''f'' (Some ''/a'') = Inr ''/mnt/session/uploads/a''"
  "NormalizeGitRepositoryMountPath sampleRepo ''u'' (Some ''/workspace/r'') = Inr ''/workspace/r''"
  "NormalizeSessionMemoryStoreMountPath asciiTables ''M!'' = Inr ''/mnt/memory/m''"
  by (simp_all add: mount_eval asciiTables_def go_eval)

theorem mounts_of_kinds_disjoint_witness:
  "\<not> SessionFileMountPathsConflict ''/mnt/session/uploads/a'' ''/workspace/r''
   \<and> \<not> SessionFileMountPathsConflict ''/mnt/session/uploads/a'' ''/mnt/memory/m''
   \<and> \<not> SessionFileMountPathsConflict ''/workspace/r'' ''/mnt/memory/m''"
  by (rule mounts_of_kinds_disjoint [OF sample_mounts])

end
