(* ===== verification/Sessions.thy ===== *)
theory Sessions
  imports Resources
begin

text \<open>
  Sessions and Session Threads (\<open>internal/domain/session.go\<close>, \<open>internal/domain/session_thread.go\<close>,
  the Session methods of \<open>internal/domain/budget.go\<close>) and the Session status that storage derives
  from its Threads (\<open>internal/pg/thread_completion.go\<close>). Floating-point seconds are
  doubles (\<open>Doubles\<close>). The text of an error of the tool validator is an argument (\<open>errText\<close>), as are
  \<open>net/url\<close> and \<open>netip.ParseAddr\<close>.
\<close>

section \<open>Status\<close>

datatype Status = StatusIdle | StatusRunning | StatusRescheduling | StatusTerminated

fun CanTransitionTo :: "Status \<Rightarrow> Status \<Rightarrow> bool" where
  "CanTransitionTo StatusIdle n = (n = StatusRunning \<or> n = StatusTerminated)"
| "CanTransitionTo StatusRunning n =
     (n = StatusIdle \<or> n = StatusRescheduling \<or> n = StatusTerminated)"
| "CanTransitionTo StatusRescheduling n =
     (n = StatusIdle \<or> n = StatusRunning \<or> n = StatusTerminated)"
| "CanTransitionTo StatusTerminated n = False"

section \<open>Sessions (internal/domain/session.go)\<close>

record OutcomeEvaluation =
  oc_OutcomeID :: string
  oc_Description :: string
  oc_Result :: string
  oc_Explanation :: string
  oc_Iteration :: int
  oc_CompletedAt :: "time option"

record OutcomeSpec =
  os_OutcomeID :: string
  os_Description :: string
  os_Rubric :: payload
  os_MaxIterations :: int

record Session =
  s_WorkspaceID :: string
  s_ID :: string
  s_AgentID :: string
  s_AgentVersion :: int
  s_EnvironmentID :: string
  s_DeploymentID :: "string option"
  s_EnvironmentType :: string
  s_EnvironmentConfig :: "payload option"
  s_Status :: Status
  s_Title :: string
  s_Metadata :: "payload option"
  s_AgentSnapshot :: Agent
  s_MultiagentRoster :: "Agent list"
  s_Usage :: TokenUsage
  s_ModelListCostNanoUSD :: int
  s_ListCostKnown :: bool
  s_Budget :: "SessionBudget option"
  s_Outcomes :: "OutcomeEvaluation list"
  s_Resources :: "SessionResource list"
  s_VaultIDs :: "string list"
  s_ActiveSeconds :: rat
  s_RunningSince :: "time option"
  s_TerminatedAt :: "time option"
  s_CreatedAt :: time
  s_UpdatedAt :: time
  s_ArchivedAt :: "time option"

record SessionUpdate =
  su_Title :: "string option"
  su_Metadata :: "payload option"
  su_AgentTools :: "jval slice option"
  su_AgentMCPServers :: "jval slice option"
  su_Budget :: "SessionBudgetUpdate option"

record SessionChange =
  ch_Title :: bool
  ch_Metadata :: bool
  ch_Agent :: bool
  ch_Budget :: bool

definition TouchesAgent :: "SessionUpdate \<Rightarrow> bool" where
  "TouchesAgent u \<longleftrightarrow> su_AgentTools u \<noteq> None \<or> su_AgentMCPServers u \<noteq> None"

definition SessionUpdate_IsEmpty :: "SessionUpdate \<Rightarrow> bool" where
  "SessionUpdate_IsEmpty u \<longleftrightarrow>
     su_Title u = None \<and> su_Metadata u = None \<and> \<not> TouchesAgent u \<and> su_Budget u = None"

definition SessionChange_Any :: "SessionChange \<Rightarrow> bool" where
  "SessionChange_Any c \<longleftrightarrow> ch_Title c \<or> ch_Metadata c \<or> ch_Agent c \<or> ch_Budget c"

fun mergeMetadata :: "payload \<Rightarrow> payload \<Rightarrow> payload" where
  "mergeMetadata merged [] = merged"
| "mergeMetadata merged ((key, v) # rest) =
     mergeMetadata (if v = JNull then adel key merged else aput key v merged) rest"

definition metadataEqual :: "payload \<Rightarrow> payload \<Rightarrow> bool" where
  "metadataEqual current nxt =
     (if length current \<noteq> length nxt then False
      else list_all (\<lambda>(key, v). map_of current key = Some v) nxt)"

definition bagOf :: "payload option \<Rightarrow> payload" where
  "bagOf m = (case m of None \<Rightarrow> [] | Some x \<Rightarrow> x)"

definition agentDeepEqual :: "Agent \<Rightarrow> Agent \<Rightarrow> bool" where
  "agentDeepEqual a b \<longleftrightarrow> agentFieldsEqual a b \<and> ag_Version a = ag_Version b
     \<and> ag_CreatedAt a = ag_CreatedAt b \<and> ag_UpdatedAt a = ag_UpdatedAt b"

definition applyTitle :: "Session \<Rightarrow> SessionUpdate \<Rightarrow> Session \<times> bool" where
  "applyTitle s u =
     (case su_Title u of
        Some t \<Rightarrow> if t \<noteq> s_Title s then (s\<lparr>s_Title := t\<rparr>, True) else (s, False)
      | None \<Rightarrow> (s, False))"

definition applyMetadata :: "Session \<Rightarrow> SessionUpdate \<Rightarrow> (Session \<times> bool) res" where
  "applyMetadata s u =
     (case su_Metadata u of
        None \<Rightarrow> Inr (s, False)
      | Some patch \<Rightarrow>
          (let merged = mergeMetadata (bagOf (s_Metadata s)) patch
           in bindE (ValidateMetadata merged) (\<lambda>_.
              if \<not> metadataEqual (bagOf (s_Metadata s)) merged
              then Inr (s\<lparr>s_Metadata := Some merged\<rparr>, True) else Inr (s, False))))"

definition applyAgent ::
  "(goError \<Rightarrow> string) \<Rightarrow> (string \<Rightarrow> parsedURL option) \<Rightarrow> (string \<Rightarrow> ipaddr option)
   \<Rightarrow> Session \<Rightarrow> SessionUpdate \<Rightarrow> (Session \<times> bool) res" where
  "applyAgent errText parseURL parseAddr s u =
     (if \<not> TouchesAgent u then Inr (s, False)
      else
        let snapshot = (s_AgentSnapshot s)\<lparr>
          ag_Tools := orKeep (su_AgentTools u) (ag_Tools (s_AgentSnapshot s)),
          ag_MCPServers := orKeep (su_AgentMCPServers u) (ag_MCPServers (s_AgentSnapshot s))\<rparr>
        in case ValidateToolConfiguration parseURL parseAddr (elems (ag_Tools snapshot))
                  (elems (ag_MCPServers snapshot)) of
             Inl err \<Rightarrow> Inl (Validation (''invalid agent tool configuration: '' @ errText err))
           | Inr _ \<Rightarrow>
               if \<not> agentDeepEqual (s_AgentSnapshot s) snapshot
               then Inr (s\<lparr>s_AgentSnapshot := snapshot,
                 s_MultiagentRoster := map (\<lambda>a. if ag_ID a \<noteq> s_AgentID s then a
                   else a\<lparr>ag_Tools := ag_Tools snapshot, ag_MCPServers := ag_MCPServers snapshot\<rparr>)
                   (s_MultiagentRoster s)\<rparr>, True)
               else Inr (s, False))"

definition applyBudget :: "Session \<Rightarrow> SessionUpdate \<Rightarrow> (Session \<times> bool) res" where
  "applyBudget s u =
     (case su_Budget u of
        None \<Rightarrow> Inr (s, False)
      | Some bu \<Rightarrow>
          (case (sbu_Budget bu, s_Budget s) of
             (None, None) \<Rightarrow> Inr (s, False)
           | (None, Some _) \<Rightarrow> Inr (s\<lparr>s_Budget := None\<rparr>, True)
           | (Some _, None) \<Rightarrow> Inl (Validation
               ''a budget can only be changed while an existing session budget is active'')
           | (Some b, Some old) \<Rightarrow>
               if b \<noteq> old then Inr (s\<lparr>s_Budget := Some b\<rparr>, True) else Inr (s, False)))"

text \<open>
  The four parts touch different fields of the copy, so each is applied to the result of the one
  before; the comparisons read the fields the earlier parts left alone.
\<close>

definition ApplyUpdate ::
  "(goError \<Rightarrow> string) \<Rightarrow> (string \<Rightarrow> parsedURL option) \<Rightarrow> (string \<Rightarrow> ipaddr option)
   \<Rightarrow> Session \<Rightarrow> SessionUpdate \<Rightarrow> (Session \<times> SessionChange) res" where
  "ApplyUpdate errText parseURL parseAddr s u =
     (let (s1, t) = applyTitle s u
      in bindE (applyMetadata s1 u) (\<lambda>(s2, m).
         bindE (applyAgent errText parseURL parseAddr s2 u) (\<lambda>(s3, a).
         bindE (applyBudget s3 u) (\<lambda>(s4, b).
         Inr (s4, \<lparr>ch_Title = t, ch_Metadata = m, ch_Agent = a, ch_Budget = b\<rparr>)))))"

definition ResolvedAgentSnapshotJSON :: "Session \<Rightarrow> payload" where
  "ResolvedAgentSnapshotJSON s =
     (let out = SessionSnapshotJSON (s_AgentSnapshot s); ma = ag_Multiagent (s_AgentSnapshot s)
      in if ma = None then aput ''multiagent'' JNull out
         else if s_MultiagentRoster s = [] \<and> rosterAdvisor ma = None then out
         else
           let agents = map (\<lambda>a. JObj (adel ''multiagent'' (SessionSnapshotJSON a))) (s_MultiagentRoster s)
             @ (case rosterAdvisor ma of
                  None \<Rightarrow> []
                | Some av \<Rightarrow> [JObj [(''type'', JStr (av_Type av)), (''model'', JStr (av_Model av))]])
           in aput ''multiagent'' (JObj [(''type'', JStr ''coordinator''), (''agents'', JArr agents)]) out)"

definition SessionUpdatedPayload :: "Session \<Rightarrow> SessionChange \<Rightarrow> payload" where
  "SessionUpdatedPayload s c =
     (if ch_Agent c then [(''agent'', JObj (ResolvedAgentSnapshotJSON s))] else [])
     @ (if ch_Metadata c \<and> 0 < length (bagOf (s_Metadata s))
        then [(''metadata'', JObj (bagOf (s_Metadata s)))] else [])
     @ (if ch_Title c then [(''title'', JStr (s_Title s))] else [])
     @ (if ch_Budget c
        then [(''budget'', case s_Budget s of None \<Rightarrow> JNull | Some b \<Rightarrow> JObj (SessionBudget_JSON b))]
        else [])"

section \<open>Outcomes\<close>

definition ActiveOutcome :: "Session \<Rightarrow> OutcomeEvaluation option" where
  "ActiveOutcome s =
     (if s_Outcomes s = [] then None
      else let latest = last (s_Outcomes s)
           in if oc_Result latest \<in> {''pending'', ''running'', ''evaluating''} then Some latest else None)"

definition StartOutcome :: "Session \<Rightarrow> OutcomeSpec \<Rightarrow> Session res" where
  "StartOutcome s spec =
     (if ActiveOutcome s \<noteq> None then Inl (Conflict ''a session may have only one active outcome'')
      else Inr (s\<lparr>s_Outcomes := s_Outcomes s @
        [\<lparr>oc_OutcomeID = os_OutcomeID spec, oc_Description = os_Description spec,
          oc_Result = ''pending'', oc_Explanation = [], oc_Iteration = 0, oc_CompletedAt = None\<rparr>]\<rparr>))"

definition MarkActiveOutcomeRunning :: "Session \<Rightarrow> Session" where
  "MarkActiveOutcomeRunning s =
     (if s_Outcomes s = [] then s
      else let latest = last (s_Outcomes s)
           in if oc_Result latest = ''pending''
              then s\<lparr>s_Outcomes := butlast (s_Outcomes s) @ [latest\<lparr>oc_Result := ''running''\<rparr>]\<rparr> else s)"

definition terminalOutcome :: "string \<Rightarrow> bool" where
  "terminalOutcome r \<longleftrightarrow> r \<in> {''satisfied'', ''max_iterations_reached'', ''failed'', ''interrupted''}"

text \<open>The loop runs from the newest outcome to the oldest and stops at the first match.\<close>

fun updateNewest :: "('a \<Rightarrow> bool) \<Rightarrow> ('a \<Rightarrow> 'a) \<Rightarrow> 'a list \<Rightarrow> 'a list" where
  "updateNewest p f [] = []"
| "updateNewest p f (x # xs) = (if p x then f x # xs else x # updateNewest p f xs)"

definition ApplyOutcomeResult :: "Session \<Rightarrow> string \<Rightarrow> string \<Rightarrow> string \<Rightarrow> int \<Rightarrow> time \<Rightarrow> Session" where
  "ApplyOutcomeResult s outcomeID result explanation iteration now =
     s\<lparr>s_Outcomes := rev (updateNewest (\<lambda>x. oc_OutcomeID x = outcomeID)
       (\<lambda>x. x\<lparr>oc_Result := result, oc_Explanation := explanation, oc_Iteration := iteration,
          oc_CompletedAt := (if terminalOutcome result then Some now else None)\<rparr>)
       (rev (s_Outcomes s)))\<rparr>"

section \<open>Timing\<close>

definition TransitionStatus :: "Session \<Rightarrow> Status \<Rightarrow> time \<Rightarrow> Session" where
  "TransitionStatus s nxt now =
     (let s1 = (if s_Status s = StatusRunning \<and> nxt \<noteq> StatusRunning then
                  (case s_RunningSince s of
                     Some since \<Rightarrow> s\<lparr>s_ActiveSeconds := float64 (s_ActiveSeconds s + max 0 (seconds (timeSub now since))),
                       s_RunningSince := None\<rparr>
                   | None \<Rightarrow> s)
                else s);
          s2 = (if s_Status s1 \<noteq> StatusRunning \<and> nxt = StatusRunning
                then s1\<lparr>s_RunningSince := Some now\<rparr> else s1);
          s3 = (if nxt = StatusTerminated \<and> s_TerminatedAt s2 = None
                then s2\<lparr>s_TerminatedAt := Some now\<rparr> else s2)
      in s3\<lparr>s_Status := nxt, s_UpdatedAt := now\<rparr>)"

definition ObservableStats :: "Session \<Rightarrow> time \<Rightarrow> rat \<times> rat" where
  "ObservableStats s now =
     (let active = (case s_RunningSince s of
              Some since \<Rightarrow> if s_Status s = StatusRunning
                then float64 (s_ActiveSeconds s + max 0 (seconds (timeSub now since))) else s_ActiveSeconds s
            | None \<Rightarrow> s_ActiveSeconds s);
          end = (case s_TerminatedAt s of Some e \<Rightarrow> e | None \<Rightarrow> now)
      in (active, max 0 (seconds (timeSub end (s_CreatedAt s)))))"

section \<open>Budget of a Session (internal/domain/budget.go)\<close>

definition ObservableListCostNanoUSD :: "Session \<Rightarrow> time \<Rightarrow> int" where
  "ObservableListCostNanoUSD s now =
     i64Add (s_ModelListCostNanoUSD s) (RuntimeListCostNanoUSD (fst (ObservableStats s now)))"

definition BudgetReached :: "Session \<Rightarrow> time \<Rightarrow> bool" where
  "BudgetReached s now =
     (case s_Budget s of
        None \<Rightarrow> False
      | Some b \<Rightarrow>
          if \<not> s_ListCostKnown s then True
          else i64Mul (MaxListCostCents b) NanoUSDPerCent \<le> ObservableListCostNanoUSD s now)"

definition BudgetJSON :: "Session \<Rightarrow> jval" where
  "BudgetJSON s = (case s_Budget s of None \<Rightarrow> JNull | Some b \<Rightarrow> JObj (SessionBudget_JSON b))"

definition UsageJSON :: "Session \<Rightarrow> time \<Rightarrow> payload" where
  "UsageJSON s now =
     (let u = s_Usage s
      in [(''active_seconds'', JNum (fst (ObservableStats s now))),
          (''cache_creation'', JObj
            [(''ephemeral_1h_input_tokens'', JInt (Ephemeral1hInputTokens (CacheCreation u))),
             (''ephemeral_5m_input_tokens'', JInt (Ephemeral5mInputTokens (CacheCreation u)))]),
          (''cache_read_input_tokens'', JInt (CacheReadInputTokens u)),
          (''input_tokens'', JInt (InputTokens u)),
          (''list_cost'', if s_ListCostKnown s
             then JObj (MonetaryAmountJSON (ObservableListCostNanoUSD s now)) else JNull),
          (''output_tokens'', JInt (OutputTokens u)),
          (''server_tool_use'', JObj
            [(''web_fetch_requests'', JInt (WebFetchRequests (ServerToolUse u))),
             (''web_search_requests'', JInt (WebSearchRequests (ServerToolUse u)))])])"

definition UsageEventPayload :: "Session \<Rightarrow> time \<Rightarrow> payload" where
  "UsageEventPayload s now = [(''usage'', JObj (UsageJSON s now)), (''budget'', BudgetJSON s)]"

section \<open>Session Threads (internal/domain/session_thread.go)\<close>

record SessionThread =
  t_ID :: string
  t_SessionID :: string
  t_ParentThreadID :: "string option"
  t_Agent :: Agent
  t_Advisor :: "Advisor option"
  t_Status :: Status
  t_Usage :: TokenUsage
  t_ModelListCostNanoUSD :: int
  t_ListCostKnown :: bool
  t_BudgetPaused :: bool
  t_ActiveSeconds :: rat
  t_RunningSince :: "time option"
  t_TerminatedAt :: "time option"
  t_StartupSeconds :: rat
  t_CreatedAt :: time
  t_UpdatedAt :: time
  t_ArchivedAt :: "time option"

definition zeroModel :: Model where
  "zeroModel = \<lparr>m_ID = [], m_Effort = [], m_Speed = [], m_InferenceGeo = [], m_EffortExplicit = False,
     m_SpeedExplicit = False\<rparr>"

definition zeroAgent :: Agent where
  "zeroAgent = \<lparr>ag_ID = [], ag_Version = 0, ag_Name = [], ag_Model = zeroModel, ag_System = None,
     ag_Description = None, ag_Tools = None, ag_MCPServers = None, ag_Skills = None, ag_Multiagent = None,
     ag_Metadata = None, ag_CreatedAt = 0, ag_UpdatedAt = 0, ag_ArchivedAt = None\<rparr>"

text \<open>The zero value, on which the constructors set their fields (\<open>0\<close> is the zero time).\<close>

definition zeroThread :: SessionThread where
  "zeroThread = \<lparr>t_ID = [], t_SessionID = [], t_ParentThreadID = None, t_Agent = zeroAgent,
     t_Advisor = None, t_Status = StatusIdle, t_Usage = zeroUsage, t_ModelListCostNanoUSD = 0,
     t_ListCostKnown = False, t_BudgetPaused = False, t_ActiveSeconds = 0, t_RunningSince = None,
     t_TerminatedAt = None, t_StartupSeconds = 0, t_CreatedAt = 0, t_UpdatedAt = 0, t_ArchivedAt = None\<rparr>"

definition NewAdvisorSessionThread ::
  "string \<Rightarrow> string \<Rightarrow> string \<Rightarrow> Advisor \<Rightarrow> TokenUsage \<Rightarrow> int \<Rightarrow> bool \<Rightarrow> time \<Rightarrow> SessionThread" where
  "NewAdvisorSessionThread i sessionID parentThreadID advisor usage listCostNanoUSD listCostKnown now0 =
     (let now = truncMicros now0
      in zeroThread\<lparr>t_ID := i, t_SessionID := sessionID, t_ParentThreadID := Some parentThreadID,
           t_Advisor := Some advisor, t_Status := StatusTerminated, t_Usage := usage,
           t_ModelListCostNanoUSD := listCostNanoUSD, t_ListCostKnown := listCostKnown,
           t_TerminatedAt := Some now, t_CreatedAt := now, t_UpdatedAt := now\<rparr>)"

definition AgentName :: "SessionThread \<Rightarrow> string" where
  "AgentName t = (if t_Advisor t \<noteq> None then AdvisorAgentName else ag_Name (t_Agent t))"

definition ApplyPrimarySessionProjection :: "SessionThread \<Rightarrow> Session \<Rightarrow> SessionThread" where
  "ApplyPrimarySessionProjection t s =
     (let t1 = t\<lparr>t_Agent := s_AgentSnapshot s, t_Status := s_Status s, t_Usage := s_Usage s,
            t_ModelListCostNanoUSD := s_ModelListCostNanoUSD s, t_ListCostKnown := s_ListCostKnown s,
            t_ActiveSeconds := s_ActiveSeconds s, t_RunningSince := s_RunningSince s,
            t_TerminatedAt := s_TerminatedAt s, t_UpdatedAt := s_UpdatedAt s,
            t_ArchivedAt := s_ArchivedAt s\<rparr>
      in if t_ArchivedAt t1 \<noteq> None
         then t1\<lparr>t_Status := StatusTerminated, t_TerminatedAt := t_ArchivedAt t1\<rparr> else t1)"

definition NewPrimarySessionThread :: "string \<Rightarrow> Session \<Rightarrow> SessionThread" where
  "NewPrimarySessionThread i s =
     ApplyPrimarySessionProjection
       (zeroThread\<lparr>t_ID := i, t_SessionID := s_ID s, t_CreatedAt := s_CreatedAt s\<rparr>) s"

definition NewChildSessionThread ::
  "string \<Rightarrow> string \<Rightarrow> string \<Rightarrow> Agent \<Rightarrow> time \<Rightarrow> SessionThread" where
  "NewChildSessionThread i sessionID parentThreadID agent now0 =
     (let now = truncMicros now0
      in zeroThread\<lparr>t_ID := i, t_SessionID := sessionID, t_ParentThreadID := Some parentThreadID,
           t_Agent := agent\<lparr>ag_Multiagent := None\<rparr>, t_Status := StatusIdle, t_ListCostKnown := True,
           t_CreatedAt := now, t_UpdatedAt := now\<rparr>)"

definition Thread_TransitionStatus :: "SessionThread \<Rightarrow> Status \<Rightarrow> time \<Rightarrow> SessionThread" where
  "Thread_TransitionStatus t nxt now =
     (let t1 = (if t_Status t = StatusRunning \<and> nxt \<noteq> StatusRunning then
                  (case t_RunningSince t of
                     Some since \<Rightarrow> t\<lparr>t_ActiveSeconds := float64 (t_ActiveSeconds t + max 0 (seconds (timeSub now since))),
                       t_RunningSince := None\<rparr>
                   | None \<Rightarrow> t)
                else t);
          t2 = (if t_Status t1 \<noteq> StatusRunning \<and> nxt = StatusRunning
                then t1\<lparr>t_RunningSince := Some now\<rparr> else t1);
          t3 = (if nxt = StatusTerminated \<and> t_TerminatedAt t2 = None
                then t2\<lparr>t_TerminatedAt := Some now\<rparr> else t2)
      in t3\<lparr>t_Status := nxt, t_UpdatedAt := now\<rparr>)"

definition ApplyIndependentPrimarySessionProjection :: "SessionThread \<Rightarrow> Session \<Rightarrow> SessionThread" where
  "ApplyIndependentPrimarySessionProjection t s =
     (let t1 = t\<lparr>t_Agent := s_AgentSnapshot s, t_UpdatedAt := s_UpdatedAt s\<rparr>
      in case s_ArchivedAt s of
           None \<Rightarrow> t1
         | Some archivedAt \<Rightarrow>
             (Thread_TransitionStatus t1 StatusTerminated archivedAt)
               \<lparr>t_ArchivedAt := Some archivedAt, t_UpdatedAt := s_UpdatedAt s\<rparr>)"

definition Thread_ObservableStats :: "SessionThread \<Rightarrow> time \<Rightarrow> rat \<times> rat" where
  "Thread_ObservableStats t now =
     (let active = (case t_RunningSince t of
              Some since \<Rightarrow> if t_Status t = StatusRunning
                then float64 (t_ActiveSeconds t + max 0 (seconds (timeSub now since))) else t_ActiveSeconds t
            | None \<Rightarrow> t_ActiveSeconds t);
          end = (case t_TerminatedAt t of Some e \<Rightarrow> e
                 | None \<Rightarrow> (case t_ArchivedAt t of Some e \<Rightarrow> e | None \<Rightarrow> now))
      in (active, max 0 (seconds (timeSub end (t_CreatedAt t)))))"

section \<open>The status of a Session with several Threads (internal/pg/thread_completion.go)\<close>

text \<open>The loop over the rows of the Threads that are not archived, with its early return.\<close>

fun aggregateRows :: "bool \<Rightarrow> bool \<Rightarrow> Status list \<Rightarrow> Status" where
  "aggregateRows allTerminated hasRescheduling [] =
     (if hasRescheduling then StatusRescheduling
      else if allTerminated then StatusTerminated else StatusIdle)"
| "aggregateRows allTerminated hasRescheduling (st # rows) =
     (if st = StatusRunning then StatusRunning
      else aggregateRows (allTerminated \<and> st = StatusTerminated)
             (hasRescheduling \<or> st = StatusRescheduling) rows)"

definition aggregateSessionThreadStatus :: "SessionThread list \<Rightarrow> string \<Rightarrow> Status" where
  "aggregateSessionThreadStatus threads sessionID =
     aggregateRows True False
       (map t_Status (filter (\<lambda>t. t_SessionID t = sessionID \<and> t_ArchivedAt t = None) threads))"

section \<open>The timing contract\<close>

text \<open>
  Sessions and Threads keep the same clock: time spent running is accumulated when running ends,
  and the live suffix is added on reading. The laws name the state only through its readers.
\<close>

text \<open>
  A run of status changes at given times, legal when the times do not decrease and the table of
  transitions allows every step; \<open>runEnd\<close> is the time it ends.
\<close>

fun clockRun :: "('s \<Rightarrow> Status \<Rightarrow> time \<Rightarrow> 's) \<Rightarrow> 's \<Rightarrow> (Status \<times> time) list \<Rightarrow> 's" where
  "clockRun tr s [] = s"
| "clockRun tr s ((n, t) # steps) = clockRun tr (tr s n t) steps"

fun legalRun :: "Status \<Rightarrow> time \<Rightarrow> (Status \<times> time) list \<Rightarrow> bool" where
  "legalRun st t [] = True"
| "legalRun st t ((n, t') # steps) = (t \<le> t' \<and> CanTransitionTo st n \<and> legalRun n t' steps)"

fun runEnd :: "time \<Rightarrow> (Status \<times> time) list \<Rightarrow> time" where
  "runEnd t [] = t"
| "runEnd t ((n, t') # steps) = runEnd t' steps"

lemma runEnd_le: "legalRun st t steps \<Longrightarrow> t \<le> runEnd t steps"
  by (induction st t steps rule: legalRun.induct) auto

locale status_clock =
  fixes transition :: "'s \<Rightarrow> Status \<Rightarrow> time \<Rightarrow> 's"
    and status :: "'s \<Rightarrow> Status" and active :: "'s \<Rightarrow> rat" and since :: "'s \<Rightarrow> time option"
    and terminated :: "'s \<Rightarrow> time option" and created :: "'s \<Rightarrow> time"
    and archived :: "'s \<Rightarrow> time option" and observe :: "'s \<Rightarrow> time \<Rightarrow> rat \<times> rat"
  assumes status_transition: "status (transition s n t) = n"
    and active_transition: "active (transition s n t) =
      (if status s = StatusRunning \<and> n \<noteq> StatusRunning
       then (case since s of Some b \<Rightarrow> float64 (active s + max 0 (seconds (timeSub t b))) | None \<Rightarrow> active s)
       else active s)"
    and since_transition: "since (transition s n t) =
      (if status s = StatusRunning \<and> n \<noteq> StatusRunning then None
       else if status s \<noteq> StatusRunning \<and> n = StatusRunning then Some t else since s)"
    and terminated_transition: "terminated (transition s n t) =
      (if n = StatusTerminated \<and> terminated s = None then Some t else terminated s)"
    and created_transition: "created (transition s n t) = created s"
    and archived_transition: "archived (transition s n t) = archived s"
    and observe_active: "fst (observe s t) =
      (case since s of
         Some b \<Rightarrow> if status s = StatusRunning then float64 (active s + max 0 (seconds (timeSub t b))) else active s
       | None \<Rightarrow> active s)"
    and observe_duration: "archived s = None \<Longrightarrow> snd (observe s t) =
      max 0 (seconds (timeSub (case terminated s of Some e \<Rightarrow> e | None \<Rightarrow> t) (created s)))"
begin

text \<open>Running exactly while the start of the current run is recorded.\<close>

definition clockOk :: "'s \<Rightarrow> bool" where
  "clockOk s \<longleftrightarrow> (status s = StatusRunning \<longleftrightarrow> since s \<noteq> None)
     \<and> (status s = StatusTerminated \<longleftrightarrow> terminated s \<noteq> None)"

lemma clockOk_transition:
  assumes "clockOk s" "CanTransitionTo (status s) n"
  shows "clockOk (transition s n t)"
proof -
  have "terminated s = None" using assms by (cases "status s") (auto simp: clockOk_def)
  with assms show ?thesis
    by (cases "status s"; cases n)
      (auto simp: clockOk_def status_transition since_transition terminated_transition)
qed

lemma observe_continuous:
  assumes "status s = StatusRunning \<longleftrightarrow> since s \<noteq> None" and "float64 (active s) = active s"
  shows "fst (observe (transition s n t) t) = fst (observe s t)"
  using assms
  by (cases "since s"; cases "status s"; cases n)
    (simp_all add: observe_active status_transition active_transition since_transition)

lemma observe_mono: "t \<le> t' \<Longrightarrow> fst (observe s t) \<le> fst (observe s t')"
proof -
  assume "t \<le> t'"
  then have "max 0 (seconds (timeSub t b)) \<le> max 0 (seconds (timeSub t' b))" for b
    by (intro seconds_mono timeSub_mono)
  then show ?thesis by (auto simp: observe_active intro!: float64_mono split: option.splits)
qed

text \<open>
  Accumulated running time exceeds the time since creation by rounding only, one rounding for every change \<open>k\<close>.
\<close>

definition clockBound :: "'s \<Rightarrow> time \<Rightarrow> nat \<Rightarrow> bool" where
  "clockBound s t k \<longleftrightarrow> created s \<le> t \<and> clockOk s \<and> 0 \<le> active s
     \<and> (case (since s, terminated s) of
          (Some b, _) \<Rightarrow> created s \<le> b \<and> b \<le> t \<and> active s \<le> ulpUp ^ (k + 2) * exactSeconds (b - created s)
        | (None, Some e) \<Rightarrow> created s \<le> e \<and> e \<le> t \<and> active s \<le> ulpUp ^ (k + 2) * exactSeconds (e - created s)
        | (None, None) \<Rightarrow> active s \<le> ulpUp ^ (k + 2) * exactSeconds (t - created s))"

lemma timeSub_exact: "0 \<le> a - b \<Longrightarrow> a - b \<le> durationMax \<Longrightarrow> timeSub a b = a - b"
  by (simp add: timeSub_def durationMin_def)

lemma live_suffix:
  assumes "created s \<le> b" "b \<le> t" "0 \<le> active s" "active s \<le> ulpUp ^ (k + 2) * exactSeconds (b - created s)"
    "t - created s \<le> durationMax"
  shows "float64 (active s + max 0 (seconds (timeSub t b))) \<le> ulpUp ^ (k + 3) * exactSeconds (t - created s)"
    "0 \<le> float64 (active s + max 0 (seconds (timeSub t b)))"
proof -
  have "timeSub t b = t - b" using assms by (intro timeSub_exact) auto
  moreover have "0 \<le> seconds (t - b)" using assms by simp
  ultimately have e: "active s + max 0 (seconds (timeSub t b)) = active s + seconds (t - b)" by simp
  show "float64 (active s + max 0 (seconds (timeSub t b))) \<le> ulpUp ^ (k + 3) * exactSeconds (t - created s)"
    using accumulated_seconds [OF assms(3,4), of "t - b"] assms(1,2) unfolding e by simp
  show "0 \<le> float64 (active s + max 0 (seconds (timeSub t b)))" by (rule float64_nonneg) (use assms(3) in simp)
qed

lemma clockBound_transition:
  assumes "clockBound s t k" "t \<le> t'" "t' - created s \<le> durationMax" "CanTransitionTo (status s) n"
  shows "clockBound (transition s n t') t' (Suc k)"
proof -
  have ok: "clockOk s" and c: "created s \<le> t" "0 \<le> active s" using assms(1) by (auto simp: clockBound_def)
  have okn: "clockOk (transition s n t')" by (rule clockOk_transition [OF ok assms(4)])
  have nt: "terminated s = None" using assms(4) ok by (cases "status s") (auto simp: clockOk_def)
  have k: "Suc k + 2 = k + 3" by simp
  show ?thesis
  proof (cases "since s")
    case (Some b)
    then have run: "status s = StatusRunning" using ok by (simp add: clockOk_def)
    then have n: "n \<noteq> StatusRunning" using assms(4) by auto
    have b: "created s \<le> b" "b \<le> t'" "active s \<le> ulpUp ^ (k + 2) * exactSeconds (b - created s)"
      using assms(1,2) Some by (auto simp: clockBound_def)
    note live = live_suffix [OF b(1,2) c(2) b(3) assms(3)]
    show ?thesis unfolding clockBound_def k
      using n run Some okn c assms(2) live
      by (auto simp: active_transition since_transition terminated_transition created_transition nt
          simp del: One_nat_def)
  next
    case None
    then have run: "status s \<noteq> StatusRunning" using ok by (simp add: clockOk_def)
    have "active s \<le> ulpUp ^ (k + 2) * exactSeconds (t - created s)"
      using assms(1) None nt by (auto simp: clockBound_def)
    then have "active s \<le> ulpUp ^ (k + 3) * exactSeconds (t' - created s)"
      by (rule later_seconds) (use c assms(2) in auto)
    then show ?thesis unfolding clockBound_def k using run None okn assms(2) c
      by (auto simp: active_transition since_transition terminated_transition created_transition nt)
  qed
qed

lemma observe_bounded:
  assumes "clockBound s t k" "t \<le> now" "now - created s \<le> durationMax" "archived s = None"
  shows "fst (observe s now) \<le> (1 + epsilon) ^ (k + 5) * snd (observe s now)"
proof -
  have ok: "clockOk s" and c: "created s \<le> t" "0 \<le> active s" using assms(1) by (auto simp: clockBound_def)
  have five: "k + 3 + 2 = k + 5" by simp
  have reported: "fst (observe s now) \<le> (1 + epsilon) ^ (k + 5) * snd (observe s now)"
    if "fst (observe s now) \<le> ulpUp ^ (k + 3) * exactSeconds (e - created s)" "created s \<le> e" "e \<le> now"
      "e = (case terminated s of Some e \<Rightarrow> e | None \<Rightarrow> now)" for e
  proof -
    have "timeSub e (created s) = e - created s" using that(2,3) assms(3) by (intro timeSub_exact) auto
    moreover have "0 \<le> seconds (e - created s)" using that(2) by simp
    ultimately have "snd (observe s now) = seconds (e - created s)"
      using that(4) observe_duration [OF assms(4), of now] by simp
    with reported_seconds [OF that(1)] that(2) show ?thesis unfolding five by simp
  qed
  show ?thesis
  proof (cases "since s")
    case (Some b)
    then have run: "status s = StatusRunning" "terminated s = None"
      using ok by (auto simp: clockOk_def)
    have b: "created s \<le> b" "b \<le> now" "active s \<le> ulpUp ^ (k + 2) * exactSeconds (b - created s)"
      using assms(1,2) Some by (auto simp: clockBound_def)
    from live_suffix(1) [OF b(1,2) c(2) b(3) assms(3)] show ?thesis
      using Some run c(1) assms(2) by (intro reported [of now]) (simp_all add: observe_active)
  next
    case None
    then have still: "fst (observe s now) = active s" by (simp add: observe_active)
    show ?thesis
    proof (cases "terminated s")
      case (Some e)
      have e: "created s \<le> e" "e \<le> t" "active s \<le> ulpUp ^ (k + 2) * exactSeconds (e - created s)"
        using assms(1) None Some by (auto simp: clockBound_def)
      have "active s \<le> ulpUp ^ (k + 3) * exactSeconds (e - created s)"
        by (rule later_seconds [OF e(3)]) (use e in auto)
      then show ?thesis using e Some assms(2) by (intro reported [of e]) (simp_all add: still)
    next
      case None': None
      have "active s \<le> ulpUp ^ (k + 2) * exactSeconds (t - created s)"
        using assms(1) None None' by (auto simp: clockBound_def)
      then have "active s \<le> ulpUp ^ (k + 3) * exactSeconds (now - created s)"
        by (rule later_seconds) (use c assms(2) in auto)
      then show ?thesis using c assms(2) None' by (intro reported [of now]) (simp_all add: still)
    qed
  qed
qed

lemma clockBound_run:
  "clockBound s t k \<Longrightarrow> legalRun (status s) t steps \<Longrightarrow> runEnd t steps - created s \<le> durationMax \<Longrightarrow>
     clockBound (clockRun transition s steps) (runEnd t steps) (k + length steps)
     \<and> created (clockRun transition s steps) = created s
     \<and> archived (clockRun transition s steps) = archived s"
proof (induction steps arbitrary: s t k)
  case (Cons x steps)
  obtain n t' where x: "x = (n, t')" by (cases x)
  have le: "t \<le> t'" "CanTransitionTo (status s) n" "legalRun n t' steps" using Cons.prems(2) x by auto
  have "t' \<le> runEnd t' steps" using le(3) by (rule runEnd_le)
  then have "clockBound (transition s n t') t' (Suc k)"
    using clockBound_transition [OF Cons.prems(1) le(1) _ le(2)] Cons.prems(3) x by simp
  from Cons.IH [OF this] le(3) Cons.prems(3) x show ?case
    by (simp add: status_transition created_transition archived_transition)
qed simp

lemma run_active_bounded:
  assumes "clockBound s t 0" "legalRun (status s) t steps" "runEnd t steps \<le> now"
    "now - created s \<le> durationMax" "archived s = None"
  shows "fst (observe (clockRun transition s steps) now)
    \<le> (1 + epsilon) ^ (length steps + 5) * snd (observe (clockRun transition s steps) now)"
proof -
  have "runEnd t steps - created s \<le> durationMax" using assms(3,4) by simp
  from clockBound_run [OF assms(1,2) this] show ?thesis
    using observe_bounded [of _ _ "length steps"] assms(3-5) by (metis add_0)
qed

end

lemma TransitionStatus_fields:
  "s_Status (TransitionStatus s n t) = n"
  "s_ActiveSeconds (TransitionStatus s n t) =
     (if s_Status s = StatusRunning \<and> n \<noteq> StatusRunning
      then (case s_RunningSince s of Some b \<Rightarrow> float64 (s_ActiveSeconds s + max 0 (seconds (timeSub t b)))
            | None \<Rightarrow> s_ActiveSeconds s)
      else s_ActiveSeconds s)"
  "s_RunningSince (TransitionStatus s n t) =
     (if s_Status s = StatusRunning \<and> n \<noteq> StatusRunning then None
      else if s_Status s \<noteq> StatusRunning \<and> n = StatusRunning then Some t else s_RunningSince s)"
  "s_TerminatedAt (TransitionStatus s n t) =
     (if n = StatusTerminated \<and> s_TerminatedAt s = None then Some t else s_TerminatedAt s)"
  "s_CreatedAt (TransitionStatus s n t) = s_CreatedAt s"
  by (auto simp: TransitionStatus_def Let_def split: option.splits)

lemma Thread_TransitionStatus_fields:
  "t_Status (Thread_TransitionStatus s n t) = n"
  "t_ActiveSeconds (Thread_TransitionStatus s n t) =
     (if t_Status s = StatusRunning \<and> n \<noteq> StatusRunning
      then (case t_RunningSince s of Some b \<Rightarrow> float64 (t_ActiveSeconds s + max 0 (seconds (timeSub t b)))
            | None \<Rightarrow> t_ActiveSeconds s)
      else t_ActiveSeconds s)"
  "t_RunningSince (Thread_TransitionStatus s n t) =
     (if t_Status s = StatusRunning \<and> n \<noteq> StatusRunning then None
      else if t_Status s \<noteq> StatusRunning \<and> n = StatusRunning then Some t else t_RunningSince s)"
  "t_TerminatedAt (Thread_TransitionStatus s n t) =
     (if n = StatusTerminated \<and> t_TerminatedAt s = None then Some t else t_TerminatedAt s)"
  "t_CreatedAt (Thread_TransitionStatus s n t) = t_CreatedAt s"
  "t_ArchivedAt (Thread_TransitionStatus s n t) = t_ArchivedAt s"
  by (auto simp: Thread_TransitionStatus_def Let_def split: option.splits)

interpretation session_clock: status_clock TransitionStatus s_Status s_ActiveSeconds s_RunningSince
  s_TerminatedAt s_CreatedAt "\<lambda>_. None" ObservableStats
  by unfold_locales (simp_all only: TransitionStatus_fields, simp_all add: ObservableStats_def Let_def)

interpretation thread_clock: status_clock Thread_TransitionStatus t_Status t_ActiveSeconds t_RunningSince
  t_TerminatedAt t_CreatedAt t_ArchivedAt Thread_ObservableStats
  by unfold_locales (simp_all only: Thread_TransitionStatus_fields,
      simp_all add: Thread_ObservableStats_def Let_def split: option.splits)

text \<open>
  C33. Active time exceeds elapsed time by rounding only: over every sequence of status changes that the transition
  table allows, at non-decreasing times within the 292 years of a Go duration, a Session that starts idle with no active
  time reports at every later moment no more active seconds than its duration, up to a relative error of one double
  spacing (two to the minus 52) for each change and five more; and an unarchived Thread does too.
\<close>

theorem active_within_duration:
  assumes "s_Status s = StatusIdle" and "s_RunningSince s = None" and "s_TerminatedAt s = None"
    and "s_ActiveSeconds s = 0"
    and "legalRun StatusIdle (s_CreatedAt s) steps" and "runEnd (s_CreatedAt s) steps \<le> now"
    and "now - s_CreatedAt s \<le> durationMax" and "s_ArchivedAt s = None"
  shows "(case ObservableStats (clockRun TransitionStatus s steps) now of
       (active, duration) \<Rightarrow> active \<le> (1 + 1 / 2 ^ 52) ^ (length steps + 5) * duration)
    \<and> (case Thread_ObservableStats (clockRun Thread_TransitionStatus (NewPrimarySessionThread i s) steps) now of
         (active, duration) \<Rightarrow> active \<le> (1 + 1 / 2 ^ 52) ^ (length steps + 5) * duration)"
proof -
  have zero: "exactSeconds 0 = 0" by (simp add: exactSeconds_def)
  have "session_clock.clockBound s (s_CreatedAt s) 0"
    using assms by (simp add: session_clock.clockBound_def session_clock.clockOk_def zero)
  note 1 = session_clock.run_active_bounded [OF this, of steps now]
  let ?t = "NewPrimarySessionThread i s"
  have t: "t_CreatedAt ?t = s_CreatedAt s" "t_Status ?t = StatusIdle" "t_ArchivedAt ?t = None"
    using assms by (simp_all add: NewPrimarySessionThread_def ApplyPrimarySessionProjection_def Let_def)
  have "thread_clock.clockBound ?t (s_CreatedAt s) 0"
    using assms by (simp add: thread_clock.clockBound_def thread_clock.clockOk_def
        NewPrimarySessionThread_def ApplyPrimarySessionProjection_def Let_def zero)
  note 2 = thread_clock.run_active_bounded [OF this, of steps now]
  show ?thesis unfolding case_prod_beta
    by (rule conjI) (rule 1 2; use assms t in \<open>simp only: refl\<close>)+
qed

definition sampleSession :: Session where
  "sampleSession = \<lparr>s_WorkspaceID = ''ws'', s_ID = ''sesn_1'', s_AgentID = ''agent_1'', s_AgentVersion = 3,
     s_EnvironmentID = ''env_1'', s_DeploymentID = None, s_EnvironmentType = ''cloud'',
     s_EnvironmentConfig = None, s_Status = StatusIdle, s_Title = ''t'', s_Metadata = None,
     s_AgentSnapshot = sampleAgent, s_MultiagentRoster = [sampleAgent], s_Usage = zeroUsage,
     s_ModelListCostNanoUSD = 0, s_ListCostKnown = True, s_Budget = Some \<lparr>MaxListCostCents = 5\<rparr>,
     s_Outcomes = [], s_Resources = [], s_VaultIDs = [], s_ActiveSeconds = 0, s_RunningSince = None,
     s_TerminatedAt = None, s_CreatedAt = 0, s_UpdatedAt = 0, s_ArchivedAt = None\<rparr>"

theorem active_within_duration_witness:
  "(case ObservableStats (clockRun TransitionStatus sampleSession
        [(StatusRunning, 5), (StatusIdle, 9), (StatusRunning, 12)]) 20 of
       (active, duration) \<Rightarrow> active \<le> (1 + 1 / 2 ^ 52) ^ 8 * duration)
    \<and> (case Thread_ObservableStats (clockRun Thread_TransitionStatus (NewPrimarySessionThread ''i'' sampleSession)
        [(StatusRunning, 5), (StatusIdle, 9), (StatusRunning, 12)]) 20 of
       (active, duration) \<Rightarrow> active \<le> (1 + 1 / 2 ^ 52) ^ 8 * duration)"
  using active_within_duration [of sampleSession "[(StatusRunning, 5), (StatusIdle, 9), (StatusRunning, 12)]" 20 "''i''"]
  by (simp add: sampleSession_def durationMax_def)

text \<open>
  Rounding does exceed: a Session that runs for a tenth and then two tenths of a second without a pause reports more
  active than elapsed time.
\<close>

lemma active_exceeds_duration:
  "snd (ObservableStats (clockRun TransitionStatus sampleSession
        [(StatusRunning, 0), (StatusIdle, 100000000), (StatusRunning, 100000000), (StatusIdle, 300000000)]) 300000000)
   < fst (ObservableStats (clockRun TransitionStatus sampleSession
        [(StatusRunning, 0), (StatusIdle, 100000000), (StatusRunning, 100000000), (StatusIdle, 300000000)]) 300000000)"
  using tenths_exceed
  by (simp add: sampleSession_def TransitionStatus_def ObservableStats_def timeSub_def durationMax_def durationMin_def max_def)

text \<open>
  No running time is lost or counted twice at a status change: read at the moment of the
  change, the active seconds of a Session are the same before and after it, whichever states it
  leaves and enters, and likewise for a Thread.
\<close>

theorem transition_keeps_active_time:
  assumes "s_Status s = StatusRunning \<longleftrightarrow> s_RunningSince s \<noteq> None"
    and "t_Status t = StatusRunning \<longleftrightarrow> t_RunningSince t \<noteq> None"
    and "float64 (s_ActiveSeconds s) = s_ActiveSeconds s" "float64 (t_ActiveSeconds t) = t_ActiveSeconds t"
  shows "fst (ObservableStats (TransitionStatus s nxt now) now) = fst (ObservableStats s now)
    \<and> fst (Thread_ObservableStats (Thread_TransitionStatus t nxt now) now) = fst (Thread_ObservableStats t now)"
  using session_clock.observe_continuous [OF assms(1,3)] thread_clock.observe_continuous [OF assms(2,4)]
  by blast

theorem transition_keeps_active_time_witness:
  "let s = TransitionStatus sampleSession StatusRunning 5; t = NewPrimarySessionThread ''i'' s
   in fst (ObservableStats (TransitionStatus s StatusIdle 9) 9) = fst (ObservableStats s 9)
      \<and> fst (Thread_ObservableStats (Thread_TransitionStatus t StatusIdle 9) 9) = fst (Thread_ObservableStats t 9)"
  unfolding Let_def
  by (rule transition_keeps_active_time)
    (simp_all add: TransitionStatus_fields NewPrimarySessionThread_def ApplyPrimarySessionProjection_def
      sampleSession_def TransitionStatus_def Let_def)

section \<open>Updates\<close>

lemma session_self [simp]:
  "\<exists>x. n = n\<lparr>s_Title := x\<rparr>" "\<exists>x. n = n\<lparr>s_Metadata := x\<rparr>" "\<exists>x. n = n\<lparr>s_Budget := x\<rparr>"
  "\<exists>x y. n = n\<lparr>s_AgentSnapshot := x, s_MultiagentRoster := y\<rparr>" for n :: Session
  by (rule exI [of _ "s_Title n"], simp) (rule exI [of _ "s_Metadata n"], simp, rule exI [of _ "s_Budget n"],
    simp, rule exI [of _ "s_AgentSnapshot n"], rule exI [of _ "s_MultiagentRoster n"], simp)

lemma applyTitle_frame:
  "applyTitle s u = (n, c) \<Longrightarrow> (\<exists>x. n = s\<lparr>s_Title := x\<rparr>) \<and> (\<not> c \<longrightarrow> n = s)"
  by (auto simp: applyTitle_def split: option.splits if_splits)

lemma applyMetadata_frame:
  "applyMetadata s u = Inr (n, c) \<Longrightarrow> (\<exists>x. n = s\<lparr>s_Metadata := x\<rparr>) \<and> (\<not> c \<longrightarrow> n = s)"
  by (auto simp: applyMetadata_def Let_def bindE_Inr_iff split: option.splits if_splits)

lemma applyBudget_frame:
  "applyBudget s u = Inr (n, c) \<Longrightarrow>
     (\<exists>x. n = s\<lparr>s_Budget := x\<rparr>) \<and> (\<not> c \<longrightarrow> n = s) \<and> (s_Budget s = None \<longrightarrow> s_Budget n = None)"
  by (auto simp: applyBudget_def split: option.splits if_splits)

definition sameExceptTools :: "Agent \<Rightarrow> Agent \<Rightarrow> bool" where
  "sameExceptTools a b \<longleftrightarrow> b\<lparr>ag_Tools := ag_Tools a, ag_MCPServers := ag_MCPServers a\<rparr> = a"

lemma applyAgent_frame:
  assumes "applyAgent errText parseURL parseAddr s u = Inr (n, c)"
  shows "(\<exists>x y. n = s\<lparr>s_AgentSnapshot := x, s_MultiagentRoster := y\<rparr>)
    \<and> (\<not> c \<longrightarrow> n = s) \<and> sameExceptTools (s_AgentSnapshot s) (s_AgentSnapshot n)
    \<and> list_all2 (\<lambda>a b. sameExceptTools a b \<and> (ag_ID a \<noteq> s_AgentID s \<longrightarrow> a = b))
        (s_MultiagentRoster s) (s_MultiagentRoster n)"
  using assms
  by (auto simp: applyAgent_def Let_def sameExceptTools_def list_all2_map2 list.rel_refl
      split: sum.splits if_splits)

lemma ApplyUpdate_parts:
  assumes "ApplyUpdate errText parseURL parseAddr s u = Inr (n, ch)"
  obtains s1 s2 s3 where "applyTitle s u = (s1, ch_Title ch)" "applyMetadata s1 u = Inr (s2, ch_Metadata ch)"
    "applyAgent errText parseURL parseAddr s2 u = Inr (s3, ch_Agent ch)" "applyBudget s3 u = Inr (n, ch_Budget ch)"
  using assms by (auto simp: ApplyUpdate_def bindE_Inr_iff split: prod.splits)

text \<open>
  A Session update touches only what it names: identity, status, usage, timing, resources and
  Vaults stay as they are, the Agent snapshot keeps everything but its tools and servers, only
  the roster entries that are the Session's own Agent follow it, a budget is never introduced,
  and an update that reports no change is the identity.
\<close>

theorem session_update_frame:
  assumes "ApplyUpdate errText parseURL parseAddr s u = Inr (n, ch)"
  shows "n\<lparr>s_Title := s_Title s, s_Metadata := s_Metadata s, s_AgentSnapshot := s_AgentSnapshot s,
      s_MultiagentRoster := s_MultiagentRoster s, s_Budget := s_Budget s\<rparr> = s
    \<and> sameExceptTools (s_AgentSnapshot s) (s_AgentSnapshot n)
    \<and> list_all2 (\<lambda>a b. sameExceptTools a b \<and> (ag_ID a \<noteq> s_AgentID s \<longrightarrow> a = b))
        (s_MultiagentRoster s) (s_MultiagentRoster n)
    \<and> (s_Budget s = None \<longrightarrow> s_Budget n = None)
    \<and> (\<not> SessionChange_Any ch \<longrightarrow> n = s)"
proof -
  obtain s1 s2 s3 where st: "applyTitle s u = (s1, ch_Title ch)" "applyMetadata s1 u = Inr (s2, ch_Metadata ch)"
    "applyAgent errText parseURL parseAddr s2 u = Inr (s3, ch_Agent ch)" "applyBudget s3 u = Inr (n, ch_Budget ch)"
    using assms by (rule ApplyUpdate_parts)
  obtain x1 where s1: "s1 = s\<lparr>s_Title := x1\<rparr>" "\<not> ch_Title ch \<longrightarrow> s1 = s"
    using applyTitle_frame [OF st(1)] by blast
  obtain x2 where s2: "s2 = s1\<lparr>s_Metadata := x2\<rparr>" "\<not> ch_Metadata ch \<longrightarrow> s2 = s1"
    using applyMetadata_frame [OF st(2)] by blast
  obtain x3 y3 where s3: "s3 = s2\<lparr>s_AgentSnapshot := x3, s_MultiagentRoster := y3\<rparr>"
    "\<not> ch_Agent ch \<longrightarrow> s3 = s2" "sameExceptTools (s_AgentSnapshot s2) (s_AgentSnapshot s3)"
    "list_all2 (\<lambda>a b. sameExceptTools a b \<and> (ag_ID a \<noteq> s_AgentID s2 \<longrightarrow> a = b))
      (s_MultiagentRoster s2) (s_MultiagentRoster s3)"
    using applyAgent_frame [OF st(3)] by blast
  obtain x4 where s4: "n = s3\<lparr>s_Budget := x4\<rparr>" "\<not> ch_Budget ch \<longrightarrow> n = s3"
    "s_Budget s3 = None \<longrightarrow> s_Budget n = None"
    using applyBudget_frame [OF st(4)] by (elim conjE exE) (rule that)
  have noop: "\<not> SessionChange_Any ch \<longrightarrow> n = s"
    using s1(2) s2(2) s3(2) s4(2) by (simp add: SessionChange_Any_def)
  have budget: "s_Budget s = None \<longrightarrow> s_Budget n = None"
    using s4(3) by (simp add: s3(1) s2(1) s1(1))
  have n: "n = s\<lparr>s_Title := x1, s_Metadata := x2, s_AgentSnapshot := x3, s_MultiagentRoster := y3,
      s_Budget := x4\<rparr>"
    by (simp add: s4(1) s3(1) s2(1) s1(1))
  have frame: "n\<lparr>s_Title := s_Title s, s_Metadata := s_Metadata s, s_AgentSnapshot := s_AgentSnapshot s,
      s_MultiagentRoster := s_MultiagentRoster s, s_Budget := s_Budget s\<rparr> = s"
    by (simp add: n)
  have eqs: "s_AgentSnapshot s2 = s_AgentSnapshot s" "s_MultiagentRoster s2 = s_MultiagentRoster s"
    "s_AgentID s2 = s_AgentID s" "s_AgentSnapshot s3 = s_AgentSnapshot n"
    "s_MultiagentRoster s3 = s_MultiagentRoster n"
    by (simp_all add: s4(1) s3(1) s2(1) s1(1))
  from frame s3(3,4) [unfolded eqs] budget noop show ?thesis by blast
qed

theorem session_update_frame_witness:
  "\<exists>n ch. ApplyUpdate (\<lambda>_. []) sampleParseURL (\<lambda>_. None) sampleSession
      \<lparr>su_Title = Some ''new'', su_Metadata = None, su_AgentTools = None, su_AgentMCPServers = None,
       su_Budget = Some \<lparr>sbu_Budget = None\<rparr>\<rparr> = Inr (n, ch)
    \<and> s_MultiagentRoster n = [sampleAgent] \<and> s_Status n = StatusIdle"
proof -
  obtain n ch where r: "ApplyUpdate (\<lambda>_. []) sampleParseURL (\<lambda>_. None) sampleSession
      \<lparr>su_Title = Some ''new'', su_Metadata = None, su_AgentTools = None, su_AgentMCPServers = None,
       su_Budget = Some \<lparr>sbu_Budget = None\<rparr>\<rparr> = Inr (n, ch)"
    and n: "s_MultiagentRoster n = [sampleAgent]"
    by (simp add: ApplyUpdate_def applyTitle_def applyMetadata_def applyAgent_def applyBudget_def
        sampleSession_def TouchesAgent_def)
  have "s_Status (n\<lparr>s_Title := s_Title sampleSession, s_Metadata := s_Metadata sampleSession,
      s_AgentSnapshot := s_AgentSnapshot sampleSession,
      s_MultiagentRoster := s_MultiagentRoster sampleSession, s_Budget := s_Budget sampleSession\<rparr>) = StatusIdle"
    using session_update_frame [OF r] by (simp add: sampleSession_def)
  with r n show ?thesis by auto
qed

interpretation session_bag: metadata_patch "\<lambda>m p. Some (mergeMetadata (bagOf m) p)" "\<lambda>v. v = JNull"
proof
  fix p m k
  have eq: "Some (mergeMetadata x p) = patchBag (\<lambda>v. v = JNull) (Some x) p" for x p
    by (induction x p rule: mergeMetadata.induct) auto
  show "wfmap p \<Longrightarrow> bagGet (Some (mergeMetadata (bagOf m) p)) k =
     (case map_of p k of None \<Rightarrow> bagGet m k | Some v \<Rightarrow> if v = JNull then None else Some v)"
    unfolding eq by (simp only: patchBag_get) (cases m; simp add: bagOf_def split: option.splits)
qed

text \<open>
  A Session's metadata stays within the public limits and follows the patch: after a
  successful update with a metadata patch, every key reads as the patch says (a null deletes it)
  or as before, and the bag that is stored has at most 16 keys, all with short string values.
\<close>

theorem session_metadata_update:
  assumes "ApplyUpdate errText parseURL parseAddr s u = Inr (n, ch)" and "su_Metadata u = Some patch"
    and "wfmap patch" and "ch_Metadata ch"
  shows "bagGet (s_Metadata n) k =
      (case map_of patch k of None \<Rightarrow> bagGet (s_Metadata s) k | Some v \<Rightarrow> if v = JNull then None else Some v)
    \<and> length (bagOf (s_Metadata n)) \<le> 16
    \<and> list_all (\<lambda>(k, v). runeCount k \<le> 64 \<and> (case v of JStr x \<Rightarrow> runeCount x \<le> 512 | _ \<Rightarrow> False))
        (bagOf (s_Metadata n))"
proof -
  obtain s1 s2 s3 where st: "applyTitle s u = (s1, ch_Title ch)" "applyMetadata s1 u = Inr (s2, ch_Metadata ch)"
    "applyAgent errText parseURL parseAddr s2 u = Inr (s3, ch_Agent ch)" "applyBudget s3 u = Inr (n, ch_Budget ch)"
    using assms(1) by (rule ApplyUpdate_parts)
  have s1: "s_Metadata s1 = s_Metadata s" using applyTitle_frame [OF st(1)] by auto
  have n: "s_Metadata n = s_Metadata s2"
    using applyAgent_frame [OF st(3)] applyBudget_frame [OF st(4)] by auto
  let ?m = "mergeMetadata (bagOf (s_Metadata s1)) patch"
  have v: "ValidateMetadata ?m = Inr ()" and s2: "s_Metadata s2 = Some ?m"
    using st(2) assms(2,4) by (auto simp: applyMetadata_def Let_def bindE_Inr_iff split: if_splits)
  have "length ?m \<le> 16 \<and> list_all (\<lambda>(k, v). runeCount k \<le> 64 \<and> (case v of JStr x \<Rightarrow> runeCount x \<le> 512 | _ \<Rightarrow> False)) ?m"
    using v by (auto simp: ValidateMetadata_def MaxMetadataKeys_def validateEntries_ok list_all_iff split: if_splits)
  then show ?thesis
    using session_bag.patch_get [OF assms(3), of "s_Metadata s" k] by (simp add: n s2 s1 bagOf_def)
qed

theorem session_metadata_update_witness:
  "\<exists>n ch. ApplyUpdate (\<lambda>_. []) sampleParseURL (\<lambda>_. None) (sampleSession\<lparr>s_Metadata := Some [(''a'', JStr ''1'')]\<rparr>)
      \<lparr>su_Title = None, su_Metadata = Some [(''a'', JNull), (''b'', JStr ''2'')], su_AgentTools = None,
       su_AgentMCPServers = None, su_Budget = None\<rparr> = Inr (n, ch)
    \<and> bagGet (s_Metadata n) ''a'' = None"
proof -
  obtain n ch where r: "ApplyUpdate (\<lambda>_. []) sampleParseURL (\<lambda>_. None)
      (sampleSession\<lparr>s_Metadata := Some [(''a'', JStr ''1'')]\<rparr>)
      \<lparr>su_Title = None, su_Metadata = Some [(''a'', JNull), (''b'', JStr ''2'')], su_AgentTools = None,
       su_AgentMCPServers = None, su_Budget = None\<rparr> = Inr (n, ch)"
    and ch: "ch_Metadata ch"
    by (simp add: ApplyUpdate_def applyTitle_def applyMetadata_def applyAgent_def applyBudget_def
        sampleSession_def TouchesAgent_def bagOf_def ValidateMetadata_def MaxMetadataKeys_def
        MaxMetadataKeyRunes_def MaxMetadataValueRunes_def metadataEqual_def go_eval)
  from session_metadata_update [OF r _ _ ch, of _ "''a''"] r show ?thesis
    by (auto simp: wfmap_def)
qed

section \<open>Budgets, outcomes and aggregation\<close>

text \<open>
  C32. The budget stop is exact and permanent, for a Session whose list cost is known (an unknown cost counts as out of
  budget at once), under a ceiling the API accepts, while its model cost is, and at the later time its runtime cost is,
  at most four billion dollars: it counts as out of budget exactly when its model cost plus its runtime cost has
  reached the ceiling as integers, and if it has been reached it stays reached at every later time while nothing else
  changes. The runtime cost is that of the active seconds as the code computes it, in rounded doubles.
\<close>

theorem budget_stop_exact:
  assumes "s_Budget s = Some b" and "s_ListCostKnown s"
    and "0 \<le> MaxListCostCents b" and "MaxListCostCents b \<le> maxBudgetCents"
    and "0 \<le> s_ModelListCostNanoUSD s" and "s_ModelListCostNanoUSD s \<le> 4 * 10 ^ 18"
    and "RuntimeListCostNanoUSD (fst (ObservableStats s later)) \<le> 4 * 10 ^ 18" and "now \<le> later"
  shows "BudgetReached s now = (MaxListCostCents b * NanoUSDPerCent
        \<le> s_ModelListCostNanoUSD s + RuntimeListCostNanoUSD (fst (ObservableStats s now)))
    \<and> (BudgetReached s now \<longrightarrow> BudgetReached s later)"
proof -
  have b: "i64Mul (MaxListCostCents b) NanoUSDPerCent = MaxListCostCents b * NanoUSDPerCent"
    using assms(3,4) by (intro i64_exact) (auto simp: inInt64_def maxBudgetCents_def NanoUSDPerCent_eval)
  have mono: "RuntimeListCostNanoUSD (fst (ObservableStats s now)) \<le> RuntimeListCostNanoUSD (fst (ObservableStats s later))"
    by (intro RuntimeListCost_mono session_clock.observe_mono assms(8))
  have exact: "ObservableListCostNanoUSD s t = s_ModelListCostNanoUSD s + RuntimeListCostNanoUSD (fst (ObservableStats s t))"
    if "RuntimeListCostNanoUSD (fst (ObservableStats s t)) \<le> 4 * 10 ^ 18" for t
    using that assms(5,6) RuntimeListCost_nonneg [of "fst (ObservableStats s t)"]
    unfolding ObservableListCostNanoUSD_def by (intro i64_exact inInt64_bounded) auto
  show ?thesis
    using assms(1,2) b mono exact [OF assms(7)] exact [OF order_trans [OF mono assms(7)]]
    by (simp add: BudgetReached_def)
qed

theorem budget_stop_exact_witness:
  "BudgetReached (sampleSession\<lparr>s_ModelListCostNanoUSD := 50000000\<rparr>) 7 =
     (5 * NanoUSDPerCent \<le> 50000000 +
       RuntimeListCostNanoUSD (fst (ObservableStats (sampleSession\<lparr>s_ModelListCostNanoUSD := 50000000\<rparr>) 7)))"
proof -
  let ?s = "sampleSession\<lparr>s_ModelListCostNanoUSD := 50000000\<rparr>"
  have r: "RuntimeListCostNanoUSD (fst (ObservableStats ?s 9)) \<le> 4 * 10 ^ 18"
    by (simp add: ObservableStats_def sampleSession_def RuntimeListCostNanoUSD_def)
  from budget_stop_exact [of ?s "\<lparr>MaxListCostCents = 5\<rparr>" 9 7] r show ?thesis
    by (simp add: sampleSession_def maxBudgetCents_def)
qed

text \<open>
  A Session pursues one outcome at a time: once an outcome has started, starting another is a
  conflict, also after it is marked running, until its own result is recorded as final, after
  which a new outcome can start.
\<close>

theorem outcome_exclusive:
  assumes "StartOutcome s spec = Inr n"
  shows "StartOutcome n spec' = Inl (Conflict ''a session may have only one active outcome'')
    \<and> StartOutcome (MarkActiveOutcomeRunning n) spec' =
        Inl (Conflict ''a session may have only one active outcome'')
    \<and> isOk (StartOutcome (ApplyOutcomeResult (MarkActiveOutcomeRunning n) (os_OutcomeID spec)
        ''satisfied'' explanation iteration now) spec')"
proof -
  have n: "s_Outcomes n = s_Outcomes s @ [\<lparr>oc_OutcomeID = os_OutcomeID spec,
      oc_Description = os_Description spec, oc_Result = ''pending'', oc_Explanation = [], oc_Iteration = 0,
      oc_CompletedAt = None\<rparr>]"
    using assms by (auto simp: StartOutcome_def split: if_splits)
  then show ?thesis
    by (simp add: StartOutcome_def ActiveOutcome_def MarkActiveOutcomeRunning_def ApplyOutcomeResult_def Let_def)
qed

theorem outcome_exclusive_witness:
  "let spec = \<lparr>os_OutcomeID = ''o1'', os_Description = ''d'', os_Rubric = [], os_MaxIterations = 3\<rparr>
   in \<exists>n. StartOutcome sampleSession spec = Inr n \<and> \<not> isOk (StartOutcome n spec)"
proof -
  let ?spec = "\<lparr>os_OutcomeID = ''o1'', os_Description = ''d'', os_Rubric = [], os_MaxIterations = 3\<rparr>"
  obtain n where r: "StartOutcome sampleSession ?spec = Inr n"
    by (simp add: StartOutcome_def ActiveOutcome_def sampleSession_def)
  then show ?thesis using outcome_exclusive [OF r, of ?spec] by (auto simp: Let_def)
qed

definition aggregateSpec :: "Status set \<Rightarrow> Status" where
  "aggregateSpec S =
     (if StatusRunning \<in> S then StatusRunning
      else if StatusRescheduling \<in> S then StatusRescheduling
      else if StatusIdle \<in> S then StatusIdle
      else StatusTerminated)"

lemma aggregateRows_spec:
  "aggregateRows allTerm hasRes rows =
     (if StatusRunning \<in> set rows then StatusRunning
      else if hasRes \<or> StatusRescheduling \<in> set rows then StatusRescheduling
      else if allTerm \<and> StatusIdle \<notin> set rows then StatusTerminated else StatusIdle)"
proof (induction allTerm hasRes rows rule: aggregateRows.induct)
  case (2 allTerm hasRes st rows)
  then show ?case by (cases st) auto
qed simp

text \<open>
  The status of a Session is a function of the set of its live Threads' statuses, whatever
  order the rows come in: running if any Thread runs, else rescheduling if any is, else idle if
  any is idle, and terminated only when every live Thread is.
\<close>

theorem session_status_aggregates_threads:
  "aggregateSessionThreadStatus threads sessionID =
     aggregateSpec (t_Status ` {t \<in> set threads. t_SessionID t = sessionID \<and> t_ArchivedAt t = None})"
  by (auto simp: aggregateSessionThreadStatus_def aggregateRows_spec aggregateSpec_def)

end
