(* ===== verification/Messages.thy ===== *)
theory Messages
  imports Sessions
begin

text \<open>
  The projection of the event log into a model conversation (\<open>internal/domain/message.go\<close>).
  \<open>json.Marshal\<close> is the argument \<open>marshal\<close> (\<open>None\<close> where it fails); a struct is given to it as
  the object of its fields in order, without the empty ones that \<open>omitempty\<close> leaves out.
\<close>

section \<open>Blocks and messages\<close>

datatype Role = RoleUser | RoleAssistant

record FileMessageContent =
  fm_ContentIndex :: int
  fm_FileID :: string
  fm_Filename :: string
  fm_MimeType :: string
  fm_Content :: string

record ContentBlock =
  cb_Type :: string
  cb_Text :: string
  cb_ToolUseID :: string
  cb_ToolName :: string
  cb_Input :: "payload option"
  cb_ToolResultFor :: string
  cb_IsError :: bool
  cb_ResultContent :: "string list"
  cb_Raw :: string

record ContextUsageAnchor =
  cu_Usage :: TokenUsage
  cu_RequestFingerprint :: string
  cu_PrefixFingerprint :: string
  cu_ContentBlocks :: int

record Message =
  mg_Role :: Role
  mg_Content :: "ContentBlock list"
  mg_ContextUsage :: "ContextUsageAnchor option"

definition emptyBlock :: ContentBlock where
  "emptyBlock = \<lparr>cb_Type = [], cb_Text = [], cb_ToolUseID = [], cb_ToolName = [], cb_Input = None,
     cb_ToolResultFor = [], cb_IsError = False, cb_ResultContent = [], cb_Raw = []\<rparr>"

definition textBlock :: "string \<Rightarrow> ContentBlock" where
  "textBlock t = emptyBlock\<lparr>cb_Type := ''text'', cb_Text := t\<rparr>"

definition toolUseBlock :: "string \<Rightarrow> string \<Rightarrow> payload option \<Rightarrow> ContentBlock" where
  "toolUseBlock i name inp =
     emptyBlock\<lparr>cb_Type := ''tool_use'', cb_ToolUseID := i, cb_ToolName := name, cb_Input := inp\<rparr>"

abbreviation nl :: string where "nl \<equiv> [newline]"

section \<open>Content of one event\<close>

fun flattenItems :: "jval list \<Rightarrow> string" where
  "flattenItems [] = []"
| "flattenItems (JObj m # rest) =
     (if strOf (jget m ''type'') = ''text'' then strOf (jget m ''text'') else []) @ flattenItems rest"
| "flattenItems (_ # rest) = flattenItems rest"

definition flattenText :: "jval option \<Rightarrow> string" where
  "flattenText raw = (case asArr raw of None \<Rightarrow> [] | Some blocks \<Rightarrow> flattenItems blocks)"

definition isTextItem :: "jval \<Rightarrow> bool" where
  "isTextItem item =
     (case asObj (Some item) of None \<Rightarrow> False | Some m \<Rightarrow> asStr (jget m ''type'') = Some ''text'')"

definition rawContentBlocks :: "(jval \<Rightarrow> string option) \<Rightarrow> jval option \<Rightarrow> string list" where
  "rawContentBlocks marshal raw =
     (case asArr raw of
        None \<Rightarrow> []
      | Some items \<Rightarrow>
          if list_all isTextItem items then []
          else concat (map (\<lambda>item. case marshal item of Some enc \<Rightarrow> [enc] | None \<Rightarrow> []) items))"

definition resultBlock :: "(jval \<Rightarrow> string option) \<Rightarrow> string \<Rightarrow> payload \<Rightarrow> ContentBlock" where
  "resultBlock marshal toolUseID p =
     emptyBlock\<lparr>cb_Type := ''tool_result'', cb_ToolResultFor := toolUseID,
       cb_IsError := boolOf (jget p ''is_error''), cb_Text := flattenText (jget p ''content''),
       cb_ResultContent := rawContentBlocks marshal (jget p ''content'')\<rparr>"

definition stringValue :: "jval option \<Rightarrow> string" where
  "stringValue raw = strOf raw"

definition WithFileMessageContents :: "payload \<Rightarrow> FileMessageContent list \<Rightarrow> payload" where
  "WithFileMessageContents p contents =
     (let stored = foldl (\<lambda>m c. aput (itoa (fm_ContentIndex c))
            (JObj [(''file_id'', JStr (fm_FileID c)), (''filename'', JStr (fm_Filename c)),
                   (''mime_type'', JStr (fm_MimeType c)), (''content'', JStr (fm_Content c))]) m) [] contents
      in aput InternalFileMessageContents (JObj stored) p)"

definition fileMessageItem :: "string \<Rightarrow> jval \<Rightarrow> FileMessageContent option" where
  "fileMessageItem index v =
     (case asObj (Some v) of
        None \<Rightarrow> None
      | Some item \<Rightarrow>
          (case parseInt64 index of
             None \<Rightarrow> None
           | Some i \<Rightarrow>
               if i < 0 then None
               else
                 let c = \<lparr>fm_ContentIndex = i, fm_FileID = stringValue (jget item ''file_id''),
                   fm_Filename = stringValue (jget item ''filename''),
                   fm_MimeType = stringValue (jget item ''mime_type''),
                   fm_Content = stringValue (jget item ''content'')\<rparr>
                 in if fm_FileID c = [] then None else Some c))"

definition FileMessageContents :: "payload \<Rightarrow> (string \<times> FileMessageContent) list" where
  "FileMessageContents p =
     (case asObj (jget p InternalFileMessageContents) of
        None \<Rightarrow> []
      | Some raw \<Rightarrow>
          concat (map (\<lambda>(index, v). case fileMessageItem index v of Some c \<Rightarrow> [(index, c)] | None \<Rightarrow> []) raw))"

definition projectFileMessageText :: "(jval \<Rightarrow> string option) \<Rightarrow> payload \<Rightarrow> FileMessageContent \<Rightarrow> string" where
  "projectFileMessageText marshal block snapshot =
     (let m0 = [(''file_id'', fm_FileID snapshot), (''filename'', fm_Filename snapshot),
                (''media_type'', fm_MimeType snapshot)];
          m1 = (if strOf (jget block ''title'') \<noteq> []
                then aput ''title'' (strOf (jget block ''title'')) m0 else m0);
          m2 = (if strOf (jget block ''context'') \<noteq> []
                then aput ''context'' (strOf (jget block ''context'')) m1 else m1);
          encoded = (case marshal (JSMap m2) of Some e \<Rightarrow> e | None \<Rightarrow> [])
      in ''The user attached the following UTF-8 text document.'' @ nl @ ''<file_metadata>'' @ encoded
         @ ''</file_metadata>'' @ nl @ ''<file_content>'' @ nl @ fm_Content snapshot @ nl @ ''</file_content>'')"

text \<open>One item of a content list, at its index.\<close>

definition contentItem ::
  "(jval \<Rightarrow> string option) \<Rightarrow> (string \<times> FileMessageContent) list \<Rightarrow> nat \<Rightarrow> jval \<Rightarrow> ContentBlock list" where
  "contentItem marshal files index item =
     (case asObj (Some item) of
        None \<Rightarrow> []
      | Some block \<Rightarrow>
          (let t = strOf (jget block ''type'');
               source = objOf (jget block ''source'');
               other = (case marshal (JObj block) of
                 None \<Rightarrow> [] | Some enc \<Rightarrow> [emptyBlock\<lparr>cb_Type := t, cb_Raw := enc\<rparr>])
           in if t = [] then []
              else if t = ''text'' then
                (let text = strOf (jget block ''text'')
                 in if trimSpace text = [] then [] else [textBlock text])
              else if t = ''document'' \<and> jget source ''type'' = Some (JStr ''file'') then
                (case map_of files (itoa (int index)) of
                   None \<Rightarrow> []
                 | Some snapshot \<Rightarrow>
                     if jget source ''file_id'' \<noteq> Some (JStr (fm_FileID snapshot)) then []
                     else [textBlock (projectFileMessageText marshal block snapshot)])
              else other))"

fun contentItems ::
  "(jval \<Rightarrow> string option) \<Rightarrow> (string \<times> FileMessageContent) list \<Rightarrow> nat \<Rightarrow> jval list \<Rightarrow> ContentBlock list" where
  "contentItems marshal files index [] = []"
| "contentItems marshal files index (item # rest) =
     contentItem marshal files index item @ contentItems marshal files (Suc index) rest"

definition contentBlocks :: "(jval \<Rightarrow> string option) \<Rightarrow> payload \<Rightarrow> ContentBlock list" where
  "contentBlocks marshal p =
     (case asArr (jget p ''content'') of
        None \<Rightarrow> []
      | Some raw \<Rightarrow> contentItems marshal (FileMessageContents p) 0 raw)"

definition omitEmpty :: "(string \<times> string) list \<Rightarrow> payload" where
  "omitEmpty fs = map (\<lambda>(k, v). (k, JStr v)) (filter (\<lambda>(k, v). v \<noteq> []) fs)"

definition envelopedThreadMessageBlocks ::
  "(jval \<Rightarrow> string option) \<Rightarrow> payload \<Rightarrow> payload \<Rightarrow> ContentBlock list" where
  "envelopedThreadMessageBlocks marshal p ident =
     (let content = contentBlocks marshal p;
          metadata = (case marshal (JObj ident) of Some m \<Rightarrow> m | None \<Rightarrow> [])
      in if content = [] then []
         else [textBlock (''<agent-thread-message>'' @ nl @ ''<metadata>'' @ metadata @ ''</metadata>''
                 @ nl @ ''<content>'')]
              @ content @ [textBlock (''</content>'' @ nl @ ''</agent-thread-message>'')])"

definition receivedThreadMessageBlocks :: "(jval \<Rightarrow> string option) \<Rightarrow> payload \<Rightarrow> ContentBlock list" where
  "receivedThreadMessageBlocks marshal p =
     envelopedThreadMessageBlocks marshal p
       (omitEmpty [(''from_session_thread_id'', stringValue (jget p ''from_session_thread_id'')),
                   (''from_agent_name'', stringValue (jget p ''from_agent_name''))])"

definition sentThreadMessageBlocks :: "(jval \<Rightarrow> string option) \<Rightarrow> payload \<Rightarrow> ContentBlock list" where
  "sentThreadMessageBlocks marshal p =
     envelopedThreadMessageBlocks marshal p
       (omitEmpty [(''to_session_thread_id'', stringValue (jget p ''to_session_thread_id'')),
                   (''to_agent_name'', stringValue (jget p ''to_agent_name''))])"

definition WithOutcomeRubricContent :: "payload \<Rightarrow> string \<Rightarrow> payload" where
  "WithOutcomeRubricContent p content = aput InternalOutcomeRubricContent (JStr content) p"

definition OutcomeRubricContent :: "payload \<Rightarrow> string option" where
  "OutcomeRubricContent p =
     (case asObj (jget p ''rubric'') of
        None \<Rightarrow> None
      | Some rubric \<Rightarrow>
          (let t = asStr (jget rubric ''type'')
           in if t = Some ''text'' then asStr (jget rubric ''content'')
              else if t = Some ''file'' then asStr (jget p InternalOutcomeRubricContent)
              else None))"

definition outcomePromptBlocks :: "payload \<Rightarrow> ContentBlock list" where
  "outcomePromptBlocks p =
     (let maxIterations = (case asNum (jget p ''max_iterations'') of
            Some raw \<Rightarrow> if 1 \<le> raw then \<lfloor>raw\<rfloor> else 3 | None \<Rightarrow> 3);
          rubricText = (case OutcomeRubricContent p of Some t \<Rightarrow> t | None \<Rightarrow> [])
      in [textBlock (''Work toward the following outcome and produce the requested deliverable.'' @ nl @ nl
            @ ''Outcome:'' @ nl @ strOf (jget p ''description'') @ nl @ nl @ ''Rubric:'' @ nl @ rubricText
            @ nl @ nl @ ''The harness may evaluate and request up to '' @ itoa maxIterations
            @ '' revision cycles.'')])"

section \<open>Projection\<close>

definition toolUseTypes :: "string list" where
  "toolUseTypes = [EvAgentToolUse, EvAgentCustomToolUse, EvAgentMcpToolUse]"

text \<open>The id that correlates a tool call: the committed event id, else the one in the payload.\<close>

definition toolUseRef :: "Event \<Rightarrow> string" where
  "toolUseRef e = (if e_ID e = [] then strOf (jget (e_Payload e) ''id'') else e_ID e)"

definition toolResultRef :: "Event \<Rightarrow> string option" where
  "toolResultRef e =
     (if e_Type e \<in> {EvAgentToolResult, EvAgentMcpToolResult}
      then Some (fst (AgentToolResultReference (e_Type e) (e_Payload e)))
      else if e_Type e = EvUserCustomToolResult then Some (strOf (jget (e_Payload e) ''custom_tool_use_id''))
      else if e_Type e = EvUserToolResult then Some (strOf (jget (e_Payload e) ''tool_use_id''))
      else None)"

definition seenIDs :: "Event list \<Rightarrow> string list" where
  "seenIDs events =
     filter (\<lambda>i. i \<noteq> []) (map toolUseRef (filter (\<lambda>e. e_Type e \<in> set toolUseTypes) events))"

definition answeredIDs :: "Event list \<Rightarrow> string list" where
  "answeredIDs events =
     filter (\<lambda>i. i \<noteq> []) (concat (map (\<lambda>e. case toolResultRef e of Some i \<Rightarrow> [i] | None \<Rightarrow> []) events))"

text \<open>What one event adds: nothing, or blocks of one role.\<close>

definition eventBlocks ::
  "(jval \<Rightarrow> string option) \<Rightarrow> string list \<Rightarrow> string list \<Rightarrow> Event \<Rightarrow> (Role \<times> ContentBlock list) option" where
  "eventBlocks marshal seen answered e =
     (let t = e_Type e; p = e_Payload e
      in if t = EvUserMessage then Some (RoleUser, contentBlocks marshal p)
         else if t = EvAgentThreadMessageReceived then Some (RoleUser, receivedThreadMessageBlocks marshal p)
         else if t = EvAgentThreadMessageSent then Some (RoleAssistant, sentThreadMessageBlocks marshal p)
         else if t = EvUserDefineOutcome then Some (RoleUser, outcomePromptBlocks p)
         else if t = EvAgentMessage then Some (RoleAssistant, contentBlocks marshal p)
         else if t \<in> set toolUseTypes then
           (let i = toolUseRef e
            in if i = [] \<or> i \<notin> set answered then None
               else Some (RoleAssistant, [toolUseBlock i (strOf (jget p ''name'')) (asObj (jget p ''input''))]))
         else (case toolResultRef e of
             None \<Rightarrow> None
           | Some i \<Rightarrow>
               if i = [] \<or> i \<notin> set seen then None else Some (RoleUser, [resultBlock marshal i p])))"

definition addMessage :: "Message list \<Rightarrow> Role \<Rightarrow> ContentBlock list \<Rightarrow> Message list" where
  "addMessage out role blocks =
     (if blocks = [] then out
      else if out \<noteq> [] \<and> mg_Role (last out) = role
      then butlast out @ [(last out)\<lparr>mg_Content := mg_Content (last out) @ blocks\<rparr>]
      else out @ [\<lparr>mg_Role = role, mg_Content = blocks, mg_ContextUsage = None\<rparr>])"

definition projectStep ::
  "(jval \<Rightarrow> string option) \<Rightarrow> string list \<Rightarrow> string list \<Rightarrow> Message list \<Rightarrow> Event \<Rightarrow> Message list" where
  "projectStep marshal seen answered out e =
     (case eventBlocks marshal seen answered e of
        None \<Rightarrow> out
      | Some (role, blocks) \<Rightarrow> addMessage out role blocks)"

definition ProjectMessages :: "(jval \<Rightarrow> string option) \<Rightarrow> Event list \<Rightarrow> Message list" where
  "ProjectMessages marshal events =
     foldl (projectStep marshal (seenIDs events) (answeredIDs events)) [] events"

section \<open>System prompt\<close>

text \<open>\<open>rawContentItems\<close>: the objects of a content list.\<close>

definition rawContentItems :: "jval option \<Rightarrow> payload list" where
  "rawContentItems raw =
     (case asArr raw of
        None \<Rightarrow> []
      | Some items \<Rightarrow> concat (map (\<lambda>i. case asObj (Some i) of Some m \<Rightarrow> [m] | None \<Rightarrow> []) items))"

definition systemAdditions :: "jval option \<Rightarrow> string list" where
  "systemAdditions raw =
     concat (map (\<lambda>block.
       if asStr (jget block ''type'') \<noteq> Some ''text'' then []
       else let text = strOf (jget block ''text'') in if trimSpace text \<noteq> [] then [text] else [])
       (rawContentItems raw))"

definition ProjectSystemContext :: "string \<Rightarrow> Event list \<Rightarrow> Event \<Rightarrow> string" where
  "ProjectSystemContext base events trigger =
     (let additions = concat (map (\<lambda>e. systemAdditions (jget (e_Payload e) ''content''))
            (filter (\<lambda>e. e_Type e = EvSystemMessage) events))
          @ systemAdditions (jget (e_Payload trigger) InternalCompanionSystemContent)
      in foldl (\<lambda>projected addition.
           projected @ (if 0 < length projected then nl @ nl else []) @ ''<system-message>'' @ nl
           @ addition @ nl @ ''</system-message>'') base additions)"

definition resourceLine :: "(jval \<Rightarrow> string option) \<Rightarrow> payload \<Rightarrow> string" where
  "resourceLine marshal p = ''- '' @ (case marshal (JObj p) of Some e \<Rightarrow> e | None \<Rightarrow> []) @ nl"

definition ProjectSessionResourceContext ::
  "(jval \<Rightarrow> string option) \<Rightarrow> string \<Rightarrow> SessionResource list \<Rightarrow> string" where
  "ProjectSessionResourceContext marshal base resources =
     (let live = filter (\<lambda>r. rs_State r = SessionResourceActive) resources;
          memories = filter (\<lambda>r. SessionResource_Type r = ''memory_store'') live;
          files = filter (\<lambda>r. SessionResource_Type r \<noteq> ''memory_store'') live;
          section = ''<session_resources>'' @ nl
            @ (if files = [] then []
               else ''Read-only files available in the sandbox:'' @ nl
                 @ concat (map (\<lambda>r. resourceLine marshal
                     [(''mount_path'', JStr (rs_MountPath r)), (''file_id'', JStr (rs_FileID r))]) files))
            @ (if memories = [] then []
               else ''Memory Stores available as ordinary sandbox files. Use standard file tools to read and, when access is read_write, modify them:''
                 @ nl @ concat (map (\<lambda>r. resourceLine marshal
                     ([(''memory_store_id'', JStr (rs_MemoryStoreID r)), (''name'', JStr (rs_MemoryStoreName r)),
                       (''description'', JStr (rs_MemoryStoreDescription r)),
                       (''mount_path'', JStr (rs_MountPath r)), (''access'', JStr (rs_MemoryAccess r))]
                      @ omitEmpty [(''instructions'', rs_MemoryInstructions r)])) memories))
            @ ''</session_resources>''
      in if files = [] \<and> memories = [] then base
         else if trimSpace base = [] then section
         else base @ nl @ nl @ section)"

section \<open>What a projection looks like\<close>

definition alternates :: "Message list \<Rightarrow> bool" where
  "alternates ms \<longleftrightarrow> successively (\<lambda>a b. mg_Role a \<noteq> mg_Role b) ms"

definition allBlocks :: "Message list \<Rightarrow> ContentBlock list" where
  "allBlocks ms = concat (map mg_Content ms)"

lemma addMessage_alternates:
  assumes "alternates out" "list_all (\<lambda>m. mg_Content m \<noteq> []) out"
  shows "alternates (addMessage out role blocks) \<and> list_all (\<lambda>m. mg_Content m \<noteq> []) (addMessage out role blocks)"
proof (cases "out = []")
  case True
  then show ?thesis by (simp add: addMessage_def alternates_def)
next
  case False
  then obtain init l where o: "out = init @ [l]" by (metis rev_exhaust)
  then show ?thesis using assms
    by (auto simp: addMessage_def alternates_def successively_append_iff)
qed

lemma addMessage_blocks: "allBlocks (addMessage out role blocks) = allBlocks out @ blocks"
proof (cases "out = []")
  case True
  then show ?thesis by (simp add: addMessage_def allBlocks_def)
next
  case False
  then obtain init l where "out = init @ [l]" by (metis rev_exhaust)
  then show ?thesis by (simp add: addMessage_def allBlocks_def)
qed

lemma project_alternates:
  "alternates out \<Longrightarrow> list_all (\<lambda>m. mg_Content m \<noteq> []) out \<Longrightarrow>
     alternates (foldl (projectStep marshal seen answered) out events)
     \<and> list_all (\<lambda>m. mg_Content m \<noteq> []) (foldl (projectStep marshal seen answered) out events)"
  by (induction events arbitrary: out)
    (auto simp: projectStep_def addMessage_alternates split: option.splits prod.splits)

definition eventContent ::
  "(jval \<Rightarrow> string option) \<Rightarrow> string list \<Rightarrow> string list \<Rightarrow> Event \<Rightarrow> ContentBlock list" where
  "eventContent marshal seen answered e =
     (case eventBlocks marshal seen answered e of None \<Rightarrow> [] | Some (_, blocks) \<Rightarrow> blocks)"

lemma project_blocks:
  "allBlocks (foldl (projectStep marshal seen answered) out events) =
     allBlocks out @ concat (map (eventContent marshal seen answered) events)"
  by (induction events arbitrary: out)
    (auto simp: projectStep_def addMessage_blocks eventContent_def split: option.splits prod.splits)

text \<open>
  A projected conversation is legal for the model provider: its roles strictly alternate and no
  message is empty, and merging loses and reorders nothing, since the blocks of the conversation
  are those of the events, in the order of the log.
\<close>

theorem projection_alternates:
  "alternates (ProjectMessages marshal events)
   \<and> list_all (\<lambda>m. mg_Content m \<noteq> []) (ProjectMessages marshal events)
   \<and> allBlocks (ProjectMessages marshal events) =
      concat (map (eventContent marshal (seenIDs events) (answeredIDs events)) events)"
proof -
  have "alternates []" by (simp add: alternates_def)
  from project_alternates [OF this, of marshal "seenIDs events" "answeredIDs events" events]
  show ?thesis
    using project_blocks [of marshal "seenIDs events" "answeredIDs events" "[]" events]
    by (simp add: ProjectMessages_def allBlocks_def)
qed

text \<open>The blocks that stand for tool calls and their results, without provider-native ones.\<close>

definition usedIDs :: "ContentBlock list \<Rightarrow> string set" where
  "usedIDs bs = cb_ToolUseID ` {b \<in> set bs. cb_Type b = ''tool_use'' \<and> cb_Raw b = []}"

definition resultIDs :: "ContentBlock list \<Rightarrow> string set" where
  "resultIDs bs = cb_ToolResultFor ` {b \<in> set bs. cb_Type b = ''tool_result'' \<and> cb_Raw b = []}"

lemma ids_append [simp]:
  "usedIDs (a @ b) = usedIDs a \<union> usedIDs b" "resultIDs (a @ b) = resultIDs a \<union> resultIDs b"
  "usedIDs [] = {}" "resultIDs [] = {}"
  by (auto simp: usedIDs_def resultIDs_def)

lemma ids_Cons:
  "usedIDs (b # bs) = usedIDs [b] \<union> usedIDs bs" "resultIDs (b # bs) = resultIDs [b] \<union> resultIDs bs"
  by (auto simp: usedIDs_def resultIDs_def)

lemma ids_concat:
  "usedIDs (concat bss) = (\<Union>bs \<in> set bss. usedIDs bs)" "resultIDs (concat bss) = (\<Union>bs \<in> set bss. resultIDs bs)"
  by (induction bss) auto

lemma ids_single:
  "usedIDs [b] = (if cb_Type b = ''tool_use'' \<and> cb_Raw b = [] then {cb_ToolUseID b} else {})"
  "resultIDs [b] = (if cb_Type b = ''tool_result'' \<and> cb_Raw b = [] then {cb_ToolResultFor b} else {})"
  by (auto simp: usedIDs_def resultIDs_def)

lemma ids_textBlock [simp]: "usedIDs [textBlock t] = {}" "resultIDs [textBlock t] = {}"
  by (simp_all add: ids_single textBlock_def)

lemma ids_toolUse [simp]: "usedIDs [toolUseBlock i n x] = {i}" "resultIDs [toolUseBlock i n x] = {}"
  by (simp_all add: ids_single toolUseBlock_def emptyBlock_def)

lemma ids_result [simp]: "usedIDs [resultBlock m i p] = {}" "resultIDs [resultBlock m i p] = {i}"
  by (simp_all add: ids_single resultBlock_def emptyBlock_def)

lemma ids_raw:
  "enc \<noteq> [] \<Longrightarrow> usedIDs [emptyBlock\<lparr>cb_Type := t, cb_Raw := enc\<rparr>] = {}"
  "enc \<noteq> [] \<Longrightarrow> resultIDs [emptyBlock\<lparr>cb_Type := t, cb_Raw := enc\<rparr>] = {}"
  by (simp_all add: ids_single)

lemma contentItem_ids:
  assumes "\<forall>v. marshal v \<noteq> Some []"
  shows "usedIDs (contentItem marshal files i item) = {} \<and> resultIDs (contentItem marshal files i item) = {}"
proof -
  have ne: "marshal v = Some enc \<Longrightarrow> enc \<noteq> []" for v enc using assms by auto
  show ?thesis
  proof (cases "asObj (Some item)")
    case (Some block)
    then show ?thesis
      using ids_raw ne by (auto simp: contentItem_def Let_def split: option.split)
  qed (simp add: contentItem_def)
qed

lemma contentItems_ids:
  assumes "\<forall>v. marshal v \<noteq> Some []"
  shows "usedIDs (contentItems marshal files i items) = {} \<and> resultIDs (contentItems marshal files i items) = {}"
  by (induction items arbitrary: i) (simp_all add: contentItem_ids [OF assms])

lemma contentBlocks_ids:
  assumes "\<forall>v. marshal v \<noteq> Some []"
  shows "usedIDs (contentBlocks marshal p) = {}" "resultIDs (contentBlocks marshal p) = {}"
  by (auto simp: contentBlocks_def contentItems_ids [OF assms] split: option.splits)

lemma enveloped_ids:
  assumes "\<forall>v. marshal v \<noteq> Some []"
  shows "usedIDs (envelopedThreadMessageBlocks marshal p x) = {}"
    "resultIDs (envelopedThreadMessageBlocks marshal p x) = {}"
  using contentBlocks_ids [OF assms, of p] ids_Cons [of "textBlock _" "contentBlocks marshal p @ _"]
  by (simp_all add: envelopedThreadMessageBlocks_def Let_def ids_Cons(1) [of _ "_ @ _"] ids_Cons(2) [of _ "_ @ _"])

lemma eventContent_ids:
  assumes "\<forall>v. marshal v \<noteq> Some []"
  shows "usedIDs (eventContent marshal seen answered e) =
      (if e_Type e \<in> set toolUseTypes \<and> toolUseRef e \<noteq> [] \<and> toolUseRef e \<in> set answered
       then {toolUseRef e} else {})"
    and "resultIDs (eventContent marshal seen answered e) =
      (case toolResultRef e of None \<Rightarrow> {} | Some i \<Rightarrow> if i \<noteq> [] \<and> i \<in> set seen then {i} else {})"
proof -
  let ?plain = "[EvUserMessage, EvAgentThreadMessageReceived, EvAgentThreadMessageSent,
    EvUserDefineOutcome, EvAgentMessage]"
  have apart: "list_all (\<lambda>t. t \<notin> set toolUseTypes \<and> t \<notin> {EvAgentToolResult, EvAgentMcpToolResult,
      EvUserCustomToolResult, EvUserToolResult}) ?plain"
    and uses: "list_all (\<lambda>t. t \<notin> {EvAgentToolResult, EvAgentMcpToolResult,
      EvUserCustomToolResult, EvUserToolResult}) toolUseTypes"
    by (simp_all add: toolUseTypes_def event_type_defs)
  note ids = contentBlocks_ids [OF assms] enveloped_ids [OF assms]
  consider "e_Type e \<in> set ?plain" | "e_Type e \<notin> set ?plain" "e_Type e \<in> set toolUseTypes"
    | "e_Type e \<notin> set ?plain" "e_Type e \<notin> set toolUseTypes" by blast
  then have "usedIDs (eventContent marshal seen answered e) =
      (if e_Type e \<in> set toolUseTypes \<and> toolUseRef e \<noteq> [] \<and> toolUseRef e \<in> set answered
       then {toolUseRef e} else {})
    \<and> resultIDs (eventContent marshal seen answered e) =
      (case toolResultRef e of None \<Rightarrow> {} | Some i \<Rightarrow> if i \<noteq> [] \<and> i \<in> set seen then {i} else {})"
  proof cases
    case 1
    then have "e_Type e \<notin> set toolUseTypes" "toolResultRef e = None"
      using apart by (auto simp: toolResultRef_def)
    then show ?thesis
      by (simp add: eventContent_def eventBlocks_def Let_def ids receivedThreadMessageBlocks_def
          sentThreadMessageBlocks_def outcomePromptBlocks_def)
  next
    case 2
    then have "toolResultRef e = None" using uses by (auto simp: toolResultRef_def list_all_iff)
    with 2 show ?thesis by (simp add: eventContent_def eventBlocks_def Let_def)
  next
    case 3
    then show ?thesis by (simp add: eventContent_def eventBlocks_def Let_def split: option.split)
  qed
  then show "usedIDs (eventContent marshal seen answered e) =
      (if e_Type e \<in> set toolUseTypes \<and> toolUseRef e \<noteq> [] \<and> toolUseRef e \<in> set answered
       then {toolUseRef e} else {})"
    and "resultIDs (eventContent marshal seen answered e) =
      (case toolResultRef e of None \<Rightarrow> {} | Some i \<Rightarrow> if i \<noteq> [] \<and> i \<in> set seen then {i} else {})"
    by blast+
qed

lemma seenIDs_iff:
  "i \<in> set (seenIDs events) \<longleftrightarrow>
     i \<noteq> [] \<and> (\<exists>e \<in> set events. e_Type e \<in> set toolUseTypes \<and> toolUseRef e = i)"
  by (auto simp: seenIDs_def)

lemma answeredIDs_iff:
  "i \<in> set (answeredIDs events) \<longleftrightarrow> i \<noteq> [] \<and> (\<exists>e \<in> set events. toolResultRef e = Some i)"
  by (auto simp: answeredIDs_def split: option.splits) (metis option.inject option.simps(3))+

lemma project_ids:
  assumes "\<forall>v. marshal v \<noteq> Some []"
  shows "usedIDs (allBlocks (ProjectMessages marshal events)) = set (seenIDs events) \<inter> set (answeredIDs events)"
    and "resultIDs (allBlocks (ProjectMessages marshal events)) = set (seenIDs events) \<inter> set (answeredIDs events)"
proof -
  let ?content = "eventContent marshal (seenIDs events) (answeredIDs events)"
  have blocks: "allBlocks (ProjectMessages marshal events) = concat (map ?content events)"
    unfolding ProjectMessages_def project_blocks by (simp add: allBlocks_def)
  have "usedIDs (allBlocks (ProjectMessages marshal events)) = (\<Union>e \<in> set events. usedIDs (?content e))"
    unfolding blocks ids_concat by simp
  also have "\<dots> = set (seenIDs events) \<inter> set (answeredIDs events)"
    unfolding eventContent_ids(1) [OF assms] by (auto simp: seenIDs_iff split: if_splits)
  finally show "usedIDs (allBlocks (ProjectMessages marshal events)) = set (seenIDs events) \<inter> set (answeredIDs events)" .
  have one: "i \<in> resultIDs (?content e) \<longleftrightarrow> toolResultRef e = Some i \<and> i \<noteq> [] \<and> i \<in> set (seenIDs events)" for i e
    unfolding eventContent_ids(2) [OF assms] by (cases "toolResultRef e") auto
  have "resultIDs (allBlocks (ProjectMessages marshal events)) = (\<Union>e \<in> set events. resultIDs (?content e))"
    unfolding blocks ids_concat by simp
  also have "\<dots> = set (seenIDs events) \<inter> set (answeredIDs events)"
    by (auto simp: one answeredIDs_iff)
  finally show "resultIDs (allBlocks (ProjectMessages marshal events)) = set (seenIDs events) \<inter> set (answeredIDs events)" .
qed

text \<open>
  C30. Tool calls and results stay paired in the request: a projected tool call is answered by a
  projected result, a projected result answers a projected call, and both are exactly the calls
  of the log that some result of the log refers to. A parked call, or a result forged for a
  call that never happened, never reaches the provider.
\<close>

theorem projection_pairs_tools:
  assumes "\<forall>v. marshal v \<noteq> Some []"
  shows "usedIDs (allBlocks (ProjectMessages marshal events)) =
      resultIDs (allBlocks (ProjectMessages marshal events))
    \<and> usedIDs (allBlocks (ProjectMessages marshal events)) = set (seenIDs events) \<inter> set (answeredIDs events)"
  using project_ids [OF assms] by simp

definition sampleLog :: "Event list" where
  "sampleLog =
     (let use = \<lparr>e_ID = ''evt_1'', e_SessionID = [], e_ThreadID = [], e_Sequence = 1,
         e_Type = EvAgentToolUse, e_Payload = [], e_TurnEventID = None, e_CreatedAt = 0, e_ProcessedAt = None\<rparr>
      in [use, use\<lparr>e_ID := ''evt_2'', e_Sequence := 2, e_Type := EvAgentToolResult,
            e_Payload := [(''tool_use_id'', JStr ''evt_1'')]\<rparr>])"

theorem projection_pairs_tools_witness:
  "usedIDs (allBlocks (ProjectMessages (\<lambda>_. Some ''{}'') sampleLog)) =
     resultIDs (allBlocks (ProjectMessages (\<lambda>_. Some ''{}'') sampleLog))"
  using projection_pairs_tools [of "\<lambda>_. Some ''{}''" sampleLog] by simp

text \<open>
  A result that comes before its call counts as an answer, whatever their order in the log.
\<close>

lemma early_result_counts:
  "let use = \<lparr>e_ID = ''evt_2'', e_SessionID = [], e_ThreadID = [], e_Sequence = 2,
         e_Type = EvAgentToolUse, e_Payload = [], e_TurnEventID = None, e_CreatedAt = 0, e_ProcessedAt = None\<rparr>;
       result = use\<lparr>e_ID := ''evt_1'', e_Sequence := 1, e_Type := EvAgentToolResult,
         e_Payload := [(''tool_use_id'', JStr ''evt_2'')]\<rparr>
   in map mg_Role (ProjectMessages marshal [result, use]) = [RoleUser, RoleAssistant]"
  by (simp add: Let_def ProjectMessages_def seenIDs_def answeredIDs_def toolUseTypes_def toolUseRef_def
      toolResultRef_def AgentToolResultReference_def jget_def projectStep_def eventBlocks_def addMessage_def
      event_type_defs)

text \<open>
  An active repository is announced to the model among the read-only files, with no file id.
\<close>

lemma repository_announced_as_file:
  "let repo = \<lparr>rs_ID = ''r'', rs_SessionID = ''s'', rs_ResourceType = ''git_repository'', rs_SourceFileID = [],
         rs_FileID = [], rs_BlobKey = [], rs_MemoryStoreID = [], rs_MemoryAccess = [],
         rs_MemoryInstructions = [], rs_MemoryStoreName = [], rs_MemoryStoreDescription = [],
         rs_RepositoryURL = ''u'', rs_RepositoryCheckoutType = [], rs_RepositoryCheckoutValue = [],
         rs_RepositoryResolvedCommit = [], rs_MountPath = ''/workspace/r'', rs_CreatedAt = 0, rs_UpdatedAt = 0,
         rs_State = SessionResourceActive\<rparr>
   in ProjectSessionResourceContext marshal [] [repo] =
     ''<session_resources>'' @ nl @ ''Read-only files available in the sandbox:'' @ nl
     @ resourceLine marshal [(''mount_path'', JStr ''/workspace/r''), (''file_id'', JStr [])]
     @ ''</session_resources>''"
  by (simp add: Let_def ProjectSessionResourceContext_def SessionResource_Type_def trimSpace_def)

end
