(* ===== verification/Compaction.thy ===== *)
theory Compaction
  imports Messages
begin

text \<open>
  The bounded projection of a conversation (\<open>internal/domain/context.go\<close>): the size estimate, the
  choice of the newest suffix, the extractive summary and the trimming of large tool results.
  \<open>json.Marshal\<close> of a value and of a content block are the fields of a codec.
\<close>

record codec =
  jm_Value :: "jval \<Rightarrow> string option"
  jm_Block :: "ContentBlock \<Rightarrow> string option"

definition ContextPolicyVersion :: int where "ContextPolicyVersion = 1"

record ContextProjection =
  cp_Compacted :: bool
  cp_OriginalEstimatedTokens :: int
  cp_ProjectedEstimatedTokens :: int
  cp_DroppedMessages :: nat

section \<open>Estimate\<close>

definition estimatedTokensForBytes :: "nat \<Rightarrow> int" where
  "estimatedTokensForBytes n = (if n = 0 then 0 else (int n + 2) div 3)"

definition EstimateTextTokens :: "string \<Rightarrow> int" where
  "EstimateTextTokens text = estimatedTokensForBytes (length text)"

definition encodedTokens :: "string option \<Rightarrow> int" where
  "encodedTokens e = (case e of Some enc \<Rightarrow> estimatedTokensForBytes (length enc) | None \<Rightarrow> 0)"

definition blockTokens :: "codec \<Rightarrow> ContentBlock \<Rightarrow> int" where
  "blockTokens c b = 3 +
     (if 0 < length (cb_Raw b) then estimatedTokensForBytes (length (cb_Raw b))
      else if cb_Type b = ''text'' then estimatedTokensForBytes (length (cb_Text b))
      else if cb_Type b = ''tool_use'' then
        estimatedTokensForBytes (length (cb_ToolName b) + length (cb_ToolUseID b))
        + encodedTokens (jm_Value c (case cb_Input b of None \<Rightarrow> JNull | Some m \<Rightarrow> JObj m))
      else if cb_Type b = ''tool_result'' then
        estimatedTokensForBytes (length (cb_ToolResultFor b) + length (cb_Text b))
        + sum_list (map (\<lambda>i. estimatedTokensForBytes (length i)) (cb_ResultContent b))
      else encodedTokens (jm_Block c b))"

definition messageTokens :: "codec \<Rightarrow> Message \<Rightarrow> int" where
  "messageTokens c m = 4 + sum_list (map (blockTokens c) (mg_Content m))"

definition EstimateMessagesTokens :: "codec \<Rightarrow> Message list \<Rightarrow> int" where
  "EstimateMessagesTokens c ms = sum_list (map (messageTokens c) ms)"

section \<open>Text pieces\<close>

function prefixCut :: "string \<Rightarrow> nat \<Rightarrow> nat" where
  "prefixCut v n = (if 0 < n \<and> \<not> validUtf8 (take n v) then prefixCut v (n - 1) else n)"
  by pat_completeness auto
termination by (relation "measure snd") auto

definition validUTF8Prefix :: "string \<Rightarrow> nat \<Rightarrow> string" where
  "validUTF8Prefix v maxBytes = (if length v \<le> maxBytes then v else take (prefixCut v maxBytes) v)"

function suffixStart :: "string \<Rightarrow> nat \<Rightarrow> nat" where
  "suffixStart v n = (if n < length v \<and> \<not> validUtf8 (drop n v) then suffixStart v (Suc n) else n)"
  by pat_completeness auto
termination by (relation "measure (\<lambda>(v, n). length v - n)") auto

declare prefixCut.simps [simp del] suffixStart.simps [simp del]

definition validUTF8Suffix :: "string \<Rightarrow> nat \<Rightarrow> string" where
  "validUTF8Suffix v maxBytes =
     (if length v \<le> maxBytes then v else drop (suffixStart v (length v - maxBytes)) v)"

definition excerptMarker :: "nat \<Rightarrow> string" where
  "excerptMarker originalBytes =
     nl @ ''...[Tool result compacted; '' @ itoa (int originalBytes) @ '' original bytes]...'' @ nl"

definition compactedToolResultExcerpt :: "string \<Rightarrow> nat \<Rightarrow> nat \<Rightarrow> string" where
  "compactedToolResultExcerpt text originalBytes maxBytes =
     (let marker = excerptMarker originalBytes
      in if text = [] \<or> maxBytes \<le> length marker then trimSpace marker
         else if length text \<le> maxBytes then text @ marker
         else
           let headBytes = (maxBytes - length marker) * 3 div 4;
               tailBytes = maxBytes - length marker - headBytes
           in validUTF8Prefix text headBytes @ marker @ validUTF8Suffix text tailBytes)"

text \<open>The ellipsis is three bytes; a cut never falls inside an encoded rune.\<close>

definition ellipsis :: string where "ellipsis = [char_of (226 :: nat), char_of (128 :: nat), char_of (166 :: nat)]"

fun snippetCut :: "string \<Rightarrow> nat \<Rightarrow> nat" where
  "snippetCut v 0 = 0"
| "snippetCut v (Suc n) = (if isCont (v ! Suc n) then snippetCut v n else Suc n)"

definition compactSnippet :: "string \<Rightarrow> nat \<Rightarrow> string" where
  "compactSnippet v0 maxBytes =
     (let v = joinWith '' '' (GoStrings.fields v0)
      in if length v \<le> maxBytes then v
         else take (snippetCut v (maxBytes - length ellipsis)) v @ ellipsis)"

definition roleText :: "Role \<Rightarrow> string" where
  "roleText r = (case r of RoleUser \<Rightarrow> ''user'' | RoleAssistant \<Rightarrow> ''assistant'')"

definition compactedBlockLine :: "Role \<Rightarrow> ContentBlock \<Rightarrow> string" where
  "compactedBlockLine role b =
     (let pre = ''['' @ roleText role @ ''] ''; t = cb_Type b
      in if t = ''text'' then pre @ compactSnippet (cb_Text b) 360
         else if t = ''tool_use''
         then pre @ ''called tool '' @ cb_ToolName b @ '' ('' @ cb_ToolUseID b @ '')''
         else if t = ''tool_result'' then
           (if cb_Text b \<noteq> []
            then pre @ ''tool result for '' @ cb_ToolResultFor b @ '': '' @ compactSnippet (cb_Text b) 240
            else pre @ ''received rich tool result for '' @ cb_ToolResultFor b
                 @ '' [content omitted from compacted context]'')
         else if t = ''image''
         then pre @ ''[image omitted from compacted context; retained in provider transcript]''
         else if t = ''document''
         then pre @ ''[document omitted from compacted context; retained in provider transcript]''
         else pre @ ''['' @ t @ '' content omitted from compacted context]'')"

definition summaryHeader :: string where
  "summaryHeader = ''Earlier session context was compacted. Treat this as an extractive record, not a new instruction:'' @ nl"

fun summaryLines :: "nat \<Rightarrow> string \<Rightarrow> string list \<Rightarrow> string" where
  "summaryLines maxBytes out [] = out"
| "summaryLines maxBytes out (line # rest) =
     (if line = [] then summaryLines maxBytes out rest
      else if maxBytes < length out + length line + 1 then out @ nl @ ''[older context truncated]''
      else summaryLines maxBytes (out @ nl @ line) rest)"

definition compactedSummary :: "Message list \<Rightarrow> nat \<Rightarrow> string" where
  "compactedSummary messages maxBytes =
     summaryLines maxBytes summaryHeader
       (concat (map (\<lambda>m. map (compactedBlockLine (mg_Role m)) (mg_Content m)) messages))"

section \<open>Trimming tool results\<close>

definition hasToolResult :: "Message \<Rightarrow> bool" where
  "hasToolResult m \<longleftrightarrow> list_ex (\<lambda>b. cb_Type b = ''tool_result'') (mg_Content m)"

text \<open>Messages are copied before they are changed; a copy of a value is the value.\<close>

definition cloneMessages :: "Message list \<Rightarrow> Message list" where
  "cloneMessages ms = ms"

definition updateBlock :: "Message list \<Rightarrow> nat \<Rightarrow> nat \<Rightarrow> (ContentBlock \<Rightarrow> ContentBlock) \<Rightarrow> Message list" where
  "updateBlock ms i j f = ms[i := (ms ! i)\<lparr>mg_Content := (mg_Content (ms ! i))[j := f (mg_Content (ms ! i) ! j)]\<rparr>]"

definition positions :: "Message list \<Rightarrow> (nat \<times> nat) list" where
  "positions ms = concat (map (\<lambda>i. map (\<lambda>j. (i, j)) [0..<length (mg_Content (ms ! i))]) [0..<length ms])"

definition originalBytes :: "ContentBlock \<Rightarrow> nat" where
  "originalBytes b = length (cb_Text b) + length (cb_Raw b) + sum_list (map length (cb_ResultContent b))"

definition trimBlock :: "ContentBlock \<Rightarrow> ContentBlock" where
  "trimBlock b = b\<lparr>cb_Text := compactedToolResultExcerpt (cb_Text b) (originalBytes b) 3000,
     cb_Raw := [], cb_ResultContent := []\<rparr>"

definition dropBlock :: "ContentBlock \<Rightarrow> ContentBlock" where
  "dropBlock b = b\<lparr>cb_Text := ''[Tool result compacted; original content omitted; tool_use_id='' @ cb_ToolResultFor b @ '']''\<rparr>"

text \<open>
  One pass over the blocks in order: the blocks that \<open>sel\<close> selects are changed, and the pass stops
  as soon as the conversation fits. The result tells whether it changed a block, and whether it
  returned early.
\<close>

fun trimPass ::
  "(Message list \<Rightarrow> int) \<Rightarrow> int \<Rightarrow> (ContentBlock \<Rightarrow> bool) \<Rightarrow> (ContentBlock \<Rightarrow> ContentBlock)
   \<Rightarrow> Message list \<Rightarrow> bool \<Rightarrow> (nat \<times> nat) list \<Rightarrow> Message list \<times> bool \<times> bool" where
  "trimPass est maxTokens sel f ms changed [] = (ms, changed, False)"
| "trimPass est maxTokens sel f ms changed ((i, j) # rest) =
     (if \<not> sel (mg_Content (ms ! i) ! j) then trimPass est maxTokens sel f ms changed rest
      else let ms' = updateBlock ms i j f
           in if est ms' \<le> maxTokens then (ms', True, True)
              else trimPass est maxTokens sel f ms' True rest)"

definition compactOversizedToolResults :: "codec \<Rightarrow> Message list \<Rightarrow> int \<Rightarrow> Message list \<times> bool" where
  "compactOversizedToolResults c ms maxTokens =
     (let est = EstimateMessagesTokens c
      in if est ms \<le> maxTokens then (ms, False)
         else case trimPass est maxTokens (\<lambda>b. cb_Type b = ''tool_result'' \<and> 1024 \<le> originalBytes b)
                     trimBlock ms False (positions ms) of
           (ms1, compacted, returned) \<Rightarrow>
             if returned then (ms1, True)
             else if \<not> compacted \<or> est ms1 \<le> maxTokens then (ms1, compacted)
             else case trimPass est maxTokens
                         (\<lambda>b. cb_Type b = ''tool_result'' \<and> contains (cb_Text b) ''Tool result compacted'')
                         dropBlock ms1 True (positions ms1) of
               (ms2, _, _) \<Rightarrow> (ms2, True))"

section \<open>Compaction\<close>

fun cutLoop :: "(Message list \<Rightarrow> int) \<Rightarrow> Message list \<Rightarrow> int \<Rightarrow> int \<Rightarrow> nat \<Rightarrow> nat" where
  "cutLoop est ms suffixBudget used 0 = 0"
| "cutLoop est ms suffixBudget used (Suc cutAt) =
     (let candidate = est [ms ! cutAt]
      in if suffixBudget < used + candidate then Suc cutAt
         else cutLoop est ms suffixBudget (used + candidate) cutAt)"

definition clampSummary :: "int \<Rightarrow> nat" where
  "clampSummary maxTokens =
     (let b = i64Div (i64Mul maxTokens 3) 10; b1 = (if b < 512 then 512 else b)
      in nat (if 12000 < b1 then 12000 else b1))"

definition withSummary :: "string \<Rightarrow> Message list \<Rightarrow> Message list" where
  "withSummary summary kept =
     (if mg_Role (hd kept) = RoleUser
      then (hd kept)\<lparr>mg_Content := textBlock summary # mg_Content (hd kept)\<rparr> # tl kept
      else \<lparr>mg_Role = RoleUser, mg_Content = [textBlock summary], mg_ContextUsage = None\<rparr> # kept)"

definition compactInPlace :: "codec \<Rightarrow> Message list \<Rightarrow> int \<Rightarrow> ContextProjection \<Rightarrow> Message list \<times> ContextProjection" where
  "compactInPlace c messages maxTokens projection =
     (case compactOversizedToolResults c (cloneMessages messages) maxTokens of
        (projected, compacted) \<Rightarrow>
          (projected, if compacted
             then projection\<lparr>cp_Compacted := True,
               cp_ProjectedEstimatedTokens := EstimateMessagesTokens c projected\<rparr>
             else projection))"

definition suffixBudgetOf :: "int \<Rightarrow> int" where
  "suffixBudgetOf maxTokens = (let b = i64Div (i64Mul maxTokens 9) 10 in if b < 1 then 1 else b)"

definition chosenCut :: "codec \<Rightarrow> Message list \<Rightarrow> int \<Rightarrow> nat" where
  "chosenCut c messages maxTokens =
     (let cut0 = cutLoop (EstimateMessagesTokens c) messages (suffixBudgetOf maxTokens)
            (EstimateMessagesTokens c (drop (length messages - 1) messages)) (length messages - 1)
      in if 0 < cut0 \<and> hasToolResult (messages ! cut0) then cut0 - 1 else cut0)"

definition CompactMessages :: "codec \<Rightarrow> Message list \<Rightarrow> int \<Rightarrow> Message list \<times> ContextProjection" where
  "CompactMessages c messages maxTokens =
     (let original = EstimateMessagesTokens c messages;
          projection = \<lparr>cp_Compacted = False, cp_OriginalEstimatedTokens = original,
            cp_ProjectedEstimatedTokens = original, cp_DroppedMessages = 0\<rparr>
      in if maxTokens \<le> 0 \<or> original \<le> maxTokens then (cloneMessages messages, projection)
         else if length messages \<le> 1 then compactInPlace c messages maxTokens projection
         else
           let cutAt = chosenCut c messages maxTokens
           in if cutAt = 0 then compactInPlace c messages maxTokens projection
              else
                let kept = withSummary (compactedSummary (take cutAt messages) (clampSummary maxTokens))
                      (cloneMessages (drop cutAt messages));
                    kept' = fst (compactOversizedToolResults c kept maxTokens)
                in (kept', projection\<lparr>cp_Compacted := True, cp_DroppedMessages := cutAt,
                     cp_ProjectedEstimatedTokens := EstimateMessagesTokens c kept'\<rparr>))"

section \<open>Estimators\<close>

text \<open>
  The choice of the suffix needs only that an estimate adds up over messages and is not negative.
\<close>

locale estimator =
  fixes est :: "Message list \<Rightarrow> int"
  assumes est_append: "est (a @ b) = est a + est b"
    and est_nonneg: "0 \<le> est a"
begin

lemma cutLoop_bound:
  assumes "used = est (drop cutAt ms)" "cutAt < length ms"
  shows "cutLoop est ms budget used cutAt \<le> cutAt
    \<and> est (drop (cutLoop est ms budget used cutAt) ms) \<le> max budget used"
  using assms
proof (induction cutAt arbitrary: used)
  case (Suc cutAt)
  let ?cand = "est [ms ! cutAt]"
  have "drop cutAt ms = [ms ! cutAt] @ drop (Suc cutAt) ms" using Suc.prems(2) by (simp add: Cons_nth_drop_Suc)
  then have eq: "used + ?cand = est (drop cutAt ms)" using Suc.prems(1) by (simp only: est_append add.commute)
  show ?case
  proof (cases "budget < used + ?cand")
    case True
    then show ?thesis using Suc.prems(1) by simp
  next
    case False
    from Suc.IH [OF eq] Suc.prems(2) False show ?thesis by (auto simp: Let_def)
  qed
qed simp

end

lemma blockTokens_nonneg: "0 \<le> blockTokens c b"
proof -
  have "0 \<le> estimatedTokensForBytes n" for n
    by (simp add: estimatedTokensForBytes_def pos_imp_zdiv_nonneg_iff)
  moreover from this have "0 \<le> encodedTokens e" for e by (simp add: encodedTokens_def split: option.splits)
  ultimately show ?thesis by (auto simp: blockTokens_def intro!: add_nonneg_nonneg sum_list_nonneg)
qed

interpretation message_estimate: estimator "EstimateMessagesTokens c" for c
proof
  have "0 \<le> messageTokens c m" for m
    unfolding messageTokens_def by (intro add_nonneg_nonneg sum_list_nonneg) (auto simp: blockTokens_nonneg)
  then show "0 \<le> EstimateMessagesTokens c a" for a
    unfolding EstimateMessagesTokens_def by (intro sum_list_nonneg) auto
qed (simp add: EstimateMessagesTokens_def)

section \<open>Legal conversations\<close>

text \<open>What trimming never changes: the roles, and per block its kind, tool ids, input and error flag.\<close>

type_synonym blockShape = "string \<times> string \<times> string \<times> payload option \<times> string \<times> bool"

definition shapeB :: "ContentBlock \<Rightarrow> blockShape" where
  "shapeB b = (cb_Type b, cb_ToolUseID b, cb_ToolName b, cb_Input b, cb_ToolResultFor b, cb_IsError b)"

definition shapeM :: "Message \<Rightarrow> Role \<times> blockShape list" where
  "shapeM m = (mg_Role m, map shapeB (mg_Content m))"

text \<open>
  Roles alternate, calls are the assistant's, results are the user's, and every result answers a call
  of the message before.
\<close>

fun legalFrom :: "Role option \<Rightarrow> string list \<Rightarrow> (Role \<times> blockShape list) list \<Rightarrow> bool" where
  "legalFrom prev ids [] = True"
| "legalFrom prev ids ((r, bs) # ms) =
     (prev \<noteq> Some r
      \<and> list_all (\<lambda>(t, _, _, _, for, _). t = ''tool_result'' \<longrightarrow> r = RoleUser \<and> for \<in> set ids) bs
      \<and> list_all (\<lambda>(t, _). t = ''tool_use'' \<longrightarrow> r = RoleAssistant) bs
      \<and> legalFrom (Some r) (map (\<lambda>(_, i, _). i) (filter (\<lambda>(t, _). t = ''tool_use'') bs)) ms)"

definition legalConversation :: "Message list \<Rightarrow> bool" where
  "legalConversation ms \<longleftrightarrow> legalFrom None [] (map shapeM ms)"

lemma updateBlock_shape:
  assumes "\<And>b. shapeB (f b) = shapeB b"
  shows "map shapeM (updateBlock ms i j f) = map shapeM ms"
proof (cases "i < length ms")
  case True
  let ?c = "mg_Content (ms ! i)"
  have "map shapeB (?c[j := f (?c ! j)]) = map shapeB ?c"
    by (cases "j < length ?c") (simp_all add: map_update assms list_update_same_conv list_update_beyond)
  then have "shapeM ((ms ! i)\<lparr>mg_Content := ?c[j := f (?c ! j)]\<rparr>) = shapeM (ms ! i)"
    by (simp add: shapeM_def)
  with True show ?thesis by (simp add: updateBlock_def map_update list_update_same_conv)
qed (simp add: updateBlock_def list_update_beyond)

lemma trimPass_shape:
  assumes "\<And>b. shapeB (f b) = shapeB b"
  shows "map shapeM (fst (trimPass est n sel f ms changed ps)) = map shapeM ms"
proof (induction ps arbitrary: ms changed)
  case (Cons p ps)
  obtain i j where "p = (i, j)" by (cases p) auto
  with Cons.IH show ?case by (simp add: Let_def updateBlock_shape [OF assms])
qed simp

lemma compactOversized_shape: "map shapeM (fst (compactOversizedToolResults c ms n)) = map shapeM ms"
proof -
  have f: "shapeB (trimBlock b) = shapeB b" "shapeB (dropBlock b) = shapeB b" for b
    by (simp_all add: shapeB_def trimBlock_def dropBlock_def)
  let ?est = "EstimateMessagesTokens c"
  obtain ms1 compacted returned where t1: "trimPass ?est n (\<lambda>b. cb_Type b = ''tool_result'' \<and> 1024 \<le> originalBytes b)
      trimBlock ms False (positions ms) = (ms1, compacted, returned)" by (rule prod_cases3)
  have s1: "map shapeM ms1 = map shapeM ms"
    using arg_cong [OF t1, of "\<lambda>x. map shapeM (fst x)"] unfolding trimPass_shape [OF f(1)] by simp
  obtain ms2 x y where t2: "trimPass ?est n
      (\<lambda>b. cb_Type b = ''tool_result'' \<and> contains (cb_Text b) ''Tool result compacted'')
      dropBlock ms1 True (positions ms1) = (ms2, x, y)" by (rule prod_cases3)
  have "map shapeM ms2 = map shapeM ms"
    using arg_cong [OF t2, of "\<lambda>x. map shapeM (fst x)"] s1 unfolding trimPass_shape [OF f(2)] by simp
  with s1 show ?thesis
    unfolding compactOversizedToolResults_def Let_def t1 prod.case t2 by simp
qed

lemma shapeM_role: "fst (shapeM m) = mg_Role m"
  by (simp add: shapeM_def)

definition resultFree :: "Role \<times> blockShape list \<Rightarrow> bool" where
  "resultFree x \<longleftrightarrow> list_all (\<lambda>(t, _). t \<noteq> ''tool_result'') (snd x)"

lemma hasToolResult_shape: "hasToolResult m \<longleftrightarrow> \<not> resultFree (shapeM m)"
  by (auto simp: hasToolResult_def resultFree_def shapeM_def shapeB_def list_ex_iff list_all_iff)

lemma legalFrom_resultFree:
  "legalFrom prev ids (x # xs) \<Longrightarrow> resultFree x \<Longrightarrow> prev' \<noteq> Some (fst x) \<Longrightarrow> legalFrom prev' ids' (x # xs)"
  by (cases x) (auto simp: resultFree_def list_all_iff)

lemma legalFrom_append: "legalFrom prev ids (xs @ ys) \<Longrightarrow> \<exists>prev' ids'. legalFrom prev' ids' ys"
  by (induction prev ids xs rule: legalFrom.induct) auto

lemma legalFrom_assistant: "legalFrom prev ids ((RoleAssistant, bs) # xs) \<Longrightarrow> resultFree (RoleAssistant, bs)"
  by (auto simp: resultFree_def list_all_iff)

lemma legalFrom_before:
  assumes "legalFrom prev ids (x # y # ys)" "\<not> resultFree y"
  shows "resultFree x"
proof -
  obtain r bs where x: "x = (r, bs)" by (cases x) auto
  obtain r' bs' where y: "y = (r', bs')" by (cases y) auto
  have "r' = RoleUser" using assms x y by (cases r') (auto simp: resultFree_def list_all_iff)
  then have "r = RoleAssistant" using assms(1) x y by (cases r) auto
  with assms(1) x show ?thesis using legalFrom_assistant by blast
qed

lemma chosenCut_legal:
  assumes "legalConversation messages" "0 < chosenCut c messages n" "1 < length messages"
  shows "chosenCut c messages n < length messages \<and> resultFree (shapeM (messages ! chosenCut c messages n))
    \<and> legalFrom None [] (map shapeM (drop (chosenCut c messages n) messages))"
proof -
  let ?last = "length messages - 1"
  define k0 where "k0 = cutLoop (EstimateMessagesTokens c) messages (suffixBudgetOf n)
      (EstimateMessagesTokens c (drop ?last messages)) ?last"
  have k0: "k0 \<le> ?last"
    unfolding k0_def using message_estimate.cutLoop_bound [OF refl, of ?last messages] assms(3) by simp
  have cut: "chosenCut c messages n = (if 0 < k0 \<and> hasToolResult (messages ! k0) then k0 - 1 else k0)"
    by (simp add: chosenCut_def k0_def)
  let ?k = "chosenCut c messages n"
  have k: "?k < length messages" using cut k0 assms(3) by (auto split: if_splits)
  have split: "map shapeM messages = map shapeM (take ?k messages) @ map shapeM (drop ?k messages)"
    by (metis append_take_drop_id map_append)
  then obtain prev ids where legal: "legalFrom prev ids (map shapeM (drop ?k messages))"
    using assms(1) legalFrom_append unfolding legalConversation_def by metis
  have hd: "map shapeM (drop ?k messages) = shapeM (messages ! ?k) # map shapeM (drop (Suc ?k) messages)"
    using k by (simp flip: Cons_nth_drop_Suc)
  have free: "resultFree (shapeM (messages ! ?k))"
  proof (cases "0 < k0 \<and> hasToolResult (messages ! k0)")
    case True
    then have "Suc ?k = k0" using cut by simp
    moreover have "k0 < length messages" using k0 assms(3) by simp
    ultimately have "map shapeM (drop ?k messages) =
        shapeM (messages ! ?k) # shapeM (messages ! k0) # map shapeM (drop (Suc k0) messages)"
      using hd by (simp flip: Cons_nth_drop_Suc)
    then show ?thesis using legalFrom_before legal True hasToolResult_shape by metis
  next
    case False
    then show ?thesis using cut assms(2) hasToolResult_shape by auto
  qed
  from legalFrom_resultFree [OF _ free] legal hd have "legalFrom None [] (map shapeM (drop ?k messages))" by simp
  with k free show ?thesis by blast
qed

lemma withSummary_legal:
  assumes "legalFrom None [] (map shapeM ms)" "ms \<noteq> []" "resultFree (shapeM (hd ms))"
  shows "legalFrom None [] (map shapeM (withSummary summary ms))"
proof -
  obtain m rest where ms: "ms = m # rest" using assms(2) by (cases ms) auto
  have tb: "shapeB (textBlock summary) = (''text'', [], [], None, [], False)"
    by (simp add: shapeB_def textBlock_def emptyBlock_def)
  show ?thesis
  proof (cases "mg_Role m")
    case RoleUser
    with assms(1) ms tb show ?thesis by (simp add: withSummary_def shapeM_def)
  next
    case RoleAssistant
    with assms ms have "legalFrom (Some RoleUser) [] (map shapeM ms)"
      using legalFrom_resultFree [of None "[]" "shapeM m" "map shapeM rest" "Some RoleUser" "[]"]
      by (simp add: shapeM_def)
    with RoleAssistant ms tb show ?thesis by (simp add: withSummary_def shapeM_def)
  qed
qed

text \<open>What trimming may change: the content of tool results, and nothing else.\<close>

definition trimmedBlock :: "ContentBlock \<Rightarrow> ContentBlock \<Rightarrow> bool" where
  "trimmedBlock b b' \<longleftrightarrow> b' = b \<or> cb_Type b = ''tool_result''
     \<and> b' = b\<lparr>cb_Text := cb_Text b', cb_Raw := cb_Raw b', cb_ResultContent := cb_ResultContent b'\<rparr>"

definition trimmedMessage :: "Message \<Rightarrow> Message \<Rightarrow> bool" where
  "trimmedMessage m m' \<longleftrightarrow> list_all2 trimmedBlock (mg_Content m) (mg_Content m') \<and> m' = m\<lparr>mg_Content := mg_Content m'\<rparr>"

lemma trimmedBlock_refl: "trimmedBlock b b"
  by (simp add: trimmedBlock_def)

lemma trimmedBlock_trans: "trimmedBlock a b \<Longrightarrow> trimmedBlock b c \<Longrightarrow> trimmedBlock a c"
  by (cases a; cases b; cases c) (auto simp: trimmedBlock_def)

lemma trimmedMessage_refl: "trimmedMessage m m"
  by (simp add: trimmedMessage_def trimmedBlock_refl list.rel_refl)

lemma trimmedMessage_trans: "trimmedMessage a b \<Longrightarrow> trimmedMessage b c \<Longrightarrow> trimmedMessage a c"
  by (cases a; cases b; cases c) (auto simp: trimmedMessage_def intro: list_all2_trans [OF trimmedBlock_trans])

lemma trimmed_refl: "list_all2 trimmedMessage ms ms"
  by (simp add: trimmedMessage_refl list.rel_refl)

lemma trimmed_trans:
  "list_all2 trimmedMessage a b \<Longrightarrow> list_all2 trimmedMessage b c \<Longrightarrow> list_all2 trimmedMessage a c"
  by (rule list_all2_trans [OF trimmedMessage_trans])

lemma list_all2_update_right: "list_all2 R xs xs \<Longrightarrow> (j < length xs \<Longrightarrow> R (xs ! j) y) \<Longrightarrow> list_all2 R xs (xs[j := y])"
  by (cases "j < length xs") (auto simp: list_all2_conv_all_nth nth_list_update)

lemma updateBlock_trimmed:
  assumes "trimmedBlock (mg_Content (ms ! i) ! j) (f (mg_Content (ms ! i) ! j))"
  shows "list_all2 trimmedMessage ms (updateBlock ms i j f)"
  unfolding updateBlock_def using assms
  by (intro list_all2_update_right trimmed_refl)
    (simp add: trimmedMessage_def list_all2_update_right list.rel_refl trimmedBlock_refl)

lemma trimPass_trimmed:
  assumes "\<And>b. sel b \<Longrightarrow> trimmedBlock b (f b)"
  shows "list_all2 trimmedMessage ms (fst (trimPass est n sel f ms changed ps))"
proof (induction ps arbitrary: ms changed)
  case (Cons p ps)
  obtain i j where p: "p = (i, j)" by (cases p) auto
  let ?ms = "updateBlock ms i j f"
  have u: "list_all2 trimmedMessage ms ?ms" if "sel (mg_Content (ms ! i) ! j)"
    using that by (intro updateBlock_trimmed assms)
  have "list_all2 trimmedMessage ms (fst (trimPass est n sel f ?ms ch ps))" if "sel (mg_Content (ms ! i) ! j)" for ch
    using u [OF that] Cons.IH by (rule trimmed_trans)
  with p u Cons.IH show ?case by (simp add: Let_def)
qed (simp add: trimmed_refl)

lemma compactOversized_trimmed: "list_all2 trimmedMessage ms (fst (compactOversizedToolResults c ms n))"
proof -
  let ?est = "EstimateMessagesTokens c"
  have f: "trimmedBlock b (trimBlock b)" "trimmedBlock b (dropBlock b)" if "cb_Type b = ''tool_result''" for b
    using that by (simp_all add: trimmedBlock_def trimBlock_def dropBlock_def)
  obtain ms1 compacted returned where t1: "trimPass ?est n (\<lambda>b. cb_Type b = ''tool_result'' \<and> 1024 \<le> originalBytes b)
      trimBlock ms False (positions ms) = (ms1, compacted, returned)" by (rule prod_cases3)
  have "list_all2 trimmedMessage ms (fst (ms1, compacted, returned))"
    unfolding t1 [symmetric] by (rule trimPass_trimmed) (simp add: f)
  then have s1: "list_all2 trimmedMessage ms ms1" by simp
  obtain ms2 x y where t2: "trimPass ?est n
      (\<lambda>b. cb_Type b = ''tool_result'' \<and> contains (cb_Text b) ''Tool result compacted'')
      dropBlock ms1 True (positions ms1) = (ms2, x, y)" by (rule prod_cases3)
  have "list_all2 trimmedMessage ms1 (fst (ms2, x, y))"
    unfolding t2 [symmetric] by (rule trimPass_trimmed) (simp add: f)
  with s1 have "list_all2 trimmedMessage ms ms2" by (auto intro: trimmed_trans)
  with s1 trimmed_refl show ?thesis unfolding compactOversizedToolResults_def Let_def t1 prod.case t2 by simp
qed

text \<open>
  The conversation a cut leaves: the messages from the cut on, with the summary of those before it as the first block
  of the first message, when that is the user's, and as a user message of its own otherwise.
\<close>

definition summarised :: "Message list \<Rightarrow> nat \<Rightarrow> nat \<Rightarrow> Message list \<Rightarrow> bool" where
  "summarised messages bytes k kept \<longleftrightarrow>
     (let summary = textBlock (compactedSummary (take k messages) bytes)
      in k < length messages \<and>
         (if mg_Role (messages ! k) = RoleUser
          then kept = (messages ! k)\<lparr>mg_Content := summary # mg_Content (messages ! k)\<rparr> # drop (Suc k) messages
          else kept = \<lparr>mg_Role = RoleUser, mg_Content = [summary], mg_ContextUsage = None\<rparr> # drop k messages))"

lemma withSummary_summarised:
  "k < length messages \<Longrightarrow>
     summarised messages n k (withSummary (compactedSummary (take k messages) n) (drop k messages))"
  by (simp add: summarised_def withSummary_def Let_def hd_drop_conv_nth tl_drop drop_Suc)

text \<open>
  C31. Compaction keeps a conversation legal: if roles alternate and every tool result answers a call of the message
  just before it, the same holds of the compacted conversation. What is left is either every message or, with a
  summary of the dropped ones put first, every message from a cut on, and at least one; of those only tool results
  are trimmed, and only their content: roles, kinds, ids, calls and their input, error flags, texts and order are the
  same.
\<close>

theorem compaction_keeps_legal:
  assumes "legalConversation messages" "CompactMessages c messages n = (projected, p)"
  shows "legalConversation projected \<and> (\<exists>kept. list_all2 trimmedMessage kept projected
    \<and> (if cp_DroppedMessages p = 0 then kept = messages
       else summarised messages (clampSummary n) (cp_DroppedMessages p) kept))"
proof (cases "n \<le> 0 \<or> EstimateMessagesTokens c messages \<le> n \<or> length messages \<le> 1 \<or> chosenCut c messages n = 0")
  case True
  have inplace: "legalConversation (fst (compactInPlace c messages n q)) \<and>
      list_all2 trimmedMessage messages (fst (compactInPlace c messages n q))
      \<and> cp_DroppedMessages (snd (compactInPlace c messages n q)) = cp_DroppedMessages q" for q
    using assms(1) compactOversized_shape [of c messages n] compactOversized_trimmed [of messages c n]
    by (simp add: compactInPlace_def legalConversation_def cloneMessages_def case_prod_beta)
  then have "legalConversation (fst (compactInPlace c messages n q))"
    "list_all2 trimmedMessage messages (fst (compactInPlace c messages n q))"
    "cp_DroppedMessages (snd (compactInPlace c messages n q)) = cp_DroppedMessages q" for q by blast+
  note kept = this
  have "legalConversation projected \<and> list_all2 trimmedMessage messages projected \<and> cp_DroppedMessages p = 0"
  proof (cases "n \<le> 0 \<or> EstimateMessagesTokens c messages \<le> n")
    case True
    with assms show ?thesis by (auto simp: CompactMessages_def Let_def cloneMessages_def trimmed_refl)
  next
    case False
    with True have "CompactMessages c messages n = compactInPlace c messages n
        \<lparr>cp_Compacted = False, cp_OriginalEstimatedTokens = EstimateMessagesTokens c messages,
         cp_ProjectedEstimatedTokens = EstimateMessagesTokens c messages, cp_DroppedMessages = 0\<rparr>" (is "_ = ?ip")
      by (auto simp: CompactMessages_def Let_def)
    with assms(2) have "fst ?ip = projected" "snd ?ip = p" by simp_all
    with kept show ?thesis by (metis ContextProjection.select_convs(4))
  qed
  then show ?thesis by auto
next
  case False
  let ?k = "chosenCut c messages n"
  let ?s = "withSummary (compactedSummary (take ?k messages) (clampSummary n)) (drop ?k messages)"
  have k: "?k < length messages" "resultFree (shapeM (messages ! ?k))"
    "legalFrom None [] (map shapeM (drop ?k messages))"
    using chosenCut_legal [OF assms(1), of c n] False by auto
  have "legalFrom None [] (map shapeM ?s)"
    using withSummary_legal [OF k(3)] k(1,2) by (simp add: hd_drop_conv_nth)
  then have "legalConversation (fst (compactOversizedToolResults c ?s n))"
    by (simp add: legalConversation_def compactOversized_shape)
  moreover have "projected = fst (compactOversizedToolResults c ?s n)" "cp_DroppedMessages p = ?k"
    using False assms(2) by (auto simp: CompactMessages_def Let_def cloneMessages_def)
  ultimately show ?thesis
    using False compactOversized_trimmed [of ?s c n] withSummary_summarised [OF k(1), of "clampSummary n"] by auto
qed

definition sampleCodec :: codec where
  "sampleCodec = \<lparr>jm_Value = \<lambda>_. Some ''{}'', jm_Block = \<lambda>_. None\<rparr>"

definition sampleConversation :: "Message list" where
  "sampleConversation =
     [\<lparr>mg_Role = RoleUser, mg_Content = [textBlock ''go''], mg_ContextUsage = None\<rparr>,
      \<lparr>mg_Role = RoleAssistant, mg_Content = [toolUseBlock ''t1'' ''bash'' None], mg_ContextUsage = None\<rparr>,
      \<lparr>mg_Role = RoleUser, mg_Content = [emptyBlock\<lparr>cb_Type := ''tool_result'', cb_ToolResultFor := ''t1''\<rparr>],
       mg_ContextUsage = None\<rparr>]"

lemma sampleConversation_legal: "legalConversation sampleConversation"
  by (simp add: legalConversation_def sampleConversation_def shapeM_def shapeB_def textBlock_def
      toolUseBlock_def emptyBlock_def)

theorem compaction_keeps_legal_witness:
  "legalConversation (fst (CompactMessages sampleCodec sampleConversation 5))
     \<and> map mg_Role (fst (CompactMessages sampleCodec sampleConversation 5)) \<noteq> []"
proof -
  obtain q p where qp: "CompactMessages sampleCodec sampleConversation 5 = (q, p)" by (cases "CompactMessages sampleCodec sampleConversation 5")
  from compaction_keeps_legal [OF sampleConversation_legal qp]
  have "legalConversation q" "q \<noteq> []"
    by (auto simp: summarised_def Let_def sampleConversation_def split: if_split_asm)
  with qp show ?thesis by simp
qed

section \<open>Bounds\<close>

text \<open>
  The kept suffix fits the budget: apart from the newest message, which is always kept, and
  from the one message before a tool result that is added for its call, the messages that
  compaction keeps are estimated at no more than nine tenths of the target.
\<close>

theorem kept_suffix_fits:
  assumes "1 < length messages"
  shows "EstimateMessagesTokens c (drop (Suc (chosenCut c messages n)) messages)
      \<le> max (suffixBudgetOf n) (messageTokens c (last messages))
    \<and> chosenCut c messages n < length messages"
proof -
  let ?last = "length messages - 1" and ?est = "EstimateMessagesTokens c"
  define k0 where "k0 = cutLoop ?est messages (suffixBudgetOf n) (?est (drop ?last messages)) ?last"
  have last: "?est (drop ?last messages) = messageTokens c (last messages)"
    using assms by (cases messages rule: rev_cases) (simp_all add: EstimateMessagesTokens_def)
  have k0: "k0 \<le> ?last" "?est (drop k0 messages) \<le> max (suffixBudgetOf n) (messageTokens c (last messages))"
    unfolding k0_def last [symmetric]
    using message_estimate.cutLoop_bound [OF refl, of ?last messages] assms by auto
  have cut: "k0 \<le> Suc (chosenCut c messages n)" "chosenCut c messages n \<le> k0"
    unfolding chosenCut_def Let_def k0_def [symmetric] by auto
  have "drop k0 messages = take (Suc (chosenCut c messages n) - k0) (drop k0 messages)
      @ drop (Suc (chosenCut c messages n)) messages"
    using cut(1) by (metis append_take_drop_id drop_drop le_add_diff_inverse2)
  then have "?est (drop (Suc (chosenCut c messages n)) messages) \<le> ?est (drop k0 messages)"
    using message_estimate.est_append message_estimate.est_nonneg by (metis le_add_same_cancel2)
  with k0 cut assms show ?thesis by linarith
qed

theorem kept_suffix_fits_witness:
  "EstimateMessagesTokens sampleCodec (drop (Suc (chosenCut sampleCodec sampleConversation 5)) sampleConversation)
      \<le> max (suffixBudgetOf 5) (messageTokens sampleCodec (last sampleConversation))"
  using kept_suffix_fits [of sampleConversation sampleCodec 5] by (simp add: sampleConversation_def)

lemma prefixCut_le: "prefixCut v n \<le> n \<and> validUtf8 (take (prefixCut v n) v)"
proof (induction v n rule: prefixCut.induct)
  case (1 v n)
  then show ?case
    by (cases "0 < n \<and> \<not> validUtf8 (take n v)") (auto simp: prefixCut.simps [of v n] validUtf8_def)
qed

lemma suffixStart_ge: "n \<le> suffixStart v n \<and> validUtf8 (drop (suffixStart v n) v)"
proof (induction v n rule: suffixStart.induct)
  case (1 v n)
  then show ?case
    by (cases "n < length v \<and> \<not> validUtf8 (drop n v)") (auto simp: suffixStart.simps [of v n] validUtf8_def)
qed

lemma summaryLines_bound:
  "length out \<le> m \<Longrightarrow> maxBytes \<le> m \<Longrightarrow>
     length (summaryLines maxBytes out ls) \<le> m + length (nl @ ''[older context truncated]'')"
  by (induction maxBytes out ls rule: summaryLines.induct) auto

text \<open>
  What stands for dropped content is bounded: the summary exceeds its byte budget by at most the
  truncation note, and the excerpt of a tool result longer than 3000 bytes is at most 3000 bytes,
  made of a prefix and a suffix of the text that are valid UTF-8 on their own.
\<close>

theorem compaction_text_bounds:
  assumes "3000 < length toolText" and "length (excerptMarker bytes) < 3000"
  shows "length (compactedSummary ms n)
      \<le> max n (length summaryHeader) + length (nl @ ''[older context truncated]'')
    \<and> (\<exists>h t. compactedToolResultExcerpt toolText bytes 3000 = h @ excerptMarker bytes @ t
        \<and> length (h @ excerptMarker bytes @ t) \<le> 3000 \<and> prefix h toolText \<and> validUtf8 h
        \<and> Sublist.suffix t toolText \<and> validUtf8 t)"
proof -
  let ?m = "length (excerptMarker bytes)"
  let ?h = "(3000 - ?m) * 3 div 4"
  let ?t = "3000 - ?m - ?h"
  have sum: "length (compactedSummary ms n)
      \<le> max n (length summaryHeader) + length (nl @ ''[older context truncated]'')"
    unfolding compactedSummary_def by (rule summaryLines_bound) auto
  have h: "?h \<le> 3000 - ?m" by simp
  have ne: "toolText \<noteq> []" "\<not> length toolText \<le> 3000" "\<not> 3000 \<le> ?m" using assms by auto
  have lens: "\<not> length toolText \<le> ?h" "\<not> length toolText \<le> ?t" using assms(1) h by linarith+
  have p: "validUTF8Prefix toolText ?h = take (prefixCut toolText ?h) toolText"
    using lens by (simp add: validUTF8Prefix_def)
  have s: "validUTF8Suffix toolText ?t = drop (suffixStart toolText (length toolText - ?t)) toolText"
    using lens by (simp add: validUTF8Suffix_def)
  have lp: "length (validUTF8Prefix toolText ?h) \<le> ?h"
    unfolding p using prefixCut_le [of toolText ?h] by (simp add: min.coboundedI2)
  have ls: "length (validUTF8Suffix toolText ?t) \<le> ?t"
    unfolding s length_drop using suffixStart_ge [of "length toolText - ?t" toolText] lens by linarith
  have "compactedToolResultExcerpt toolText bytes 3000 =
      validUTF8Prefix toolText ?h @ excerptMarker bytes @ validUTF8Suffix toolText ?t"
    using ne by (simp add: compactedToolResultExcerpt_def Let_def)
  moreover have "length (validUTF8Prefix toolText ?h @ excerptMarker bytes @ validUTF8Suffix toolText ?t) \<le> 3000"
    unfolding length_append using lp ls h assms(2) by linarith
  moreover have "prefix (validUTF8Prefix toolText ?h) toolText" "validUtf8 (validUTF8Prefix toolText ?h)"
    unfolding p using prefixCut_le [of toolText ?h] by (auto simp: take_is_prefix)
  moreover have "Sublist.suffix (validUTF8Suffix toolText ?t) toolText" "validUtf8 (validUTF8Suffix toolText ?t)"
    unfolding s using suffixStart_ge [of "length toolText - ?t" toolText] by (auto simp: suffix_drop)
  ultimately show ?thesis using sum by blast
qed

theorem compaction_text_bounds_witness:
  "length (compactedSummary [] 512) \<le> max 512 (length summaryHeader) + length (nl @ ''[older context truncated]'')"
  using compaction_text_bounds [of "replicate 4000 (CHR ''x'')" 4000 "[]" 512]
  by (simp add: excerptMarker_def itoa_def decNat.simps)

text \<open>
  A result of 1024 to 3000 bytes of text is not shortened by its excerpt: the marker makes it longer.
\<close>

lemma short_excerpt_grows:
  assumes "text0 \<noteq> []" "length text0 \<le> 3000" "length (excerptMarker bytes) < 3000"
  shows "length text0 < length (compactedToolResultExcerpt text0 bytes 3000)"
  using assms by (simp add: compactedToolResultExcerpt_def Let_def excerptMarker_def)

end
