(* ===== verification/Journal.thy ===== *)
theory Journal
  imports Messages
begin

text \<open>
  The tool-execution journal (\<open>internal/domain/execution.go\<close>, \<open>internal/pg/journal.go\<close> and its
  queries): attempts of a turn and the tool steps of an attempt, with the side-effect boundary
  prepared, started, completed or ambiguous. An operation is one transaction: it returns an error
  and leaves the tables as they were, or a result with the new tables. The locks that the
  transactions take make each of them atomic, except that two transactions may both find no active
  attempt to lock; the step relation therefore lets the reads and the insert of a new attempt
  happen at different times. The round trips through \<open>encoding/json\<close> of a tool input and of a
  result are arguments (\<open>None\<close> where encoding fails).
\<close>

section \<open>Data (internal/domain/execution.go)\<close>

datatype RunAttemptState =
    RunAttemptActive
  | RunAttemptCompleted
  | RunAttemptFailed
  | RunAttemptInterrupted

datatype ToolStepState =
    ToolStepPrepared
  | ToolStepStarted
  | ToolStepCompleted
  | ToolStepAmbiguous

record ToolStepResult =
  sr_Content :: "jval slice"
  sr_IsError :: bool
  sr_InjectedContent :: "ContentBlock slice"
  sr_Events :: "EventDraft slice"
  sr_Raw :: "string option"
  sr_RawPath :: string

record ToolStep =
  ts_ID :: string
  ts_AttemptID :: string
  ts_Ordinal :: int
  ts_ToolUseEventID :: string
  ts_ToolName :: string
  ts_Input :: payload
  ts_State :: ToolStepState
  ts_Result :: "ToolStepResult option"
  ts_CreatedAt :: time
  ts_UpdatedAt :: time
  ts_StartedAt :: "time option"
  ts_FinishedAt :: "time option"

record TurnAttempt =
  ta_ID :: string
  ta_SessionID :: string
  ta_TriggerEventID :: string
  ta_AttemptNo :: int
  ta_State :: RunAttemptState

record attemptRow = TurnAttempt +
  ar_Error :: "string option"
  ar_CreatedAt :: time
  ar_UpdatedAt :: time
  ar_FinishedAt :: "time option"

definition turnAttemptFromRow :: "attemptRow \<Rightarrow> TurnAttempt" where
  "turnAttemptFromRow row = TurnAttempt.truncate row"

text \<open>
  \<open>reflect.DeepEqual\<close> on results: slices element by element, a nil slice different from an
  empty one.
\<close>

definition blockEq :: "ContentBlock \<Rightarrow> ContentBlock \<Rightarrow> bool" where
  "blockEq a b \<longleftrightarrow> metaEq (cb_Input a) (cb_Input b) \<and> a\<lparr>cb_Input := None\<rparr> = b\<lparr>cb_Input := None\<rparr>"

definition draftEq :: "EventDraft \<Rightarrow> EventDraft \<Rightarrow> bool" where
  "draftEq a b \<longleftrightarrow> deepEq (JObj (d_Payload a)) (JObj (d_Payload b))
     \<and> a\<lparr>d_Payload := []\<rparr> = b\<lparr>d_Payload := []\<rparr>"

definition sliceEq :: "('a \<Rightarrow> 'a \<Rightarrow> bool) \<Rightarrow> 'a slice \<Rightarrow> 'a slice \<Rightarrow> bool" where
  "sliceEq eq a b \<longleftrightarrow>
     (case (a, b) of (None, None) \<Rightarrow> True | (Some xs, Some ys) \<Rightarrow> list_all2 eq xs ys | _ \<Rightarrow> False)"

definition resultEq :: "ToolStepResult \<Rightarrow> ToolStepResult \<Rightarrow> bool" where
  "resultEq a b \<longleftrightarrow>
     listEq (sr_Content a) (sr_Content b) \<and> sr_IsError a = sr_IsError b
     \<and> sliceEq blockEq (sr_InjectedContent a) (sr_InjectedContent b)
     \<and> sliceEq draftEq (sr_Events a) (sr_Events b)
     \<and> sr_Raw a = sr_Raw b \<and> sr_RawPath a = sr_RawPath b"

definition wfResult :: "ToolStepResult \<Rightarrow> bool" where
  "wfResult r \<longleftrightarrow> (\<forall>xs. sr_Content r = Some xs \<longrightarrow> list_all wfJson xs)
     \<and> list_all (\<lambda>b. \<forall>m. cb_Input b = Some m \<longrightarrow> wfJson (JObj m)) (elems (sr_InjectedContent r))
     \<and> list_all (\<lambda>d. wfJson (JObj (d_Payload d))) (elems (sr_Events r))"

lemma sliceEq_refl: "(\<And>x. x \<in> set (elems a) \<Longrightarrow> eq x x) \<Longrightarrow> sliceEq eq a a"
  by (auto simp: sliceEq_def elems_def split: option.splits intro: list.rel_refl_strong)

lemma listEq_refl: "(\<And>xs. a = Some xs \<Longrightarrow> list_all wfJson xs) \<Longrightarrow> listEq a a"
  using deepEq_refl [of "JArr (the a)"] by (cases a) (auto simp: listEq_def)

lemma resultEq_refl: "wfResult r \<Longrightarrow> resultEq r r"
  unfolding resultEq_def wfResult_def
  by (auto simp: list_all_iff blockEq_def draftEq_def metaEq_def simp del: deepEq.simps wfJson.simps
      intro!: listEq_refl sliceEq_refl deepEq_refl split: option.splits)

section \<open>Tables and queries (internal/pg/queries/journal.sql)\<close>

record journal =
  jn_Sessions :: "string list"
  jn_Attempts :: "attemptRow list"
  jn_Steps :: "ToolStep list"

definition int32 :: "int \<Rightarrow> int" where
  "int32 n = (n + 2 ^ 31) mod 2 ^ 32 - 2 ^ 31"

definition ofTurn :: "string \<Rightarrow> string \<Rightarrow> attemptRow \<Rightarrow> bool" where
  "ofTurn sessionID triggerEventID a \<longleftrightarrow>
     ta_SessionID a = sessionID \<and> ta_TriggerEventID a = triggerEventID"

definition NextAttemptNo :: "string \<Rightarrow> string \<Rightarrow> journal \<Rightarrow> int" where
  "NextAttemptNo sessionID triggerEventID s =
     foldr max (map ta_AttemptNo (filter (ofTurn sessionID triggerEventID) (jn_Attempts s))) 0 + 1"

definition InsertTurnAttempt :: "attemptRow \<Rightarrow> journal \<Rightarrow> storeError + journal" where
  "InsertTurnAttempt row s =
     (let turn = filter (ofTurn (ta_SessionID row) (ta_TriggerEventID row)) (jn_Attempts s)
      in if ta_SessionID row \<notin> set (jn_Sessions s) \<or> ta_AttemptNo row \<le> 0
            \<or> ta_ID row \<in> ta_ID ` set (jn_Attempts s)
            \<or> ta_AttemptNo row \<in> ta_AttemptNo ` set turn
            \<or> ta_State row = RunAttemptActive \<and> RunAttemptActive \<in> ta_State ` set turn
         then Inl ConstraintViolation
         else Inr (s\<lparr>jn_Attempts := jn_Attempts s @ [row]\<rparr>))"

definition GetTurnAttempt :: "string \<Rightarrow> journal \<Rightarrow> attemptRow option" where
  "GetTurnAttempt i s = find (\<lambda>a. ta_ID a = i) (jn_Attempts s)"

definition ActiveAttemptForTurn :: "string \<Rightarrow> string \<Rightarrow> journal \<Rightarrow> string option" where
  "ActiveAttemptForTurn sessionID triggerEventID s =
     map_option ta_ID
       (find (\<lambda>a. ofTurn sessionID triggerEventID a \<and> ta_State a = RunAttemptActive) (jn_Attempts s))"

definition finishable :: "string \<Rightarrow> attemptRow \<Rightarrow> bool" where
  "finishable i a \<longleftrightarrow> ta_ID a = i \<and> ta_State a = RunAttemptActive"

definition FinishTurnAttempt ::
    "RunAttemptState \<Rightarrow> string option \<Rightarrow> time \<Rightarrow> string \<Rightarrow> journal \<Rightarrow> nat \<times> journal" where
  "FinishTurnAttempt state err now i s =
     (affected (finishable i) (jn_Attempts s),
      s\<lparr>jn_Attempts := updateWhere (finishable i)
           (\<lambda>a. a\<lparr>ta_State := state, ar_Error := err, ar_UpdatedAt := now, ar_FinishedAt := Some now\<rparr>)
           (jn_Attempts s)\<rparr>)"

definition InsertToolStep :: "ToolStep \<Rightarrow> journal \<Rightarrow> storeError + journal" where
  "InsertToolStep row s =
     (if ts_AttemptID row \<notin> ta_ID ` set (jn_Attempts s) \<or> ts_Ordinal row < 0
         \<or> ts_ID row \<in> ts_ID ` set (jn_Steps s)
         \<or> ts_ToolUseEventID row \<in> ts_ToolUseEventID ` set (jn_Steps s)
         \<or> (ts_AttemptID row, ts_Ordinal row) \<in> (\<lambda>t. (ts_AttemptID t, ts_Ordinal t)) ` set (jn_Steps s)
      then Inl ConstraintViolation
      else Inr (s\<lparr>jn_Steps := jn_Steps s @ [row]\<rparr>))"

definition ToolStepConflict :: "string \<Rightarrow> int \<Rightarrow> string \<Rightarrow> journal \<Rightarrow> bool" where
  "ToolStepConflict attemptID ordinal eventID s \<longleftrightarrow>
     list_ex (\<lambda>t. ts_AttemptID t = attemptID \<and> ts_Ordinal t = ordinal \<or> ts_ToolUseEventID t = eventID)
       (jn_Steps s)"

definition GetToolStep :: "string \<Rightarrow> journal \<Rightarrow> ToolStep option" where
  "GetToolStep i s = find (\<lambda>t. ts_ID t = i) (jn_Steps s)"

definition setSteps :: "(ToolStep \<Rightarrow> bool) \<Rightarrow> (ToolStep \<Rightarrow> ToolStep) \<Rightarrow> journal \<Rightarrow> nat \<times> journal" where
  "setSteps p f s = (affected p (jn_Steps s), s\<lparr>jn_Steps := updateWhere p f (jn_Steps s)\<rparr>)"

definition StartToolStepRow :: "time \<Rightarrow> string \<Rightarrow> journal \<Rightarrow> nat \<times> journal" where
  "StartToolStepRow now i s =
     setSteps (\<lambda>t. ts_ID t = i \<and> ts_State t = ToolStepPrepared
         \<and> list_ex (\<lambda>a. ta_ID a = ts_AttemptID t \<and> ta_State a = RunAttemptActive) (jn_Attempts s))
       (\<lambda>t. t\<lparr>ts_State := ToolStepStarted, ts_StartedAt := Some now, ts_UpdatedAt := now\<rparr>) s"

definition CompleteToolStepRow :: "ToolStepResult \<Rightarrow> time \<Rightarrow> string \<Rightarrow> journal \<Rightarrow> nat \<times> journal" where
  "CompleteToolStepRow result now i s =
     setSteps (\<lambda>t. ts_ID t = i \<and> ts_State t = ToolStepStarted)
       (\<lambda>t. t\<lparr>ts_State := ToolStepCompleted, ts_Result := Some result, ts_FinishedAt := Some now,
             ts_UpdatedAt := now\<rparr>) s"

text \<open>A coordinator step commits its effect and its result in one transaction: it is never started.\<close>

definition CompletePreparedToolStepRow :: "ToolStepResult \<Rightarrow> time \<Rightarrow> string \<Rightarrow> journal \<Rightarrow> nat \<times> journal" where
  "CompletePreparedToolStepRow result now i s =
     setSteps (\<lambda>t. ts_ID t = i \<and> ts_State t = ToolStepPrepared)
       (\<lambda>t. t\<lparr>ts_State := ToolStepCompleted, ts_Result := Some result, ts_FinishedAt := Some now,
             ts_UpdatedAt := now\<rparr>) s"

definition markAmbiguous :: "time \<Rightarrow> ToolStep \<Rightarrow> ToolStep" where
  "markAmbiguous now t =
     t\<lparr>ts_State := ToolStepAmbiguous, ts_FinishedAt := Some now, ts_UpdatedAt := now\<rparr>"

definition MarkToolStepAmbiguousRow :: "time \<Rightarrow> string \<Rightarrow> journal \<Rightarrow> nat \<times> journal" where
  "MarkToolStepAmbiguousRow now i s =
     setSteps (\<lambda>t. ts_ID t = i \<and> ts_State t = ToolStepStarted) (markAmbiguous now) s"

definition MarkStartedStepsAmbiguousForAttempt :: "time \<Rightarrow> string \<Rightarrow> journal \<Rightarrow> nat \<times> journal" where
  "MarkStartedStepsAmbiguousForAttempt now attemptID s =
     setSteps (\<lambda>t. ts_AttemptID t = attemptID \<and> ts_State t = ToolStepStarted) (markAmbiguous now) s"

definition CountStartedStepsForAttempt :: "string \<Rightarrow> journal \<Rightarrow> nat" where
  "CountStartedStepsForAttempt attemptID s =
     affected (\<lambda>t. ts_AttemptID t = attemptID \<and> ts_State t = ToolStepStarted) (jn_Steps s)"

definition CountNonCompletedStepsForAttempt :: "string \<Rightarrow> journal \<Rightarrow> nat" where
  "CountNonCompletedStepsForAttempt attemptID s =
     affected (\<lambda>t. ts_AttemptID t = attemptID \<and> ts_State t \<noteq> ToolStepCompleted) (jn_Steps s)"

definition inTurn :: "string \<Rightarrow> string \<Rightarrow> journal \<Rightarrow> ToolStep \<Rightarrow> bool" where
  "inTurn sessionID triggerEventID s t \<longleftrightarrow>
     list_ex (\<lambda>a. ta_ID a = ts_AttemptID t \<and> ofTurn sessionID triggerEventID a) (jn_Attempts s)"

definition StartedStepsForTurn :: "string \<Rightarrow> string \<Rightarrow> journal \<Rightarrow> string list" where
  "StartedStepsForTurn sessionID triggerEventID s =
     map ts_ID (filter (\<lambda>t. inTurn sessionID triggerEventID s t \<and> ts_State t = ToolStepStarted) (jn_Steps s))"

definition crossed :: "ToolStep \<Rightarrow> bool" where
  "crossed t \<longleftrightarrow> ts_State t \<in> {ToolStepStarted, ToolStepCompleted, ToolStepAmbiguous}"

definition PriorToolExecutionForTurn :: "string \<Rightarrow> string \<Rightarrow> journal \<Rightarrow> bool" where
  "PriorToolExecutionForTurn sessionID triggerEventID s \<longleftrightarrow>
     list_ex (\<lambda>t. inTurn sessionID triggerEventID s t \<and> crossed t) (jn_Steps s)"

section \<open>Operations (internal/pg/journal.go)\<close>

text \<open>
  What the first reads of a new attempt see: no active attempt, no prior execution, the next
  number. \<open>BeginAttempt\<close> and \<open>EnsureAttempt\<close> refuse in their own words.
\<close>

definition newAttempt :: "string \<Rightarrow> string \<Rightarrow> string \<Rightarrow> int \<Rightarrow> time \<Rightarrow> attemptRow" where
  "newAttempt i sessionID triggerEventID n now =
     \<lparr>ta_ID = i, ta_SessionID = sessionID, ta_TriggerEventID = triggerEventID, ta_AttemptNo = n,
      ta_State = RunAttemptActive, ar_Error = None, ar_CreatedAt = now, ar_UpdatedAt = now,
      ar_FinishedAt = None\<rparr>"

definition BeginAttempt ::
    "string \<Rightarrow> time \<Rightarrow> string \<Rightarrow> string \<Rightarrow> journal \<Rightarrow> storeError + TurnAttempt \<times> journal" where
  "BeginAttempt newID now sessionID triggerEventID s =
     (if ActiveAttemptForTurn sessionID triggerEventID s \<noteq> None
      then Inl (Refused (Conflict ''turn already has an active attempt''))
      else if PriorToolExecutionForTurn sessionID triggerEventID s
      then Inl (Refused (Conflict ''turn has prior tool execution that requires recovery''))
      else (let row = newAttempt newID sessionID triggerEventID
                        (NextAttemptNo sessionID triggerEventID s) now
            in bindE (InsertTurnAttempt row s) (\<lambda>s'. Inr (turnAttemptFromRow row, s'))))"

definition EnsureAttempt ::
    "time \<Rightarrow> string \<Rightarrow> string \<Rightarrow> string \<Rightarrow> journal \<Rightarrow> storeError + TurnAttempt \<times> journal" where
  "EnsureAttempt now sessionID triggerEventID attemptID s =
     (if attemptID = [] then Inl (Refused (Validation ''turn attempt id is required''))
      else (case ActiveAttemptForTurn sessionID triggerEventID s of
        Some activeID \<Rightarrow>
          if activeID \<noteq> attemptID
          then Inl (Refused (Conflict ''turn already has a different active attempt''))
          else (case GetTurnAttempt activeID s of
              None \<Rightarrow> Inl NoRows
            | Some row \<Rightarrow> Inr (turnAttemptFromRow row, s))
      | None \<Rightarrow>
          if PriorToolExecutionForTurn sessionID triggerEventID s
          then Inl (Refused (Conflict
            ''turn has prior tool execution without an active workflow attempt''))
          else (let row = newAttempt attemptID sessionID triggerEventID
                            (NextAttemptNo sessionID triggerEventID s) now
                in bindE (InsertTurnAttempt row s) (\<lambda>s'. Inr (turnAttemptFromRow row, s')))))"

definition validateAttemptFinish :: "RunAttemptState \<Rightarrow> string option \<Rightarrow> storeError + unit" where
  "validateAttemptFinish state err =
     (case state of
        RunAttemptCompleted \<Rightarrow>
          if err \<noteq> None then Inl (Refused (Validation ''completed attempt cannot carry an error''))
          else Inr ()
      | RunAttemptFailed \<Rightarrow>
          if err = None \<or> err = Some [] then Inl (Refused (Validation ''failed attempt requires an error''))
          else Inr ()
      | RunAttemptInterrupted \<Rightarrow> Inr ()
      | RunAttemptActive \<Rightarrow> Inl (Refused (Validation ''invalid terminal attempt state'')))"

definition finishAttemptLocked ::
    "time \<Rightarrow> string \<Rightarrow> RunAttemptState \<Rightarrow> string option \<Rightarrow> string \<Rightarrow> string \<Rightarrow> journal \<Rightarrow>
     storeError + journal" where
  "finishAttemptLocked now attemptID state err expectedSessionID expectedTriggerEventID s =
     (case GetTurnAttempt attemptID s of
        None \<Rightarrow> Inl (Refused (NotFound ''turn attempt not found''))
      | Some attempt \<Rightarrow>
          if expectedSessionID \<noteq> [] \<and> \<not> ofTurn expectedSessionID expectedTriggerEventID attempt
          then Inl (Refused (Conflict ''attempt does not belong to this turn''))
          else if ta_State attempt \<noteq> RunAttemptActive
          then Inl (Refused (Conflict ''attempt is not active''))
          else
            (let s1 = (if state = RunAttemptInterrupted
                       then snd (MarkStartedStepsAmbiguousForAttempt now attemptID s) else s)
             in if 0 < CountStartedStepsForAttempt attemptID s1
                then Inl (Refused (Conflict ''attempt has unclassified started tool steps''))
                else if state = RunAttemptCompleted \<and> 0 < CountNonCompletedStepsForAttempt attemptID s1
                then Inl (Refused (Conflict ''completed attempt has non-completed tool steps''))
                else (let (n, s2) = FinishTurnAttempt state err now attemptID s1
                      in if n \<noteq> 1 then Inl (Refused (Conflict ''attempt is not active'')) else Inr s2)))"

definition FinishAttempt ::
    "time \<Rightarrow> string \<Rightarrow> RunAttemptState \<Rightarrow> string option \<Rightarrow> journal \<Rightarrow> storeError + journal" where
  "FinishAttempt now attemptID state err s =
     bindE (validateAttemptFinish state err) (\<lambda>_. finishAttemptLocked now attemptID state err [] [] s)"

definition newStep ::
    "string \<Rightarrow> string \<Rightarrow> int \<Rightarrow> string \<Rightarrow> string \<Rightarrow> payload \<Rightarrow> time \<Rightarrow> ToolStep" where
  "newStep stepID attemptID ordinal eventID toolName inp now =
     \<lparr>ts_ID = stepID, ts_AttemptID = attemptID, ts_Ordinal = ordinal, ts_ToolUseEventID = eventID,
      ts_ToolName = toolName, ts_Input = inp, ts_State = ToolStepPrepared, ts_Result = None,
      ts_CreatedAt = now, ts_UpdatedAt = now, ts_StartedAt = None, ts_FinishedAt = None\<rparr>"

definition PrepareToolStep ::
    "(payload \<Rightarrow> payload option) \<Rightarrow> string \<Rightarrow> time \<Rightarrow> string \<Rightarrow> int \<Rightarrow> string \<Rightarrow> string \<Rightarrow>
     payload option \<Rightarrow> journal \<Rightarrow> storeError + string \<times> journal" where
  "PrepareToolStep recode newID now attemptID ordinal eventID toolName inp s =
     (if ordinal < 0 then Inl (Refused (Validation ''tool step ordinal must be non-negative''))
      else if eventID = [] then Inl (Refused (Validation ''tool step event id is required''))
      else if toolName = [] then Inl (Refused (Validation ''tool step name is required''))
      else (case inp of
        None \<Rightarrow> Inl (Refused (Validation ''tool step input is required''))
      | Some given \<Rightarrow> (case recode given of
          None \<Rightarrow> Inl NotEncodable
        | Some stored \<Rightarrow> (case GetTurnAttempt attemptID s of
            None \<Rightarrow> Inl (Refused (NotFound ''turn attempt not found''))
          | Some attempt \<Rightarrow>
              if ta_State attempt \<noteq> RunAttemptActive
              then Inl (Refused (Conflict ''tool step requires an active attempt''))
              else if ToolStepConflict attemptID (int32 ordinal) eventID s
              then Inl (Refused (Conflict ''tool step ordinal or event id already exists''))
              else bindE (InsertToolStep
                     (newStep newID attemptID (int32 ordinal) eventID toolName stored now) s)
                   (\<lambda>s'. Inr (newID, s'))))))"

definition sameRequest :: "string \<Rightarrow> int \<Rightarrow> string \<Rightarrow> string \<Rightarrow> payload \<Rightarrow> ToolStep \<Rightarrow> bool" where
  "sameRequest attemptID ordinal eventID toolName normalized existing \<longleftrightarrow>
     ts_AttemptID existing = attemptID \<and> ts_Ordinal existing = ordinal
     \<and> ts_ToolUseEventID existing = eventID \<and> ts_ToolName existing = toolName
     \<and> deepEq (JObj (ts_Input existing)) (JObj normalized)"

definition toolStepFromRow :: "ToolStep \<Rightarrow> storeError + ToolStep" where
  "toolStepFromRow row =
     (if ts_State row = ToolStepCompleted \<and> ts_Result row = None then Inl NotDecodable else Inr row)"

definition EnsureToolStep ::
    "(payload \<Rightarrow> payload option) \<Rightarrow> time \<Rightarrow> string \<Rightarrow> string \<Rightarrow> int \<Rightarrow> string \<Rightarrow> string \<Rightarrow>
     payload option \<Rightarrow> journal \<Rightarrow> storeError + ToolStep \<times> journal" where
  "EnsureToolStep recode now attemptID stepID ordinal eventID toolName inp s =
     (if ordinal < 0 then Inl (Refused (Validation ''tool step ordinal must be non-negative''))
      else if stepID = [] then Inl (Refused (Validation ''tool step id is required''))
      else if eventID = [] then Inl (Refused (Validation ''tool step event id is required''))
      else if toolName = [] then Inl (Refused (Validation ''tool step name is required''))
      else (case inp of
        None \<Rightarrow> Inl (Refused (Validation ''tool step input is required''))
      | Some given \<Rightarrow> (case recode given of
          None \<Rightarrow> Inl NotEncodable
        | Some normalized \<Rightarrow> (case GetTurnAttempt attemptID s of
            None \<Rightarrow> Inl (Refused (NotFound ''turn attempt not found''))
          | Some attempt \<Rightarrow>
              if ta_State attempt \<noteq> RunAttemptActive
              then Inl (Refused (Conflict ''tool step requires an active attempt''))
              else (case GetToolStep stepID s of
                Some row \<Rightarrow> bindE (toolStepFromRow row) (\<lambda>existing.
                  if \<not> sameRequest attemptID ordinal eventID toolName normalized existing
                  then Inl (Refused (Conflict ''tool step id was reused with different input''))
                  else Inr (existing, s))
              | None \<Rightarrow>
                  if ToolStepConflict attemptID (int32 ordinal) eventID s
                  then Inl (Refused (Conflict ''tool step ordinal or event id already exists''))
                  else bindE (InsertToolStep
                         (newStep stepID attemptID (int32 ordinal) eventID toolName normalized now) s)
                       (\<lambda>s'. Inr (newStep stepID attemptID ordinal eventID toolName normalized now, s')))))))"

definition StartToolStep :: "time \<Rightarrow> string \<Rightarrow> journal \<Rightarrow> storeError + unit \<times> journal" where
  "StartToolStep now stepID s =
     (case GetToolStep stepID s of
        None \<Rightarrow> Inl (Refused (NotFound ''tool step not found''))
      | Some step \<Rightarrow> (case GetTurnAttempt (ts_AttemptID step) s of
          None \<Rightarrow> Inl (Refused (NotFound ''turn attempt not found''))
        | Some attempt \<Rightarrow>
            if ta_State attempt \<noteq> RunAttemptActive
            then Inl (Refused (Conflict ''tool step requires an active attempt''))
            else (let (n, s') = StartToolStepRow now stepID s
                  in if n \<noteq> 1 then Inl (Refused (Conflict ''invalid tool step transition''))
                     else Inr ((), s'))))"

text \<open>
  Column \<open>result\<close> is \<open>jsonb\<close>: it is read back in the text form of the database, with spaces of its own. What the
  decoder interprets is as it was; \<open>Raw\<close>, a \<open>json.RawMessage\<close>, is that text.
\<close>

definition jsonbResult :: "(string \<Rightarrow> string) \<Rightarrow> ToolStepResult \<Rightarrow> ToolStepResult" where
  "jsonbResult respace result = result\<lparr>sr_Raw := map_option respace (sr_Raw result)\<rparr>"

definition CompleteToolStep ::
    "(ToolStepResult \<Rightarrow> ToolStepResult option) \<Rightarrow> (string \<Rightarrow> string) \<Rightarrow> time \<Rightarrow> string \<Rightarrow> ToolStepResult \<Rightarrow>
     journal \<Rightarrow> storeError + unit \<times> journal" where
  "CompleteToolStep recode respace now stepID result s =
     (case recode result of
        None \<Rightarrow> Inl NotEncodable
      | Some normalized \<Rightarrow>
          (let (n, s') = CompleteToolStepRow (jsonbResult respace normalized) now stepID s
           in if n = 1 then Inr ((), s')
              else (case GetToolStep stepID s' of
                None \<Rightarrow> Inl (Refused (NotFound ''tool step not found''))
              | Some row \<Rightarrow> bindE (toolStepFromRow row) (\<lambda>existing.
                  if ts_State existing = ToolStepCompleted
                     \<and> (case ts_Result existing of None \<Rightarrow> False | Some r \<Rightarrow> resultEq r normalized)
                  then Inr ((), s')
                  else Inl (Refused (Conflict ''invalid tool step transition''))))))"

definition lockCoordinatorToolStep :: "string \<Rightarrow> journal \<Rightarrow> storeError + attemptRow \<times> ToolStep" where
  "lockCoordinatorToolStep stepID s =
     (case GetToolStep stepID s of
        None \<Rightarrow> Inl (Refused (NotFound ''tool step not found''))
      | Some step \<Rightarrow> (case GetTurnAttempt (ts_AttemptID step) s of
          None \<Rightarrow> Inl (Refused (NotFound ''tool step not found''))
        | Some attempt \<Rightarrow>
            if ta_State attempt \<noteq> RunAttemptActive
            then Inl (Refused (Conflict ''coordinator tool requires an active attempt''))
            else Inr (attempt, step)))"

definition stateName :: "ToolStepState \<Rightarrow> string" where
  "stateName st = (case st of ToolStepPrepared \<Rightarrow> ''prepared'' | ToolStepStarted \<Rightarrow> ''started''
     | ToolStepCompleted \<Rightarrow> ''completed'' | ToolStepAmbiguous \<Rightarrow> ''ambiguous'')"

definition MarkToolStepAmbiguous :: "time \<Rightarrow> string \<Rightarrow> journal \<Rightarrow> storeError + unit \<times> journal" where
  "MarkToolStepAmbiguous now stepID s =
     (let (n, s') = MarkToolStepAmbiguousRow now stepID s
      in if n = 1 then Inr ((), s')
         else (case GetToolStep stepID s' of
           None \<Rightarrow> Inl (Refused (NotFound ''tool step not found''))
         | Some row \<Rightarrow>
             if ts_State row = ToolStepAmbiguous then Inr ((), s')
             else Inl (Refused (Conflict
               (''tool step cannot be marked ambiguous from state '' @ stateName (ts_State row))))))"

definition RecoverTurn :: "time \<Rightarrow> string \<Rightarrow> string \<Rightarrow> journal \<Rightarrow> bool \<times> journal" where
  "RecoverTurn now sessionID triggerEventID s =
     (let activeID = ActiveAttemptForTurn sessionID triggerEventID s;
          s1 = fold (\<lambda>i s. snd (MarkToolStepAmbiguousRow now i s))
                 (StartedStepsForTurn sessionID triggerEventID s) s;
          s2 = (case activeID of
                  None \<Rightarrow> s1
                | Some i \<Rightarrow> snd (FinishTurnAttempt RunAttemptFailed
                    (Some ''recovered: attempt abandoned before completion'') now i s1))
      in (PriorToolExecutionForTurn sessionID triggerEventID s2, s2))"

definition ToolStepStateByEventID :: "string \<Rightarrow> journal \<Rightarrow> ToolStepState option" where
  "ToolStepStateByEventID eventID s =
     map_option ts_State (find (\<lambda>t. ts_ToolUseEventID t = eventID) (jn_Steps s))"

section \<open>Lookups\<close>

text \<open>Primary keys: no two rows of a table share their id.\<close>

definition keysOk :: "journal \<Rightarrow> bool" where
  "keysOk s \<longleftrightarrow> distinct (map ta_ID (jn_Attempts s)) \<and> distinct (map ts_ID (jn_Steps s))"

lemma GetTurnAttempt_in: "GetTurnAttempt i s = Some a \<Longrightarrow> a \<in> set (jn_Attempts s) \<and> ta_ID a = i"
  unfolding GetTurnAttempt_def by (rule find_in_set)

lemma GetToolStep_in: "GetToolStep i s = Some t \<Longrightarrow> t \<in> set (jn_Steps s) \<and> ts_ID t = i"
  unfolding GetToolStep_def by (rule find_in_set)

lemma GetTurnAttempt_key:
  "keysOk s \<Longrightarrow> a \<in> set (jn_Attempts s) \<Longrightarrow> GetTurnAttempt (ta_ID a) s = Some a"
  by (simp add: keysOk_def GetTurnAttempt_def find_key)

lemma GetToolStep_key: "keysOk s \<Longrightarrow> t \<in> set (jn_Steps s) \<Longrightarrow> GetToolStep (ts_ID t) s = Some t"
  by (simp add: keysOk_def GetToolStep_def find_key)

lemma ActiveAttemptForTurn_None:
  "ActiveAttemptForTurn u e s = None \<longleftrightarrow>
     (\<forall>a \<in> set (jn_Attempts s). ofTurn u e a \<longrightarrow> ta_State a \<noteq> RunAttemptActive)"
  by (auto simp: ActiveAttemptForTurn_def find_None_all)

lemma ActiveAttemptForTurn_Some:
  "ActiveAttemptForTurn u e s = Some i \<Longrightarrow>
     \<exists>a \<in> set (jn_Attempts s). ta_ID a = i \<and> ofTurn u e a \<and> ta_State a = RunAttemptActive"
  by (auto simp: ActiveAttemptForTurn_def dest!: find_in_set)

lemma InsertTurnAttempt_Inr:
  assumes "InsertTurnAttempt row s = Inr s'"
  shows "s' = s\<lparr>jn_Attempts := jn_Attempts s @ [row]\<rparr>"
    "ta_SessionID row \<in> set (jn_Sessions s)" "0 < ta_AttemptNo row"
    "ta_ID row \<notin> ta_ID ` set (jn_Attempts s)"
    "\<forall>a \<in> set (jn_Attempts s). ofTurn (ta_SessionID row) (ta_TriggerEventID row) a \<longrightarrow>
       ta_AttemptNo a \<noteq> ta_AttemptNo row
       \<and> \<not> (ta_State row = RunAttemptActive \<and> ta_State a = RunAttemptActive)"
  using assms by (auto simp: InsertTurnAttempt_def Let_def image_iff split: if_splits)

lemma InsertToolStep_Inr:
  assumes "InsertToolStep row s = Inr s'"
  shows "s' = s\<lparr>jn_Steps := jn_Steps s @ [row]\<rparr>" "ts_AttemptID row \<in> ta_ID ` set (jn_Attempts s)"
    "ts_ID row \<notin> ts_ID ` set (jn_Steps s)" "ts_ToolUseEventID row \<notin> ts_ToolUseEventID ` set (jn_Steps s)"
    "(ts_AttemptID row, ts_Ordinal row) \<notin> (\<lambda>t. (ts_AttemptID t, ts_Ordinal t)) ` set (jn_Steps s)"
    "0 \<le> ts_Ordinal row"
  using assms by (auto simp: InsertToolStep_def image_iff split: if_splits)

lemma setSteps_keys:
  assumes "setSteps p f s = (n, s')" "\<And>t. ts_ID (f t) = ts_ID t"
  shows "keysOk s' = keysOk s"
  using assms by (auto simp: setSteps_def keysOk_def map_updateWhere_inv)

lemma keysOk_insert:
  "keysOk s \<Longrightarrow> InsertTurnAttempt row s = Inr s' \<Longrightarrow> keysOk s'"
  "keysOk s \<Longrightarrow> InsertToolStep step s = Inr s' \<Longrightarrow> keysOk s'"
  using InsertTurnAttempt_Inr(1,4) InsertToolStep_Inr(1,3) by (fastforce simp: keysOk_def)+

lemmas step_rows = StartToolStepRow_def CompleteToolStepRow_def MarkToolStepAmbiguousRow_def
  MarkStartedStepsAmbiguousForAttempt_def

section \<open>Redelivery\<close>

lemma turnAttempt_newAttempt: "ta_ID (newAttempt i u e n now) = i"
  "ta_SessionID (newAttempt i u e n now) = u" "ta_TriggerEventID (newAttempt i u e n now) = e"
  "ta_State (newAttempt i u e n now) = RunAttemptActive" "ta_AttemptNo (newAttempt i u e n now) = n"
  by (simp_all add: newAttempt_def)

lemma EnsureAttempt_again:
  assumes "EnsureAttempt t u e i s = Inr (r, s')"
  shows "EnsureAttempt t' u e i s' = Inr (r, s')"
proof (cases "ActiveAttemptForTurn u e s")
  case None
  let ?row = "newAttempt i u e (NextAttemptNo u e s) t"
  from assms None have i: "i \<noteq> []" and ins: "InsertTurnAttempt ?row s = Inr s'" and r: "r = turnAttemptFromRow ?row"
    by (auto simp: EnsureAttempt_def Let_def bindE_Inr_iff split: if_splits)
  note row = InsertTurnAttempt_Inr [OF ins]
  have "ActiveAttemptForTurn u e s' = Some i"
    using None by (auto simp: row(1) ActiveAttemptForTurn_def find_append ofTurn_def turnAttempt_newAttempt
        split: option.splits)
  moreover have "GetTurnAttempt i s' = Some ?row"
  proof -
    have "find (\<lambda>a. ta_ID a = i) (jn_Attempts s) = None"
      using row(4) by (auto simp: find_None_all turnAttempt_newAttempt)
    then show ?thesis by (simp add: row(1) GetTurnAttempt_def find_append turnAttempt_newAttempt)
  qed
  ultimately show ?thesis using i r by (simp add: EnsureAttempt_def)
next
  case (Some a)
  with assms show ?thesis by (auto simp: EnsureAttempt_def split: if_splits option.splits)
qed

interpretation ensure_attempt: redeliverable "\<lambda>_. True" "\<lambda>now. EnsureAttempt now u e i" for u e i
  by unfold_locales (auto intro: EnsureAttempt_again)

lemma setSteps_one:
  assumes "keysOk s" "\<And>t. p t \<Longrightarrow> ts_ID t = i" "\<And>t. ts_ID (f t) = ts_ID t" "setSteps p f s = (n, s')"
  shows "n = 1 \<Longrightarrow> \<exists>t. GetToolStep i s = Some t \<and> p t \<and> GetToolStep i s' = Some (f t)"
    and "n \<noteq> 1 \<Longrightarrow> s' = s \<and> (\<forall>t. GetToolStep i s = Some t \<longrightarrow> \<not> p t)"
proof -
  have n: "n = affected p (jn_Steps s)" and s': "s' = s\<lparr>jn_Steps := updateWhere p f (jn_Steps s)\<rparr>"
    using assms(4) by (auto simp: setSteps_def)
  have get: "GetToolStep i s' = map_option (\<lambda>t. if p t then f t else t) (GetToolStep i s)"
    using assms(3) by (simp add: s' GetToolStep_def find_updateWhere_key)
  show "\<exists>t. GetToolStep i s = Some t \<and> p t \<and> GetToolStep i s' = Some (f t)" if one: "n = 1"
  proof -
    obtain t where t: "t \<in> set (jn_Steps s)" "p t"
      using one n affected_pos [of p "jn_Steps s"] by auto
    then have "GetToolStep i s = Some t"
      using GetToolStep_key [OF assms(1) t(1)] assms(2) by simp
    with get t show ?thesis by simp
  qed
  show "s' = s \<and> (\<forall>t. GetToolStep i s = Some t \<longrightarrow> \<not> p t)" if "n \<noteq> 1"
  proof -
    have "n \<le> 1"
      unfolding n using assms(1,2) affected_le_1 [of ts_ID "jn_Steps s" p i] by (simp add: keysOk_def)
    with that have z: "affected p (jn_Steps s) = 0" using n by simp
    then show ?thesis
      using s' updateWhere_none [OF z, of f] GetToolStep_in by (auto simp: affected_zero)
  qed
qed

lemma StartToolStep_outcome:
  assumes "keysOk s" "StartToolStep now i s = Inr (r, s')"
  obtains t a where "GetToolStep i s = Some t" "GetTurnAttempt (ts_AttemptID t) s = Some a"
    "ta_State a = RunAttemptActive" "ts_State t = ToolStepPrepared" "StartToolStepRow now i s = (1, s')"
    "GetToolStep i s' = Some (t\<lparr>ts_State := ToolStepStarted, ts_StartedAt := Some now, ts_UpdatedAt := now\<rparr>)"
proof -
  from assms(2) obtain t a where ta: "GetToolStep i s = Some t" "GetTurnAttempt (ts_AttemptID t) s = Some a"
      "ta_State a = RunAttemptActive" "StartToolStepRow now i s = (1, s')"
    by (auto simp: StartToolStep_def split: option.splits if_splits prod.splits)
  from setSteps_one(1) [OF assms(1) _ _ ta(4) [unfolded StartToolStepRow_def], of i] ta(1)
  show thesis by (intro that [OF ta(1,2,3) _ ta(4)]) auto
qed

text \<open>
  Starting a step is the one operation that a redelivery must not repeat: a second start is
  refused, so an executor whose first start was not acknowledged learns that it may have run.
\<close>

lemma StartToolStep_once:
  assumes "keysOk s" "StartToolStep now i s = Inr (r, s')"
  shows "StartToolStep now' i s' = Inl (Refused (Conflict ''invalid tool step transition''))"
proof -
  from StartToolStep_outcome [OF assms] obtain t a where
    ta: "GetToolStep i s = Some t" "GetTurnAttempt (ts_AttemptID t) s = Some a" "ta_State a = RunAttemptActive"
      "StartToolStepRow now i s = (1, s')"
      "GetToolStep i s' = Some (t\<lparr>ts_State := ToolStepStarted, ts_StartedAt := Some now, ts_UpdatedAt := now\<rparr>)"
    by blast
  have same: "jn_Attempts s' = jn_Attempts s"
    using ta(4) by (auto simp: StartToolStepRow_def setSteps_def)
  have "keysOk s'"
    using setSteps_keys [OF ta(4) [unfolded StartToolStepRow_def]] assms(1) by simp
  have "affected (\<lambda>t. ts_ID t = i \<and> ts_State t = ToolStepPrepared
         \<and> list_ex (\<lambda>a. ta_ID a = ts_AttemptID t \<and> ta_State a = RunAttemptActive) (jn_Attempts s'))
       (jn_Steps s') = 0"
    using ta(5) GetToolStep_key [OF \<open>keysOk s'\<close>] by (auto simp: affected_zero)
  then show ?thesis
    using ta same by (simp add: StartToolStep_def GetTurnAttempt_def StartToolStepRow_def setSteps_def)
qed

lemma MarkToolStepAmbiguous_again:
  assumes "keysOk s" "MarkToolStepAmbiguous now i s = Inr (r, s')"
  shows "keysOk s' \<and> MarkToolStepAmbiguous now' i s' = Inr (r, s')"
proof -
  obtain n s1 where row: "MarkToolStepAmbiguousRow now i s = (n, s1)" by fastforce
  note one = setSteps_one [OF assms(1) _ _ row [unfolded MarkToolStepAmbiguousRow_def], of i]
  have s': "s' = s1"
    using assms(2) row by (auto simp: MarkToolStepAmbiguous_def split: if_splits option.splits)
  have k: "keysOk s'"
    using setSteps_keys [OF row [unfolded MarkToolStepAmbiguousRow_def]] assms(1)
    by (simp add: s' markAmbiguous_def)
  have "\<exists>t. GetToolStep i s' = Some t \<and> ts_State t = ToolStepAmbiguous"
  proof (cases "n = 1")
    case True
    from one(1) [OF _ _ True] show ?thesis by (auto simp: markAmbiguous_def s')
  next
    case False
    then show ?thesis
      using assms(2) row by (auto simp: MarkToolStepAmbiguous_def s' split: if_splits option.splits)
  qed
  then obtain t where t: "GetToolStep i s' = Some t" "ts_State t = ToolStepAmbiguous" by blast
  obtain m s2 where row2: "MarkToolStepAmbiguousRow now' i s' = (m, s2)" by fastforce
  note two = setSteps_one [OF k _ _ row2 [unfolded MarkToolStepAmbiguousRow_def], of i]
  have "m \<noteq> 1" using two(1) t by (auto simp: markAmbiguous_def)
  then have "s2 = s'" using two(2) by (auto simp: markAmbiguous_def)
  with \<open>m \<noteq> 1\<close> t row2 k show ?thesis by (simp add: MarkToolStepAmbiguous_def)
qed

interpretation mark_ambiguous: redeliverable keysOk "\<lambda>now. MarkToolStepAmbiguous now i" for i
  by unfold_locales (use MarkToolStepAmbiguous_again in blast)+

text \<open>
  A completion that is repeated is accepted when the raw part of the recorded result is the one that was sent: every
  other part compares equal.
\<close>

lemma CompleteToolStep_again:
  assumes k: "keysOk s" and wf: "\<And>r r'. recode r = Some r' \<Longrightarrow> wfResult r'"
    and ok: "CompleteToolStep recode respace now i result s = Inr (r, s')"
  shows "\<exists>norm stored. recode result = Some norm \<and> map_option ts_Result (GetToolStep i s') = Some (Some stored)
    \<and> (map_option ts_State (GetToolStep i s) = Some ToolStepStarted \<longrightarrow> stored = jsonbResult respace norm)
    \<and> CompleteToolStep recode respace now' i result s' =
        (if sr_Raw stored = sr_Raw norm then Inr (r, s')
         else Inl (Refused (Conflict ''invalid tool step transition'')))"
proof -
  obtain norm where norm: "recode result = Some norm"
    using ok by (auto simp: CompleteToolStep_def split: option.splits)
  obtain n s1 where row: "CompleteToolStepRow (jsonbResult respace norm) now i s = (n, s1)" by fastforce
  note one = setSteps_one [OF k _ _ row [unfolded CompleteToolStepRow_def], of i]
  have s': "s' = s1"
    using ok row norm by (auto simp: CompleteToolStep_def bindE_Inr_iff split: if_splits option.splits)
  have k': "keysOk s'"
    using setSteps_keys [OF row [unfolded CompleteToolStepRow_def]] k by (simp add: s')
  have raw: "resultEq (jsonbResult respace norm) norm \<longleftrightarrow> sr_Raw (jsonbResult respace norm) = sr_Raw norm"
    using resultEq_refl [OF wf [OF norm]] by (simp add: resultEq_def jsonbResult_def)
  have "\<exists>t q. GetToolStep i s' = Some t \<and> ts_State t = ToolStepCompleted \<and> ts_Result t = Some q
      \<and> (resultEq q norm \<longleftrightarrow> sr_Raw q = sr_Raw norm)
      \<and> (map_option ts_State (GetToolStep i s) = Some ToolStepStarted \<longrightarrow> q = jsonbResult respace norm)"
  proof (cases "n = 1")
    case True
    from one(1) [OF _ _ True] raw show ?thesis by (auto simp: s')
  next
    case False
    with one(2) have "s1 = s" "map_option ts_State (GetToolStep i s) \<noteq> Some ToolStepStarted"
      using GetToolStep_in by auto
    then show ?thesis
      using False ok row norm by (auto simp: CompleteToolStep_def s' bindE_Inr_iff toolStepFromRow_def resultEq_def
          split: if_splits option.splits)
  qed
  then obtain t q where t: "GetToolStep i s' = Some t" "ts_State t = ToolStepCompleted" "ts_Result t = Some q"
    "resultEq q norm \<longleftrightarrow> sr_Raw q = sr_Raw norm"
    "map_option ts_State (GetToolStep i s) = Some ToolStepStarted \<longrightarrow> q = jsonbResult respace norm" by blast
  obtain m s2 where row2: "CompleteToolStepRow (jsonbResult respace norm) now' i s' = (m, s2)" by fastforce
  note two = setSteps_one [OF k' _ _ row2 [unfolded CompleteToolStepRow_def], of i]
  have "m \<noteq> 1" using two(1) t by auto
  moreover from this have "s2 = s'" using two(2) by auto
  ultimately have "CompleteToolStep recode respace now' i result s' =
      (if sr_Raw q = sr_Raw norm then Inr ((), s') else Inl (Refused (Conflict ''invalid tool step transition'')))"
    using t(1-4) row2 norm by (simp add: CompleteToolStep_def toolStepFromRow_def)
  with t norm show ?thesis by auto
qed

lemma int32_id: "0 \<le> n \<Longrightarrow> n < 2 ^ 31 \<Longrightarrow> int32 n = n"
  by (simp add: int32_def)

lemma EnsureToolStep_again:
  assumes k: "keysOk s" and wf: "\<And>p p'. recode p = Some p' \<Longrightarrow> wfJson (JObj p')" and n: "ordinal < 2 ^ 31"
    and ok: "EnsureToolStep recode now a i ordinal e name inp s = Inr (r, s')"
  shows "EnsureToolStep recode now' a i ordinal e name inp s' = Inr (r, s')"
proof -
  obtain given norm att where pre: "\<not> ordinal < 0" "i \<noteq> []" "e \<noteq> []" "name \<noteq> []" "inp = Some given"
    "recode given = Some norm" "GetTurnAttempt a s = Some att" "ta_State att = RunAttemptActive"
    using ok by (auto simp: EnsureToolStep_def split: if_splits option.splits)
  show ?thesis
  proof (cases "GetToolStep i s")
    case (Some row)
    with ok pre show ?thesis by (auto simp: EnsureToolStep_def bindE_Inr_iff split: if_splits)
  next
    case None
    let ?row = "newStep i a ordinal e name norm now"
    have o32: "int32 ordinal = ordinal" using pre(1) n by (simp add: int32_id)
    have ins: "InsertToolStep ?row s = Inr s'" and r: "r = ?row"
      using ok pre None o32 by (auto simp: EnsureToolStep_def bindE_Inr_iff split: if_splits)
    note row = InsertToolStep_Inr [OF ins]
    have "GetToolStep i s' = Some ?row"
      using None by (simp add: row(1) GetToolStep_def find_append newStep_def)
    moreover have "GetTurnAttempt a s' = Some att" using pre(7) by (simp add: row(1) GetTurnAttempt_def)
    ultimately show ?thesis
      using pre r wf [OF pre(6)] deepEq_refl [of "JObj norm"]
      by (simp add: EnsureToolStep_def toolStepFromRow_def sameRequest_def newStep_def
          del: deepEq.simps wfJson.simps)
  qed
qed

section \<open>Recovery\<close>

lemma mark_twice:
  "updateWhere (\<lambda>t. ts_ID t \<in> A \<and> ts_State t = ToolStepStarted) (markAmbiguous now)
     (updateWhere (\<lambda>t. ts_ID t = i \<and> ts_State t = ToolStepStarted) (markAmbiguous now) xs) =
   updateWhere (\<lambda>t. ts_ID t \<in> insert i A \<and> ts_State t = ToolStepStarted) (markAmbiguous now) xs"
  by (induction xs) (auto simp: markAmbiguous_def)

lemma mark_fold:
  "fold (\<lambda>i s. snd (MarkToolStepAmbiguousRow now i s)) ids s =
     s\<lparr>jn_Steps := updateWhere (\<lambda>t. ts_ID t \<in> set ids \<and> ts_State t = ToolStepStarted) (markAmbiguous now)
         (jn_Steps s)\<rparr>"
proof (induction ids arbitrary: s)
  case Nil
  then show ?case by (simp add: updateWhere_map)
next
  case (Cons i ids)
  have "fold (\<lambda>i s. snd (MarkToolStepAmbiguousRow now i s)) (i # ids) s =
      s\<lparr>jn_Steps := updateWhere (\<lambda>t. ts_ID t \<in> set ids \<and> ts_State t = ToolStepStarted) (markAmbiguous now)
        (updateWhere (\<lambda>t. ts_ID t = i \<and> ts_State t = ToolStepStarted) (markAmbiguous now) (jn_Steps s))\<rparr>"
    unfolding fold_Cons comp_apply Cons.IH by (simp add: MarkToolStepAmbiguousRow_def setSteps_def)
  also have "\<dots> = s\<lparr>jn_Steps := updateWhere (\<lambda>t. ts_ID t \<in> set (i # ids) \<and> ts_State t = ToolStepStarted)
      (markAmbiguous now) (jn_Steps s)\<rparr>"
    by (simp add: mark_twice)
  finally show ?case .
qed

lemma started_mark:
  assumes "keysOk s"
  shows "fold (\<lambda>i s. snd (MarkToolStepAmbiguousRow now i s)) (StartedStepsForTurn u e s) s =
     s\<lparr>jn_Steps := updateWhere (\<lambda>t. inTurn u e s t \<and> ts_State t = ToolStepStarted) (markAmbiguous now)
         (jn_Steps s)\<rparr>"
proof -
  have "ts_ID t \<in> set (StartedStepsForTurn u e s) \<longleftrightarrow> inTurn u e s t"
    if t: "t \<in> set (jn_Steps s)" "ts_State t = ToolStepStarted" for t
  proof -
    have same: "t' = t" if "t' \<in> set (jn_Steps s)" "ts_ID t' = ts_ID t" for t'
      using GetToolStep_key [OF assms that(1)] GetToolStep_key [OF assms t(1)] that(2)
      by (metis option.inject)
    have "inTurn u e s t" if "ts_ID t \<in> set (StartedStepsForTurn u e s)"
    proof -
      from that obtain t' where "t' \<in> set (jn_Steps s)" "ts_ID t' = ts_ID t" "inTurn u e s t'"
        by (auto simp: StartedStepsForTurn_def)
      with same [of t'] show ?thesis by simp
    qed
    moreover have "ts_ID t \<in> set (StartedStepsForTurn u e s)" if "inTurn u e s t"
      using t that by (simp add: StartedStepsForTurn_def)
    ultimately show ?thesis by blast
  qed
  then have "updateWhere (\<lambda>t. ts_ID t \<in> set (StartedStepsForTurn u e s) \<and> ts_State t = ToolStepStarted)
        (markAmbiguous now) (jn_Steps s) =
      updateWhere (\<lambda>t. inTurn u e s t \<and> ts_State t = ToolStepStarted) (markAmbiguous now) (jn_Steps s)"
    by (intro updateWhere_cong) blast
  then show ?thesis by (simp add: mark_fold)
qed

definition failAttempt :: "time \<Rightarrow> attemptRow \<Rightarrow> attemptRow" where
  "failAttempt now a =
     a\<lparr>ta_State := RunAttemptFailed, ar_Error := Some ''recovered: attempt abandoned before completion'',
       ar_UpdatedAt := now, ar_FinishedAt := Some now\<rparr>"

lemma RecoverTurn_tables:
  assumes "keysOk s"
  shows "snd (RecoverTurn now u e s) =
     s\<lparr>jn_Steps := updateWhere (\<lambda>t. inTurn u e s t \<and> ts_State t = ToolStepStarted) (markAmbiguous now)
         (jn_Steps s),
       jn_Attempts := (case ActiveAttemptForTurn u e s of None \<Rightarrow> jn_Attempts s
         | Some i \<Rightarrow> updateWhere (finishable i) (failAttempt now) (jn_Attempts s))\<rparr>"
  by (simp add: RecoverTurn_def Let_def started_mark [OF assms] FinishTurnAttempt_def
      failAttempt_def [abs_def] split: option.splits)

lemma RecoverTurn_prior:
  "fst (RecoverTurn now u e s) = PriorToolExecutionForTurn u e (snd (RecoverTurn now u e s))"
  by (simp add: RecoverTurn_def Let_def)

end
