(* ===== verification/JournalSafety.thy ===== *)
theory JournalSafety
  imports Journal
begin

text \<open>
  The journal as a machine of interleaved transactions, and the invariant that keeps a side effect
  from being replayed: every operation is a sequence of four kinds of table changes, each of which
  keeps the invariant. The three reads that precede the insert of a new attempt lock nothing when the
  turn has no active attempt, and each sees what is committed at its time; they are steps of their own.
\<close>

section \<open>Table changes\<close>

definition jinit :: "string list \<Rightarrow> journal" where
  "jinit sessions = \<lparr>jn_Sessions = sessions, jn_Attempts = [], jn_Steps = []\<rparr>"

abbreviation sameTurn :: "attemptRow \<Rightarrow> attemptRow \<Rightarrow> bool" where
  "sameTurn a \<equiv> ofTurn (ta_SessionID a) (ta_TriggerEventID a)"

text \<open>The stamps and the result of a step agree with its state.\<close>

definition dated :: "ToolStep \<Rightarrow> bool" where
  "dated t \<longleftrightarrow> (ts_Result t \<noteq> None \<longleftrightarrow> ts_State t = ToolStepCompleted)
     \<and> (ts_State t = ToolStepPrepared \<longrightarrow> ts_StartedAt t = None)
     \<and> (ts_StartedAt t = None \<longrightarrow> ts_State t \<in> {ToolStepPrepared, ToolStepCompleted})
     \<and> (ts_FinishedAt t = None \<longleftrightarrow> ts_State t \<in> {ToolStepPrepared, ToolStepStarted})"

definition sameKeys :: "ToolStep \<Rightarrow> ToolStep \<Rightarrow> bool" where
  "sameKeys t t' \<longleftrightarrow> ts_ID t' = ts_ID t \<and> ts_AttemptID t' = ts_AttemptID t \<and> ts_Ordinal t' = ts_Ordinal t
     \<and> ts_ToolUseEventID t' = ts_ToolUseEventID t \<and> ts_ToolName t' = ts_ToolName t \<and> ts_Input t' = ts_Input t"

text \<open>The moves of the state machine of one step.\<close>

definition liveAttempt :: "journal \<Rightarrow> string \<Rightarrow> bool" where
  "liveAttempt s i \<longleftrightarrow> (\<exists>a \<in> set (jn_Attempts s). ta_ID a = i \<and> ta_State a = RunAttemptActive)"

definition stepMoves :: "journal \<Rightarrow> ToolStep \<Rightarrow> ToolStep \<Rightarrow> bool" where
  "stepMoves s t t' \<longleftrightarrow> sameKeys t t' \<and> (dated t \<longrightarrow> dated t')
     \<and> (ts_State t = ToolStepPrepared \<and> ts_State t' \<in> {ToolStepStarted, ToolStepCompleted} \<and> liveAttempt s (ts_AttemptID t)
        \<or> ts_State t = ToolStepStarted \<and> ts_State t' \<in> {ToolStepCompleted, ToolStepAmbiguous})"

definition uncrossedTurn :: "journal \<Rightarrow> string \<Rightarrow> string \<Rightarrow> bool" where
  "uncrossedTurn s u e \<longleftrightarrow>
     (\<forall>t \<in> set (jn_Steps s). \<forall>a \<in> set (jn_Attempts s). ta_ID a = ts_AttemptID t \<and> ofTurn u e a \<longrightarrow> \<not> crossed t)"

definition filled :: "journal \<Rightarrow> string \<Rightarrow> string \<Rightarrow> int \<Rightarrow> bool" where
  "filled s u e n \<longleftrightarrow>
     (\<forall>k. 0 < k \<and> k < n \<longrightarrow> (\<exists>a \<in> set (jn_Attempts s). ofTurn u e a \<and> ta_AttemptNo a = k))"

inductive change :: "journal \<Rightarrow> journal \<Rightarrow> bool" where
  attempt_added:
    "\<lbrakk>InsertTurnAttempt row s = Inr s'; ta_State row = RunAttemptActive;
      filled s (ta_SessionID row) (ta_TriggerEventID row) (ta_AttemptNo row)\<rbrakk> \<Longrightarrow> change s s'"
| step_added:
    "\<lbrakk>InsertToolStep step s = Inr s'; ts_State step = ToolStepPrepared; dated step;
      liveAttempt s (ts_AttemptID step)\<rbrakk> \<Longrightarrow> change s s'"
| steps_moved:
    "\<forall>t \<in> set (jn_Steps s). p t \<longrightarrow> stepMoves s t (f t) \<Longrightarrow>
      change s (s\<lparr>jn_Steps := updateWhere p f (jn_Steps s)\<rparr>)"
| attempt_ended:
    "\<lbrakk>\<forall>a. ta_ID (f a) = ta_ID a \<and> ta_SessionID (f a) = ta_SessionID a
        \<and> ta_TriggerEventID (f a) = ta_TriggerEventID a \<and> ta_AttemptNo (f a) = ta_AttemptNo a
        \<and> ta_State (f a) = state;
      state \<noteq> RunAttemptActive;
      \<forall>t \<in> set (jn_Steps s). ts_AttemptID t = i \<longrightarrow> ts_State t \<noteq> ToolStepStarted
        \<and> (state = RunAttemptCompleted \<longrightarrow> ts_State t = ToolStepCompleted)\<rbrakk> \<Longrightarrow>
      change s (s\<lparr>jn_Attempts := updateWhere (finishable i) f (jn_Attempts s)\<rparr>)"

inductive_cases changeE: "change s s'"

section \<open>The invariant\<close>

definition oneActive :: "journal \<Rightarrow> bool" where
  "oneActive s \<longleftrightarrow> (\<forall>a \<in> set (jn_Attempts s). \<forall>b \<in> set (jn_Attempts s).
     sameTurn a b \<and> ta_State a = RunAttemptActive \<and> ta_State b = RunAttemptActive \<longrightarrow> a = b)"

definition numbersOk :: "journal \<Rightarrow> bool" where
  "numbersOk s \<longleftrightarrow> (\<forall>a \<in> set (jn_Attempts s). 0 < ta_AttemptNo a
       \<and> filled s (ta_SessionID a) (ta_TriggerEventID a) (ta_AttemptNo a))
     \<and> (\<forall>a \<in> set (jn_Attempts s). \<forall>b \<in> set (jn_Attempts s).
          sameTurn a b \<and> ta_AttemptNo a = ta_AttemptNo b \<longrightarrow> a = b)"

definition stepsOk :: "journal \<Rightarrow> bool" where
  "stepsOk s \<longleftrightarrow> (\<forall>t \<in> set (jn_Steps s). dated t \<and> ts_AttemptID t \<in> ta_ID ` set (jn_Attempts s))"

definition fenced :: "journal \<Rightarrow> bool" where
  "fenced s \<longleftrightarrow> (\<forall>t \<in> set (jn_Steps s). \<forall>a \<in> set (jn_Attempts s). ta_ID a = ts_AttemptID t \<longrightarrow>
     (ta_State a \<noteq> RunAttemptActive \<longrightarrow> ts_State t \<noteq> ToolStepStarted)
     \<and> (ta_State a = RunAttemptCompleted \<longrightarrow> ts_State t = ToolStepCompleted))"

definition lastOnly :: "journal \<Rightarrow> bool" where
  "lastOnly s \<longleftrightarrow> (\<forall>t \<in> set (jn_Steps s). \<forall>a \<in> set (jn_Attempts s). \<forall>b \<in> set (jn_Attempts s).
     ta_ID a = ts_AttemptID t \<and> crossed t \<and> sameTurn a b \<longrightarrow> ta_AttemptNo b \<le> ta_AttemptNo a)"

text \<open>A live attempt is the last of its turn: a crossing of its steps cannot be overtaken.\<close>

definition lastLive :: "journal \<Rightarrow> bool" where
  "lastLive s \<longleftrightarrow> (\<forall>a \<in> set (jn_Attempts s). \<forall>b \<in> set (jn_Attempts s).
     ta_State a = RunAttemptActive \<and> sameTurn a b \<longrightarrow> ta_AttemptNo b \<le> ta_AttemptNo a)"

definition jinv :: "journal \<Rightarrow> bool" where
  "jinv s \<longleftrightarrow> keysOk s \<and> oneActive s \<and> numbersOk s \<and> stepsOk s \<and> fenced s \<and> lastLive s"

lemma jinit_jinv: "jinv (jinit sessions)"
  by (simp add: jinv_def jinit_def keysOk_def oneActive_def numbersOk_def stepsOk_def fenced_def lastLive_def)

lemma filled_mono: "filled s u e n \<Longrightarrow> set (jn_Attempts s) \<subseteq> set (jn_Attempts s') \<Longrightarrow> filled s' u e n"
  by (fastforce simp: filled_def)

lemma sameTurn_sym: "sameTurn a b \<longleftrightarrow> sameTurn b a"
  by (auto simp: ofTurn_def)

text \<open>No attempt of a turn has a higher number than one that is missing.\<close>

lemma number_gap:
  assumes "numbersOk s" "a \<in> set (jn_Attempts s)" "ofTurn u e a" "0 < n"
    and "\<forall>b \<in> set (jn_Attempts s). ofTurn u e b \<longrightarrow> ta_AttemptNo b \<noteq> n"
  shows "ta_AttemptNo a < n"
proof (rule ccontr)
  assume "\<not> ta_AttemptNo a < n"
  with assms(2,3,5) have "n < ta_AttemptNo a" by force
  moreover have "filled s u e (ta_AttemptNo a)"
    using assms(1,2,3) by (auto simp: numbersOk_def ofTurn_def)
  ultimately show False using assms(4,5) by (auto simp: filled_def)
qed

lemma attempt_added_jinv:
  assumes inv: "jinv s" and ins: "InsertTurnAttempt row s = Inr s'" and act: "ta_State row = RunAttemptActive"
    and fill: "filled s (ta_SessionID row) (ta_TriggerEventID row) (ta_AttemptNo row)"
  shows "jinv s'"
proof -
  note row = InsertTurnAttempt_Inr [OF ins]
  have parts: "oneActive s" "numbersOk s" "stepsOk s" "fenced s" "keysOk s" "lastLive s"
    using inv by (simp_all add: jinv_def)
  have sub: "set (jn_Attempts s) \<subseteq> set (jn_Attempts s')" by (auto simp: row(1))
  have at: "set (jn_Attempts s') = insert row (set (jn_Attempts s))" and st: "jn_Steps s' = jn_Steps s"
    by (simp_all add: row(1))
  have "oneActive s'"
    unfolding oneActive_def
  proof (intro ballI impI)
    fix a b assume ab: "a \<in> set (jn_Attempts s')" "b \<in> set (jn_Attempts s')"
      and h: "sameTurn a b \<and> ta_State a = RunAttemptActive \<and> ta_State b = RunAttemptActive"
    from ab consider "a = row" "b = row" | "a = row" "b \<in> set (jn_Attempts s)"
      | "a \<in> set (jn_Attempts s)" "b = row" | "a \<in> set (jn_Attempts s)" "b \<in> set (jn_Attempts s)"
      unfolding at by blast
    then show "a = b"
      using h row(5) parts(1) act sameTurn_sym [of a b] by cases (auto simp: oneActive_def)
  qed
  moreover have "numbersOk s'"
    unfolding numbersOk_def
  proof (intro conjI ballI impI)
    fix a assume "a \<in> set (jn_Attempts s')"
    then consider "a = row" | "a \<in> set (jn_Attempts s)" by (auto simp: at)
    then show "0 < ta_AttemptNo a" "filled s' (ta_SessionID a) (ta_TriggerEventID a) (ta_AttemptNo a)"
      using parts(2) row(3) fill by (cases; simp add: numbersOk_def filled_mono [OF _ sub])+
  next
    fix a b assume ab: "a \<in> set (jn_Attempts s')" "b \<in> set (jn_Attempts s')"
      and h: "sameTurn a b \<and> ta_AttemptNo a = ta_AttemptNo b"
    from ab consider "a = row" "b = row" | "a = row" "b \<in> set (jn_Attempts s)"
      | "a \<in> set (jn_Attempts s)" "b = row" | "a \<in> set (jn_Attempts s)" "b \<in> set (jn_Attempts s)"
      unfolding at by blast
    then show "a = b"
      using h row(5) parts(2) sameTurn_sym [of a b] by cases (auto simp: numbersOk_def)
  qed
  moreover have "stepsOk s'"
    using parts(3) by (auto simp: stepsOk_def at st)
  moreover have own: "ta_ID row \<noteq> ts_AttemptID t" if "t \<in> set (jn_Steps s)" for t
    using parts(3) row(4) that by (auto simp: stepsOk_def)
  then have "fenced s'"
    using parts(4) act by (auto simp: fenced_def at st)
  moreover have "lastLive s'"
    unfolding lastLive_def
  proof (intro ballI impI)
    fix a b assume ab: "a \<in> set (jn_Attempts s')" "b \<in> set (jn_Attempts s')"
      and h: "ta_State a = RunAttemptActive \<and> sameTurn a b"
    from ab consider "a = row" "b = row" | "a = row" "b \<in> set (jn_Attempts s)"
      | "a \<in> set (jn_Attempts s)" "b = row" | "a \<in> set (jn_Attempts s)" "b \<in> set (jn_Attempts s)"
      unfolding at by blast
    then show "ta_AttemptNo b \<le> ta_AttemptNo a"
    proof cases
      case 2
      with number_gap [OF parts(2) 2(2), of "ta_SessionID row" "ta_TriggerEventID row" "ta_AttemptNo row"]
        row(3,5) h show ?thesis by simp
    next
      case 3
      with row(5) h act sameTurn_sym [of a b] show ?thesis by auto
    qed (use parts(6) h in \<open>auto simp: lastLive_def\<close>)
  qed
  ultimately show ?thesis using keysOk_insert(1) [OF parts(5) ins] by (simp add: jinv_def)
qed

lemma attempt_key:
  "keysOk s \<Longrightarrow> a \<in> set (jn_Attempts s) \<Longrightarrow> b \<in> set (jn_Attempts s) \<Longrightarrow> ta_ID a = ta_ID b \<Longrightarrow> a = b"
  using GetTurnAttempt_key by (metis option.inject)

lemma step_added_jinv:
  assumes inv: "jinv s" and ins: "InsertToolStep step s = Inr s'"
    and new: "ts_State step = ToolStepPrepared" "dated step" "liveAttempt s (ts_AttemptID step)"
  shows "jinv s'"
proof -
  note row = InsertToolStep_Inr [OF ins]
  have parts: "oneActive s" "numbersOk s" "stepsOk s" "fenced s" "keysOk s" "lastLive s"
    using inv by (simp_all add: jinv_def)
  have st: "set (jn_Steps s') = insert step (set (jn_Steps s))" and at: "jn_Attempts s' = jn_Attempts s"
    by (simp_all add: row(1))
  obtain a0 where a0: "a0 \<in> set (jn_Attempts s)" "ta_ID a0 = ts_AttemptID step" "ta_State a0 = RunAttemptActive"
    using new(3) by (auto simp: liveAttempt_def)
  have live: "ta_State a = RunAttemptActive" if "a \<in> set (jn_Attempts s)" "ta_ID a = ts_AttemptID step" for a
    using attempt_key [OF parts(5) that(1) a0(1)] that(2) a0(2,3) by simp
  have "fenced s'"
    using parts(4) live new(1) by (fastforce simp: fenced_def at st)
  moreover have "stepsOk s'" using parts(3) new(2) row(2) by (auto simp: stepsOk_def at st)
  moreover have "oneActive s'" "numbersOk s'" "lastLive s'"
    using parts(1,2,6) by (simp_all add: oneActive_def numbersOk_def filled_def lastLive_def at)
  ultimately show ?thesis using keysOk_insert(2) [OF parts(5) ins] by (simp add: jinv_def)
qed

lemma steps_moved_jinv:
  assumes inv: "jinv s" and mv: "\<forall>t \<in> set (jn_Steps s). p t \<longrightarrow> stepMoves s t (f t)"
  shows "jinv (s\<lparr>jn_Steps := updateWhere p f (jn_Steps s)\<rparr>)" (is "jinv ?s'")
proof -
  have parts: "oneActive s" "numbersOk s" "stepsOk s" "fenced s" "keysOk s" "lastLive s"
    using inv by (simp_all add: jinv_def)
  have origin: "\<exists>t \<in> set (jn_Steps s). t' = t \<or> stepMoves s t t'" if "t' \<in> set (jn_Steps ?s')" for t'
    using that mv by (auto simp: set_updateWhere split: if_splits)
  have keys: "map ts_ID (updateWhere p f (jn_Steps s)) = map ts_ID (jn_Steps s)"
    using mv by (auto simp: updateWhere_map stepMoves_def sameKeys_def)
  have live: "ta_State a = RunAttemptActive" if "liveAttempt s i" "a \<in> set (jn_Attempts s)" "ta_ID a = i" for a i
    using that attempt_key [OF parts(5)] by (fastforce simp: liveAttempt_def)
  have "fenced ?s'"
    unfolding fenced_def
  proof (intro ballI impI)
    fix t' a assume t': "t' \<in> set (jn_Steps ?s')" and a: "a \<in> set (jn_Attempts ?s')" "ta_ID a = ts_AttemptID t'"
    from origin [OF t'] obtain t where t: "t \<in> set (jn_Steps s)" "t' = t \<or> stepMoves s t t'" by blast
    have f: "(ta_State a \<noteq> RunAttemptActive \<longrightarrow> ts_State t \<noteq> ToolStepStarted)
        \<and> (ta_State a = RunAttemptCompleted \<longrightarrow> ts_State t = ToolStepCompleted)"
      using parts(4) t a by (auto simp: fenced_def stepMoves_def sameKeys_def)
    show "(ta_State a \<noteq> RunAttemptActive \<longrightarrow> ts_State t' \<noteq> ToolStepStarted)
        \<and> (ta_State a = RunAttemptCompleted \<longrightarrow> ts_State t' = ToolStepCompleted)"
      using f t(2) live a by (auto simp: stepMoves_def sameKeys_def)
  qed
  moreover have "stepsOk ?s'"
    unfolding stepsOk_def
  proof (intro ballI)
    fix t' assume "t' \<in> set (jn_Steps ?s')"
    from origin [OF this] obtain t where "t \<in> set (jn_Steps s)" "t' = t \<or> stepMoves s t t'" by blast
    with parts(3) show "dated t' \<and> ts_AttemptID t' \<in> ta_ID ` set (jn_Attempts ?s')"
      by (auto simp: stepsOk_def stepMoves_def sameKeys_def)
  qed
  moreover have "oneActive ?s'" "numbersOk ?s'" "lastLive ?s'"
    using parts(1,2,6) by (simp_all add: oneActive_def numbersOk_def filled_def lastLive_def)
  moreover have "keysOk ?s'" using parts(5) keys by (simp add: keysOk_def)
  ultimately show ?thesis by (simp add: jinv_def)
qed

lemma attempt_ended_jinv:
  assumes inv: "jinv s"
    and f: "\<forall>a. ta_ID (f a) = ta_ID a \<and> ta_SessionID (f a) = ta_SessionID a
        \<and> ta_TriggerEventID (f a) = ta_TriggerEventID a \<and> ta_AttemptNo (f a) = ta_AttemptNo a
        \<and> ta_State (f a) = state"
    and st: "state \<noteq> RunAttemptActive"
    and steps: "\<forall>t \<in> set (jn_Steps s). ts_AttemptID t = i \<longrightarrow> ts_State t \<noteq> ToolStepStarted
        \<and> (state = RunAttemptCompleted \<longrightarrow> ts_State t = ToolStepCompleted)"
  shows "jinv (s\<lparr>jn_Attempts := updateWhere (finishable i) f (jn_Attempts s)\<rparr>)" (is "jinv ?s'")
proof -
  have parts: "oneActive s" "numbersOk s" "stepsOk s" "fenced s" "keysOk s" "lastLive s"
    using inv by (simp_all add: jinv_def)
  define g where "g = (\<lambda>a. if finishable i a then f a else a)"
  have g: "ta_ID (g a) = ta_ID a" "ta_SessionID (g a) = ta_SessionID a"
      "ta_TriggerEventID (g a) = ta_TriggerEventID a" "ta_AttemptNo (g a) = ta_AttemptNo a" for a
    using f by (simp_all add: g_def)
  have gs: "ta_State (g a) = RunAttemptActive \<longleftrightarrow> ta_State a = RunAttemptActive \<and> g a = a" for a
    using f [rule_format, of a] st by (auto simp: g_def finishable_def)
  have at: "jn_Attempts ?s' = map g (jn_Attempts s)" by (simp add: updateWhere_map g_def)
  have turn: "ofTurn u e (g a) = ofTurn u e a" for u e a by (simp add: ofTurn_def g)
  have fill: "filled ?s' u e n = filled s u e n" for u e n
    unfolding filled_def at by (simp add: turn g)
  have "keysOk ?s'"
    using parts(5) g(1) map_updateWhere_inv [of ta_ID f] f by (simp add: keysOk_def)
  moreover have "oneActive ?s'"
    using parts(1) unfolding oneActive_def at by (auto simp: gs turn g)
  moreover have "numbersOk ?s'"
    using parts(2) unfolding numbersOk_def at fill by (auto simp: turn g)
  moreover have "stepsOk ?s'" using parts(3) unfolding stepsOk_def at by (auto simp: g image_iff)
  moreover have "lastLive ?s'"
    using parts(6) unfolding lastLive_def at by (auto simp: gs turn g)
  moreover have "fenced ?s'"
    unfolding fenced_def at
  proof (intro ballI impI)
    fix t a' assume t: "t \<in> set (jn_Steps ?s')" and a': "a' \<in> set (map g (jn_Attempts s))" "ta_ID a' = ts_AttemptID t"
    then obtain a where a: "a \<in> set (jn_Attempts s)" "a' = g a" "ta_ID a = ts_AttemptID t" by (auto simp: g)
    have old: "(ta_State a \<noteq> RunAttemptActive \<longrightarrow> ts_State t \<noteq> ToolStepStarted)
        \<and> (ta_State a = RunAttemptCompleted \<longrightarrow> ts_State t = ToolStepCompleted)"
      using parts(4) t a by (auto simp: fenced_def)
    show "(ta_State a' \<noteq> RunAttemptActive \<longrightarrow> ts_State t \<noteq> ToolStepStarted)
        \<and> (ta_State a' = RunAttemptCompleted \<longrightarrow> ts_State t = ToolStepCompleted)"
    proof (cases "finishable i a")
      case True
      with f a steps t show ?thesis by (auto simp: g_def finishable_def)
    next
      case False
      with old a show ?thesis by (simp add: g_def)
    qed
  qed
  ultimately show ?thesis by (simp add: jinv_def)
qed

lemma change_jinv: "change s s' \<Longrightarrow> jinv s \<Longrightarrow> jinv s'"
proof (induction rule: change.induct)
  case attempt_added
  then show ?case by (rule attempt_added_jinv [rotated])
next
  case step_added
  then show ?case by (rule step_added_jinv [rotated])
next
  case steps_moved
  then show ?case by (rule steps_moved_jinv [rotated])
next
  case attempt_ended
  then show ?case by (rule attempt_ended_jinv [rotated])
qed

text \<open>Crossed steps stay with the last attempt as long as no attempt is added to a turn that crossed.\<close>

lemma change_lastOnly:
  assumes ch: "change s s'" and inv: "jinv s" and last: "lastOnly s"
    and new: "\<And>row. InsertTurnAttempt row s = Inr s' \<Longrightarrow> uncrossedTurn s (ta_SessionID row) (ta_TriggerEventID row)"
  shows "lastOnly s'"
  using ch
proof cases
  case (attempt_added row)
  note row = InsertTurnAttempt_Inr [OF attempt_added(1)]
  have at: "set (jn_Attempts s') = insert row (set (jn_Attempts s))" and st: "jn_Steps s' = jn_Steps s"
    by (simp_all add: row(1))
  show ?thesis unfolding lastOnly_def at st
  proof (intro ballI impI)
    fix t a b
    assume t: "t \<in> set (jn_Steps s)" and a: "a \<in> insert row (set (jn_Attempts s))"
      and b: "b \<in> insert row (set (jn_Attempts s))"
      and h: "ta_ID a = ts_AttemptID t \<and> crossed t \<and> sameTurn a b"
    have "ta_ID row \<noteq> ts_AttemptID t" using inv row(4) t by (auto simp: jinv_def stepsOk_def)
    with a h have a': "a \<in> set (jn_Attempts s)" by auto
    show "ta_AttemptNo b \<le> ta_AttemptNo a"
    proof (cases "b = row")
      case True
      with h a' t new [OF attempt_added(1)] show ?thesis by (auto simp: uncrossedTurn_def ofTurn_def)
    next
      case False
      with b last t a' h show ?thesis by (auto simp: lastOnly_def)
    qed
  qed
next
  case (step_added step)
  from InsertToolStep_Inr [OF step_added(1)] step_added(2) last show ?thesis by (auto simp: lastOnly_def crossed_def)
next
  case (steps_moved p f)
  have key: "ta_State a = RunAttemptActive" if "liveAttempt s i" "a \<in> set (jn_Attempts s)" "ta_ID a = i" for a i
    using that attempt_key inv by (fastforce simp: liveAttempt_def jinv_def)
  show ?thesis unfolding lastOnly_def
  proof (intro ballI impI)
    fix t' a b assume t': "t' \<in> set (jn_Steps s')" and ab: "a \<in> set (jn_Attempts s')" "b \<in> set (jn_Attempts s')"
      and h: "ta_ID a = ts_AttemptID t' \<and> crossed t' \<and> sameTurn a b"
    from t' steps_moved obtain t where t: "t \<in> set (jn_Steps s)" "t' = t \<or> stepMoves s t t'"
      by (auto simp: set_updateWhere split: if_splits)
    have ab': "a \<in> set (jn_Attempts s)" "b \<in> set (jn_Attempts s)" using ab steps_moved(1) by simp_all
    have "crossed t \<or> ta_State a = RunAttemptActive"
      using t(2) h key [of _ a] ab' by (auto simp: stepMoves_def sameKeys_def crossed_def)
    moreover have "ta_ID a = ts_AttemptID t" using t(2) h by (auto simp: stepMoves_def sameKeys_def)
    ultimately show "ta_AttemptNo b \<le> ta_AttemptNo a"
      using inv last t(1) ab' h by (auto simp: lastOnly_def lastLive_def jinv_def)
  qed
next
  case (attempt_ended f state i)
  define g where "g = (\<lambda>a. if finishable i a then f a else a)"
  have g: "ta_ID (g a) = ta_ID a" "ta_SessionID (g a) = ta_SessionID a"
      "ta_TriggerEventID (g a) = ta_TriggerEventID a" "ta_AttemptNo (g a) = ta_AttemptNo a" for a
    using attempt_ended(2) by (simp_all add: g_def)
  have at: "set (jn_Attempts s') = g ` set (jn_Attempts s)" "jn_Steps s' = jn_Steps s"
    by (simp_all add: attempt_ended(1) updateWhere_map g_def)
  show ?thesis using last unfolding lastOnly_def at by (simp add: g ofTurn_def)
qed

lemma changes_jinv: "change\<^sup>*\<^sup>* s s' \<Longrightarrow> jinv s \<Longrightarrow> jinv s'"
  by (induction rule: rtranclp_induct) (auto intro: change_jinv)

section \<open>Operations are sequences of changes\<close>

lemma foldr_max_in: "foldr max xs (0 :: int) \<in> insert 0 (set xs)"
  by (induction xs) (auto simp: max_def)

lemma foldr_max_ge: "x \<in> set xs \<Longrightarrow> x \<le> foldr max xs (0 :: int)"
  by (induction xs) (auto simp: max_def)

lemma foldr_max_nonneg: "0 \<le> foldr max xs (0 :: int)"
  by (induction xs) (auto simp: max_def)

lemma next_number:
  assumes "numbersOk s"
  shows "filled s u e (NextAttemptNo u e s)" "0 < NextAttemptNo u e s"
proof -
  let ?turn = "filter (ofTurn u e) (jn_Attempts s)"
  let ?m = "foldr max (map ta_AttemptNo ?turn) 0"
  have n: "NextAttemptNo u e s = ?m + 1" by (simp add: NextAttemptNo_def)
  show "0 < NextAttemptNo u e s" using foldr_max_nonneg [of "map ta_AttemptNo ?turn"] n by simp
  show "filled s u e (NextAttemptNo u e s)"
  proof (cases "?m = 0")
    case True
    then show ?thesis by (auto simp: n filled_def)
  next
    case False
    then have "?m \<in> set (map ta_AttemptNo ?turn)"
      using foldr_max_in [of "map ta_AttemptNo ?turn"] by simp
    then obtain a where a: "a \<in> set (jn_Attempts s)" "ofTurn u e a" "ta_AttemptNo a = ?m" by auto
    then have "filled s u e ?m" using assms by (auto simp: numbersOk_def ofTurn_def)
    with a show ?thesis by (force simp: n filled_def)
  qed
qed

lemma prior_iff: "PriorToolExecutionForTurn u e s \<longleftrightarrow> \<not> uncrossedTurn s u e"
  by (auto simp: PriorToolExecutionForTurn_def uncrossedTurn_def inTurn_def list_ex_iff)

lemma insert_new_change:
  assumes "jinv s"
    and "InsertTurnAttempt (newAttempt i u e (NextAttemptNo u e s) now) s = Inr s'"
  shows "change s s'"
  using assms next_number [of s u e]
  by (intro change.attempt_added [OF assms(2)]) (auto simp: turnAttempt_newAttempt jinv_def)

lemma BeginAttempt_change: "BeginAttempt i now u e s = Inr (r, s') \<Longrightarrow> jinv s \<Longrightarrow> change\<^sup>*\<^sup>* s s'"
  by (auto simp: BeginAttempt_def Let_def bindE_Inr_iff split: if_splits
      intro!: r_into_rtranclp intro: insert_new_change)

lemma EnsureAttempt_change: "EnsureAttempt now u e i s = Inr (r, s') \<Longrightarrow> jinv s \<Longrightarrow> change\<^sup>*\<^sup>* s s'"
  by (auto simp: EnsureAttempt_def Let_def bindE_Inr_iff split: if_splits option.splits
      intro!: r_into_rtranclp intro: insert_new_change)

lemma setSteps_change:
  assumes "setSteps p f s = (n, s')" "\<And>t. t \<in> set (jn_Steps s) \<Longrightarrow> p t \<Longrightarrow> stepMoves s t (f t)"
  shows "change s s'"
  using change.steps_moved [of s p f] assms by (auto simp: setSteps_def)

lemmas move_defs = stepMoves_def sameKeys_def dated_def markAmbiguous_def

lemma finish_change:
  assumes "FinishTurnAttempt state err now i s = (n, s')" "state \<noteq> RunAttemptActive"
    and "\<forall>t \<in> set (jn_Steps s). ts_AttemptID t = i \<longrightarrow> ts_State t \<noteq> ToolStepStarted
        \<and> (state = RunAttemptCompleted \<longrightarrow> ts_State t = ToolStepCompleted)"
  shows "change s s'"
proof -
  have "s' = s\<lparr>jn_Attempts := updateWhere (finishable i)
     (\<lambda>a. a\<lparr>ta_State := state, ar_Error := err, ar_UpdatedAt := now, ar_FinishedAt := Some now\<rparr>) (jn_Attempts s)\<rparr>"
    using assms(1) by (simp add: FinishTurnAttempt_def)
  then show ?thesis using assms(2,3) by (auto intro!: change.attempt_ended)
qed

lemma finishAttemptLocked_change:
  assumes "finishAttemptLocked now i state err u e s = Inr s'" "state \<noteq> RunAttemptActive"
  shows "change\<^sup>*\<^sup>* s s'"
proof -
  define s1 where "s1 = (if state = RunAttemptInterrupted
     then snd (MarkStartedStepsAmbiguousForAttempt now i s) else s)"
  from assms obtain s2 where fin: "FinishTurnAttempt state err now i s1 = (1, s2)" "s' = s2"
    and none: "CountStartedStepsForAttempt i s1 = 0"
      "state = RunAttemptCompleted \<Longrightarrow> CountNonCompletedStepsForAttempt i s1 = 0"
    by (auto simp: finishAttemptLocked_def Let_def s1_def split: option.splits if_splits prod.splits)
  have "change\<^sup>*\<^sup>* s s1"
    unfolding s1_def MarkStartedStepsAmbiguousForAttempt_def
    by (auto intro!: r_into_rtranclp setSteps_change [OF surjective_pairing] simp: move_defs)
  moreover have "change s1 s'"
    using none fin(2) by (intro finish_change [OF fin(1) assms(2), folded fin(2)])
      (auto simp: CountStartedStepsForAttempt_def CountNonCompletedStepsForAttempt_def affected_zero)
  ultimately show ?thesis by simp
qed

lemma StartToolStep_change:
  assumes "StartToolStep now i s = Inr (r, s')" shows "change s s'"
proof -
  from assms have "StartToolStepRow now i s = (1, s')"
    by (auto simp: StartToolStep_def split: option.splits if_splits prod.splits)
  from setSteps_change [OF this [unfolded StartToolStepRow_def]] show ?thesis
    by (auto simp: move_defs liveAttempt_def list_ex_iff)
qed

lemma MarkToolStepAmbiguous_change:
  assumes "MarkToolStepAmbiguous now i s = Inr (r, s')" shows "change s s'"
proof -
  from assms obtain n where "MarkToolStepAmbiguousRow now i s = (n, s')"
    by (auto simp: MarkToolStepAmbiguous_def split: option.splits if_splits prod.splits)
  from setSteps_change [OF this [unfolded MarkToolStepAmbiguousRow_def]] show ?thesis
    by (auto simp: move_defs)
qed

lemma CompleteToolStep_change:
  assumes "CompleteToolStep recode respace now i result s = Inr (r, s')" shows "change s s'"
proof -
  from assms obtain n norm where "CompleteToolStepRow norm now i s = (n, s')"
    by (auto simp: CompleteToolStep_def bindE_Inr_iff split: option.splits if_splits prod.splits)
  from setSteps_change [OF this [unfolded CompleteToolStepRow_def]] show ?thesis
    by (auto simp: move_defs)
qed

lemma coordinator_change:
  assumes "lockCoordinatorToolStep i s = Inr (a, t)" "keysOk s" "CompletePreparedToolStepRow result now i s = (n, s')"
  shows "change s s'"
proof -
  from assms(1) have t: "GetToolStep i s = Some t" "GetTurnAttempt (ts_AttemptID t) s = Some a" "ta_State a = RunAttemptActive"
    by (auto simp: lockCoordinatorToolStep_def split: option.splits if_splits)
  have "u = t" if "u \<in> set (jn_Steps s)" "ts_ID u = i" for u
    using GetToolStep_key [OF assms(2) that(1)] that(2) t(1) by simp
  moreover have "liveAttempt s (ts_AttemptID t)" using GetTurnAttempt_in [OF t(2)] t(3) by (auto simp: liveAttempt_def)
  ultimately show ?thesis
    by (intro setSteps_change [OF assms(3) [unfolded CompletePreparedToolStepRow_def]]) (auto simp: move_defs)
qed

lemma insert_step_change:
  assumes "InsertToolStep (newStep i a n e name inp now) s = Inr s'" "GetTurnAttempt a s = Some att"
    and "ta_State att = RunAttemptActive"
  shows "change s s'"
proof -
  have "liveAttempt s a" using assms(2,3) GetTurnAttempt_in by (auto simp: liveAttempt_def)
  then show ?thesis by (intro change.step_added [OF assms(1)]) (auto simp: newStep_def dated_def)
qed

lemma PrepareToolStep_change: "PrepareToolStep recode i now a n e name inp s = Inr (r, s') \<Longrightarrow> change s s'"
  by (auto simp: PrepareToolStep_def bindE_Inr_iff split: if_splits option.splits intro: insert_step_change)

lemma EnsureToolStep_change: "EnsureToolStep recode now a i n e name inp s = Inr (r, s') \<Longrightarrow> change\<^sup>*\<^sup>* s s'"
  by (auto simp: EnsureToolStep_def bindE_Inr_iff split: if_splits option.splits
      intro!: r_into_rtranclp intro: insert_step_change)

lemma RecoverTurn_change:
  assumes "keysOk s" shows "change\<^sup>*\<^sup>* s (snd (RecoverTurn now u e s))"
proof -
  define s1 where "s1 = s\<lparr>jn_Steps := updateWhere (\<lambda>t. inTurn u e s t \<and> ts_State t = ToolStepStarted)
      (markAmbiguous now) (jn_Steps s)\<rparr>"
  have one: "change s s1" unfolding s1_def by (rule change.steps_moved) (auto simp: move_defs)
  have "change\<^sup>*\<^sup>* s1 (snd (RecoverTurn now u e s))"
  proof (cases "ActiveAttemptForTurn u e s")
    case None
    then have "snd (RecoverTurn now u e s) = s1" by (simp add: RecoverTurn_tables [OF assms] s1_def)
    then show ?thesis by simp
  next
    case (Some i)
    obtain a where a: "a \<in> set (jn_Attempts s)" "ta_ID a = i" "ofTurn u e a"
      using ActiveAttemptForTurn_Some [OF Some] by blast
    have "change s1 (s1\<lparr>jn_Attempts := updateWhere (finishable i) (failAttempt now) (jn_Attempts s1)\<rparr>)"
      using a by (intro change.attempt_ended [of _ RunAttemptFailed])
        (auto simp: failAttempt_def s1_def set_updateWhere inTurn_def list_ex_iff markAmbiguous_def split: if_splits)
    moreover have "snd (RecoverTurn now u e s) =
        s1\<lparr>jn_Attempts := updateWhere (finishable i) (failAttempt now) (jn_Attempts s1)\<rparr>"
      using Some by (simp add: RecoverTurn_tables [OF assms] s1_def)
    ultimately show ?thesis by simp
  qed
  with one show ?thesis by (rule converse_rtranclp_into_rtranclp)
qed

section \<open>Interleaved transactions\<close>

text \<open>
  An execution of \<open>BeginAttempt\<close> or \<open>EnsureAttempt\<close> that found no active attempt, with what its statements have
  read so far. Under READ COMMITTED every statement sees what is committed when it runs, so transactions of others
  commit between them. It ends with its insert, or is abandoned (a refusal, an error, a lost connection). The other
  transactions are single steps: each first locks the row of the attempt whose steps it reads or changes, or is one
  statement over the step it names; only a recovery that finds no active attempt has nothing to lock.
\<close>

datatype beginPhase = SawNoActive | SawNoPrior | SawNumber int

record pendingBegin =
  pb_SessionID :: string
  pb_TriggerEventID :: string
  pb_ID :: string
  pb_Phase :: beginPhase

type_synonym machine = "journal \<times> pendingBegin list"

record journalEnv =
  je_Recode :: "payload \<Rightarrow> payload option"
  je_RecodeResult :: "ToolStepResult \<Rightarrow> ToolStepResult option"
  je_Respace :: "string \<Rightarrow> string"

abbreviation turnOf :: "pendingBegin \<Rightarrow> string \<times> string" where
  "turnOf r \<equiv> (pb_SessionID r, pb_TriggerEventID r)"

text \<open>Which executions may begin beside those that are pending.\<close>

type_synonym rivalry = "pendingBegin list \<Rightarrow> string \<times> string \<Rightarrow> string \<Rightarrow> bool"

definition anyRivals :: rivalry where
  "anyRivals w turn i \<longleftrightarrow> True"

text \<open>
  What the Workflow sees to: it names the attempt of a turn, and its activity, when delivered again, carries that name.
\<close>

definition unrivalled :: rivalry where
  "unrivalled w turn i \<longleftrightarrow> list_all (\<lambda>r. turnOf r = turn \<longrightarrow> pb_ID r = i) w"

inductive jstep :: "journalEnv \<Rightarrow> rivalry \<Rightarrow> machine \<Rightarrow> machine \<Rightarrow> bool"
  for env allowed where
  active: "ActiveAttemptForTurn u e s = None \<Longrightarrow> allowed w (u, e) i \<Longrightarrow>
    jstep env allowed (s, w) (s, \<lparr>pb_SessionID = u, pb_TriggerEventID = e, pb_ID = i, pb_Phase = SawNoActive\<rparr> # w)"
| prior: "r \<in> set w \<Longrightarrow> pb_Phase r = SawNoActive \<Longrightarrow> \<not> PriorToolExecutionForTurn (pb_SessionID r) (pb_TriggerEventID r) s \<Longrightarrow>
    jstep env allowed (s, w) (s, r\<lparr>pb_Phase := SawNoPrior\<rparr> # remove1 r w)"
| number: "r \<in> set w \<Longrightarrow> pb_Phase r = SawNoPrior \<Longrightarrow>
    jstep env allowed (s, w)
      (s, r\<lparr>pb_Phase := SawNumber (NextAttemptNo (pb_SessionID r) (pb_TriggerEventID r) s)\<rparr> # remove1 r w)"
| insert: "r \<in> set w \<Longrightarrow> pb_Phase r = SawNumber n \<Longrightarrow>
    InsertTurnAttempt (newAttempt (pb_ID r) (pb_SessionID r) (pb_TriggerEventID r) n now) s = Inr s' \<Longrightarrow>
    jstep env allowed (s, w) (s', remove1 r w)"
| abandon: "jstep env allowed (s, w) (s, remove1 r w)"
| finish: "FinishAttempt now i state err s = Inr s' \<Longrightarrow> jstep env allowed (s, w) (s', w)"
| close: "validateAttemptFinish state err = Inr () \<Longrightarrow> finishAttemptLocked now i state err u e s = Inr s' \<Longrightarrow>
    jstep env allowed (s, w) (s', w)"
| prepare: "PrepareToolStep (je_Recode env) i now a n e name inp s = Inr (r, s') \<Longrightarrow> jstep env allowed (s, w) (s', w)"
| ensure_step: "EnsureToolStep (je_Recode env) now a i n e name inp s = Inr (q, s') \<Longrightarrow> jstep env allowed (s, w) (s', w)"
| start: "StartToolStep now i s = Inr (x, s') \<Longrightarrow> jstep env allowed (s, w) (s', w)"
| complete: "CompleteToolStep (je_RecodeResult env) (je_Respace env) now i result s = Inr (x, s') \<Longrightarrow>
    jstep env allowed (s, w) (s', w)"
| ambiguous: "MarkToolStepAmbiguous now i s = Inr (x, s') \<Longrightarrow> jstep env allowed (s, w) (s', w)"
| recover: "RecoverTurn now u e s = (answer, s') \<Longrightarrow> jstep env allowed (s, w) (s', w)"
| coordinate: "lockCoordinatorToolStep i s = Inr (a, t) \<Longrightarrow> CompletePreparedToolStepRow result now i s = (n, s') \<Longrightarrow>
    jstep env allowed (s, w) (s', w)"

definition reachableFrom :: "journalEnv \<Rightarrow> rivalry \<Rightarrow> string list \<Rightarrow> machine \<Rightarrow> bool" where
  "reachableFrom env allowed sessions m \<longleftrightarrow> (jstep env allowed)\<^sup>*\<^sup>* (jinit sessions, []) m"

text \<open>With nothing between its statements an execution is the operation of the model.\<close>

lemma alone_begins:
  assumes "ActiveAttemptForTurn u e s = None" "\<not> PriorToolExecutionForTurn u e s" "allowed w (u, e) i"
    and "InsertTurnAttempt (newAttempt i u e (NextAttemptNo u e s) now) s = Inr s'"
  shows "(jstep env allowed)\<^sup>*\<^sup>* (s, w) (s', w)"
proof -
  let ?r = "\<lparr>pb_SessionID = u, pb_TriggerEventID = e, pb_ID = i, pb_Phase = SawNoActive\<rparr>"
  let ?n = "NextAttemptNo u e s"
  have "jstep env allowed (s, w) (s, ?r # w)" by (rule jstep.active) (fact assms(1), fact assms(3))
  moreover have "jstep env allowed (s, ?r # w) (s, ?r\<lparr>pb_Phase := SawNoPrior\<rparr> # w)"
    using jstep.prior [of ?r "?r # w" s env allowed] assms(2) by simp
  moreover have "jstep env allowed (s, ?r\<lparr>pb_Phase := SawNoPrior\<rparr> # w) (s, ?r\<lparr>pb_Phase := SawNumber ?n\<rparr> # w)"
    using jstep.number [of "?r\<lparr>pb_Phase := SawNoPrior\<rparr>" "?r\<lparr>pb_Phase := SawNoPrior\<rparr> # w" env allowed s] by simp
  moreover have "jstep env allowed (s, ?r\<lparr>pb_Phase := SawNumber ?n\<rparr> # w) (s', w)"
    using jstep.insert [of "?r\<lparr>pb_Phase := SawNumber ?n\<rparr>" "?r\<lparr>pb_Phase := SawNumber ?n\<rparr> # w" ?n now s s' env allowed]
      assms(4) by simp
  ultimately show ?thesis by (meson converse_rtranclp_into_rtranclp rtranclp.rtrancl_refl)
qed

lemma BeginAttempt_alone:
  "BeginAttempt i now u e s = Inr (r, s') \<Longrightarrow> allowed w (u, e) i \<Longrightarrow> (jstep env allowed)\<^sup>*\<^sup>* (s, w) (s', w)"
  by (auto simp: BeginAttempt_def Let_def bindE_Inr_iff split: if_splits intro!: alone_begins)

lemma EnsureAttempt_alone:
  "EnsureAttempt now u e i s = Inr (r, s') \<Longrightarrow> allowed w (u, e) i \<Longrightarrow> (jstep env allowed)\<^sup>*\<^sup>* (s, w) (s', w)"
  by (auto simp: EnsureAttempt_def Let_def bindE_Inr_iff split: if_splits option.splits intro!: alone_begins)

text \<open>What every interleaving keeps: a number that was read is preceded by all smaller ones.\<close>

definition filledTo :: "journal \<Rightarrow> pendingBegin \<Rightarrow> bool" where
  "filledTo s r \<longleftrightarrow> (case pb_Phase r of
     SawNumber n \<Rightarrow> 0 < n \<and> filled s (pb_SessionID r) (pb_TriggerEventID r) n | _ \<Rightarrow> True)"

definition minv :: "machine \<Rightarrow> bool" where
  "minv m \<longleftrightarrow> jinv (fst m) \<and> list_all (filledTo (fst m)) (snd m)"

text \<open>An attempt that ended keeps its state and its steps.\<close>

definition ended :: "journal \<Rightarrow> string \<Rightarrow> bool" where
  "ended s i \<longleftrightarrow> (\<exists>a \<in> set (jn_Attempts s). ta_ID a = i \<and> ta_State a \<noteq> RunAttemptActive)"

definition stepsOf :: "string \<Rightarrow> journal \<Rightarrow> ToolStep list" where
  "stepsOf i s = filter (\<lambda>t. ts_AttemptID t = i) (jn_Steps s)"

lemma change_ended:
  assumes "change s s'" "jinv s" "ended s i"
  shows "GetTurnAttempt i s' = GetTurnAttempt i s \<and> stepsOf i s' = stepsOf i s"
proof -
  have k: "keysOk s" and fen: "fenced s" using assms(2) by (simp_all add: jinv_def)
  obtain a where a: "a \<in> set (jn_Attempts s)" "ta_ID a = i" "ta_State a \<noteq> RunAttemptActive"
    using assms(3) by (auto simp: ended_def)
  have got: "find (\<lambda>a. ta_ID a = i) (jn_Attempts s) = Some a"
    using GetTurnAttempt_key [OF k a(1)] a(2) by (simp add: GetTurnAttempt_def)
  have dead: "\<not> liveAttempt s i"
    using attempt_key [OF k] a by (force simp: liveAttempt_def)
  from assms(1) show ?thesis
  proof cases
    case (attempt_added row)
    from InsertTurnAttempt_Inr [OF attempt_added(1)] show ?thesis
      by (simp add: GetTurnAttempt_def stepsOf_def find_append got)
  next
    case (step_added step)
    from InsertToolStep_Inr [OF step_added(1)] step_added(4) dead show ?thesis
      by (auto simp: GetTurnAttempt_def stepsOf_def)
  next
    case (steps_moved p f)
    have "\<not> p t" if "t \<in> set (jn_Steps s)" "ts_AttemptID t = i" for t
      using steps_moved(2) fen a dead that by (fastforce simp: fenced_def stepMoves_def)
    moreover have "ts_AttemptID (f t) = ts_AttemptID t" if "t \<in> set (jn_Steps s)" "p t" for t
      using steps_moved(2) that by (auto simp: stepMoves_def sameKeys_def)
    ultimately have "stepsOf i s' = stepsOf i s"
      by (simp add: stepsOf_def steps_moved(1) filter_updateWhere)
    then show ?thesis by (simp add: steps_moved(1) GetTurnAttempt_def)
  next
    case (attempt_ended f state j)
    have "\<not> finishable j a" using a(3) by (simp add: finishable_def)
    then have "find (\<lambda>a. ta_ID a = i) (updateWhere (finishable j) f (jn_Attempts s)) = Some a"
      using got attempt_ended(2) by (simp add: find_updateWhere_key)
    then show ?thesis by (simp add: attempt_ended(1) GetTurnAttempt_def stepsOf_def got)
  qed
qed

lemma changes_ended:
  "change\<^sup>*\<^sup>* s s' \<Longrightarrow> jinv s \<Longrightarrow> ended s i \<Longrightarrow>
     ended s' i \<and> GetTurnAttempt i s' = GetTurnAttempt i s \<and> stepsOf i s' = stepsOf i s"
proof (induction rule: rtranclp_induct)
  case (step s1 s2)
  have inv: "jinv s1" "ended s1 i" using step changes_jinv by blast+
  from inv(2) obtain a where a: "a \<in> set (jn_Attempts s1)" "ta_ID a = i" "ta_State a \<noteq> RunAttemptActive"
    by (auto simp: ended_def)
  have "GetTurnAttempt i s1 = Some a" using GetTurnAttempt_key [of s1 a] inv(1) a by (simp add: jinv_def)
  with change_ended [OF step(2) inv] a(3) GetTurnAttempt_in [of i s2 a] have "ended s2 i"
    by (auto simp: ended_def)
  with change_ended [OF step(2) inv] step show ?case by simp
qed simp

lemma number_unique:
  "numbersOk s \<Longrightarrow> a \<in> set (jn_Attempts s) \<Longrightarrow> b \<in> set (jn_Attempts s) \<Longrightarrow> ofTurn u e a \<Longrightarrow> ofTurn u e b \<Longrightarrow>
     ta_AttemptNo a = ta_AttemptNo b \<Longrightarrow> a = b"
  by (auto simp: numbersOk_def ofTurn_def)

lemma change_filled:
  assumes "change s s'" "filled s u e n" shows "filled s' u e n"
  using assms(1)
proof cases
  case (attempt_added row)
  from InsertTurnAttempt_Inr(1) [OF attempt_added(1)] show ?thesis by (intro filled_mono [OF assms(2)]) auto
next
  case (step_added step)
  from InsertToolStep_Inr(1) [OF step_added(1)] show ?thesis by (intro filled_mono [OF assms(2)]) auto
next
  case (attempt_ended f state i)
  show ?thesis unfolding filled_def
  proof (intro allI impI)
    fix k assume "0 < k \<and> k < n"
    then obtain a where a: "a \<in> set (jn_Attempts s)" "ofTurn u e a" "ta_AttemptNo a = k"
      using assms(2) by (auto simp: filled_def)
    let ?a = "if finishable i a then f a else a"
    have "?a \<in> set (jn_Attempts s')" using a(1) attempt_ended(1) by (auto simp: updateWhere_map)
    moreover have "ofTurn u e ?a \<and> ta_AttemptNo ?a = k" using a attempt_ended(2) by (simp add: ofTurn_def)
    ultimately show "\<exists>a \<in> set (jn_Attempts s'). ofTurn u e a \<and> ta_AttemptNo a = k" by blast
  qed
qed (use assms(2) in \<open>simp add: filled_def\<close>)

lemma change_filledTo: "change s s' \<Longrightarrow> filledTo s r \<Longrightarrow> filledTo s' r"
  by (auto simp: filledTo_def change_filled split: beginPhase.splits)

lemma changes_minv: "change\<^sup>*\<^sup>* s s' \<Longrightarrow> minv (s, w) \<Longrightarrow> minv (s', w)"
  by (induction rule: rtranclp_induct) (auto simp: minv_def list_all_iff intro: change_jinv change_filledTo)

lemma validate_terminal: "validateAttemptFinish state err = Inr () \<Longrightarrow> state \<noteq> RunAttemptActive"
  by (auto simp: validateAttemptFinish_def)

lemma insert_pending_change:
  assumes "minv (s, w)" "r \<in> set w" "pb_Phase r = SawNumber n"
    and "InsertTurnAttempt (newAttempt (pb_ID r) (pb_SessionID r) (pb_TriggerEventID r) n now) s = Inr s'"
  shows "change s s'"
proof -
  have "filledTo s r" using assms(1,2) by (simp add: minv_def list_all_iff)
  then show ?thesis using assms(3)
    by (intro change.attempt_added [OF assms(4)]) (auto simp: turnAttempt_newAttempt filledTo_def)
qed

lemma jstep_changes:
  assumes "jstep env allowed (s, w) (s', w')" "minv (s, w)"
  shows "change\<^sup>*\<^sup>* s s'"
proof -
  have inv: "keysOk s" using assms(2) by (simp add: minv_def jinv_def)
  from assms(1) show ?thesis
  proof cases
    case finish
    then show ?thesis
      by (auto simp: FinishAttempt_def bindE_Inr_iff dest: finishAttemptLocked_change validate_terminal)
  next
    case recover
    with RecoverTurn_change [OF inv] show ?thesis by (metis snd_conv)
  next
    case coordinate
    with coordinator_change [OF _ inv] show ?thesis by blast
  next
    case insert
    with insert_pending_change [OF assms(2)] show ?thesis by blast
  qed (auto intro: PrepareToolStep_change EnsureToolStep_change StartToolStep_change CompleteToolStep_change
      MarkToolStepAmbiguous_change finishAttemptLocked_change dest: validate_terminal)
qed

lemma jstep_minv:
  assumes "jstep env allowed (s, w) (s', w')" "minv (s, w)"
  shows "minv (s', w')"
proof -
  have later: "minv (s', w)" by (rule changes_minv [OF jstep_changes [OF assms] assms(2)])
  then have num: "filledTo s' r" if "r \<in> set w" for r using that by (simp add: minv_def list_all_iff)
  have ok: "numbersOk s'" using later by (simp add: minv_def jinv_def)
  have "filledTo s' r" if "r \<in> set w'" for r
  proof -
    have "r \<in> set w \<or> (\<forall>n. pb_Phase r = SawNumber n \<longrightarrow> n = NextAttemptNo (pb_SessionID r) (pb_TriggerEventID r) s')"
      using assms(1) that by cases (auto dest: notin_set_remove1)
    with num [of r] next_number [OF ok, of "pb_SessionID r" "pb_TriggerEventID r"] show ?thesis by (auto simp: filledTo_def split: beginPhase.splits)
  qed
  with later show ?thesis by (simp add: minv_def list_all_iff)
qed

lemma reachable_minv: "reachableFrom env allowed sessions m \<Longrightarrow> minv m"
  unfolding reachableFrom_def
proof (induction rule: rtranclp_induct)
  case base
  then show ?case by (simp add: minv_def jinit_jinv)
next
  case (step m m')
  then show ?case by (cases m; cases m') (auto intro: jstep_minv)
qed

section \<open>Attempts without rivals\<close>

definition attemptIDs :: "journal \<Rightarrow> string set" where
  "attemptIDs s = ta_ID ` set (jn_Attempts s)"

lemma change_ids: "change s s' \<Longrightarrow> attemptIDs s \<subseteq> attemptIDs s'"
proof (induction rule: change.induct)
  case (attempt_added row s s')
  from InsertTurnAttempt_Inr(1) [OF attempt_added(1)] show ?case by (auto simp: attemptIDs_def)
next
  case (step_added step s s')
  from InsertToolStep_Inr(1) [OF step_added(1)] show ?case by (auto simp: attemptIDs_def)
next
  case (attempt_ended f state s i)
  have "map ta_ID (updateWhere (finishable i) f (jn_Attempts s)) = map ta_ID (jn_Attempts s)"
    using attempt_ended(1) by (simp add: map_updateWhere_inv)
  then show ?case by (simp add: attemptIDs_def flip: set_map)
qed (simp add: attemptIDs_def)

text \<open>A turn that has neither a live attempt nor a crossed step; it wakes up only by a new attempt.\<close>

definition dormant :: "journal \<Rightarrow> string \<Rightarrow> string \<Rightarrow> bool" where
  "dormant s u e \<longleftrightarrow> (\<forall>a \<in> set (jn_Attempts s). ofTurn u e a \<longrightarrow> ta_State a \<noteq> RunAttemptActive) \<and> uncrossedTurn s u e"

definition undisturbed :: "journal \<Rightarrow> pendingBegin \<Rightarrow> bool" where
  "undisturbed s r \<longleftrightarrow> pb_ID r \<in> attemptIDs s \<or> (case pb_Phase r of
     SawNoActive \<Rightarrow> (\<forall>a \<in> set (jn_Attempts s). ofTurn (pb_SessionID r) (pb_TriggerEventID r) a \<longrightarrow> ta_State a \<noteq> RunAttemptActive)
   | _ \<Rightarrow> dormant s (pb_SessionID r) (pb_TriggerEventID r))"

lemma ids_no_insert: "change s s' \<Longrightarrow> attemptIDs s' \<subseteq> attemptIDs s \<Longrightarrow> \<not> InsertTurnAttempt row s = Inr s'"
  using InsertTurnAttempt_Inr(1,4) by (fastforce simp: attemptIDs_def)

lemma changes_ids: "change\<^sup>*\<^sup>* s s' \<Longrightarrow> attemptIDs s \<subseteq> attemptIDs s'"
  by (induction rule: rtranclp_induct) (use change_ids in blast)+

text \<open>Induction over changes that add no attempt.\<close>

lemma changes_same_ids:
  assumes "change\<^sup>*\<^sup>* s s'" "attemptIDs s' \<subseteq> attemptIDs s" "jinv s" "P s"
    and step: "\<And>s1 s2. change s1 s2 \<Longrightarrow> attemptIDs s2 = attemptIDs s1 \<Longrightarrow> jinv s1 \<Longrightarrow> P s1 \<Longrightarrow> P s2"
  shows "P s'"
  using assms(1-4)
proof (induction rule: rtranclp_induct)
  case (step s1 s2)
  have ids: "attemptIDs s \<subseteq> attemptIDs s1" "attemptIDs s1 \<subseteq> attemptIDs s2"
    using changes_ids [OF step(1)] change_ids [OF step(2)] by blast+
  with step.prems(1) have "attemptIDs s2 = attemptIDs s1" "attemptIDs s1 \<subseteq> attemptIDs s" by blast+
  with assms(5) [OF step(2)] step.IH step.prems changes_jinv [OF step(1)] show ?case by blast
qed simp

lemma uncrossed_change:
  assumes ch: "change s s'" and inv: "jinv s" and ids: "attemptIDs s' = attemptIDs s" and d: "dormant s u e"
  shows "dormant s' u e"
  using ch
proof cases
  case (attempt_added row)
  with ids_no_insert [OF ch] ids show ?thesis by simp
next
  case (step_added step)
  from InsertToolStep_Inr [OF step_added(1)] step_added(2) d show ?thesis
    by (auto simp: dormant_def uncrossedTurn_def crossed_def)
next
  case (steps_moved p f)
  have "\<not> crossed t'" if t': "t' \<in> set (jn_Steps s')" and a: "a \<in> set (jn_Attempts s)" "ta_ID a = ts_AttemptID t'" "ofTurn u e a" for t' a
  proof -
    from t' steps_moved obtain t where t: "t \<in> set (jn_Steps s)" "t' = t \<or> stepMoves s t t'"
      by (auto simp: set_updateWhere split: if_splits)
    then have own: "ts_AttemptID t = ts_AttemptID t'" by (auto simp: stepMoves_def sameKeys_def)
    with d t(1) a have "\<not> crossed t" by (auto simp: dormant_def uncrossedTurn_def)
    moreover have "\<not> liveAttempt s (ts_AttemptID t)"
      using d a own attempt_key [of s] inv by (fastforce simp: liveAttempt_def dormant_def jinv_def)
    ultimately show ?thesis using t(2) by (auto simp: stepMoves_def crossed_def)
  qed
  with d show ?thesis using steps_moved(1) by (auto simp: dormant_def uncrossedTurn_def)
next
  case (attempt_ended f state i)
  define g where "g = (\<lambda>a. if finishable i a then f a else a)"
  have g: "ta_ID (g a) = ta_ID a" "ofTurn u e (g a) = ofTurn u e a" "ta_State (g a) = RunAttemptActive \<Longrightarrow> ta_State a = RunAttemptActive" for a
    using attempt_ended(2,3) by (auto simp: g_def ofTurn_def split: if_splits)
  have at: "set (jn_Attempts s') = g ` set (jn_Attempts s)" "jn_Steps s' = jn_Steps s"
    by (simp_all add: attempt_ended(1) updateWhere_map g_def)
  show ?thesis using d g(3) unfolding dormant_def uncrossedTurn_def at by (auto simp: g(1,2))
qed

lemma idle_change:
  assumes ch: "change s s'" and ids: "attemptIDs s' = attemptIDs s"
    and d: "\<forall>a \<in> set (jn_Attempts s). ofTurn u e a \<longrightarrow> ta_State a \<noteq> RunAttemptActive"
  shows "\<forall>a \<in> set (jn_Attempts s'). ofTurn u e a \<longrightarrow> ta_State a \<noteq> RunAttemptActive"
  using ch
proof cases
  case (attempt_added row)
  with ids_no_insert [OF ch] ids show ?thesis by simp
next
  case (step_added step)
  from InsertToolStep_Inr [OF step_added(1)] d show ?thesis by simp
next
  case (attempt_ended f state i)
  then show ?thesis using d by (auto simp: set_updateWhere ofTurn_def split: if_splits)
qed (use d in simp)

lemma undisturbed_change:
  assumes "change s s'" "attemptIDs s' = attemptIDs s" "jinv s" "undisturbed s r" shows "undisturbed s' r"
  using assms(4) uncrossed_change [OF assms(1,3,2)] idle_change [OF assms(1,2)]
  unfolding undisturbed_def assms(2) by (cases "pb_Phase r") auto

text \<open>An insert into another turn leaves a turn dormant, and one into the same turn uses up its name.\<close>

lemma undisturbed_insert:
  assumes ins: "InsertTurnAttempt (newAttempt i u e n now) s = Inr s'" and "turnOf r = (u, e) \<longrightarrow> pb_ID r = i" "undisturbed s r"
    and own: "\<forall>t \<in> set (jn_Steps s). ts_AttemptID t \<in> attemptIDs s"
  shows "undisturbed s' r"
proof -
  note row = InsertTurnAttempt_Inr [OF ins]
  have at: "set (jn_Attempts s') = insert (newAttempt i u e n now) (set (jn_Attempts s))" "jn_Steps s' = jn_Steps s"
    by (simp_all add: row(1))
  have new: "i \<in> attemptIDs s'" "attemptIDs s \<subseteq> attemptIDs s'"
    by (auto simp: attemptIDs_def at turnAttempt_newAttempt)
  show ?thesis
  proof (cases "turnOf r = (u, e)")
    case True
    with assms(2) new(1) show ?thesis by (simp add: undisturbed_def)
  next
    case False
    then have "\<not> ofTurn (pb_SessionID r) (pb_TriggerEventID r) (newAttempt i u e n now)"
      by (auto simp: ofTurn_def turnAttempt_newAttempt)
    with assms(3) new(2) show ?thesis
      by (auto simp: undisturbed_def dormant_def uncrossedTurn_def at split: beginPhase.splits)
  qed
qed

definition loneInv :: "machine \<Rightarrow> bool" where
  "loneInv m \<longleftrightarrow> minv m \<and> lastOnly (fst m) \<and> list_all (undisturbed (fst m)) (snd m)
     \<and> (\<forall>r \<in> set (snd m). \<forall>q \<in> set (snd m). turnOf r = turnOf q \<longrightarrow> pb_ID r = pb_ID q)"

text \<open>The operations of a running attempt add no attempt.\<close>

lemma InsertToolStep_ids: "InsertToolStep row s = Inr s' \<Longrightarrow> attemptIDs s' = attemptIDs s"
  using InsertToolStep_Inr(1) by (fastforce simp: attemptIDs_def)

lemma setSteps_ids: "setSteps p f s = (n, s') \<Longrightarrow> attemptIDs s' = attemptIDs s"
  by (auto simp: setSteps_def attemptIDs_def)

lemma FinishTurnAttempt_ids: "FinishTurnAttempt state err now i s = (n, s') \<Longrightarrow> attemptIDs s' = attemptIDs s"
  by (auto simp: FinishTurnAttempt_def attemptIDs_def map_updateWhere_inv simp flip: set_map)

lemma finishAttemptLocked_ids:
  assumes "finishAttemptLocked now i state err u e s = Inr s'" shows "attemptIDs s' = attemptIDs s"
proof -
  define s1 where "s1 = (if state = RunAttemptInterrupted then snd (MarkStartedStepsAmbiguousForAttempt now i s) else s)"
  from assms obtain s2 where "FinishTurnAttempt state err now i s1 = (1, s2)" "s' = s2"
    by (auto simp: finishAttemptLocked_def Let_def s1_def split: option.splits if_splits prod.splits)
  moreover have "attemptIDs s1 = attemptIDs s"
    unfolding s1_def MarkStartedStepsAmbiguousForAttempt_def using setSteps_ids by (auto simp: setSteps_def attemptIDs_def)
  ultimately show ?thesis using FinishTurnAttempt_ids by metis
qed

lemma RecoverTurn_ids: "keysOk s \<Longrightarrow> attemptIDs (snd (RecoverTurn now u e s)) = attemptIDs s"
  by (simp add: RecoverTurn_tables attemptIDs_def failAttempt_def map_updateWhere_inv split: option.split flip: set_map)

lemmas row_updates = CompleteToolStepRow_def StartToolStepRow_def MarkToolStepAmbiguousRow_def CompletePreparedToolStepRow_def

lemma jstep_ids:
  assumes "jstep env allowed (s, w) (s', w')" "keysOk s"
  shows "attemptIDs s' = attemptIDs s
    \<or> (\<exists>r n now. r \<in> set w \<and> pb_Phase r = SawNumber n
         \<and> InsertTurnAttempt (newAttempt (pb_ID r) (pb_SessionID r) (pb_TriggerEventID r) n now) s = Inr s' \<and> w' = remove1 r w)"
  using assms(1)
proof cases
  case insert
  then show ?thesis by blast
next
  case recover
  with RecoverTurn_ids [OF assms(2)] show ?thesis by (metis snd_conv)
next
  case start
  then show ?thesis by (auto simp: StartToolStep_def row_updates split: option.splits if_splits prod.splits dest: setSteps_ids)
next
  case ambiguous
  then show ?thesis by (auto simp: MarkToolStepAmbiguous_def row_updates split: option.splits if_splits prod.splits dest: setSteps_ids)
next
  case complete
  then show ?thesis
    by (auto simp: CompleteToolStep_def row_updates bindE_Inr_iff split: option.splits if_splits prod.splits dest: setSteps_ids)
next
  case coordinate
  then show ?thesis by (auto simp: row_updates dest: setSteps_ids)
qed (auto simp: PrepareToolStep_def EnsureToolStep_def FinishAttempt_def bindE_Inr_iff split: if_splits option.splits
    dest: InsertToolStep_ids finishAttemptLocked_ids)

text \<open>What a read adds to what is known of an execution.\<close>

lemma jstep_pending:
  assumes "jstep env unrivalled (s, w) (s', w')" "loneInv (s, w)" "q \<in> set w'"
  shows "(\<exists>r \<in> set w. turnOf q = turnOf r \<and> pb_ID q = pb_ID r \<and> (undisturbed s' r \<longrightarrow> undisturbed s' q))
    \<or> (undisturbed s' q \<and> unrivalled w (turnOf q) (pb_ID q) \<and> set w' = insert q (set w))"
proof (cases "q \<in> set w")
  case False
  from assms(1) show ?thesis
  proof cases
    case (active u e i)
    with False assms(3) show ?thesis by (auto simp: undisturbed_def ActiveAttemptForTurn_None)
  next
    case (prior r)
    with False assms(3) have q: "q = r\<lparr>pb_Phase := SawNoPrior\<rparr>" by (auto dest: notin_set_remove1)
    have "undisturbed s' q" if "undisturbed s' r" using that prior unfolding q by (auto simp: undisturbed_def dormant_def prior_iff)
    with prior(3) show ?thesis unfolding q by (intro disjI1 bexI [of _ r]) auto
  next
    case (number r)
    with False assms(3) obtain n where q: "q = r\<lparr>pb_Phase := SawNumber n\<rparr>" by (auto dest: notin_set_remove1)
    have "undisturbed s' q" if "undisturbed s' r" using that number unfolding q by (auto simp: undisturbed_def)
    with number(3) show ?thesis unfolding q by (intro disjI1 bexI [of _ r]) auto
  qed (use False assms(3) in \<open>auto dest: notin_set_remove1\<close>)
qed blast

lemma jstep_lone:
  assumes "jstep env unrivalled (s, w) (s', w')" "loneInv (s, w)"
  shows "loneInv (s', w')"
proof -
  have inv: "minv (s, w)" "jinv s" "keysOk s" "lastOnly s" using assms(2) by (simp_all add: loneInv_def minv_def jinv_def)
  have same: "turnOf r = turnOf q \<Longrightarrow> pb_ID r = pb_ID q" if "r \<in> set w" "q \<in> set w" for r q
    using assms(2) that unfolding loneInv_def snd_conv by blast
  have quietw: "undisturbed s r" if "r \<in> set w" for r using assms(2) that by (simp add: loneInv_def list_all_iff)
  note ch = jstep_changes [OF assms(1) inv(1)]
  have "lastOnly s' \<and> (\<forall>r \<in> set w. undisturbed s' r)"
    using jstep_ids [OF assms(1) inv(3)]
  proof
    assume ids: "attemptIDs s' = attemptIDs s"
    have "lastOnly s'"
      by (rule changes_same_ids [where P = lastOnly, OF ch _ inv(2,4)]) (use ids ids_no_insert change_lastOnly in \<open>blast+\<close>)
    moreover have "undisturbed s' r" if "r \<in> set w" for r
      by (rule changes_same_ids [where P = "\<lambda>s. undisturbed s r", OF ch _ inv(2) quietw [OF that]]) (use ids undisturbed_change in \<open>blast+\<close>)
    ultimately show ?thesis by blast
  next
    assume "\<exists>r n now. r \<in> set w \<and> pb_Phase r = SawNumber n
         \<and> InsertTurnAttempt (newAttempt (pb_ID r) (pb_SessionID r) (pb_TriggerEventID r) n now) s = Inr s' \<and> w' = remove1 r w"
    then obtain r n now where r: "r \<in> set w" "pb_Phase r = SawNumber n"
      and ins: "InsertTurnAttempt (newAttempt (pb_ID r) (pb_SessionID r) (pb_TriggerEventID r) n now) s = Inr s'" by blast
    have "pb_ID r \<notin> attemptIDs s" using InsertTurnAttempt_Inr(4) [OF ins] by (auto simp: attemptIDs_def turnAttempt_newAttempt)
    with quietw [OF r(1)] r(2) have un: "uncrossedTurn s (pb_SessionID r) (pb_TriggerEventID r)"
      by (simp add: undisturbed_def dormant_def)
    have only: "row = newAttempt (pb_ID r) (pb_SessionID r) (pb_TriggerEventID r) n now" if "InsertTurnAttempt row s = Inr s'" for row
      using arg_cong [OF InsertTurnAttempt_Inr(1) [OF that], of jn_Attempts]
        arg_cong [OF InsertTurnAttempt_Inr(1) [OF ins], of jn_Attempts] by simp
    have new: "uncrossedTurn s (ta_SessionID row) (ta_TriggerEventID row)" if "InsertTurnAttempt row s = Inr s'" for row
      using un unfolding only [OF that] by (simp add: turnAttempt_newAttempt)
    have "lastOnly s'" by (rule change_lastOnly [OF insert_pending_change [OF inv(1) r ins] inv(2,4) new])
    moreover have "undisturbed s' q" if "q \<in> set w" for q
      by (rule undisturbed_insert [OF ins _ quietw [OF that]])
        (use same [OF that r(1)] inv(2) in \<open>auto simp: jinv_def stepsOk_def attemptIDs_def\<close>)
    ultimately show ?thesis by blast
  qed
  then have old: "lastOnly s'" "\<And>r. r \<in> set w \<Longrightarrow> undisturbed s' r" by blast+
  note pend = jstep_pending [OF assms]
  have "undisturbed s' q" if "q \<in> set w'" for q using pend [OF that] old(2) by blast
  moreover have "pb_ID q = pb_ID q'" if q: "q \<in> set w'" "q' \<in> set w'" and turn: "turnOf q = turnOf q'" for q q'
  proof -
    have lone: "pb_ID x = pb_ID y" if "unrivalled w (turnOf x) (pb_ID x)" "turnOf y = turnOf x" "r \<in> set w"
      "turnOf y = turnOf r" "pb_ID y = pb_ID r" for x y r
      using that unfolding unrivalled_def list_all_iff by metis
    from pend [OF q(1)] show ?thesis
    proof (elim disjE bexE conjE)
      fix r assume r: "r \<in> set w" "turnOf q = turnOf r" "pb_ID q = pb_ID r"
      from pend [OF q(2)] show ?thesis
      proof (elim disjE bexE conjE)
        fix r' assume "r' \<in> set w" "turnOf q' = turnOf r'" "pb_ID q' = pb_ID r'"
        with r turn same [of r r'] show ?thesis by metis
      next
        assume "unrivalled w (turnOf q') (pb_ID q')"
        from lone [OF this turn r] show ?thesis by (rule sym)
      qed
    next
      assume un: "unrivalled w (turnOf q) (pb_ID q)" and w': "set w' = insert q (set w)"
      show ?thesis
      proof (cases "q' = q")
        case False
        with w' q(2) have "q' \<in> set w" by simp
        from lone [OF un turn [symmetric] this refl refl] show ?thesis .
      qed simp
    qed
  qed
  ultimately show ?thesis using old(1) jstep_minv [OF assms(1) inv(1)]
    unfolding loneInv_def fst_conv snd_conv list_all_iff by blast
qed

lemma reachable_lone: "reachableFrom env unrivalled sessions m \<Longrightarrow> loneInv m"
  unfolding reachableFrom_def
proof (induction rule: rtranclp_induct)
  case base
  have "lastOnly (jinit sessions)" by (simp add: lastOnly_def jinit_def)
  then show ?case by (simp add: loneInv_def minv_def jinit_jinv)
next
  case (step m m')
  then show ?case by (cases m; cases m') (auto intro: jstep_lone)
qed

section \<open>Properties\<close>

definition sampleStep :: ToolStep where
  "sampleStep = (newStep ''step'' ''att'' 0 ''evt'' ''bash'' [] 2)
     \<lparr>ts_State := ToolStepStarted, ts_StartedAt := Some 3, ts_UpdatedAt := 3\<rparr>"

definition sampleJournal :: journal where
  "sampleJournal = \<lparr>jn_Sessions = [''ses''], jn_Attempts = [newAttempt ''att'' ''ses'' ''trigger'' 1 1],
     jn_Steps = [sampleStep]\<rparr>"

lemmas journal_eval = sampleJournal_def sampleStep_def newStep_def newAttempt_def ofTurn_def jinit_def
  ActiveAttemptForTurn_def PriorToolExecutionForTurn_def NextAttemptNo_def InsertTurnAttempt_def
  InsertToolStep_def GetTurnAttempt_def GetToolStep_def ToolStepConflict_def setSteps_def affected_def
  StartToolStepRow_def int32_def inTurn_def crossed_def

definition sampleEnded :: journal where
  "sampleEnded = \<lparr>jn_Sessions = [''ses''],
     jn_Attempts = [(newAttempt ''att'' ''ses'' ''trigger'' 1 1)
       \<lparr>ta_State := RunAttemptInterrupted, ar_UpdatedAt := 4, ar_FinishedAt := Some 4\<rparr>],
     jn_Steps = [markAmbiguous 4 sampleStep]\<rparr>"

lemma sample_finished: "FinishAttempt 4 ''att'' RunAttemptInterrupted None sampleJournal = Inr sampleEnded"
  by (simp add: FinishAttempt_def validateAttemptFinish_def finishAttemptLocked_def Let_def journal_eval
      sampleEnded_def MarkStartedStepsAmbiguousForAttempt_def CountStartedStepsForAttempt_def
      FinishTurnAttempt_def finishable_def markAmbiguous_def)

definition sampleJournalEnv :: journalEnv where
  "sampleJournalEnv = \<lparr>je_Recode = Some, je_RecodeResult = Some, je_Respace = id\<rparr>"

lemma sample_reachable:
  assumes "\<And>turn i. allowed [] turn i"
  shows "reachableFrom sampleJournalEnv allowed [''ses''] (sampleJournal, [])"
proof -
  let ?s1 = "\<lparr>jn_Sessions = [''ses''], jn_Attempts = [newAttempt ''att'' ''ses'' ''trigger'' 1 1], jn_Steps = []\<rparr>"
  let ?s2 = "\<lparr>jn_Sessions = [''ses''], jn_Attempts = [newAttempt ''att'' ''ses'' ''trigger'' 1 1],
     jn_Steps = [newStep ''step'' ''att'' 0 ''evt'' ''bash'' [] 2]\<rparr>"
  have "BeginAttempt ''att'' 1 ''ses'' ''trigger'' (jinit [''ses''])
      = Inr (turnAttemptFromRow (newAttempt ''att'' ''ses'' ''trigger'' 1 1), ?s1)"
    by (simp add: BeginAttempt_def Let_def journal_eval)
  then have 1: "(jstep sampleJournalEnv allowed)\<^sup>*\<^sup>* (jinit [''ses''], []) (?s1, [])" using assms by (rule BeginAttempt_alone)
  have "PrepareToolStep (je_Recode sampleJournalEnv) ''step'' 2 ''att'' 0 ''evt'' ''bash'' (Some []) ?s1 = Inr (''step'', ?s2)"
    by (simp add: PrepareToolStep_def journal_eval sampleJournalEnv_def)
  then have 2: "jstep sampleJournalEnv allowed (?s1, []) (?s2, [])" by (rule jstep.prepare)
  have "StartToolStep 3 ''step'' ?s2 = Inr ((), sampleJournal)"
    by (simp add: StartToolStep_def journal_eval)
  then have 3: "jstep sampleJournalEnv allowed (?s2, []) (sampleJournal, [])" by (rule jstep.start)
  from 1 2 3 show ?thesis
    unfolding reachableFrom_def by (meson rtranclp.rtrancl_into_rtrancl)
qed

text \<open>
  C1. No silent replay: as long as executions that begin attempts of one turn at the same time carry the same
  attempt name, as redelivered activities of a Workflow do, then in every reachable state of the journal, however its
  transactions and the single reads of a beginning attempt interleave, the tool steps of a turn that crossed the
  side-effect boundary all belong to one attempt, which is the last attempt of the turn. A turn whose tools may have
  acted is never begun again.
\<close>

theorem no_silent_replay:
  assumes "reachableFrom env unrivalled sessions (s, w)"
    and "t \<in> set (jn_Steps s)" "t' \<in> set (jn_Steps s)" "crossed t" "crossed t'"
    and "a \<in> set (jn_Attempts s)" "a' \<in> set (jn_Attempts s)" "ta_ID a = ts_AttemptID t" "ta_ID a' = ts_AttemptID t'"
    and "sameTurn a a'"
  shows "a = a' \<and> (\<forall>b \<in> set (jn_Attempts s). sameTurn a b \<longrightarrow> ta_AttemptNo b \<le> ta_AttemptNo a)"
proof -
  have inv: "numbersOk s" "lastOnly s"
    using reachable_lone [OF assms(1)] by (simp_all add: loneInv_def minv_def jinv_def)
  have last: "ta_AttemptNo b \<le> ta_AttemptNo a" if "b \<in> set (jn_Attempts s)" "sameTurn a b" for b
    using inv(2) assms(2,4,6,8) that by (auto simp: lastOnly_def)
  have "ta_AttemptNo a \<le> ta_AttemptNo a'"
    using inv(2) assms(3,5,6,7,9,10) sameTurn_sym [of a a'] by (auto simp: lastOnly_def)
  with last [OF assms(7,10)] have "ta_AttemptNo a = ta_AttemptNo a'" by simp
  with inv(1) assms(6,7,10) last show ?thesis by (auto simp: numbersOk_def)
qed

theorem no_silent_replay_witness:
  "\<not> (\<exists>b \<in> set (jn_Attempts sampleJournal).
      sameTurn (newAttempt ''att'' ''ses'' ''trigger'' 1 1) b \<and> 1 < ta_AttemptNo b)"
  using no_silent_replay [OF sample_reachable, of sampleStep sampleStep
    "newAttempt ''att'' ''ses'' ''trigger'' 1 1" "newAttempt ''att'' ''ses'' ''trigger'' 1 1"]
  by (simp add: journal_eval unrivalled_def)

text \<open>
  Rivals with names of their own do replay: one reads that nothing is prior, the other then begins, runs its tool and
  ends, and the first still inserts its attempt, since neither the number nor the name is taken.
\<close>

definition rivalJournal :: journal where
  "rivalJournal = \<lparr>jn_Sessions = [''ses''],
     jn_Attempts = [(newAttempt ''att'' ''ses'' ''trigger'' 1 1)
         \<lparr>ta_State := RunAttemptInterrupted, ar_UpdatedAt := 4, ar_FinishedAt := Some 4\<rparr>,
       newAttempt ''rival'' ''ses'' ''trigger'' 2 5],
     jn_Steps = [markAmbiguous 4 sampleStep]\<rparr>"

lemma rival_begins_replay:
  "reachableFrom sampleJournalEnv anyRivals [''ses''] (rivalJournal, [])"
  "\<not> lastOnly rivalJournal"
proof -
  let ?r = "\<lparr>pb_SessionID = ''ses'', pb_TriggerEventID = ''trigger'', pb_ID = ''rival'', pb_Phase = SawNoActive\<rparr>"
  let ?p = "?r\<lparr>pb_Phase := SawNoPrior\<rparr>"
  let ?s1 = "\<lparr>jn_Sessions = [''ses''], jn_Attempts = [newAttempt ''att'' ''ses'' ''trigger'' 1 1], jn_Steps = []\<rparr>"
  let ?s2 = "\<lparr>jn_Sessions = [''ses''], jn_Attempts = [newAttempt ''att'' ''ses'' ''trigger'' 1 1],
     jn_Steps = [newStep ''step'' ''att'' 0 ''evt'' ''bash'' [] 2]\<rparr>"
  let ?J = "jstep sampleJournalEnv anyRivals"
  have 1: "?J (jinit [''ses''], []) (jinit [''ses''], [?r])"
    by (rule jstep.active) (simp_all add: journal_eval anyRivals_def)
  have 2: "?J (jinit [''ses''], [?r]) (jinit [''ses''], [?p])"
    using jstep.prior [of ?r "[?r]" "jinit [''ses'']" sampleJournalEnv anyRivals] by (simp add: journal_eval)
  have "BeginAttempt ''att'' 1 ''ses'' ''trigger'' (jinit [''ses''])
      = Inr (turnAttemptFromRow (newAttempt ''att'' ''ses'' ''trigger'' 1 1), ?s1)"
    by (simp add: BeginAttempt_def Let_def journal_eval)
  then have 3: "?J\<^sup>*\<^sup>* (jinit [''ses''], [?p]) (?s1, [?p])" by (rule BeginAttempt_alone) (simp add: anyRivals_def)
  have "PrepareToolStep (je_Recode sampleJournalEnv) ''step'' 2 ''att'' 0 ''evt'' ''bash'' (Some []) ?s1 = Inr (''step'', ?s2)"
    by (simp add: PrepareToolStep_def journal_eval sampleJournalEnv_def)
  then have 4: "?J (?s1, [?p]) (?s2, [?p])" by (rule jstep.prepare)
  have "StartToolStep 3 ''step'' ?s2 = Inr ((), sampleJournal)"
    by (simp add: StartToolStep_def journal_eval)
  then have 5: "?J (?s2, [?p]) (sampleJournal, [?p])" by (rule jstep.start)
  have "FinishAttempt 4 ''att'' RunAttemptInterrupted None sampleJournal = Inr sampleEnded" by (rule sample_finished)
  then have 6: "?J (sampleJournal, [?p]) (sampleEnded, [?p])" by (rule jstep.finish)
  have 7: "?J (sampleEnded, [?p]) (sampleEnded, [?r\<lparr>pb_Phase := SawNumber 2\<rparr>])"
    using jstep.number [of ?p "[?p]" sampleJournalEnv anyRivals sampleEnded]
    by (simp add: journal_eval sampleEnded_def)
  have 8: "?J (sampleEnded, [?r\<lparr>pb_Phase := SawNumber 2\<rparr>]) (rivalJournal, [])"
    using jstep.insert [of "?r\<lparr>pb_Phase := SawNumber 2\<rparr>" "[?r\<lparr>pb_Phase := SawNumber 2\<rparr>]" 2 5 sampleEnded rivalJournal
        sampleJournalEnv anyRivals]
    by (simp add: journal_eval sampleEnded_def rivalJournal_def)
  show "reachableFrom sampleJournalEnv anyRivals [''ses''] (rivalJournal, [])" unfolding reachableFrom_def
    using 1 2 3 4 5 6 7 8 by (meson rtranclp.rtrancl_into_rtrancl rtranclp_trans rtranclp.rtrancl_refl)
  show "\<not> lastOnly rivalJournal"
    by (auto simp: lastOnly_def rivalJournal_def journal_eval markAmbiguous_def)
qed

text \<open>
  C2. An attempt that has ended is final, whatever begins beside it: in every reachable state its steps are classified (none
  is merely started, and a completed attempt has only completed steps with a durable result), and
  no later transaction changes the attempt or any of its steps, nor starts one of them.
\<close>

theorem ended_attempt_final:
  assumes "reachableFrom env allowed sessions (s, w)" "ended s i"
    and "(jstep env allowed)\<^sup>*\<^sup>* (s, w) (s', w')"
  shows "GetTurnAttempt i s' = GetTurnAttempt i s \<and> stepsOf i s' = stepsOf i s
    \<and> (\<forall>t \<in> set (stepsOf i s). ts_State t \<noteq> ToolStepStarted \<and> StartToolStep now (ts_ID t) s' =
          Inl (Refused (Conflict ''tool step requires an active attempt''))
        \<and> (map_option ta_State (GetTurnAttempt i s) = Some RunAttemptCompleted
             \<longrightarrow> ts_State t = ToolStepCompleted \<and> ts_Result t \<noteq> None))"
proof -
  have inv: "minv (s, w)" by (rule reachable_minv [OF assms(1)])
  have "minv (s', w') \<and> ended s' i \<and> GetTurnAttempt i s' = GetTurnAttempt i s \<and> stepsOf i s' = stepsOf i s"
    using assms(3)
  proof (induction rule: rtranclp_induct2)
    case refl
    with inv assms(2) show ?case by simp
  next
    case (step s1 w1 s2 w2)
    have ch: "change\<^sup>*\<^sup>* s1 s2" using jstep_changes step by blast
    have "jinv s1" using step.IH by (simp add: minv_def)
    have "ended s2 i \<and> GetTurnAttempt i s2 = GetTurnAttempt i s1 \<and> stepsOf i s2 = stepsOf i s1"
      by (rule changes_ended [OF ch \<open>jinv s1\<close>]) (use step.IH in blast)
    with step jstep_minv show ?case by metis
  qed
  then have end': "minv (s', w')" "GetTurnAttempt i s' = GetTurnAttempt i s" "stepsOf i s' = stepsOf i s" by auto
  obtain a where a: "a \<in> set (jn_Attempts s)" "ta_ID a = i" "ta_State a \<noteq> RunAttemptActive"
    using assms(2) by (auto simp: ended_def)
  have k: "keysOk s" "keysOk s'" "fenced s" "stepsOk s"
    using inv end'(1) by (simp_all add: minv_def jinv_def)
  have got: "GetTurnAttempt i s = Some a" using GetTurnAttempt_key [OF k(1) a(1)] a(2) by simp
  have "ts_State t \<noteq> ToolStepStarted \<and> StartToolStep now (ts_ID t) s' =
          Inl (Refused (Conflict ''tool step requires an active attempt''))
        \<and> (map_option ta_State (GetTurnAttempt i s) = Some RunAttemptCompleted
             \<longrightarrow> ts_State t = ToolStepCompleted \<and> ts_Result t \<noteq> None)"
    if t: "t \<in> set (stepsOf i s)" for t
  proof -
    have "t \<in> set (stepsOf i s')" using t unfolding end'(3) .
    then have t': "t \<in> set (jn_Steps s')" "ts_AttemptID t = i" "t \<in> set (jn_Steps s)"
      using t by (simp_all add: stepsOf_def)
    have "GetToolStep (ts_ID t) s' = Some t" by (rule GetToolStep_key [OF k(2) t'(1)])
    moreover have "dated t" using k(4) t'(3) by (auto simp: stepsOk_def)
    ultimately show ?thesis
      using end'(2) got a t' k(3) by (auto simp: StartToolStep_def fenced_def dated_def)
  qed
  with end' show ?thesis by blast
qed

lemma sampleEnded_reachable: "reachableFrom sampleJournalEnv anyRivals [''ses''] (sampleEnded, [])"
proof -
  have "jstep sampleJournalEnv anyRivals (sampleJournal, []) (sampleEnded, [])" by (rule jstep.finish [OF sample_finished])
  with sample_reachable [of anyRivals] show ?thesis
    unfolding reachableFrom_def anyRivals_def by (meson rtranclp.rtrancl_into_rtrancl)
qed

theorem ended_attempt_final_witness:
  "list_all (\<lambda>t. StartToolStep 9 (ts_ID t) sampleEnded =
     Inl (Refused (Conflict ''tool step requires an active attempt''))) (stepsOf ''att'' sampleEnded)"
  using ended_attempt_final [OF sampleEnded_reachable, of "''att''" sampleEnded "[]" 9]
  by (simp add: ended_def sampleEnded_def newAttempt_def list_all_iff)

text \<open>
  C3. Recovery classifies a crashed turn: afterwards the turn has no active attempt and no step
  that is merely started, the steps that crossed the boundary are completed or ambiguous, and
  the answer tells exactly whether a fresh attempt may begin.
\<close>

theorem recovery_classifies:
  assumes "reachableFrom env allowed sessions (s, w)" "RecoverTurn now u e s = (prior, s')"
    and "u \<in> set (jn_Sessions s)" "i \<notin> ta_ID ` set (jn_Attempts s)"
  shows "ActiveAttemptForTurn u e s' = None \<and> StartedStepsForTurn u e s' = []
    \<and> (\<forall>t \<in> set (jn_Steps s'). inTurn u e s' t \<and> crossed t \<longrightarrow> ts_State t \<in> {ToolStepCompleted, ToolStepAmbiguous})
    \<and> isOk (BeginAttempt i now' u e s') = (\<not> prior)"
proof -
  have inv: "jinv s" using reachable_minv [OF assms(1)] by (simp add: minv_def)
  then have k: "keysOk s" and one: "oneActive s" by (simp_all add: jinv_def)
  have s': "s' = snd (RecoverTurn now u e s)" using assms(2) by simp
  have inv': "jinv s'"
    using changes_jinv [OF RecoverTurn_change [OF k] inv] by (simp add: s')
  note tables = RecoverTurn_tables [OF k, of now u e, folded s']
  have ids: "ta_ID ` set (jn_Attempts s') = ta_ID ` set (jn_Attempts s)"
  proof -
    have "map ta_ID (jn_Attempts s') = map ta_ID (jn_Attempts s)"
      by (simp add: tables failAttempt_def map_updateWhere_inv split: option.splits)
    then show ?thesis by (metis list.set_map)
  qed
  have idle: "ActiveAttemptForTurn u e s' = None"
  proof (cases "ActiveAttemptForTurn u e s")
    case None
    then show ?thesis by (simp add: tables ActiveAttemptForTurn_def)
  next
    case (Some j)
    from ActiveAttemptForTurn_Some [OF Some] obtain b where b: "b \<in> set (jn_Attempts s)" "ta_ID b = j"
      "ofTurn u e b" "ta_State b = RunAttemptActive" by blast
    have "finishable j a" if "a \<in> set (jn_Attempts s)" "ofTurn u e a" "ta_State a = RunAttemptActive" for a
      using one that b by (auto simp: oneActive_def finishable_def ofTurn_def)
    then show ?thesis
      unfolding ActiveAttemptForTurn_None
      by (auto simp: tables Some set_updateWhere failAttempt_def ofTurn_def)
  qed
  have dead: "ts_State t \<noteq> ToolStepStarted" if "t \<in> set (jn_Steps s')" "inTurn u e s' t" for t
    using that idle inv' by (auto simp: inTurn_def list_ex_iff ActiveAttemptForTurn_None jinv_def fenced_def)
  have n: "0 < NextAttemptNo u e s'"
    using next_number(2) inv' by (simp add: jinv_def)
  have fresh: "NextAttemptNo u e s' \<notin> ta_AttemptNo ` set (filter (ofTurn u e) (jn_Attempts s'))"
    using foldr_max_ge [of _ "map ta_AttemptNo (filter (ofTurn u e) (jn_Attempts s'))"]
    by (force simp: NextAttemptNo_def)
  have "i \<notin> ta_ID ` set (jn_Attempts s')" "u \<in> set (jn_Sessions s')" using ids assms(3,4) by (simp_all add: tables)
  then have "isOk (InsertTurnAttempt (newAttempt i u e (NextAttemptNo u e s') now') s')"
    using n fresh idle
    by (auto simp: InsertTurnAttempt_def turnAttempt_newAttempt ActiveAttemptForTurn_None image_iff)
  then have "isOk (BeginAttempt i now' u e s') = (\<not> PriorToolExecutionForTurn u e s')"
    using idle by (auto simp: BeginAttempt_def Let_def isOk_iff)
  moreover have "prior = PriorToolExecutionForTurn u e s'" using RecoverTurn_prior [of now u e s] assms(2) by simp
  ultimately show ?thesis
    using idle dead by (auto simp: StartedStepsForTurn_def filter_empty_conv crossed_def)
qed

theorem recovery_classifies_witness:
  "\<not> isOk (BeginAttempt ''new'' 9 ''ses'' ''trigger'' (snd (RecoverTurn 8 ''ses'' ''trigger'' sampleJournal)))"
  using recovery_classifies [OF sample_reachable [of anyRivals] prod.collapse [symmetric], where u = "''ses''" and e = "''trigger''"
      and i = "''new''" and now = 8 and now' = 9]
  by (simp add: RecoverTurn_def StartedStepsForTurn_def MarkToolStepAmbiguousRow_def FinishTurnAttempt_def
      finishable_def markAmbiguous_def journal_eval anyRivals_def)






end
