(* ===== verification/EnvWork.thy ===== *)
theory EnvWork
  imports Events
begin

text \<open>
  The self-hosted work queue (\<open>internal/domain/environment_work.go\<close>, \<open>internal/app/environment_work.go\<close>,
  \<open>internal/pg/environment_work.go\<close> and the query \<open>EnqueueEnvironmentWork\<close>): a Session of a
  self-hosted environment is offered to workers as a work item that a worker polls, acknowledges,
  keeps alive by heartbeats and stops. An operation is one transaction on the table and takes its
  clock reading (in nanoseconds, a multiple of 1000) as an argument. The environment lookup is the
  list of environments with their kind; \<open>time.Format\<close> is the argument \<open>fmt\<close>; the rows that another
  transaction holds locked, which \<open>SKIP LOCKED\<close> passes over, are the argument \<open>locked\<close>. Item
  identifiers are compared bytewise.
\<close>

section \<open>Data (internal/domain/environment_work.go)\<close>

datatype EnvironmentWorkState =
    EnvironmentWorkQueued
  | EnvironmentWorkStarting
  | EnvironmentWorkActive
  | EnvironmentWorkStopping
  | EnvironmentWorkStopped

record EnvironmentWork =
  ew_ID :: string
  ew_EnvironmentID :: string
  ew_SessionID :: string
  ew_State :: EnvironmentWorkState
  ew_Metadata :: "(string \<times> string) list"
  ew_CreatedAt :: time
  ew_AcknowledgedAt :: "time option"
  ew_StartedAt :: "time option"
  ew_LatestHeartbeatAt :: "time option"
  ew_StopRequestedAt :: "time option"
  ew_StoppedAt :: "time option"
  ew_TTLSeconds :: int

record EnvironmentWorkHeartbeat =
  hb_LastHeartbeat :: time
  hb_LeaseExtended :: bool
  hb_State :: EnvironmentWorkState
  hb_TTLSeconds :: int

record EnvironmentWorkQueueStats =
  qs_Depth :: nat
  qs_Pending :: nat
  qs_OldestQueuedAt :: "time option"
  qs_WorkersPolling :: nat

text \<open>A row of the table has three more columns.\<close>

record workRow = EnvironmentWork +
  wr_ActivationSeq :: int
  wr_PolledAt :: "time option"
  wr_PollWorkerID :: "string option"

record workStore =
  wk_Environments :: "(string \<times> string) list"
  wk_Work :: "workRow list"
  wk_Pollers :: "((string \<times> string) \<times> time) list"
  wk_Events :: "Event list"

section \<open>The order of the queue\<close>

datatype queueKey = QueueKey (qk_Created: time) (qk_ID: string)

instantiation queueKey :: linorder
begin

definition less_eq_queueKey :: "queueKey \<Rightarrow> queueKey \<Rightarrow> bool" where
  "less_eq_queueKey k l \<longleftrightarrow> (qk_Created k, qk_ID k) \<le> (qk_Created l, qk_ID l)"

definition less_queueKey :: "queueKey \<Rightarrow> queueKey \<Rightarrow> bool" where
  "less_queueKey k l \<longleftrightarrow> (qk_Created k, qk_ID k) < (qk_Created l, qk_ID l)"

instance
  by standard (auto simp: less_eq_queueKey_def less_queueKey_def queueKey.expand prod_eq_iff)

end

definition keyOf :: "workRow \<Rightarrow> queueKey" where
  "keyOf w = QueueKey (ew_CreatedAt w) (ew_ID w)"

section \<open>Repository (internal/pg/environment_work.go)\<close>

definition workItem :: "string \<Rightarrow> string \<Rightarrow> workRow \<Rightarrow> bool" where
  "workItem environmentID workID w \<longleftrightarrow> ew_EnvironmentID w = environmentID \<and> ew_ID w = workID"

definition authorizeEnvironment :: "string \<Rightarrow> workStore \<Rightarrow> storeError + unit" where
  "authorizeEnvironment i s =
     (if map_of (wk_Environments s) i = None then Inl (Refused (NotFound ''environment not found'')) else Inr ())"

definition findWork :: "string \<Rightarrow> string \<Rightarrow> workStore \<Rightarrow> storeError + workRow" where
  "findWork environmentID workID s =
     (case find (workItem environmentID workID) (wk_Work s) of
        None \<Rightarrow> Inl (Refused (NotFound ''work item not found''))
      | Some w \<Rightarrow> Inr w)"

definition GetWork :: "string \<Rightarrow> string \<Rightarrow> workStore \<Rightarrow> storeError + EnvironmentWork" where
  "GetWork environmentID workID s =
     bindE (authorizeEnvironment environmentID s) (\<lambda>_.
       bindE (findWork environmentID workID s) (\<lambda>w. Inr (EnvironmentWork.truncate w)))"

definition setWork :: "(workRow \<Rightarrow> bool) \<Rightarrow> (workRow \<Rightarrow> workRow) \<Rightarrow> workStore \<Rightarrow> workStore" where
  "setWork p f s = s\<lparr>wk_Work := updateWhere p f (wk_Work s)\<rparr>"

fun patchWorkMetadata :: "(string \<times> string) list \<Rightarrow> (string \<times> string option) list \<Rightarrow> (string \<times> string) list" where
  "patchWorkMetadata m [] = m"
| "patchWorkMetadata m ((k, v) # rest) =
     patchWorkMetadata (case v of None \<Rightarrow> adel k m | Some x \<Rightarrow> aput k x m) rest"

definition UpdateWorkMetadata ::
    "string \<Rightarrow> string \<Rightarrow> (string \<times> string option) list \<Rightarrow> workStore \<Rightarrow>
     storeError + EnvironmentWork \<times> workStore" where
  "UpdateWorkMetadata environmentID workID patch s =
     bindE (authorizeEnvironment environmentID s) (\<lambda>_.
     bindE (findWork environmentID workID s) (\<lambda>current.
       (let metadata = patchWorkMetadata (ew_Metadata current) patch
        in Inr ((EnvironmentWork.truncate current)\<lparr>ew_Metadata := metadata\<rparr>,
                setWork (workItem environmentID workID) (\<lambda>w. w\<lparr>ew_Metadata := metadata\<rparr>) s))))"

definition ListWork ::
    "string \<Rightarrow> (time \<times> string) option \<Rightarrow> nat \<Rightarrow> workStore \<Rightarrow> storeError + EnvironmentWork list \<times> bool" where
  "ListWork environmentID after limit s =
     bindE (authorizeEnvironment environmentID s) (\<lambda>_.
       (let matching = filter (\<lambda>w. ew_EnvironmentID w = environmentID
              \<and> (case after of None \<Rightarrow> True | Some (created, i) \<Rightarrow> keyOf w < QueueKey created i)) (wk_Work s);
            items = take (limit + 1) (rev (sort_key keyOf matching))
        in Inr (map EnvironmentWork.truncate (take limit items), limit < length items)))"

text \<open>The lease of a row has run out: a worker disappeared, or a stopping worker never confirmed.\<close>

definition before :: "time option \<Rightarrow> time \<Rightarrow> int \<Rightarrow> bool" where
  "before t now ttl = (case t of None \<Rightarrow> False | Some t \<Rightarrow> t < now - ttl * 1000000000)"

definition stopExpired :: "string \<Rightarrow> time \<Rightarrow> workRow \<Rightarrow> bool" where
  "stopExpired environmentID now w \<longleftrightarrow> ew_EnvironmentID w = environmentID
     \<and> ew_State w = EnvironmentWorkStopping \<and> before (ew_StopRequestedAt w) now (ew_TTLSeconds w)"

definition leaseExpired :: "string \<Rightarrow> time \<Rightarrow> workRow \<Rightarrow> bool" where
  "leaseExpired environmentID now w \<longleftrightarrow> ew_EnvironmentID w = environmentID
     \<and> (ew_State w = EnvironmentWorkStarting \<and> before (ew_AcknowledgedAt w) now (ew_TTLSeconds w)
        \<or> ew_State w = EnvironmentWorkActive \<and> before (ew_LatestHeartbeatAt w) now (ew_TTLSeconds w))"

definition reclaim :: "workRow \<Rightarrow> workRow" where
  "reclaim w = w\<lparr>ew_State := EnvironmentWorkQueued, ew_AcknowledgedAt := None, ew_StartedAt := None,
     ew_LatestHeartbeatAt := None, wr_PolledAt := None, wr_PollWorkerID := None\<rparr>"

definition endStopping :: "time \<Rightarrow> workRow \<Rightarrow> workRow" where
  "endStopping now w = w\<lparr>ew_State := EnvironmentWorkStopped,
     ew_StoppedAt := (case ew_StoppedAt w of None \<Rightarrow> Some now | Some t \<Rightarrow> Some t)\<rparr>"

definition candidate :: "string \<Rightarrow> time \<Rightarrow> string list \<Rightarrow> workRow list \<Rightarrow> workRow \<Rightarrow> bool" where
  "candidate environmentID cutoff locked rows w \<longleftrightarrow>
     ew_EnvironmentID w = environmentID \<and> ew_State w = EnvironmentWorkQueued
     \<and> (case wr_PolledAt w of None \<Rightarrow> True | Some t \<Rightarrow> t \<le> cutoff)
     \<and> \<not> list_ex (\<lambda>p. ew_SessionID p = ew_SessionID w \<and> ew_ID p \<noteq> ew_ID w
          \<and> ew_State p \<in> {EnvironmentWorkStarting, EnvironmentWorkActive, EnvironmentWorkStopping}) rows
     \<and> ew_ID w \<notin> set locked"

fun firstByKey :: "workRow list \<Rightarrow> workRow option" where
  "firstByKey [] = None"
| "firstByKey (w # ws) =
     (case firstByKey ws of None \<Rightarrow> Some w | Some v \<Rightarrow> Some (if keyOf w \<le> keyOf v then w else v))"

definition recoverWork :: "string \<Rightarrow> time \<Rightarrow> workStore \<Rightarrow> workStore" where
  "recoverWork environmentID now s =
     setWork (leaseExpired environmentID now) reclaim
       (setWork (stopExpired environmentID now) (endStopping now) s)"

definition markPolled :: "time \<Rightarrow> string \<Rightarrow> workRow \<Rightarrow> workRow" where
  "markPolled now workerID w =
     w\<lparr>wr_PolledAt := Some now, wr_PollWorkerID := (if workerID = [] then None else Some workerID)\<rparr>"

definition PollWork ::
    "time \<Rightarrow> string list \<Rightarrow> string \<Rightarrow> string \<Rightarrow> int \<Rightarrow> workStore \<Rightarrow>
     storeError + EnvironmentWork option \<times> workStore" where
  "PollWork now locked environmentID workerID reclaimAge s =
     bindE (authorizeEnvironment environmentID s) (\<lambda>_.
       (let s1 = (if workerID \<noteq> []
                  then s\<lparr>wk_Pollers := aput (environmentID, workerID) now (wk_Pollers s)\<rparr> else s);
            s2 = recoverWork environmentID now s1
        in case firstByKey (filter (candidate environmentID (now - reclaimAge) locked (wk_Work s2)) (wk_Work s2)) of
             None \<Rightarrow> Inr (None, s2)
           | Some w \<Rightarrow> Inr (Some (EnvironmentWork.truncate w),
                           setWork (\<lambda>v. ew_ID v = ew_ID w) (markPolled now workerID) s2)))"

definition acknowledgeable :: "string \<Rightarrow> string \<Rightarrow> workRow \<Rightarrow> bool" where
  "acknowledgeable environmentID workID w \<longleftrightarrow> workItem environmentID workID w
     \<and> ew_State w = EnvironmentWorkQueued \<and> wr_PolledAt w \<noteq> None"

definition acknowledge :: "time \<Rightarrow> workRow \<Rightarrow> workRow" where
  "acknowledge now w = w\<lparr>ew_State := EnvironmentWorkStarting, ew_AcknowledgedAt := Some now\<rparr>"

definition AckWork :: "time \<Rightarrow> string \<Rightarrow> string \<Rightarrow> workStore \<Rightarrow> storeError + EnvironmentWork \<times> workStore" where
  "AckWork now environmentID workID s =
     bindE (authorizeEnvironment environmentID s) (\<lambda>_.
       case find (acknowledgeable environmentID workID) (wk_Work s) of
         Some w \<Rightarrow> Inr (EnvironmentWork.truncate (acknowledge now w),
                       setWork (acknowledgeable environmentID workID) (acknowledge now) s)
       | None \<Rightarrow> bindE (GetWork environmentID workID s) (\<lambda>_.
                  Inl (Refused (Conflict ''work item is not awaiting acknowledgement''))))"

definition matchesHeartbeat :: "(time \<Rightarrow> string) \<Rightarrow> string \<Rightarrow> time option \<Rightarrow> bool" where
  "matchesHeartbeat fmt expected latest =
     (case latest of Some t \<Rightarrow> expected = fmt t | None \<Rightarrow> expected = ''NO_HEARTBEAT'')"

definition beat :: "time \<Rightarrow> int \<Rightarrow> workRow \<Rightarrow> workRow" where
  "beat now ttl w = w\<lparr>ew_State := EnvironmentWorkActive,
     ew_StartedAt := (case ew_StartedAt w of None \<Rightarrow> Some now | Some t \<Rightarrow> Some t),
     ew_LatestHeartbeatAt := Some now, ew_TTLSeconds := ttl\<rparr>"

definition HeartbeatWork ::
    "(time \<Rightarrow> string) \<Rightarrow> time \<Rightarrow> string \<Rightarrow> string \<Rightarrow> string option \<Rightarrow> int option \<Rightarrow> workStore \<Rightarrow>
     storeError + EnvironmentWorkHeartbeat \<times> workStore" where
  "HeartbeatWork fmt now environmentID workID expected desiredTTL s =
     bindE (authorizeEnvironment environmentID s) (\<lambda>_.
     bindE (findWork environmentID workID s) (\<lambda>work.
       if (case expected of None \<Rightarrow> False | Some e \<Rightarrow> \<not> matchesHeartbeat fmt e (ew_LatestHeartbeatAt work))
       then Inl (Refused (Precondition ''work heartbeat precondition failed''))
       else if ew_State work \<noteq> EnvironmentWorkStarting \<and> ew_State work \<noteq> EnvironmentWorkActive
       then Inr (\<lparr>hb_LastHeartbeat = (case ew_LatestHeartbeatAt work of None \<Rightarrow> now | Some t \<Rightarrow> t),
                  hb_LeaseExtended = False, hb_State = ew_State work, hb_TTLSeconds = ew_TTLSeconds work\<rparr>, s)
       else (let ttl = (case desiredTTL of None \<Rightarrow> ew_TTLSeconds work | Some t \<Rightarrow> t)
             in if ttl \<le> 0 then Inl ConstraintViolation
                else Inr (\<lparr>hb_LastHeartbeat = now, hb_LeaseExtended = True, hb_State = EnvironmentWorkActive,
                           hb_TTLSeconds = ttl\<rparr>,
                          setWork (workItem environmentID workID) (beat now ttl) s))))"

definition live :: "workRow \<Rightarrow> bool" where
  "live w \<longleftrightarrow> ew_State w \<in> {EnvironmentWorkQueued, EnvironmentWorkStarting, EnvironmentWorkActive}"

text \<open>The insert that the partial unique index turns into nothing while the Session has a live item.\<close>

definition newWork :: "string \<Rightarrow> string \<Rightarrow> string \<Rightarrow> int \<Rightarrow> time \<Rightarrow> workRow" where
  "newWork i environmentID sessionID activationSeq now =
     \<lparr>ew_ID = i, ew_EnvironmentID = environmentID, ew_SessionID = sessionID,
      ew_State = EnvironmentWorkQueued, ew_Metadata = [], ew_CreatedAt = now, ew_AcknowledgedAt = None,
      ew_StartedAt = None, ew_LatestHeartbeatAt = None, ew_StopRequestedAt = None, ew_StoppedAt = None,
      ew_TTLSeconds = 30, wr_ActivationSeq = activationSeq, wr_PolledAt = None, wr_PollWorkerID = None\<rparr>"

definition EnqueueEnvironmentWork ::
    "string \<Rightarrow> string \<Rightarrow> string \<Rightarrow> int \<Rightarrow> time \<Rightarrow> workStore \<Rightarrow> storeError + workStore" where
  "EnqueueEnvironmentWork i environmentID sessionID activationSeq now s =
     (if list_ex (\<lambda>w. ew_SessionID w = sessionID \<and> live w) (wk_Work s) then Inr s
      else if map_of (wk_Environments s) environmentID = None \<or> i \<in> ew_ID ` set (wk_Work s)
      then Inl ConstraintViolation
      else Inr (s\<lparr>wk_Work := wk_Work s @ [newWork i environmentID sessionID activationSeq now]\<rparr>))"

definition runnableTypes :: "string list" where
  "runnableTypes = [EvUserMessage, EvUserDefineOutcome, EvUserCustomToolResult, EvUserToolConfirmation,
     EvUserToolResult]"

definition pendingInput :: "string \<Rightarrow> int \<Rightarrow> workStore \<Rightarrow> bool" where
  "pendingInput sessionID after s =
     list_ex (\<lambda>e. e_SessionID e = sessionID \<and> after < e_Sequence e \<and> e_ProcessedAt e = None
       \<and> e_Type e \<in> set runnableTypes) (wk_Events s)"

definition MaxEventSeq :: "string \<Rightarrow> workStore \<Rightarrow> int" where
  "MaxEventSeq sessionID s =
     (case map e_Sequence (filter (\<lambda>e. e_SessionID e = sessionID) (wk_Events s)) of
        [] \<Rightarrow> 0 | x # xs \<Rightarrow> foldr max xs x)"

definition requestStop :: "time \<Rightarrow> EnvironmentWorkState \<Rightarrow> time option \<Rightarrow> workRow \<Rightarrow> workRow" where
  "requestStop now next stoppedAt w = w\<lparr>ew_State := next,
     ew_StopRequestedAt := (case ew_StopRequestedAt w of None \<Rightarrow> Some now | Some t \<Rightarrow> Some t),
     ew_StoppedAt := stoppedAt\<rparr>"

definition StopWork ::
    "string \<Rightarrow> time \<Rightarrow> string \<Rightarrow> string \<Rightarrow> bool \<Rightarrow> workStore \<Rightarrow> storeError + unit \<times> workStore" where
  "StopWork newID now environmentID workID force s =
     bindE (authorizeEnvironment environmentID s) (\<lambda>_.
     bindE (findWork environmentID workID s) (\<lambda>work.
       if ew_State work = EnvironmentWorkStopped
       then Inl (Refused (Conflict ''work item is already stopped''))
       else
         (let (next, stoppedAt) =
            (if force \<or> ew_State work = EnvironmentWorkQueued \<or> ew_State work = EnvironmentWorkStarting
             then (EnvironmentWorkStopped, Some now) else (EnvironmentWorkStopping, None));
              s1 = setWork (workItem environmentID workID) (requestStop now next stoppedAt) s
          in if pendingInput (ew_SessionID work) (wr_ActivationSeq work) s1
             then bindE (EnqueueEnvironmentWork newID environmentID (ew_SessionID work)
                           (MaxEventSeq (ew_SessionID work) s1) now s1) (\<lambda>s2. Inr ((), s2))
             else Inr ((), s1))))"

definition WorkStats :: "time \<Rightarrow> string \<Rightarrow> workStore \<Rightarrow> storeError + EnvironmentWorkQueueStats" where
  "WorkStats now environmentID s =
     bindE (authorizeEnvironment environmentID s) (\<lambda>_.
       (let mine = filter (\<lambda>w. ew_EnvironmentID w = environmentID) (wk_Work s);
            queued = filter (\<lambda>w. ew_State w = EnvironmentWorkQueued) mine
        in Inr \<lparr>qs_Depth = affected (\<lambda>w. wr_PolledAt w = None) queued,
                qs_Pending = affected (\<lambda>w. wr_PolledAt w \<noteq> None) queued,
                qs_OldestQueuedAt = (case map ew_CreatedAt queued of [] \<Rightarrow> None | x # xs \<Rightarrow> Some (foldr min xs x)),
                qs_WorkersPolling = affected (\<lambda>((e, _), t). e = environmentID \<and> now - 30000000000 \<le> t)
                  (wk_Pollers s)\<rparr>))"

section \<open>Service checks (internal/app/environment_work.go)\<close>

definition DefaultEnvironmentWorkListLimit :: int where "DefaultEnvironmentWorkListLimit = 100"
definition MaxEnvironmentWorkListLimit :: int where "MaxEnvironmentWorkListLimit = 1000"

definition validateEnvironment :: "string \<Rightarrow> workStore \<Rightarrow> storeError + unit" where
  "validateEnvironment i s =
     (case map_of (wk_Environments s) i of
        None \<Rightarrow> Inl (Refused (NotFound ''environment not found''))
      | Some kind \<Rightarrow>
          if kind \<noteq> ''self_hosted''
          then Inl (Refused (Validation ''Environment Work is available only for self-hosted environments''))
          else Inr ())"

definition Service_List ::
    "string \<Rightarrow> (time \<times> string) option \<Rightarrow> int \<Rightarrow> workStore \<Rightarrow> storeError + EnvironmentWork list \<times> bool" where
  "Service_List environmentID after limit s =
     bindE (validateEnvironment environmentID s) (\<lambda>_.
       (let n = (if limit \<le> 0 then DefaultEnvironmentWorkListLimit else limit)
        in if MaxEnvironmentWorkListLimit < n
           then Inl (Refused (Validation ''limit must not exceed 1000''))
           else ListWork environmentID after (nat n) s))"

definition Service_Heartbeat ::
    "(time \<Rightarrow> string) \<Rightarrow> time \<Rightarrow> string \<Rightarrow> string \<Rightarrow> string option \<Rightarrow> int option \<Rightarrow> workStore \<Rightarrow>
     storeError + EnvironmentWorkHeartbeat \<times> workStore" where
  "Service_Heartbeat fmt now environmentID workID expected desiredTTL s =
     bindE (validateEnvironment environmentID s) (\<lambda>_.
       case desiredTTL of
         Some ttl \<Rightarrow>
           if ttl \<le> 0 then Inl (Refused (Validation ''desired_ttl_seconds must be a positive integer''))
           else HeartbeatWork fmt now environmentID workID expected desiredTTL s
       | None \<Rightarrow> HeartbeatWork fmt now environmentID workID expected desiredTTL s)"

section \<open>Steps\<close>

text \<open>
  Every transaction on the queue is a step; the events of a Session come and go with transactions of
  other components.
\<close>

inductive wstep :: "(time \<Rightarrow> string) \<Rightarrow> workStore \<Rightarrow> workStore \<Rightarrow> bool" for fmt where
  enqueue: "EnqueueEnvironmentWork i env u n now s = Inr s' \<Longrightarrow> wstep fmt s s'"
| poll: "PollWork now locked env worker age s = Inr (r, s') \<Longrightarrow> wstep fmt s s'"
| ack: "AckWork now env i s = Inr (w, s') \<Longrightarrow> wstep fmt s s'"
| heartbeat: "HeartbeatWork fmt now env i expected ttl s = Inr (h, s') \<Longrightarrow> wstep fmt s s'"
| stop: "StopWork newID now env i force s = Inr (x, s') \<Longrightarrow> wstep fmt s s'"
| metadata: "UpdateWorkMetadata env i patch s = Inr (w, s') \<Longrightarrow> wstep fmt s s'"
| events: "wstep fmt s (s\<lparr>wk_Events := es\<rparr>)"

inductive_cases wstepE: "wstep fmt s s'"

definition emptyQueue :: "(string \<times> string) list \<Rightarrow> workStore" where
  "emptyQueue environments = \<lparr>wk_Environments = environments, wk_Work = [], wk_Pollers = [], wk_Events = []\<rparr>"

section \<open>The invariant\<close>

text \<open>An item that some worker was handed and has not given back.\<close>

definition held :: "workRow \<Rightarrow> bool" where
  "held w \<longleftrightarrow> ew_State w \<in> {EnvironmentWorkStarting, EnvironmentWorkActive, EnvironmentWorkStopping}
     \<or> ew_State w = EnvironmentWorkQueued \<and> wr_PolledAt w \<noteq> None"

definition atMostOne :: "(workRow \<Rightarrow> bool) \<Rightarrow> workRow list \<Rightarrow> bool" where
  "atMostOne p ws \<longleftrightarrow> (\<forall>v \<in> set ws. \<forall>w \<in> set ws. ew_SessionID v = ew_SessionID w \<and> p v \<and> p w \<longrightarrow> v = w)"

definition queueInv :: "workStore \<Rightarrow> bool" where
  "queueInv s \<longleftrightarrow> distinct (map ew_ID (wk_Work s)) \<and> atMostOne live (wk_Work s) \<and> atMostOne held (wk_Work s)"

lemma atMostOne_update:
  assumes "atMostOne q ws" "\<And>w. ew_SessionID (f w) = ew_SessionID w" "\<And>w. w \<in> set ws \<Longrightarrow> p w \<Longrightarrow> q (f w) \<Longrightarrow> q w"
  shows "atMostOne q (updateWhere p f ws)"
  unfolding atMostOne_def set_updateWhere
proof (intro ballI impI)
  fix v' w' assume "v' \<in> (\<lambda>x. if p x then f x else x) ` set ws" "w' \<in> (\<lambda>x. if p x then f x else x) ` set ws"
    and h: "ew_SessionID v' = ew_SessionID w' \<and> q v' \<and> q w'"
  then obtain v w where vw: "v \<in> set ws" "w \<in> set ws" "v' = (if p v then f v else v)" "w' = (if p w then f w else w)"
    by blast
  have "ew_SessionID v = ew_SessionID w \<and> q v \<and> q w"
    using h vw assms(2,3) by (auto split: if_splits)
  then have "v = w" using assms(1) vw(1,2) by (auto simp: atMostOne_def)
  with vw show "v' = w'" by simp
qed

lemma setWork_inv:
  assumes "queueInv s" "\<And>w. ew_SessionID (f w) = ew_SessionID w" "\<And>w. ew_ID (f w) = ew_ID w"
    and "\<And>w. p w \<Longrightarrow> live (f w) \<Longrightarrow> live w" "\<And>w. p w \<Longrightarrow> held (f w) \<Longrightarrow> held w"
  shows "queueInv (setWork p f s)"
  using assms by (auto simp: queueInv_def setWork_def map_updateWhere_inv intro!: atMostOne_update)

lemma recoverWork_inv: "queueInv s \<Longrightarrow> queueInv (recoverWork env now s)"
  unfolding recoverWork_def
  by (intro setWork_inv)
    (auto simp: reclaim_def endStopping_def live_def held_def leaseExpired_def stopExpired_def)

lemma enqueue_inv:
  assumes "queueInv s" "EnqueueEnvironmentWork i env u n now s = Inr s'"
  shows "queueInv s'"
proof (cases "s' = s")
  case False
  with assms(2) have s': "s' = s\<lparr>wk_Work := wk_Work s @ [newWork i env u n now]\<rparr>"
    and fresh: "i \<notin> ew_ID ` set (wk_Work s)" and none: "\<forall>w \<in> set (wk_Work s). ew_SessionID w = u \<longrightarrow> \<not> live w"
    by (auto simp: EnqueueEnvironmentWork_def list_ex_iff split: if_splits)
  have "atMostOne live (wk_Work s')"
    using assms(1) none by (auto simp: s' queueInv_def atMostOne_def newWork_def)
  moreover have "atMostOne held (wk_Work s')"
    using assms(1) by (auto simp: s' queueInv_def atMostOne_def newWork_def held_def)
  ultimately show ?thesis using assms(1) fresh by (simp add: queueInv_def s' newWork_def)
qed (use assms in simp)

lemma firstByKey_Some:
  "firstByKey ws = Some w \<Longrightarrow> w \<in> set ws \<and> (\<forall>v \<in> set ws. keyOf w \<le> keyOf v)"
proof (induction ws arbitrary: w)
  case (Cons u us)
  show ?case
  proof (cases "firstByKey us")
    case None
    then have "us = []" by (cases us) (auto split: option.splits)
    with Cons.prems show ?thesis by simp
  next
    case (Some v)
    with Cons show ?thesis by (fastforce split: if_splits)
  qed
qed simp

lemma firstByKey_None: "firstByKey ws = None \<longleftrightarrow> ws = []"
  by (cases ws) (auto split: option.splits)

lemma markPolled_inv:
  assumes "queueInv s" "w \<in> set (wk_Work s)" "candidate env cutoff locked (wk_Work s) w"
  shows "queueInv (setWork (\<lambda>v. ew_ID v = ew_ID w) (markPolled now worker) s)"
proof -
  let ?p = "\<lambda>v. ew_ID v = ew_ID w" and ?f = "markPolled now worker"
  have inv: "distinct (map ew_ID (wk_Work s))" "atMostOne live (wk_Work s)" "atMostOne held (wk_Work s)"
    using assms(1) by (simp_all add: queueInv_def)
  have only: "v = w" if "v \<in> set (wk_Work s)" "ew_ID v = ew_ID w" for v
    using find_key [OF inv(1) that(1,2)] find_key [OF inv(1) assms(2) refl] by simp
  have alone: "\<not> held v" if v: "v \<in> set (wk_Work s)" "ew_SessionID v = ew_SessionID w" "v \<noteq> w" for v
  proof
    assume "held v"
    have "ew_ID v \<noteq> ew_ID w" using only v by blast
    then have "ew_State v \<notin> {EnvironmentWorkStarting, EnvironmentWorkActive, EnvironmentWorkStopping}"
      using assms(3) v by (auto simp: candidate_def list_ex_iff)
    with \<open>held v\<close> have "live v" by (auto simp: held_def live_def)
    moreover have "live w" using assms(3) by (simp add: candidate_def live_def)
    ultimately show False using inv(2) v assms(2) by (auto simp: atMostOne_def)
  qed
  have keep: "ew_SessionID (?f v) = ew_SessionID v" "ew_ID (?f v) = ew_ID v" "live (?f v) = live v" for v
    by (simp_all add: markPolled_def live_def)
  have "atMostOne held (updateWhere ?p ?f (wk_Work s))"
    unfolding atMostOne_def set_updateWhere
  proof (intro ballI impI)
    fix x y assume "x \<in> (\<lambda>v. if ?p v then ?f v else v) ` set (wk_Work s)"
      "y \<in> (\<lambda>v. if ?p v then ?f v else v) ` set (wk_Work s)"
      and h: "ew_SessionID x = ew_SessionID y \<and> held x \<and> held y"
    then obtain a b where ab: "a \<in> set (wk_Work s)" "b \<in> set (wk_Work s)" "x = (if ?p a then ?f a else a)"
      "y = (if ?p b then ?f b else b)" by blast
    have same: "ew_SessionID a = ew_SessionID b" using ab h keep by (auto split: if_splits)
    consider "a = w" "b = w" | "a = w" "b \<noteq> w" | "a \<noteq> w" "b = w" | "a \<noteq> w" "b \<noteq> w" by blast
    then show "x = y"
    proof cases
      case 1
      with ab show ?thesis by simp
    next
      case 2
      with alone [of b] ab only h same show ?thesis by auto
    next
      case 3
      with alone [of a] ab only h same show ?thesis by auto
    next
      case 4
      with ab only have "x = a" "y = b" by auto
      with inv(3) ab h show ?thesis by (auto simp: atMostOne_def)
    qed
  qed
  moreover have "atMostOne live (updateWhere ?p ?f (wk_Work s))"
    by (rule atMostOne_update [OF inv(2)]) (simp_all add: keep)
  ultimately show ?thesis
    using inv(1) by (simp add: queueInv_def setWork_def map_updateWhere_inv keep)
qed

lemma poll_inv:
  assumes "queueInv s" "PollWork now locked env worker age s = Inr (r, s')"
  shows "queueInv s'"
proof -
  define s1 where "s1 = (if worker \<noteq> [] then s\<lparr>wk_Pollers := aput (env, worker) now (wk_Pollers s)\<rparr> else s)"
  define s2 where "s2 = recoverWork env now s1"
  have "queueInv s1" using assms(1) by (simp add: s1_def queueInv_def)
  then have inv: "queueInv s2" unfolding s2_def by (rule recoverWork_inv)
  show ?thesis
  proof (cases "firstByKey (filter (candidate env (now - age) locked (wk_Work s2)) (wk_Work s2))")
    case None
    with assms(2) inv show ?thesis
      by (auto simp: PollWork_def Let_def bindE_Inr_iff s1_def [symmetric] s2_def [symmetric])
  next
    case (Some w)
    from firstByKey_Some [OF this] have "w \<in> set (wk_Work s2)" "candidate env (now - age) locked (wk_Work s2) w"
      by auto
    from markPolled_inv [OF inv this] Some assms(2) show ?thesis
      by (auto simp: PollWork_def Let_def bindE_Inr_iff s1_def [symmetric] s2_def [symmetric])
  qed
qed

lemma findWork_in: "findWork env i s = Inr w \<Longrightarrow> w \<in> set (wk_Work s) \<and> workItem env i w"
  by (auto simp: findWork_def split: option.splits dest: find_in_set)

lemma item_unique:
  "queueInv s \<Longrightarrow> v \<in> set (wk_Work s) \<Longrightarrow> w \<in> set (wk_Work s) \<Longrightarrow> ew_ID v = ew_ID w \<Longrightarrow> v = w"
  unfolding queueInv_def using find_key [of ew_ID "wk_Work s"] by (metis option.inject)

lemma setWork_item_inv:
  assumes "queueInv s" "w \<in> set (wk_Work s)" "workItem env i w"
    and "\<And>w. ew_SessionID (f w) = ew_SessionID w" "\<And>w. ew_ID (f w) = ew_ID w"
    and "live (f w) \<Longrightarrow> live w" "held (f w) \<Longrightarrow> held w"
  shows "queueInv (setWork (workItem env i) f s)"
proof -
  have one: "v = w" if "v \<in> set (wk_Work s)" "workItem env i v" for v
    using item_unique [OF assms(1) that(1) assms(2)] that(2) assms(3) by (simp add: workItem_def)
  have "atMostOne live (updateWhere (workItem env i) f (wk_Work s))"
    using assms(1,4,6) one by (intro atMostOne_update) (auto simp: queueInv_def)
  moreover have "atMostOne held (updateWhere (workItem env i) f (wk_Work s))"
    using assms(1,4,7) one by (intro atMostOne_update) (auto simp: queueInv_def)
  ultimately show ?thesis using assms(1,5) by (simp add: queueInv_def setWork_def map_updateWhere_inv)
qed

lemma ack_inv: "queueInv s \<Longrightarrow> AckWork now env i s = Inr (w, s') \<Longrightarrow> queueInv s'"
  by (auto simp: AckWork_def bindE_Inr_iff acknowledge_def acknowledgeable_def live_def held_def
      split: option.splits intro!: setWork_inv)

lemma heartbeat_inv:
  assumes "queueInv s" "HeartbeatWork fmt now env i expected ttl s = Inr (h, s')"
  shows "queueInv s'"
proof -
  from assms(2) obtain w where w: "findWork env i s = Inr w"
    by (auto simp: HeartbeatWork_def bindE_Inr_iff)
  have "queueInv (setWork (workItem env i) (beat now t) s)"
    if "ew_State w = EnvironmentWorkStarting \<or> ew_State w = EnvironmentWorkActive" for t
    using that findWork_in [OF w]
    by (intro setWork_item_inv [OF assms(1)]) (auto simp: beat_def live_def held_def)
  with assms w show ?thesis
    by (auto simp: HeartbeatWork_def bindE_Inr_iff Let_def split: if_splits)
qed

lemma stop_inv:
  assumes "queueInv s" "StopWork newID now env i force s = Inr (x, s')"
  shows "queueInv s'"
proof -
  from assms(2) obtain w where w: "findWork env i s = Inr w" "ew_State w \<noteq> EnvironmentWorkStopped"
    by (auto simp: StopWork_def bindE_Inr_iff split: if_splits)
  define nx stoppedAt where "nx = (if force \<or> ew_State w = EnvironmentWorkQueued \<or> ew_State w = EnvironmentWorkStarting
      then EnvironmentWorkStopped else EnvironmentWorkStopping)"
    and "stoppedAt = (if nx = EnvironmentWorkStopped then Some now else None)"
  define s1 where "s1 = setWork (workItem env i) (requestStop now nx stoppedAt) s"
  have inv: "queueInv s1"
    unfolding s1_def using findWork_in [OF w(1)] w(2)
    by (intro setWork_item_inv [OF assms(1)])
      (cases "ew_State w"; auto simp: requestStop_def live_def held_def nx_def split: if_splits)+
  show ?thesis
    using assms(2) w inv enqueue_inv [OF inv]
    by (auto simp: StopWork_def bindE_Inr_iff Let_def nx_def stoppedAt_def s1_def split: if_splits)
qed

lemma metadata_inv: "queueInv s \<Longrightarrow> UpdateWorkMetadata env i patch s = Inr (w, s') \<Longrightarrow> queueInv s'"
  by (auto simp: UpdateWorkMetadata_def bindE_Inr_iff Let_def live_def held_def intro!: setWork_inv)

lemma wstep_inv: "wstep fmt s s' \<Longrightarrow> queueInv s \<Longrightarrow> queueInv s'"
proof (induction rule: wstep.induct)
  case events
  then show ?case by (simp add: queueInv_def)
qed (auto intro: enqueue_inv poll_inv ack_inv heartbeat_inv stop_inv metadata_inv)

lemma reachable_queueInv: "(wstep fmt)\<^sup>*\<^sup>* (emptyQueue environments) s \<Longrightarrow> queueInv s"
proof (induction rule: rtranclp_induct)
  case base
  then show ?case by (simp add: emptyQueue_def queueInv_def atMostOne_def)
qed (rule wstep_inv)

lemma find_updateWhere_pred:
  "(\<And>x. p (f x) = p x) \<Longrightarrow> find p (updateWhere p f xs) = map_option f (find p xs)"
  by (induction xs) auto

lemma pendingInput_setWork [simp]: "pendingInput u n (setWork p f s) = pendingInput u n s"
  by (simp add: pendingInput_def setWork_def)

section \<open>Properties\<close>

definition sampleQueue :: workStore where
  "sampleQueue = \<lparr>wk_Environments = [(''env'', ''self_hosted'')],
     wk_Work = [(newWork ''work'' ''env'' ''ses'' 1 1000)
       \<lparr>ew_State := EnvironmentWorkActive, ew_AcknowledgedAt := Some 2000, ew_StartedAt := Some 3000,
        ew_LatestHeartbeatAt := Some 3000, wr_PolledAt := Some 2000\<rparr>],
     wk_Pollers = [], wk_Events = []\<rparr>"

lemmas queue_eval = sampleQueue_def newWork_def emptyQueue_def EnqueueEnvironmentWork_def authorizeEnvironment_def
  findWork_def workItem_def setWork_def recoverWork_def leaseExpired_def stopExpired_def before_def candidate_def
  markPolled_def acknowledgeable_def acknowledge_def beat_def Let_def

lemma sampleQueue_reachable: "(wstep fmt)\<^sup>*\<^sup>* (emptyQueue [(''env'', ''self_hosted'')]) sampleQueue"
proof -
  let ?s0 = "emptyQueue [(''env'', ''self_hosted'')]" and ?w = "newWork ''work'' ''env'' ''ses'' 1 1000"
  let ?s1 = "?s0\<lparr>wk_Work := [?w]\<rparr>" and ?s2 = "?s0\<lparr>wk_Work := [?w\<lparr>wr_PolledAt := Some 2000\<rparr>]\<rparr>"
  let ?s3 = "?s0\<lparr>wk_Work := [?w\<lparr>wr_PolledAt := Some 2000, ew_State := EnvironmentWorkStarting,
      ew_AcknowledgedAt := Some 2000\<rparr>]\<rparr>"
  have "EnqueueEnvironmentWork ''work'' ''env'' ''ses'' 1 1000 ?s0 = Inr ?s1"
    by (simp add: queue_eval)
  then have 1: "wstep fmt ?s0 ?s1" by (rule wstep.enqueue)
  have "PollWork 2000 [] ''env'' [] 0 ?s1 = Inr (Some (EnvironmentWork.truncate ?w), ?s2)"
    by (simp add: PollWork_def queue_eval)
  then have 2: "wstep fmt ?s1 ?s2" by (rule wstep.poll)
  have "\<exists>x. AckWork 2000 ''env'' ''work'' ?s2 = Inr (x, ?s3)"
    by (simp add: AckWork_def queue_eval)
  then have 3: "wstep fmt ?s2 ?s3" by (blast intro: wstep.ack)
  have "\<exists>x. HeartbeatWork fmt 3000 ''env'' ''work'' None None ?s3 = Inr (x, sampleQueue)"
    by (simp add: HeartbeatWork_def queue_eval)
  then have 4: "wstep fmt ?s3 sampleQueue" by (blast intro: wstep.heartbeat)
  from 1 2 3 4 show ?thesis by (meson converse_rtranclp_into_rtranclp rtranclp.rtrancl_refl)
qed

text \<open>
  C37. One worker per Session: in every reachable state of the work queue a Session has at most one
  item that some worker holds (handed out, starting, active or still stopping), and at most one
  item that is queued, starting or active, although a successor may be queued beside a stopping
  item and expired leases return to the queue.
\<close>

theorem one_worker_per_session:
  assumes "(wstep fmt)\<^sup>*\<^sup>* (emptyQueue environments) s"
    and "v \<in> set (wk_Work s)" "w \<in> set (wk_Work s)" "ew_SessionID v = ew_SessionID w"
    and "held v \<and> held w \<or> live v \<and> live w"
  shows "v = w"
  using reachable_queueInv [OF assms(1)] assms(2-5) by (auto simp: queueInv_def atMostOne_def)

theorem one_worker_per_session_witness:
  "\<exists>!w. w \<in> set (wk_Work sampleQueue) \<and> ew_SessionID w = ''ses'' \<and> held w"
proof -
  have "v = w" if "v \<in> set (wk_Work sampleQueue)" "w \<in> set (wk_Work sampleQueue)" "ew_SessionID v = ew_SessionID w"
      "held v \<and> held w \<or> live v \<and> live w" for v w
    by (rule one_worker_per_session [OF sampleQueue_reachable that])
  moreover obtain w where "w \<in> set (wk_Work sampleQueue)" "ew_SessionID w = ''ses''" "held w"
    by (simp add: sampleQueue_def newWork_def held_def)
  ultimately show ?thesis by (intro ex1I [of _ w]) simp_all
qed

text \<open>
  A poll hands out the oldest item that may be handed out, after returning every expired lease
  to the queue, and answers empty exactly when no item may be handed out: not while one is queued
  (and not handed out within the reclaim age), unlocked, and has no sibling with a worker.
\<close>

theorem poll_oldest_first:
  assumes "PollWork now locked env worker age s = Inr (r, s')"
  shows "let rows = wk_Work (recoverWork env now s);
             offered = filter (candidate env (now - age) locked rows) rows
         in (r = None) = (offered = [])
            \<and> (case r of None \<Rightarrow> True
               | Some item \<Rightarrow> \<exists>w. w \<in> set offered \<and> item = EnvironmentWork.truncate w
                   \<and> list_all (\<lambda>v. keyOf w \<le> keyOf v) offered
                   \<and> wk_Work s' = updateWhere (\<lambda>v. ew_ID v = ew_ID w) (markPolled now worker) rows)"
proof -
  let ?s1 = "if worker \<noteq> [] then s\<lparr>wk_Pollers := aput (env, worker) now (wk_Pollers s)\<rparr> else s"
  have rows: "wk_Work (recoverWork env now ?s1) = wk_Work (recoverWork env now s)"
    by (simp add: recoverWork_def setWork_def)
  define rows where "rows = wk_Work (recoverWork env now s)"
  define offered where "offered = filter (candidate env (now - age) locked rows) rows"
  have poll: "(case firstByKey offered of None \<Rightarrow> Inr (None, recoverWork env now ?s1)
      | Some w \<Rightarrow> Inr (Some (EnvironmentWork.truncate w),
          setWork (\<lambda>v. ew_ID v = ew_ID w) (markPolled now worker) (recoverWork env now ?s1))) =
      (Inr (r, s') :: storeError + EnvironmentWork option \<times> workStore)"
    using assms unfolding PollWork_def Let_def rows offered_def rows_def by (auto simp: bindE_Inr_iff)
  show ?thesis
  proof (cases "firstByKey offered")
    case None
    with poll show ?thesis by (simp add: Let_def rows_def [symmetric] offered_def [symmetric] firstByKey_None)
  next
    case (Some w)
    with poll have "r = Some (EnvironmentWork.truncate w)"
      "wk_Work s' = updateWhere (\<lambda>v. ew_ID v = ew_ID w) (markPolled now worker) rows"
      by (auto simp: setWork_def rows rows_def)
    moreover have "offered \<noteq> []" "w \<in> set offered" "list_all (\<lambda>v. keyOf w \<le> keyOf v) offered"
      using firstByKey_Some [OF Some] by (auto simp: list_all_iff)
    ultimately show ?thesis
      unfolding Let_def rows_def [symmetric] offered_def [symmetric] by auto
  qed
qed

theorem poll_oldest_first_witness:
  "\<exists>item s'. PollWork 60000000000 [] ''env'' [] 0 sampleQueue = Inr (Some item, s')"
proof -
  have "\<exists>r s'. PollWork 60000000000 [] ''env'' [] 0 sampleQueue = Inr (r, s')"
    by (auto simp: PollWork_def Let_def authorizeEnvironment_def sampleQueue_def split: option.splits)
  then obtain r s' where p: "PollWork 60000000000 [] ''env'' [] 0 sampleQueue = Inr (r, s')" by blast
  from poll_oldest_first [OF p] have "r \<noteq> None"
    by (auto simp: queue_eval reclaim_def)
  with p show ?thesis by blast
qed

text \<open>
  Stopping an item loses no input: the item is left neither queued nor running, an item that
  no worker runs (or a forced stop) ends at once while an active one keeps the Session until its
  worker confirms, and when input arrived after the item was made, the Session has a live item
  again.
\<close>

theorem stop_hands_over:
  assumes "queueInv s" "findWork env i s = Inr w" "StopWork newID now env i force s = Inr (x, s')"
  shows "\<exists>w'. find (\<lambda>v. ew_ID v = i) (wk_Work s') = Some w' \<and> \<not> live w'
      \<and> held w' = (\<not> force \<and> ew_State w \<in> {EnvironmentWorkActive, EnvironmentWorkStopping})
      \<and> (\<not> pendingInput (ew_SessionID w) (wr_ActivationSeq w) s
          \<or> list_ex (\<lambda>v. ew_SessionID v = ew_SessionID w \<and> live v) (wk_Work s'))"
proof -
  have st: "ew_State w \<noteq> EnvironmentWorkStopped"
    using assms(2,3) by (auto simp: StopWork_def bindE_Inr_iff split: if_splits)
  define nx stoppedAt where "nx = (if force \<or> ew_State w = EnvironmentWorkQueued \<or> ew_State w = EnvironmentWorkStarting
      then EnvironmentWorkStopped else EnvironmentWorkStopping)"
    and "stoppedAt = (if nx = EnvironmentWorkStopped then Some now else None)"
  define s1 where "s1 = setWork (workItem env i) (requestStop now nx stoppedAt) s"
  have w: "w \<in> set (wk_Work s)" "workItem env i w" "ew_ID w = i"
    using findWork_in [OF assms(2)] by (simp_all add: workItem_def)
  have "find (\<lambda>v. ew_ID v = i) (wk_Work s) = Some w"
    using find_key [of ew_ID "wk_Work s" w i] w assms(1) by (simp add: queueInv_def)
  then have f1: "find (\<lambda>v. ew_ID v = i) (wk_Work s1) = Some (requestStop now nx stoppedAt w)"
    using w(2) by (simp add: s1_def setWork_def find_updateWhere_key requestStop_def)
  have res: "if pendingInput (ew_SessionID w) (wr_ActivationSeq w) s
      then EnqueueEnvironmentWork newID env (ew_SessionID w) (MaxEventSeq (ew_SessionID w) s1) now s1 = Inr s'
      else s' = s1"
    using assms(2,3) st unfolding StopWork_def
    by (auto simp: bindE_Inr_iff Let_def nx_def stoppedAt_def s1_def split: if_splits)
  have f2: "find (\<lambda>v. ew_ID v = i) (wk_Work s') = Some (requestStop now nx stoppedAt w)"
    using res f1 by (auto simp: EnqueueEnvironmentWork_def find_append split: if_splits)
  have "list_ex (\<lambda>v. ew_SessionID v = ew_SessionID w \<and> live v) (wk_Work s')"
    if "pendingInput (ew_SessionID w) (wr_ActivationSeq w) s"
    using res that by (auto simp: EnqueueEnvironmentWork_def newWork_def live_def split: if_splits)
  with f2 st show ?thesis
    by (cases "ew_State w") (auto simp: requestStop_def live_def held_def nx_def)
qed

theorem stop_hands_over_witness:
  "\<exists>s' w'. StopWork ''next'' 5000 ''env'' ''work'' False sampleQueue = Inr ((), s')
     \<and> find (\<lambda>v. ew_ID v = ''work'') (wk_Work s') = Some w' \<and> held w' \<and> \<not> live w'"
proof -
  obtain w where w: "findWork ''env'' ''work'' sampleQueue = Inr w" "ew_State w = EnvironmentWorkActive"
    by (simp add: queue_eval)
  have "\<exists>s'. StopWork ''next'' 5000 ''env'' ''work'' False sampleQueue = Inr ((), s')"
    by (simp add: StopWork_def queue_eval pendingInput_def)
  then obtain s' where s': "StopWork ''next'' 5000 ''env'' ''work'' False sampleQueue = Inr ((), s')" by blast
  from stop_hands_over [OF reachable_queueInv [OF sampleQueue_reachable] w(1) s'] w(2) s' show ?thesis by auto
qed

text \<open>
  A heartbeat that names the previous one is a compare-and-swap on the lease: of two heartbeats
  that expect the same previous one only the first extends the lease, the second is refused, and
  the heartbeat that was just recorded is the one to name next.
\<close>

theorem heartbeat_cas:
  assumes "HeartbeatWork fmt now env i (Some e) ttl s = Inr (h, s')" "hb_LeaseExtended h" "fmt now \<noteq> e"
    and "0 < ttl2"
  shows "HeartbeatWork fmt now2 env i (Some e) ttl' s' =
        Inl (Refused (Precondition ''work heartbeat precondition failed''))
    \<and> (\<exists>s''. HeartbeatWork fmt now2 env i (Some (fmt now)) (Some ttl2) s' =
          Inr (\<lparr>hb_LastHeartbeat = now2, hb_LeaseExtended = True, hb_State = EnvironmentWorkActive,
                hb_TTLSeconds = ttl2\<rparr>, s''))"
proof -
  from assms(1,2) obtain w t where w: "findWork env i s = Inr w"
    and s': "s' = setWork (workItem env i) (beat now t) s" and auth: "authorizeEnvironment env s = Inr ()"
    by (auto simp: HeartbeatWork_def bindE_Inr_iff Let_def split: if_splits)
  have "find (workItem env i) (wk_Work s') = Some (beat now t w)"
  proof -
    have keep: "workItem env i (beat now t v) = workItem env i v" for v by (simp add: workItem_def beat_def)
    have "find (workItem env i) (wk_Work s) = Some w"
      using w by (auto simp: findWork_def split: option.splits)
    then show ?thesis by (simp add: s' setWork_def find_updateWhere_pred keep)
  qed
  then have "findWork env i s' = Inr (beat now t w)" by (simp add: findWork_def)
  moreover have "authorizeEnvironment env s' = Inr ()" using auth by (simp add: s' setWork_def authorizeEnvironment_def)
  ultimately show ?thesis
    using assms(3,4) by (auto simp: HeartbeatWork_def matchesHeartbeat_def beat_def)
qed

theorem heartbeat_cas_witness:
  "\<exists>h s' s''. let fmt = (\<lambda>t. if t = 3000 then ''first'' else ''second'') in
     HeartbeatWork fmt 9000 ''env'' ''work'' (Some ''first'') None sampleQueue = Inr (h, s')
     \<and> HeartbeatWork fmt 9500 ''env'' ''work'' (Some ''first'') None s' =
         Inl (Refused (Precondition ''work heartbeat precondition failed''))
     \<and> HeartbeatWork fmt 9500 ''env'' ''work'' (Some ''second'') (Some 60) s' =
         Inr (\<lparr>hb_LastHeartbeat = 9500, hb_LeaseExtended = True, hb_State = EnvironmentWorkActive,
               hb_TTLSeconds = 60\<rparr>, s'')"
proof -
  let ?fmt = "\<lambda>t :: time. if t = 3000 then ''first'' else ''second''"
  have "\<exists>h s'. HeartbeatWork ?fmt 9000 ''env'' ''work'' (Some ''first'') None sampleQueue = Inr (h, s') \<and> hb_LeaseExtended h"
    by (simp add: HeartbeatWork_def queue_eval matchesHeartbeat_def)
  then obtain h s' where h: "HeartbeatWork ?fmt 9000 ''env'' ''work'' (Some ''first'') None sampleQueue = Inr (h, s')"
    "hb_LeaseExtended h" by blast
  have "?fmt 9000 \<noteq> ''first''" by simp
  from heartbeat_cas [OF h this, of 60 9500 None] h(1) show ?thesis unfolding Let_def by auto
qed

end
