(* ===== verification/Outbox.thy ===== *)
theory Outbox
  imports Events "HOL-Library.Multiset"
begin

text \<open>
  The orchestration outbox (\<open>internal/pg/outbox.go\<close> and its queries) and the relay that drains it
  to Temporal (\<open>internal/temporal/relay.go\<close>). The primary table has one coalescing row per
  Session, the child table one per Session and Thread. A delivery that Temporal accepts or refuses
  is the argument \<open>deliver\<close> (\<open>Some\<close> error where it fails), and the transactions of other
  components that commit while the relay works are lists of admissions between its calls.
\<close>

section \<open>Tables\<close>

datatype OrchestrationIntent = OrchestrationWake | OrchestrationTerminate

record OutboxWakeup =
  ow_SessionID :: string
  ow_ThreadID :: string
  ow_MaxEventSeq :: int
  ow_EnqueuedAt :: time
  ow_Attempts :: int
  ow_Intent :: OrchestrationIntent

text \<open>A row holds what its key does not; the primary table has no intent column.\<close>

record outboxRow =
  or_MaxEventSeq :: int
  or_EnqueuedAt :: time
  or_Attempts :: int
  or_LastAttemptAt :: "time option"
  or_LastError :: "string option"

record threadOutboxRow = outboxRow +
  or_Intent :: OrchestrationIntent

record outbox =
  ob_Primary :: "(string \<times> outboxRow) list"
  ob_Thread :: "((string \<times> string) \<times> threadOutboxRow) list"

definition raise :: "int \<Rightarrow> time \<Rightarrow> 'a outboxRow_scheme \<Rightarrow> 'a outboxRow_scheme" where
  "raise n now row = row\<lparr>or_MaxEventSeq := max (or_MaxEventSeq row) n, or_EnqueuedAt := now\<rparr>"

definition UpsertOutbox :: "string \<Rightarrow> int \<Rightarrow> time \<Rightarrow> outbox \<Rightarrow> outbox" where
  "UpsertOutbox sessionID n now s =
     s\<lparr>ob_Primary := aput sessionID
        (case map_of (ob_Primary s) sessionID of
           None \<Rightarrow> \<lparr>or_MaxEventSeq = n, or_EnqueuedAt = now, or_Attempts = 0, or_LastAttemptAt = None,
                    or_LastError = None\<rparr>
         | Some row \<Rightarrow> raise n now row) (ob_Primary s)\<rparr>"

definition freshThreadRow :: "OrchestrationIntent \<Rightarrow> int \<Rightarrow> time \<Rightarrow> threadOutboxRow" where
  "freshThreadRow intent n now =
     \<lparr>or_MaxEventSeq = n, or_EnqueuedAt = now, or_Attempts = 0, or_LastAttemptAt = None, or_LastError = None,
      or_Intent = intent\<rparr>"

definition UpsertThreadOutbox :: "string \<Rightarrow> string \<Rightarrow> int \<Rightarrow> time \<Rightarrow> outbox \<Rightarrow> outbox" where
  "UpsertThreadOutbox sessionID threadID n now s =
     s\<lparr>ob_Thread := aput (sessionID, threadID)
        (case map_of (ob_Thread s) (sessionID, threadID) of
           None \<Rightarrow> freshThreadRow OrchestrationWake n now
         | Some row \<Rightarrow> (raise n now row)\<lparr>or_Intent :=
             (if or_Intent row = OrchestrationTerminate then OrchestrationTerminate else OrchestrationWake)\<rparr>)
        (ob_Thread s)\<rparr>"

definition UpsertThreadTermination :: "string \<Rightarrow> string \<Rightarrow> int \<Rightarrow> time \<Rightarrow> outbox \<Rightarrow> outbox" where
  "UpsertThreadTermination sessionID threadID n now s =
     s\<lparr>ob_Thread := aput (sessionID, threadID)
        (case map_of (ob_Thread s) (sessionID, threadID) of
           None \<Rightarrow> freshThreadRow OrchestrationTerminate n now
         | Some row \<Rightarrow> (raise n now row)\<lparr>or_Intent := OrchestrationTerminate\<rparr>) (ob_Thread s)\<rparr>"

definition primaryWakeup :: "string \<times> outboxRow \<Rightarrow> OutboxWakeup" where
  "primaryWakeup = (\<lambda>(u, row). \<lparr>ow_SessionID = u, ow_ThreadID = [], ow_MaxEventSeq = or_MaxEventSeq row,
     ow_EnqueuedAt = or_EnqueuedAt row, ow_Attempts = or_Attempts row, ow_Intent = OrchestrationWake\<rparr>)"

definition threadWakeup :: "(string \<times> string) \<times> threadOutboxRow \<Rightarrow> OutboxWakeup" where
  "threadWakeup = (\<lambda>((u, t), row). \<lparr>ow_SessionID = u, ow_ThreadID = t, ow_MaxEventSeq = or_MaxEventSeq row,
     ow_EnqueuedAt = or_EnqueuedAt row, ow_Attempts = or_Attempts row, ow_Intent = or_Intent row\<rparr>)"

definition ListOrchestrationWakeups :: "nat \<Rightarrow> outbox \<Rightarrow> OutboxWakeup list" where
  "ListOrchestrationWakeups limit s =
     take limit (sort_key ow_EnqueuedAt
       (map primaryWakeup (ob_Primary s) @ map threadWakeup (ob_Thread s)))"

definition ListWakeupsForDelivery :: "int \<Rightarrow> outbox \<Rightarrow> OutboxWakeup list" where
  "ListWakeupsForDelivery limit s = ListOrchestrationWakeups (nat (if limit \<le> 0 then 100 else limit)) s"

definition DeleteWakeupIfUnchanged :: "string \<Rightarrow> int \<Rightarrow> outbox \<Rightarrow> bool \<times> outbox" where
  "DeleteWakeupIfUnchanged sessionID n s =
     (if map_option or_MaxEventSeq (map_of (ob_Primary s) sessionID) = Some n
      then (True, s\<lparr>ob_Primary := adel sessionID (ob_Primary s)\<rparr>) else (False, s))"

definition DeleteThreadWakeupIfUnchanged ::
    "string \<Rightarrow> string \<Rightarrow> int \<Rightarrow> OrchestrationIntent \<Rightarrow> outbox \<Rightarrow> bool \<times> outbox" where
  "DeleteThreadWakeupIfUnchanged sessionID threadID n intent s =
     (case map_of (ob_Thread s) (sessionID, threadID) of
        Some row \<Rightarrow>
          if or_MaxEventSeq row = n \<and> or_Intent row = intent
          then (True, s\<lparr>ob_Thread := adel (sessionID, threadID) (ob_Thread s)\<rparr>) else (False, s)
      | None \<Rightarrow> (False, s))"

definition attempted :: "time \<Rightarrow> string \<Rightarrow> 'a outboxRow_scheme \<Rightarrow> 'a outboxRow_scheme" where
  "attempted now cause row = row\<lparr>or_Attempts := or_Attempts row + 1, or_LastAttemptAt := Some now,
     or_LastError := Some cause\<rparr>"

definition RecordAttempt :: "time \<Rightarrow> string \<Rightarrow> string \<Rightarrow> outbox \<Rightarrow> outbox" where
  "RecordAttempt now sessionID cause s =
     (case map_of (ob_Primary s) sessionID of
        None \<Rightarrow> s
      | Some row \<Rightarrow> s\<lparr>ob_Primary := aput sessionID (attempted now cause row) (ob_Primary s)\<rparr>)"

definition RecordThreadAttempt :: "time \<Rightarrow> string \<Rightarrow> string \<Rightarrow> string \<Rightarrow> outbox \<Rightarrow> outbox" where
  "RecordThreadAttempt now sessionID threadID cause s =
     (case map_of (ob_Thread s) (sessionID, threadID) of
        None \<Rightarrow> s
      | Some row \<Rightarrow> s\<lparr>ob_Thread := aput (sessionID, threadID) (attempted now cause row) (ob_Thread s)\<rparr>)"

definition PendingWakeup :: "string \<Rightarrow> outbox \<Rightarrow> OutboxWakeup option" where
  "PendingWakeup sessionID s =
     map_option (\<lambda>row. primaryWakeup (sessionID, row)) (map_of (ob_Primary s) sessionID)"

section \<open>The relay (internal/temporal/relay.go)\<close>

datatype delivery =
    Wake string int
  | WakeThread string string int
  | TerminateThread string string

definition dispatch :: "OutboxWakeup \<Rightarrow> delivery" where
  "dispatch w =
     (if ow_ThreadID w = [] then Wake (ow_SessionID w) (ow_MaxEventSeq w)
      else if ow_Intent w = OrchestrationTerminate then TerminateThread (ow_SessionID w) (ow_ThreadID w)
      else WakeThread (ow_SessionID w) (ow_ThreadID w) (ow_MaxEventSeq w))"

text \<open>What other transactions write to the outbox.\<close>

datatype admission =
    AdmitPrimary string int time
  | AdmitThread string string int time
  | AdmitTermination string string int time

fun admit :: "admission \<Rightarrow> outbox \<Rightarrow> outbox" where
  "admit (AdmitPrimary u n now) s = UpsertOutbox u n now s"
| "admit (AdmitThread u t n now) s = UpsertThreadOutbox u t n now s"
| "admit (AdmitTermination u t n now) s = UpsertThreadTermination u t n now s"

definition removeWakeup :: "OutboxWakeup \<Rightarrow> outbox \<Rightarrow> bool \<times> outbox" where
  "removeWakeup w s =
     (if ow_ThreadID w = [] then DeleteWakeupIfUnchanged (ow_SessionID w) (ow_MaxEventSeq w) s
      else DeleteThreadWakeupIfUnchanged (ow_SessionID w) (ow_ThreadID w) (ow_MaxEventSeq w) (ow_Intent w) s)"

definition recordFailure :: "time \<Rightarrow> OutboxWakeup \<Rightarrow> string \<Rightarrow> outbox \<Rightarrow> outbox" where
  "recordFailure now w cause s =
     (if ow_ThreadID w = [] then RecordAttempt now (ow_SessionID w) cause s
      else RecordThreadAttempt now (ow_SessionID w) (ow_ThreadID w) cause s)"

text \<open>
  One pass over a batch: each wakeup is delivered, then \<open>meanwhile\<close> commits, then the wakeup is
  removed or its attempt recorded. The result is the accepted deliveries and the number removed.
\<close>

fun relayBatch ::
    "(delivery \<Rightarrow> string option) \<Rightarrow> time \<Rightarrow> (OutboxWakeup \<times> admission list) list \<Rightarrow> outbox \<Rightarrow>
     delivery list \<times> nat \<times> outbox" where
  "relayBatch deliver now [] s = ([], 0, s)"
| "relayBatch deliver now ((w, meanwhile) # rest) s =
     (let s1 = fold admit meanwhile s
      in case deliver (dispatch w) of
           Some cause \<Rightarrow> relayBatch deliver now rest (recordFailure now w cause s1)
         | None \<Rightarrow>
             (let (ok, s2) = removeWakeup w s1;
                  (done, removed, s3) = relayBatch deliver now rest s2
              in (dispatch w # done, (if ok then 1 else 0) + removed, s3)))"

definition RunOnce ::
    "(delivery \<Rightarrow> string option) \<Rightarrow> int \<Rightarrow> time \<Rightarrow> admission list list \<Rightarrow> outbox \<Rightarrow>
     delivery list \<times> nat \<times> outbox" where
  "RunOnce deliver batch now meanwhile s =
     relayBatch deliver now (zip (ListWakeupsForDelivery (if batch \<le> 0 then 100 else batch) s) meanwhile) s"

section \<open>The wakeup contract\<close>

text \<open>
  What admission and relay rely on, whichever table holds the wakeups: recording a demand leaves one
  that is at least as large, and dropping a value removes the entry only if it still has that value.
  \<open>covered\<close> says that a demand is still pending, or that a value at least as large was sent.
\<close>

locale wakeup_store =
  fixes pending :: "'s \<Rightarrow> 'k \<Rightarrow> ('v :: order) option"
    and record_demand :: "'k \<Rightarrow> 'v \<Rightarrow> time \<Rightarrow> 's \<Rightarrow> 's"
    and drop_value :: "'k \<Rightarrow> 'v \<Rightarrow> 's \<Rightarrow> 's"
  assumes recorded: "\<exists>m. pending (record_demand k v t s) k = Some m \<and> v \<le> m"
    and raised: "pending s k = Some v' \<Longrightarrow> \<exists>m. pending (record_demand k v t s) k = Some m \<and> v' \<le> m"
    and record_other: "k' \<noteq> k \<Longrightarrow> pending (record_demand k v t s) k' = pending s k'"
    and dropped: "pending (drop_value k v s) k' = (if k' = k \<and> pending s k = Some v then None else pending s k')"
begin

definition covered :: "('k \<Rightarrow> 'v set) \<Rightarrow> 'k \<Rightarrow> 'v \<Rightarrow> 's \<Rightarrow> bool" where
  "covered sent k v s \<longleftrightarrow> (\<exists>m. pending s k = Some m \<and> v \<le> m) \<or> (\<exists>m \<in> sent k. v \<le> m)"

lemma record_covers: "covered sent k v (record_demand k v t s)"
  using recorded by (auto simp: covered_def)

lemma record_keeps: "covered sent k v s \<Longrightarrow> covered sent k v (record_demand k' v' t s)"
  using raised [of s k _ v' t] record_other [of k k' v' t s] order_trans
  by (cases "k' = k") (fastforce simp: covered_def)+

lemma drop_keeps: "covered sent k v s \<Longrightarrow> w \<in> sent k' \<Longrightarrow> covered sent k v (drop_value k' w s)"
  by (auto simp: covered_def dropped)

lemma same_pending: "covered sent k v s \<Longrightarrow> pending s' k = pending s k \<Longrightarrow> covered sent k v s'"
  by (simp add: covered_def)

lemma more_sent: "covered sent k v s \<Longrightarrow> sent k \<subseteq> sent' k \<Longrightarrow> covered sent' k v s"
  by (auto simp: covered_def)

end

text \<open>A demand on a child: the wish to run up to a sequence number, or to end, which no wish undoes.\<close>

datatype demand = Demand (dm_Intent: OrchestrationIntent) (dm_Seq: int)

instantiation demand :: order
begin

definition less_eq_demand :: "demand \<Rightarrow> demand \<Rightarrow> bool" where
  "less_eq_demand d e \<longleftrightarrow> (dm_Intent d = OrchestrationTerminate \<longrightarrow> dm_Intent e = OrchestrationTerminate)
     \<and> dm_Seq d \<le> dm_Seq e"

definition less_demand :: "demand \<Rightarrow> demand \<Rightarrow> bool" where
  "less_demand d e \<longleftrightarrow> d \<le> e \<and> \<not> e \<le> (d :: demand)"

instance
proof
  fix d e :: demand
  show "d \<le> e \<Longrightarrow> e \<le> d \<Longrightarrow> d = e"
    by (cases "dm_Intent d"; cases "dm_Intent e") (auto simp: less_eq_demand_def demand.expand)
qed (auto simp: less_eq_demand_def less_demand_def)

end

definition primaryPending :: "outbox \<Rightarrow> string \<Rightarrow> int option" where
  "primaryPending s u = map_option or_MaxEventSeq (map_of (ob_Primary s) u)"

definition threadPending :: "outbox \<Rightarrow> string \<times> string \<Rightarrow> demand option" where
  "threadPending s k = map_option (\<lambda>row. Demand (or_Intent row) (or_MaxEventSeq row)) (map_of (ob_Thread s) k)"

definition recordThread :: "string \<times> string \<Rightarrow> demand \<Rightarrow> time \<Rightarrow> outbox \<Rightarrow> outbox" where
  "recordThread k d now s =
     (if dm_Intent d = OrchestrationTerminate
      then UpsertThreadTermination (fst k) (snd k) (dm_Seq d) now s
      else UpsertThreadOutbox (fst k) (snd k) (dm_Seq d) now s)"

interpretation primary: wakeup_store primaryPending UpsertOutbox "\<lambda>u n s. snd (DeleteWakeupIfUnchanged u n s)"
  by unfold_locales
    (auto simp: primaryPending_def UpsertOutbox_def DeleteWakeupIfUnchanged_def raise_def split: option.splits)

interpretation child: wakeup_store threadPending recordThread
    "\<lambda>k d s. snd (DeleteThreadWakeupIfUnchanged (fst k) (snd k) (dm_Seq d) (dm_Intent d) s)"
proof
  show "threadPending (snd (DeleteThreadWakeupIfUnchanged (fst k) (snd k) (dm_Seq d) (dm_Intent d) s)) k' =
      (if k' = k \<and> threadPending s k = Some d then None else threadPending s k')" for k d s k'
    by (cases d) (auto simp: threadPending_def DeleteThreadWakeupIfUnchanged_def split: option.splits)
qed (auto simp: threadPending_def recordThread_def UpsertThreadOutbox_def UpsertThreadTermination_def raise_def
    freshThreadRow_def less_eq_demand_def split: option.splits)

section \<open>What a pass keeps\<close>

text \<open>
  What survives every step of a pass, given the set of deliveries accepted so far, survives the pass;
  what a committed admission establishes holds at the end of it.
\<close>

locale relay_invariant =
  fixes I :: "delivery set \<Rightarrow> outbox \<Rightarrow> bool"
  assumes admit_keeps: "I A s \<Longrightarrow> I A (admit a s)"
    and failure_keeps: "I A s \<Longrightarrow> I A (recordFailure now w cause s)"
    and remove_keeps: "I A s \<Longrightarrow> I (insert (dispatch w) A) (snd (removeWakeup w s))"
begin

lemma fold_admit_keeps: "I A s \<Longrightarrow> I A (fold admit as s)"
  by (induction as arbitrary: s) (auto intro: admit_keeps)

lemma fold_admit_establishes:
  assumes "a \<in> set as" and est: "\<And>A s. I A (admit a s)"
  shows "I A (fold admit as s)"
proof -
  obtain xs ys where "as = xs @ a # ys" using assms(1) by (auto dest: split_list)
  then show ?thesis by (auto intro: fold_admit_keeps est)
qed

lemma relayBatch_keeps:
  "relayBatch deliver now ws s = (sent, removed, s') \<Longrightarrow> I A s \<Longrightarrow> I (A \<union> set sent) s'"
proof (induction ws arbitrary: s A sent removed s')
  case (Cons p rest)
  obtain w meanwhile where p: "p = (w, meanwhile)" by fastforce
  note keep = fold_admit_keeps [OF Cons.prems(2), of meanwhile]
  show ?case
  proof (cases "deliver (dispatch w)")
    case None
    obtain ok s2 where r: "removeWakeup w (fold admit meanwhile s) = (ok, s2)" by fastforce
    obtain sent3 n3 s3 where b: "relayBatch deliver now rest s2 = (sent3, n3, s3)" by (metis prod_cases3)
    have "I (insert (dispatch w) A) s2" using remove_keeps [OF keep, of w] r by simp
    then have "I (insert (dispatch w) A \<union> set sent3) s3" by (rule Cons.IH [OF b])
    then show ?thesis using Cons.prems(1) p None r b by (auto simp: Let_def)
  next
    case (Some cause)
    then show ?thesis using Cons.prems(1) p Cons.IH failure_keeps [OF keep] by (auto simp: Let_def)
  qed
qed simp

lemma relayBatch_establishes:
  assumes est: "\<And>A s. I A (admit a s)" and a: "a \<in> set as"
  shows "relayBatch deliver now ws s = (sent, removed, s') \<Longrightarrow> (w, as) \<in> set ws \<Longrightarrow> I (A \<union> set sent) s'"
proof (induction ws arbitrary: s A sent removed s')
  case (Cons p rest)
  obtain w' meanwhile where p: "p = (w', meanwhile)" by fastforce
  show ?case
  proof (cases "p = (w, as)")
    case True
    then have "I A (fold admit as s)" using fold_admit_establishes [OF a est] by simp
    moreover have "relayBatch deliver now ((w, []) # rest) (fold admit as s) = (sent, removed, s')"
      using Cons.prems(1) True by simp
    ultimately show ?thesis by (intro relayBatch_keeps)
  next
    case False
    then have mem: "(w, as) \<in> set rest" using Cons.prems(2) by auto
    show ?thesis
    proof (cases "deliver (dispatch w')")
      case None
      obtain ok s2 where r: "removeWakeup w' (fold admit meanwhile s) = (ok, s2)" by fastforce
      obtain sent3 n3 s3 where b: "relayBatch deliver now rest s2 = (sent3, n3, s3)" by (metis prod_cases3)
      have "I (insert (dispatch w') A \<union> set sent3) s3" by (rule Cons.IH [OF b mem])
      then show ?thesis using Cons.prems(1) p None r b by (auto simp: Let_def)
    next
      case (Some cause)
      then show ?thesis using Cons.prems(1) p Cons.IH mem by (auto simp: Let_def)
    qed
  qed
qed simp

end

definition primarySent :: "delivery set \<Rightarrow> string \<Rightarrow> int set" where
  "primarySent A u = {n. Wake u n \<in> A}"

definition threadSent :: "delivery set \<Rightarrow> string \<times> string \<Rightarrow> demand set" where
  "threadSent A k = {d. if dm_Intent d = OrchestrationTerminate then TerminateThread (fst k) (snd k) \<in> A
     else WakeThread (fst k) (snd k) (dm_Seq d) \<in> A}"

lemma other_table [simp]:
  "primaryPending (UpsertThreadOutbox u t n now s) = primaryPending s"
  "primaryPending (UpsertThreadTermination u t n now s) = primaryPending s"
  "threadPending (UpsertOutbox u n now s) = threadPending s"
  "primaryPending (snd (DeleteThreadWakeupIfUnchanged u t n i s)) = primaryPending s"
  "threadPending (snd (DeleteWakeupIfUnchanged u n s)) = threadPending s"
  "primaryPending (recordFailure now w cause s) = primaryPending s"
  "threadPending (recordFailure now w cause s) = threadPending s"
  by (auto simp: primaryPending_def threadPending_def UpsertThreadOutbox_def UpsertThreadTermination_def
      UpsertOutbox_def DeleteThreadWakeupIfUnchanged_def DeleteWakeupIfUnchanged_def recordFailure_def
      RecordAttempt_def RecordThreadAttempt_def attempted_def fun_eq_iff split: option.splits)

lemma admit_thread:
  "admit (AdmitThread u t n now) s = recordThread (u, t) (Demand OrchestrationWake n) now s"
  "admit (AdmitTermination u t n now) s = recordThread (u, t) (Demand OrchestrationTerminate n) now s"
  by (simp_all add: recordThread_def)

interpretation keepsPrimary: relay_invariant "\<lambda>A. primary.covered (primarySent A) u n" for u n
proof
  fix A s w
  assume "primary.covered (primarySent A) u n s"
  then have c: "primary.covered (primarySent (insert (dispatch w) A)) u n s"
    by (rule primary.more_sent) (auto simp: primarySent_def)
  show "primary.covered (primarySent (insert (dispatch w) A)) u n (snd (removeWakeup w s))"
  proof (cases "ow_ThreadID w = []")
    case True
    then show ?thesis
      using primary.drop_keeps [OF c, of "ow_MaxEventSeq w" "ow_SessionID w"]
      by (simp add: removeWakeup_def dispatch_def primarySent_def)
  qed (simp add: removeWakeup_def primary.same_pending [OF c])
next
  show "primary.covered (primarySent A) u n s \<Longrightarrow> primary.covered (primarySent A) u n (admit a s)" for A s a
    by (cases a) (auto intro: primary.record_keeps elim: primary.same_pending)
qed (auto elim: primary.same_pending)

interpretation keepsChild: relay_invariant "\<lambda>A. child.covered (threadSent A) k d" for k d
proof
  fix A s w
  assume "child.covered (threadSent A) k d s"
  then have c: "child.covered (threadSent (insert (dispatch w) A)) k d s"
    by (rule child.more_sent) (auto simp: threadSent_def)
  show "child.covered (threadSent (insert (dispatch w) A)) k d (snd (removeWakeup w s))"
  proof (cases "ow_ThreadID w = []")
    case False
    then show ?thesis
      using child.drop_keeps [OF c, of "Demand (ow_Intent w) (ow_MaxEventSeq w)" "(ow_SessionID w, ow_ThreadID w)"]
      by (simp add: removeWakeup_def dispatch_def threadSent_def)
  qed (simp add: removeWakeup_def child.same_pending [OF c])
next
  show "child.covered (threadSent A) k d s \<Longrightarrow> child.covered (threadSent A) k d (admit a s)" for A s a
    by (cases a) (auto simp del: admit.simps(2,3) simp: admit_thread
      intro: child.record_keeps elim: child.same_pending)
qed (auto elim: child.same_pending)

text \<open>Draining: with distinct keys and nothing admitted meanwhile, each wakeup removes its own row.\<close>

fun wakeupKey :: "OutboxWakeup \<Rightarrow> string \<times> string" where
  "wakeupKey w = (ow_SessionID w, ow_ThreadID w)"

definition wakeups :: "outbox \<Rightarrow> OutboxWakeup list" where
  "wakeups s = map primaryWakeup (ob_Primary s) @ map threadWakeup (ob_Thread s)"

definition wellFormedOutbox :: "outbox \<Rightarrow> bool" where
  "wellFormedOutbox s \<longleftrightarrow> distinct (map fst (ob_Primary s)) \<and> distinct (map fst (ob_Thread s))
     \<and> list_all (\<lambda>p. snd (fst p) \<noteq> []) (ob_Thread s)"

lemma primaryWakeup_sel [simp]:
  "ow_SessionID (primaryWakeup p) = fst p" "ow_ThreadID (primaryWakeup p) = []"
  "ow_MaxEventSeq (primaryWakeup p) = or_MaxEventSeq (snd p)" "ow_EnqueuedAt (primaryWakeup p) = or_EnqueuedAt (snd p)"
  by (simp_all add: primaryWakeup_def split: prod.splits)

lemma threadWakeup_sel [simp]:
  "ow_SessionID (threadWakeup p) = fst (fst p)" "ow_ThreadID (threadWakeup p) = snd (fst p)"
  "ow_MaxEventSeq (threadWakeup p) = or_MaxEventSeq (snd p)" "ow_EnqueuedAt (threadWakeup p) = or_EnqueuedAt (snd p)"
  "ow_Intent (threadWakeup p) = or_Intent (snd p)"
  by (simp_all add: threadWakeup_def split: prod.splits)

lemma adel_filter: "adel k xs = filter (\<lambda>p. fst p \<noteq> k) xs"
  by (induction xs) auto

lemma removeWakeup_own:
  assumes "wellFormedOutbox s" "w \<in> set (wakeups s)"
  shows "\<exists>s'. removeWakeup w s = (True, s') \<and> wellFormedOutbox s'
    \<and> wakeups s' = filter (\<lambda>v. wakeupKey v \<noteq> wakeupKey w) (wakeups s)"
proof -
  have t: "p \<in> set (ob_Thread s) \<Longrightarrow> snd (fst p) \<noteq> []" for p
    using assms(1) by (auto simp: wellFormedOutbox_def list_all_iff)
  consider (p) u row where "(u, row) \<in> set (ob_Primary s)" "w = primaryWakeup (u, row)"
    | (c) u t row where "((u, t), row) \<in> set (ob_Thread s)" "w = threadWakeup ((u, t), row)"
    using assms(2) by (fastforce simp: wakeups_def)
  then show ?thesis
  proof cases
    case p
    then have "map_of (ob_Primary s) u = Some row" using assms(1) by (simp add: wellFormedOutbox_def)
    moreover have "filter (\<lambda>v. wakeupKey v \<noteq> wakeupKey w) (map threadWakeup (ob_Thread s)) = map threadWakeup (ob_Thread s)"
      using t by (intro filter_True) (auto simp: p(2))
    ultimately show ?thesis using assms(1) p(2)
      by (auto simp: removeWakeup_def DeleteWakeupIfUnchanged_def wellFormedOutbox_def wakeups_def adel_filter
          filter_map o_def distinct_map_filter)
  next
    case c
    then have "map_of (ob_Thread s) (u, t) = Some row" using assms(1) by (simp add: wellFormedOutbox_def)
    moreover have "t \<noteq> []" using t [OF c(1)] by simp
    moreover from this have "filter (\<lambda>v. wakeupKey v \<noteq> wakeupKey w) (map primaryWakeup (ob_Primary s)) = map primaryWakeup (ob_Primary s)"
      by (intro filter_True) (auto simp: c(2))
    moreover have "filter (\<lambda>v. wakeupKey v \<noteq> wakeupKey w) (map threadWakeup (ob_Thread s)) =
        map threadWakeup (filter (\<lambda>p. fst p \<noteq> (u, t)) (ob_Thread s))"
      by (simp add: filter_map o_def c(2) prod_eq_iff)
    ultimately show ?thesis using assms(1) c(2)
      by (auto simp del: wakeupKey.simps simp: removeWakeup_def DeleteThreadWakeupIfUnchanged_def wellFormedOutbox_def wakeups_def adel_filter
          filter_map o_def distinct_map_filter list_all_iff)
  qed
qed

lemma relayBatch_drains:
  "wellFormedOutbox s \<Longrightarrow> distinct (map wakeupKey ws) \<Longrightarrow> set ws \<subseteq> set (wakeups s) \<Longrightarrow>
    \<exists>s'. relayBatch (\<lambda>_. None) now (map (\<lambda>w. (w, [])) ws) s = (map dispatch ws, length ws, s') \<and>
      wakeups s' = filter (\<lambda>v. wakeupKey v \<notin> wakeupKey ` set ws) (wakeups s)"
proof (induction ws arbitrary: s)
  case (Cons w ws)
  obtain s2 where s2: "removeWakeup w s = (True, s2)" "wellFormedOutbox s2"
    "wakeups s2 = filter (\<lambda>v. wakeupKey v \<noteq> wakeupKey w) (wakeups s)"
    using removeWakeup_own [OF Cons.prems(1)] Cons.prems(3) by auto
  have "wakeupKey v \<noteq> wakeupKey w" if "v \<in> set ws" for v
    using Cons.prems(2) that by (auto simp del: wakeupKey.simps) (metis image_eqI)
  then have "set ws \<subseteq> set (wakeups s2)" using Cons.prems(3) by (auto simp: s2(3) simp del: wakeupKey.simps)
  then obtain s3 where "relayBatch (\<lambda>_. None) now (map (\<lambda>w. (w, [])) ws) s2 = (map dispatch ws, length ws, s3)"
    "wakeups s3 = filter (\<lambda>v. wakeupKey v \<notin> wakeupKey ` set ws) (wakeups s2)"
    using Cons.IH [OF s2(2)] Cons.prems(2) by auto
  then show ?case by (auto simp: s2 Let_def simp del: wakeupKey.simps intro!: filter_cong)
qed simp

lemma wakeups_empty: "wakeups s = [] \<longleftrightarrow> ob_Primary s = [] \<and> ob_Thread s = []"
  by (simp add: wakeups_def)

lemma distinct_wakeups: "wellFormedOutbox s \<Longrightarrow> distinct (map wakeupKey (wakeups s))"
  by (auto simp: wellFormedOutbox_def wakeups_def list_all_iff distinct_map inj_on_def)

lemma zip_replicate_map: "length xs \<le> n \<Longrightarrow> zip xs (replicate n []) = map (\<lambda>x. (x, [])) xs"
  by (simp add: zip_replicate2)

lemma primary_covered_iff:
  "primary.covered (primarySent A) u n s \<longleftrightarrow> (\<exists>m. (primaryPending s u = Some m \<or> Wake u m \<in> A) \<and> n \<le> m)"
  by (auto simp: primary.covered_def primarySent_def)

lemma child_covered_iff:
  "child.covered (threadSent A) (u, c) (Demand i n) s \<longleftrightarrow>
     (\<exists>d. threadPending s (u, c) = Some d \<and> Demand i n \<le> d) \<or> TerminateThread u c \<in> A
     \<or> i = OrchestrationWake \<and> (\<exists>m. WakeThread u c m \<in> A \<and> n \<le> m)"
  (is "_ \<longleftrightarrow> ?p \<or> ?t \<or> ?w")
proof -
  have "(\<exists>d \<in> threadSent A (u, c). Demand i n \<le> d) \<longleftrightarrow> ?t \<or> ?w"
  proof
    assume "\<exists>d \<in> threadSent A (u, c). Demand i n \<le> d"
    then show "?t \<or> ?w" by (cases i) (auto simp: threadSent_def less_eq_demand_def split: if_splits)
  next
    assume "?t \<or> ?w"
    then show "\<exists>d \<in> threadSent A (u, c). Demand i n \<le> d"
    proof
      assume ?t
      then show ?thesis
        by (intro bexI [of _ "Demand OrchestrationTerminate n"]) (auto simp: threadSent_def less_eq_demand_def)
    next
      assume ?w
      then obtain m where "i = OrchestrationWake" "WakeThread u c m \<in> A" "n \<le> m" by blast
      then show ?thesis
        by (intro bexI [of _ "Demand OrchestrationWake m"]) (auto simp: threadSent_def less_eq_demand_def)
    qed
  qed
  then show ?thesis by (auto simp: child.covered_def)
qed

section \<open>Properties\<close>

text \<open>
  C38. The relay loses no wakeup: every demand that was pending when a pass began or was admitted while it
  ran is, after the pass, either still pending at its sequence or above (and, for a child, still a
  termination if it was one), or was delivered at such a sequence and accepted by Temporal. This
  holds whichever deliveries fail, whatever commits between a delivery and the removal of its row,
  and wherever the pass stops.
\<close>

theorem relay_loses_no_wakeup:
  assumes run: "RunOnce deliver batch now meanwhile s = (sent, removed, s')"
    and "length meanwhile \<le> length (ListWakeupsForDelivery (if batch \<le> 0 then 100 else batch) s)"
  shows "(primaryPending s u = Some n \<or> AdmitPrimary u n t \<in> set (concat meanwhile) \<longrightarrow>
           (\<exists>m. (primaryPending s' u = Some m \<or> Wake u m \<in> set sent) \<and> n \<le> m))
       \<and> (threadPending s (u, c) = Some (Demand i n) \<or> AdmitThread u c n t \<in> set (concat meanwhile)
            \<and> i = OrchestrationWake \<or> AdmitTermination u c n t \<in> set (concat meanwhile) \<and> i = OrchestrationTerminate \<longrightarrow>
           (\<exists>d. threadPending s' (u, c) = Some d \<and> Demand i n \<le> d)
         \<or> TerminateThread u c \<in> set sent \<or> i = OrchestrationWake \<and> (\<exists>m. WakeThread u c m \<in> set sent \<and> n \<le> m))"
proof -
  let ?ws = "zip (ListWakeupsForDelivery (if batch \<le> 0 then 100 else batch) s) meanwhile"
  have b: "relayBatch deliver now ?ws s = (sent, removed, s')" using run by (simp add: RunOnce_def)
  have mem: "\<exists>w as. (w, as) \<in> set ?ws \<and> a \<in> set as" if "a \<in> set (concat meanwhile)" for a
    using that assms(2) by (force simp: set_zip in_set_conv_nth)
  have p: "primary.covered (primarySent (set sent)) u n s'"
    if "primaryPending s u = Some n \<or> AdmitPrimary u n t \<in> set (concat meanwhile)"
    using that
  proof
    assume "primaryPending s u = Some n"
    then have "primary.covered (primarySent {}) u n s" by (simp add: primary.covered_def)
    then show ?thesis using keepsPrimary.relayBatch_keeps [OF b] by fastforce
  next
    assume "AdmitPrimary u n t \<in> set (concat meanwhile)"
    from mem [OF this] obtain w as where as: "(w, as) \<in> set ?ws" "AdmitPrimary u n t \<in> set as" by blast
    have "primary.covered (primarySent ({} \<union> set sent)) u n s'"
      by (rule keepsPrimary.relayBatch_establishes [OF _ as(2) b as(1)]) (simp add: primary.record_covers)
    then show ?thesis by simp
  qed
  have c: "child.covered (threadSent (set sent)) (u, c) (Demand i n) s'"
    if "threadPending s (u, c) = Some (Demand i n) \<or> AdmitThread u c n t \<in> set (concat meanwhile)
      \<and> i = OrchestrationWake \<or> AdmitTermination u c n t \<in> set (concat meanwhile) \<and> i = OrchestrationTerminate"
    using that
  proof (elim disjE conjE)
    assume "threadPending s (u, c) = Some (Demand i n)"
    then have "child.covered (threadSent {}) (u, c) (Demand i n) s" by (simp add: child.covered_def)
    then show ?thesis using keepsChild.relayBatch_keeps [OF b] by fastforce
  next
    assume a: "AdmitThread u c n t \<in> set (concat meanwhile)" and i: "i = OrchestrationWake"
    from mem [OF a] obtain w as where as: "(w, as) \<in> set ?ws" "AdmitThread u c n t \<in> set as" by blast
    have "child.covered (threadSent ({} \<union> set sent)) (u, c) (Demand i n) s'"
      by (rule keepsChild.relayBatch_establishes [OF _ as(2) b as(1)]) (simp only: admit_thread i child.record_covers)
    then show ?thesis by simp
  next
    assume a: "AdmitTermination u c n t \<in> set (concat meanwhile)" and i: "i = OrchestrationTerminate"
    from mem [OF a] obtain w as where as: "(w, as) \<in> set ?ws" "AdmitTermination u c n t \<in> set as" by blast
    have "child.covered (threadSent ({} \<union> set sent)) (u, c) (Demand i n) s'"
      by (rule keepsChild.relayBatch_establishes [OF _ as(2) b as(1)]) (simp only: admit_thread i child.record_covers)
    then show ?thesis by simp
  qed
  show ?thesis using p c unfolding primary_covered_iff child_covered_iff by blast
qed

text \<open>
  C39. A pass drains the outbox: when Temporal accepts every delivery, nothing else is admitted meanwhile and
  the batch holds all rows, one pass delivers exactly one message per row, oldest first, and leaves
  both tables empty.
\<close>

theorem relay_drains:
  assumes "wellFormedOutbox s" "length (ob_Primary s) + length (ob_Thread s) \<le> k" "0 < k"
  shows "\<exists>s'. RunOnce (\<lambda>_. None) (int k) now (replicate k []) s =
      (map dispatch (ListWakeupsForDelivery (int k) s), length (ob_Primary s) + length (ob_Thread s), s')
    \<and> ob_Primary s' = [] \<and> ob_Thread s' = []
    \<and> sorted (map ow_EnqueuedAt (ListWakeupsForDelivery (int k) s))
    \<and> mset (ListWakeupsForDelivery (int k) s) = mset (map primaryWakeup (ob_Primary s)) + mset (map threadWakeup (ob_Thread s))"
proof -
  let ?ws = "sort_key ow_EnqueuedAt (wakeups s)"
  have len: "length ?ws \<le> k" using assms(2) by (simp add: wakeups_def)
  have l: "ListWakeupsForDelivery (int k) s = ?ws"
    using assms(3) len by (simp add: ListWakeupsForDelivery_def ListOrchestrationWakeups_def wakeups_def)
  have "distinct (map wakeupKey ?ws)"
    using distinct_wakeups [OF assms(1)] by (metis distinct_map distinct_sort set_sort)
  from relayBatch_drains [OF assms(1) this] obtain s' where
    "relayBatch (\<lambda>_. None) now (map (\<lambda>w. (w, [])) ?ws) s = (map dispatch ?ws, length ?ws, s')"
    and "wakeups s' = filter (\<lambda>v. wakeupKey v \<notin> wakeupKey ` set ?ws) (wakeups s)" by auto
  moreover from this(2) have "wakeups s' = []" by simp
  ultimately show ?thesis
    using assms(3) len by (simp add: RunOnce_def l zip_replicate_map wakeups_empty) (simp add: wakeups_def)
qed

text \<open>An outbox with a wakeup and a child termination, of which one delivery fails.\<close>

definition sampleOutbox :: outbox where
  "sampleOutbox = UpsertThreadTermination ''ses'' ''child'' 7 30 (UpsertOutbox ''ses'' 5 20 \<lparr>ob_Primary = [], ob_Thread = []\<rparr>)"

lemma sampleOutbox_eq:
  "ob_Primary sampleOutbox = [(''ses'', \<lparr>or_MaxEventSeq = 5, or_EnqueuedAt = 20, or_Attempts = 0,
     or_LastAttemptAt = None, or_LastError = None\<rparr>)]"
  "ob_Thread sampleOutbox = [((''ses'', ''child''), freshThreadRow OrchestrationTerminate 7 30)]"
  by (simp_all add: sampleOutbox_def UpsertOutbox_def UpsertThreadTermination_def)

lemma sampleOutbox_batch:
  "ListWakeupsForDelivery 100 sampleOutbox = [primaryWakeup (hd (ob_Primary sampleOutbox)), threadWakeup (hd (ob_Thread sampleOutbox))]"
  by (simp add: ListWakeupsForDelivery_def ListOrchestrationWakeups_def sampleOutbox_eq freshThreadRow_def)

theorem relay_loses_no_wakeup_witness:
  "\<exists>sent removed s' m. RunOnce (\<lambda>_. Some ''unavailable'') 0 40 [[AdmitPrimary ''ses'' 9 35], []] sampleOutbox = (sent, removed, s')
     \<and> (primaryPending s' ''ses'' = Some m \<or> Wake ''ses'' m \<in> set sent) \<and> 9 \<le> m"
proof -
  obtain sent removed s' where r:
    "RunOnce (\<lambda>_. Some ''unavailable'') 0 40 [[AdmitPrimary ''ses'' 9 35], []] sampleOutbox = (sent, removed, s')"
    by (metis prod_cases3)
  have "\<exists>m. (primaryPending s' ''ses'' = Some m \<or> Wake ''ses'' m \<in> set sent) \<and> 9 \<le> m"
    using relay_loses_no_wakeup [OF r, where u = "''ses''" and n = 9 and t = 35] by (simp add: sampleOutbox_batch)
  with r show ?thesis by blast
qed

theorem relay_drains_witness:
  "\<exists>s'. RunOnce (\<lambda>_. None) 100 40 (replicate 100 []) sampleOutbox =
      ([Wake ''ses'' 5, TerminateThread ''ses'' ''child''], 2, s') \<and> ob_Primary s' = [] \<and> ob_Thread s' = []"
  using relay_drains [where s = sampleOutbox and k = 100 and now = 40]
  by (auto simp: sampleOutbox_batch sampleOutbox_eq wellFormedOutbox_def dispatch_def freshThreadRow_def)

end
