(* ===== verification/Ledger.thy ===== *)
theory Ledger
  imports Journal EnvWork Outbox
begin

text \<open>
  The rows of one Session and the statements that admission and completion compose: events, Threads,
  pending client actions, provider transcript, outboxes, work queue and journal (\<open>internal/pg/store.go\<close>
  from \<open>appendDrafts\<close> on, \<open>internal/pg/pending.go\<close>, \<open>internal/pg/transcript.go\<close> and their queries).
  A transaction holds the Session row, so an operation is a function from rows to rows or to the error
  that rolls it back. What it reads from outside is a \<open>runtime\<close>: the JSON encoding of payloads
  (\<open>None\<close> where it fails), \<open>strconv.Quote\<close>, the identifiers it draws, numbered by the draws so far, and one clock
  reading for the transaction.
\<close>

section \<open>Rows\<close>

datatype threadKind = PrimaryKind | ChildKind | AdvisorKind

record ProviderToolUseMapping =
  pm_PublicEventID :: string
  pm_ProviderToolUseID :: string
  pm_ToolName :: string

record transcriptTurn =
  tt_TriggerEventID :: string
  tt_CommittedThroughSeq :: int
  tt_RepresentedEventIDs :: "string list"
  tt_Messages :: "Message list"
  tt_ToolUseMappings :: "ProviderToolUseMapping list"
  tt_CreatedAt :: time

record ledger =
  lg_Exists :: bool
  lg_DeletingAt :: "time option"
  lg_Session :: Session
  lg_Threads :: "(threadKind \<times> SessionThread) list"
  lg_Events :: "Event list"
  lg_Pending :: "PendingAction list"
  lg_Transcript :: "transcriptTurn list"
  lg_Outbox :: outbox
  lg_Work :: workStore
  lg_Journal :: journal
  lg_Drawn :: nat

record runtime =
  rt_Recode :: "payload \<Rightarrow> payload option"
  rt_NewID :: "string \<Rightarrow> nat \<Rightarrow> string"
  rt_Quote :: "string \<Rightarrow> string"
  rt_Now :: time

definition PrefixEvent :: string where "PrefixEvent = ''sevt_''"
definition PrefixOutcome :: string where "PrefixOutcome = ''outc_''"
definition PrefixEnvironmentWork :: string where "PrefixEnvironmentWork = ''work_''"
definition PrefixPendingAction :: string where "PrefixPendingAction = ''pact_''"

definition NewID :: "runtime \<Rightarrow> string \<Rightarrow> ledger \<Rightarrow> string \<times> ledger" where
  "NewID r pfx l = (rt_NewID r pfx (lg_Drawn l), l\<lparr>lg_Drawn := Suc (lg_Drawn l)\<rparr>)"

definition LockSession :: "ledger \<Rightarrow> storeError + Session" where
  "LockSession l =
     (if \<not> lg_Exists l then Inl (Refused (NotFound ''session not found''))
      else if lg_DeletingAt l \<noteq> None then Inl (Refused (Conflict ''session deletion is in progress''))
      else Inr (lg_Session l))"

section \<open>Threads\<close>

definition GetPrimarySessionThreadID :: "ledger \<Rightarrow> storeError + string" where
  "GetPrimarySessionThreadID l =
     (case find (\<lambda>(k, _). k = PrimaryKind) (lg_Threads l) of
        None \<Rightarrow> Inl NoRows
      | Some (_, t) \<Rightarrow> Inr (t_ID t))"

definition GetPrimarySessionThreadProjection :: "ledger \<Rightarrow> storeError + SessionThread" where
  "GetPrimarySessionThreadProjection l =
     (case find (\<lambda>(k, _). k = PrimaryKind) (lg_Threads l) of
        None \<Rightarrow> Inl NoRows
      | Some (_, t) \<Rightarrow> Inr t)"

definition putPrimaryThreadProjection :: "SessionThread \<Rightarrow> ledger \<Rightarrow> ledger" where
  "putPrimaryThreadProjection t l =
     l\<lparr>lg_Threads := updateWhere (\<lambda>(k, _). k = PrimaryKind) (\<lambda>(k, _). (k, t)) (lg_Threads l)\<rparr>"

definition putPrimarySessionThreadProjection :: "Session \<Rightarrow> ledger \<Rightarrow> storeError + ledger" where
  "putPrimarySessionThreadProjection session l =
     bindE (GetPrimarySessionThreadProjection l) (\<lambda>t.
       Inr (putPrimaryThreadProjection
              (if ag_Multiagent (s_AgentSnapshot session) = None
               then ApplyPrimarySessionProjection t session
               else ApplyIndependentPrimarySessionProjection t session) l))"

definition putSessionOnly :: "Session \<Rightarrow> ledger \<Rightarrow> ledger" where
  "putSessionOnly session l = l\<lparr>lg_Session := session\<rparr>"

definition putProjection :: "Session \<Rightarrow> ledger \<Rightarrow> storeError + ledger" where
  "putProjection session l = putPrimarySessionThreadProjection session (putSessionOnly session l)"

definition loadSessionThreadForUpdate :: "string \<Rightarrow> ledger \<Rightarrow> storeError + SessionThread" where
  "loadSessionThreadForUpdate threadID l =
     (case find (\<lambda>(_, t). t_ID t = threadID) (lg_Threads l) of
        None \<Rightarrow> Inl (Refused (NotFound ''session thread not found''))
      | Some (_, t) \<Rightarrow> Inr t)"

definition putSessionThreadTx :: "SessionThread \<Rightarrow> ledger \<Rightarrow> storeError + ledger" where
  "putSessionThreadTx t l =
     (if affected (\<lambda>(_, t'). t_ID t' = t_ID t) (lg_Threads l) \<noteq> 1
      then Inl (Refused (NotFound ''session thread not found''))
      else Inr (l\<lparr>lg_Threads := updateWhere (\<lambda>(_, t'). t_ID t' = t_ID t) (\<lambda>(k, _). (k, t)) (lg_Threads l)\<rparr>))"

definition activeChildIDs :: "ledger \<Rightarrow> string list" where
  "activeChildIDs l =
     map t_ID (sort_key (\<lambda>t. QueueKey (t_CreatedAt t) (t_ID t))
       (map snd (filter (\<lambda>(k, t). k = ChildKind \<and> t_ArchivedAt t = None \<and> t_Status t \<noteq> StatusTerminated)
         (lg_Threads l))))"

definition HasActiveChildThreads :: "ledger \<Rightarrow> bool" where
  "HasActiveChildThreads l \<longleftrightarrow>
     list_ex (\<lambda>(k, t). k = ChildKind \<and> t_ArchivedAt t = None
       \<and> t_Status t \<in> {StatusRunning, StatusRescheduling}) (lg_Threads l)"

section \<open>Events\<close>

definition maxSeq :: "ledger \<Rightarrow> int" where
  "maxSeq l = (case map e_Sequence (lg_Events l) of [] \<Rightarrow> 0 | x # xs \<Rightarrow> foldr max xs x)"

definition GetEvent :: "string \<Rightarrow> ledger \<Rightarrow> Event option" where
  "GetEvent i l = find (\<lambda>e. e_ID e = i) (lg_Events l)"

definition InsertEvent :: "Event \<Rightarrow> ledger \<Rightarrow> storeError + ledger" where
  "InsertEvent e l =
     (if e_ID e \<in> set (map e_ID (lg_Events l)) \<or> e_Sequence e \<in> set (map e_Sequence (lg_Events l))
         \<or> e_ThreadID e \<notin> set (map (t_ID \<circ> snd) (lg_Threads l))
      then Inl ConstraintViolation else Inr (l\<lparr>lg_Events := lg_Events l @ [e]\<rparr>))"

definition ListEventsByTurn :: "string \<Rightarrow> ledger \<Rightarrow> Event list" where
  "ListEventsByTurn turnEventID l =
     sort_key e_Sequence (filter (\<lambda>e. e_TurnEventID e = Some turnEventID) (lg_Events l))"

definition stampProcessed :: "time \<Rightarrow> Event \<Rightarrow> Event" where
  "stampProcessed now e =
     e\<lparr>e_ProcessedAt := (case e_ProcessedAt e of None \<Rightarrow> Some now | Some t \<Rightarrow> Some t)\<rparr>"

definition MarkEventProcessed :: "time \<Rightarrow> string \<Rightarrow> ledger \<Rightarrow> ledger" where
  "MarkEventProcessed now i l =
     l\<lparr>lg_Events := updateWhere (\<lambda>e. e_ID e = i) (stampProcessed now) (lg_Events l)\<rparr>"

definition FirstUnprocessedThreadInterruptAfter :: "string \<Rightarrow> int \<Rightarrow> ledger \<Rightarrow> Event option" where
  "FirstUnprocessedThreadInterruptAfter threadID afterSeq l =
     (case sort_key e_Sequence (filter (\<lambda>e. e_ThreadID e = threadID \<and> afterSeq < e_Sequence e
         \<and> e_Type e = EvUserInterrupt \<and> e_ProcessedAt e = None) (lg_Events l)) of
        [] \<Rightarrow> None | e # _ \<Rightarrow> Some e)"

definition FirstUnprocessedInterruptAfter :: "int \<Rightarrow> ledger \<Rightarrow> Event option" where
  "FirstUnprocessedInterruptAfter afterSeq l =
     (case GetPrimarySessionThreadID l of
        Inl _ \<Rightarrow> None
      | Inr threadID \<Rightarrow> FirstUnprocessedThreadInterruptAfter threadID afterSeq l)"

definition queuedMessage :: "string \<Rightarrow> Event \<Rightarrow> bool" where
  "queuedMessage threadID e \<longleftrightarrow> e_ThreadID e = threadID
     \<and> e_Type e \<in> {EvUserMessage, EvAgentThreadMessageReceived} \<and> e_ProcessedAt e = None"

definition CountUnprocessedUserMessages :: "string \<Rightarrow> ledger \<Rightarrow> nat" where
  "CountUnprocessedUserMessages excludeID l =
     (case GetPrimarySessionThreadID l of
        Inl _ \<Rightarrow> 0
      | Inr threadID \<Rightarrow> affected (\<lambda>e. queuedMessage threadID e \<and> e_ID e \<noteq> excludeID) (lg_Events l))"

definition queuedThreadMessage :: "string \<Rightarrow> Event \<Rightarrow> bool" where
  "queuedThreadMessage threadID e \<longleftrightarrow> e_ThreadID e = threadID
     \<and> e_Type e = EvAgentThreadMessageReceived \<and> e_ProcessedAt e = None"

definition CountUnprocessedThreadMessages :: "string \<Rightarrow> string \<Rightarrow> ledger \<Rightarrow> nat" where
  "CountUnprocessedThreadMessages threadID excludeID l =
     affected (\<lambda>e. queuedThreadMessage threadID e \<and> e_ID e \<noteq> excludeID) (lg_Events l)"

definition FlushQueuedUserMessages :: "time \<Rightarrow> string \<Rightarrow> ledger \<Rightarrow> ledger" where
  "FlushQueuedUserMessages now excludeID l =
     (case GetPrimarySessionThreadID l of
        Inl _ \<Rightarrow> l
      | Inr threadID \<Rightarrow>
          (let queued = filter (\<lambda>e. queuedMessage threadID e \<and> e_ID e \<noteq> excludeID) (lg_Events l);
               companions = List.map_filter (\<lambda>e. asStr (jget (e_Payload e) InternalCompanionSystemEventID)) queued
           in l\<lparr>lg_Events := updateWhere (\<lambda>e. e_ID e \<in> set (map e_ID queued @ companions)) (stampProcessed now)
                  (lg_Events l)\<rparr>))"

definition FlushQueuedThreadMessages :: "time \<Rightarrow> string \<Rightarrow> string \<Rightarrow> ledger \<Rightarrow> ledger" where
  "FlushQueuedThreadMessages now threadID excludeID l =
     l\<lparr>lg_Events := updateWhere (\<lambda>e. queuedThreadMessage threadID e \<and> e_ID e \<noteq> excludeID) (stampProcessed now)
        (lg_Events l)\<rparr>"

text \<open>
  Appending a batch to one Thread's ledger under Session-wide sequence numbers. The returned events
  carry the payloads in process, the rows their JSON encoding.
\<close>

definition newEvent :: "runtime \<Rightarrow> string \<Rightarrow> string \<Rightarrow> string \<Rightarrow> int \<Rightarrow> string option \<Rightarrow> EventDraft \<Rightarrow> Event" where
  "newEvent r sessionID threadID i seq turn d =
     \<lparr>e_ID = i, e_SessionID = sessionID, e_ThreadID = threadID, e_Sequence = seq, e_Type = d_Type d,
      e_Payload = d_Payload d, e_TurnEventID = turn, e_CreatedAt = rt_Now r,
      e_ProcessedAt = (if ProcessedOnReceipt (d_Type d) then Some (rt_Now r) else None)\<rparr>"

fun appendThreadDrafts ::
    "runtime \<Rightarrow> string \<Rightarrow> EventDraft list \<Rightarrow> int \<Rightarrow> string option \<Rightarrow> ledger \<Rightarrow>
     storeError + Event list \<times> int \<times> ledger" where
  "appendThreadDrafts r threadID [] seq turn l = Inr ([], seq, l)"
| "appendThreadDrafts r threadID (d # ds) seq turn l =
     (let (i, l1) = (if d_ID d = [] then NewID r PrefixEvent l else (d_ID d, l));
          e = newEvent r (s_ID (lg_Session l)) threadID i (seq + 1) turn d
      in case rt_Recode r (d_Payload d) of
           None \<Rightarrow> Inl NotEncodable
         | Some stored \<Rightarrow>
             bindE (InsertEvent (e\<lparr>e_Payload := stored\<rparr>) l1) (\<lambda>l2.
             bindE (appendThreadDrafts r threadID ds (seq + 1) turn l2) (\<lambda>(es, n, l3).
               Inr (e # es, n, l3))))"

definition appendDrafts ::
    "runtime \<Rightarrow> EventDraft list \<Rightarrow> int \<Rightarrow> string option \<Rightarrow> ledger \<Rightarrow>
     storeError + Event list \<times> int \<times> ledger" where
  "appendDrafts r ds seq turn l =
     bindE (GetPrimarySessionThreadID l) (\<lambda>threadID. appendThreadDrafts r threadID ds seq turn l)"

section \<open>Pending actions (internal/pg/pending.go and its queries)\<close>

definition unresolved :: "string \<Rightarrow> PendingAction \<Rightarrow> bool" where
  "unresolved threadID p \<longleftrightarrow> pa_ThreadID p = threadID \<and> pa_ResolvedAt p = None"

definition GetPendingActionForUpdate :: "string \<Rightarrow> ledger \<Rightarrow> PendingAction option" where
  "GetPendingActionForUpdate referencedEventID l =
     find (\<lambda>p. pa_ActionEventID p = referencedEventID \<or> pa_ClientActionEventID p = referencedEventID) (lg_Pending l)"

definition HasUnresolvedPendingActions :: "string \<Rightarrow> ledger \<Rightarrow> bool" where
  "HasUnresolvedPendingActions threadID l \<longleftrightarrow> list_ex (unresolved threadID) (lg_Pending l)"

definition HasUnclaimedPendingActions :: "string \<Rightarrow> ledger \<Rightarrow> bool" where
  "HasUnclaimedPendingActions threadID l \<longleftrightarrow>
     list_ex (\<lambda>p. unresolved threadID p \<and> pa_ResolvingEventID p = None) (lg_Pending l)"

definition IsUnresolvedPendingResolution :: "string \<Rightarrow> string \<Rightarrow> ledger \<Rightarrow> bool" where
  "IsUnresolvedPendingResolution threadID eventID l \<longleftrightarrow>
     list_ex (\<lambda>p. unresolved threadID p \<and> pa_ResolvingEventID p = Some eventID) (lg_Pending l)"

definition ListUnresolvedPendingActions :: "string \<Rightarrow> ledger \<Rightarrow> PendingAction list" where
  "ListUnresolvedPendingActions threadID l =
     sort_key (\<lambda>p. QueueKey (pa_CreatedAt p) (pa_ID p)) (filter (unresolved threadID) (lg_Pending l))"

definition SessionPendingClientActionEventIDs :: "ledger \<Rightarrow> string list" where
  "SessionPendingClientActionEventIDs l =
     map pa_ClientActionEventID (sort_key (\<lambda>p. QueueKey (pa_CreatedAt p) (pa_ID p))
       (filter (\<lambda>p. pa_ResolvedAt p = None) (lg_Pending l)))"

definition InsertPendingAction :: "PendingAction \<Rightarrow> ledger \<Rightarrow> storeError + ledger" where
  "InsertPendingAction p l =
     (if pa_ID p \<in> set (map pa_ID (lg_Pending l)) \<or> pa_ActionEventID p \<in> set (map pa_ActionEventID (lg_Pending l))
         \<or> pa_ClientActionEventID p \<in> set (map pa_ClientActionEventID (lg_Pending l))
         \<or> \<not> {pa_ActionEventID p, pa_ClientActionEventID p} \<subseteq> set (map e_ID (lg_Events l))
         \<or> pa_ThreadID p \<notin> set (map (t_ID \<circ> snd) (lg_Threads l))
      then Inl ConstraintViolation else Inr (l\<lparr>lg_Pending := lg_Pending l @ [p]\<rparr>))"

definition ClaimPendingAction :: "string \<Rightarrow> string \<Rightarrow> ledger \<Rightarrow> storeError + nat \<times> ledger" where
  "ClaimPendingAction resolvingEventID i l =
     (let claimable = (\<lambda>p. pa_ID p = i \<and> pa_ResolvingEventID p = None \<and> pa_ResolvedAt p = None)
      in if list_ex claimable (lg_Pending l) \<and> Some resolvingEventID \<in> set (map pa_ResolvingEventID (lg_Pending l))
         then Inl ConstraintViolation
         else Inr (affected claimable (lg_Pending l),
                   l\<lparr>lg_Pending := updateWhere claimable (\<lambda>p. p\<lparr>pa_ResolvingEventID := Some resolvingEventID\<rparr>)
                       (lg_Pending l)\<rparr>))"

definition resolveWhere :: "time \<Rightarrow> (PendingAction \<Rightarrow> bool) \<Rightarrow> ledger \<Rightarrow> nat \<times> ledger" where
  "resolveWhere now p l =
     (affected p (lg_Pending l), l\<lparr>lg_Pending := updateWhere p (\<lambda>x. x\<lparr>pa_ResolvedAt := Some now\<rparr>) (lg_Pending l)\<rparr>)"

definition ResolvePendingActionsForTrigger :: "time \<Rightarrow> string \<Rightarrow> ledger \<Rightarrow> nat \<times> ledger" where
  "ResolvePendingActionsForTrigger now eventID =
     resolveWhere now (\<lambda>p. pa_ResolvingEventID p = Some eventID \<and> pa_ResolvedAt p = None)"

definition ResolvePendingActionsForEvents :: "time \<Rightarrow> string \<Rightarrow> string list \<Rightarrow> ledger \<Rightarrow> nat \<times> ledger" where
  "ResolvePendingActionsForEvents now threadID eventIDs =
     resolveWhere now (\<lambda>p. unresolved threadID p \<and> pa_ResolvingEventID p \<in> Some ` set eventIDs)"

end
