(* ===== verification/Barrier.thy ===== *)
theory Barrier
  imports Ledger
begin

text \<open>
  The requires-action barrier of a Thread (\<open>internal/pg/pending.go\<close>): how client drafts are routed to the
  Thread whose action they answer, which completions may park, how admitted resolutions claim their
  actions, and how a resumed turn closes the whole barrier.
\<close>

section \<open>Routing client drafts\<close>

record routedClientDraft =
  rd_Draft :: EventDraft
  rd_ThreadID :: string
  rd_Submitted :: bool

record interruptWakeTargets =
  iw_Primary :: bool
  iw_Children :: "string list"

record routing =
  ro_Routed :: "routedClientDraft list"
  ro_ResolutionThreads :: "string list"
  ro_Targets :: interruptWakeTargets
  ro_CompanionThreadID :: string
  ro_CompanionEventID :: string

definition noRouting :: routing where
  "noRouting = \<lparr>ro_Routed = [], ro_ResolutionThreads = [],
     ro_Targets = \<lparr>iw_Primary = False, iw_Children = []\<rparr>, ro_CompanionThreadID = [], ro_CompanionEventID = []\<rparr>"

definition addTarget :: "SessionThread \<Rightarrow> interruptWakeTargets \<Rightarrow> interruptWakeTargets" where
  "addTarget t w =
     (if t_ParentThreadID t = None then w\<lparr>iw_Primary := True\<rparr> else w\<lparr>iw_Children := t_ID t # iw_Children w\<rparr>)"

text \<open>The Thread that a resolution answers, with the Thread hint filled in.\<close>

definition routeResolution ::
    "ledger \<Rightarrow> string \<Rightarrow> EventDraft \<Rightarrow> string \<Rightarrow> PendingActionKind \<Rightarrow> storeError + string \<times> EventDraft" where
  "routeResolution l primaryThreadID d referencedID kind =
     (case GetPendingActionForUpdate referencedID l of
        None \<Rightarrow> Inl (Refused (Validation ''resolution references unknown pending action''))
      | Some row \<Rightarrow>
          (let hinted = strOf (jget (d_Payload d) ''session_thread_id'')
           in if pa_Kind row \<noteq> kind
              then Inl (Refused (Validation ''resolution kind does not match the pending action''))
              else if hinted \<noteq> [] \<and> hinted \<noteq> pa_ThreadID row
              then Inl (Refused (Validation ''session_thread_id does not match the pending action''))
              else Inr (pa_ThreadID row,
                d\<lparr>d_Payload := (if pa_ThreadID row \<noteq> primaryThreadID
                    then aput ''session_thread_id'' (JStr (pa_ThreadID row)) (d_Payload d)
                    else d_Payload d)\<rparr>)))"

text \<open>The Threads that an interrupt reaches: the named one, or the primary and every live child.\<close>

definition routeInterrupt ::
    "ledger \<Rightarrow> string \<Rightarrow> EventDraft \<Rightarrow> interruptWakeTargets \<Rightarrow>
     storeError + string \<times> interruptWakeTargets \<times> routedClientDraft list" where
  "routeInterrupt l target d w =
     (case jget (d_Payload d) ''session_thread_id'' of
        Some hinted \<Rightarrow>
          if strOf (Some hinted) = []
          then Inl (Refused (Validation ''session_thread_id must name a Session Thread''))
          else (case loadSessionThreadForUpdate (strOf (Some hinted)) l of
              Inl _ \<Rightarrow> Inl (Refused (Validation
                ''session_thread_id does not name a Session Thread in this Session''))
            | Inr t \<Rightarrow>
                if t_ArchivedAt t \<noteq> None \<or> t_Status t = StatusTerminated
                then Inl (Refused (Conflict ''cannot interrupt an archived or terminated Session Thread''))
                else Inr (t_ID t, addTarget t w, []))
      | None \<Rightarrow>
          Inr (target, w\<lparr>iw_Primary := True, iw_Children := activeChildIDs l @ iw_Children w\<rparr>,
               map (\<lambda>i. \<lparr>rd_Draft = d\<lparr>d_ID := []\<rparr>, rd_ThreadID = i, rd_Submitted = False\<rparr>)
                 (activeChildIDs l)))"

definition routeClientDraft :: "ledger \<Rightarrow> string \<Rightarrow> EventDraft \<Rightarrow> routing \<Rightarrow> storeError + routing" where
  "routeClientDraft l primaryThreadID d ro =
     (let target = (if d_Type d = EvSystemMessage \<and> d_ID d \<noteq> [] \<and> d_ID d = ro_CompanionEventID ro
                    then ro_CompanionThreadID ro else primaryThreadID)
      in bindE (case ResolutionReference (d_Type d) (d_Payload d) of
             None \<Rightarrow> Inr (target, d, ro_ResolutionThreads ro)
           | Some (referencedID, kind) \<Rightarrow>
               bindE (routeResolution l primaryThreadID d referencedID kind) (\<lambda>(t, d').
                 Inr (t, d', t # ro_ResolutionThreads ro)))
           (\<lambda>(target1, d1, resolutionThreads).
         bindE (if d_Type d1 = EvUserInterrupt then routeInterrupt l target1 d1 (ro_Targets ro)
                else Inr (target1, ro_Targets ro, []))
           (\<lambda>(target2, targets, copies).
         (let companion = strOf (jget (d_Payload d1) InternalCompanionSystemEventID)
          in Inr \<lparr>ro_Routed = ro_Routed ro
                     @ \<lparr>rd_Draft = d1, rd_ThreadID = target2, rd_Submitted = True\<rparr> # copies,
                   ro_ResolutionThreads = resolutionThreads, ro_Targets = targets,
                   ro_CompanionThreadID = (if companion \<noteq> [] then target2 else ro_CompanionThreadID ro),
                   ro_CompanionEventID = (if companion \<noteq> [] then companion else ro_CompanionEventID ro)\<rparr>))))"

fun routeClientDraftsLocked :: "ledger \<Rightarrow> string \<Rightarrow> EventDraft list \<Rightarrow> routing \<Rightarrow> storeError + routing" where
  "routeClientDraftsLocked l primaryThreadID [] ro = Inr ro"
| "routeClientDraftsLocked l primaryThreadID (d # ds) ro =
     bindE (routeClientDraft l primaryThreadID d ro) (routeClientDraftsLocked l primaryThreadID ds)"

section \<open>Parking\<close>

definition isIdle :: "string \<Rightarrow> bool" where
  "isIdle t \<longleftrightarrow> t = EvSessionStatusIdle \<or> t = EvSessionThreadStatusIdle"

definition stopReason :: "payload \<Rightarrow> payload" where
  "stopReason p = objOf (jget p ''stop_reason'')"

definition requiresAction :: "payload \<Rightarrow> bool" where
  "requiresAction p \<longleftrightarrow> jget (stopReason p) ''type'' = Some (JStr ''requires_action'')"

text \<open>\<open>append([]string(nil), xs...)\<close> is nil for an empty \<open>xs\<close>.\<close>

fun stringList :: "jval option \<Rightarrow> string slice option" where
  "stringList (Some (JStrs xs)) = Some (if xs = [] then None else Some xs)"
| "stringList (Some (JArr vs)) =
     (if list_all (\<lambda>v. strOf (Some v) \<noteq> []) vs then Some (Some (map (\<lambda>v. strOf (Some v)) vs)) else None)"
| "stringList _ = None"

fun requiredIDs :: "EventDraft list \<Rightarrow> storeError + string slice" where
  "requiredIDs [] = Inr None"
| "requiredIDs (d # ds) =
     (if \<not> isIdle (d_Type d) \<or> \<not> requiresAction (d_Payload d) then requiredIDs ds
      else (case stringList (jget (stopReason (d_Payload d)) ''event_ids'') of
          None \<Rightarrow> Inl (Refused (Validation ''requires_action event_ids must be a string array''))
        | Some xs \<Rightarrow> Inr xs))"

text \<open>A set built id by id, refusing an empty or repeated one.\<close>

fun distinctIDs :: "string \<Rightarrow> string \<Rightarrow> string list \<Rightarrow> string list \<Rightarrow> storeError + string list" where
  "distinctIDs emptyMsg dupMsg seen [] = Inr seen"
| "distinctIDs emptyMsg dupMsg seen (i # is) =
     (if i = [] then Inl (Refused (Validation emptyMsg))
      else if i \<in> set seen then Inl (Refused (Validation dupMsg))
      else distinctIDs emptyMsg dupMsg (seen @ [i]) is)"

fun matchIDs :: "string list \<Rightarrow> string list \<Rightarrow> string list \<Rightarrow> storeError + unit" where
  "matchIDs expected seen [] = Inr ()"
| "matchIDs expected seen (i # is) =
     (if i \<in> set seen then Inl (Refused (Validation ''requires_action contains a duplicate event id''))
      else if i \<notin> set expected
      then Inl (Refused (Validation ''requires_action event_ids must match pending action ids''))
      else matchIDs expected (i # seen) is)"

definition validatePendingCompletion :: "Status \<Rightarrow> EventDraft list \<Rightarrow> string list \<Rightarrow> storeError + unit" where
  "validatePendingCompletion status drafts pendingActionEventIDs =
     (if pendingActionEventIDs = [] then Inr ()
      else if status \<noteq> StatusIdle then Inl (Refused (Validation ''a pending-action turn must complete idle''))
      else bindE (distinctIDs ''pending action event id is required'' ''duplicate pending action event id'' []
                    pendingActionEventIDs) (\<lambda>expected.
           bindE (requiredIDs drafts) (\<lambda>required. case required of
             None \<Rightarrow> Inl (Refused (Validation ''pending actions require a status_idle event with requires_action''))
           | Some ids \<Rightarrow>
               if length ids \<noteq> length expected
               then Inl (Refused (Validation ''requires_action event_ids must match pending action ids''))
               else matchIDs expected [] ids)))"

definition eventMap :: "Event list \<Rightarrow> string \<Rightarrow> Event option" where
  "eventMap events = map_of (rev (map (\<lambda>e. (e_ID e, e)) events))"

fun insertPendingActionsLocked ::
    "runtime \<Rightarrow> string \<Rightarrow> string list \<Rightarrow> Event list \<Rightarrow> (string \<times> string) list \<Rightarrow> ledger \<Rightarrow>
     storeError + ledger" where
  "insertPendingActionsLocked r threadID [] allowed clientIDs l = Inr l"
| "insertPendingActionsLocked r threadID (i # is) allowed clientIDs l =
     (case eventMap allowed i of
        None \<Rightarrow> Inl (Refused (Validation ''pending action must reference an action event committed by this turn''))
      | Some event \<Rightarrow> (case PendingActionKindForEvent (e_Type event) (e_Payload event) of
          None \<Rightarrow> Inl (Refused (Validation ''event cannot park a pending action''))
        | Some kind \<Rightarrow>
            (let client = (case map_of clientIDs i of None \<Rightarrow> i | Some c \<Rightarrow> if c = [] then i else c);
                 (newID, l1) = NewID r PrefixPendingAction l
             in bindE (InsertPendingAction \<lparr>pa_ID = newID, pa_SessionID = s_ID (lg_Session l), pa_ThreadID = threadID,
                    pa_ActionEventID = i, pa_ClientActionEventID = client, pa_Kind = kind,
                    pa_ResolvingEventID = None, pa_CreatedAt = rt_Now r, pa_ResolvedAt = None\<rparr> l1)
                  (insertPendingActionsLocked r threadID is allowed clientIDs))))"

section \<open>Claiming and resolving\<close>

definition claimResolution :: "Event \<Rightarrow> string \<Rightarrow> PendingActionKind \<Rightarrow> ledger \<Rightarrow> storeError + ledger" where
  "claimResolution event actionEventID kind l =
     (case GetPendingActionForUpdate actionEventID l of
        None \<Rightarrow> Inl (Refused (Validation ''resolution references unknown pending action''))
      | Some row \<Rightarrow>
          (let routed = strOf (jget (e_Payload event) ''session_thread_id'')
           in if pa_Kind row \<noteq> kind
              then Inl (Refused (Validation ''resolution kind does not match the pending action''))
              else if e_ThreadID event \<noteq> pa_ThreadID row
              then Inl (Refused (Validation ''resolution was routed to the wrong session Thread''))
              else if routed \<noteq> [] \<and> routed \<noteq> pa_ThreadID row
              then Inl (Refused (Validation ''session_thread_id does not match the pending action''))
              else if pa_ResolvedAt row \<noteq> None
              then Inl (Refused (Conflict ''pending action is already resolved''))
              else if pa_ResolvingEventID row \<noteq> None
              then Inl (Refused (Conflict ''pending action already has a pending resolution''))
              else bindE (ClaimPendingAction (e_ID event) (pa_ID row) l) (\<lambda>(n, l1).
                if n \<noteq> 1 then Inl (Refused (Conflict ''pending action already has a pending resolution''))
                else Inr l1)))"

fun claimPendingResolutionsLocked :: "Event list \<Rightarrow> ledger \<Rightarrow> storeError + bool \<times> ledger" where
  "claimPendingResolutionsLocked [] l = Inr (False, l)"
| "claimPendingResolutionsLocked (event # events) l =
     (case ResolutionReference (e_Type event) (e_Payload event) of
        None \<Rightarrow>
          if e_Type event \<in> {EvUserCustomToolResult, EvUserToolConfirmation, EvUserToolResult}
          then Inl (Refused (Validation ''resolution event is missing its action event id''))
          else claimPendingResolutionsLocked events l
      | Some (actionEventID, kind) \<Rightarrow>
          bindE (claimResolution event actionEventID kind l) (\<lambda>l1.
          bindE (claimPendingResolutionsLocked events l1) (\<lambda>(_, l2). Inr (True, l2))))"

fun checkClaimed :: "string list \<Rightarrow> PendingAction list \<Rightarrow> storeError + unit" where
  "checkClaimed expected [] = Inr ()"
| "checkClaimed expected (row # rows) =
     (case pa_ResolvingEventID row of
        None \<Rightarrow> Inl (Refused (Validation ''pending-action barrier is not fully claimed''))
      | Some i \<Rightarrow>
          if i \<notin> set expected
          then Inl (Refused (Validation ''resolution event ids must match the complete pending-action barrier''))
          else checkClaimed expected rows)"

definition resolvePendingBarrierLocked ::
    "time \<Rightarrow> string \<Rightarrow> string \<Rightarrow> string list \<Rightarrow> ledger \<Rightarrow> storeError + bool \<times> ledger" where
  "resolvePendingBarrierLocked now threadID triggerEventID resolutionEventIDs l =
     (if resolutionEventIDs = []
      then (let (n, l1) = ResolvePendingActionsForTrigger now triggerEventID l in Inr (0 < n, l1))
      else bindE (distinctIDs ''resolution event id is required'' ''duplicate resolution event id'' []
                    resolutionEventIDs) (\<lambda>expected.
        if triggerEventID \<notin> set expected
        then Inl (Refused (Validation ''resume trigger must be part of the resolution barrier''))
        else (let rows = ListUnresolvedPendingActions threadID l
              in if length rows \<noteq> length expected
                 then Inl (Refused (Validation ''resolution event ids must match the complete pending-action barrier''))
                 else bindE (checkClaimed expected rows) (\<lambda>_.
                   (let (n, l1) = ResolvePendingActionsForEvents now threadID resolutionEventIDs l
                    in if n \<noteq> length resolutionEventIDs
                       then Inl (Refused (Conflict ''pending-action barrier changed during completion''))
                       else Inr (True, l1))))))"

section \<open>Provider transcript (internal/pg/transcript.go)\<close>

definition appendProviderMessage :: "Message list \<Rightarrow> Message \<Rightarrow> Message list" where
  "appendProviderMessage base m =
     (if mg_Content m = [] then base
      else if base \<noteq> [] \<and> mg_Role (last base) = mg_Role m
      then butlast base @ [(last base)\<lparr>mg_Content := mg_Content (last base) @ mg_Content m,
             mg_ContextUsage := (case mg_ContextUsage m of None \<Rightarrow> mg_ContextUsage (last base) | Some a \<Rightarrow> Some a)\<rparr>]
      else base @ [m])"

definition appendProviderMessages :: "Message list \<Rightarrow> Message list \<Rightarrow> Message list" where
  "appendProviderMessages base added = foldl appendProviderMessage base added"

definition transcriptBlocks :: "Message list \<Rightarrow> ContentBlock list" where
  "transcriptBlocks messages = concat (map mg_Content messages)"

definition answeredUses :: "Message list \<Rightarrow> string list" where
  "answeredUses messages =
     map cb_ToolResultFor (filter (\<lambda>b. cb_Type b = ''tool_result'' \<and> cb_ToolResultFor b \<noteq> []) (transcriptBlocks messages))"

definition interruptedResult :: "string \<Rightarrow> ContentBlock" where
  "interruptedResult i = emptyBlock\<lparr>cb_Type := ''tool_result'', cb_ToolResultFor := i,
     cb_Text := ''Tool execution was interrupted before a result was committed.'', cb_IsError := True\<rparr>"

fun syntheticResults :: "string list \<Rightarrow> ContentBlock list \<Rightarrow> ContentBlock list" where
  "syntheticResults answered [] = []"
| "syntheticResults answered (b # bs) =
     (if cb_Type b \<noteq> ''tool_use'' \<or> cb_ToolUseID b = [] \<or> cb_ToolUseID b \<in> set answered
      then syntheticResults answered bs
      else interruptedResult (cb_ToolUseID b) # syntheticResults (cb_ToolUseID b # answered) bs)"

definition closeInterruptedProviderTranscript :: "Message list \<Rightarrow> Message list" where
  "closeInterruptedProviderTranscript messages =
     (let synthetic = syntheticResults (answeredUses messages) (transcriptBlocks messages)
      in if synthetic = [] then messages
         else appendProviderMessages messages
           [\<lparr>mg_Role = RoleUser, mg_Content = synthetic, mg_ContextUsage = None\<rparr>])"

definition retainCommittedProviderMappings ::
    "ProviderToolUseMapping list \<Rightarrow> EventDraft list \<Rightarrow> ProviderToolUseMapping list" where
  "retainCommittedProviderMappings mappings drafts =
     (let committed = map d_ID (filter (\<lambda>d. d_Type d \<in> {EvAgentToolUse, EvAgentCustomToolUse, EvAgentMcpToolUse}
            \<and> d_ID d \<noteq> []) drafts)
      in filter (\<lambda>m. pm_PublicEventID m \<in> set committed) mappings)"

section \<open>Identifier checks\<close>

lemma distinctIDs_ok:
  "distinctIDs e d seen ids = Inr r \<longleftrightarrow>
     r = seen @ ids \<and> distinct ids \<and> [] \<notin> set ids \<and> set seen \<inter> set ids = {}"
  by (induction e d seen ids rule: distinctIDs.induct) auto

lemma matchIDs_ok:
  "matchIDs expected seen ids = Inr () \<longleftrightarrow> distinct ids \<and> set ids \<subseteq> set expected \<and> set seen \<inter> set ids = {}"
  by (induction expected seen ids rule: matchIDs.induct) auto

lemma checkClaimed_ok:
  "checkClaimed expected rows = Inr () \<longleftrightarrow> list_all (\<lambda>p. pa_ResolvingEventID p \<in> Some ` set expected) rows"
  by (induction rows) (auto split: option.splits)

lemma same_finite_set: "distinct xs \<Longrightarrow> distinct ys \<Longrightarrow> length xs = length ys \<Longrightarrow> set xs \<subseteq> set ys \<Longrightarrow> set xs = set ys"
  by (intro card_subset_eq) (simp_all add: distinct_card)

section \<open>The barrier\<close>

text \<open>The uniqueness constraints of the table and the check that only claimed rows are resolved.\<close>

definition pendingOk :: "PendingAction list \<Rightarrow> bool" where
  "pendingOk ps \<longleftrightarrow> distinct (map pa_ID ps) \<and> distinct (map pa_ActionEventID ps)
     \<and> distinct (map pa_ClientActionEventID ps) \<and> distinct (List.map_filter pa_ResolvingEventID ps)
     \<and> list_all (\<lambda>p. pa_ResolvedAt p \<noteq> None \<longrightarrow> pa_ResolvingEventID p \<noteq> None) ps"

lemma map_filter_filter: "List.map_filter f (filter p xs) = map (the \<circ> f) (filter (\<lambda>x. p x \<and> f x \<noteq> None) xs)"
  by (induction xs) (auto simp: List.map_filter_simps split: option.splits)

lemma map_filter_alt: "List.map_filter f xs = map (the \<circ> f) (filter (\<lambda>x. f x \<noteq> None) xs)"
  using map_filter_filter [of f "\<lambda>_. True" xs] by simp

lemma distinct_resolving_filter:
  assumes "distinct (List.map_filter pa_ResolvingEventID ps)" "list_all (\<lambda>p. pa_ResolvingEventID p \<noteq> None) (filter q ps)"
  shows "distinct (map (the \<circ> pa_ResolvingEventID) (filter q ps))"
proof -
  have "filter q ps = filter q (filter (\<lambda>p. pa_ResolvingEventID p \<noteq> None) ps)"
    using assms(2) by (auto simp: list_all_iff intro!: filter_cong)
  then show ?thesis using assms(1) by (simp add: map_filter_alt distinct_map_filter del: filter_filter)
qed

lemma ListUnresolved_mset:
  "set (ListUnresolvedPendingActions t l) = set (filter (unresolved t) (lg_Pending l))"
  "length (ListUnresolvedPendingActions t l) = length (filter (unresolved t) (lg_Pending l))"
  by (simp_all add: ListUnresolvedPendingActions_def)

lemma resolveWhere_pending:
  "lg_Pending (snd (resolveWhere now p l)) = updateWhere p (\<lambda>x. x\<lparr>pa_ResolvedAt := Some now\<rparr>) (lg_Pending l)"
  by (simp add: resolveWhere_def)

lemma barrier_rows:
  assumes "resolvePendingBarrierLocked now t trigger ids l = Inr (b, l')" "ids \<noteq> []"
  shows "b" and "trigger \<in> set ids" "distinct ids" "[] \<notin> set ids"
    and "list_all (\<lambda>p. pa_ResolvingEventID p \<in> Some ` set ids) (filter (unresolved t) (lg_Pending l))"
    and "length (filter (unresolved t) (lg_Pending l)) = length ids"
    and "l' = snd (ResolvePendingActionsForEvents now t ids l)"
proof -
  let ?rows = "ListUnresolvedPendingActions t l"
  obtain expected where e: "distinctIDs ''resolution event id is required'' ''duplicate resolution event id'' [] ids = Inr expected"
    and rest: "(if trigger \<notin> set expected
        then Inl (Refused (Validation ''resume trigger must be part of the resolution barrier''))
        else if length ?rows \<noteq> length expected
        then Inl (Refused (Validation ''resolution event ids must match the complete pending-action barrier''))
        else bindE (checkClaimed expected ?rows) (\<lambda>_.
          if fst (ResolvePendingActionsForEvents now t ids l) \<noteq> length ids
          then Inl (Refused (Conflict ''pending-action barrier changed during completion''))
          else Inr (True, snd (ResolvePendingActionsForEvents now t ids l)))) = Inr (b, l')"
    using assms unfolding resolvePendingBarrierLocked_def Let_def case_prod_beta by (auto simp: bindE_Inr_iff)
  from e have ids: "expected = ids" "distinct ids" "[] \<notin> set ids" by (simp_all add: distinctIDs_ok)
  from rest have t: "trigger \<in> set ids" "length ?rows = length ids"
    and c: "checkClaimed ids ?rows = Inr ()" and f: "b = True \<and> l' = snd (ResolvePendingActionsForEvents now t ids l)"
    unfolding ids(1) by (auto simp: bindE_Inr_iff simp del: checkClaimed.simps split: if_splits)
  show b "l' = snd (ResolvePendingActionsForEvents now t ids l)" using f by simp_all
  show "trigger \<in> set ids" "distinct ids" "[] \<notin> set ids" by fact+
  show "length (filter (unresolved t) (lg_Pending l)) = length ids" using t(2) by (simp add: ListUnresolved_mset)
  show "list_all (\<lambda>p. pa_ResolvingEventID p \<in> Some ` set ids) (filter (unresolved t) (lg_Pending l))"
    using c unfolding checkClaimed_ok list_all_iff ListUnresolved_mset(1) .
qed

lemma filter_updateWhere_other:
  "(\<And>x. q x \<Longrightarrow> \<not> p x \<and> \<not> p (f x)) \<Longrightarrow> filter p (updateWhere q f xs) = filter p xs"
  by (induction xs) auto

lemma map_filter_updateWhere:
  "(\<And>x. g (f x) = g x) \<Longrightarrow> List.map_filter g (updateWhere q f xs) = List.map_filter g xs"
  by (induction xs) (auto simp: List.map_filter_simps split: option.splits)

lemma list_ex_updateWhere: "(\<And>x. p x \<Longrightarrow> \<not> p (f x)) \<Longrightarrow> \<not> list_ex p (updateWhere p f xs)"
  by (induction xs) auto

lemma barrier_clears:
  assumes "resolvePendingBarrierLocked now t trigger ids l = Inr (b, l')" "ids \<noteq> []"
  shows "\<not> HasUnresolvedPendingActions t l'"
    and "lg_Pending l' = updateWhere (unresolved t) (\<lambda>x. x\<lparr>pa_ResolvedAt := Some now\<rparr>) (lg_Pending l)"
proof -
  note r = barrier_rows [OF assms]
  show eq: "lg_Pending l' = updateWhere (unresolved t) (\<lambda>x. x\<lparr>pa_ResolvedAt := Some now\<rparr>) (lg_Pending l)"
    unfolding r(7) ResolvePendingActionsForEvents_def resolveWhere_pending
  proof (rule updateWhere_cong)
    fix p assume "p \<in> set (lg_Pending l)"
    with r(5) have "unresolved t p \<Longrightarrow> pa_ResolvingEventID p \<in> Some ` set ids" by (simp add: list_all_iff)
    then show "(unresolved t p \<and> pa_ResolvingEventID p \<in> Some ` set ids) = unresolved t p" by blast
  qed
  show "\<not> HasUnresolvedPendingActions t l'"
    unfolding HasUnresolvedPendingActions_def eq by (rule list_ex_updateWhere) (simp add: unresolved_def)
qed

lemma updateWhere_pending_map:
  "(\<And>p. g (f p) = g p) \<Longrightarrow> map g (updateWhere q f (ps :: PendingAction list)) = map g ps"
  by (rule map_updateWhere_inv)

section \<open>Claims\<close>

lemma claimResolution_row:
  assumes "claimResolution e i k l = Inr l'"
  obtains row where "GetPendingActionForUpdate i l = Some row" "pa_Kind row = k" "pa_ThreadID row = e_ThreadID e"
    "pa_ResolvedAt row = None" "pa_ResolvingEventID row = None"
    "Some (e_ID e) \<notin> set (map pa_ResolvingEventID (lg_Pending l))"
    "l' = l\<lparr>lg_Pending := updateWhere (\<lambda>p. pa_ID p = pa_ID row \<and> pa_ResolvingEventID p = None \<and> pa_ResolvedAt p = None)
       (\<lambda>p. p\<lparr>pa_ResolvingEventID := Some (e_ID e)\<rparr>) (lg_Pending l)\<rparr>"
proof -
  from assms obtain row where row: "GetPendingActionForUpdate i l = Some row"
    by (auto simp: claimResolution_def split: option.splits)
  then have mem: "row \<in> set (lg_Pending l)"
    unfolding GetPendingActionForUpdate_def by (blast dest: find_in_set)
  from assms row have c: "pa_Kind row = k" "pa_ThreadID row = e_ThreadID e" "pa_ResolvedAt row = None"
    "pa_ResolvingEventID row = None" and "\<exists>n. ClaimPendingAction (e_ID e) (pa_ID row) l = Inr (n, l')"
    unfolding claimResolution_def Let_def by (auto simp: bindE_Inr_iff split: if_splits)
  then obtain n where n: "ClaimPendingAction (e_ID e) (pa_ID row) l = Inr (n, l')" by blast
  have ex: "list_ex (\<lambda>p. pa_ID p = pa_ID row \<and> pa_ResolvingEventID p = None \<and> pa_ResolvedAt p = None) (lg_Pending l)"
    using mem c(3,4) by (auto simp: list_ex_iff)
  from n show thesis
    using that [OF row c] ex unfolding ClaimPendingAction_def Let_def by (auto split: if_splits)
qed

lemma find_map_same:
  "(\<And>x. x \<in> set xs \<Longrightarrow> q (f x) = q x) \<Longrightarrow> find q (map f xs) = map_option f (find q xs)"
  by (induction xs) auto

definition claimedBy :: "string \<Rightarrow> PendingAction \<Rightarrow> PendingAction" where
  "claimedBy i p = p\<lparr>pa_ResolvingEventID := Some i\<rparr>"

lemma claimedBy_simps [simp]:
  "pa_ID (claimedBy i p) = pa_ID p" "pa_ActionEventID (claimedBy i p) = pa_ActionEventID p"
  "pa_ClientActionEventID (claimedBy i p) = pa_ClientActionEventID p" "pa_ResolvingEventID (claimedBy i p) = Some i"
  "pa_ResolvedAt (claimedBy i p) = pa_ResolvedAt p" "pa_ThreadID (claimedBy i p) = pa_ThreadID p"
  "pa_Kind (claimedBy i p) = pa_Kind p"
  by (simp_all add: claimedBy_def)

text \<open>With one row per identifier a claim changes exactly the row it looked up.\<close>

lemma claim_changes_row:
  assumes "claimResolution e i k l = Inr l'" "distinct (map pa_ID (lg_Pending l))"
  obtains xs row ys where "lg_Pending l = xs @ row # ys" "lg_Pending l' = xs @ claimedBy (e_ID e) row # ys"
    "GetPendingActionForUpdate i l = Some row" "pa_Kind row = k" "pa_ThreadID row = e_ThreadID e"
    "pa_ResolvedAt row = None" "pa_ResolvingEventID row = None"
    "Some (e_ID e) \<notin> set (map pa_ResolvingEventID (lg_Pending l))" "lg_Events l' = lg_Events l"
    "l' = l\<lparr>lg_Pending := xs @ claimedBy (e_ID e) row # ys\<rparr>"
proof -
  from assms(1) obtain row where r: "GetPendingActionForUpdate i l = Some row" "pa_Kind row = k"
      "pa_ThreadID row = e_ThreadID e" "pa_ResolvedAt row = None" "pa_ResolvingEventID row = None"
      "Some (e_ID e) \<notin> set (map pa_ResolvingEventID (lg_Pending l))"
    and l': "l' = l\<lparr>lg_Pending := updateWhere (\<lambda>p. pa_ID p = pa_ID row \<and> pa_ResolvingEventID p = None \<and> pa_ResolvedAt p = None)
       (\<lambda>p. p\<lparr>pa_ResolvingEventID := Some (e_ID e)\<rparr>) (lg_Pending l)\<rparr>"
    by (rule claimResolution_row)
  have "row \<in> set (lg_Pending l)" using r(1) unfolding GetPendingActionForUpdate_def by (blast dest: find_in_set)
  then obtain xs ys where s: "lg_Pending l = xs @ row # ys" by (auto dest: split_list)
  have other: "p \<in> set (xs @ ys) \<Longrightarrow> pa_ID p \<noteq> pa_ID row" for p
    using assms(2) unfolding s by (auto simp: image_iff)
  then have "updateWhere (\<lambda>p. pa_ID p = pa_ID row \<and> pa_ResolvingEventID p = None \<and> pa_ResolvedAt p = None)
       (\<lambda>p. p\<lparr>pa_ResolvingEventID := Some (e_ID e)\<rparr>) (lg_Pending l) = xs @ claimedBy (e_ID e) row # ys"
    unfolding s updateWhere_map using r(4,5) by (auto simp: claimedBy_def intro!: map_idI)
  with l' have "lg_Pending l' = xs @ claimedBy (e_ID e) row # ys" "lg_Events l' = lg_Events l"
    "l' = l\<lparr>lg_Pending := xs @ claimedBy (e_ID e) row # ys\<rparr>" by simp_all
  with s r show thesis by (intro that)
qed

lemma map_filter_append: "List.map_filter f (xs @ ys) = List.map_filter f xs @ List.map_filter f ys"
  by (simp add: map_filter_alt)

lemma set_map_filter: "set (List.map_filter f xs) = {y. \<exists>x \<in> set xs. f x = Some y}"
  by (induction xs) (auto simp: List.map_filter_simps split: option.splits)

lemma claim_pendingOk:
  assumes "claimResolution e i k l = Inr l'" "pendingOk (lg_Pending l)"
  shows "pendingOk (lg_Pending l')"
proof -
  have d: "distinct (map pa_ID (lg_Pending l))" using assms(2) by (simp add: pendingOk_def)
  obtain xs row ys where s: "lg_Pending l = xs @ row # ys" "lg_Pending l' = xs @ claimedBy (e_ID e) row # ys"
    and r: "pa_ResolvedAt row = None" "pa_ResolvingEventID row = None"
      "Some (e_ID e) \<notin> set (map pa_ResolvingEventID (lg_Pending l))"
    by (rule claim_changes_row [OF assms(1) d])
  have "e_ID e \<notin> set (List.map_filter pa_ResolvingEventID (xs @ ys))"
    using r(3) unfolding s set_map_filter by (auto simp: image_iff)
  then show ?thesis
    using assms(2) r(1,2) unfolding pendingOk_def s
    by (auto simp: map_filter_append List.map_filter_simps)
qed

lemma claim_lookup:
  assumes "claimResolution e i k l = Inr l'" "distinct (map pa_ID (lg_Pending l))"
    and "GetPendingActionForUpdate j l' = Some p" "pa_ResolvingEventID p = None"
  shows "GetPendingActionForUpdate j l = Some p"
proof -
  obtain xs row ys where s: "lg_Pending l = xs @ row # ys" "lg_Pending l' = xs @ claimedBy (e_ID e) row # ys"
    by (rule claim_changes_row [OF assms(1,2)])
  from assms(3,4) show ?thesis
    unfolding GetPendingActionForUpdate_def s find_append by (auto split: option.splits if_splits)
qed

lemma claims_ok:
  "claimPendingResolutionsLocked events l = Inr (b, l') \<Longrightarrow> pendingOk (lg_Pending l) \<Longrightarrow>
     pendingOk (lg_Pending l') \<and> l' = l\<lparr>lg_Pending := lg_Pending l'\<rparr>
     \<and> map pa_ID (lg_Pending l') = map pa_ID (lg_Pending l)
     \<and> (\<forall>p \<in> set (lg_Pending l). pa_ResolvingEventID p \<noteq> None \<longrightarrow> p \<in> set (lg_Pending l'))
     \<and> b = list_ex (\<lambda>e. ResolutionReference (e_Type e) (e_Payload e) \<noteq> None) events"
proof (induction events l arbitrary: b l' rule: claimPendingResolutionsLocked.induct)
  case (2 event events l)
  show ?case
  proof (cases "ResolutionReference (e_Type event) (e_Payload event)")
    case None
    then show ?thesis using 2 by (auto split: if_splits)
  next
    case (Some ref)
    obtain i k where ref: "ref = (i, k)" by fastforce
    from 2(3) Some ref obtain l1 b1 where l1: "claimResolution event i k l = Inr l1"
      and l2: "claimPendingResolutionsLocked events l1 = Inr (b1, l')" and b: "b = True"
      by (auto simp: bindE_Inr_iff)
    have ok: "pendingOk (lg_Pending l1)" using claim_pendingOk [OF l1 2(4)] .
    have ih: "pendingOk (lg_Pending l') \<and> l' = l1\<lparr>lg_Pending := lg_Pending l'\<rparr>
     \<and> map pa_ID (lg_Pending l') = map pa_ID (lg_Pending l1)
     \<and> (\<forall>p \<in> set (lg_Pending l1). pa_ResolvingEventID p \<noteq> None \<longrightarrow> p \<in> set (lg_Pending l'))"
      using 2(2) [OF Some ref [symmetric] l2 ok] by blast
    have d: "distinct (map pa_ID (lg_Pending l))" using 2(4) by (simp add: pendingOk_def)
    obtain xs row ys where s: "lg_Pending l = xs @ row # ys" "lg_Pending l1 = xs @ claimedBy (e_ID event) row # ys"
      "pa_ResolvingEventID row = None" "l1 = l\<lparr>lg_Pending := xs @ claimedBy (e_ID event) row # ys\<rparr>"
      by (rule claim_changes_row [OF l1 d])
    from ih have "l' = l\<lparr>lg_Pending := lg_Pending l'\<rparr>" unfolding s(4) by simp
    moreover have "map pa_ID (lg_Pending l') = map pa_ID (lg_Pending l)" using ih by (simp add: s(1,2))
    moreover have "\<forall>p \<in> set (lg_Pending l). pa_ResolvingEventID p \<noteq> None \<longrightarrow> p \<in> set (lg_Pending l')"
      using ih s(1,2,3) by auto
    ultimately show ?thesis using ih b Some by simp
  qed
qed simp

lemma claims_answer:
  "claimPendingResolutionsLocked events l = Inr (b, l') \<Longrightarrow> pendingOk (lg_Pending l) \<Longrightarrow> e \<in> set events \<Longrightarrow>
     ResolutionReference (e_Type e) (e_Payload e) = Some (i, k) \<Longrightarrow>
     \<exists>p. GetPendingActionForUpdate i l = Some p \<and> pa_Kind p = k \<and> pa_ThreadID p = e_ThreadID e
       \<and> pa_ResolvingEventID p = None \<and> pa_ResolvedAt p = None \<and> claimedBy (e_ID e) p \<in> set (lg_Pending l')"
proof (induction events l arbitrary: b l' rule: claimPendingResolutionsLocked.induct)
  case (2 event events l)
  show ?case
  proof (cases "ResolutionReference (e_Type event) (e_Payload event)")
    case None
    then show ?thesis using 2 by (auto split: if_splits)
  next
    case (Some ref)
    obtain j m where ref: "ref = (j, m)" by fastforce
    from 2(3) Some ref obtain l1 b1 where l1: "claimResolution event j m l = Inr l1"
      and l2: "claimPendingResolutionsLocked events l1 = Inr (b1, l')"
      by (auto simp: bindE_Inr_iff)
    have ok: "pendingOk (lg_Pending l1)" using claim_pendingOk [OF l1 2(4)] .
    have d: "distinct (map pa_ID (lg_Pending l))" using 2(4) by (simp add: pendingOk_def)
    show ?thesis
    proof (cases "e = event")
      case True
      obtain xs row ys where s: "lg_Pending l1 = xs @ claimedBy (e_ID event) row # ys"
        "GetPendingActionForUpdate j l = Some row" "pa_Kind row = m" "pa_ThreadID row = e_ThreadID event"
        "pa_ResolvedAt row = None" "pa_ResolvingEventID row = None"
        by (rule claim_changes_row [OF l1 d])
      have "claimedBy (e_ID event) row \<in> set (lg_Pending l1)" by (simp add: s(1))
      with claims_ok [OF l2 ok] have "claimedBy (e_ID event) row \<in> set (lg_Pending l')" by fastforce
      with s True 2(6) Some ref show ?thesis by auto
    next
      case False
      then have "e \<in> set events" using 2(5) by simp
      from 2(2) [OF Some ref [symmetric] l2 ok this 2(6)] show ?thesis
        using claim_lookup [OF l1 d] by blast
    qed
  qed
qed simp

section \<open>Interrupted transcripts\<close>

text \<open>The identifiers of the tool uses among blocks.\<close>

definition uses :: "ContentBlock list \<Rightarrow> string set" where
  "uses bs = {i. i \<noteq> [] \<and> (\<exists>b \<in> set bs. cb_Type b = ''tool_use'' \<and> cb_ToolUseID b = i)}"

lemma interruptedResult_type: "cb_Type (interruptedResult i) = ''tool_result''"
  by (simp add: interruptedResult_def)

lemma synthetic_ids:
  "cb_ToolResultFor ` set (syntheticResults answered bs) = uses bs - set answered
   \<and> distinct (map cb_ToolResultFor (syntheticResults answered bs))
   \<and> list_all (\<lambda>b. b = interruptedResult (cb_ToolResultFor b)) (syntheticResults answered bs)"
proof (induction answered bs rule: syntheticResults.induct)
  case (2 answered b bs)
  show ?case
  proof (cases "cb_Type b \<noteq> ''tool_use'' \<or> cb_ToolUseID b = [] \<or> cb_ToolUseID b \<in> set answered")
    case True
    moreover from True have "uses (b # bs) - set answered = uses bs - set answered" by (auto simp: uses_def)
    ultimately show ?thesis using 2(1) by simp
  next
    case False
    then have "uses (b # bs) - set answered =
        insert (cb_ToolUseID b) (uses bs - set (cb_ToolUseID b # answered))" by (auto simp: uses_def)
    then show ?thesis using 2(2) False by (auto simp: interruptedResult_def)
  qed
qed (simp add: uses_def)

lemma transcriptBlocks_append1:
  "transcriptBlocks (appendProviderMessage base m) = transcriptBlocks base @ mg_Content m"
proof (cases base rule: rev_exhaust)
  case (snoc ys y)
  then show ?thesis by (auto simp: transcriptBlocks_def appendProviderMessage_def)
qed (auto simp: transcriptBlocks_def appendProviderMessage_def)

lemma close_blocks:
  "transcriptBlocks (closeInterruptedProviderTranscript ms) =
     transcriptBlocks ms @ syntheticResults (answeredUses ms) (transcriptBlocks ms)"
  by (simp add: closeInterruptedProviderTranscript_def Let_def appendProviderMessages_def transcriptBlocks_append1)

section \<open>A barrier of two actions\<close>

definition sampleAction :: "string \<Rightarrow> string option \<Rightarrow> time \<Rightarrow> PendingAction" where
  "sampleAction i resolving created = \<lparr>pa_ID = ''p'' @ i, pa_SessionID = ''sesn_1'', pa_ThreadID = ''main'',
     pa_ActionEventID = ''use'' @ i, pa_ClientActionEventID = ''use'' @ i, pa_Kind = PendingCustomToolResult,
     pa_ResolvingEventID = resolving, pa_CreatedAt = created, pa_ResolvedAt = None\<rparr>"

definition sampleLedger :: "PendingAction list \<Rightarrow> Event list \<Rightarrow> ledger" where
  "sampleLedger ps es = \<lparr>lg_Exists = True, lg_DeletingAt = None, lg_Session = sampleSession,
     lg_Threads = [(PrimaryKind, NewPrimarySessionThread ''main'' sampleSession)], lg_Events = es, lg_Pending = ps,
     lg_Transcript = [], lg_Outbox = \<lparr>ob_Primary = [], ob_Thread = []\<rparr>, lg_Work = emptyQueue [],
     lg_Journal = \<lparr>jn_Sessions = [''sesn_1''], jn_Attempts = [], jn_Steps = []\<rparr>, lg_Drawn = 0\<rparr>"

definition sampleAnswer :: "string \<Rightarrow> string \<Rightarrow> Event" where
  "sampleAnswer i use = \<lparr>e_ID = i, e_SessionID = ''sesn_1'', e_ThreadID = ''main'', e_Sequence = 7,
     e_Type = EvUserCustomToolResult, e_Payload = [(''custom_tool_use_id'', JStr use)], e_TurnEventID = None,
     e_CreatedAt = 5, e_ProcessedAt = Some 5\<rparr>"

lemma sampleAction_ok: "pendingOk [sampleAction ''1'' a 1, sampleAction ''2'' None 2]"
  "pendingOk [sampleAction ''1'' (Some ''r1'') 1, sampleAction ''2'' (Some ''r2'') 2]"
  by (cases a) (simp_all add: pendingOk_def sampleAction_def List.map_filter_simps)

section \<open>Properties\<close>

text \<open>
  C17. A barrier closes as a whole: when a resumed turn names its resolutions, closing succeeds only if they
  are distinct, contain the trigger and are exactly the claims of every unresolved action of the Thread;
  then no action of the Thread is left open, and the actions of other Threads keep their state.
\<close>

theorem barrier_closes_whole:
  assumes "resolvePendingBarrierLocked now t trigger ids l = Inr (b, l')" "ids \<noteq> []" "pendingOk (lg_Pending l)"
  shows "b \<and> trigger \<in> set ids \<and> distinct ids
    \<and> {Some i |i. i \<in> set ids} = pa_ResolvingEventID ` set (filter (unresolved t) (lg_Pending l))
    \<and> \<not> HasUnresolvedPendingActions t l'
    \<and> filter (\<lambda>p. pa_ThreadID p \<noteq> t) (lg_Pending l') = filter (\<lambda>p. pa_ThreadID p \<noteq> t) (lg_Pending l)
    \<and> pendingOk (lg_Pending l') \<and> l' = l\<lparr>lg_Pending := lg_Pending l'\<rparr>"
proof -
  note r = barrier_rows [OF assms(1,2)] and c = barrier_clears [OF assms(1,2)]
  let ?rows = "filter (unresolved t) (lg_Pending l)"
  have d: "distinct (map (the \<circ> pa_ResolvingEventID) ?rows)"
    using assms(3) r(5) by (intro distinct_resolving_filter) (auto simp: pendingOk_def list_all_iff)
  have sub: "set (map (the \<circ> pa_ResolvingEventID) ?rows) \<subseteq> set ids" using r(5) by (auto simp: list_all_iff)
  have ids: "set (map (the \<circ> pa_ResolvingEventID) ?rows) = set ids"
    by (rule same_finite_set [OF d r(3) _ sub]) (simp add: r(6))
  have some: "pa_ResolvingEventID p = Some (the (pa_ResolvingEventID p))" if "p \<in> set ?rows" for p
    using r(5) that by (auto simp: list_all_iff)
  have "{Some i |i. i \<in> set ids} = Some ` set (map (the \<circ> pa_ResolvingEventID) ?rows)"
    unfolding ids by blast
  also have "\<dots> = pa_ResolvingEventID ` set ?rows"
    unfolding set_map image_image o_def using some by (intro image_cong) simp_all
  finally have eq: "{Some i |i. i \<in> set ids} = pa_ResolvingEventID ` set ?rows" .
  have other: "filter (\<lambda>p. pa_ThreadID p \<noteq> t) (lg_Pending l') = filter (\<lambda>p. pa_ThreadID p \<noteq> t) (lg_Pending l)"
    unfolding c(2) by (rule filter_updateWhere_other) (auto simp: unresolved_def)
  have ok: "pendingOk (lg_Pending l')"
  proof -
    have "list_all (\<lambda>p. pa_ResolvedAt p \<noteq> None \<longrightarrow> pa_ResolvingEventID p \<noteq> None) (lg_Pending l')"
      using assms(3) r(5) unfolding c(2) by (auto simp: pendingOk_def list_all_iff set_updateWhere)
    with assms(3) show ?thesis
      unfolding pendingOk_def c(2) by (simp add: map_updateWhere_inv map_filter_updateWhere)
  qed
  have "l' = l\<lparr>lg_Pending := lg_Pending l'\<rparr>"
    unfolding r(7) ResolvePendingActionsForEvents_def resolveWhere_def by simp
  with r c eq other ok show ?thesis by blast
qed

theorem barrier_closes_whole_witness:
  "\<exists>l'. resolvePendingBarrierLocked 9 ''main'' ''r2'' [''r1'', ''r2'']
       (sampleLedger [sampleAction ''1'' (Some ''r1'') 1, sampleAction ''2'' (Some ''r2'') 2] []) = Inr (True, l')
     \<and> \<not> HasUnresolvedPendingActions ''main'' l'"
proof -
  let ?l = "sampleLedger [sampleAction ''1'' (Some ''r1'') 1, sampleAction ''2'' (Some ''r2'') 2] []"
  have p: "pendingOk (lg_Pending ?l)" using sampleAction_ok(2) by (simp add: sampleLedger_def)
  have "\<exists>b l'. resolvePendingBarrierLocked 9 ''main'' ''r2'' [''r1'', ''r2''] ?l = Inr (b, l')"
    by (simp add: resolvePendingBarrierLocked_def ListUnresolvedPendingActions_def sampleLedger_def sampleAction_def
        unresolved_def less_eq_queueKey_def ResolvePendingActionsForEvents_def resolveWhere_def affected_def ex_bool_eq)
  then obtain b l' where r: "resolvePendingBarrierLocked 9 ''main'' ''r2'' [''r1'', ''r2''] ?l = Inr (b, l')" by blast
  from barrier_closes_whole [OF r _ p] r show ?thesis by auto
qed

text \<open>
  C18. The first answer wins: an admitted batch of resolutions claims, for each of them, the action it refers
  to, which no earlier resolution had claimed and which belongs to the Thread the event was routed to;
  no claim of another resolution is ever replaced, and nothing but claims changes.
\<close>

theorem first_answer_wins:
  assumes "claimPendingResolutionsLocked events l = Inr (claimed, l')" "pendingOk (lg_Pending l)"
    and "e \<in> set events" "ResolutionReference (e_Type e) (e_Payload e) = Some (i, k)"
  shows "(\<exists>p. GetPendingActionForUpdate i l = Some p \<and> pa_Kind p = k \<and> pa_ThreadID p = e_ThreadID e
        \<and> pa_ResolvingEventID p = None \<and> pa_ResolvedAt p = None
        \<and> p\<lparr>pa_ResolvingEventID := Some (e_ID e)\<rparr> \<in> set (lg_Pending l'))
    \<and> set (filter (\<lambda>p. pa_ResolvingEventID p \<noteq> None) (lg_Pending l)) \<subseteq> set (lg_Pending l')
    \<and> pendingOk (lg_Pending l') \<and> l' = l\<lparr>lg_Pending := lg_Pending l'\<rparr> \<and> claimed"
proof -
  note ok = claims_ok [OF assms(1,2)]
  have "list_ex (\<lambda>e. ResolutionReference (e_Type e) (e_Payload e) \<noteq> None) events"
    using assms(3,4) unfolding list_ex_iff by (intro bexI [of _ e]) simp_all
  moreover have "\<forall>p \<in> set (lg_Pending l). pa_ResolvingEventID p \<noteq> None \<longrightarrow> p \<in> set (lg_Pending l')"
    using ok by (elim conjE)
  then have "set (filter (\<lambda>p. pa_ResolvingEventID p \<noteq> None) (lg_Pending l)) \<subseteq> set (lg_Pending l')" by auto
  ultimately show ?thesis using ok claims_answer [OF assms] unfolding claimedBy_def by blast
qed

theorem first_answer_wins_witness:
  "\<exists>l'. claimPendingResolutionsLocked [sampleAnswer ''r1'' ''use1'']
       (sampleLedger [sampleAction ''1'' None 1, sampleAction ''2'' None 2] []) = Inr (True, l')
     \<and> sampleAction ''1'' (Some ''r1'') 1 \<in> set (lg_Pending l')"
proof -
  let ?l = "sampleLedger [sampleAction ''1'' None 1, sampleAction ''2'' None 2] []" and ?e = "sampleAnswer ''r1'' ''use1''"
  have p: "pendingOk (lg_Pending ?l)" using sampleAction_ok(1) by (simp add: sampleLedger_def)
  have ref: "ResolutionReference (e_Type ?e) (e_Payload ?e) = Some (''use1'', PendingCustomToolResult)"
    by (simp add: sampleAnswer_def ResolutionReference_def jget_def)
  have g: "GetPendingActionForUpdate ''use1'' ?l = Some (sampleAction ''1'' None 1)"
    by (simp add: GetPendingActionForUpdate_def sampleLedger_def sampleAction_def)
  have "\<exists>c l'. claimPendingResolutionsLocked [?e] ?l = Inr (c, l')"
    using ref by (simp add: claimResolution_def g)
      (simp add: sampleAnswer_def sampleAction_def sampleLedger_def ClaimPendingAction_def affected_def jget_def
        ex_bool_eq)
  then obtain c l' where r: "claimPendingResolutionsLocked [?e] ?l = Inr (c, l')" by blast
  from first_answer_wins [OF r p _ ref] g r show ?thesis by (auto simp: sampleAction_def sampleAnswer_def)
qed

text \<open>
  C19. A turn may park only on what it publishes: a completion that names pending actions is accepted
  exactly when the turn ends idle, the identifiers are distinct and not empty, and the first
  requires-action boundary among its drafts lists the same identifiers, each once.
\<close>

theorem park_matches_boundary:
  "validatePendingCompletion status drafts ids = Inr () \<longleftrightarrow>
     ids = [] \<or> status = StatusIdle \<and> distinct ids \<and> [] \<notin> set ids
       \<and> (\<exists>required. requiredIDs drafts = Inr (Some required) \<and> distinct required \<and> set required = set ids)"
proof (cases "ids = [] \<or> status \<noteq> StatusIdle")
  case False
  have "validatePendingCompletion status drafts ids = Inr () \<longleftrightarrow> distinct ids \<and> [] \<notin> set ids
      \<and> (\<exists>required. requiredIDs drafts = Inr (Some required) \<and> length required = length ids
           \<and> distinct required \<and> set required \<subseteq> set ids)"
    using False by (auto simp: validatePendingCompletion_def bindE_Inr_iff distinctIDs_ok matchIDs_ok
        split: option.splits if_splits)
  moreover have "length required = length ids \<and> set required \<subseteq> set ids \<longleftrightarrow> set required = set ids"
    if "distinct ids" "distinct required" for required
    using that same_finite_set [of required ids] by (metis distinct_card order_refl)
  ultimately show ?thesis using False by auto
qed (auto simp: validatePendingCompletion_def)

text \<open>
  C20. An interrupt leaves no open call in the provider transcript: closing it keeps every block, answers
  each tool use that has no result with exactly one error result, and adds nothing else.
\<close>

theorem interrupted_transcript_answered:
  "\<exists>added. transcriptBlocks (closeInterruptedProviderTranscript ms) = transcriptBlocks ms @ added
     \<and> list_all (\<lambda>b. b = interruptedResult (cb_ToolResultFor b)) added
     \<and> distinct (map cb_ToolResultFor added)
     \<and> cb_ToolResultFor ` set added = uses (transcriptBlocks ms) - set (answeredUses ms)
     \<and> uses (transcriptBlocks (closeInterruptedProviderTranscript ms))
         \<subseteq> set (answeredUses (closeInterruptedProviderTranscript ms))"
proof -
  let ?added = "syntheticResults (answeredUses ms) (transcriptBlocks ms)"
  note s = synthetic_ids [of "answeredUses ms" "transcriptBlocks ms"]
  have t: "cb_Type b = ''tool_result'' \<and> cb_ToolResultFor b \<noteq> []" if "b \<in> set ?added" for b
  proof -
    have "b = interruptedResult (cb_ToolResultFor b)" "cb_ToolResultFor b \<in> uses (transcriptBlocks ms)"
      using s that by (auto simp: list_all_iff)
    then show ?thesis using interruptedResult_type [of "cb_ToolResultFor b"] by (auto simp: uses_def)
  qed
  have u: "uses (transcriptBlocks ms @ ?added) = uses (transcriptBlocks ms)"
    using t by (auto simp: uses_def)
  have a: "set (answeredUses (closeInterruptedProviderTranscript ms)) = set (answeredUses ms) \<union> cb_ToolResultFor ` set ?added"
  proof -
    have "filter (\<lambda>b. cb_Type b = ''tool_result'' \<and> cb_ToolResultFor b \<noteq> []) ?added = ?added"
      using t by (intro filter_True) blast
    then show ?thesis by (subst (1 2) answeredUses_def) (simp add: close_blocks image_Un)
  qed
  show ?thesis using s u a unfolding close_blocks by (intro exI [of _ ?added]) auto
qed

end
