(* ===== verification/Admission.thy ===== *)
theory Admission
  imports Barrier
begin

text \<open>
  Event admission (\<open>AdmitEvents\<close> and \<open>admitLocked\<close> in \<open>internal/pg/store.go\<close>): a batch of client drafts is
  checked, routed, appended and claimed, and what it makes runnable is woken, all in one transaction
  on the Session's rows.
\<close>

record Admission =
  am_Session :: Session
  am_Events :: "Event list"
  am_SubmittedEvents :: "Event list"
  am_MaxSeq :: int
  am_Enqueued :: bool
  am_PrimaryEnqueued :: bool
  am_WakeThreadIDs :: "string list"

definition noAdmission :: "Session \<Rightarrow> Admission" where
  "noAdmission session = \<lparr>am_Session = session, am_Events = [], am_SubmittedEvents = [], am_MaxSeq = 0,
     am_Enqueued = False, am_PrimaryEnqueued = False, am_WakeThreadIDs = []\<rparr>"

section \<open>Preparing drafts\<close>

definition linkCompanionSystemMessage :: "runtime \<Rightarrow> EventDraft list \<Rightarrow> ledger \<Rightarrow> EventDraft list \<times> ledger" where
  "linkCompanionSystemMessage r drafts l =
     (if length drafts < 2 \<or> d_Type (last drafts) \<noteq> EvSystemMessage then (drafts, l)
      else (let companion = last drafts; preceding = last (butlast drafts);
                (i, l1) = (if d_ID companion = [] then NewID r PrefixEvent l else (d_ID companion, l));
                payload = aput InternalCompanionSystemContent
                    (case jget (d_Payload companion) ''content'' of None \<Rightarrow> JNull | Some v \<Rightarrow> v)
                    (aput InternalCompanionSystemEventID (JStr i) (d_Payload preceding))
            in (butlast (butlast drafts) @ [preceding\<lparr>d_Payload := payload\<rparr>, companion\<lparr>d_ID := i\<rparr>], l1)))"

fun prepareOutcomeDrafts ::
    "runtime \<Rightarrow> EventDraft list \<Rightarrow> Session \<Rightarrow> ledger \<Rightarrow>
     storeError + EventDraft list \<times> Session \<times> ledger" where
  "prepareOutcomeDrafts r [] session l = Inr ([], session, l)"
| "prepareOutcomeDrafts r (d # ds) session l =
     (if d_Type d \<noteq> EvUserDefineOutcome
      then bindE (prepareOutcomeDrafts r ds session l) (\<lambda>(ds', s', l'). Inr (d # ds', s', l'))
      else (let (i, l1) = NewID r PrefixOutcome l;
                p1 = aput ''outcome_id'' (JStr i) (d_Payload d);
                p2 = (if jget p1 ''max_iterations'' = None then aput ''max_iterations'' (JInt 3) p1 else p1)
            in case StartOutcome session \<lparr>os_OutcomeID = i, os_Description = strOf (jget p2 ''description''),
                os_Rubric = [], os_MaxIterations = 0\<rparr> of
                 Inl e \<Rightarrow> Inl (Refused e)
               | Inr s1 \<Rightarrow> bindE (prepareOutcomeDrafts r ds s1 l1) (\<lambda>(ds', s', l').
                             Inr (d\<lparr>d_Payload := p2\<rparr> # ds', s', l'))))"

section \<open>Admission\<close>

fun appendRouted ::
    "runtime \<Rightarrow> routedClientDraft list \<Rightarrow> int \<Rightarrow> ledger \<Rightarrow> storeError + Event list \<times> Event list \<times> int \<times> ledger" where
  "appendRouted r [] seq l = Inr ([], [], seq, l)"
| "appendRouted r (item # items) seq l =
     bindE (appendThreadDrafts r (rd_ThreadID item) [rd_Draft item] seq None l) (\<lambda>(committed, n, l1).
     bindE (appendRouted r items n l1) (\<lambda>(events, submitted, m, l2).
       Inr (committed @ events, (if rd_Submitted item then committed else []) @ submitted, m, l2)))"

text \<open>The order of \<open>sort.Strings\<close> on a set of identifiers.\<close>

definition sortedIDs :: "string list \<Rightarrow> string list" where
  "sortedIDs xs = sort (remdups xs)"

text \<open>A fully claimed child barrier starts its Thread and publishes that on both ledgers.\<close>

definition childRunningDraft :: "SessionThread \<Rightarrow> EventDraft" where
  "childRunningDraft t = \<lparr>d_ID = [], d_Type = EvSessionThreadStatusRunning,
     d_Payload = [(''session_thread_id'', JStr (t_ID t)), (''agent_name'', JStr (ag_Name (t_Agent t)))]\<rparr>"

fun wakeResolvedChildren ::
    "runtime \<Rightarrow> string \<Rightarrow> string list \<Rightarrow> int \<Rightarrow> ledger \<Rightarrow>
     storeError + string list \<times> Event list \<times> int \<times> ledger" where
  "wakeResolvedChildren r primaryThreadID [] seq l = Inr ([], [], seq, l)"
| "wakeResolvedChildren r primaryThreadID (i # is) seq l =
     (if \<not> HasUnresolvedPendingActions i l \<or> HasUnclaimedPendingActions i l
      then wakeResolvedChildren r primaryThreadID is seq l
      else bindE (loadSessionThreadForUpdate i l) (\<lambda>t.
        if t_ParentThreadID t = None
        then Inl (Refused (Conflict ''child resolution cannot target the primary Thread''))
        else if t_ArchivedAt t \<noteq> None \<or> t_Status t = StatusTerminated
        then Inl (Refused (Conflict ''cannot resolve an action for a terminated child Thread''))
        else bindE (if t_Status t = StatusRunning then Inr ([], seq, l)
             else (let t1 = Thread_TransitionStatus t StatusRunning (rt_Now r)
                   in bindE (putSessionThreadTx t1 l) (\<lambda>l1.
                      bindE (appendThreadDrafts r (t_ID t1) [childRunningDraft t1] seq None l1)
                        (\<lambda>(childEvents, n, l2).
                      bindE (appendThreadDrafts r primaryThreadID [childRunningDraft t1] n None l2)
                        (\<lambda>(primaryEvents, m, l3). Inr (childEvents @ primaryEvents, m, l3))))))
             (\<lambda>(events, n, l1).
        bindE (wakeResolvedChildren r primaryThreadID is n l1) (\<lambda>(woken, events', m, l2).
          Inr (i # woken, events @ events', m, l2)))))"

text \<open>The budget gate: \<open>Some\<close> admission where the batch is accepted as an eventless no-op.\<close>

definition budgetGate :: "runtime \<Rightarrow> Session \<Rightarrow> EventDraft list \<Rightarrow> ledger \<Rightarrow> storeError + Admission option" where
  "budgetGate r session drafts l =
     (if \<not> BudgetReached session (rt_Now r) then Inr None
      else if list_ex (\<lambda>d. d_Type d \<in> {EvUserMessage, EvUserDefineOutcome}) drafts
      then Inl (Refused (Conflict
        ''session budget has been reached; raise or remove the budget before submitting new work''))
      else if drafts \<noteq> [] \<and> list_all (\<lambda>d. d_Type d = EvUserInterrupt) drafts
          \<and> s_Status session = StatusIdle \<and> SessionPendingClientActionEventIDs l = []
      then Inr (Some (noAdmission session)) else Inr None)"

definition putRuntimeProjection :: "Session \<Rightarrow> SessionThread option \<Rightarrow> ledger \<Rightarrow> storeError + ledger" where
  "putRuntimeProjection session primaryThread l =
     (case primaryThread of
        None \<Rightarrow> putProjection session l
      | Some t \<Rightarrow> Inr (putPrimaryThreadProjection t (putSessionOnly session l)))"

definition enqueueWork :: "runtime \<Rightarrow> Session \<Rightarrow> int \<Rightarrow> ledger \<Rightarrow> storeError + ledger" where
  "enqueueWork r session seq l =
     (let (i, l1) = NewID r PrefixEnvironmentWork l
      in bindE (EnqueueEnvironmentWork i (s_EnvironmentID session) (s_ID session) seq (rt_Now r) (lg_Work l1))
           (\<lambda>w. Inr (l1\<lparr>lg_Work := w\<rparr>)))"

definition wakeThread :: "runtime \<Rightarrow> Session \<Rightarrow> int \<Rightarrow> string \<Rightarrow> ledger \<Rightarrow> ledger" where
  "wakeThread r session seq i l = l\<lparr>lg_Outbox := UpsertThreadOutbox (s_ID session) i seq (rt_Now r) (lg_Outbox l)\<rparr>"

definition wakePrimary :: "runtime \<Rightarrow> Session \<Rightarrow> int \<Rightarrow> ledger \<Rightarrow> ledger" where
  "wakePrimary r session seq l = l\<lparr>lg_Outbox := UpsertOutbox (s_ID session) seq (rt_Now r) (lg_Outbox l)\<rparr>"

definition hasType :: "string \<Rightarrow> Event list \<Rightarrow> bool" where
  "hasType t events \<longleftrightarrow> list_ex (\<lambda>e. e_Type e = t) events"

text \<open>
  The last part of admission: what became runnable reopens the Session, and every Workflow that has
  something to do gets its durable wakeup.
\<close>

definition wakeAdmitted ::
    "runtime \<Rightarrow> Session \<Rightarrow> SessionThread option \<Rightarrow> bool \<Rightarrow> bool \<Rightarrow> bool \<Rightarrow> interruptWakeTargets \<Rightarrow>
     string list \<Rightarrow> Event list \<Rightarrow> Event list \<Rightarrow> int \<Rightarrow> ledger \<Rightarrow> storeError + Admission \<times> ledger" where
  "wakeAdmitted r session primaryThread primaryWorkRunnable childHasRunnableWork hasInterrupt targets
     childWakeThreads events submitted seq l =
     (let hasRunnableWork = primaryWorkRunnable \<or> childHasRunnableWork
      in if \<not> hasRunnableWork \<and> \<not> hasInterrupt
         then bindE (putRuntimeProjection session primaryThread l) (\<lambda>l1.
           Inr ((noAdmission session)\<lparr>am_Events := events, am_SubmittedEvents := submitted, am_MaxSeq := seq\<rparr>, l1))
         else
           (let session1 = (if primaryWorkRunnable then MarkActiveOutcomeRunning session else session);
                primaryThread1 = (case primaryThread of
                    Some t \<Rightarrow> Some (if primaryWorkRunnable \<and> t_Status t \<noteq> StatusRunning
                                   then Thread_TransitionStatus t StatusRunning (rt_Now r) else t)
                  | None \<Rightarrow> None)
            in bindE (if hasRunnableWork \<and> s_Status session1 = StatusIdle
                 then bindE (appendDrafts r [\<lparr>d_ID = [], d_Type = EvSessionStatusRunning, d_Payload = []\<rparr>] seq None l)
                        (\<lambda>(statusEvents, n, l1).
                          Inr (TransitionStatus session1 StatusRunning (rt_Now r), statusEvents, n, l1))
                 else Inr (session1, [], seq, l)) (\<lambda>(session2, statusEvents, seq2, l1).
               bindE (putRuntimeProjection session2 primaryThread1 l1) (\<lambda>l2.
               (let primaryEnqueued = (primaryWorkRunnable \<or> iw_Primary targets);
                    l3 = (if primaryEnqueued then wakePrimary r session2 seq2 l2 else l2);
                    l4 = fold (wakeThread r session2 seq2) childWakeThreads l3
                in bindE (if hasRunnableWork \<and> s_EnvironmentType session2 = ''self_hosted''
                     then enqueueWork r session2 seq2 l4 else Inr l4) (\<lambda>l5.
                   Inr (\<lparr>am_Session = session2, am_Events = events @ statusEvents, am_SubmittedEvents = submitted,
                     am_MaxSeq = seq2, am_Enqueued = (primaryEnqueued \<or> childWakeThreads \<noteq> []),
                     am_PrimaryEnqueued = primaryEnqueued, am_WakeThreadIDs = childWakeThreads\<rparr>, l5)))))))"

definition admitRouted ::
    "runtime \<Rightarrow> Session \<Rightarrow> SessionThread option \<Rightarrow> string \<Rightarrow> EventDraft list \<Rightarrow> ledger \<Rightarrow>
     storeError + Admission \<times> ledger" where
  "admitRouted r session primaryThread primaryThreadID drafts l =
     bindE (routeClientDraftsLocked l primaryThreadID drafts noRouting) (\<lambda>ro.
     bindE (appendRouted r (ro_Routed ro) (maxSeq l) l) (\<lambda>(events, submitted, seq1, l1).
     bindE (claimPendingResolutionsLocked events l1) (\<lambda>(admittedResolution, l2).
     (let gated = HasUnresolvedPendingActions primaryThreadID l2
      in if gated \<and> 2 \<le> length events \<and> e_Type (last events) = EvSystemMessage
             \<and> e_Type (last (butlast events)) = EvUserMessage
         then Inl (Refused (Validation
           ''system.message may accompany only a tool result while the session requires action''))
         else
           (let hasUnclaimed = (gated \<and> HasUnclaimedPendingActions primaryThreadID l2);
                barrierReady = (admittedResolution \<and> primaryThreadID \<in> set (ro_ResolutionThreads ro)
                                \<and> gated \<and> \<not> hasUnclaimed);
                candidates = sortedIDs (filter (\<lambda>i. i \<noteq> primaryThreadID) (ro_ResolutionThreads ro))
            in bindE (wakeResolvedChildren r primaryThreadID candidates seq1 l2) (\<lambda>(woken, childEvents, seq3, l3).
               (let childWakeThreads = sortedIDs (woken @ iw_Children (ro_Targets ro));
                    runnable = ((hasType EvUserMessage events \<or> hasType EvUserDefineOutcome events \<or> barrierReady)
                                \<and> (\<not> gated \<or> barrierReady))
                in wakeAdmitted r session primaryThread runnable (woken \<noteq> []) (hasType EvUserInterrupt events)
                     (ro_Targets ro) childWakeThreads (events @ childEvents) submitted seq3 l3)))))))"

definition admitLocked :: "runtime \<Rightarrow> Session \<Rightarrow> EventDraft list \<Rightarrow> ledger \<Rightarrow> storeError + Admission \<times> ledger" where
  "admitLocked r session drafts l =
     bindE (if ag_Multiagent (s_AgentSnapshot session) = None then Inr None
            else bindE (GetPrimarySessionThreadProjection l) (\<lambda>t. Inr (Some t))) (\<lambda>primaryThread.
     (let (linked, l1) = linkCompanionSystemMessage r drafts l
      in bindE (prepareOutcomeDrafts r linked session l1) (\<lambda>(prepared, session1, l2).
         case find (\<lambda>d. \<not> IsClientSubmittable (d_Type d)) prepared of
           Some d \<Rightarrow> Inl (Refused (Validation (''event type is not client-submittable: '' @ d_Type d)))
         | None \<Rightarrow> bindE (budgetGate r session1 prepared l2) (\<lambda>stop. case stop of
               Some admission \<Rightarrow> Inr (admission, l2)
             | None \<Rightarrow> bindE (GetPrimarySessionThreadID l2) (\<lambda>primaryThreadID.
                 admitRouted r session1 primaryThread primaryThreadID prepared l2)))))"

definition AdmitEvents :: "runtime \<Rightarrow> EventDraft list \<Rightarrow> ledger \<Rightarrow> storeError + Admission \<times> ledger" where
  "AdmitEvents r drafts l =
     (if drafts = [] then Inl (Refused (Validation ''no events to admit''))
      else bindE (LockSession l) (\<lambda>session.
        if s_ArchivedAt session \<noteq> None
        then Inl (Refused (Conflict ''cannot send events to an archived session''))
        else if s_Status session = StatusTerminated
        then Inl (Refused (Conflict ''cannot send events to a terminated session''))
        else admitLocked r session drafts l))"

end
