(* ===== verification/Completion.thy ===== *)
theory Completion
  imports Admission
begin

text \<open>
  Turn completion (\<open>completeTurn\<close> in \<open>internal/pg/store.go\<close>, \<open>CompleteThreadWorkflowTurn\<close> in
  \<open>internal/pg/thread_completion.go\<close>, \<open>internal/pg/turn_completion.go\<close>): the transaction that commits what a
  turn produced, closes or opens the requires-action barrier, decides the race with an interrupt
  and settles the status of the Thread and the Session.
\<close>

section \<open>Drafts\<close>

definition withoutTerminalIdle :: "EventDraft list \<Rightarrow> EventDraft list" where
  "withoutTerminalIdle drafts = filter (\<lambda>d. d_Type d \<noteq> EvSessionStatusIdle) drafts"

fun updateFirst :: "('a \<Rightarrow> bool) \<Rightarrow> ('a \<Rightarrow> 'a) \<Rightarrow> 'a list \<Rightarrow> 'a list" where
  "updateFirst p f [] = []"
| "updateFirst p f (x # xs) = (if p x then f x # xs else x # updateFirst p f xs)"

definition rewriteTerminalSessionIdleStopReason :: "EventDraft list \<Rightarrow> payload \<Rightarrow> EventDraft list" where
  "rewriteTerminalSessionIdleStopReason drafts reason =
     rev (updateFirst (\<lambda>d. d_Type d = EvSessionStatusIdle)
       (\<lambda>d. d\<lparr>d_Payload := aput ''stop_reason'' (JObj reason) (d_Payload d)\<rparr>) (rev drafts))"

fun insertUsageBeforeTerminalIdle :: "EventDraft list \<Rightarrow> EventDraft \<Rightarrow> EventDraft list" where
  "insertUsageBeforeTerminalIdle [] usage = [usage]"
| "insertUsageBeforeTerminalIdle (d # ds) usage =
     (if d_Type d = EvSessionStatusIdle then usage # d # ds else d # insertUsageBeforeTerminalIdle ds usage)"

fun uniqueStrings :: "string list \<Rightarrow> string list \<Rightarrow> string list" where
  "uniqueStrings seen [] = []"
| "uniqueStrings seen (x # xs) =
     (if x = [] \<or> x \<in> set seen then uniqueStrings seen xs else x # uniqueStrings (x # seen) xs)"

definition appendUniqueStrings :: "string list \<Rightarrow> string list \<Rightarrow> string list" where
  "appendUniqueStrings values additions = uniqueStrings [] (values @ additions)"

fun intFromAny :: "jval option \<Rightarrow> int" where
  "intFromAny (Some (JInt n)) = n"
| "intFromAny (Some (JNum x)) = (if x < 0 then \<lceil>x\<rceil> else \<lfloor>x\<rfloor>)"
| "intFromAny _ = 0"

definition turnEventsParked :: "Event list \<Rightarrow> bool" where
  "turnEventsParked events \<longleftrightarrow> list_ex (\<lambda>e. isIdle (e_Type e) \<and> requiresAction (e_Payload e)) events"

definition turnRetriesExhausted :: "EventDraft list \<Rightarrow> bool" where
  "turnRetriesExhausted drafts \<longleftrightarrow> list_ex (\<lambda>d. d_Type d = EvSessionStatusIdle
     \<and> jget (stopReason (d_Payload d)) ''type'' = Some (JStr ''retries_exhausted'')) drafts"

section \<open>Interrupted turns\<close>

definition toolUseKinds :: "string list" where
  "toolUseKinds = [EvAgentToolUse, EvAgentCustomToolUse, EvAgentMcpToolUse]"

definition completedToolUses :: "EventDraft list \<Rightarrow> string list" where
  "completedToolUses drafts =
     filter (\<lambda>i. i \<noteq> []) (map (\<lambda>d. fst (AgentToolResultReference (d_Type d) (d_Payload d)))
       (filter (\<lambda>d. d_Type d \<in> {EvAgentToolResult, EvAgentMcpToolResult}) drafts))"

definition revised :: "EventDraft \<Rightarrow> bool" where
  "revised d \<longleftrightarrow> d_Type d = EvSpanOutcomeEvaluationEnd \<and> strOf (jget (d_Payload d) ''result'') = ''needs_revision''"

definition completedOutcomeStarts :: "EventDraft list \<Rightarrow> string list" where
  "completedOutcomeStarts drafts =
     filter (\<lambda>i. i \<noteq> []) (map (\<lambda>d. strOf (jget (d_Payload d) ''outcome_evaluation_start_id'')) (filter revised drafts))"

definition startedEvaluation :: "EventDraft \<Rightarrow> string" where
  "startedEvaluation d = strOf (jget (d_Payload d) InternalOutcomeEvaluationStart)"

definition interruptedIteration :: "EventDraft list \<Rightarrow> int" where
  "interruptedIteration drafts =
     foldl (\<lambda>n d.
       let n1 = (if startedEvaluation d \<noteq> [] then max n (intFromAny (jget (d_Payload d) InternalOutcomeIteration)) else n)
       in if revised d then max n1 (intFromAny (jget (d_Payload d) ''iteration'') + 1) else n1) 0 drafts"

definition interruptedStartID :: "EventDraft list \<Rightarrow> string" where
  "interruptedStartID drafts =
     foldl (\<lambda>i d. if startedEvaluation d \<noteq> [] then startedEvaluation d else i) [] drafts"

definition survivesInterrupt :: "EventDraft list \<Rightarrow> EventDraft \<Rightarrow> bool" where
  "survivesInterrupt drafts d \<longleftrightarrow>
     (let t = d_Type d
      in if t \<in> {EvSessionError, EvSessionStatusIdle, EvSessionStatusRescheduling, EvSessionStatusTerminated,
                 EvSpanOutcomeEvaluationOngoing} then False
         else if t = EvSpanOutcomeEvaluationStart then d_ID d \<in> set (completedOutcomeStarts drafts)
         else if t = EvSpanOutcomeEvaluationEnd then revised d
         else if t \<in> set toolUseKinds then d_ID d \<in> set (completedToolUses drafts)
         else True)"

definition interruptedTurnDrafts :: "EventDraft list \<Rightarrow> EventDraft list \<times> int \<times> string" where
  "interruptedTurnDrafts drafts =
     (filter (survivesInterrupt drafts) drafts, interruptedIteration drafts, interruptedStartID drafts)"

section \<open>Primary completion\<close>

record turnOutput =
  to_TriggerEventID :: string
  to_Drafts :: "EventDraft list"
  to_Status :: Status
  to_AttemptID :: string
  to_AttemptState :: "RunAttemptState option"
  to_AttemptError :: "string option"
  to_PendingActionEventIDs :: "string list"
  to_ResolutionEventIDs :: "string list"
  to_TranscriptDelta :: "Message list option"
  to_ToolUseMappings :: "ProviderToolUseMapping list"
  to_Usage :: TokenUsage

record TurnCompletion =
  tc_Session :: Session
  tc_Events :: "Event list"
  tc_Applied :: bool
  tc_Parked :: bool
  tc_ThreadStatus :: "Status option"

definition activeReceiptProcessedOutcome :: "Session \<Rightarrow> string \<Rightarrow> payload \<Rightarrow> bool" where
  "activeReceiptProcessedOutcome session triggerType triggerPayload \<longleftrightarrow>
     (let i = strOf (jget triggerPayload ''outcome_id'')
      in triggerType = EvUserDefineOutcome \<and> i \<noteq> []
         \<and> (case ActiveOutcome session of None \<Rightarrow> False | Some active \<Rightarrow> oc_OutcomeID active = i))"

definition applyOutcomeResults :: "Session \<Rightarrow> EventDraft list \<Rightarrow> time \<Rightarrow> Session" where
  "applyOutcomeResults session drafts now =
     foldl (\<lambda>s d. if d_Type d \<noteq> EvSpanOutcomeEvaluationEnd then s
       else ApplyOutcomeResult s (strOf (jget (d_Payload d) ''outcome_id'')) (strOf (jget (d_Payload d) ''result''))
              (strOf (jget (d_Payload d) ''explanation'')) (intFromAny (jget (d_Payload d) ''iteration'')) now)
       session drafts"

definition endTurnDraft :: EventDraft where
  "endTurnDraft = \<lparr>d_ID = [], d_Type = EvSessionStatusIdle,
     d_Payload = [(''stop_reason'', JObj [(''type'', JStr ''end_turn'')])]\<rparr>"

definition runningDraft :: EventDraft where
  "runningDraft = \<lparr>d_ID = [], d_Type = EvSessionStatusRunning, d_Payload = []\<rparr>"

definition interruptedEvaluationDraft :: "OutcomeEvaluation \<Rightarrow> int \<Rightarrow> string \<Rightarrow> EventDraft" where
  "interruptedEvaluationDraft outcome iteration startID =
     \<lparr>d_ID = [], d_Type = EvSpanOutcomeEvaluationEnd,
      d_Payload = [(''outcome_evaluation_start_id'', JStr startID), (''outcome_id'', JStr (oc_OutcomeID outcome)),
        (''result'', JStr ''interrupted''), (''explanation'', JStr ''Outcome work was interrupted by the user.''),
        (''iteration'', JInt (max (oc_Iteration outcome) iteration)),
        (''usage'', JObj [(''cache_creation_input_tokens'', JInt 0), (''cache_read_input_tokens'', JInt 0),
           (''input_tokens'', JInt 0), (''output_tokens'', JInt 0), (''speed'', JNull)])]\<rparr>"

text \<open>The output of a turn that lost the race against an interrupt.\<close>

definition interruptedOutput :: "OutcomeEvaluation option \<Rightarrow> turnOutput \<Rightarrow> turnOutput" where
  "interruptedOutput evaluated t =
     (let (kept, iteration, startID) = interruptedTurnDrafts (to_Drafts t)
      in t\<lparr>to_Drafts := kept
              @ (case evaluated of None \<Rightarrow> [] | Some o' \<Rightarrow> [interruptedEvaluationDraft o' iteration startID])
              @ [endTurnDraft],
           to_Status := StatusIdle,
           to_AttemptState := (if to_AttemptID t \<noteq> [] then Some RunAttemptInterrupted else to_AttemptState t),
           to_AttemptError := (if to_AttemptID t \<noteq> [] then None else to_AttemptError t),
           to_PendingActionEventIDs := [],
           to_TranscriptDelta := map_option closeInterruptedProviderTranscript (to_TranscriptDelta t),
           to_ToolUseMappings := retainCommittedProviderMappings (to_ToolUseMappings t) kept\<rparr>)"

definition finishTurnAttempt :: "time \<Rightarrow> turnOutput \<Rightarrow> ledger \<Rightarrow> storeError + ledger" where
  "finishTurnAttempt now t l =
     (if to_AttemptID t = [] then Inr l
      else (case to_AttemptState t of
          None \<Rightarrow> Inl ConstraintViolation
        | Some state \<Rightarrow>
            bindE (finishAttemptLocked now (to_AttemptID t) state (to_AttemptError t) (s_ID (lg_Session l))
                     (to_TriggerEventID t) (lg_Journal l))
              (\<lambda>j. Inr (l\<lparr>lg_Journal := j\<rparr>))))"

definition InsertProviderTranscriptTurn ::
    "time \<Rightarrow> turnOutput \<Rightarrow> int \<Rightarrow> ledger \<Rightarrow> storeError + ledger" where
  "InsertProviderTranscriptTurn now t seq l =
     (case to_TranscriptDelta t of
        None \<Rightarrow> Inr l
      | Some messages \<Rightarrow>
          if to_TriggerEventID t \<in> set (map tt_TriggerEventID (lg_Transcript l)) then Inr l
          else Inr (l\<lparr>lg_Transcript := lg_Transcript l @
            [\<lparr>tt_TriggerEventID = to_TriggerEventID t, tt_CommittedThroughSeq = seq,
              tt_RepresentedEventIDs =
                (if to_ResolutionEventIDs t = [] then [to_TriggerEventID t] else to_ResolutionEventIDs t),
              tt_Messages = messages, tt_ToolUseMappings = to_ToolUseMappings t, tt_CreatedAt = now\<rparr>]\<rparr>))"

text \<open>The input events that a completed turn consumed.\<close>

fun companionIDs :: "string \<Rightarrow> payload option \<Rightarrow> string list \<Rightarrow> string list \<Rightarrow> ledger \<Rightarrow> storeError + string list" where
  "companionIDs trigger triggerPayload [] processed l = Inr processed"
| "companionIDs trigger triggerPayload (i # is) processed l =
     bindE (case triggerPayload of
         Some p \<Rightarrow> if i = trigger then Inr p
                   else (case GetEvent i l of None \<Rightarrow> Inl NoRows | Some e \<Rightarrow> Inr (e_Payload e))
       | None \<Rightarrow> (case GetEvent i l of None \<Rightarrow> Inl NoRows | Some e \<Rightarrow> Inr (e_Payload e)))
       (\<lambda>p. let c = strOf (jget p InternalCompanionSystemEventID)
             in companionIDs trigger triggerPayload is
                  (if c \<noteq> [] then appendUniqueStrings processed [c] else processed) l)"

definition turnProcessedEventIDs ::
    "string \<Rightarrow> payload option \<Rightarrow> string list \<Rightarrow> string list \<Rightarrow> ledger \<Rightarrow> storeError + string list" where
  "turnProcessedEventIDs trigger triggerPayload resolutionEventIDs extra l =
     (let represented = (if resolutionEventIDs = [] then [trigger] else resolutionEventIDs)
      in bindE (companionIDs trigger triggerPayload represented (appendUniqueStrings [] represented) l) (\<lambda>processed.
           Inr (appendUniqueStrings processed extra)))"

definition markProcessed :: "time \<Rightarrow> string list \<Rightarrow> ledger \<Rightarrow> ledger" where
  "markProcessed now ids l = fold (MarkEventProcessed now) ids l"

text \<open>
  What a completion settles: the status of the Session and of the Thread that owns the turn, the
  drafts to publish, and how many messages still wait.
\<close>

record settlement =
  se_Status :: Status
  se_OwnerStatus :: Status
  se_Drafts :: "EventDraft list"
  se_Remaining :: nat

definition settleQueue :: "bool \<Rightarrow> bool \<Rightarrow> turnOutput \<Rightarrow> ledger \<Rightarrow> Status \<times> EventDraft list \<times> nat" where
  "settleQueue interrupted gated t l =
     (let waiting = CountUnprocessedUserMessages (to_TriggerEventID t) l
      in if interrupted then
           (if 0 < waiting \<and> \<not> gated then (StatusRunning, to_Drafts t @ [runningDraft], waiting)
            else (to_Status t, to_Drafts t, waiting))
         else if to_Status t = StatusIdle \<and> \<not> gated \<and> \<not> turnRetriesExhausted (to_Drafts t) then
           (if 0 < waiting then (StatusRunning, withoutTerminalIdle (to_Drafts t), waiting)
            else (to_Status t, to_Drafts t, waiting))
         else (to_Status t, to_Drafts t, 0))"

definition publishedDrafts ::
    "time \<Rightarrow> Session \<Rightarrow> Status \<Rightarrow> string list \<Rightarrow> EventDraft list \<Rightarrow> ledger \<Rightarrow> EventDraft list" where
  "publishedDrafts now session status pendingIDs drafts l =
     (if status \<noteq> StatusIdle then drafts
      else (let ids = appendUniqueStrings (SessionPendingClientActionEventIDs l) pendingIDs
            in if ids \<noteq> []
               then rewriteTerminalSessionIdleStopReason drafts
                      [(''type'', JStr ''requires_action''), (''event_ids'', JStrs ids)]
               else if BudgetReached session now
               then insertUsageBeforeTerminalIdle
                      (rewriteTerminalSessionIdleStopReason drafts [(''type'', JStr ''budget_reached'')])
                      \<lparr>d_ID = [], d_Type = EvSessionUsage, d_Payload = UsageEventPayload session now\<rparr>
               else drafts))"

definition settle ::
    "time \<Rightarrow> Session \<Rightarrow> bool \<Rightarrow> bool \<Rightarrow> bool \<Rightarrow> turnOutput \<Rightarrow> ledger \<Rightarrow> settlement" where
  "settle now session independentPrimary interrupted gated t l =
     (let (status1, drafts1, remaining) = settleQueue interrupted gated t l;
          childrenRun = (independentPrimary \<and> status1 = StatusIdle \<and> HasActiveChildThreads l);
          status2 = (if childrenRun then StatusRunning else status1);
          drafts2 = (if childrenRun then withoutTerminalIdle drafts1 else drafts1)
      in \<lparr>se_Status = status2, se_OwnerStatus = status1,
          se_Drafts = publishedDrafts now session status2 (to_PendingActionEventIDs t) drafts2 l,
          se_Remaining = remaining\<rparr>)"

definition putCompleted ::
    "time \<Rightarrow> Session \<Rightarrow> SessionThread option \<Rightarrow> settlement \<Rightarrow> TokenUsage \<Rightarrow> ledger \<Rightarrow> storeError + Session \<times> ledger" where
  "putCompleted now session primaryThread se usage l =
     (let s1 = session\<lparr>s_Usage := usageAdd (s_Usage session) usage\<rparr>;
          s2 = TransitionStatus (applyOutcomeResults s1 (se_Drafts se) now) (se_Status se) now
      in bindE (case primaryThread of
             None \<Rightarrow> putProjection s2 l
           | Some p \<Rightarrow> Inr (putSessionOnly s2 (putPrimaryThreadProjection
               (Thread_TransitionStatus (p\<lparr>t_Usage := usageAdd (t_Usage p) usage\<rparr>) (se_OwnerStatus se) now) l)))
         (\<lambda>l1. Inr (s2, l1)))"

definition commitTurn ::
    "runtime \<Rightarrow> Session \<Rightarrow> SessionThread option \<Rightarrow> Event \<Rightarrow> Event option \<Rightarrow> turnOutput \<Rightarrow> ledger \<Rightarrow>
     storeError + TurnCompletion \<times> ledger" where
  "commitTurn r session primaryThread trigger interrupt t l =
     (let now = rt_Now r; turn = to_TriggerEventID t
      in bindE (validatePendingCompletion (to_Status t) (to_Drafts t) (to_PendingActionEventIDs t)) (\<lambda>_.
         bindE (finishTurnAttempt now t l) (\<lambda>l1.
         bindE (resolvePendingBarrierLocked now (e_ThreadID trigger) turn (to_ResolutionEventIDs t) l1)
           (\<lambda>(resolvedPending, l2).
         (let gated = (HasUnresolvedPendingActions (e_ThreadID trigger) l2 \<or> to_PendingActionEventIDs t \<noteq> []);
              se = settle now session (primaryThread \<noteq> None) (interrupt \<noteq> None) gated t l2
          in bindE (appendDrafts r (se_Drafts se) (maxSeq l2) (Some turn) l2) (\<lambda>(events, finalSeq, l3).
             bindE (insertPendingActionsLocked r (e_ThreadID trigger) (to_PendingActionEventIDs t) events [] l3) (\<lambda>l4.
             bindE (InsertProviderTranscriptTurn now t finalSeq l4) (\<lambda>l5.
             bindE (turnProcessedEventIDs turn (Some (e_Payload trigger)) (to_ResolutionEventIDs t)
                      (case interrupt of None \<Rightarrow> [] | Some i \<Rightarrow> [e_ID i]) l5) (\<lambda>processed.
             (let l6 = markProcessed now processed l5;
                  l7 = (if turnRetriesExhausted (to_Drafts t) then FlushQueuedUserMessages now turn l6 else l6)
              in bindE (putCompleted now session primaryThread se (to_Usage t) l7) (\<lambda>(session', l8).
                 (let l9 = (if resolvedPending \<and> \<not> gated \<and> se_Status se = StatusRunning \<and> 0 < se_Remaining se
                            then wakePrimary r session finalSeq l8 else l8)
                  in Inr (\<lparr>tc_Session = session', tc_Events = events, tc_Applied = True,
                       tc_Parked = (to_PendingActionEventIDs t \<noteq> []), tc_ThreadStatus = None\<rparr>, l9)))))))))))))"

text \<open>A trigger whose turn has committed: its events are replayed and nothing changes.\<close>

definition turnCommitted :: "Session \<Rightarrow> Event \<Rightarrow> ledger \<Rightarrow> bool" where
  "turnCommitted session trigger l \<longleftrightarrow> e_ProcessedAt trigger \<noteq> None
     \<and> \<not> IsUnresolvedPendingResolution (e_ThreadID trigger) (e_ID trigger) l
     \<and> \<not> activeReceiptProcessedOutcome session (e_Type trigger) (e_Payload trigger)"

definition replayTurn :: "Session \<Rightarrow> string \<Rightarrow> ledger \<Rightarrow> TurnCompletion" where
  "replayTurn session triggerEventID l =
     \<lparr>tc_Session = session, tc_Events = ListEventsByTurn triggerEventID l, tc_Applied = False,
      tc_Parked = turnEventsParked (ListEventsByTurn triggerEventID l), tc_ThreadStatus = None\<rparr>"

definition completeTurn :: "runtime \<Rightarrow> turnOutput \<Rightarrow> ledger \<Rightarrow> storeError + TurnCompletion \<times> ledger" where
  "completeTurn r t l =
     bindE (LockSession l) (\<lambda>session.
     bindE (if ag_Multiagent (s_AgentSnapshot session) = None then Inr None
            else bindE (GetPrimarySessionThreadProjection l) (\<lambda>p. Inr (Some p))) (\<lambda>primaryThread.
     case GetEvent (to_TriggerEventID t) l of
       None \<Rightarrow> Inl (Refused (NotFound ''trigger event not found''))
     | Some trigger \<Rightarrow>
         if turnCommitted session trigger l then Inr (replayTurn session (to_TriggerEventID t) l, l)
         else (case (if e_Type trigger = EvUserInterrupt then None
                     else FirstUnprocessedInterruptAfter (e_Sequence trigger) l) of
             None \<Rightarrow> commitTurn r session primaryThread trigger None t l
           | Some interrupt \<Rightarrow>
               commitTurn r session primaryThread trigger (Some interrupt)
                 (interruptedOutput
                    (if activeReceiptProcessedOutcome session (e_Type trigger) (e_Payload trigger)
                     then ActiveOutcome session else None) t) l)))"

definition CompleteWorkflowTurnWithTranscriptAndUsage ::
    "runtime \<Rightarrow> turnOutput \<Rightarrow> ledger \<Rightarrow> storeError + TurnCompletion \<times> ledger" where
  "CompleteWorkflowTurnWithTranscriptAndUsage r t l =
     (if to_AttemptID t = []
      then if to_AttemptState t \<noteq> None \<or> to_AttemptError t \<noteq> None
           then Inl (Refused (Validation ''attempt state requires an attempt id''))
           else completeTurn r t l
      else bindE (case to_AttemptState t of
               None \<Rightarrow> Inl (Refused (Validation ''invalid terminal attempt state''))
             | Some state \<Rightarrow> validateAttemptFinish state (to_AttemptError t)) (\<lambda>_. completeTurn r t l))"

section \<open>Child completion (internal/pg/thread_completion.go)\<close>

definition isThreadLifecycleEvent :: "string \<Rightarrow> bool" where
  "isThreadLifecycleEvent t \<longleftrightarrow> t \<in> {EvSessionThreadStatusIdle, EvSessionThreadStatusRunning,
     EvSessionThreadStatusRescheduled, EvSessionThreadStatusTerminated}"

definition threadEventType :: "string \<Rightarrow> string" where
  "threadEventType t =
     (if t = EvSessionStatusIdle then EvSessionThreadStatusIdle
      else if t = EvSessionStatusRunning then EvSessionThreadStatusRunning
      else if t = EvSessionStatusTerminated then EvSessionThreadStatusTerminated
      else if t = EvSessionStatusRescheduling then EvSessionThreadStatusRescheduled
      else t)"

definition childThreadDraft :: "string \<Rightarrow> string \<Rightarrow> EventDraft \<Rightarrow> EventDraft" where
  "childThreadDraft threadID agentName d =
     (let t = threadEventType (d_Type d)
      in d\<lparr>d_Type := t,
           d_Payload := (if isThreadLifecycleEvent t
             then aput ''agent_name'' (JStr agentName) (aput ''session_thread_id'' (JStr threadID) (d_Payload d))
             else d_Payload d)\<rparr>)"

definition reportDraft :: "string \<Rightarrow> string \<Rightarrow> EventDraft \<Rightarrow> EventDraft" where
  "reportDraft primaryThreadID primaryAgentName d =
     \<lparr>d_ID = [], d_Type = EvAgentThreadMessageSent,
      d_Payload = [(''to_session_thread_id'', JStr primaryThreadID), (''to_agent_name'', JStr primaryAgentName),
        (''content'', case jget (d_Payload d) ''content'' of None \<Rightarrow> JNull | Some v \<Rightarrow> v)]\<rparr>"

text \<open>The last agent message, counted from the back, is the one that reports to the coordinator.\<close>

fun childDraftsRev :: "string \<Rightarrow> string \<Rightarrow> string \<Rightarrow> string \<Rightarrow> bool \<Rightarrow> EventDraft list \<Rightarrow> EventDraft list" where
  "childDraftsRev threadID agentName primaryThreadID primaryAgentName report [] = []"
| "childDraftsRev threadID agentName primaryThreadID primaryAgentName report (d # ds) =
     (if report \<and> d_Type d = EvAgentMessage
      then reportDraft primaryThreadID primaryAgentName d
             # childDraftsRev threadID agentName primaryThreadID primaryAgentName False ds
      else childThreadDraft threadID agentName d
             # childDraftsRev threadID agentName primaryThreadID primaryAgentName report ds)"

definition childThreadDrafts ::
    "EventDraft list \<Rightarrow> string \<Rightarrow> string \<Rightarrow> string \<Rightarrow> string \<Rightarrow> bool \<Rightarrow> EventDraft list" where
  "childThreadDrafts drafts threadID agentName primaryThreadID primaryAgentName reportFinalMessage =
     rev (childDraftsRev threadID agentName primaryThreadID primaryAgentName reportFinalMessage (rev drafts))"

definition projectID :: "(string \<times> string) list \<Rightarrow> string \<Rightarrow> string" where
  "projectID clientIDs i = (case map_of clientIDs i of None \<Rightarrow> i | Some c \<Rightarrow> if c = [] then i else c)"

definition projectChildLifecycleDraft :: "EventDraft \<Rightarrow> (string \<times> string) list \<Rightarrow> EventDraft" where
  "projectChildLifecycleDraft d clientIDs =
     (if \<not> requiresAction (d_Payload d) then d
      else (let stop = stopReason (d_Payload d);
                projected = (case stringList (jget stop ''event_ids'') of
                    None \<Rightarrow> stop
                  | Some ids \<Rightarrow> aput ''event_ids'' (JStrs (map (projectID clientIDs) (elems ids))) stop)
            in d\<lparr>d_Payload := aput ''stop_reason'' (JObj projected) (d_Payload d)\<rparr>))"

definition lastAgentMessageContent :: "EventDraft list \<Rightarrow> jval list" where
  "lastAgentMessageContent drafts =
     (case find (\<lambda>d. d_Type d = EvAgentMessage) (rev drafts) of
        None \<Rightarrow> []
      | Some d \<Rightarrow> (case asArr (jget (d_Payload d) ''content'') of None \<Rightarrow> [] | Some xs \<Rightarrow> xs))"

definition terminatedChildReport :: "runtime \<Rightarrow> string \<Rightarrow> EventDraft list \<Rightarrow> jval list" where
  "terminatedChildReport r agentName drafts =
     (let e = (case find (\<lambda>d. d_Type d = EvSessionError) (rev drafts) of
                 None \<Rightarrow> [] | Some d \<Rightarrow> objOf (jget (d_Payload d) ''error''));
          errorType = strOf (jget e ''type''); message = strOf (jget e ''message'');
          start = ''Agent '' @ rt_Quote r agentName @ '' terminated before completing its task'';
          text' = (if errorType \<noteq> [] \<and> message \<noteq> [] then start @ '' ('' @ errorType @ ''): '' @ message
                   else if message \<noteq> [] then start @ '': '' @ message
                   else if errorType \<noteq> [] then start @ '' ('' @ errorType @ '').''
                   else start @ ''.'')
      in [JObj [(''type'', JStr ''text''), (''text'', JStr text')]])"

definition coordinatorCanAcceptReport :: "SessionThread \<Rightarrow> bool" where
  "coordinatorCanAcceptReport t \<longleftrightarrow> t_ArchivedAt t = None \<and> t_Status t \<noteq> StatusTerminated"

text \<open>The drafts of a child before they are renamed for its own ledger.\<close>

definition settleChild ::
    "time \<Rightarrow> Session \<Rightarrow> string \<Rightarrow> bool \<Rightarrow> bool \<Rightarrow> turnOutput \<Rightarrow> ledger \<Rightarrow> Status \<times> EventDraft list" where
  "settleChild now session threadID interrupted gated t l =
     (let waiting = CountUnprocessedThreadMessages threadID (to_TriggerEventID t) l;
          (status, drafts) =
            (if to_Status t = StatusIdle \<and> \<not> gated \<and> 0 < waiting \<and> interrupted
             then (StatusRunning, to_Drafts t @ [runningDraft])
             else if to_Status t = StatusIdle \<and> \<not> gated \<and> 0 < waiting \<and> \<not> turnRetriesExhausted (to_Drafts t)
             then (StatusRunning, withoutTerminalIdle (to_Drafts t))
             else (to_Status t, to_Drafts t))
      in (status,
          if status = StatusIdle \<and> \<not> gated \<and> BudgetReached session now
          then rewriteTerminalSessionIdleStopReason drafts [(''type'', JStr ''budget_reached'')] else drafts))"

text \<open>The client-facing copies of the actions that a child parks on.\<close>

fun projectActions ::
    "runtime \<Rightarrow> string \<Rightarrow> string list \<Rightarrow> Event list \<Rightarrow> ledger \<Rightarrow>
     storeError + (string \<times> string) list \<times> EventDraft list \<times> ledger" where
  "projectActions r threadID [] allowed l = Inr ([], [], l)"
| "projectActions r threadID (i # is) allowed l =
     (case eventMap allowed i of
        None \<Rightarrow> Inl (Refused (Validation ''pending action must reference an action event committed by this turn''))
      | Some action \<Rightarrow>
          if PendingActionKindForEvent (e_Type action) (e_Payload action) = None
          then Inl (Refused (Validation ''event cannot park a pending action''))
          else (let (c, l1) = NewID r PrefixEvent l
                in bindE (projectActions r threadID is allowed l1) (\<lambda>(ids, drafts, l2).
                  Inr ((i, c) # ids,
                       \<lparr>d_ID = c, d_Type = e_Type action,
                        d_Payload = aput ''session_thread_id'' (JStr threadID) (e_Payload action)\<rparr> # drafts, l2))))"

fun appendEach ::
    "runtime \<Rightarrow> string \<Rightarrow> EventDraft list \<Rightarrow> int \<Rightarrow> string option \<Rightarrow> ledger \<Rightarrow>
     storeError + Event list \<times> int \<times> ledger" where
  "appendEach r threadID [] seq turn l = Inr ([], seq, l)"
| "appendEach r threadID (d # ds) seq turn l =
     bindE (appendThreadDrafts r threadID [d] seq turn l) (\<lambda>(es, n, l1).
     bindE (appendEach r threadID ds n turn l1) (\<lambda>(es', m, l2). Inr (es @ es', m, l2)))"

definition wakeCoordinator :: "runtime \<Rightarrow> Session \<Rightarrow> string \<Rightarrow> int \<Rightarrow> ledger \<Rightarrow> storeError + ledger" where
  "wakeCoordinator r session primaryID seq l =
     bindE (loadSessionThreadForUpdate primaryID l) (\<lambda>primary.
       if \<not> coordinatorCanAcceptReport primary then Inr l
       else bindE (if t_Status primary = StatusIdle
              then putSessionThreadTx (Thread_TransitionStatus primary StatusRunning (rt_Now r)) l else Inr l)
            (\<lambda>l1. Inr (wakePrimary r session seq l1)))"

definition sessionStatusDrafts :: "time \<Rightarrow> Session \<Rightarrow> ledger \<Rightarrow> EventDraft list" where
  "sessionStatusDrafts now session l =
     (case s_Status session of
        StatusRunning \<Rightarrow> [runningDraft]
      | StatusIdle \<Rightarrow>
          (let ids = SessionPendingClientActionEventIDs l;
               idle = (\<lambda>reason. \<lparr>d_ID = [], d_Type = EvSessionStatusIdle, d_Payload = [(''stop_reason'', JObj reason)]\<rparr>)
           in if ids \<noteq> [] then [idle [(''type'', JStr ''requires_action''), (''event_ids'', JStrs ids)]]
              else if BudgetReached session now
              then [\<lparr>d_ID = [], d_Type = EvSessionUsage, d_Payload = UsageEventPayload session now\<rparr>,
                    idle [(''type'', JStr ''budget_reached'')]]
              else [idle [(''type'', JStr ''end_turn'')]])
      | StatusRescheduling \<Rightarrow> [\<lparr>d_ID = [], d_Type = EvSessionStatusRescheduling, d_Payload = []\<rparr>]
      | StatusTerminated \<Rightarrow> [])"

definition unarchivedStatuses :: "ledger \<Rightarrow> Status" where
  "unarchivedStatuses l = aggregateSessionThreadStatus (map snd (lg_Threads l)) (s_ID (lg_Session l))"

definition settleSession ::
    "runtime \<Rightarrow> Session \<Rightarrow> string \<Rightarrow> bool \<Rightarrow> TokenUsage \<Rightarrow> string \<Rightarrow> int \<Rightarrow> ledger \<Rightarrow>
     storeError + Session \<times> Event list \<times> ledger" where
  "settleSession r session primaryID boundaryChanged usage turn seq l =
     (let aggregated = unarchivedStatuses l;
          s1 = TransitionStatus (session\<lparr>s_Usage := usageAdd (s_Usage session) usage\<rparr>) aggregated (rt_Now r);
          l1 = putSessionOnly s1 l
      in if s_Status session \<noteq> aggregated \<or> aggregated = StatusIdle \<and> boundaryChanged
         then bindE (appendThreadDrafts r primaryID (sessionStatusDrafts (rt_Now r) s1 l1) seq (Some turn) l1)
                (\<lambda>(es, _, l2). Inr (s1, es, l2))
         else Inr (s1, [], l1))"

definition commitThreadTurn ::
    "runtime \<Rightarrow> Session \<Rightarrow> SessionThread \<Rightarrow> string \<Rightarrow> Event \<Rightarrow> Event option \<Rightarrow> turnOutput \<Rightarrow> ledger \<Rightarrow>
     storeError + TurnCompletion \<times> ledger" where
  "commitThreadTurn r session thread primaryID trigger interrupt t l =
     (let now = rt_Now r; turn = to_TriggerEventID t; threadID = t_ID thread; agent = ag_Name (t_Agent thread);
          pending = to_PendingActionEventIDs t
      in bindE (validatePendingCompletion (to_Status t) (to_Drafts t) pending) (\<lambda>_.
         bindE (if to_AttemptID t = [] then Inr ()
                else (case to_AttemptState t of
                    None \<Rightarrow> Inl (Refused (Validation ''invalid terminal attempt state''))
                  | Some state \<Rightarrow> validateAttemptFinish state (to_AttemptError t))) (\<lambda>_.
         bindE (finishTurnAttempt now t l) (\<lambda>l1.
         bindE (resolvePendingBarrierLocked now threadID turn (to_ResolutionEventIDs t) l1) (\<lambda>(resolvedPending, l2).
         (let gated = (HasUnresolvedPendingActions threadID l2 \<or> pending \<noteq> []);
              (status, effective) = settleChild now session threadID (interrupt \<noteq> None) gated t l2;
              finalReport = (if interrupt = None \<and> to_Status t = StatusIdle \<and> pending = []
                             then lastAgentMessageContent (to_Drafts t) else []);
              report = (if to_Status t = StatusTerminated then terminatedChildReport r agent (to_Drafts t) else finalReport);
              drafts = childThreadDrafts effective threadID agent primaryID (ag_Name (s_AgentSnapshot session))
                         (finalReport \<noteq> [])
          in bindE (appendThreadDrafts r threadID drafts (maxSeq l2) (Some turn) l2) (\<lambda>(childEvents, seq3, l3).
             bindE (projectActions r threadID pending childEvents l3) (\<lambda>(clientIDs, copies, l4).
             bindE (appendThreadDrafts r primaryID copies seq3 (Some turn) l4) (\<lambda>(copyEvents, seq5, l5).
             bindE (insertPendingActionsLocked r threadID pending childEvents clientIDs l5) (\<lambda>l6.
             bindE (if report = [] then Inr ([], seq5, l6)
                    else appendThreadDrafts r primaryID
                      [\<lparr>d_ID = [], d_Type = EvAgentThreadMessageReceived,
                        d_Payload = [(''from_session_thread_id'', JStr threadID), (''from_agent_name'', JStr agent),
                          (''content'', JArr report)]\<rparr>] seq5 None l6) (\<lambda>(reportEvents, seq7, l7).
             bindE (appendEach r primaryID
                      (map (\<lambda>d. projectChildLifecycleDraft d clientIDs)
                        (filter (\<lambda>d. isThreadLifecycleEvent (d_Type d)) drafts)) seq7 (Some turn) l7)
               (\<lambda>(crossEvents, seq8, l8).
             bindE (InsertProviderTranscriptTurn now t seq8 l8) (\<lambda>l9.
             bindE (turnProcessedEventIDs turn None (to_ResolutionEventIDs t)
                      (case interrupt of None \<Rightarrow> [] | Some i \<Rightarrow> [e_ID i]) l9) (\<lambda>processed.
             (let l10 = markProcessed now processed l9;
                  l11 = (if turnRetriesExhausted (to_Drafts t)
                         then FlushQueuedThreadMessages now threadID turn l10 else l10);
                  thread1 = Thread_TransitionStatus
                    (thread\<lparr>t_Usage := usageAdd (t_Usage thread) (to_Usage t)\<rparr>) status now
              in bindE (putSessionThreadTx thread1 l11) (\<lambda>l12.
                 bindE (if report = [] then Inr l12 else wakeCoordinator r session primaryID seq8 l12) (\<lambda>l13.
                 bindE (settleSession r session primaryID (pending \<noteq> [] \<or> resolvedPending) (to_Usage t) turn seq8 l13)
                   (\<lambda>(session', statusEvents, l14).
                   Inr (\<lparr>tc_Session = session',
                     tc_Events = childEvents @ copyEvents @ reportEvents @ crossEvents @ statusEvents,
                     tc_Applied = True, tc_Parked = (pending \<noteq> []), tc_ThreadStatus = Some (t_Status thread1)\<rparr>,
                     l14)))))))))))))))))))"

definition CompleteThreadWorkflowTurn ::
    "runtime \<Rightarrow> string \<Rightarrow> turnOutput \<Rightarrow> ledger \<Rightarrow> storeError + TurnCompletion \<times> ledger" where
  "CompleteThreadWorkflowTurn r threadID t l =
     bindE (validatePendingCompletion (to_Status t) (to_Drafts t) (to_PendingActionEventIDs t)) (\<lambda>_.
     bindE (LockSession l) (\<lambda>session.
     bindE (loadSessionThreadForUpdate threadID l) (\<lambda>thread.
     case t_ParentThreadID thread of
       None \<Rightarrow> Inl (Refused (Conflict ''child completion cannot target the primary Thread''))
     | Some primaryID \<Rightarrow> (case GetEvent (to_TriggerEventID t) l of
         None \<Rightarrow> Inl (Refused (NotFound ''trigger event not found''))
       | Some trigger \<Rightarrow>
           if e_ThreadID trigger \<noteq> threadID
           then Inl (Refused (Conflict ''trigger event belongs to another Thread''))
           else if t_ArchivedAt thread \<noteq> None \<or> t_Status thread = StatusTerminated
           then Inr (\<lparr>tc_Session = session, tc_Events = [], tc_Applied = False, tc_Parked = False,
                      tc_ThreadStatus = Some StatusTerminated\<rparr>, l)
           else if e_ProcessedAt trigger \<noteq> None
               \<and> \<not> IsUnresolvedPendingResolution threadID (to_TriggerEventID t) l
           then Inr ((replayTurn session (to_TriggerEventID t) l)\<lparr>tc_ThreadStatus := Some (t_Status thread)\<rparr>, l)
           else (case (if e_Type trigger = EvUserInterrupt then None
                       else FirstUnprocessedThreadInterruptAfter threadID (e_Sequence trigger) l) of
               None \<Rightarrow> commitThreadTurn r session thread primaryID trigger None t l
             | Some interrupt \<Rightarrow>
                 commitThreadTurn r session thread primaryID trigger (Some interrupt) (interruptedOutput None t) l)))))"

end
