(* ===== verification/Turns.thy ===== *)
theory Turns
  imports Completion
begin

text \<open>
  What the transactions of admission and completion guarantee: the ledger is append-only, a redelivered
  completion replays, an interrupted turn leaves nothing half done, no message waits in an idle Session.
\<close>

section \<open>Appending\<close>

definition encoded :: "runtime \<Rightarrow> Event \<Rightarrow> Event \<Rightarrow> bool" where
  "encoded r e s \<longleftrightarrow> (\<exists>p. rt_Recode r (e_Payload e) = Some p \<and> s = e\<lparr>e_Payload := p\<rparr>)"

lemma encoded_sel:
  "encoded r e s \<Longrightarrow> e_ID s = e_ID e \<and> e_Sequence s = e_Sequence e \<and> e_Type s = e_Type e \<and> e_ThreadID s = e_ThreadID e
     \<and> e_ProcessedAt s = e_ProcessedAt e \<and> e_TurnEventID s = e_TurnEventID e \<and> e_SessionID s = e_SessionID e"
  by (auto simp: encoded_def)

lemma NewID_eq: "NewID r pfx l = (rt_NewID r pfx (lg_Drawn l), l\<lparr>lg_Drawn := Suc (lg_Drawn l)\<rparr>)"
  by (simp add: NewID_def)

lemma InsertEvent_ok:
  "InsertEvent e l = Inr l' \<longleftrightarrow> e_ID e \<notin> set (map e_ID (lg_Events l)) \<and> e_Sequence e \<notin> set (map e_Sequence (lg_Events l))
     \<and> e_ThreadID e \<in> set (map (t_ID \<circ> snd) (lg_Threads l)) \<and> l' = l\<lparr>lg_Events := lg_Events l @ [e]\<rparr>"
  by (auto simp: InsertEvent_def)

text \<open>The effect of appending a batch: fresh rows with consecutive sequence numbers, one per draft.\<close>

definition appended ::
    "runtime \<Rightarrow> string \<Rightarrow> EventDraft list \<Rightarrow> int \<Rightarrow> string option \<Rightarrow> ledger \<Rightarrow> Event list \<Rightarrow> ledger \<Rightarrow> bool" where
  "appended r threadID ds seq turn l es l' \<longleftrightarrow>
     (\<exists>stored n. l' = l\<lparr>lg_Events := lg_Events l @ stored, lg_Drawn := n\<rparr> \<and> list_all2 (encoded r) es stored
        \<and> distinct (map e_ID stored) \<and> set (map e_ID stored) \<inter> set (map e_ID (lg_Events l)) = {})
     \<and> map e_Sequence es = map (\<lambda>i. seq + 1 + int i) [0..<length ds]
     \<and> list_all2 (\<lambda>d e. e = newEvent r (s_ID (lg_Session l)) threadID (e_ID e) (e_Sequence e) turn d
          \<and> (d_ID d \<noteq> [] \<longrightarrow> e_ID e = d_ID d)) ds es"

lemma upt_shift: "map (\<lambda>i. seq + 1 + int i) [0..<Suc n] = (seq + 1) # map (\<lambda>i. seq + 1 + 1 + int i) [0..<n]"
  by (simp only: upt_conv_Cons map_Suc_upt [symmetric] zero_less_Suc list.map map_map o_def) simp

lemma append_effect:
  "appendThreadDrafts r threadID ds seq turn l = Inr (es, n, l') \<Longrightarrow>
     n = seq + int (length ds) \<and> appended r threadID ds seq turn l es l'"
proof (induction ds arbitrary: seq l es n l')
  case Nil
  then show ?case by (auto simp: appended_def intro!: exI [of _ "lg_Drawn l"])
next
  case (Cons d ds)
  obtain i l1 where i: "(if d_ID d = [] then NewID r PrefixEvent l else (d_ID d, l)) = (i, l1)" by fastforce
  have l1: "\<exists>k. l1 = l\<lparr>lg_Drawn := k\<rparr>" and di: "d_ID d \<noteq> [] \<longrightarrow> i = d_ID d"
    using i by (auto simp: NewID_eq split: if_splits intro: exI [of _ "lg_Drawn l"])
  define e where "e = newEvent r (s_ID (lg_Session l)) threadID i (seq + 1) turn d"
  from Cons.prems i obtain stored l2 es' l3 where
      st: "rt_Recode r (d_Payload d) = Some stored" "InsertEvent (e\<lparr>e_Payload := stored\<rparr>) l1 = Inr l2"
    and rec: "appendThreadDrafts r threadID ds (seq + 1) turn l2 = Inr (es', n, l')" and es: "es = e # es'"
    by (auto simp: e_def Let_def bindE_Inr_iff split: option.splits)
  from Cons.IH [OF rec] obtain more k2 where n: "n = seq + 1 + int (length ds)"
    and l': "l' = l2\<lparr>lg_Events := lg_Events l2 @ more, lg_Drawn := k2\<rparr>" "list_all2 (encoded r) es' more"
      "distinct (map e_ID more)" "set (map e_ID more) \<inter> set (map e_ID (lg_Events l2)) = {}"
    and sq: "map e_Sequence es' = map (\<lambda>i. seq + 1 + 1 + int i) [0..<length ds]"
    and al: "list_all2 (\<lambda>d e. e = newEvent r (s_ID (lg_Session l2)) threadID (e_ID e) (e_Sequence e) turn d
          \<and> (d_ID d \<noteq> [] \<longrightarrow> e_ID e = d_ID d)) ds es'"
    by (auto simp: appended_def)
  from l1 st(2) obtain k where l2: "l2 = l\<lparr>lg_Drawn := k, lg_Events := lg_Events l @ [e\<lparr>e_Payload := stored\<rparr>]\<rparr>"
    and new: "i \<notin> set (map e_ID (lg_Events l))"
    by (auto simp: InsertEvent_ok e_def newEvent_def)
  have ei: "e_ID e = i" "e_Sequence e = seq + 1" "e_Payload e = d_Payload d" by (simp_all add: e_def newEvent_def)
  have enc: "encoded r e (e\<lparr>e_Payload := stored\<rparr>)" using st(1) ei by (auto simp: encoded_def)
  show ?case unfolding appended_def
  proof (intro conjI exI)
    show "n = seq + int (length (d # ds))" using n by simp
    show "l' = l\<lparr>lg_Events := lg_Events l @ (e\<lparr>e_Payload := stored\<rparr> # more), lg_Drawn := k2\<rparr>"
      unfolding l'(1) l2 by simp
    show "list_all2 (encoded r) es (e\<lparr>e_Payload := stored\<rparr> # more)" using es enc l'(2) by simp
    show "distinct (map e_ID (e\<lparr>e_Payload := stored\<rparr> # more))" using l'(3,4) ei by (auto simp: l2)
    show "set (map e_ID (e\<lparr>e_Payload := stored\<rparr> # more)) \<inter> set (map e_ID (lg_Events l)) = {}"
      using l'(4) ei new by (auto simp: l2)
    show "map e_Sequence es = map (\<lambda>i. seq + 1 + int i) [0..<length (d # ds)]"
      unfolding es length_Cons upt_shift using sq ei by simp
    show "list_all2 (\<lambda>d e. e = newEvent r (s_ID (lg_Session l)) threadID (e_ID e) (e_Sequence e) turn d
          \<and> (d_ID d \<noteq> [] \<longrightarrow> e_ID e = d_ID d)) (d # ds) es"
      using al di unfolding es l2 by (auto simp: e_def newEvent_def)
  qed
qed

section \<open>The ledger grows\<close>

definition stamped :: "Event \<Rightarrow> Event \<Rightarrow> bool" where
  "stamped e e' \<longleftrightarrow> e' = e \<or> e_ProcessedAt e = None \<and> e_ProcessedAt e' \<noteq> None \<and> e'\<lparr>e_ProcessedAt := None\<rparr> = e"

text \<open>Rows are never changed but for their processing time, set once, and rows come only at the end, numbered on.\<close>

definition grows :: "ledger \<Rightarrow> ledger \<Rightarrow> bool" where
  "grows l l' \<longleftrightarrow> (\<exists>old new. lg_Events l' = old @ new \<and> list_all2 stamped (lg_Events l) old)"

definition logOk :: "ledger \<Rightarrow> bool" where
  "logOk l \<longleftrightarrow> sorted_wrt (<) (map e_Sequence (lg_Events l)) \<and> distinct (map e_ID (lg_Events l))"

definition upTo :: "int \<Rightarrow> ledger \<Rightarrow> bool" where
  "upTo n l \<longleftrightarrow> list_all (\<lambda>k. k \<le> n) (map e_Sequence (lg_Events l))"

lemma stamped_trans: "stamped a b \<Longrightarrow> stamped b c \<Longrightarrow> stamped a c"
  by (auto simp: stamped_def)

lemma stamped_refl [simp]: "stamped e e"
  by (simp add: stamped_def)

lemma stamped_sel: "stamped e e' \<Longrightarrow> e_ID e' = e_ID e \<and> e_Sequence e' = e_Sequence e"
  by (auto simp: stamped_def)

lemma stamped_event: "stamped e (stampProcessed now e)"
  by (cases "e_ProcessedAt e") (auto simp: stamped_def stampProcessed_def)

lemma grows_refl [simp]: "grows l l"
  unfolding grows_def by (rule exI [of _ "lg_Events l"], rule exI [of _ "[]"]) (simp add: list_all2_refl)

lemma grows_trans: "grows a b \<Longrightarrow> grows b c \<Longrightarrow> grows a c"
proof -
  assume "grows a b" "grows b c"
  then obtain old new old' new' where b: "lg_Events b = old @ new" "list_all2 stamped (lg_Events a) old"
    and c: "lg_Events c = old' @ new'" "list_all2 stamped (lg_Events b) old'" by (auto simp: grows_def)
  from c(2) obtain xs ys where o': "old' = xs @ ys" "list_all2 stamped old xs"
    unfolding b(1) by (auto simp: list_all2_append1)
  have "list_all2 stamped (lg_Events a) xs"
    by (rule list_all2_trans [OF _ b(2) o'(2)]) (rule stamped_trans)
  then show ?thesis unfolding grows_def using c(1) o'(1) by (intro exI [of _ xs] exI [of _ "ys @ new'"]) simp
qed

lemma grows_same: "lg_Events l' = lg_Events l \<Longrightarrow> grows l l'"
  unfolding grows_def by (rule exI [of _ "lg_Events l"], rule exI [of _ "[]"]) (simp add: list_all2_refl)

lemma grows_stamp:
  "lg_Events l' = updateWhere p (stampProcessed now) (lg_Events l) \<Longrightarrow> grows l l'"
  unfolding grows_def updateWhere_map
  by (rule exI [of _ "lg_Events l'"], rule exI [of _ "[]"]) (auto simp: list_all2_conv_all_nth stamped_event)

lemma grows_append: "lg_Events l' = lg_Events l @ new \<Longrightarrow> grows l l'"
  unfolding grows_def by (rule exI [of _ "lg_Events l"], rule exI [of _ new]) (simp add: list_all2_refl)

lemma logOk_same: "lg_Events l' = lg_Events l \<Longrightarrow> logOk l' = logOk l \<and> upTo n l' = upTo n l"
  by (simp add: logOk_def upTo_def)

lemma map_stamp:
  "map e_ID (updateWhere p (stampProcessed now) es) = map e_ID es"
  "map e_Sequence (updateWhere p (stampProcessed now) es) = map e_Sequence es"
  by (rule map_updateWhere_inv, simp add: stampProcessed_def)+

lemma logOk_stamp:
  "lg_Events l' = updateWhere p (stampProcessed now) (lg_Events l) \<Longrightarrow> logOk l' = logOk l \<and> upTo n l' = upTo n l"
  by (simp add: logOk_def upTo_def map_stamp del: list.pred_map)

lemma upTo_maxSeq: "upTo (maxSeq l) l"
proof -
  have "x \<in> set (k # ks) \<Longrightarrow> x \<le> foldr max ks k" for x k :: int and ks
    by (induction ks) auto
  then show ?thesis unfolding upTo_def maxSeq_def list_all_iff
    by (cases "map e_Sequence (lg_Events l)") simp_all
qed

lemma appended_log:
  assumes "appended r threadID ds seq turn l es l'" "logOk l" "upTo seq l"
  shows "logOk l' \<and> upTo (seq + int (length ds)) l' \<and> grows l l'"
proof -
  from assms(1) obtain stored n where l': "l' = l\<lparr>lg_Events := lg_Events l @ stored, lg_Drawn := n\<rparr>"
    and enc: "list_all2 (encoded r) es stored" and ids: "distinct (map e_ID stored)"
      "set (map e_ID stored) \<inter> set (map e_ID (lg_Events l)) = {}"
    and sq: "map e_Sequence es = map (\<lambda>i. seq + 1 + int i) [0..<length ds]"
    by (auto simp: appended_def)
  have st: "map e_Sequence stored = map (\<lambda>i. seq + 1 + int i) [0..<length ds]"
    unfolding sq [symmetric] using enc by (auto simp: list_all2_conv_all_nth encoded_sel intro!: nth_equalityI)
  have "sorted_wrt (<) (map e_Sequence stored)" unfolding st by (auto simp: sorted_wrt_iff_nth_less)
  moreover have rng: "\<forall>k \<in> set (map e_Sequence stored). seq < k \<and> k \<le> seq + int (length ds)"
    unfolding st by auto
  ultimately have "logOk l'"
    using assms(2,3) ids unfolding l' logOk_def upTo_def by (fastforce simp: sorted_wrt_append list_all_iff)
  moreover have "upTo (seq + int (length ds)) l'"
    using assms(3) rng unfolding l' upTo_def list_all_iff by (fastforce simp del: set_map)
  ultimately show ?thesis using grows_append [of l' l stored] by (simp add: l')
qed

lemma append_log:
  assumes "appendThreadDrafts r threadID ds seq turn l = Inr (es, n, l')" "logOk l" "upTo seq l"
  shows "logOk l'" "upTo n l'" "grows l l'"
  using append_effect [OF assms(1)] appended_log [OF _ assms(2,3)] by auto

section \<open>The steps of a completion\<close>

definition gatedAfter :: "Event \<Rightarrow> turnOutput \<Rightarrow> ledger \<Rightarrow> bool" where
  "gatedAfter trigger t l \<longleftrightarrow>
     HasUnresolvedPendingActions (e_ThreadID trigger) l \<or> to_PendingActionEventIDs t \<noteq> []"

lemma commitTurn_steps:
  assumes "commitTurn r session primaryThread trigger interrupt t l = Inr (c, l')"
  obtains l1 resolved l2 se events finalSeq l3 l4 l5 processed session' l8 where
    "validatePendingCompletion (to_Status t) (to_Drafts t) (to_PendingActionEventIDs t) = Inr ()"
    "finishTurnAttempt (rt_Now r) t l = Inr l1"
    "resolvePendingBarrierLocked (rt_Now r) (e_ThreadID trigger) (to_TriggerEventID t) (to_ResolutionEventIDs t) l1
       = Inr (resolved, l2)"
    "se = settle (rt_Now r) session (primaryThread \<noteq> None) (interrupt \<noteq> None) (gatedAfter trigger t l2) t l2"
    "appendDrafts r (se_Drafts se) (maxSeq l2) (Some (to_TriggerEventID t)) l2 = Inr (events, finalSeq, l3)"
    "insertPendingActionsLocked r (e_ThreadID trigger) (to_PendingActionEventIDs t) events [] l3 = Inr l4"
    "InsertProviderTranscriptTurn (rt_Now r) t finalSeq l4 = Inr l5"
    "turnProcessedEventIDs (to_TriggerEventID t) (Some (e_Payload trigger)) (to_ResolutionEventIDs t)
       (case interrupt of None \<Rightarrow> [] | Some i \<Rightarrow> [e_ID i]) l5 = Inr processed"
    "putCompleted (rt_Now r) session primaryThread se (to_Usage t)
       (if turnRetriesExhausted (to_Drafts t)
        then FlushQueuedUserMessages (rt_Now r) (to_TriggerEventID t) (markProcessed (rt_Now r) processed l5)
        else markProcessed (rt_Now r) processed l5) = Inr (session', l8)"
    "l' = (if resolved \<and> \<not> gatedAfter trigger t l2 \<and> se_Status se = StatusRunning \<and> 0 < se_Remaining se
           then wakePrimary r session finalSeq l8 else l8)"
    "c = \<lparr>tc_Session = session', tc_Events = events, tc_Applied = True,
        tc_Parked = (to_PendingActionEventIDs t \<noteq> []), tc_ThreadStatus = None\<rparr>"
  using assms
  unfolding commitTurn_def Let_def gatedAfter_def [symmetric] bindE_Inr_iff split_paired_Ex prod.case
  by (elim exE conjE) (rule that [OF _ _ _ refl], (assumption | simp only: sum.inject prod.inject unit_eq)+)

section \<open>What each step changes\<close>

lemma finishTurnAttempt_frame: "finishTurnAttempt now t l = Inr l1 \<Longrightarrow> \<exists>j. l1 = l\<lparr>lg_Journal := j\<rparr>"
  by (auto simp: finishTurnAttempt_def bindE_Inr_iff split: if_splits option.splits
      intro: exI [of _ "lg_Journal l"])

lemma resolve_frame:
  assumes "resolvePendingBarrierLocked now th trigger ids l = Inr (b, l')"
  shows "\<exists>q. lg_Pending l' = updateWhere q (\<lambda>x. x\<lparr>pa_ResolvedAt := Some now\<rparr>) (lg_Pending l)
    \<and> l' = l\<lparr>lg_Pending := lg_Pending l'\<rparr>"
proof (cases "ids = []")
  case True
  with assms show ?thesis
    by (auto simp: resolvePendingBarrierLocked_def ResolvePendingActionsForTrigger_def resolveWhere_def Let_def)
next
  case False
  from barrier_clears(2) [OF assms False] barrier_rows(7) [OF assms False] show ?thesis
    by (auto simp: ResolvePendingActionsForEvents_def resolveWhere_def)
qed

definition freshAction :: "string \<Rightarrow> PendingAction \<Rightarrow> bool" where
  "freshAction th p \<longleftrightarrow> pa_ThreadID p = th \<and> pa_ResolvingEventID p = None \<and> pa_ResolvedAt p = None"

lemma insertPending_frame:
  "insertPendingActionsLocked r th ids allowed cs l = Inr l' \<Longrightarrow>
     \<exists>new k. l' = l\<lparr>lg_Pending := lg_Pending l @ new, lg_Drawn := k\<rparr> \<and> map pa_ActionEventID new = ids
       \<and> list_all (freshAction th) new"
proof (induction r th ids allowed cs l arbitrary: l' rule: insertPendingActionsLocked.induct)
  case (1 r th allowed cs l)
  then show ?case by (intro exI [of _ "[]"] exI [of _ "lg_Drawn l"]) simp
next
  case (2 r th i "is" allowed cs l)
  obtain e kind where e: "eventMap allowed i = Some e" "PendingActionKindForEvent (e_Type e) (e_Payload e) = Some kind"
    using 2(2) by (auto split: option.splits)
  obtain nid l1 where n: "NewID r PrefixPendingAction l = (nid, l1)" by fastforce
  obtain p l2 where p: "InsertPendingAction p l1 = Inr l2" "freshAction th p" "pa_ActionEventID p = i"
    and rec: "insertPendingActionsLocked r th is allowed cs l2 = Inr l'"
    using 2(2) e n by (auto simp: Let_def bindE_Inr_iff freshAction_def)
  have IH: "\<exists>new k. l' = l2\<lparr>lg_Pending := lg_Pending l2 @ new, lg_Drawn := k\<rparr> \<and> map pa_ActionEventID new = is
       \<and> list_all (freshAction th) new"
    using 2(1) [OF e(1,2) refl n [symmetric] _ rec] by simp
  have "l2 = l\<lparr>lg_Drawn := Suc (lg_Drawn l), lg_Pending := lg_Pending l @ [p]\<rparr>"
    using p(1) n by (auto simp: InsertPendingAction_def NewID_eq split: if_splits)
  then obtain new k where l2: "l2 = l\<lparr>lg_Drawn := Suc (lg_Drawn l), lg_Pending := lg_Pending l @ [p]\<rparr>"
    and l': "l' = l2\<lparr>lg_Pending := lg_Pending l2 @ new, lg_Drawn := k\<rparr>" "map pa_ActionEventID new = is"
      "list_all (freshAction th) new"
    using IH by blast
  show ?case
  proof (intro exI conjI)
    show "l' = l\<lparr>lg_Pending := lg_Pending l @ (p # new), lg_Drawn := k\<rparr>" unfolding l'(1) l2 by simp
  qed (use p(2,3) l'(2,3) in simp_all)
qed

lemma transcript_frame: "InsertProviderTranscriptTurn now t seq l = Inr l' \<Longrightarrow> \<exists>ts. l' = l\<lparr>lg_Transcript := ts\<rparr>"
  by (auto simp: InsertProviderTranscriptTurn_def split: option.splits if_splits intro: exI [of _ "lg_Transcript l"])

lemma putCompleted_frame:
  assumes "putCompleted now session primaryThread se usage l = Inr (s', l')"
  shows "\<exists>ts. l' = l\<lparr>lg_Session := s', lg_Threads := ts\<rparr>" and "s_Status s' = se_Status se" and "s_ID s' = s_ID session"
proof -
  let ?s2 = "TransitionStatus (applyOutcomeResults (session\<lparr>s_Usage := usageAdd (s_Usage session) usage\<rparr>) (se_Drafts se) now)
    (se_Status se) now"
  have keep: "s_ID (applyOutcomeResults s ds now) = s_ID s" for s ds
    unfolding applyOutcomeResults_def
    by (induction ds arbitrary: s) (auto simp: ApplyOutcomeResult_def)
  have s': "s' = ?s2"
    using assms by (auto simp: putCompleted_def Let_def bindE_Inr_iff split: option.splits)
  show "s_Status s' = se_Status se" unfolding s' by (simp add: TransitionStatus_def Let_def)
  show "s_ID s' = s_ID session" unfolding s' by (auto simp: TransitionStatus_def Let_def keep split: option.splits)
  show "\<exists>ts. l' = l\<lparr>lg_Session := s', lg_Threads := ts\<rparr>"
  proof (cases primaryThread)
    case None
    with assms show ?thesis
      by (auto simp: putCompleted_def Let_def bindE_Inr_iff putProjection_def putPrimarySessionThreadProjection_def
        putSessionOnly_def putPrimaryThreadProjection_def)
  next
    case (Some p)
    then have l': "l' = putSessionOnly s' (putPrimaryThreadProjection
        (Thread_TransitionStatus (p\<lparr>t_Usage := usageAdd (t_Usage p) usage\<rparr>) (se_OwnerStatus se) now) l)"
      using assms s' by (simp add: putCompleted_def Let_def)
    show ?thesis
    proof (rule exI)
      show "l' = l\<lparr>lg_Session := s', lg_Threads := updateWhere (\<lambda>(k, _). k = PrimaryKind)
          (\<lambda>(k, _). (k, Thread_TransitionStatus (p\<lparr>t_Usage := usageAdd (t_Usage p) usage\<rparr>) (se_OwnerStatus se) now))
          (lg_Threads l)\<rparr>"
        unfolding l' putSessionOnly_def putPrimaryThreadProjection_def by (rule ledger.equality) simp_all
    qed
  qed
qed

lemma markProcessed_events:
  "lg_Events (markProcessed now ids l) = updateWhere (\<lambda>e. e_ID e \<in> set ids) (stampProcessed now) (lg_Events l)
   \<and> (\<exists>es. markProcessed now ids l = l\<lparr>lg_Events := es\<rparr>)"
  unfolding markProcessed_def
proof (induction ids arbitrary: l)
  case Nil
  then show ?case by (simp add: updateWhere_map) (rule exI [of _ "lg_Events l"], simp)
next
  case (Cons i ids)
  have "updateWhere (\<lambda>e. e_ID e \<in> set ids) (stampProcessed now) (updateWhere (\<lambda>e. e_ID e = i) (stampProcessed now) es) =
      updateWhere (\<lambda>e. e_ID e \<in> set (i # ids)) (stampProcessed now) es" for es
    unfolding updateWhere_map by (auto simp: stampProcessed_def split: option.splits)
  with Cons [of "MarkEventProcessed now i l"] show ?case by (auto simp: MarkEventProcessed_def)
qed

lemma flush_events:
  "\<exists>es q. FlushQueuedUserMessages now i l = l\<lparr>lg_Events := es\<rparr> \<and> es = updateWhere q (stampProcessed now) (lg_Events l)"
proof (cases "GetPrimarySessionThreadID l")
  case (Inl e)
  then have "FlushQueuedUserMessages now i l = l\<lparr>lg_Events := lg_Events l\<rparr>" by (simp add: FlushQueuedUserMessages_def)
  moreover have "lg_Events l = updateWhere (\<lambda>_. False) (stampProcessed now) (lg_Events l)"
    by (simp add: updateWhere_map)
  ultimately show ?thesis by (intro exI conjI)
next
  case (Inr th)
  then show ?thesis unfolding FlushQueuedUserMessages_def Let_def by (simp only: sum.case) (intro exI, rule conjI, rule refl, rule refl)
qed

section \<open>Steps compose\<close>

text \<open>A step that finds the ledger numbered up to \<open>n\<close> leaves it numbered up to \<open>m\<close>, in order, and grown.\<close>

definition keeps :: "int \<Rightarrow> ledger \<Rightarrow> int \<Rightarrow> ledger \<Rightarrow> bool" where
  "keeps n l m l' \<longleftrightarrow> (logOk l \<and> upTo n l \<longrightarrow> logOk l' \<and> upTo m l' \<and> grows l l')"

lemma keeps_trans [trans]: "keeps n l m l' \<Longrightarrow> keeps m l' k l'' \<Longrightarrow> keeps n l k l''"
  unfolding keeps_def using grows_trans by blast

lemma keeps_refl [simp]: "keeps n l n l"
  by (simp add: keeps_def)

lemma keeps_same: "lg_Events l' = lg_Events l \<Longrightarrow> keeps n l n l'"
  unfolding keeps_def using logOk_same grows_same by blast

lemma keeps_stamp: "lg_Events l' = updateWhere p (stampProcessed now) (lg_Events l) \<Longrightarrow> keeps n l n l'"
  unfolding keeps_def using logOk_stamp grows_stamp by blast

lemma keeps_append: "appendThreadDrafts r th ds n turn l = Inr (es, m, l') \<Longrightarrow> keeps n l m l'"
  unfolding keeps_def by (intro impI conjI; elim conjE; rule append_log)

lemma keeps_appendDrafts: "appendDrafts r ds n turn l = Inr (es, m, l') \<Longrightarrow> keeps n l m l'"
  by (auto simp: appendDrafts_def bindE_Inr_iff intro: keeps_append)

lemma keeps_drawn: "NewID r p l = (i, l') \<Longrightarrow> keeps n l n l'"
  by (rule keeps_same) (auto simp: NewID_eq)

lemma keeps_mark: "keeps n l n (markProcessed now ids l)"
  by (rule keeps_stamp [OF markProcessed_events [THEN conjunct1]])

lemma keeps_flush: "keeps n l n (FlushQueuedUserMessages now i l)"
proof -
  obtain es q where "FlushQueuedUserMessages now i l = l\<lparr>lg_Events := es\<rparr>" "es = updateWhere q (stampProcessed now) (lg_Events l)"
    using flush_events by blast
  then show ?thesis by (intro keeps_stamp [of _ q now]) simp
qed

lemma same_finish: "finishTurnAttempt now t l = Inr l' \<Longrightarrow> keeps n l n l'"
  by (rule keeps_same) (auto dest: finishTurnAttempt_frame)

lemma same_resolve: "resolvePendingBarrierLocked now th i ids l = Inr (b, l') \<Longrightarrow> keeps n l n l'"
  by (rule keeps_same) (metis resolve_frame ledger.select_convs(5) ledger.update_convs(6) ledger.surjective)

lemma same_insert: "insertPendingActionsLocked r th ids allowed cs l = Inr l' \<Longrightarrow> keeps n l n l'"
  by (rule keeps_same) (auto dest: insertPending_frame)

lemma same_transcript: "InsertProviderTranscriptTurn now t seq l = Inr l' \<Longrightarrow> keeps n l n l'"
  by (rule keeps_same) (auto dest: transcript_frame)

lemma same_put: "putCompleted now session p se usage l = Inr (s', l') \<Longrightarrow> keeps n l n l'"
  by (rule keeps_same) (auto dest: putCompleted_frame(1))

lemma commitTurn_keeps:
  assumes "commitTurn r session primaryThread trigger interrupt t l = Inr (c, l')"
  shows "\<exists>m. keeps (maxSeq l) l m l'"
  using assms
proof (rule commitTurn_steps)
  fix l1 resolved l2 se events finalSeq l3 l4 l5 processed session' l8
  assume s: "finishTurnAttempt (rt_Now r) t l = Inr l1"
    "resolvePendingBarrierLocked (rt_Now r) (e_ThreadID trigger) (to_TriggerEventID t) (to_ResolutionEventIDs t) l1
       = Inr (resolved, l2)"
    "appendDrafts r (se_Drafts se) (maxSeq l2) (Some (to_TriggerEventID t)) l2 = Inr (events, finalSeq, l3)"
    "insertPendingActionsLocked r (e_ThreadID trigger) (to_PendingActionEventIDs t) events [] l3 = Inr l4"
    "InsertProviderTranscriptTurn (rt_Now r) t finalSeq l4 = Inr l5"
    "putCompleted (rt_Now r) session primaryThread se (to_Usage t)
       (if turnRetriesExhausted (to_Drafts t)
        then FlushQueuedUserMessages (rt_Now r) (to_TriggerEventID t) (markProcessed (rt_Now r) processed l5)
        else markProcessed (rt_Now r) processed l5) = Inr (session', l8)"
    and l': "l' = (if resolved \<and> \<not> gatedAfter trigger t l2 \<and> se_Status se = StatusRunning \<and> 0 < se_Remaining se
           then wakePrimary r session finalSeq l8 else l8)"
  have "keeps (maxSeq l) l (maxSeq l) l1" by (rule same_finish [OF s(1)])
  also have "keeps (maxSeq l) l1 (maxSeq l) l2" by (rule same_resolve [OF s(2)])
  also have "keeps (maxSeq l) l2 (maxSeq l2) l2" by (simp add: keeps_def upTo_maxSeq)
  also have "keeps (maxSeq l2) l2 finalSeq l3" by (rule keeps_appendDrafts [OF s(3)])
  also have "keeps finalSeq l3 finalSeq l4" by (rule same_insert [OF s(4)])
  also have "keeps finalSeq l4 finalSeq l5" by (rule same_transcript [OF s(5)])
  also have "keeps finalSeq l5 finalSeq (markProcessed (rt_Now r) processed l5)" by (rule keeps_mark)
  also have "keeps finalSeq (markProcessed (rt_Now r) processed l5) finalSeq
      (if turnRetriesExhausted (to_Drafts t)
        then FlushQueuedUserMessages (rt_Now r) (to_TriggerEventID t) (markProcessed (rt_Now r) processed l5)
        else markProcessed (rt_Now r) processed l5)" by (simp add: keeps_flush)
  also have "keeps finalSeq \<dots> finalSeq l8" by (rule same_put [OF s(6)])
  also have "keeps finalSeq l8 finalSeq l'" unfolding l' by (rule keeps_same) (simp add: wakePrimary_def)
  finally show ?thesis by blast
qed

lemma completeTurn_cases:
  assumes "completeTurn r t l = Inr (c, l')"
  obtains (replay) trigger where "GetEvent (to_TriggerEventID t) l = Some trigger"
      "turnCommitted (lg_Session l) trigger l" "c = replayTurn (lg_Session l) (to_TriggerEventID t) l" "l' = l"
    | (plain) trigger primaryThread where "GetEvent (to_TriggerEventID t) l = Some trigger"
      "\<not> turnCommitted (lg_Session l) trigger l"
      "primaryThread = None \<longleftrightarrow> ag_Multiagent (s_AgentSnapshot (lg_Session l)) = None"
      "commitTurn r (lg_Session l) primaryThread trigger None t l = Inr (c, l')"
    | (interrupted) trigger primaryThread interrupt evaluated where "GetEvent (to_TriggerEventID t) l = Some trigger"
      "\<not> turnCommitted (lg_Session l) trigger l" "e_Type trigger \<noteq> EvUserInterrupt"
      "FirstUnprocessedInterruptAfter (e_Sequence trigger) l = Some interrupt"
      "primaryThread = None \<longleftrightarrow> ag_Multiagent (s_AgentSnapshot (lg_Session l)) = None"
      "commitTurn r (lg_Session l) primaryThread trigger (Some interrupt) (interruptedOutput evaluated t) l = Inr (c, l')"
proof -
  from assms obtain session primaryThread where lock: "LockSession l = Inr session"
    and multi: "(if ag_Multiagent (s_AgentSnapshot session) = None then Inr None
      else bindE (GetPrimarySessionThreadProjection l) (\<lambda>p. Inr (Some p))) = Inr primaryThread"
    and rest: "(case GetEvent (to_TriggerEventID t) l of
       None \<Rightarrow> Inl (Refused (NotFound ''trigger event not found''))
     | Some trigger \<Rightarrow>
         if turnCommitted session trigger l then Inr (replayTurn session (to_TriggerEventID t) l, l)
         else (case (if e_Type trigger = EvUserInterrupt then None
                     else FirstUnprocessedInterruptAfter (e_Sequence trigger) l) of
             None \<Rightarrow> commitTurn r session primaryThread trigger None t l
           | Some interrupt \<Rightarrow>
               commitTurn r session primaryThread trigger (Some interrupt)
                 (interruptedOutput
                    (if activeReceiptProcessedOutcome session (e_Type trigger) (e_Payload trigger)
                     then ActiveOutcome session else None) t) l)) = Inr (c, l')"
    unfolding completeTurn_def bindE_Inr_iff by blast
  from lock have s: "session = lg_Session l" by (auto simp: LockSession_def split: if_splits)
  from multi s have p: "primaryThread = None \<longleftrightarrow> ag_Multiagent (s_AgentSnapshot (lg_Session l)) = None"
    by (auto simp: bindE_Inr_iff split: if_splits)
  from rest obtain trigger where g: "GetEvent (to_TriggerEventID t) l = Some trigger"
    by (cases "GetEvent (to_TriggerEventID t) l") simp_all
  show thesis
  proof (cases "turnCommitted (lg_Session l) trigger l")
    case True
    from rest have "Inr (replayTurn (lg_Session l) (to_TriggerEventID t) l, l) = (Inr (c, l') :: storeError + _)"
      unfolding g option.case s if_P [OF True] .
    then have "c = replayTurn (lg_Session l) (to_TriggerEventID t) l" "l' = l" by blast+
    then show thesis by (rule replay [OF g True])
  next
    case False
    let ?race = "if e_Type trigger = EvUserInterrupt then None else FirstUnprocessedInterruptAfter (e_Sequence trigger) l"
    note rest' = rest [unfolded g option.case s if_not_P [OF False]]
    show thesis
    proof (cases ?race)
      case None
      then show thesis using rest' by (intro plain [OF g False p]) simp
    next
      case (Some interrupt)
      then have "e_Type trigger \<noteq> EvUserInterrupt" "FirstUnprocessedInterruptAfter (e_Sequence trigger) l = Some interrupt"
        by (simp_all split: if_splits)
      then show thesis using rest' Some by (intro interrupted [OF g False _ _ p]) simp_all
    qed
  qed
qed

end
