(* ===== verification/Progress.thy ===== *)
theory Progress
  imports Turns
begin

text \<open>
  Progress of a turn before it completes (\<open>AppendWorkflowEvents\<close>, \<open>RecordWorkflowRetry\<close>, \<open>ResumeWorkflowRetry\<close>
  in \<open>internal/pg/store.go\<close>, \<open>internal/pg/thread_retry.go\<close>): the events a running turn publishes as it goes, and
  the retries of a failed model request, on the plain Session, on the coordinator's Thread and on a child.
  Each is a transaction that an activity may run again; \<open>marshal\<close> is \<open>json.Marshal\<close>, by which a stored
  payload is compared with the one that is offered again. The flag returned says whether observers are notified.
\<close>

section \<open>Recognising what is there\<close>

definition isSessionProjectionEvent :: "string \<Rightarrow> bool" where
  "isSessionProjectionEvent t \<longleftrightarrow> t \<in> {EvSessionStatusIdle, EvSessionStatusRunning, EvSessionStatusRescheduling,
     EvSessionStatusTerminated, EvSessionUpdated, EvSessionUsage, EvSessionDeleted}"

definition workflowEventMatches :: "(payload \<Rightarrow> string option) \<Rightarrow> string \<Rightarrow> EventDraft \<Rightarrow> Event \<Rightarrow> bool" where
  "workflowEventMatches marshal turn d e \<longleftrightarrow> e_Type e = d_Type d \<and> e_TurnEventID e = Some turn
     \<and> marshal (e_Payload e) \<noteq> None \<and> marshal (e_Payload e) = marshal (d_Payload d)"

fun countExisting ::
    "string \<Rightarrow> (payload \<Rightarrow> string option) \<Rightarrow> string \<Rightarrow> EventDraft list \<Rightarrow> ledger \<Rightarrow> storeError + nat" where
  "countExisting conflict marshal turn [] l = Inr 0"
| "countExisting conflict marshal turn (d # ds) l =
     (case GetEvent (d_ID d) l of
        None \<Rightarrow> countExisting conflict marshal turn ds l
      | Some e \<Rightarrow> if \<not> workflowEventMatches marshal turn d e then Inl (Refused (Conflict conflict))
                  else bindE (countExisting conflict marshal turn ds l) (\<lambda>n. Inr (Suc n)))"

definition workflowDraftsExisting ::
    "(payload \<Rightarrow> string option) \<Rightarrow> string \<Rightarrow> EventDraft list \<Rightarrow> ledger \<Rightarrow> storeError + bool" where
  "workflowDraftsExisting marshal turn drafts l =
     bindE (countExisting ''workflow retry event id already has different content'' marshal turn drafts l) (\<lambda>n.
       if n \<noteq> 0 \<and> n \<noteq> length drafts
       then Inl (Refused (Conflict ''workflow retry event batch is only partially present''))
       else Inr (n = length drafts))"

section \<open>Progress events\<close>

fun progressError :: "string list \<Rightarrow> EventDraft list \<Rightarrow> string option" where
  "progressError seen [] = None"
| "progressError seen (d # ds) =
     (if d_ID d = [] then Some ''workflow progress event id is required''
      else if d_ID d \<in> set seen then Some ''duplicate workflow progress event id''
      else if IsClientSubmittable (d_Type d) \<or> isSessionProjectionEvent (d_Type d)
      then Some ''workflow progress must contain non-terminal server events''
      else progressError (d_ID d # seen) ds)"

definition AppendWorkflowEvents ::
    "(payload \<Rightarrow> string option) \<Rightarrow> runtime \<Rightarrow> string \<Rightarrow> EventDraft list \<Rightarrow> ledger \<Rightarrow> storeError + bool \<times> ledger" where
  "AppendWorkflowEvents marshal r turn drafts l =
     (if turn = [] \<or> drafts = []
      then Inl (Refused (Validation ''session, trigger, and workflow events are required''))
      else (case progressError [] drafts of
          Some e \<Rightarrow> Inl (Refused (Validation e))
        | None \<Rightarrow> bindE (LockSession l) (\<lambda>session.
            if s_Status session \<noteq> StatusRunning
            then Inl (Refused (Conflict ''workflow progress requires a running session''))
            else (case GetEvent turn l of
                None \<Rightarrow> Inl (Refused (NotFound ''trigger event not found''))
              | Some trigger \<Rightarrow>
                  bindE (countExisting ''workflow progress event id already has different content''
                           marshal turn drafts l) (\<lambda>existing.
                    if existing = length drafts then Inr (False, l)
                    else if existing \<noteq> 0
                    then Inl (Refused (Conflict ''workflow progress batch is only partially present''))
                    else bindE (appendThreadDrafts r (e_ThreadID trigger) drafts (maxSeq l) (Some turn) l)
                           (\<lambda>(_, _, l1). Inr (True, l1)))))))"

section \<open>Retries of the primary Thread\<close>

definition lockWorkflowTrigger :: "string \<Rightarrow> ledger \<Rightarrow> storeError + Session" where
  "lockWorkflowTrigger turn l =
     bindE (LockSession l) (\<lambda>session. case GetEvent turn l of
         None \<Rightarrow> Inl (Refused (NotFound ''trigger event not found''))
       | Some trigger \<Rightarrow> if e_ProcessedAt trigger \<noteq> None
                          then Inl (Refused (Conflict ''workflow trigger is already processed''))
                          else Inr session)"

definition retryErrorDraft :: "string \<Rightarrow> payload \<Rightarrow> EventDraft" where
  "retryErrorDraft i err = \<lparr>d_ID = i, d_Type = EvSessionError, d_Payload = [(''error'', JObj err)]\<rparr>"

definition statusDraft :: "string \<Rightarrow> string \<Rightarrow> EventDraft" where
  "statusDraft i t = \<lparr>d_ID = i, d_Type = t, d_Payload = []\<rparr>"

text \<open>The coordinator's Thread and its trigger, locked.\<close>

definition coordinatorOwner :: "string \<Rightarrow> ledger \<Rightarrow> storeError + SessionThread" where
  "coordinatorOwner turn l =
     bindE (GetPrimarySessionThreadID l) (\<lambda>primaryID.
     bindE (loadSessionThreadForUpdate primaryID l) (\<lambda>primary.
     case GetEvent turn l of
       None \<Rightarrow> Inl NoRows
     | Some trigger \<Rightarrow> if e_ThreadID trigger \<noteq> t_ID primary
                        then Inl (Refused (Conflict ''coordinator retry trigger belongs to another Thread''))
                        else Inr primary))"

definition recordPrimaryThreadWorkflowRetryLocked ::
    "(payload \<Rightarrow> string option) \<Rightarrow> runtime \<Rightarrow> Session \<Rightarrow> string \<Rightarrow> string \<Rightarrow> string \<Rightarrow> payload \<Rightarrow> ledger \<Rightarrow>
     storeError + ledger" where
  "recordPrimaryThreadWorkflowRetryLocked marshal r session turn errorID statusID err l =
     bindE (workflowDraftsExisting marshal turn [retryErrorDraft errorID err] l) (\<lambda>existing.
     if existing then Inr l
     else bindE (coordinatorOwner turn l) (\<lambda>primary.
       if t_Status primary \<noteq> StatusRunning
       then Inl (Refused (Conflict ''coordinator retry requires a running primary Thread''))
       else bindE (putSessionThreadTx (Thread_TransitionStatus primary StatusRescheduling (rt_Now r)) l) (\<lambda>l1.
         (let aggregated = unarchivedStatuses l1;
              drafts = [retryErrorDraft errorID err]
                @ (if aggregated = StatusRescheduling then [statusDraft statusID EvSessionStatusRescheduling] else [])
          in bindE (appendThreadDrafts r (t_ID primary) drafts (maxSeq l1) (Some turn) l1) (\<lambda>(_, _, l2).
               Inr (if s_Status session \<noteq> aggregated
                    then putSessionOnly (TransitionStatus session aggregated (rt_Now r)) l2 else l2))))))"

definition RecordWorkflowRetry ::
    "(payload \<Rightarrow> string option) \<Rightarrow> runtime \<Rightarrow> string \<Rightarrow> string \<Rightarrow> string \<Rightarrow> payload \<Rightarrow> ledger \<Rightarrow>
     storeError + bool \<times> ledger" where
  "RecordWorkflowRetry marshal r turn errorID statusID err l =
     (if turn = [] \<or> errorID = [] \<or> statusID = [] \<or> errorID = statusID
      then Inl (Refused (Validation ''session, trigger, and distinct retry event ids are required''))
      else bindE (lockWorkflowTrigger turn l) (\<lambda>session.
        if ag_Multiagent (s_AgentSnapshot session) \<noteq> None
        then bindE (recordPrimaryThreadWorkflowRetryLocked marshal r session turn errorID statusID err l)
               (\<lambda>l1. Inr (True, l1))
        else (let drafts = [retryErrorDraft errorID err, statusDraft statusID EvSessionStatusRescheduling]
              in bindE (workflowDraftsExisting marshal turn drafts l) (\<lambda>existing.
                   if existing then Inr (False, l)
                   else if s_Status session \<noteq> StatusRunning
                   then Inl (Refused (Conflict ''workflow retry requires a running session''))
                   else bindE (appendDrafts r drafts (maxSeq l) (Some turn) l) (\<lambda>(_, _, l1).
                        bindE (putProjection (TransitionStatus session StatusRescheduling (rt_Now r)) l1) (\<lambda>l2.
                          Inr (True, l2)))))))"

definition resumePrimaryThreadWorkflowRetryLocked ::
    "runtime \<Rightarrow> Session \<Rightarrow> string \<Rightarrow> string \<Rightarrow> ledger \<Rightarrow> storeError + ledger" where
  "resumePrimaryThreadWorkflowRetryLocked r session turn statusID l =
     bindE (coordinatorOwner turn l) (\<lambda>primary.
       if t_Status primary = StatusRunning then Inr l
       else if t_Status primary \<noteq> StatusRescheduling
       then Inl (Refused (Conflict ''coordinator retry resume requires a rescheduling primary Thread''))
       else bindE (putSessionThreadTx (Thread_TransitionStatus primary StatusRunning (rt_Now r)) l) (\<lambda>l1.
         (let aggregated = unarchivedStatuses l1
          in if s_Status session = aggregated then Inr l1
             else bindE (appendThreadDrafts r (t_ID primary) [statusDraft statusID EvSessionStatusRunning]
                           (maxSeq l1) (Some turn) l1) (\<lambda>(_, _, l2).
                  Inr (putSessionOnly (TransitionStatus session aggregated (rt_Now r)) l2)))))"

definition ResumeWorkflowRetry ::
    "(payload \<Rightarrow> string option) \<Rightarrow> runtime \<Rightarrow> string \<Rightarrow> string \<Rightarrow> ledger \<Rightarrow> storeError + bool \<times> ledger" where
  "ResumeWorkflowRetry marshal r turn statusID l =
     (if turn = [] \<or> statusID = []
      then Inl (Refused (Validation ''session, trigger, and retry status event id are required''))
      else bindE (lockWorkflowTrigger turn l) (\<lambda>session.
        if ag_Multiagent (s_AgentSnapshot session) \<noteq> None
        then bindE (resumePrimaryThreadWorkflowRetryLocked r session turn statusID l) (\<lambda>l1. Inr (True, l1))
        else (let drafts = [statusDraft statusID EvSessionStatusRunning]
              in bindE (workflowDraftsExisting marshal turn drafts l) (\<lambda>existing.
                   if existing then Inr (False, l)
                   else if s_Status session \<noteq> StatusRescheduling
                   then Inl (Refused (Conflict ''workflow retry resume requires a rescheduling session''))
                   else bindE (appendDrafts r drafts (maxSeq l) (Some turn) l) (\<lambda>(_, _, l1).
                        bindE (putProjection (TransitionStatus session StatusRunning (rt_Now r)) l1) (\<lambda>l2.
                          Inr (True, l2)))))))"

section \<open>Retries of a child (internal/pg/thread_retry.go)\<close>

definition lockChildRetryOwner :: "string \<Rightarrow> string \<Rightarrow> ledger \<Rightarrow> storeError + Session \<times> SessionThread \<times> string" where
  "lockChildRetryOwner threadID turn l =
     bindE (LockSession l) (\<lambda>session.
     bindE (loadSessionThreadForUpdate threadID l) (\<lambda>thread.
     case t_ParentThreadID thread of
       None \<Rightarrow> Inl (Refused (Conflict ''Thread retry owner is not a child''))
     | Some parent \<Rightarrow> (case GetEvent turn l of
         None \<Rightarrow> Inl NoRows
       | Some trigger \<Rightarrow> if e_ThreadID trigger \<noteq> threadID
                          then Inl (Refused (Conflict ''retry trigger belongs to another Thread''))
                          else Inr (session, thread, parent))))"

definition threadLifecyclePayload :: "SessionThread \<Rightarrow> payload" where
  "threadLifecyclePayload t =
     [(''session_thread_id'', JStr (t_ID t)), (''agent_name'', JStr (AgentName t))]"

definition lifecycleDraft :: "string \<Rightarrow> string \<Rightarrow> SessionThread \<Rightarrow> EventDraft" where
  "lifecycleDraft i ty t = \<lparr>d_ID = i, d_Type = ty, d_Payload = threadLifecyclePayload t\<rparr>"

definition aggregateDrafts :: "Status \<Rightarrow> EventDraft list" where
  "aggregateDrafts s =
     (case s of
        StatusRunning \<Rightarrow> [statusDraft [] EvSessionStatusRunning]
      | StatusRescheduling \<Rightarrow> [statusDraft [] EvSessionStatusRescheduling]
      | StatusIdle \<Rightarrow> [endTurnDraft]
      | StatusTerminated \<Rightarrow> [])"

definition updateAggregateStatusLocked ::
    "runtime \<Rightarrow> Session \<Rightarrow> string \<Rightarrow> string \<Rightarrow> int \<Rightarrow> ledger \<Rightarrow> storeError + ledger" where
  "updateAggregateStatusLocked r session primaryID turn seq l =
     (let aggregated = unarchivedStatuses l
      in if s_Status session = aggregated then Inr (putSessionOnly session l)
         else bindE (appendThreadDrafts r primaryID (aggregateDrafts aggregated) seq (Some turn)
                       (putSessionOnly (TransitionStatus session aggregated (rt_Now r)) l)) (\<lambda>(_, _, l1). Inr l1))"

text \<open>
  What recording and resuming share: the drafts go to the child's ledger under their own identifiers, the last
  one, its status, also to the coordinator's, then the Thread moves and the Session follows its Threads.
\<close>

definition moveChild ::
    "runtime \<Rightarrow> Session \<Rightarrow> SessionThread \<Rightarrow> string \<Rightarrow> string \<Rightarrow> Status \<Rightarrow> string \<Rightarrow> EventDraft list \<Rightarrow> ledger \<Rightarrow>
     storeError + ledger" where
  "moveChild r session thread parent turn status ty drafts l =
     bindE (appendThreadDrafts r (t_ID thread) drafts (maxSeq l) (Some turn) l) (\<lambda>(_, n, l1).
     bindE (appendThreadDrafts r parent [lifecycleDraft [] ty thread] n (Some turn) l1) (\<lambda>(_, m, l2).
     bindE (putSessionThreadTx (Thread_TransitionStatus thread status (rt_Now r)) l2) (\<lambda>l3.
       updateAggregateStatusLocked r session parent turn m l3)))"

definition RecordThreadWorkflowRetry ::
    "(payload \<Rightarrow> string option) \<Rightarrow> runtime \<Rightarrow> string \<Rightarrow> string \<Rightarrow> string \<Rightarrow> string \<Rightarrow> payload \<Rightarrow> ledger \<Rightarrow>
     storeError + bool \<times> ledger" where
  "RecordThreadWorkflowRetry marshal r threadID turn errorID statusID err l =
     (if threadID = [] \<or> turn = [] \<or> errorID = [] \<or> statusID = [] \<or> errorID = statusID
      then Inl (Refused (Validation ''session, Thread, trigger, and distinct retry event ids are required''))
      else bindE (lockChildRetryOwner threadID turn l) (\<lambda>(session, thread, parent).
        (let drafts = [retryErrorDraft errorID err, lifecycleDraft statusID EvSessionThreadStatusRescheduled thread]
         in bindE (workflowDraftsExisting marshal turn drafts l) (\<lambda>existing.
              if existing then Inr (False, l)
              else if t_Status thread \<noteq> StatusRunning
              then Inl (Refused (Conflict ''child Thread retry requires a running Thread''))
              else bindE (moveChild r session thread parent turn StatusRescheduling EvSessionThreadStatusRescheduled
                            drafts l) (\<lambda>l1. Inr (True, l1))))))"

definition ResumeThreadWorkflowRetry ::
    "(payload \<Rightarrow> string option) \<Rightarrow> runtime \<Rightarrow> string \<Rightarrow> string \<Rightarrow> string \<Rightarrow> ledger \<Rightarrow> storeError + bool \<times> ledger" where
  "ResumeThreadWorkflowRetry marshal r threadID turn statusID l =
     (if threadID = [] \<or> turn = [] \<or> statusID = []
      then Inl (Refused (Validation ''session, Thread, trigger, and retry event id are required''))
      else bindE (lockChildRetryOwner threadID turn l) (\<lambda>(session, thread, parent).
        (let drafts = [lifecycleDraft statusID EvSessionThreadStatusRunning thread]
         in bindE (workflowDraftsExisting marshal turn drafts l) (\<lambda>existing.
              if existing then Inr (False, l)
              else if t_Status thread \<noteq> StatusRescheduling
              then Inl (Refused (Conflict ''child Thread retry resume requires a rescheduling Thread''))
              else bindE (moveChild r session thread parent turn StatusRunning EvSessionThreadStatusRunning
                            drafts l) (\<lambda>l1. Inr (True, l1))))))"

section \<open>What is there stays recognised\<close>

definition recorded :: "(payload \<Rightarrow> string option) \<Rightarrow> string \<Rightarrow> ledger \<Rightarrow> EventDraft \<Rightarrow> bool" where
  "recorded marshal turn l d \<longleftrightarrow> (\<exists>e. GetEvent (d_ID d) l = Some e \<and> workflowEventMatches marshal turn d e)"

text \<open>The JSON that is read back from a row encodes to the bytes that were written.\<close>

definition stableEncoding :: "(payload \<Rightarrow> string option) \<Rightarrow> runtime \<Rightarrow> payload \<Rightarrow> bool" where
  "stableEncoding marshal r p \<longleftrightarrow>
     (\<exists>q. rt_Recode r p = Some q \<and> marshal q \<noteq> None \<and> marshal q = marshal p)"

lemma GetEvent_grows: "grows l l' \<Longrightarrow> GetEvent i l = Some e \<Longrightarrow> \<exists>e'. GetEvent i l' = Some e' \<and> stamped e e'"
proof -
  assume g: "grows l l'" and f: "GetEvent i l = Some e"
  obtain old new where l': "lg_Events l' = old @ new" and s: "list_all2 stamped (lg_Events l) old"
    using g by (auto simp: grows_def)
  have "find (\<lambda>e. e_ID e = i) es = Some e \<Longrightarrow> list_all2 stamped es es' \<Longrightarrow>
      \<exists>e'. find (\<lambda>e. e_ID e = i) (es' @ new) = Some e' \<and> stamped e e'" for es es'
    by (induction es arbitrary: es') (auto simp: list_all2_Cons1 dest: stamped_sel split: if_splits)
  from this [OF f [unfolded GetEvent_def] s] show ?thesis by (simp add: GetEvent_def l')
qed

lemma recorded_grows: "grows l l' \<Longrightarrow> recorded marshal turn l d \<Longrightarrow> recorded marshal turn l' d"
proof -
  assume g: "grows l l'" and "recorded marshal turn l d"
  then obtain e where e: "GetEvent (d_ID d) l = Some e" "workflowEventMatches marshal turn d e"
    by (auto simp: recorded_def)
  from GetEvent_grows [OF g e(1)] obtain e' where e': "GetEvent (d_ID d) l' = Some e'" "stamped e e'" by blast
  have "workflowEventMatches marshal turn d e'"
    using e(2) e'(2) by (auto simp: stamped_def workflowEventMatches_def)
  with e' show ?thesis by (auto simp: recorded_def)
qed

lemma find_ID: "distinct (map e_ID es) \<Longrightarrow> e \<in> set es \<Longrightarrow> find (\<lambda>x. e_ID x = e_ID e) es = Some e"
  by (induction es) auto

lemma find_past: "find p (xs @ ys) = (case find p xs of None \<Rightarrow> find p ys | Some x \<Rightarrow> Some x)"
  by (induction xs) auto

lemma append_grows: "appendThreadDrafts r th ds n turn l = Inr (es, m, l') \<Longrightarrow> grows l l'"
proof -
  assume "appendThreadDrafts r th ds n turn l = Inr (es, m, l')"
  from append_effect [OF this] obtain stored k where "l' = l\<lparr>lg_Events := lg_Events l @ stored, lg_Drawn := k\<rparr>"
    by (auto simp: appended_def)
  then show ?thesis by (intro grows_append [of _ _ stored]) simp
qed

lemma append_recorded:
  assumes a: "appendThreadDrafts r th ds n (Some turn) l = Inr (es, m, l')"
    and i: "list_all (\<lambda>d. d_ID d \<noteq> [] \<and> stableEncoding marshal r (d_Payload d)) ds"
  shows "list_all (recorded marshal turn l') ds"
proof -
  from append_effect [OF a] obtain stored k where l': "l' = l\<lparr>lg_Events := lg_Events l @ stored, lg_Drawn := k\<rparr>"
    and enc: "list_all2 (encoded r) es stored" and ids: "distinct (map e_ID stored)"
      "set (map e_ID stored) \<inter> set (map e_ID (lg_Events l)) = {}"
    and new: "list_all2 (\<lambda>d e. e = newEvent r (s_ID (lg_Session l)) th (e_ID e) (e_Sequence e) (Some turn) d
          \<and> (d_ID d \<noteq> [] \<longrightarrow> e_ID e = d_ID d)) ds es" by (auto simp: appended_def)
  show ?thesis unfolding list_all_length
  proof (intro allI impI)
    fix j assume j: "j < length ds"
    let ?d = "ds ! j" and ?s = "stored ! j"
    have len: "length es = length ds" "length stored = length ds"
      using list_all2_lengthD [OF enc] list_all2_lengthD [OF new] by simp_all
    from i j have d: "d_ID ?d \<noteq> []" "stableEncoding marshal r (d_Payload ?d)" by (auto simp: list_all_length)
    from list_all2_nthD [OF new j] d(1)
    have e: "es ! j = newEvent r (s_ID (lg_Session l)) th (d_ID ?d) (e_Sequence (es ! j)) (Some turn) ?d"
      by (elim conjE) (simp only: not_False_eq_True simp_thms)
    from list_all2_nthD2 [OF enc, of j] j len have en: "encoded r (es ! j) ?s" by simp
    from e encoded_sel [OF en] have sel: "e_ID ?s = d_ID ?d" "e_Type ?s = d_Type ?d" "e_TurnEventID ?s = Some turn"
      by (metis newEvent_def Event.select_convs(1,5,7))+
    have pay: "e_Payload (es ! j) = d_Payload ?d" by (subst e) (simp add: newEvent_def)
    from en d(2) have m: "marshal (e_Payload ?s) \<noteq> None" "marshal (e_Payload ?s) = marshal (d_Payload ?d)"
      by (auto simp: encoded_def stableEncoding_def pay)
    have mem: "?s \<in> set stored" using j len by simp
    have "find (\<lambda>x. e_ID x = e_ID ?s) (lg_Events l) = None"
      using ids(2) mem by (auto simp: find_None_iff)
    then have "find (\<lambda>x. e_ID x = e_ID ?s) (lg_Events l @ stored) = Some ?s"
      unfolding find_past using find_ID [OF ids(1) mem] by simp
    then have "GetEvent (d_ID ?d) l' = Some ?s" by (simp add: GetEvent_def l' sel(1))
    then show "recorded marshal turn l' ?d" using sel m by (auto simp: recorded_def workflowEventMatches_def)
  qed
qed

lemma countExisting_bound: "countExisting c marshal turn ds l = Inr n \<Longrightarrow> n \<le> length ds"
  by (induction ds arbitrary: n) (fastforce simp: bindE_Inr_iff split: option.splits if_splits)+

lemma countExisting_all: "countExisting c marshal turn ds l = Inr (length ds) \<longleftrightarrow> list_all (recorded marshal turn l) ds"
proof (induction ds)
  case (Cons d ds)
  then show ?case
    by (cases "GetEvent (d_ID d) l")
      (auto simp: recorded_def bindE_Inr_iff dest: countExisting_bound)
qed simp

lemma existing_recorded:
  "list_all (recorded marshal turn l) ds \<Longrightarrow> workflowDraftsExisting marshal turn ds l = Inr True"
  "workflowDraftsExisting marshal turn ds l = Inr True \<Longrightarrow> list_all (recorded marshal turn l) ds"
  unfolding workflowDraftsExisting_def countExisting_all [of "''workflow retry event id already has different content''", symmetric]
  by (auto simp: bindE_Inr_iff split: if_splits)

section \<open>Running an activity again\<close>

lemma if_Inl: "(if b then Inl e else x) = Inr y \<longleftrightarrow> \<not> b \<and> x = Inr y"
  by simp

lemma progress_ids: "progressError seen ds = None \<Longrightarrow> list_all (\<lambda>d. d_ID d \<noteq> []) ds"
  by (induction ds arbitrary: seen) (auto split: if_splits)

lemma AppendWorkflowEvents_cases:
  assumes "AppendWorkflowEvents marshal r turn drafts l = Inr (b, l')"
  obtains trigger where "turn \<noteq> []" "drafts \<noteq> []" "progressError [] drafts = None" "GetEvent turn l = Some trigger"
    "\<not> b \<and> l' = l \<and> list_all (recorded marshal turn l) drafts
     \<or> b \<and> (\<exists>es n. appendThreadDrafts r (e_ThreadID trigger) drafts (maxSeq l) (Some turn) l = Inr (es, n, l'))"
proof -
  from assms have a: "turn \<noteq> []" "drafts \<noteq> []" "progressError [] drafts = None"
    by (auto simp: AppendWorkflowEvents_def split: if_splits option.splits)
  note * = assms [unfolded AppendWorkflowEvents_def a(3) option.case if_Inl bindE_Inr_iff]
  then obtain trigger where t: "GetEvent turn l = Some trigger" by (cases "GetEvent turn l") auto
  show thesis
    by (rule that [OF a t]) (use * t in \<open>auto simp: countExisting_all bindE_Inr_iff split: if_splits\<close>)
qed

lemma append_frame:
  assumes "appendThreadDrafts r th ds n turn l = Inr (es, m, l')"
  shows "\<exists>evs k. l' = l\<lparr>lg_Events := evs, lg_Drawn := k\<rparr>"
  using append_effect [OF assms] by (auto simp: appended_def)

lemma append_context:
  "appendThreadDrafts r th ds n turn l = Inr (es, m, l') \<Longrightarrow> lg_Session l' = lg_Session l \<and> lg_Threads l' = lg_Threads l"
  by (auto dest: append_frame)

lemma lockTrigger_ok:
  "lockWorkflowTrigger turn l = Inr session \<longleftrightarrow> LockSession l = Inr session
     \<and> (\<exists>trigger. GetEvent turn l = Some trigger \<and> e_ProcessedAt trigger = None)"
  by (auto simp: lockWorkflowTrigger_def bindE_Inr_iff split: option.splits if_splits)

lemma LockSession_ok: "LockSession l = Inr session \<Longrightarrow> session = lg_Session l"
  by (auto simp: LockSession_def split: if_splits)

lemma putProjection_events: "putProjection s l = Inr l' \<Longrightarrow> lg_Events l' = lg_Events l"
  by (auto simp: putProjection_def putPrimarySessionThreadProjection_def bindE_Inr_iff putSessionOnly_def
      putPrimaryThreadProjection_def)

lemma recorded_same: "lg_Events l' = lg_Events l \<Longrightarrow> recorded marshal turn l' d = recorded marshal turn l d"
  by (simp add: recorded_def GetEvent_def)

lemma putThread_events: "putSessionThreadTx t l = Inr l' \<Longrightarrow> lg_Events l' = lg_Events l"
  by (auto simp: putSessionThreadTx_def split: if_splits)

lemma recordPrimary_cases:
  assumes "recordPrimaryThreadWorkflowRetryLocked marshal r session turn errorID statusID err l = Inr l'"
  obtains (known) "l' = l" "workflowDraftsExisting marshal turn [retryErrorDraft errorID err] l = Inr True"
    | (moved) primary l1 es n l2 where "coordinatorOwner turn l = Inr primary" "t_Status primary = StatusRunning"
      "putSessionThreadTx (Thread_TransitionStatus primary StatusRescheduling (rt_Now r)) l = Inr l1"
      "appendThreadDrafts r (t_ID primary) ([retryErrorDraft errorID err]
         @ (if unarchivedStatuses l1 = StatusRescheduling then [statusDraft statusID EvSessionStatusRescheduling] else []))
         (maxSeq l1) (Some turn) l1 = Inr (es, n, l2)"
      "l' = (if s_Status session \<noteq> unarchivedStatuses l1
             then putSessionOnly (TransitionStatus session (unarchivedStatuses l1) (rt_Now r)) l2 else l2)"
proof -
  from assms obtain x where x: "workflowDraftsExisting marshal turn [retryErrorDraft errorID err] l = Inr x"
    by (auto simp: recordPrimaryThreadWorkflowRetryLocked_def bindE_Inr_iff)
  show thesis
  proof (cases x)
    case True
    with assms x show thesis by (intro known) (auto simp: recordPrimaryThreadWorkflowRetryLocked_def)
  next
    case False
    from assms show thesis
      unfolding recordPrimaryThreadWorkflowRetryLocked_def x bindE_simps if_not_P [OF False] if_Inl Let_def bindE_Inr_iff
        case_prod_beta split_paired_Ex fst_conv snd_conv
      by (elim exE conjE) (rule moved, (assumption | simp only: sum.inject not_not)+)
  qed
qed

lemma recordPrimary_recorded:
  assumes "recordPrimaryThreadWorkflowRetryLocked marshal r session turn errorID statusID err l = Inr l'"
    and "errorID \<noteq> []" "statusID \<noteq> []" "stableEncoding marshal r [(''error'', JObj err)]" "stableEncoding marshal r []"
  shows "recorded marshal turn l' (retryErrorDraft errorID err)"
  using assms(1)
proof (cases rule: recordPrimary_cases)
  case known
  with existing_recorded(2) [OF known(2)] show ?thesis by simp
next
  case (moved primary l1 es n l2)
  let ?ds = "[retryErrorDraft errorID err]
         @ (if unarchivedStatuses l1 = StatusRescheduling then [statusDraft statusID EvSessionStatusRescheduling] else [])"
  have "list_all (\<lambda>d. d_ID d \<noteq> [] \<and> stableEncoding marshal r (d_Payload d)) ?ds"
    using assms(2-) by (simp add: retryErrorDraft_def statusDraft_def)
  from append_recorded [OF moved(4) this] have "recorded marshal turn l2 (retryErrorDraft errorID err)" by simp
  moreover have "lg_Events l' = lg_Events l2" unfolding moved(5) by (simp add: putSessionOnly_def)
  ultimately show ?thesis using recorded_same by blast
qed

lemma RecordWorkflowRetry_recorded:
  assumes "RecordWorkflowRetry marshal r turn errorID statusID err l = Inr (b, l')"
    and "stableEncoding marshal r [(''error'', JObj err)]" "stableEncoding marshal r []"
  shows "recorded marshal turn l' (retryErrorDraft errorID err)"
    and "ag_Multiagent (s_AgentSnapshot (lg_Session l)) = None \<Longrightarrow>
      recorded marshal turn l' (statusDraft statusID EvSessionStatusRescheduling)"
proof -
  let ?ds = "[retryErrorDraft errorID err, statusDraft statusID EvSessionStatusRescheduling]"
  from assms(1) have ids: "turn \<noteq> []" "errorID \<noteq> []" "statusID \<noteq> []" "errorID \<noteq> statusID"
    by (auto simp: RecordWorkflowRetry_def split: if_splits)
  have enc: "list_all (\<lambda>d. d_ID d \<noteq> [] \<and> stableEncoding marshal r (d_Payload d)) ?ds"
    using assms(2,3) ids by (simp add: retryErrorDraft_def statusDraft_def)
  note run = assms(1) [unfolded RecordWorkflowRetry_def if_Inl Let_def bindE_Inr_iff lockTrigger_ok]
  have "recorded marshal turn l' (retryErrorDraft errorID err) \<and> (ag_Multiagent (s_AgentSnapshot (lg_Session l)) = None \<longrightarrow>
      list_all (recorded marshal turn l') ?ds)"
  proof (cases "ag_Multiagent (s_AgentSnapshot (lg_Session l)) = None")
    case False
    with run have "recordPrimaryThreadWorkflowRetryLocked marshal r (lg_Session l) turn errorID statusID err l = Inr l'"
      by (auto dest!: LockSession_ok simp: bindE_Inr_iff)
    from recordPrimary_recorded [OF this ids(2,3) assms(2,3)] False show ?thesis by blast
  next
    case True
    show ?thesis
    proof (cases "workflowDraftsExisting marshal turn ?ds l = Inr True")
      case existing: True
      with run True have "l' = l" by (auto dest!: LockSession_ok simp: bindE_Inr_iff)
      with existing_recorded(2) [OF existing] show ?thesis by simp
    next
      case fresh: False
      from run True fresh obtain es n l1 where a: "appendDrafts r ?ds (maxSeq l) (Some turn) l = Inr (es, n, l1)"
        and l': "lg_Events l' = lg_Events l1"
        by (auto dest!: LockSession_ok simp: bindE_Inr_iff if_Inl simp del: appendThreadDrafts.simps
            dest: putProjection_events split: if_splits)
      from a append_recorded [OF _ enc] have "list_all (recorded marshal turn l1) ?ds"
        by (auto simp: appendDrafts_def bindE_Inr_iff simp del: appendThreadDrafts.simps)
      then show ?thesis by (simp add: recorded_same [OF l'])
    qed
  qed
  then show "recorded marshal turn l' (retryErrorDraft errorID err)"
    and "ag_Multiagent (s_AgentSnapshot (lg_Session l)) = None \<Longrightarrow>
      recorded marshal turn l' (statusDraft statusID EvSessionStatusRescheduling)" by auto
qed

section \<open>The Session follows its Threads\<close>

definition follows :: "ledger \<Rightarrow> bool" where
  "follows l \<longleftrightarrow> s_Status (lg_Session l) = unarchivedStatuses l"

text \<open>One retry transaction of a coordinator Session.\<close>

inductive retryStep :: "ledger \<Rightarrow> ledger \<Rightarrow> bool" where
  recordPrimary: "RecordWorkflowRetry marshal r turn errorID statusID err l = Inr (b, l') \<Longrightarrow> retryStep l l'"
| resumePrimary: "ResumeWorkflowRetry marshal r turn statusID l = Inr (b, l') \<Longrightarrow> retryStep l l'"
| recordChild: "RecordThreadWorkflowRetry marshal r threadID turn errorID statusID err l = Inr (b, l') \<Longrightarrow> retryStep l l'"
| resumeChild: "ResumeThreadWorkflowRetry marshal r threadID turn statusID l = Inr (b, l') \<Longrightarrow> retryStep l l'"

lemma unarchived_cong:
  "lg_Threads l' = lg_Threads l \<Longrightarrow> s_ID (lg_Session l') = s_ID (lg_Session l) \<Longrightarrow> unarchivedStatuses l' = unarchivedStatuses l"
  by (simp add: unarchivedStatuses_def)

lemma transition_ID [simp]: "s_ID (TransitionStatus s st now) = s_ID s"
  by (simp add: TransitionStatus_def Let_def split: option.splits)

lemma putThread_session: "putSessionThreadTx t l = Inr l' \<Longrightarrow> lg_Session l' = lg_Session l"
  by (auto simp: putSessionThreadTx_def split: if_splits)

lemma updateAggregate_follows:
  "updateAggregateStatusLocked r session p turn n l = Inr l' \<Longrightarrow> session = lg_Session l \<Longrightarrow> follows l'"
  by (auto simp: updateAggregateStatusLocked_def Let_def follows_def bindE_Inr_iff putSessionOnly_def TransitionStatus_fields
      simp del: appendThreadDrafts.simps split: if_splits dest!: append_context intro!: unarchived_cong [symmetric]
      intro: trans [OF _ unarchived_cong [symmetric]])

lemma settled_follows:
  assumes "appendThreadDrafts r th ds n turn l1 = Inr (es, m, l2)" "s_ID session = s_ID (lg_Session l1)"
    and "s_Status session = unarchivedStatuses l1"
  shows "follows (putSessionOnly session l2)"
  using append_context [OF assms(1)] assms(2,3)
  by (auto simp: follows_def putSessionOnly_def unarchivedStatuses_def)

lemma recordPrimary_follows:
  assumes "recordPrimaryThreadWorkflowRetryLocked marshal r (lg_Session l) turn errorID statusID err l = Inr l'" "follows l"
  shows "follows l'"
  using assms(1)
proof (cases rule: recordPrimary_cases)
  case known
  then show ?thesis using assms(2) by simp
next
  case (moved primary l1 es n l2)
  note s1 = putThread_session [OF moved(3)]
  show ?thesis
  proof (cases "s_Status (lg_Session l) = unarchivedStatuses l1")
    case True
    with append_context [OF moved(4)] s1 show ?thesis
      by (simp add: moved(5) follows_def unarchivedStatuses_def)
  next
    case False
    then show ?thesis unfolding moved(5) if_P [OF False]
      by (intro settled_follows [OF moved(4)]) (simp_all add: s1 TransitionStatus_fields)
  qed
qed

lemma resumePrimary_cases:
  assumes "resumePrimaryThreadWorkflowRetryLocked r session turn statusID l = Inr l'"
  obtains (running) "l' = l"
    | (silent) primary where "coordinatorOwner turn l = Inr primary" "t_Status primary = StatusRescheduling"
      "putSessionThreadTx (Thread_TransitionStatus primary StatusRunning (rt_Now r)) l = Inr l'"
      "s_Status session = unarchivedStatuses l'"
    | (moved) primary l1 es n l2 where "coordinatorOwner turn l = Inr primary" "t_Status primary = StatusRescheduling"
      "putSessionThreadTx (Thread_TransitionStatus primary StatusRunning (rt_Now r)) l = Inr l1"
      "appendThreadDrafts r (t_ID primary) [statusDraft statusID EvSessionStatusRunning] (maxSeq l1) (Some turn) l1
         = Inr (es, n, l2)"
      "l' = putSessionOnly (TransitionStatus session (unarchivedStatuses l1) (rt_Now r)) l2"
  using assms
  by (auto simp: resumePrimaryThreadWorkflowRetryLocked_def bindE_Inr_iff Let_def if_Inl simp del: appendThreadDrafts.simps
      split: if_split_asm)

lemma resumePrimary_follows:
  assumes "resumePrimaryThreadWorkflowRetryLocked r (lg_Session l) turn statusID l = Inr l'" "follows l"
  shows "follows l'"
  using assms(1)
proof (cases rule: resumePrimary_cases)
  case running
  then show ?thesis using assms(2) by simp
next
  case (silent primary)
  then show ?thesis using putThread_session [OF silent(3)] by (simp add: follows_def)
next
  case (moved primary l1 es n l2)
  show ?thesis unfolding moved(5) using putThread_session [OF moved(3)]
    by (intro settled_follows [OF moved(4)]) (simp_all add: TransitionStatus_fields)
qed

lemma moveChild_follows:
  "moveChild r (lg_Session l) thread parent turn status ty drafts l = Inr l' \<Longrightarrow> follows l'"
  by (auto simp: moveChild_def bindE_Inr_iff simp del: appendThreadDrafts.simps
      dest!: append_context putThread_session elim!: updateAggregate_follows)

lemma lockChild_ok: "lockChildRetryOwner threadID turn l = Inr (session, thread, parent) \<Longrightarrow> session = lg_Session l"
  by (cases "LockSession l"; cases "loadSessionThreadForUpdate threadID l"; cases "GetEvent turn l")
    (auto simp: lockChildRetryOwner_def dest: LockSession_ok split: option.split_asm if_split_asm)

text \<open>
  A trigger that is processed on receipt, an outcome or a tool result of the client, can never have a retry recorded.
\<close>

lemma retry_refuses_receipt_processed:
  assumes "GetEvent turn l = Some trigger" "stamped (newEvent r0 session threadID turn n tr d) trigger"
    and "d_Type d \<in> {EvUserDefineOutcome, EvUserCustomToolResult, EvUserToolResult}"
  shows "\<nexists>b l'. RecordWorkflowRetry marshal r turn errorID statusID err l = Inr (b, l')"
proof -
  have "ProcessedOnReceipt (d_Type d)" using assms(3) by (auto simp: ProcessedOnReceipt_def event_type_defs)
  then have "e_ProcessedAt trigger \<noteq> None" using assms(2) by (auto simp: stamped_def newEvent_def)
  with assms(1) show ?thesis by (auto simp: RecordWorkflowRetry_def bindE_Inr_iff lockTrigger_ok if_Inl)
qed

section \<open>A running turn\<close>

definition sampleRuntime :: runtime where
  "sampleRuntime = \<lparr>rt_Recode = Some, rt_NewID = (\<lambda>pfx n. pfx @ replicate n (CHR ''i'')), rt_Quote = (\<lambda>s. s), rt_Now = 9\<rparr>"

definition sampleMessage :: "string \<Rightarrow> int \<Rightarrow> Event" where
  "sampleMessage i n = \<lparr>e_ID = i, e_SessionID = ''sesn_1'', e_ThreadID = ''main'', e_Sequence = n,
     e_Type = EvUserMessage, e_Payload = [], e_TurnEventID = None, e_CreatedAt = 5, e_ProcessedAt = None\<rparr>"

definition runningLedger :: "Multiagent option \<Rightarrow> ledger" where
  "runningLedger m =
     (let s = TransitionStatus (sampleSession\<lparr>s_AgentSnapshot := sampleAgent\<lparr>ag_Multiagent := m\<rparr>\<rparr>) StatusRunning 5
      in (sampleLedger [] [sampleMessage ''m1'' 1])\<lparr>lg_Session := s,
           lg_Threads := [(PrimaryKind, NewPrimarySessionThread ''main'' s)]\<rparr>)"

definition sampleProgress :: EventDraft where
  "sampleProgress = \<lparr>d_ID = ''e1'', d_Type = EvAgentMessage, d_Payload = []\<rparr>"

text \<open>A stand-in for the encoder, on payloads without nesting.\<close>

definition sampleMarshal :: "payload \<Rightarrow> string option" where
  "sampleMarshal p = Some (concat (map fst p))"

lemma sampleStable [simp]: "stableEncoding sampleMarshal sampleRuntime p"
  by (simp add: stableEncoding_def sampleMarshal_def sampleRuntime_def)

definition okLedger :: "storeError + bool \<times> ledger \<Rightarrow> (ledger \<Rightarrow> bool) \<Rightarrow> bool" where
  "okLedger x p \<longleftrightarrow> (case x of Inl _ \<Rightarrow> False | Inr (_, l) \<Rightarrow> p l)"

lemma okLedgerE: "okLedger x p \<Longrightarrow> (\<And>b l. x = Inr (b, l) \<Longrightarrow> p l \<Longrightarrow> thesis) \<Longrightarrow> thesis"
  by (auto simp: okLedger_def split: sum.splits)

lemma sampleProgress_eval:
  "okLedger (AppendWorkflowEvents sampleMarshal sampleRuntime ''m1'' [sampleProgress] (runningLedger None))
     (\<lambda>l. length (lg_Events l) = 2 \<and> LockSession l = Inr (lg_Session l) \<and> s_Status (lg_Session l) = StatusRunning)"
  by code_simp

definition sampleRetry :: "Multiagent option \<Rightarrow> storeError + bool \<times> ledger" where
  "sampleRetry m = RecordWorkflowRetry sampleMarshal sampleRuntime ''m1'' ''e1'' ''e2'' [] (runningLedger m)"

definition openRetry :: "Multiagent option \<Rightarrow> ledger \<Rightarrow> bool" where
  "openRetry m l \<longleftrightarrow> length (lg_Events l) = 3 \<and> \<not> isl (lockWorkflowTrigger ''m1'' l)
     \<and> s_Status (lg_Session l) = StatusRescheduling
     \<and> (ag_Multiagent (s_AgentSnapshot (lg_Session l)) = None) = (m = None)"

lemma sampleRetry_eval:
  "okLedger (sampleRetry None) (openRetry None)"
  "okLedger (sampleRetry (Some sampleRoster)) (openRetry (Some sampleRoster))"
  by code_simp+

lemma running_single: "ag_Multiagent (s_AgentSnapshot (lg_Session (runningLedger m))) = m"
  by (simp add: runningLedger_def Let_def TransitionStatus_def split: option.splits)

lemma not_isl_Inr: "\<not> isl x \<Longrightarrow> (\<And>y. x = Inr y \<Longrightarrow> thesis) \<Longrightarrow> thesis"
  by (cases x) auto

section \<open>Properties\<close>

text \<open>
  C25. A progress append that is delivered again changes nothing: whatever the Session's ledger has
  become since the batch was committed, as long as its old rows stand and the turn still runs, the same
  batch is recognised whole, by identifier, turn, type and encoded payload, and no second copy is written.
\<close>

theorem progress_redelivery:
  assumes "AppendWorkflowEvents marshal r turn drafts l = Inr (b, l1)"
    and "list_all (\<lambda>d. stableEncoding marshal r (d_Payload d)) drafts"
    and "grows l1 l2" and "LockSession l2 = Inr session" and "s_Status session = StatusRunning"
  shows "AppendWorkflowEvents marshal r' turn drafts l2 = Inr (False, l2)"
proof (rule AppendWorkflowEvents_cases [OF assms(1)])
  fix trigger
  assume a: "turn \<noteq> []" "drafts \<noteq> []" "progressError [] drafts = None" "GetEvent turn l = Some trigger"
    and run: "\<not> b \<and> l1 = l \<and> list_all (recorded marshal turn l) drafts
     \<or> b \<and> (\<exists>es n. appendThreadDrafts r (e_ThreadID trigger) drafts (maxSeq l) (Some turn) l = Inr (es, n, l1))"
  have ids: "list_all (\<lambda>d. d_ID d \<noteq> [] \<and> stableEncoding marshal r (d_Payload d)) drafts"
    using assms(2) progress_ids [OF a(3)] by (simp add: list_all_iff)
  have "grows l l1" using run append_grows by auto
  then obtain trigger' where t: "GetEvent turn l2 = Some trigger'"
    using GetEvent_grows [OF grows_trans [OF _ assms(3)] a(4)] by blast
  have "list_all (recorded marshal turn l1) drafts" using run append_recorded [OF _ ids] by auto
  then have "list_all (recorded marshal turn l2) drafts"
    using recorded_grows [OF assms(3)] by (auto simp: list_all_iff)
  then show ?thesis using a(1-3) t assms(4,5)
    by (simp add: AppendWorkflowEvents_def countExisting_all [THEN iffD2])
qed

theorem progress_redelivery_witness:
  "\<exists>b l1. AppendWorkflowEvents sampleMarshal sampleRuntime ''m1'' [sampleProgress] (runningLedger None) = Inr (b, l1)
     \<and> AppendWorkflowEvents sampleMarshal (sampleRuntime\<lparr>rt_Now := 12\<rparr>) ''m1'' [sampleProgress] l1 = Inr (False, l1)"
proof (rule okLedgerE [OF sampleProgress_eval])
  fix b l1
  assume r: "AppendWorkflowEvents sampleMarshal sampleRuntime ''m1'' [sampleProgress] (runningLedger None) = Inr (b, l1)"
    and l1: "length (lg_Events l1) = 2 \<and> LockSession l1 = Inr (lg_Session l1) \<and> s_Status (lg_Session l1) = StatusRunning"
  from progress_redelivery [OF r _ grows_refl] l1 r show ?thesis by auto
qed

text \<open>
  C26. Recording a failed model request again changes nothing: once the error of a retry is committed, a
  redelivered activity finds it, in whatever the Session has become while the turn is still open, and neither
  a second error nor a second change of status is written, on a plain Session as on a coordinator.
\<close>

theorem retry_redelivery:
  assumes "RecordWorkflowRetry marshal r turn errorID statusID err l = Inr (b, l1)"
    and "stableEncoding marshal r [(''error'', JObj err)]" "stableEncoding marshal r []"
    and "grows l1 l2" and "lockWorkflowTrigger turn l2 = Inr session"
    and "(ag_Multiagent (s_AgentSnapshot session) = None) = (ag_Multiagent (s_AgentSnapshot (lg_Session l)) = None)"
  shows "\<exists>b'. RecordWorkflowRetry marshal r' turn errorID statusID err l2 = Inr (b', l2)"
proof -
  note rec = RecordWorkflowRetry_recorded [OF assms(1-3)]
  have ids: "turn \<noteq> []" "errorID \<noteq> []" "statusID \<noteq> []" "errorID \<noteq> statusID"
    using assms(1) by (auto simp: RecordWorkflowRetry_def split: if_splits)
  show ?thesis
  proof (cases "ag_Multiagent (s_AgentSnapshot session) = None")
    case True
    with rec assms(6) have "list_all (recorded marshal turn l2)
        [retryErrorDraft errorID err, statusDraft statusID EvSessionStatusRescheduling]"
      using recorded_grows [OF assms(4)] by simp
    from existing_recorded(1) [OF this] show ?thesis using True ids assms(5)
      by (intro exI [of _ False]) (simp add: RecordWorkflowRetry_def Let_def)
  next
    case False
    with rec have "list_all (recorded marshal turn l2) [retryErrorDraft errorID err]"
      using recorded_grows [OF assms(4)] by simp
    from existing_recorded(1) [OF this] show ?thesis using False ids assms(5)
      by (intro exI [of _ True]) (simp add: RecordWorkflowRetry_def recordPrimaryThreadWorkflowRetryLocked_def)
  qed
qed

theorem retry_redelivery_witness:
  "\<exists>b l1 b'. sampleRetry None = Inr (b, l1) \<and> length (lg_Events l1) = 3
     \<and> RecordWorkflowRetry sampleMarshal sampleRuntime ''m1'' ''e1'' ''e2'' [] l1 = Inr (b', l1)"
proof (rule okLedgerE [OF sampleRetry_eval(1)])
  fix b l1
  assume r: "sampleRetry None = Inr (b, l1)" and l1: "openRetry None l1"
  then obtain s where s: "lockWorkflowTrigger ''m1'' l1 = Inr s" by (auto simp: openRetry_def elim: not_isl_Inr)
  then have "s = lg_Session l1" by (auto simp: lockTrigger_ok dest: LockSession_ok)
  with retry_redelivery [OF r [unfolded sampleRetry_def] _ _ grows_refl s] l1
  obtain b' where "RecordWorkflowRetry sampleMarshal sampleRuntime ''m1'' ''e1'' ''e2'' [] l1 = Inr (b', l1)"
    by (auto simp: openRetry_def running_single)
  then show ?thesis using r l1 by (auto simp: openRetry_def)
qed

text \<open>
  On a Session with a coordinator, the status of the Session stays the aggregate of its unarchived Threads
  through every retry: when the coordinator or a child is rescheduled after a failed model request and when it
  resumes, the Session moves exactly as its Threads together do.
\<close>

theorem retry_keeps_aggregate:
  assumes "retryStep l l'" "ag_Multiagent (s_AgentSnapshot (lg_Session l)) \<noteq> None" "follows l"
  shows "follows l'"
  using assms
proof (induction rule: retryStep.induct)
  case (recordPrimary marshal r turn errorID statusID err l b l')
  then have "recordPrimaryThreadWorkflowRetryLocked marshal r (lg_Session l) turn errorID statusID err l = Inr l'"
    by (auto simp: RecordWorkflowRetry_def if_Inl bindE_Inr_iff lockTrigger_ok dest!: LockSession_ok)
  then show ?case using recordPrimary.prems(2) by (rule recordPrimary_follows)
next
  case (resumePrimary marshal r turn statusID l b l')
  then have "resumePrimaryThreadWorkflowRetryLocked r (lg_Session l) turn statusID l = Inr l'"
    by (auto simp: ResumeWorkflowRetry_def if_Inl bindE_Inr_iff lockTrigger_ok dest!: LockSession_ok)
  then show ?case using resumePrimary.prems(2) by (rule resumePrimary_follows)
next
  case (recordChild marshal r threadID turn errorID statusID err l b l')
  then show ?case
    by (auto simp: RecordThreadWorkflowRetry_def if_Inl Let_def bindE_Inr_iff dest!: lockChild_ok
        intro: moveChild_follows split: if_splits)
next
  case (resumeChild marshal r threadID turn statusID l b l')
  then show ?case
    by (auto simp: ResumeThreadWorkflowRetry_def if_Inl Let_def bindE_Inr_iff dest!: lockChild_ok
        intro: moveChild_follows split: if_splits)
qed

theorem retry_keeps_aggregate_witness:
  "\<exists>b l1. sampleRetry (Some sampleRoster) = Inr (b, l1) \<and> s_Status (lg_Session l1) = StatusRescheduling \<and> follows l1"
proof (rule okLedgerE [OF sampleRetry_eval(2)])
  fix b l1
  assume r: "sampleRetry (Some sampleRoster) = Inr (b, l1)" and l1: "openRetry (Some sampleRoster) l1"
  have "follows (runningLedger (Some sampleRoster))" by code_simp
  then have "follows l1"
    by (intro retry_keeps_aggregate [OF retryStep.recordPrimary [OF r [unfolded sampleRetry_def]]]) (simp add: running_single)
  with r l1 show ?thesis by (auto simp: openRetry_def)
qed

end
