(* ===== verification/Delegation.thy ===== *)
theory Delegation
  imports Progress
begin

text \<open>
  Delegation: the coordinator's private tools (\<open>internal/pg/multiagent_runtime.go\<close>), the advisor's consultation
  (\<open>internal/pg/advisor.go\<close>), and the life of a child Thread outside its turns (\<open>internal/pg/session_threads.go\<close>).
  A coordinator tool commits its effect and its result in one transaction; an advisor's answer is recorded with its
  Thread, its events and its cost in one.
\<close>

section \<open>Parameters and rows\<close>

text \<open>\<open>json.Marshal\<close> and \<open>json.Unmarshal\<close> as the tools use them, and the Unicode tables of a model name.\<close>

record toolRuntime =
  tr_Runtime :: runtime
  tr_Marshal :: "jval \<Rightarrow> string option"
  tr_Unmarshal :: "string \<Rightarrow> jval option"
  tr_RecodeResult :: "ToolStepResult \<Rightarrow> ToolStepResult option"
  tr_Respace :: "string \<Rightarrow> string"
  tr_Tables :: unicodeTables

text \<open>Table \<open>model_request_usage\<close>, beside the other rows of the Session.\<close>

record usageRow =
  mu_ThreadID :: string
  mu_RequestEventID :: string
  mu_ModelID :: string
  mu_InferenceGeo :: string
  mu_StopReason :: string
  mu_Usage :: TokenUsage
  mu_ListCost :: "int option"
  mu_CreatedAt :: time

type_synonym books = "ledger \<times> usageRow list"

definition EvSessionThreadCreated :: string where "EvSessionThreadCreated = ''session.thread_created''"
definition PrefixSessionThread :: string where "PrefixSessionThread = ''sthr_''"

definition threadKindOf :: "string \<Rightarrow> ledger \<Rightarrow> threadKind option" where
  "threadKindOf i l = map_option fst (find (\<lambda>(_, t). t_ID t = i) (lg_Threads l))"

definition insertThread :: "threadKind \<Rightarrow> SessionThread \<Rightarrow> ledger \<Rightarrow> storeError + ledger" where
  "insertThread k t l =
     (if t_ID t \<in> set (map (t_ID \<circ> snd) (lg_Threads l))
         \<or> (case t_ParentThreadID t of None \<Rightarrow> False | Some p \<Rightarrow> p \<notin> set (map (t_ID \<circ> snd) (lg_Threads l)))
      then Inl ConstraintViolation else Inr (l\<lparr>lg_Threads := lg_Threads l @ [(k, t)]\<rparr>))"

section \<open>The coordinator's tools (internal/pg/multiagent_runtime.go)\<close>

definition ListAgentsToolName :: string where "ListAgentsToolName = ''list_agents''"
definition SendToAgentToolName :: string where "SendToAgentToolName = ''send_to_agent''"
definition maxConcurrentSessionThreads :: nat where "maxConcurrentSessionThreads = 25"

record SendToAgentInput =
  sa_AgentName :: string
  sa_Message :: string
  sa_SessionThreadID :: string

definition ParseSendToAgentInput :: "(string \<Rightarrow> string) \<Rightarrow> payload option \<Rightarrow> string + SendToAgentInput" where
  "ParseSendToAgentInput quote inp =
     (case inp of
        None \<Rightarrow> Inl ''send_to_agent input is required''
      | Some m \<Rightarrow>
          (case find (\<lambda>(k, _). k \<notin> {''agent_name'', ''message'', ''session_thread_id''}) m of
             Some (k, _) \<Rightarrow> Inl (''send_to_agent input contains unknown field '' @ quote k)
           | None \<Rightarrow>
               (let agentName = trimSpace (strOf (jget m ''agent_name'')); message = trimSpace (strOf (jget m ''message''));
                    threadID = trimSpace (strOf (jget m ''session_thread_id''))
                in if agentName = [] then Inl ''send_to_agent agent_name is required''
                   else if message = [] then Inl ''send_to_agent message is required''
                   else Inr \<lparr>sa_AgentName = agentName, sa_Message = message, sa_SessionThreadID = threadID\<rparr>)))"

definition textContent :: "string \<Rightarrow> jval list" where
  "textContent s = [JObj [(''type'', JStr ''text''), (''text'', JStr s)]]"

definition textResult :: "string \<Rightarrow> bool \<Rightarrow> ToolStepResult" where
  "textResult s isError = \<lparr>sr_Content = Some (textContent s), sr_IsError = isError, sr_InjectedContent = None,
     sr_Events = None, sr_Raw = None, sr_RawPath = []\<rparr>"

definition coordinatorToolError :: "string \<Rightarrow> ToolStepResult" where
  "coordinatorToolError message = textResult message True"

definition coordinatorToolJSON :: "toolRuntime \<Rightarrow> jval \<Rightarrow> storeError + ToolStepResult" where
  "coordinatorToolJSON r v = (case tr_Marshal r v of None \<Rightarrow> Inl NotEncodable | Some text \<Rightarrow> Inr (textResult text False))"

text \<open>A report that names a Thread is one that woke it.\<close>

definition coordinatorWakeThreadID :: "toolRuntime \<Rightarrow> ToolStepResult \<Rightarrow> string" where
  "coordinatorWakeThreadID r result =
     (if sr_IsError result then []
      else (case elems (sr_Content result) of
          [v] \<Rightarrow> (case tr_Unmarshal r (strOf (jget (objOf (Some v)) ''text'')) of
              Some (JObj m) \<Rightarrow> strOf (jget m ''session_thread_id'')
            | _ \<Rightarrow> [])
        | _ \<Rightarrow> []))"

text \<open>Live children in order of creation, under the last roster member of their Agent's name.\<close>

definition liveChildren :: "ledger \<Rightarrow> SessionThread list" where
  "liveChildren l = sort_key (\<lambda>t. QueueKey (t_CreatedAt t) (t_ID t))
     (map snd (filter (\<lambda>(k, t). k = ChildKind \<and> t_ArchivedAt t = None) (lg_Threads l)))"

fun statusText :: "Status \<Rightarrow> string" where
  "statusText StatusRunning = ''running''"
| "statusText StatusIdle = ''idle''"
| "statusText StatusRescheduling = ''rescheduling''"
| "statusText StatusTerminated = ''terminated''"

definition threadView :: "SessionThread \<Rightarrow> jval" where
  "threadView t = JObj [(''session_thread_id'', JStr (t_ID t)), (''status'', JStr (statusText (t_Status t)))]"

fun agentViews :: "Agent list \<Rightarrow> SessionThread list \<Rightarrow> jval list" where
  "agentViews [] threads = []"
| "agentViews (m # ms) threads =
     (let description = (case ag_Description m of None \<Rightarrow> [] | Some d \<Rightarrow> d);
          own = (if ag_Name m \<in> set (map ag_Name ms) then [] else filter (\<lambda>t. ag_Name (t_Agent t) = ag_Name m) threads)
      in JObj ([(''name'', JStr (ag_Name m))]
           @ (if description = [] then [] else [(''description'', JStr description)])
           @ [(''model'', JStr (m_ID (ag_Model m))), (''threads'', JArr (map threadView own))]) # agentViews ms threads)"

definition listCoordinatorAgentsLocked :: "toolRuntime \<Rightarrow> Session \<Rightarrow> ledger \<Rightarrow> storeError + ToolStepResult" where
  "listCoordinatorAgentsLocked r session l =
     (if ag_Multiagent (s_AgentSnapshot session) = None
      then Inr (coordinatorToolError ''Session Agent is not a multiagent coordinator'')
      else coordinatorToolJSON r (JObj [(''agents'', JArr (agentViews (s_MultiagentRoster session) (liveChildren l)))]))"

definition rosterMemberByName :: "Agent list \<Rightarrow> string \<Rightarrow> string + Agent" where
  "rosterMemberByName roster name =
     (case filter (\<lambda>m. ag_Name m = name) roster of
        [] \<Rightarrow> Inl ''agent name is not present in the Session roster''
      | [m] \<Rightarrow> Inr m
      | _ \<Rightarrow> Inl ''agent name does not uniquely identify a roster member'')"

text \<open>
  The child a message goes to: a new one, inserted idle, or one that the coordinator has started. \<open>Inl\<close> refuses the
  call with an error that the model reads.
\<close>

definition newChild :: "toolRuntime \<Rightarrow> Session \<Rightarrow> string \<Rightarrow> Agent \<Rightarrow> ledger \<Rightarrow> SessionThread \<times> ledger" where
  "newChild r session parentThreadID member l =
     (let (i, l1) = NewID (tr_Runtime r) PrefixSessionThread l
      in (NewChildSessionThread i (s_ID session) parentThreadID member (rt_Now (tr_Runtime r)), l1))"

definition targetThread ::
    "toolRuntime \<Rightarrow> Session \<Rightarrow> string \<Rightarrow> Agent \<Rightarrow> SendToAgentInput \<Rightarrow> ledger \<Rightarrow>
     storeError + (string + SessionThread \<times> ledger)" where
  "targetThread r session parentThreadID member inp l =
     (if sa_SessionThreadID inp = []
      then (if maxConcurrentSessionThreads
               \<le> affected (\<lambda>(k, t). k \<noteq> AdvisorKind \<and> t_ArchivedAt t = None) (lg_Threads l)
            then Inr (Inl ''Session has reached the 25 concurrent Thread limit'')
            else Inr (Inr (newChild r session parentThreadID member l)))
      else (case loadSessionThreadForUpdate (sa_SessionThreadID inp) l of
          Inl e \<Rightarrow> (case e of
              Refused d \<Rightarrow> if dk_Kind d = KindNotFound
                then Inr (Inl ''session_thread_id does not name an existing child Thread'') else Inl e
            | _ \<Rightarrow> Inl e)
        | Inr child \<Rightarrow>
            if t_ParentThreadID child \<noteq> Some parentThreadID \<or> ag_Name (t_Agent child) \<noteq> sa_AgentName inp
            then Inr (Inl ''session_thread_id does not belong to the named roster agent'')
            else if t_ArchivedAt child \<noteq> None \<or> t_Status child = StatusTerminated
            then Inr (Inl ''cannot send to a terminated child Thread'')
            else Inr (Inr (child, l))))"

definition createdDraft :: "string \<Rightarrow> string \<Rightarrow> EventDraft" where
  "createdDraft agentName threadID = \<lparr>d_ID = [], d_Type = EvSessionThreadCreated,
     d_Payload = [(''agent_name'', JStr agentName), (''session_thread_id'', JStr threadID)]\<rparr>"

definition sentDraft :: "SendToAgentInput \<Rightarrow> string \<Rightarrow> EventDraft" where
  "sentDraft inp childID = \<lparr>d_ID = [], d_Type = EvAgentThreadMessageSent,
     d_Payload = [(''to_session_thread_id'', JStr childID), (''to_agent_name'', JStr (sa_AgentName inp)),
       (''content'', JArr (textContent (sa_Message inp)))]\<rparr>"

definition receivedDraft :: "SendToAgentInput \<Rightarrow> string \<Rightarrow> string \<Rightarrow> EventDraft" where
  "receivedDraft inp parentThreadID coordinator = \<lparr>d_ID = [], d_Type = EvAgentThreadMessageReceived,
     d_Payload = [(''from_session_thread_id'', JStr parentThreadID), (''from_agent_name'', JStr coordinator),
       (''content'', JArr (textContent (sa_Message inp)))]\<rparr>"

definition startsChild ::
    "runtime \<Rightarrow> string \<Rightarrow> string \<Rightarrow> string \<Rightarrow> SessionThread \<Rightarrow> int \<Rightarrow> ledger \<Rightarrow> storeError + int \<times> ledger" where
  "startsChild r parentThreadID turn agentName child seq l =
     (if t_Status child = StatusRunning then Inr (seq, l)
      else
        (let status = \<lparr>d_ID = [], d_Type = EvSessionThreadStatusRunning,
               d_Payload = [(''session_thread_id'', JStr (t_ID child)), (''agent_name'', JStr agentName)]\<rparr>
         in bindE (appendThreadDrafts r (t_ID child) [status] seq None l) (\<lambda>(_, n, l1).
            bindE (appendThreadDrafts r parentThreadID [status] n (Some turn) l1) (\<lambda>(_, m, l2).
            bindE (putSessionThreadTx (Thread_TransitionStatus child StatusRunning (rt_Now r)) l2) (\<lambda>l3.
              Inr (m, l3))))))"

definition deliverToChild ::
    "toolRuntime \<Rightarrow> Session \<Rightarrow> string \<Rightarrow> string \<Rightarrow> SendToAgentInput \<Rightarrow> bool \<Rightarrow> SessionThread \<Rightarrow> ledger \<Rightarrow>
     storeError + (ToolStepResult \<times> string) \<times> ledger" where
  "deliverToChild r session parentThreadID turn inp created child l =
     (let rt = tr_Runtime r; now = rt_Now rt; parent = parentThreadID; childID = t_ID child
      in bindE (if created then insertThread ChildKind child l else Inr l) (\<lambda>l1.
         bindE (if created
                then bindE (appendThreadDrafts rt parent [createdDraft (sa_AgentName inp) childID] (maxSeq l1) (Some turn) l1)
                       (\<lambda>(_, n, l2). Inr (n, l2))
                else Inr (maxSeq l1, l1)) (\<lambda>(n2, l2).
         bindE (appendThreadDrafts rt parent [sentDraft inp childID] n2 (Some turn) l2) (\<lambda>(_, n3, l3).
         bindE (appendThreadDrafts rt childID [receivedDraft inp parent (ag_Name (s_AgentSnapshot session))] n3 None l3)
           (\<lambda>(_, n4, l4).
         bindE (startsChild rt parent turn (sa_AgentName inp) child n4 l4) (\<lambda>(n5, l5).
         (let l6 = (if s_Status session \<noteq> StatusRunning
                    then putSessionOnly (TransitionStatus session StatusRunning now) l5 else l5);
              l7 = l6\<lparr>lg_Outbox := UpsertThreadOutbox (s_ID session) childID n5 now (lg_Outbox l6)\<rparr>
          in bindE (coordinatorToolJSON r (JObj [(''status'', JStr ''accepted''), (''agent_name'', JStr (sa_AgentName inp)),
                 (''session_thread_id'', JStr childID), (''created'', JBool created),
                 (''message'', JStr ''The agent is running asynchronously; its report will arrive in a later turn.'')]))
               (\<lambda>result. Inr ((result, childID), l7)))))))))"

definition executeSendToAgentLocked ::
    "toolRuntime \<Rightarrow> Session \<Rightarrow> string \<Rightarrow> string \<Rightarrow> SendToAgentInput \<Rightarrow> ledger \<Rightarrow>
     storeError + (ToolStepResult \<times> string) \<times> ledger" where
  "executeSendToAgentLocked r session parentThreadID turn inp l =
     (let refuse = (\<lambda>message. Inr ((coordinatorToolError message, []), l))
      in if s_ArchivedAt session \<noteq> None \<or> s_Status session = StatusTerminated
         then Inl (Refused (Conflict ''cannot delegate in a terminated Session''))
         else if ag_Multiagent (s_AgentSnapshot session) = None \<or> s_MultiagentRoster session = []
         then refuse ''Session Agent is not a multiagent coordinator''
         else (case threadKindOf parentThreadID l of
             None \<Rightarrow> Inl (Refused (NotFound ''parent session thread not found''))
           | Some kind \<Rightarrow>
               if kind \<noteq> PrimaryKind then refuse ''child Threads cannot delegate to roster agents''
               else (case GetEvent turn l of
                   None \<Rightarrow> Inl NoRows
                 | Some trigger \<Rightarrow>
                     if e_ThreadID trigger \<noteq> parentThreadID
                     then Inl (Refused (Conflict ''delegation trigger belongs to another Thread''))
                     else (case rosterMemberByName (s_MultiagentRoster session) (sa_AgentName inp) of
                         Inl e \<Rightarrow> refuse e
                       | Inr member \<Rightarrow>
                           bindE (targetThread r session parentThreadID member inp l) (\<lambda>target. case target of
                               Inl e \<Rightarrow> refuse e
                             | Inr (child, l1) \<Rightarrow>
                                 deliverToChild r session parentThreadID turn inp (sa_SessionThreadID inp = []) child l1)))))"

record CoordinatorToolExecution =
  cx_Result :: ToolStepResult
  cx_WakeThreadID :: string

definition coordinatorAction ::
    "toolRuntime \<Rightarrow> Session \<Rightarrow> string \<Rightarrow> string \<Rightarrow> string \<Rightarrow> payload option \<Rightarrow> ledger \<Rightarrow>
     storeError + (ToolStepResult \<times> string) \<times> ledger" where
  "coordinatorAction r session parentThreadID turn toolName inp l =
     (if toolName = ListAgentsToolName
      then (if inp \<noteq> None \<and> inp \<noteq> Some []
            then Inr ((coordinatorToolError ''list_agents accepts no input fields'', []), l)
            else bindE (listCoordinatorAgentsLocked r session l) (\<lambda>result. Inr ((result, []), l)))
      else if toolName = SendToAgentToolName
      then (case ParseSendToAgentInput (rt_Quote (tr_Runtime r)) inp of
          Inl e \<Rightarrow> Inr ((coordinatorToolError e, []), l)
        | Inr parsed \<Rightarrow> executeSendToAgentLocked r session parentThreadID turn parsed l)
      else Inl (Refused (Validation (''unknown coordinator tool: '' @ toolName))))"

definition ExecuteCoordinatorToolStep ::
    "toolRuntime \<Rightarrow> string \<Rightarrow> string \<Rightarrow> string \<Rightarrow> string \<Rightarrow> payload option \<Rightarrow> ledger \<Rightarrow>
     storeError + CoordinatorToolExecution \<times> ledger" where
  "ExecuteCoordinatorToolStep r parentThreadID turn stepID toolName inp l =
     bindE (LockSession l) (\<lambda>session.
     bindE (lockCoordinatorToolStep stepID (lg_Journal l)) (\<lambda>(attempt, step).
       case inp of None \<Rightarrow> Inl (Refused (Conflict ''coordinator tool step does not match this turn''))
     | Some given \<Rightarrow> (case rt_Recode (tr_Runtime r) given of
         None \<Rightarrow> Inl NotEncodable
       | Some normalized \<Rightarrow>
           if ta_SessionID attempt \<noteq> s_ID session \<or> ta_TriggerEventID attempt \<noteq> turn \<or> ts_ToolName step \<noteq> toolName
              \<or> \<not> deepEq (JObj (ts_Input step)) (JObj normalized)
           then Inl (Refused (Conflict ''coordinator tool step does not match this turn''))
           else if ts_State step = ToolStepCompleted
           then (case ts_Result step of
               None \<Rightarrow> Inl NotDecodable
             | Some result \<Rightarrow>
                 Inr (\<lparr>cx_Result = result, cx_WakeThreadID = coordinatorWakeThreadID r result\<rparr>, l))
           else if ts_State step \<noteq> ToolStepPrepared
           then Inl (Refused (Conflict ''coordinator tool step is not replayable''))
           else bindE (coordinatorAction r session parentThreadID turn toolName inp l) (\<lambda>((result, wake), l1).
             case tr_RecodeResult r result of
               None \<Rightarrow> Inl NotEncodable
             | Some stored \<Rightarrow>
                 (let (n, j) = CompletePreparedToolStepRow (jsonbResult (tr_Respace r) stored) (rt_Now (tr_Runtime r)) stepID
                    (lg_Journal l1)
                  in if n \<noteq> 1 then Inl (Refused (Conflict ''invalid coordinator tool step transition''))
                     else Inr (\<lparr>cx_Result = result, cx_WakeThreadID = wake\<rparr>, l1\<lparr>lg_Journal := j\<rparr>))))))"

section \<open>The advisor (internal/pg/advisor.go, internal/domain/advisor.go)\<close>

record AdvisorConsultation =
  ac_ThreadID :: string
  ac_UsageRequestID :: string
  ac_LifecycleIDs :: "string list"
  ac_Model :: string
  ac_UsageModel :: string
  ac_Usage :: TokenUsage
  ac_UsageKnown :: bool
  ac_StopReason :: string
  ac_PublicContent :: "jval slice"
  ac_AdviceDelivered :: bool

definition normalizedUsageSpeed :: "string \<Rightarrow> string" where
  "normalizedUsageSpeed speed = (if speed = ''standard'' \<or> speed = ''fast'' then speed else ''standard'')"

definition insertUsage :: "usageRow \<Rightarrow> usageRow list \<Rightarrow> storeError + usageRow list" where
  "insertUsage row us =
     (if mu_RequestEventID row \<in> set (map mu_RequestEventID us) then Inl ConstraintViolation else Inr (us @ [row]))"

text \<open>Rows appended one by one, each to its Thread and turn.\<close>

fun appendRows :: "runtime \<Rightarrow> (string \<times> EventDraft \<times> string option) list \<Rightarrow> int \<Rightarrow> ledger \<Rightarrow> storeError + int \<times> ledger" where
  "appendRows r [] seq l = Inr (seq, l)"
| "appendRows r ((threadID, d, turn) # rows) seq l =
     bindE (appendThreadDrafts r threadID [d] seq turn l) (\<lambda>(_, n, l1). appendRows r rows n l1)"

definition advisorLifecycle :: "AdvisorConsultation \<Rightarrow> nat \<Rightarrow> string \<Rightarrow> payload \<Rightarrow> EventDraft" where
  "advisorLifecycle c i ty extra = \<lparr>d_ID = ac_LifecycleIDs c ! i, d_Type = ty,
     d_Payload = [(''session_thread_id'', JStr (ac_ThreadID c)), (''agent_name'', JStr AdvisorAgentName)] @ extra\<rparr>"

definition adviceContent :: "AdvisorConsultation \<Rightarrow> jval" where
  "adviceContent c = (case ac_PublicContent c of None \<Rightarrow> JNull | Some xs \<Rightarrow> JArr xs)"

definition advisorOpens :: "string \<Rightarrow> string \<Rightarrow> AdvisorConsultation \<Rightarrow> (string \<times> EventDraft \<times> string option) list" where
  "advisorOpens primary turn c =
     [(primary, advisorLifecycle c 0 EvSessionThreadCreated [], Some turn),
      (ac_ThreadID c, advisorLifecycle c 1 EvSessionThreadStatusRunning [], None),
      (primary, advisorLifecycle c 2 EvSessionThreadStatusRunning [], Some turn)]"

definition adviceRows :: "string \<Rightarrow> string \<Rightarrow> string \<Rightarrow> AdvisorConsultation \<Rightarrow> (string \<times> EventDraft \<times> string option) list" where
  "adviceRows primary turn agentName c =
     [(ac_ThreadID c, \<lparr>d_ID = ac_LifecycleIDs c ! 3, d_Type = EvAgentThreadMessageSent,
         d_Payload = [(''to_session_thread_id'', JStr primary), (''to_agent_name'', JStr agentName),
           (''content'', adviceContent c)]\<rparr>, None),
      (primary, \<lparr>d_ID = ac_LifecycleIDs c ! 4, d_Type = EvAgentThreadMessageReceived,
         d_Payload = [(''from_session_thread_id'', JStr (ac_ThreadID c)), (''from_agent_name'', JStr AdvisorAgentName),
           (''content'', adviceContent c)]\<rparr>, Some turn)]"

definition advisorCloses :: "string \<Rightarrow> string \<Rightarrow> AdvisorConsultation \<Rightarrow> (string \<times> EventDraft \<times> string option) list" where
  "advisorCloses primary turn c =
     (let idle = [(''stop_reason'', JObj [(''type'', JStr ''end_turn'')])]
      in [(ac_ThreadID c, advisorLifecycle c 5 EvSessionThreadStatusIdle idle, None),
          (primary, advisorLifecycle c 6 EvSessionThreadStatusIdle idle, Some turn),
          (ac_ThreadID c, advisorLifecycle c 7 EvSessionThreadStatusTerminated [], None),
          (primary, advisorLifecycle c 8 EvSessionThreadStatusTerminated [], Some turn)])"

definition priced :: "toolRuntime \<Rightarrow> Model \<Rightarrow> TokenUsage \<Rightarrow> string \<Rightarrow> int option" where
  "priced r model usage stop =
     (case ModelResponseListCostNanoUSDAt (tr_Tables r) model usage stop of Inl _ \<Rightarrow> None | Inr cost \<Rightarrow> Some cost)"

definition addCost :: "TokenUsage \<Rightarrow> int option \<Rightarrow> Session \<Rightarrow> Session" where
  "addCost usage cost s =
     (let s1 = s\<lparr>s_Usage := usageAdd (s_Usage s) usage\<rparr>
      in case cost of
           Some c \<Rightarrow> s1\<lparr>s_ModelListCostNanoUSD := i64Add (s_ModelListCostNanoUSD s) c\<rparr>
         | None \<Rightarrow> s1\<lparr>s_ListCostKnown := False\<rparr>)"

text \<open>
  The consultation itself, once: its Thread, already terminated, its usage, its events on both ledgers, and its cost.
\<close>

definition recordConsultation ::
    "toolRuntime \<Rightarrow> Session \<Rightarrow> Advisor \<Rightarrow> string \<Rightarrow> string \<Rightarrow> AdvisorConsultation \<Rightarrow> books \<Rightarrow> storeError + Session \<times> books" where
  "recordConsultation r session configured primary turn c0 = (\<lambda>(l, us).
     (let now = truncMicros (rt_Now (tr_Runtime r)); rt = (tr_Runtime r)\<lparr>rt_Now := now\<rparr>;
          usage = (ac_Usage c0)\<lparr>UsageSpeed := normalizedUsageSpeed (UsageSpeed (ac_Usage c0))\<rparr>;
          model = (if ac_Model c0 = [] then av_Model configured else ac_Model c0);
          c = c0\<lparr>ac_Usage := usage, ac_Model := model\<rparr>;
          usageModel = (if ac_UsageModel c = [] then av_Model configured else ac_UsageModel c);
          geo = m_InferenceGeo (ag_Model (s_AgentSnapshot session));
          priceModel = \<lparr>m_ID = usageModel, m_Effort = [], m_Speed = [], m_InferenceGeo = geo, m_EffortExplicit = False,
            m_SpeedExplicit = False\<rparr>;
          cost = (if ac_UsageKnown c then priced r priceModel usage (ac_StopReason c) else None);
          thread = NewAdvisorSessionThread (ac_ThreadID c) (s_ID session) primary configured usage
            (case cost of None \<Rightarrow> 0 | Some n \<Rightarrow> n) (cost \<noteq> None) now
      in if model \<noteq> av_Model configured
         then Inl (Refused (Conflict ''advisor model does not match the Session roster''))
         else bindE (insertThread AdvisorKind thread l) (\<lambda>l1.
              bindE (insertUsage \<lparr>mu_ThreadID = t_ID thread, mu_RequestEventID = ac_UsageRequestID c,
                  mu_ModelID = usageModel, mu_InferenceGeo = geo, mu_StopReason = ac_StopReason c, mu_Usage = usage,
                  mu_ListCost = cost, mu_CreatedAt = now\<rparr> us) (\<lambda>us1.
              bindE (appendRows rt (advisorOpens primary turn c) (maxSeq l) l1) (\<lambda>(n2, l2).
              bindE (if ac_AdviceDelivered c
                     then bindE (appendRows rt (adviceRows primary turn (ag_Name (s_AgentSnapshot session)) c) n2 l2)
                            (\<lambda>(n, l3). Inr (n, MarkEventProcessed now (ac_LifecycleIDs c ! 4) l3))
                     else Inr (n2, l2)) (\<lambda>(n3, l3).
              bindE (appendRows rt (advisorCloses primary turn c) n3 l3) (\<lambda>(_, l4).
                Inr ((addCost usage cost session)\<lparr>s_UpdatedAt := now\<rparr>, (l4, us1)))))))))"

definition completeAdvisorRow :: "(string \<Rightarrow> string) \<Rightarrow> ToolStepResult \<Rightarrow> time \<Rightarrow> string \<Rightarrow> journal \<Rightarrow> storeError + journal" where
  "completeAdvisorRow respace normalized now stepID j =
     (let (n, j') = CompleteToolStepRow (jsonbResult respace normalized) now stepID j
      in if n = 1 then Inr j'
         else (case GetToolStep stepID j' of
             None \<Rightarrow> Inl NoRows
           | Some row \<Rightarrow> bindE (toolStepFromRow row) (\<lambda>stored.
               if ts_State stored = ToolStepCompleted
                  \<and> (case ts_Result stored of None \<Rightarrow> False | Some r \<Rightarrow> resultEq r normalized)
               then Inr j' else Inl (Refused (Conflict ''invalid advisor tool step transition'')))))"

definition CompleteAdvisorToolStep ::
    "toolRuntime \<Rightarrow> string \<Rightarrow> string \<Rightarrow> string \<Rightarrow> ToolStepResult \<Rightarrow> AdvisorConsultation \<Rightarrow> books \<Rightarrow> storeError + books" where
  "CompleteAdvisorToolStep r primary turn stepID result c = (\<lambda>(l, us).
     (if primary = [] \<or> turn = [] \<or> stepID = []
      then Inl (Refused (Validation ''advisor consultation session, primary Thread, trigger, and tool step are required''))
      else (case tr_RecodeResult r result of
        None \<Rightarrow> Inl NotEncodable
      | Some normalized \<Rightarrow> bindE (LockSession l) (\<lambda>session.
          case rosterAdvisor (ag_Multiagent (s_AgentSnapshot session)) of
            None \<Rightarrow> Inl (Refused (Conflict ''Session Agent has no advisor''))
          | Some configured \<Rightarrow> (case threadKindOf primary l of
              None \<Rightarrow> Inl (Refused (NotFound ''primary session Thread not found''))
            | Some kind \<Rightarrow>
              if kind \<noteq> PrimaryKind
              then Inl (Refused (Conflict ''advisor consultations belong to the primary Thread''))
              else (case GetEvent turn l of
                None \<Rightarrow> Inl NoRows
              | Some trigger \<Rightarrow>
                if e_ThreadID trigger \<noteq> primary
                then Inl (Refused (Conflict ''advisor consultation trigger belongs to another Thread''))
                else (case GetToolStep stepID (lg_Journal l) of
                  None \<Rightarrow> Inl (Refused (NotFound ''advisor tool step not found''))
                | Some step \<Rightarrow> (case GetTurnAttempt (ts_AttemptID step) (lg_Journal l) of
                    None \<Rightarrow> Inl (Refused (NotFound ''advisor turn attempt not found''))
                  | Some attempt \<Rightarrow>
                    if ta_SessionID attempt \<noteq> s_ID session \<or> ta_TriggerEventID attempt \<noteq> turn
                       \<or> ts_ToolName step \<noteq> ''advisor''
                    then Inl (Refused (Conflict ''advisor tool step belongs to another turn''))
                    else if ts_State step \<notin> {ToolStepStarted, ToolStepCompleted}
                    then Inl (Refused (Conflict ''advisor tool step has not crossed the execution boundary''))
                    else if ac_ThreadID c = [] \<or> ac_UsageRequestID c = [] \<or> length (ac_LifecycleIDs c) \<noteq> 9
                    then Inl (Refused (Validation ''advisor consultation identifiers are incomplete''))
                    else
                      (let exists = threadKindOf (ac_ThreadID c) l \<noteq> None
                       in bindE (if \<not> exists then recordConsultation r session configured primary turn c (l, us)
                                 else if ts_State step \<noteq> ToolStepCompleted
                                 then Inl (Refused (Conflict ''advisor projection exists before its tool result completed''))
                                 else Inr (session, (l, us))) (\<lambda>(session1, (l1, us1)).
                          bindE (completeAdvisorRow (tr_Respace r) normalized (truncMicros (rt_Now (tr_Runtime r))) stepID (lg_Journal l1))
                            (\<lambda>j. Inr ((putSessionOnly session1 l1)\<lparr>lg_Journal := j\<rparr>, us1))))))))))))"

section \<open>Threads outside their turns (internal/pg/session_threads.go)\<close>

definition CreateChildSessionThread ::
    "runtime \<Rightarrow> string \<Rightarrow> string \<Rightarrow> ledger \<Rightarrow> storeError + (SessionThread \<times> Event) \<times> ledger" where
  "CreateChildSessionThread r parentThreadID agentName l =
     (if parentThreadID = [] \<or> agentName = []
      then Inl (Refused (Validation ''parent session thread and agent name are required''))
      else bindE (LockSession l) (\<lambda>session.
        if s_ArchivedAt session \<noteq> None \<or> s_Status session = StatusTerminated
        then Inl (Refused (Conflict ''cannot create a child Thread in a terminated Session''))
        else if ag_Multiagent (s_AgentSnapshot session) = None \<or> s_MultiagentRoster session = []
        then Inl (Refused (Conflict ''Session Agent is not a multiagent coordinator''))
        else (case threadKindOf parentThreadID l of
            None \<Rightarrow> Inl (Refused (NotFound ''parent session thread not found''))
          | Some kind \<Rightarrow>
            if kind \<noteq> PrimaryKind then Inl (Refused (Conflict ''child Threads cannot spawn nested Threads''))
            else (case filter (\<lambda>m. ag_Name m = agentName) (s_MultiagentRoster session) of
                [] \<Rightarrow> Inl (Refused (Validation ''agent name is not present in the Session roster''))
              | [member] \<Rightarrow>
                  (let (i, l1) = NewID r PrefixSessionThread l;
                       created = NewChildSessionThread i (s_ID session) parentThreadID member (rt_Now r)
                   in bindE (insertThread ChildKind created l1) (\<lambda>l2.
                      bindE (appendThreadDrafts r parentThreadID [createdDraft agentName i] (maxSeq l2) None l2)
                        (\<lambda>(es, _, l3). Inr ((created, hd es), l3))))
              | _ \<Rightarrow> Inl (Refused (Conflict ''agent name does not uniquely identify a Session roster member''))))))"

definition AppendThreadEvents :: "runtime \<Rightarrow> string \<Rightarrow> EventDraft list \<Rightarrow> ledger \<Rightarrow> storeError + Event list \<times> ledger" where
  "AppendThreadEvents r threadID drafts l =
     (if threadID = [] \<or> drafts = [] then Inl (Refused (Validation ''session Thread and events are required''))
      else if list_ex (\<lambda>d. IsClientSubmittable (d_Type d) \<or> isSessionProjectionEvent (d_Type d)) drafts
      then Inl (Refused (Validation ''Thread ledger append accepts server events only''))
      else bindE (LockSession l) (\<lambda>session.
        if s_ArchivedAt session \<noteq> None \<or> s_Status session = StatusTerminated
        then Inl (Refused (Conflict ''cannot append events to a terminated Session''))
        else bindE (loadSessionThreadForUpdate threadID l) (\<lambda>thread.
          if t_ArchivedAt thread \<noteq> None \<or> t_Status thread = StatusTerminated
          then Inl (Refused (Conflict ''cannot append events to a terminated Session Thread''))
          else bindE (appendThreadDrafts r threadID drafts (maxSeq l) None l) (\<lambda>(es, _, l1). Inr (es, l1)))))"

text \<open>Archiving a child ends it: its open actions are dropped, its inputs are done, and the Session follows.\<close>

definition dropActions :: "string \<Rightarrow> ledger \<Rightarrow> nat \<times> ledger" where
  "dropActions threadID l =
     (affected (unresolved threadID) (lg_Pending l),
      l\<lparr>lg_Pending := filter (\<lambda>p. \<not> unresolved threadID p) (lg_Pending l)\<rparr>)"

definition settleInputs :: "time \<Rightarrow> string \<Rightarrow> ledger \<Rightarrow> ledger" where
  "settleInputs now threadID l =
     l\<lparr>lg_Events := updateWhere (\<lambda>e. e_ThreadID e = threadID \<and> e_ProcessedAt e = None) (stampProcessed now) (lg_Events l)\<rparr>"

definition archivalDrafts :: "Status \<Rightarrow> ledger \<Rightarrow> EventDraft list" where
  "archivalDrafts aggregated l =
     (case aggregated of
        StatusRunning \<Rightarrow> [statusDraft [] EvSessionStatusRunning]
      | StatusRescheduling \<Rightarrow> [statusDraft [] EvSessionStatusRescheduling]
      | StatusIdle \<Rightarrow>
          (let ids = SessionPendingClientActionEventIDs l
           in [\<lparr>d_ID = [], d_Type = EvSessionStatusIdle, d_Payload = [(''stop_reason'', JObj
                 (if ids = [] then [(''type'', JStr ''end_turn'')]
                  else [(''type'', JStr ''requires_action''), (''event_ids'', JStrs ids)]))]\<rparr>])
      | StatusTerminated \<Rightarrow> [statusDraft [] EvSessionStatusTerminated])"

definition terminateThread :: "runtime \<Rightarrow> string \<Rightarrow> int \<Rightarrow> ledger \<Rightarrow> ledger" where
  "terminateThread r threadID seq l =
     l\<lparr>lg_Outbox := UpsertThreadTermination (s_ID (lg_Session l)) threadID seq (rt_Now r) (lg_Outbox l)\<rparr>"

definition archiveLive ::
    "runtime \<Rightarrow> Session \<Rightarrow> threadKind \<Rightarrow> SessionThread \<Rightarrow> string \<Rightarrow> ledger \<Rightarrow> storeError + SessionThread \<times> ledger" where
  "archiveLive r session kind thread parent l =
     (let now = rt_Now r; threadID = t_ID thread;
          (dropped, l1) = dropActions threadID l;
          l2 = settleInputs now threadID l1;
          archived = (Thread_TransitionStatus thread StatusTerminated now)\<lparr>t_ArchivedAt := Some now\<rparr>;
          lifecycle = lifecycleDraft [] EvSessionThreadStatusTerminated archived
      in bindE (putSessionThreadTx archived l2) (\<lambda>l3.
         bindE (if t_Status thread = StatusTerminated then Inr (maxSeq l, l3)
                else appendRows r [(threadID, lifecycle, None), (parent, lifecycle, None)] (maxSeq l) l3) (\<lambda>(n4, l4).
         (let aggregated = unarchivedStatuses l4;
              l5 = putSessionOnly (TransitionStatus session aggregated now) l4
          in bindE (if s_Status session \<noteq> aggregated \<or> aggregated = StatusIdle \<and> 0 < dropped
                    then appendRows r (map (\<lambda>d. (parent, d, None)) (archivalDrafts aggregated l5)) n4 l5
                    else Inr (n4, l5)) (\<lambda>(n6, l6).
             Inr (archived, if kind \<noteq> AdvisorKind then terminateThread r threadID n6 l6 else l6))))))"

definition ArchiveSessionThread :: "runtime \<Rightarrow> string \<Rightarrow> ledger \<Rightarrow> storeError + SessionThread \<times> ledger" where
  "ArchiveSessionThread r threadID l =
     (if threadID = [] then Inl (Refused (Validation ''session and session Thread are required''))
      else bindE (LockSession l) (\<lambda>session.
        bindE (loadSessionThreadForUpdate threadID l) (\<lambda>thread.
          case threadKindOf threadID l of
            None \<Rightarrow> Inl NoRows
          | Some kind \<Rightarrow> (case t_ParentThreadID thread of
              None \<Rightarrow> Inl (Refused (Conflict ''primary Thread archival follows the Session lifecycle''))
            | Some parent \<Rightarrow>
                if t_ArchivedAt thread \<noteq> None
                then Inr (thread, if kind \<noteq> AdvisorKind then terminateThread r threadID (maxSeq l) l else l)
                else if t_Status thread = StatusRunning
                then Inl (Refused (Conflict ''cannot archive a running session Thread; interrupt first''))
                else archiveLive r session kind thread parent l))))"

definition enqueueChildThreadTerminationsLocked :: "runtime \<Rightarrow> int \<Rightarrow> ledger \<Rightarrow> ledger" where
  "enqueueChildThreadTerminationsLocked r seq l =
     fold (\<lambda>t. terminateThread r (t_ID t) seq)
       (sort_key (\<lambda>t. QueueKey (t_CreatedAt t) (t_ID t)) (map snd (filter (\<lambda>(k, _). k = ChildKind) (lg_Threads l)))) l"

end
