(* ===== verification/Budgets.thy ===== *)
theory Budgets
  imports Delegation
begin

text \<open>
  The budget of a Session at work (\<open>internal/pg/budget.go\<close>, \<open>UpdateSession\<close> and \<open>ArchiveSession\<close> in
  \<open>internal/pg/api_store.go\<close>): every model request is admitted against the ceiling before it is sent and accounted
  once when it is answered; a Thread that meets the ceiling pauses in the middle of its turn, and a new budget wakes it.
\<close>

section \<open>Accounting\<close>

definition lockAnySession :: "ledger \<Rightarrow> storeError + Session" where
  "lockAnySession l = (if lg_Exists l then Inr (lg_Session l) else Inl (Refused (NotFound ''session not found'')))"

definition threadOrPrimary :: "string \<Rightarrow> ledger \<Rightarrow> storeError + string" where
  "threadOrPrimary threadID l = (if threadID = [] then GetPrimarySessionThreadID l else Inr threadID)"

definition addThreadCost :: "TokenUsage \<Rightarrow> int option \<Rightarrow> SessionThread \<Rightarrow> SessionThread" where
  "addThreadCost usage cost t =
     (let t1 = t\<lparr>t_Usage := usageAdd (t_Usage t) usage\<rparr>
      in case cost of
           Some c \<Rightarrow> t1\<lparr>t_ModelListCostNanoUSD := i64Add (t_ModelListCostNanoUSD t) c\<rparr>
         | None \<Rightarrow> t1\<lparr>t_ListCostKnown := False\<rparr>)"

definition AccountModelRequest ::
    "toolRuntime \<Rightarrow> string \<Rightarrow> string \<Rightarrow> Model \<Rightarrow> TokenUsage \<Rightarrow> string \<Rightarrow> books \<Rightarrow> storeError + books" where
  "AccountModelRequest r threadID requestEventID model usage0 stop = (\<lambda>(l, us).
     (if requestEventID = [] then Inl (Refused (Validation ''model request event id is required''))
      else
        (let usage = usage0\<lparr>UsageSpeed := normalizedUsageSpeed (UsageSpeed usage0)\<rparr>; cost = priced r model usage stop;
             now = truncMicros (rt_Now (tr_Runtime r))
         in bindE (lockAnySession l) (\<lambda>session.
            bindE (threadOrPrimary threadID l) (\<lambda>owner.
            bindE (loadSessionThreadForUpdate owner l) (\<lambda>thread.
            if requestEventID \<in> set (map mu_RequestEventID us) then Inr (l, us)
            else bindE (putSessionThreadTx ((addThreadCost usage cost thread)\<lparr>t_UpdatedAt := now\<rparr>) l) (\<lambda>l1.
              Inr (putSessionOnly ((addCost usage cost session)\<lparr>s_UpdatedAt := now\<rparr>) l1,
                us @ [\<lparr>mu_ThreadID = owner, mu_RequestEventID = requestEventID, mu_ModelID = m_ID model,
                  mu_InferenceGeo = m_InferenceGeo model, mu_StopReason = stop, mu_Usage = usage, mu_ListCost = cost,
                  mu_CreatedAt = rt_Now (tr_Runtime r)\<rparr>]))))))))"

section \<open>Admission\<close>

definition pausedDraft :: "SessionThread \<Rightarrow> EventDraft" where
  "pausedDraft t = \<lparr>d_ID = [], d_Type = EvSessionThreadStatusIdle,
     d_Payload = threadLifecyclePayload t @ [(''stop_reason'', JObj [(''type'', JStr ''budget_reached'')])]\<rparr>"

definition pausedSessionDrafts :: "time \<Rightarrow> Session \<Rightarrow> ledger \<Rightarrow> EventDraft list" where
  "pausedSessionDrafts now session l =
     (let ids = SessionPendingClientActionEventIDs l;
          idle = (\<lambda>reason. \<lparr>d_ID = [], d_Type = EvSessionStatusIdle, d_Payload = [(''stop_reason'', JObj reason)]\<rparr>)
      in if ids \<noteq> [] then [idle [(''type'', JStr ''requires_action''), (''event_ids'', JStrs ids)]]
         else [\<lparr>d_ID = [], d_Type = EvSessionUsage, d_Payload = UsageEventPayload session now\<rparr>,
               idle [(''type'', JStr ''budget_reached'')]])"

definition pauseThread :: "runtime \<Rightarrow> Session \<Rightarrow> SessionThread \<Rightarrow> ledger \<Rightarrow> storeError + ledger" where
  "pauseThread r session thread l =
     (let now = rt_Now r; t = Thread_TransitionStatus (thread\<lparr>t_BudgetPaused := True\<rparr>) StatusIdle now;
          copies = (case t_ParentThreadID t of None \<Rightarrow> [] | Some parent \<Rightarrow> [(parent, pausedDraft t, None)])
      in bindE (putSessionThreadTx t l) (\<lambda>l1.
         bindE (appendRows r ((t_ID t, pausedDraft t, None) # copies) (maxSeq l1) l1) (\<lambda>(n, l2).
         (let aggregated = unarchivedStatuses l2; session1 = TransitionStatus session aggregated now
          in if aggregated = s_Status session then Inr (putSessionOnly session l2)
             else if aggregated = StatusIdle
             then bindE (appendDrafts r (pausedSessionDrafts now session1 l2) n None l2) (\<lambda>(_, _, l3).
                    Inr (putSessionOnly session1 l3))
             else Inr (putSessionOnly session1 l2)))))"

definition AdmitModelRequest :: "runtime \<Rightarrow> string \<Rightarrow> ledger \<Rightarrow> storeError + bool \<times> ledger" where
  "AdmitModelRequest r0 threadID l =
     (let r = r0\<lparr>rt_Now := truncMicros (rt_Now r0)\<rparr>
      in bindE (lockAnySession l) (\<lambda>session.
         if \<not> BudgetReached session (rt_Now r) then Inr (True, l)
         else bindE (threadOrPrimary threadID l) (\<lambda>owner.
              bindE (loadSessionThreadForUpdate owner l) (\<lambda>thread.
              if t_BudgetPaused thread then Inr (False, l)
              else bindE (pauseThread r session thread l) (\<lambda>l1. Inr (False, l1))))))"

section \<open>A new budget\<close>

definition wakePaused :: "runtime \<Rightarrow> SessionThread \<Rightarrow> int \<Rightarrow> ledger \<Rightarrow> ledger" where
  "wakePaused r t seq l =
     (let u = s_ID (lg_Session l); now = rt_Now r
      in l\<lparr>lg_Outbox := (if t_ParentThreadID t = None then UpsertOutbox u seq now (lg_Outbox l)
              else UpsertThreadOutbox u (t_ID t) seq now (lg_Outbox l))\<rparr>)"

fun resumePaused :: "runtime \<Rightarrow> SessionThread list \<Rightarrow> int \<Rightarrow> ledger \<Rightarrow> storeError + int \<times> ledger" where
  "resumePaused r [] seq l = Inr (seq, l)"
| "resumePaused r (t # ts) seq l =
     (let t1 = Thread_TransitionStatus (t\<lparr>t_BudgetPaused := False\<rparr>) StatusRunning (rt_Now r);
          status = lifecycleDraft [] EvSessionThreadStatusRunning t1;
          copies = (case t_ParentThreadID t of None \<Rightarrow> [] | Some parent \<Rightarrow> [(parent, status, None)])
      in bindE (putSessionThreadTx t1 l) (\<lambda>l1.
         bindE (appendRows r ((t_ID t, status, None) # copies) seq l1) (\<lambda>(n, l2).
           resumePaused r ts n (wakePaused r t1 n l2))))"

definition pausedThreads :: "ledger \<Rightarrow> SessionThread list" where
  "pausedThreads l = sort_key t_ID (filter (\<lambda>t. t_ArchivedAt t = None \<and> t_BudgetPaused t) (map snd (lg_Threads l)))"

definition resumeBudgetPausedThreadsLocked ::
    "runtime \<Rightarrow> Session \<Rightarrow> int \<Rightarrow> ledger \<Rightarrow> storeError + Session \<times> int \<times> ledger" where
  "resumeBudgetPausedThreadsLocked r0 session seq l =
     (let r = r0\<lparr>rt_Now := truncMicros (rt_Now r0)\<rparr>
      in if pausedThreads l = [] then Inr (session, seq, l)
         else bindE (resumePaused r (pausedThreads l) seq l) (\<lambda>(n, l1).
           (let aggregated = unarchivedStatuses l1; session1 = TransitionStatus session aggregated (rt_Now r)
            in if s_Status session = aggregated then Inr (session, n, l1)
               else if aggregated = StatusRunning
               then bindE (appendDrafts r [statusDraft [] EvSessionStatusRunning] n None l1) (\<lambda>(_, m, l2). Inr (session1, m, l2))
               else Inr (session1, n, l1))))"

record updateEnv =
  ue_Text :: "goError \<Rightarrow> string"
  ue_URL :: "string \<Rightarrow> parsedURL option"
  ue_Addr :: "string \<Rightarrow> ipaddr option"

definition budgetChangeError :: "time \<Rightarrow> Session \<Rightarrow> SessionUpdate \<Rightarrow> string option" where
  "budgetChangeError now session u =
     (case (su_Budget u, s_Budget session) of
        (Some change, Some old) \<Rightarrow> (case sbu_Budget change of
            Some new \<Rightarrow>
              if new = old then None
              else if \<not> s_ListCostKnown session
              then Some ''budget cannot be changed while session list cost is unknown''
              else if i64Mul (MaxListCostCents new) NanoUSDPerCent \<le> ObservableListCostNanoUSD session now
              then Some ''budget max_list_cost must be strictly greater than the session's consumed list cost''
              else None
          | None \<Rightarrow> None)
      | _ \<Rightarrow> None)"

text \<open>The discovery snapshots that a change of MCP servers drops are a cache outside these rows.\<close>

definition UpdateSession :: "updateEnv \<Rightarrow> runtime \<Rightarrow> SessionUpdate \<Rightarrow> ledger \<Rightarrow> storeError + Session \<times> ledger" where
  "UpdateSession env r u l =
     bindE (LockSession l) (\<lambda>session.
       if TouchesAgent u \<and> s_Status session \<noteq> StatusIdle
       then Inl (Refused (Conflict ''session must be idle to update agent configuration; interrupt it first''))
       else (case budgetChangeError (rt_Now r) session u of
           Some e \<Rightarrow> Inl (Refused (Validation e))
         | None \<Rightarrow> (case ApplyUpdate (ue_Text env) (ue_URL env) (ue_Addr env) session u of
             Inl e \<Rightarrow> Inl (Refused e)
           | Inr (next0, change) \<Rightarrow>
               if \<not> SessionChange_Any change then Inr (session, l)
               else
                 (let next1 = next0\<lparr>s_UpdatedAt := rt_Now r\<rparr>
                  in bindE (appendDrafts r [\<lparr>d_ID = [], d_Type = EvSessionUpdated,
                         d_Payload = SessionUpdatedPayload next1 change\<rparr>] (maxSeq l) None l) (\<lambda>(_, n, l1).
                     bindE (if ch_Budget change then resumeBudgetPausedThreadsLocked r next1 n l1 else Inr (next1, n, l1))
                       (\<lambda>(next2, _, l2).
                     (let l3 = putSessionOnly next2 l2
                      in bindE (if ch_Agent change then putPrimarySessionThreadProjection next2 l3 else Inr l3)
                           (\<lambda>l4. Inr (next2, l4)))))))))"

definition ArchiveSession :: "runtime \<Rightarrow> ledger \<Rightarrow> storeError + Session \<times> ledger" where
  "ArchiveSession r l =
     bindE (LockSession l) (\<lambda>session.
       if s_Status session = StatusRunning
       then Inl (Refused (Conflict ''cannot archive a running session; interrupt first''))
       else if s_ArchivedAt session \<noteq> None then Inr (session, l)
       else (let archived = session\<lparr>s_ArchivedAt := Some (rt_Now r), s_UpdatedAt := rt_Now r\<rparr>
             in bindE (putProjection archived l) (\<lambda>l1. Inr (archived, l1))))"

end
