(* ===== verification/LogSafety.thy ===== *)
theory LogSafety
  imports Budgets
begin

text \<open>
  The ledger of a Session is append-only under the transactions that write events: admission, progress, retries,
  primary completion and child completion, delegation, consultation, budgets and updates each leave the rows in order of their sequence numbers, with distinct identifiers,
  and change an old row only by stamping its processing time once.
\<close>

section \<open>Steps of a child completion\<close>

lemma keeps_projectActions: "projectActions r th ids allowed l = Inr (cs, ds, l') \<Longrightarrow> keeps n l n l'"
proof (induction r th ids allowed l arbitrary: cs ds l' rule: projectActions.induct)
  case (2 r th i "is" allowed l)
  obtain c l1 where n: "NewID r PrefixEvent l = (c, l1)" by fastforce
  from 2(2) n obtain action cs' ds' where a: "eventMap allowed i = Some action"
    "PendingActionKindForEvent (e_Type action) (e_Payload action) \<noteq> None"
    "projectActions r th is allowed l1 = Inr (cs', ds', l')"
    by (auto simp: bindE_Inr_iff split: option.splits if_splits)
  show ?case using keeps_trans [OF keeps_drawn [OF n] 2(1) [OF a(1,2) n [symmetric] refl a(3)]] .
qed simp

lemma keeps_appendEach: "appendEach r th ds n turn l = Inr (es, m, l') \<Longrightarrow> keeps n l m l'"
proof (induction r th ds n turn l arbitrary: es m l' rule: appendEach.induct)
  case (2 r th d ds n turn l)
  then obtain es1 k l1 es2 where "appendThreadDrafts r th [d] n turn l = Inr (es1, k, l1)"
    "appendEach r th ds k turn l1 = Inr (es2, m, l')" by (auto simp: bindE_Inr_iff simp del: appendThreadDrafts.simps)
  with 2(1) show ?case using keeps_append keeps_trans by blast
qed simp

lemma keeps_putThread: "putSessionThreadTx t l = Inr l' \<Longrightarrow> keeps n l n l'"
  by (rule keeps_same) (auto simp: putSessionThreadTx_def split: if_splits)

lemma keeps_wakePrimary: "keeps n l n (wakePrimary r session seq l)"
  by (rule keeps_same) (simp add: wakePrimary_def)

lemma keeps_wakeCoordinator: "wakeCoordinator r session i seq l = Inr l' \<Longrightarrow> keeps n l n l'"
  unfolding wakeCoordinator_def bindE_Inr_iff
  by (auto simp: bindE_Inr_iff split: if_splits intro: keeps_wakePrimary keeps_trans [OF keeps_putThread])

lemma keeps_settleSession:
  assumes "settleSession r session i b usage turn seq l = Inr (s', es, l')"
  shows "\<exists>m. keeps seq l m l'"
proof -
  have "keeps seq l seq (putSessionOnly s l)" for s by (rule keeps_same) (simp add: putSessionOnly_def)
  then show ?thesis using assms unfolding settleSession_def Let_def
    by (auto simp: bindE_Inr_iff split: if_splits dest!: keeps_append intro: keeps_trans)
qed

lemma keeps_flushThread: "keeps n l n (FlushQueuedThreadMessages now th i l)"
  by (rule keeps_stamp) (simp add: FlushQueuedThreadMessages_def)

definition childReport :: "runtime \<Rightarrow> SessionThread \<Rightarrow> bool \<Rightarrow> turnOutput \<Rightarrow> jval list" where
  "childReport r thread interrupted t =
     (if to_Status t = StatusTerminated then terminatedChildReport r (ag_Name (t_Agent thread)) (to_Drafts t)
      else if \<not> interrupted \<and> to_Status t = StatusIdle \<and> to_PendingActionEventIDs t = []
      then lastAgentMessageContent (to_Drafts t) else [])"

lemma commitThreadTurn_steps:
  assumes "commitThreadTurn r session thread primaryID trigger interrupt t l = Inr (c, l')"
  obtains l1 resolved l2 drafts childEvents seq3 l3 clientIDs copies l4 copyEvents seq5 l5 l6 reportEvents seq7
    l7 cross crossEvents seq8 l8 l9 processed thread1 l12 l13 session' es where
    "finishTurnAttempt (rt_Now r) t l = Inr l1"
    "resolvePendingBarrierLocked (rt_Now r) (t_ID thread) (to_TriggerEventID t) (to_ResolutionEventIDs t) l1
       = Inr (resolved, l2)"
    "appendThreadDrafts r (t_ID thread) drafts (maxSeq l2) (Some (to_TriggerEventID t)) l2 = Inr (childEvents, seq3, l3)"
    "projectActions r (t_ID thread) (to_PendingActionEventIDs t) childEvents l3 = Inr (clientIDs, copies, l4)"
    "appendThreadDrafts r primaryID copies seq3 (Some (to_TriggerEventID t)) l4 = Inr (copyEvents, seq5, l5)"
    "insertPendingActionsLocked r (t_ID thread) (to_PendingActionEventIDs t) childEvents clientIDs l5 = Inr l6"
    "(if childReport r thread (interrupt \<noteq> None) t = [] then Inr ([], seq5, l6)
      else appendThreadDrafts r primaryID [\<lparr>d_ID = [], d_Type = EvAgentThreadMessageReceived,
                        d_Payload = [(''from_session_thread_id'', JStr (t_ID thread)),
                          (''from_agent_name'', JStr (ag_Name (t_Agent thread))),
                          (''content'', JArr (childReport r thread (interrupt \<noteq> None) t))]\<rparr>] seq5 None l6)
       = Inr (reportEvents, seq7, l7)"
    "appendEach r primaryID cross seq7 (Some (to_TriggerEventID t)) l7 = Inr (crossEvents, seq8, l8)"
    "InsertProviderTranscriptTurn (rt_Now r) t seq8 l8 = Inr l9"
    "turnProcessedEventIDs (to_TriggerEventID t) None (to_ResolutionEventIDs t)
       (case interrupt of None \<Rightarrow> [] | Some i \<Rightarrow> [e_ID i]) l9 = Inr processed"
    "putSessionThreadTx thread1 (if turnRetriesExhausted (to_Drafts t)
        then FlushQueuedThreadMessages (rt_Now r) (t_ID thread) (to_TriggerEventID t) (markProcessed (rt_Now r) processed l9)
        else markProcessed (rt_Now r) processed l9) = Inr l12"
    "(if childReport r thread (interrupt \<noteq> None) t = [] then Inr l12 else wakeCoordinator r session primaryID seq8 l12)
       = Inr l13"
    "settleSession r session primaryID (to_PendingActionEventIDs t \<noteq> [] \<or> resolved) (to_Usage t) (to_TriggerEventID t)
       seq8 l13 = Inr (session', es, l')"
proof -
  have rep: "(if to_Status t = StatusTerminated then terminatedChildReport r (ag_Name (t_Agent thread)) (to_Drafts t)
      else (if interrupt = None \<and> to_Status t = StatusIdle \<and> to_PendingActionEventIDs t = []
            then lastAgentMessageContent (to_Drafts t) else [])) = childReport r thread (interrupt \<noteq> None) t"
    by (simp add: childReport_def)
  show thesis
    using assms unfolding commitThreadTurn_def Let_def bindE_Inr_iff case_prod_beta split_paired_Ex fst_conv snd_conv rep
    by (elim exE conjE) (rule that, (assumption | simp only: sum.inject prod.inject)+)
qed

lemma commitThreadTurn_keeps:
  assumes "commitThreadTurn r session thread primaryID trigger interrupt t l = Inr (c, l')"
  shows "\<exists>m. keeps (maxSeq l) l m l'"
proof (rule commitThreadTurn_steps [OF assms], goal_cases)
  case (1 l1 resolved l2 drafts childEvents seq3 l3 clientIDs copies l4 copyEvents seq5 l5 l6 reportEvents seq7
    l7 cross crossEvents seq8 l8 l9 processed thread1 l12 l13 session' es)
  let ?marked = "markProcessed (rt_Now r) processed l9"
  have "keeps (maxSeq l) l (maxSeq l) l1" by (rule same_finish [OF 1(1)])
  also have "keeps (maxSeq l) l1 (maxSeq l) l2" by (rule same_resolve [OF 1(2)])
  also have "keeps (maxSeq l) l2 (maxSeq l2) l2" by (simp add: keeps_def upTo_maxSeq)
  also have "keeps (maxSeq l2) l2 seq3 l3" by (rule keeps_append [OF 1(3)])
  also have "keeps seq3 l3 seq3 l4" by (rule keeps_projectActions [OF 1(4)])
  also have "keeps seq3 l4 seq5 l5" by (rule keeps_append [OF 1(5)])
  also have "keeps seq5 l5 seq5 l6" by (rule same_insert [OF 1(6)])
  also have "keeps seq5 l6 seq7 l7"
    using 1(7) by (auto simp del: appendThreadDrafts.simps split: if_splits intro: keeps_append)
  also have "keeps seq7 l7 seq8 l8" by (rule keeps_appendEach [OF 1(8)])
  also have "keeps seq8 l8 seq8 l9" by (rule same_transcript [OF 1(9)])
  also have "keeps seq8 l9 seq8 ?marked" by (rule keeps_mark)
  also have "keeps seq8 ?marked seq8 (if turnRetriesExhausted (to_Drafts t)
        then FlushQueuedThreadMessages (rt_Now r) (t_ID thread) (to_TriggerEventID t) ?marked else ?marked)"
    by (simp add: keeps_flushThread)
  also have "keeps seq8 \<dots> seq8 l12" by (rule keeps_putThread [OF 1(11)])
  also have "keeps seq8 l12 seq8 l13" using 1(12) by (auto split: if_splits intro: keeps_wakeCoordinator)
  finally show ?thesis using keeps_settleSession [OF 1(13)] keeps_trans by blast
qed

section \<open>Steps of an admission\<close>

lemma link_frame: "linkCompanionSystemMessage r ds l = (ds', l') \<Longrightarrow> \<exists>k. l' = l\<lparr>lg_Drawn := k\<rparr>"
  by (auto simp: linkCompanionSystemMessage_def NewID_eq Let_def split: if_splits intro: exI [of _ "lg_Drawn l"])

lemma prepare_frame: "prepareOutcomeDrafts r ds s l = Inr (ds', s', l') \<Longrightarrow> \<exists>k. l' = l\<lparr>lg_Drawn := k\<rparr>"
proof (induction ds arbitrary: s l ds' s' l')
  case Nil
  then show ?case by (auto intro: exI [of _ "lg_Drawn l"])
next
  case (Cons d ds)
  show ?case
  proof (cases "d_Type d = EvUserDefineOutcome")
    case False
    then show ?thesis using Cons by (auto simp: bindE_Inr_iff)
  next
    case True
    obtain i l1 where n: "NewID r PrefixOutcome l = (i, l1)" by fastforce
    from Cons.prems True n obtain ds2 s2 sx where "prepareOutcomeDrafts r ds sx l1 = Inr (ds2, s2, l')"
      by (auto simp: bindE_Inr_iff Let_def split: sum.splits)
    from Cons.IH [OF this] show ?thesis using n by (auto simp: NewID_eq)
  qed
qed

lemma keeps_appendRouted: "appendRouted r items n l = Inr (es, sub, m, l') \<Longrightarrow> keeps n l m l'"
proof (induction items arbitrary: n l es sub m l')
  case (Cons item items)
  then obtain es1 k l1 es2 sub2 where
    a: "appendThreadDrafts r (rd_ThreadID item) [rd_Draft item] n None l = Inr (es1, k, l1)" and b: "appendRouted r items k l1 = Inr (es2, sub2, m, l')" by (auto simp: bindE_Inr_iff simp del: appendThreadDrafts.simps)
  show ?case by (rule keeps_trans [OF keeps_append [OF a] Cons.IH [OF b]])
qed simp

lemma claims_events: "claimPendingResolutionsLocked events l = Inr (b, l') \<Longrightarrow> lg_Events l' = lg_Events l"
proof (induction events l arbitrary: b l' rule: claimPendingResolutionsLocked.induct)
  case (2 event events l)
  show ?case
  proof (cases "ResolutionReference (e_Type event) (e_Payload event)")
    case None
    then show ?thesis using 2 by (auto split: if_splits)
  next
    case (Some ref)
    obtain i k where ref: "ref = (i, k)" by fastforce
    from 2(3) Some ref obtain l1 b1 where l1: "claimResolution event i k l = Inr l1"
      and l2: "claimPendingResolutionsLocked events l1 = Inr (b1, l')"
      by (auto simp: bindE_Inr_iff)
    have "lg_Events l1 = lg_Events l" by (rule claimResolution_row [OF l1]) simp
    with 2(2) [OF Some ref [symmetric] l2] show ?thesis by simp
  qed
qed simp

text \<open>The part of waking a child that touches its Thread.\<close>

definition startChild :: "runtime \<Rightarrow> string \<Rightarrow> SessionThread \<Rightarrow> int \<Rightarrow> ledger \<Rightarrow> storeError + Event list \<times> int \<times> ledger" where
  "startChild r primary t n l =
     (if t_Status t = StatusRunning then Inr ([], n, l)
      else (let t1 = Thread_TransitionStatus t StatusRunning (rt_Now r)
            in bindE (putSessionThreadTx t1 l) (\<lambda>l1.
               bindE (appendThreadDrafts r (t_ID t1) [childRunningDraft t1] n None l1) (\<lambda>(childEvents, n, l2).
               bindE (appendThreadDrafts r primary [childRunningDraft t1] n None l2) (\<lambda>(primaryEvents, m, l3).
                 Inr (childEvents @ primaryEvents, m, l3))))))"

lemma keeps_startChild: "startChild r primary t n l = Inr (es, m, l') \<Longrightarrow> keeps n l m l'"
  unfolding startChild_def
  by (auto simp: bindE_Inr_iff Let_def simp del: appendThreadDrafts.simps split: if_splits
      intro: keeps_trans [OF keeps_putThread keeps_trans [OF keeps_append keeps_append]])

lemma wakeChildren_Cons:
  assumes "wakeResolvedChildren r primary (i # is) n l = Inr (woken, es, m, l')"
    "\<not> (\<not> HasUnresolvedPendingActions i l \<or> HasUnclaimedPendingActions i l)"
  obtains t es1 k l1 woken2 es2 where "loadSessionThreadForUpdate i l = Inr t" "startChild r primary t n l = Inr (es1, k, l1)"
    "wakeResolvedChildren r primary is k l1 = Inr (woken2, es2, m, l')" "woken = i # woken2" "es = es1 @ es2"
proof -
  from assms obtain t where t: "loadSessionThreadForUpdate i l = Inr t" "t_ParentThreadID t \<noteq> None"
      "\<not> (t_ArchivedAt t \<noteq> None \<or> t_Status t = StatusTerminated)"
    by (auto simp: bindE_Inr_iff simp del: appendThreadDrafts.simps split: if_split_asm)
  have "bindE (startChild r primary t n l) (\<lambda>(events, n, l1).
        bindE (wakeResolvedChildren r primary is n l1) (\<lambda>(woken, events', m, l2).
          Inr (i # woken, events @ events', m, l2))) = Inr (woken, es, m, l')"
    using assms t unfolding wakeResolvedChildren.simps startChild_def if_not_P [OF assms(2)]
    by (simp del: appendThreadDrafts.simps)
  then show thesis by (auto simp: bindE_Inr_iff intro: that [OF t(1)])
qed

lemma keeps_wakeChildren:
  "wakeResolvedChildren r primary ids n l = Inr (woken, es, m, l') \<Longrightarrow> keeps n l m l'"
proof (induction ids arbitrary: n l woken es m l')
  case (Cons i ids)
  show ?case
  proof (cases "\<not> HasUnresolvedPendingActions i l \<or> HasUnclaimedPendingActions i l")
    case True
    then show ?thesis using Cons by simp
  next
    case False
    show ?thesis
      by (rule wakeChildren_Cons [OF Cons.prems False]) (rule keeps_trans [OF keeps_startChild Cons.IH])
  qed
qed simp

lemma keeps_putRuntime: "putRuntimeProjection s p l = Inr l' \<Longrightarrow> keeps n l n l'"
  by (rule keeps_same) (auto simp: putRuntimeProjection_def putProjection_def putPrimarySessionThreadProjection_def bindE_Inr_iff
      putSessionOnly_def putPrimaryThreadProjection_def split: option.splits)

lemma keeps_wakeThreads: "keeps n l n (fold (wakeThread r s seq) ids l)"
  by (rule keeps_same) (induction ids arbitrary: l, simp_all add: wakeThread_def)

lemma keeps_enqueue: "enqueueWork r s seq l = Inr l' \<Longrightarrow> keeps n l n l'"
  by (rule keeps_same) (auto simp: enqueueWork_def NewID_eq bindE_Inr_iff Let_def)

lemma keeps_maybeEnqueue: "(if b then enqueueWork r s seq l else Inr l) = Inr l' \<Longrightarrow> keeps n l n l'"
  by (cases b) (simp_all add: keeps_enqueue)

lemma wakeAdmitted_cases:
  assumes "wakeAdmitted r session primaryThread runnable childRuns hasInterrupt targets wake events submitted seq l = Inr (a, l')"
  obtains (quiet) "\<not> runnable" "\<not> childRuns" "\<not> hasInterrupt" "putRuntimeProjection session primaryThread l = Inr l'"
      "a = (noAdmission session)\<lparr>am_Events := events, am_SubmittedEvents := submitted, am_MaxSeq := seq\<rparr>"
    | (active) session1 thread1 session2 statusEvents seq2 l1 l2 where "runnable \<or> childRuns \<or> hasInterrupt"
      "session1 = (if runnable then MarkActiveOutcomeRunning session else session)"
      "(if (runnable \<or> childRuns) \<and> s_Status session1 = StatusIdle
        then bindE (appendDrafts r [\<lparr>d_ID = [], d_Type = EvSessionStatusRunning, d_Payload = []\<rparr>] seq None l)
               (\<lambda>(statusEvents, n, l1). Inr (TransitionStatus session1 StatusRunning (rt_Now r), statusEvents, n, l1))
        else Inr (session1, [], seq, l)) = Inr (session2, statusEvents, seq2, l1)"
      "putRuntimeProjection session2 thread1 l1 = Inr l2"
      "(if (runnable \<or> childRuns) \<and> s_EnvironmentType session2 = ''self_hosted''
        then enqueueWork r session2 seq2 (fold (wakeThread r session2 seq2) wake
               (if runnable \<or> iw_Primary targets then wakePrimary r session2 seq2 l2 else l2))
        else Inr (fold (wakeThread r session2 seq2) wake
               (if runnable \<or> iw_Primary targets then wakePrimary r session2 seq2 l2 else l2))) = Inr l'"
      "a = \<lparr>am_Session = session2, am_Events = events @ statusEvents, am_SubmittedEvents = submitted,
             am_MaxSeq = seq2, am_Enqueued = ((runnable \<or> iw_Primary targets) \<or> wake \<noteq> []),
             am_PrimaryEnqueued = (runnable \<or> iw_Primary targets), am_WakeThreadIDs = wake\<rparr>"
proof (cases "runnable \<or> childRuns \<or> hasInterrupt")
  case False
  with assms quiet show thesis by (auto simp: wakeAdmitted_def bindE_Inr_iff)
next
  case True
  then have "\<not> (\<not> (runnable \<or> childRuns) \<and> \<not> hasInterrupt)" by blast
  with assms show thesis
    unfolding wakeAdmitted_def Let_def if_not_P [OF \<open>\<not> (\<not> (runnable \<or> childRuns) \<and> \<not> hasInterrupt)\<close>]
      bindE_Inr_iff [of _ "\<lambda>(session2, statusEvents, seq2, l1). _ session2 statusEvents seq2 l1"] split_paired_Ex prod.case
    by (elim exE conjE) (simp only: bindE_Inr_iff, elim exE conjE, rule active [OF True refl],
      (assumption | simp only: sum.inject prod.inject)+)
qed

lemma keeps_wakeAdmitted:
  assumes "wakeAdmitted r session primaryThread runnable childRuns hasInterrupt targets wake events submitted seq l = Inr (a, l')"
  shows "\<exists>m. keeps seq l m l'"
  using assms
proof (cases rule: wakeAdmitted_cases)
  case quiet
  then show ?thesis using keeps_putRuntime by blast
next
  case (active session1 thread1 session2 statusEvents seq2 l1 l2)
  have "keeps seq l seq2 l1"
    using active(3) by (auto simp: bindE_Inr_iff split: if_splits intro: keeps_appendDrafts)
  also have "keeps seq2 l1 seq2 l2" by (rule keeps_putRuntime [OF active(4)])
  also have "keeps seq2 l2 seq2 (if runnable \<or> iw_Primary targets then wakePrimary r session2 seq2 l2 else l2)"
    by (simp add: keeps_wakePrimary)
  also have "keeps seq2 \<dots> seq2 (fold (wakeThread r session2 seq2) wake
      (if runnable \<or> iw_Primary targets then wakePrimary r session2 seq2 l2 else l2))" by (rule keeps_wakeThreads)
  also have "keeps seq2 \<dots> seq2 l'"
    by (rule keeps_maybeEnqueue [OF active(5)])
  finally show ?thesis by blast
qed

lemma AdmitEvents_cases:
  assumes "AdmitEvents r drafts l = Inr (a, l')"
  obtains (stopped) k where "l' = l\<lparr>lg_Drawn := k\<rparr>" "a = noAdmission (am_Session a)"
    | (routed) session primaryThread prepared k primaryID where
      "GetPrimarySessionThreadID l = Inr primaryID"
      "admitRouted r session primaryThread primaryID prepared (l\<lparr>lg_Drawn := k\<rparr>) = Inr (a, l')"
proof -
  from assms have "admitLocked r (lg_Session l) drafts l = Inr (a, l')"
    by (auto simp: AdmitEvents_def bindE_Inr_iff LockSession_def split: if_splits)
  moreover obtain linked l1 where link: "linkCompanionSystemMessage r drafts l = (linked, l1)" by fastforce
  ultimately obtain primaryThread prepared session1 l2 where
      prep: "prepareOutcomeDrafts r linked (lg_Session l) l1 = Inr (prepared, session1, l2)"
    and found: "(case find (\<lambda>d. \<not> IsClientSubmittable (d_Type d)) prepared of
           Some d \<Rightarrow> Inl (Refused (Validation (''event type is not client-submittable: '' @ d_Type d)))
         | None \<Rightarrow> bindE (budgetGate r session1 prepared l2) (\<lambda>stop. case stop of
               Some admission \<Rightarrow> Inr (admission, l2)
             | None \<Rightarrow> bindE (GetPrimarySessionThreadID l2) (\<lambda>primaryThreadID.
                 admitRouted r session1 primaryThread primaryThreadID prepared l2))) = Inr (a, l')"
    unfolding admitLocked_def bindE_Inr_iff [of _ "\<lambda>primaryThread. _ primaryThread"] Let_def
    by (auto simp: bindE_Inr_iff)
  from found obtain stop where
      gate: "budgetGate r session1 prepared l2 = Inr stop"
    and rest: "(case stop of Some admission \<Rightarrow> Inr (admission, l2)
             | None \<Rightarrow> bindE (GetPrimarySessionThreadID l2) (\<lambda>primaryThreadID.
                 admitRouted r session1 primaryThread primaryThreadID prepared l2)) = Inr (a, l')"
    by (cases "find (\<lambda>d. \<not> IsClientSubmittable (d_Type d)) prepared") (auto simp: bindE_Inr_iff)
  obtain k where l2: "l2 = l\<lparr>lg_Drawn := k\<rparr>" using link_frame [OF link] prepare_frame [OF prep] by auto
  show thesis
  proof (cases stop)
    case (Some x)
    with gate have "x = noAdmission session1" by (auto simp: budgetGate_def split: if_splits)
    with Some rest l2 show thesis by (intro stopped) (auto simp: noAdmission_def)
  next
    case None
    with rest show thesis unfolding l2
      by (auto simp: bindE_Inr_iff GetPrimarySessionThreadID_def split: option.splits intro: routed)
  qed
qed

lemma admitRouted_steps:
  assumes "admitRouted r session primaryThread primaryID drafts l = Inr (a, l')"
  obtains ro events submitted seq1 l1 admitted l2 gated ready woken childEvents seq3 l3 where
    "routeClientDraftsLocked l primaryID drafts noRouting = Inr ro"
    "appendRouted r (ro_Routed ro) (maxSeq l) l = Inr (events, submitted, seq1, l1)"
    "claimPendingResolutionsLocked events l1 = Inr (admitted, l2)"
    "gated = HasUnresolvedPendingActions primaryID l2"
    "ready = (admitted \<and> primaryID \<in> set (ro_ResolutionThreads ro) \<and> gated
       \<and> \<not> (gated \<and> HasUnclaimedPendingActions primaryID l2))"
    "wakeResolvedChildren r primaryID (sortedIDs (filter (\<lambda>i. i \<noteq> primaryID) (ro_ResolutionThreads ro))) seq1 l2
       = Inr (woken, childEvents, seq3, l3)"
    "wakeAdmitted r session primaryThread
       ((hasType EvUserMessage events \<or> hasType EvUserDefineOutcome events \<or> ready) \<and> (\<not> gated \<or> ready))
       (woken \<noteq> []) (hasType EvUserInterrupt events) (ro_Targets ro)
       (sortedIDs (woken @ iw_Children (ro_Targets ro))) (events @ childEvents) submitted seq3 l3 = Inr (a, l')"
proof -
  from assms obtain ro events submitted seq1 l1 admitted l2 where
    s: "routeClientDraftsLocked l primaryID drafts noRouting = Inr ro"
    "appendRouted r (ro_Routed ro) (maxSeq l) l = Inr (events, submitted, seq1, l1)"
    "claimPendingResolutionsLocked events l1 = Inr (admitted, l2)"
    and rest: "(let gated = HasUnresolvedPendingActions primaryID l2
      in if gated \<and> 2 \<le> length events \<and> e_Type (last events) = EvSystemMessage
             \<and> e_Type (last (butlast events)) = EvUserMessage
         then Inl (Refused (Validation
           ''system.message may accompany only a tool result while the session requires action''))
         else
           (let hasUnclaimed = (gated \<and> HasUnclaimedPendingActions primaryID l2);
                barrierReady = (admitted \<and> primaryID \<in> set (ro_ResolutionThreads ro)
                                \<and> gated \<and> \<not> hasUnclaimed);
                candidates = sortedIDs (filter (\<lambda>i. i \<noteq> primaryID) (ro_ResolutionThreads ro))
            in bindE (wakeResolvedChildren r primaryID candidates seq1 l2) (\<lambda>(woken, childEvents, seq3, l3).
               (let childWakeThreads = sortedIDs (woken @ iw_Children (ro_Targets ro));
                    runnable = ((hasType EvUserMessage events \<or> hasType EvUserDefineOutcome events \<or> barrierReady)
                                \<and> (\<not> gated \<or> barrierReady))
                in wakeAdmitted r session primaryThread runnable (woken \<noteq> []) (hasType EvUserInterrupt events)
                     (ro_Targets ro) childWakeThreads (events @ childEvents) submitted seq3 l3)))) = Inr (a, l')"
    unfolding admitRouted_def bindE_Inr_iff split_paired_Ex prod.case by blast
  from rest show thesis
    unfolding Let_def if_Inl bindE_Inr_iff split_paired_Ex prod.case
    by (elim exE conjE) (rule that [OF s refl refl], assumption+)
qed

lemma AdmitEvents_keeps:
  assumes "AdmitEvents r drafts l = Inr (a, l')"
  shows "\<exists>m. keeps (maxSeq l) l m l'"
  using assms
proof (cases rule: AdmitEvents_cases)
  case (stopped k)
  then show ?thesis using keeps_same [of l' l] by auto
next
  case (routed session primaryThread prepared k primaryID)
  from routed(2) show ?thesis
  proof (rule admitRouted_steps, goal_cases)
    case (1 ro events submitted seq1 l1 admitted l2 gated ready woken childEvents seq3 l3)
    have "keeps (maxSeq l) l (maxSeq l) (l\<lparr>lg_Drawn := k\<rparr>)" by (rule keeps_same) simp
    also have "keeps (maxSeq l) \<dots> seq1 l1" using keeps_appendRouted [OF 1(2)] by (simp add: maxSeq_def)
    also have "keeps seq1 l1 seq1 l2" by (rule keeps_same [OF claims_events [OF 1(3)]])
    also have "keeps seq1 l2 seq3 l3" by (rule keeps_wakeChildren [OF 1(6)])
    finally show ?case using keeps_wakeAdmitted [OF 1(7)] keeps_trans by blast
  qed
qed

lemma completeTurn_keeps: "completeTurn r t l = Inr (c, l') \<Longrightarrow> \<exists>m. keeps (maxSeq l) l m l'"
  by (erule completeTurn_cases) (auto intro: keeps_refl dest: commitTurn_keeps)

lemma CompleteWorkflowTurn_completes:
  "CompleteWorkflowTurnWithTranscriptAndUsage r t l = Inr (c, l') \<Longrightarrow> completeTurn r t l = Inr (c, l')"
  by (auto simp: CompleteWorkflowTurnWithTranscriptAndUsage_def bindE_Inr_iff split: if_splits)

lemma CompleteThreadWorkflowTurn_cases:
  assumes "CompleteThreadWorkflowTurn r threadID t l = Inr (c, l')"
  obtains (nothing) "l' = l" "\<not> tc_Applied c"
    | (commit) thread primaryID trigger interrupt t' where "loadSessionThreadForUpdate threadID l = Inr thread"
      "t_ParentThreadID thread = Some primaryID" "GetEvent (to_TriggerEventID t) l = Some trigger"
      "t_ArchivedAt thread = None" "t_Status thread \<noteq> StatusTerminated"
      "t' = (if interrupt = None then t else interruptedOutput None t)"
      "commitThreadTurn r (lg_Session l) thread primaryID trigger interrupt t' l = Inr (c, l')"
proof -
  have lock: "LockSession l = Inr x \<Longrightarrow> x = lg_Session l" for x by (auto simp: LockSession_def split: if_splits)
  from assms obtain session thread where th1: "loadSessionThreadForUpdate threadID l = Inr thread"
    and ses: "LockSession l = Inr session" and
    rest1: "(case t_ParentThreadID thread of
       None \<Rightarrow> Inl (Refused (Conflict ''child completion cannot target the primary Thread''))
     | Some primaryID \<Rightarrow> (case GetEvent (to_TriggerEventID t) l of
         None \<Rightarrow> Inl (Refused (NotFound ''trigger event not found''))
       | Some trigger \<Rightarrow>
           if e_ThreadID trigger \<noteq> threadID
           then Inl (Refused (Conflict ''trigger event belongs to another Thread''))
           else if t_ArchivedAt thread \<noteq> None \<or> t_Status thread = StatusTerminated
           then Inr (\<lparr>tc_Session = session, tc_Events = [], tc_Applied = False, tc_Parked = False,
                      tc_ThreadStatus = Some StatusTerminated\<rparr>, l)
           else if e_ProcessedAt trigger \<noteq> None
               \<and> \<not> IsUnresolvedPendingResolution threadID (to_TriggerEventID t) l
           then Inr ((replayTurn session (to_TriggerEventID t) l)\<lparr>tc_ThreadStatus := Some (t_Status thread)\<rparr>, l)
           else (case (if e_Type trigger = EvUserInterrupt then None
                       else FirstUnprocessedThreadInterruptAfter threadID (e_Sequence trigger) l) of
               None \<Rightarrow> commitThreadTurn r session thread primaryID trigger None t l
             | Some interrupt \<Rightarrow>
                 commitThreadTurn r session thread primaryID trigger (Some interrupt) (interruptedOutput None t) l)))
        = Inr (c, l')"
    unfolding CompleteThreadWorkflowTurn_def bindE_Inr_iff by blast
  from rest1 obtain primaryID where p: "t_ParentThreadID thread = Some primaryID"
    by (cases "t_ParentThreadID thread") simp_all
  from rest1 p obtain trigger where g: "GetEvent (to_TriggerEventID t) l = Some trigger"
    by (cases "GetEvent (to_TriggerEventID t) l") simp_all
  note th = th1 p g
  from rest1 have rest: "(if t_ArchivedAt thread \<noteq> None \<or> t_Status thread = StatusTerminated
           then Inr (\<lparr>tc_Session = lg_Session l, tc_Events = [], tc_Applied = False, tc_Parked = False,
                      tc_ThreadStatus = Some StatusTerminated\<rparr>, l)
           else if e_ProcessedAt trigger \<noteq> None
               \<and> \<not> IsUnresolvedPendingResolution threadID (to_TriggerEventID t) l
           then Inr ((replayTurn (lg_Session l) (to_TriggerEventID t) l)\<lparr>tc_ThreadStatus := Some (t_Status thread)\<rparr>, l)
           else (case (if e_Type trigger = EvUserInterrupt then None
                       else FirstUnprocessedThreadInterruptAfter threadID (e_Sequence trigger) l) of
               None \<Rightarrow> commitThreadTurn r (lg_Session l) thread primaryID trigger None t l
             | Some interrupt \<Rightarrow>
                 commitThreadTurn r (lg_Session l) thread primaryID trigger (Some interrupt) (interruptedOutput None t) l))
          = Inr (c, l')"
    unfolding p g option.case if_Inl lock [OF ses] by blast
  show thesis
  proof (cases "t_ArchivedAt thread \<noteq> None \<or> t_Status thread = StatusTerminated \<or> e_ProcessedAt trigger \<noteq> None
       \<and> \<not> IsUnresolvedPendingResolution threadID (to_TriggerEventID t) l")
    case True
    with rest have "l' = l \<and> \<not> tc_Applied c" by (auto simp: replayTurn_def split: if_splits)
    then show thesis by (elim conjE) (rule nothing)
  next
    case False
    then have a: "t_ArchivedAt thread = None" "t_Status thread \<noteq> StatusTerminated" by auto
    from False rest have "\<exists>interrupt. commitThreadTurn r (lg_Session l) thread primaryID trigger interrupt
        (if interrupt = None then t else interruptedOutput None t) l = Inr (c, l')"
      by (cases "if e_Type trigger = EvUserInterrupt then None
                       else FirstUnprocessedThreadInterruptAfter threadID (e_Sequence trigger) l") (auto simp: exI)
    then show thesis using commit [OF th a refl] by blast
  qed
qed

lemma CompleteThreadWorkflowTurn_keeps:
  assumes "CompleteThreadWorkflowTurn r threadID t l = Inr (c, l')"
  shows "\<exists>m. keeps (maxSeq l) l m l'"
  using assms by (cases rule: CompleteThreadWorkflowTurn_cases) (auto intro: keeps_refl commitThreadTurn_keeps)

section \<open>Steps of a running turn\<close>

lemma AppendWorkflowEvents_keeps:
  assumes "AppendWorkflowEvents marshal r turn drafts l = Inr (b, l')"
  shows "\<exists>m. keeps (maxSeq l) l m l'"
  by (rule AppendWorkflowEvents_cases [OF assms]) (auto intro: keeps_refl keeps_append simp del: appendThreadDrafts.simps)

lemma keeps_putSessionOnly: "keeps n l n (putSessionOnly s l)"
  by (rule keeps_same) (simp add: putSessionOnly_def)

lemma keeps_putProjection: "putProjection s l = Inr l' \<Longrightarrow> keeps n l n l'"
  by (rule keeps_same) (rule putProjection_events)

lemma keeps_from: "lg_Events l1 = lg_Events l \<Longrightarrow> keeps (maxSeq l1) l1 m l' \<Longrightarrow> keeps (maxSeq l) l m l'"
  using keeps_trans [OF keeps_same] by (metis maxSeq_def)

lemma recordPrimary_keeps:
  assumes "recordPrimaryThreadWorkflowRetryLocked marshal r session turn errorID statusID err l = Inr l'"
  shows "\<exists>m. keeps (maxSeq l) l m l'"
  using assms
proof (cases rule: recordPrimary_cases)
  case known
  then show ?thesis using keeps_refl by blast
next
  case (moved primary l1 es n l2)
  have "keeps (maxSeq l) l n l2" by (rule keeps_from [OF putThread_events [OF moved(3)] keeps_append [OF moved(4)]])
  then have "keeps (maxSeq l) l n l'" unfolding moved(5) by (auto intro: keeps_trans keeps_putSessionOnly)
  then show ?thesis ..
qed

lemma resumePrimary_keeps:
  assumes "resumePrimaryThreadWorkflowRetryLocked r session turn statusID l = Inr l'"
  shows "\<exists>m. keeps (maxSeq l) l m l'"
  using assms
proof (cases rule: resumePrimary_cases)
  case running
  then show ?thesis using keeps_refl by blast
next
  case (silent primary)
  then show ?thesis using keeps_putThread by blast
next
  case (moved primary l1 es n l2)
  have "keeps (maxSeq l) l n l2" by (rule keeps_from [OF putThread_events [OF moved(3)] keeps_append [OF moved(4)]])
  then have "keeps (maxSeq l) l n l'" unfolding moved(5) by (rule keeps_trans [OF _ keeps_putSessionOnly])
  then show ?thesis ..
qed

lemma moveChild_keeps:
  assumes "moveChild r session thread parent turn status ty drafts l = Inr l'"
  shows "\<exists>m. keeps (maxSeq l) l m l'"
proof -
  from assms obtain es n l1 es' m l2 l3 where a: "appendThreadDrafts r (t_ID thread) drafts (maxSeq l) (Some turn) l = Inr (es, n, l1)"
    "appendThreadDrafts r parent [lifecycleDraft [] ty thread] n (Some turn) l1 = Inr (es', m, l2)"
    "putSessionThreadTx (Thread_TransitionStatus thread status (rt_Now r)) l2 = Inr l3"
    and u: "updateAggregateStatusLocked r session parent turn m l3 = Inr l'"
    by (auto simp: moveChild_def bindE_Inr_iff simp del: appendThreadDrafts.simps)
  have "keeps (maxSeq l) l m l3"
    by (rule keeps_trans [OF keeps_append [OF a(1)] keeps_trans [OF keeps_append [OF a(2)] keeps_putThread [OF a(3)]]])
  moreover have "\<exists>k. keeps m l3 k l'" using u unfolding updateAggregateStatusLocked_def Let_def
    by (auto simp: bindE_Inr_iff simp del: appendThreadDrafts.simps split: if_splits
        intro: keeps_putSessionOnly keeps_trans [OF keeps_putSessionOnly keeps_append])
  ultimately show ?thesis using keeps_trans by blast
qed

lemma plain_keeps:
  "appendDrafts r ds (maxSeq l) turn l = Inr (es, n, l1) \<Longrightarrow> putProjection s l1 = Inr l' \<Longrightarrow> \<exists>m. keeps (maxSeq l) l m l'"
  using keeps_trans [OF keeps_appendDrafts keeps_putProjection] by blast

lemma retryStep_keeps: "retryStep l l' \<Longrightarrow> \<exists>m. keeps (maxSeq l) l m l'"
proof (induction rule: retryStep.induct)
  case (recordPrimary marshal r turn errorID statusID err l b l')
  then show ?case
    by (auto simp: RecordWorkflowRetry_def if_Inl bindE_Inr_iff Let_def intro: keeps_refl
        dest: recordPrimary_keeps plain_keeps split: if_split_asm)
next
  case (resumePrimary marshal r turn statusID l b l')
  then show ?case
    by (auto simp: ResumeWorkflowRetry_def if_Inl bindE_Inr_iff Let_def intro: keeps_refl
        dest: resumePrimary_keeps plain_keeps split: if_split_asm)
next
  case (recordChild marshal r threadID turn errorID statusID err l b l')
  then show ?case
    by (auto simp: RecordThreadWorkflowRetry_def if_Inl bindE_Inr_iff Let_def intro: keeps_refl
        dest: moveChild_keeps split: if_split_asm)
next
  case (resumeChild marshal r threadID turn statusID l b l')
  then show ?case
    by (auto simp: ResumeThreadWorkflowRetry_def if_Inl bindE_Inr_iff Let_def intro: keeps_refl
        dest: moveChild_keeps split: if_split_asm)
qed

lemma bindE_InrE: "bindE m f = Inr y \<Longrightarrow> (\<And>x. m = Inr x \<Longrightarrow> f x = Inr y \<Longrightarrow> P) \<Longrightarrow> P"
  by (auto simp: bindE_Inr_iff)

section \<open>Steps of delegation\<close>

lemma insertThread_events: "insertThread k t l = Inr l' \<Longrightarrow> lg_Events l' = lg_Events l"
  by (auto simp: insertThread_def split: if_splits)

lemma keeps_insertThread: "insertThread k t l = Inr l' \<Longrightarrow> keeps n l n l'"
  by (rule keeps_same) (rule insertThread_events)

lemma keeps_appendRows: "appendRows r rows n l = Inr (m, l') \<Longrightarrow> keeps n l m l'"
proof (induction rows arbitrary: n l)
  case (Cons row rows)
  obtain threadID d turn where row: "row = (threadID, d, turn)" by (cases row)
  with Cons(2) obtain es k l1 where "appendThreadDrafts r threadID [d] n turn l = Inr (es, k, l1)" "appendRows r rows k l1 = Inr (m, l')"
    by (auto simp: bindE_Inr_iff simp del: appendThreadDrafts.simps)
  with Cons(1) show ?case using keeps_append keeps_trans by blast
qed simp

lemma keeps_outbox: "keeps n l n (l\<lparr>lg_Outbox := b\<rparr>)" "keeps n l n (l\<lparr>lg_Journal := j\<rparr>)" "keeps n l n (l\<lparr>lg_Pending := ps\<rparr>)"
  by (rule keeps_same, simp)+

lemma keeps_mark_event: "keeps n l n (MarkEventProcessed now i l)"
  by (rule keeps_stamp) (simp add: MarkEventProcessed_def)

lemma keeps_if: "(b \<Longrightarrow> keeps n l m l1) \<Longrightarrow> (\<not> b \<Longrightarrow> keeps n l m l2) \<Longrightarrow> keeps n l m (if b then l1 else l2)"
  by simp

lemmas keeps_steps = keeps_refl keeps_append keeps_appendDrafts keeps_appendRows keeps_insertThread keeps_outbox keeps_mark_event
  keeps_putThread keeps_putSessionOnly keeps_putProjection

lemma startsChild_keeps: "startsChild r p turn name child n l = Inr (m, l') \<Longrightarrow> keeps n l m l'"
  by (auto simp: startsChild_def Let_def bindE_Inr_iff simp del: appendThreadDrafts.simps split: if_splits
      intro: keeps_trans [OF keeps_append keeps_trans [OF keeps_append keeps_putThread]])

lemma deliverToChild_keeps:
  assumes "deliverToChild r session p turn inp created child l = Inr (x, l')"
  shows "\<exists>m. keeps (maxSeq l) l m l'"
proof -
  let ?r = "tr_Runtime r"
  from assms obtain l1 n2 l2 es3 n3 l3 es4 n4 l4 n5 l5 where
    1: "(if created then insertThread ChildKind child l else Inr l) = Inr l1" and
    2: "(if created then bindE (appendThreadDrafts ?r p [createdDraft (sa_AgentName inp) (t_ID child)] (maxSeq l1) (Some turn) l1)
          (\<lambda>(_, n, l2). Inr (n, l2)) else Inr (maxSeq l1, l1)) = Inr (n2, l2)" and
    3: "appendThreadDrafts ?r p [sentDraft inp (t_ID child)] n2 (Some turn) l2 = Inr (es3, n3, l3)" and
    4: "appendThreadDrafts ?r (t_ID child) [receivedDraft inp p (ag_Name (s_AgentSnapshot session))] n3 None l3 = Inr (es4, n4, l4)" and
    5: "startsChild ?r p turn (sa_AgentName inp) child n4 l4 = Inr (n5, l5)" and
    6: "l' = (let l6 = (if s_Status session \<noteq> StatusRunning
                    then putSessionOnly (TransitionStatus session StatusRunning (rt_Now ?r)) l5 else l5)
              in l6\<lparr>lg_Outbox := UpsertThreadOutbox (s_ID session) (t_ID child) n5 (rt_Now ?r) (lg_Outbox l6)\<rparr>)"
    by (auto simp: deliverToChild_def Let_def bindE_Inr_iff simp del: appendThreadDrafts.simps)
  have "keeps (maxSeq l1) l1 n2 l2" using 2
    by (auto simp: bindE_Inr_iff simp del: appendThreadDrafts.simps split: if_splits intro: keeps_append)
  also have "keeps n2 l2 n3 l3" by (rule keeps_append [OF 3])
  also have "keeps n3 l3 n4 l4" by (rule keeps_append [OF 4])
  also have "keeps n4 l4 n5 l5" by (rule startsChild_keeps [OF 5])
  also have "keeps n5 l5 n5 l'" unfolding 6 Let_def
    by (auto intro: keeps_trans [OF keeps_putSessionOnly] keeps_outbox simp: putSessionOnly_def [symmetric])
  finally have "keeps (maxSeq l1) l1 n5 l'" .
  moreover have "lg_Events l1 = lg_Events l" using 1 by (auto split: if_splits dest: insertThread_events)
  ultimately show ?thesis using keeps_from by blast
qed

lemma targetThread_events: "targetThread r session p member inp l = Inr (Inr (child, l')) \<Longrightarrow> lg_Events l' = lg_Events l"
  by (auto simp: targetThread_def newChild_def NewID_def Let_def split: if_splits sum.splits storeError.splits)

lemma coordinatorAction_keeps:
  assumes "coordinatorAction r session p turn name inp l = Inr (x, l')"
  shows "\<exists>m. keeps (maxSeq l) l m l'"
proof -
  have "\<exists>m. keeps (maxSeq l) l m l'" if "executeSendToAgentLocked r session p turn parsed l = Inr (x, l')" for parsed
    using that unfolding executeSendToAgentLocked_def Let_def
    by (auto elim!: bindE_InrE split: if_split_asm option.split_asm sum.split_asm prod.split_asm)
      (blast intro: keeps_refl dest: deliverToChild_keeps targetThread_events intro: keeps_from)+
  with assms show ?thesis unfolding coordinatorAction_def
    by (auto simp: bindE_Inr_iff split: if_split_asm sum.split_asm intro: keeps_refl)
qed

lemma ExecuteCoordinatorToolStep_keeps:
  assumes "ExecuteCoordinatorToolStep r p turn i name inp l = Inr (x, l')"
  shows "\<exists>m. keeps (maxSeq l) l m l'"
  using assms unfolding ExecuteCoordinatorToolStep_def Let_def
  by (auto simp: bindE_Inr_iff split: if_split_asm option.split_asm prod.split_asm intro: keeps_refl
      dest!: coordinatorAction_keeps intro: keeps_trans [OF _ keeps_outbox(2)])

lemma recordConsultation_keeps:
  assumes "recordConsultation r session configured p turn c (l, us) = Inr (s', (l', us'))"
  shows "\<exists>m. keeps (maxSeq l) l m l'"
proof -
  let ?r = "(tr_Runtime r)\<lparr>rt_Now := truncMicros (rt_Now (tr_Runtime r))\<rparr>"
  from assms obtain thread c' l1 n2 l2 n3 l3 n4 where
    1: "insertThread AdvisorKind thread l = Inr l1" and
    2: "appendRows ?r (advisorOpens p turn c') (maxSeq l) l1 = Inr (n2, l2)" and
    3: "(if ac_AdviceDelivered c'
         then bindE (appendRows ?r (adviceRows p turn (ag_Name (s_AgentSnapshot session)) c') n2 l2)
                (\<lambda>(n, l3). Inr (n, MarkEventProcessed (truncMicros (rt_Now (tr_Runtime r))) (ac_LifecycleIDs c' ! 4) l3))
         else Inr (n2, l2)) = Inr (n3, l3)" and
    4: "appendRows ?r (advisorCloses p turn c') n3 l3 = Inr (n4, l')"
    unfolding recordConsultation_def Let_def
    by (simp add: bindE_Inr_iff split: if_split_asm)
  have "keeps (maxSeq l) l (maxSeq l) l1" by (rule keeps_insertThread [OF 1])
  also have "keeps (maxSeq l) l1 n2 l2" by (rule keeps_appendRows [OF 2])
  also have "keeps n2 l2 n3 l3" using 3
    by (auto simp: bindE_Inr_iff split: if_splits intro: keeps_trans [OF keeps_appendRows keeps_mark_event])
  also have "keeps n3 l3 n4 l'" by (rule keeps_appendRows [OF 4])
  finally show ?thesis by blast
qed

lemma CompleteAdvisorToolStep_keeps:
  assumes "CompleteAdvisorToolStep r p turn i result c (l, us) = Inr (l', us')"
  shows "\<exists>m. keeps (maxSeq l) l m l'"
proof -
  from assms obtain b b' e session configured session1 l1 s2 j where
    1: "(if b then recordConsultation r session configured p turn c (l, us)
         else if b' then Inl e else Inr (session, (l, us))) = Inr (session1, (l1, us'))" and
    2: "l' = (putSessionOnly s2 l1)\<lparr>lg_Journal := j\<rparr>"
    unfolding CompleteAdvisorToolStep_def Let_def
    by (auto elim!: bindE_InrE simp: if_Inl split: option.split_asm split del: if_split)
  have "\<exists>m. keeps (maxSeq l) l m l1"
  proof (cases b)
    case True
    with 1 have "recordConsultation r session configured p turn c (l, us) = Inr (session1, (l1, us'))" by simp
    then show ?thesis by (rule recordConsultation_keeps)
  next
    case False
    with 1 have "l1 = l" by (simp split: if_split_asm)
    then show ?thesis using keeps_refl by blast
  qed
  moreover have "keeps m l1 m l'" for m
    unfolding 2 by (rule keeps_trans [OF keeps_putSessionOnly keeps_outbox(2)])
  ultimately show ?thesis using keeps_trans by blast
qed

lemma CreateChildSessionThread_keeps:
  assumes "CreateChildSessionThread r p name l = Inr (x, l')"
  shows "\<exists>m. keeps (maxSeq l) l m l'"
  using assms unfolding CreateChildSessionThread_def Let_def
  by (auto elim!: bindE_InrE simp: NewID_def simp del: appendThreadDrafts.simps
      split: if_split_asm option.split_asm list.split_asm prod.split_asm)
    (drule insertThread_events, drule keeps_append, simp, blast intro: keeps_from)

lemma AppendThreadEvents_keeps:
  "AppendThreadEvents r threadID drafts l = Inr (es, l') \<Longrightarrow> \<exists>m. keeps (maxSeq l) l m l'"
  unfolding AppendThreadEvents_def
  by (auto simp: bindE_Inr_iff simp del: appendThreadDrafts.simps split: if_splits intro: keeps_append)

lemma keeps_terminate: "keeps n l n (terminateThread r i k l)"
  by (simp add: terminateThread_def keeps_outbox)

lemma archiveLive_keeps:
  assumes "archiveLive r session kind thread parent l = Inr (t, l')"
  shows "\<exists>m. keeps (maxSeq l) l m l'"
proof -
  obtain dropped l1 where d: "dropActions (t_ID thread) l = (dropped, l1)" by fastforce
  let ?s = "\<lambda>l4. putSessionOnly (TransitionStatus session (unarchivedStatuses l4) (rt_Now r)) l4"
  from assms d obtain archived rows l3 n4 l4 n6 l6 where
    1: "putSessionThreadTx archived (settleInputs (rt_Now r) (t_ID thread) l1) = Inr l3" and
    2: "(if t_Status thread = StatusTerminated then Inr (maxSeq l, l3) else appendRows r rows (maxSeq l) l3) = Inr (n4, l4)" and
    3: "(if s_Status session \<noteq> unarchivedStatuses l4 \<or> unarchivedStatuses l4 = StatusIdle \<and> 0 < dropped
         then appendRows r (map (\<lambda>d. (parent, d, None)) (archivalDrafts (unarchivedStatuses l4) (?s l4))) n4 (?s l4)
         else Inr (n4, ?s l4)) = Inr (n6, l6)" and
    4: "l' = (if kind \<noteq> AdvisorKind then terminateThread r (t_ID thread) n6 l6 else l6)"
    unfolding archiveLive_def Let_def
    by (simp add: bindE_Inr_iff split del: if_split) blast
  have "keeps (maxSeq l) l (maxSeq l) l1" using d by (auto simp: dropActions_def intro: keeps_outbox)
  also have "keeps (maxSeq l) l1 (maxSeq l) (settleInputs (rt_Now r) (t_ID thread) l1)"
    by (rule keeps_stamp) (simp add: settleInputs_def)
  also have "keeps (maxSeq l) \<dots> (maxSeq l) l3" by (rule keeps_putThread [OF 1])
  also have "keeps (maxSeq l) l3 n4 l4" using 2 by (auto split: if_splits intro: keeps_appendRows)
  also have "keeps n4 l4 n4 (?s l4)" by (rule keeps_putSessionOnly)
  also have "keeps n4 (?s l4) n6 l6" using 3 by (auto split: if_split_asm intro: keeps_appendRows)
  also have "keeps n6 l6 n6 l'" unfolding 4 by (simp add: keeps_terminate)
  finally show ?thesis by blast
qed

lemma ArchiveSessionThread_keeps:
  "ArchiveSessionThread r threadID l = Inr (t, l') \<Longrightarrow> \<exists>m. keeps (maxSeq l) l m l'"
  unfolding ArchiveSessionThread_def
  by (auto elim!: bindE_InrE split: if_split_asm option.split_asm) (blast intro: keeps_terminate keeps_refl dest: archiveLive_keeps)+

section \<open>Steps of budgets\<close>

lemma AccountModelRequest_keeps:
  "AccountModelRequest r threadID i model usage stop (l, us) = Inr (l', us') \<Longrightarrow> \<exists>m. keeps (maxSeq l) l m l'"
  unfolding AccountModelRequest_def Let_def
  by (auto simp: bindE_Inr_iff split: if_splits intro: keeps_refl keeps_trans [OF keeps_putThread keeps_putSessionOnly])

lemma pauseThread_keeps:
  assumes "pauseThread r session thread l = Inr l'"
  shows "\<exists>m. keeps (maxSeq l) l m l'"
proof -
  from assms obtain t l1 rows n l2 agg session1 where
    1: "putSessionThreadTx t l = Inr l1" and 2: "appendRows r rows (maxSeq l1) l1 = Inr (n, l2)" and
    3: "(if agg = s_Status session then Inr (putSessionOnly session l2)
         else if agg = StatusIdle
         then bindE (appendDrafts r (pausedSessionDrafts (rt_Now r) session1 l2) n None l2) (\<lambda>(_, _, l3).
                Inr (putSessionOnly session1 l3))
         else Inr (putSessionOnly session1 l2)) = Inr l'"
    unfolding pauseThread_def Let_def by (auto elim!: bindE_InrE simp del: appendRows.simps split del: if_split)
  have "keeps (maxSeq l1) l1 n l2" by (rule keeps_appendRows [OF 2])
  then have "keeps (maxSeq l) l n l2" by (rule keeps_from [OF putThread_events [OF 1]])
  moreover have "\<exists>m. keeps n l2 m l'"
    using 3 by (auto elim!: bindE_InrE split: if_split_asm
        intro: keeps_putSessionOnly keeps_trans [OF keeps_appendDrafts keeps_putSessionOnly])
  ultimately show ?thesis using keeps_trans by blast
qed

lemma AdmitModelRequest_keeps:
  "AdmitModelRequest r threadID l = Inr (b, l') \<Longrightarrow> \<exists>m. keeps (maxSeq l) l m l'"
  unfolding AdmitModelRequest_def Let_def
  by (auto simp: bindE_Inr_iff split: if_splits intro: keeps_refl pauseThread_keeps)

lemma resumePaused_keeps: "resumePaused r ts n l = Inr (m, l') \<Longrightarrow> keeps n l m l'"
proof (induction ts arbitrary: n l)
  case (Cons t ts)
  from Cons(2) obtain t1 l1 rows k l2 where 1: "putSessionThreadTx t1 l = Inr l1" "appendRows r rows n l1 = Inr (k, l2)"
    "resumePaused r ts k (wakePaused r t1 k l2) = Inr (m, l')"
    by (auto simp: Let_def bindE_Inr_iff simp del: appendRows.simps)
  have "keeps n l n l1" by (rule keeps_putThread [OF 1(1)])
  also have "keeps n l1 k l2" by (rule keeps_appendRows [OF 1(2)])
  also have "keeps k l2 k (wakePaused r t1 k l2)" by (simp add: wakePaused_def Let_def keeps_outbox)
  also have "keeps k \<dots> m l'" by (rule Cons(1) [OF 1(3)])
  finally show ?case .
qed simp

lemma resumeBudget_keeps:
  "resumeBudgetPausedThreadsLocked r session n l = Inr (s', m, l') \<Longrightarrow> keeps n l m l'"
  unfolding resumeBudgetPausedThreadsLocked_def Let_def
  by (auto simp: bindE_Inr_iff split: if_splits intro: resumePaused_keeps keeps_trans [OF resumePaused_keeps keeps_appendDrafts])

lemma putPrimary_keeps: "putPrimarySessionThreadProjection s l = Inr l' \<Longrightarrow> keeps n l n l'"
  by (rule keeps_same) (auto simp: putPrimarySessionThreadProjection_def putPrimaryThreadProjection_def bindE_Inr_iff)

lemma UpdateSession_keeps:
  assumes "UpdateSession env r u l = Inr (s', l')"
  shows "\<exists>m. keeps (maxSeq l) l m l'"
proof -
  have "\<exists>m. keeps (maxSeq l) l m l'"
    if "appendDrafts r ds (maxSeq l) None l = Inr (es, n, l1)"
      "(if b then resumeBudgetPausedThreadsLocked r next n l1 else Inr (next, n, l1)) = Inr (next2, m, l2)"
      "(if c then putPrimarySessionThreadProjection next2 (putSessionOnly next2 l2) else Inr (putSessionOnly next2 l2)) = Inr l'"
    for ds es n l1 b "next" next2 m l2 c
  proof -
    have "keeps (maxSeq l) l n l1" by (rule keeps_appendDrafts [OF that(1)])
    also have "keeps n l1 m l2" using that(2) by (auto split: if_split_asm intro: resumeBudget_keeps)
    also have "keeps m l2 m (putSessionOnly next2 l2)" by (rule keeps_putSessionOnly)
    also have "keeps m (putSessionOnly next2 l2) m l'" using that(3) by (auto split: if_split_asm intro: putPrimary_keeps)
    finally show ?thesis by blast
  qed
  note step = this
  from assms obtain session next0 change where rest: "(if \<not> SessionChange_Any change then Inr (session, l)
      else let next1 = next0\<lparr>s_UpdatedAt := rt_Now r\<rparr>
        in bindE (appendDrafts r [\<lparr>d_ID = [], d_Type = EvSessionUpdated,
               d_Payload = SessionUpdatedPayload next1 change\<rparr>] (maxSeq l) None l) (\<lambda>(_, n, l1).
           bindE (if ch_Budget change then resumeBudgetPausedThreadsLocked r next1 n l1 else Inr (next1, n, l1))
             (\<lambda>(next2, _, l2).
           (let l3 = putSessionOnly next2 l2
            in bindE (if ch_Agent change then putPrimarySessionThreadProjection next2 l3 else Inr l3)
                 (\<lambda>l4. Inr (next2, l4)))))) = Inr (s', l')"
    unfolding UpdateSession_def
    by (auto elim!: bindE_InrE simp: if_Inl split: option.split_asm sum.split_asm prod.split_asm split del: if_split)
  show ?thesis
  proof (cases "SessionChange_Any change")
    case True
    with rest show ?thesis unfolding Let_def by (auto elim!: bindE_InrE intro: step split del: if_split)
  next
    case False
    with rest have "l' = l" by simp
    then show ?thesis using keeps_refl by blast
  qed
qed

lemma ArchiveSession_keeps: "ArchiveSession r l = Inr (s', l') \<Longrightarrow> \<exists>m. keeps (maxSeq l) l m l'"
  unfolding ArchiveSession_def Let_def
  by (auto simp: bindE_Inr_iff split: if_splits intro: keeps_refl keeps_putProjection)

section \<open>Histories\<close>

text \<open>One committed transaction; each has its own clock and identifiers, and a refused one leaves the rows alone.\<close>

inductive transaction :: "ledger \<Rightarrow> ledger \<Rightarrow> bool" where
  admit: "AdmitEvents r drafts l = Inr (a, l') \<Longrightarrow> transaction l l'"
| complete: "CompleteWorkflowTurnWithTranscriptAndUsage r t l = Inr (c, l') \<Longrightarrow> transaction l l'"
| completeThread: "CompleteThreadWorkflowTurn r threadID t l = Inr (c, l') \<Longrightarrow> transaction l l'"
| progress: "AppendWorkflowEvents marshal r turn drafts l = Inr (b, l') \<Longrightarrow> transaction l l'"
| retry: "retryStep l l' \<Longrightarrow> transaction l l'"
| coordinate: "ExecuteCoordinatorToolStep tr p turn i name inp l = Inr (x, l') \<Longrightarrow> transaction l l'"
| consult: "CompleteAdvisorToolStep tr p turn i result con (l, us) = Inr (l', us') \<Longrightarrow> transaction l l'"
| createThread: "CreateChildSessionThread r p name l = Inr (x, l') \<Longrightarrow> transaction l l'"
| appendThread: "AppendThreadEvents r threadID drafts l = Inr (es, l') \<Longrightarrow> transaction l l'"
| archiveThread: "ArchiveSessionThread r threadID l = Inr (th, l') \<Longrightarrow> transaction l l'"
| account: "AccountModelRequest tr threadID i model usage stop (l, us) = Inr (l', us') \<Longrightarrow> transaction l l'"
| admitModel: "AdmitModelRequest r threadID l = Inr (b, l') \<Longrightarrow> transaction l l'"
| update: "UpdateSession env r u l = Inr (s', l') \<Longrightarrow> transaction l l'"
| archive: "ArchiveSession r l = Inr (s', l') \<Longrightarrow> transaction l l'"

lemma transaction_keeps: "transaction l l' \<Longrightarrow> \<exists>m. keeps (maxSeq l) l m l'"
  by (induction rule: transaction.induct)
    (blast intro: AdmitEvents_keeps completeTurn_keeps CompleteWorkflowTurn_completes CompleteThreadWorkflowTurn_keeps
        AppendWorkflowEvents_keeps retryStep_keeps ExecuteCoordinatorToolStep_keeps CompleteAdvisorToolStep_keeps
        CreateChildSessionThread_keeps AppendThreadEvents_keeps ArchiveSessionThread_keeps AccountModelRequest_keeps
        AdmitModelRequest_keeps UpdateSession_keeps ArchiveSession_keeps)+

lemma transaction_log: "transaction l l' \<Longrightarrow> logOk l \<Longrightarrow> logOk l' \<and> grows l l'"
  using transaction_keeps [of l l'] upTo_maxSeq [of l] unfolding keeps_def by blast

text \<open>A turn on a Session with one waiting message.\<close>

definition sampleTurn :: turnOutput where
  "sampleTurn = \<lparr>to_TriggerEventID = ''m1'',
     to_Drafts = [\<lparr>d_ID = [], d_Type = EvAgentMessage, d_Payload = []\<rparr>, endTurnDraft],
     to_Status = StatusIdle, to_AttemptID = [], to_AttemptState = None, to_AttemptError = None,
     to_PendingActionEventIDs = [], to_ResolutionEventIDs = [], to_TranscriptDelta = None, to_ToolUseMappings = [],
     to_Usage = zeroUsage\<rparr>"

definition sampleStart :: ledger where
  "sampleStart = sampleLedger [] [sampleMessage ''m1'' 1]"

lemma sampleRun_eval:
  "case completeTurn sampleRuntime sampleTurn sampleStart of Inl _ \<Rightarrow> False
   | Inr (c, l') \<Rightarrow> tc_Applied c \<and> s_Status (tc_Session c) = StatusIdle \<and> length (tc_Events c) = 2
       \<and> s_Outcomes (lg_Session l') = [] \<and> lg_Pending l' = []"
  by code_simp

lemma sampleRun:
  obtains c l' where "completeTurn sampleRuntime sampleTurn sampleStart = Inr (c, l')" "tc_Applied c"
    "s_Status (tc_Session c) = StatusIdle" "length (tc_Events c) = 2" "s_Outcomes (lg_Session l') = []" "lg_Pending l' = []"
  using sampleRun_eval by (auto split: sum.splits)

text \<open>
  C13. The ledger is append-only: whatever admissions, progress appends, retries, completions, delegations, budget
  pauses, updates and archivals a Session goes through, the rows stay in
  the strict order of their sequence numbers with distinct identifiers, every row that was there is still there
  at its place, changed at most by a processing time set once, and new rows come after all of them.
\<close>

theorem ledger_append_only:
  assumes "transaction\<^sup>*\<^sup>* l l'" "logOk l"
  shows "logOk l' \<and> grows l l'"
  using assms by (induction rule: rtranclp_induct) (auto dest: transaction_log intro: grows_trans)

theorem ledger_append_only_witness:
  "\<exists>c l'. completeTurn sampleRuntime sampleTurn sampleStart = Inr (c, l') \<and> logOk l' \<and> grows sampleStart l'"
proof (rule sampleRun)
  fix c l'
  assume c: "completeTurn sampleRuntime sampleTurn sampleStart = Inr (c, l')"
  then have "CompleteWorkflowTurnWithTranscriptAndUsage sampleRuntime sampleTurn sampleStart = Inr (c, l')"
    by (simp add: CompleteWorkflowTurnWithTranscriptAndUsage_def sampleTurn_def)
  then have "transaction\<^sup>*\<^sup>* sampleStart l'" by (blast intro: transaction.complete)
  moreover have "logOk sampleStart" by (simp add: logOk_def sampleStart_def sampleLedger_def)
  ultimately have "logOk l' \<and> grows sampleStart l'" by (rule ledger_append_only)
  with c show ?thesis by blast
qed

end
