(* ===== verification/TurnSafety.thy ===== *)
theory TurnSafety
  imports LogSafety
begin

text \<open>
  What a completed turn leaves behind: a redelivered completion replays the first one, and a Session
  that settles to idle has no message waiting on its primary Thread.
\<close>

section \<open>The rows after a completion\<close>

lemma flush_queued:
  "\<exists>q. lg_Events (FlushQueuedUserMessages now i l) = updateWhere q (stampProcessed now) (lg_Events l)
    \<and> (\<forall>th e. GetPrimarySessionThreadID l = Inr th \<longrightarrow> e \<in> set (lg_Events l) \<longrightarrow> queuedMessage th e \<longrightarrow> e_ID e \<noteq> i \<longrightarrow> q e)"
proof (cases "GetPrimarySessionThreadID l")
  case (Inl e)
  then show ?thesis by (intro exI [of _ "\<lambda>_. False"]) (simp add: FlushQueuedUserMessages_def updateWhere_map)
next
  case (Inr th)
  let ?queued = "filter (\<lambda>e. queuedMessage th e \<and> e_ID e \<noteq> i) (lg_Events l)"
  let ?q = "\<lambda>e. e_ID e \<in> set (map e_ID ?queued
     @ List.map_filter (\<lambda>e. asStr (jget (e_Payload e) InternalCompanionSystemEventID)) ?queued)"
  have "lg_Events (FlushQueuedUserMessages now i l) = updateWhere ?q (stampProcessed now) (lg_Events l)"
    using Inr by (simp add: FlushQueuedUserMessages_def Let_def)
  moreover have "?q e" if "e \<in> set (lg_Events l)" "queuedMessage th e" "e_ID e \<noteq> i" for e using that by auto
  ultimately show ?thesis using Inr by (intro exI [of _ ?q]) auto
qed

definition maybeStamp :: "time \<Rightarrow> (Event \<Rightarrow> Event) \<Rightarrow> bool" where
  "maybeStamp now f \<longleftrightarrow> (\<forall>e. f e = e \<or> f e = stampProcessed now e)"

lemma stamp_twice [simp]: "stampProcessed now (stampProcessed now e) = stampProcessed now e"
  by (simp add: stampProcessed_def split: option.splits)

lemma maybeStamp_sel:
  "maybeStamp now f \<Longrightarrow> e_ID (f e) = e_ID e \<and> e_Sequence (f e) = e_Sequence e \<and> e_Type (f e) = e_Type e
     \<and> e_ThreadID (f e) = e_ThreadID e \<and> e_TurnEventID (f e) = e_TurnEventID e \<and> e_Payload (f e) = e_Payload e
     \<and> (e_ProcessedAt e \<noteq> None \<longrightarrow> f e = e)"
  unfolding maybeStamp_def stampProcessed_def by (drule spec [of _ e]) (auto split: option.splits)

lemma queued_stamp: "maybeStamp now f \<Longrightarrow> queuedMessage th (f e) \<Longrightarrow> queuedMessage th e"
  using maybeStamp_sel [of now f e] by (auto simp: queuedMessage_def)

text \<open>The two stamping passes of a completion, as one map over the rows.\<close>

lemma stamping_passes:
  assumes "l7 = (if b then FlushQueuedUserMessages now turn (markProcessed now ids l) else markProcessed now ids l)"
  obtains f where "lg_Events l7 = map f (lg_Events l)" "maybeStamp now f"
    "\<And>e. e_ID e \<in> set ids \<Longrightarrow> e_ProcessedAt (f e) \<noteq> None"
    "\<And>e th. b \<Longrightarrow> GetPrimarySessionThreadID l = Inr th \<Longrightarrow> e \<in> set (lg_Events l) \<Longrightarrow> e_ID e \<noteq> turn \<Longrightarrow> \<not> queuedMessage th (f e)"
proof (cases b)
  let ?f = "\<lambda>e. if e_ID e \<in> set ids then stampProcessed now e else e"
  have p: "e_ProcessedAt (stampProcessed now e) \<noteq> None" for e by (simp add: stampProcessed_def split: option.splits)
  have m: "lg_Events (markProcessed now ids l) = map ?f (lg_Events l)"
    using markProcessed_events [of now ids l] by (simp add: updateWhere_map)
  have mf: "maybeStamp now ?f" by (simp add: maybeStamp_def)
  {
    case False
    show thesis by (rule that [of ?f]) (use False assms m mf p in auto)
  next
    case True
    obtain q where q: "lg_Events l7 = updateWhere q (stampProcessed now) (map ?f (lg_Events l))"
      and all: "\<And>th e. GetPrimarySessionThreadID (markProcessed now ids l) = Inr th \<Longrightarrow> e \<in> set (map ?f (lg_Events l))
         \<Longrightarrow> queuedMessage th e \<Longrightarrow> e_ID e \<noteq> turn \<Longrightarrow> q e"
      using True assms flush_queued [of now turn "markProcessed now ids l"] unfolding m by auto
    have prim: "GetPrimarySessionThreadID (markProcessed now ids l) = GetPrimarySessionThreadID l"
      using markProcessed_events [of now ids l] by (auto simp: GetPrimarySessionThreadID_def)
    let ?g = "\<lambda>e. if q (?f e) then stampProcessed now (?f e) else ?f e"
    show thesis
    proof (rule that [of ?g])
      show "lg_Events l7 = map ?g (lg_Events l)" using q by (simp add: updateWhere_map)
      show "maybeStamp now ?g" by (auto simp: maybeStamp_def)
      show "e_ProcessedAt (?g e) \<noteq> None" if "e_ID e \<in> set ids" for e using that p by auto
      show "\<not> queuedMessage th (?g e)"
        if "GetPrimarySessionThreadID l = Inr th" "e \<in> set (lg_Events l)" "e_ID e \<noteq> turn" for e th
      proof (cases "queuedMessage th (?f e)")
        case True
        have "e_ID (?f e) \<noteq> turn" using that(3) maybeStamp_sel [OF mf, of e] by simp
        with True all [of th "?f e"] that prim have "q (?f e)" by auto
        then show ?thesis using p by (simp add: queuedMessage_def)
      next
        case False
        moreover have "?g e = ?f e \<or> ?g e = stampProcessed now (?f e)" by simp
        ultimately show ?thesis using p by (auto simp: queuedMessage_def)
      qed
    qed
  }
qed

lemma resolve_closes:
  assumes "resolvePendingBarrierLocked now th trigger ids l = Inr (b, l')"
  shows "\<not> IsUnresolvedPendingResolution th trigger l'"
proof (cases "ids = []")
  case True
  then have "lg_Pending l' = updateWhere (\<lambda>p. pa_ResolvingEventID p = Some trigger \<and> pa_ResolvedAt p = None)
      (\<lambda>x. x\<lparr>pa_ResolvedAt := Some now\<rparr>) (lg_Pending l)"
    using assms by (auto simp: resolvePendingBarrierLocked_def ResolvePendingActionsForTrigger_def resolveWhere_def)
  then show ?thesis
    by (auto simp: IsUnresolvedPendingResolution_def list_ex_iff set_updateWhere unresolved_def split: if_splits)
next
  case False
  from barrier_clears(1) [OF assms False] show ?thesis
    by (auto simp: IsUnresolvedPendingResolution_def HasUnresolvedPendingActions_def list_ex_iff)
qed

lemma appendUnique_member: "set (appendUniqueStrings xs ys) = set (xs @ ys) - {[]}"
proof -
  have "set (uniqueStrings seen zs) = set zs - {[]} - set seen" for seen zs
    by (induction seen zs rule: uniqueStrings.induct) auto
  then show ?thesis by (simp add: appendUniqueStrings_def)
qed

lemma companion_member:
  "companionIDs trigger p ids processed l = Inr out \<Longrightarrow> set processed - {[]} \<subseteq> set out"
proof (induction ids arbitrary: processed)
  case (Cons i ids)
  then obtain q where "companionIDs trigger p ids (if strOf (jget q InternalCompanionSystemEventID) \<noteq> []
      then appendUniqueStrings processed [strOf (jget q InternalCompanionSystemEventID)] else processed) l = Inr out"
    by (auto simp: bindE_Inr_iff Let_def split: option.splits if_splits)
  from Cons.IH [OF this] show ?case by (auto simp: appendUnique_member split: if_splits)
qed auto

lemma processed_member:
  assumes "turnProcessedEventIDs trigger p ids extra l = Inr processed"
  shows "set (if ids = [] then [trigger] else ids) - {[]} \<subseteq> set processed"
proof -
  obtain out where "companionIDs trigger p (if ids = [] then [trigger] else ids)
      (appendUniqueStrings [] (if ids = [] then [trigger] else ids)) l = Inr out" "processed = appendUniqueStrings out extra"
    using assms by (auto simp: turnProcessedEventIDs_def bindE_Inr_iff Let_def)
  with companion_member [OF this(1)] show ?thesis by (auto simp: appendUnique_member)
qed

lemma resolve_rows:
  assumes "resolvePendingBarrierLocked now th trigger ids l = Inr (b, l')"
  shows "lg_Events l' = lg_Events l" "lg_Threads l' = lg_Threads l" "lg_Exists l' = lg_Exists l"
    "lg_DeletingAt l' = lg_DeletingAt l" "lg_Session l' = lg_Session l"
proof -
  from resolve_frame [OF assms] obtain ps where "l' = l\<lparr>lg_Pending := ps\<rparr>" by blast
  then show "lg_Events l' = lg_Events l" "lg_Threads l' = lg_Threads l" "lg_Exists l' = lg_Exists l"
    "lg_DeletingAt l' = lg_DeletingAt l" "lg_Session l' = lg_Session l" by simp_all
qed

lemma stamps_frame:
  "\<exists>es. (if b then FlushQueuedUserMessages now turn (markProcessed now ids l) else markProcessed now ids l) = l\<lparr>lg_Events := es\<rparr>"
proof -
  obtain es where m: "markProcessed now ids l = l\<lparr>lg_Events := es\<rparr>" using markProcessed_events by blast
  obtain es' where "FlushQueuedUserMessages now turn (l\<lparr>lg_Events := es\<rparr>) = l\<lparr>lg_Events := es\<rparr>\<lparr>lg_Events := es'\<rparr>"
    using flush_events by blast
  then have "FlushQueuedUserMessages now turn (l\<lparr>lg_Events := es\<rparr>) = l\<lparr>lg_Events := es'\<rparr>" by simp
  then show ?thesis unfolding m by (cases b) (simp_all, blast+)
qed

lemma append_rows:
  assumes "appendDrafts r ds seq turn l = Inr (es, n, l')"
  obtains th stored k where "GetPrimarySessionThreadID l = Inr th"
    "l' = l\<lparr>lg_Events := lg_Events l @ stored, lg_Drawn := k\<rparr>" "list_all2 (encoded r) es stored"
    "map e_Type es = map d_Type ds" "list_all (\<lambda>e. e_ThreadID e = th \<and> e_TurnEventID e = turn) es"
    "map e_Sequence es = map (\<lambda>i. seq + 1 + int i) [0..<length ds]"
proof -
  from assms obtain th where th: "GetPrimarySessionThreadID l = Inr th" "appendThreadDrafts r th ds seq turn l = Inr (es, n, l')"
    by (auto simp: appendDrafts_def bindE_Inr_iff)
  from append_effect [OF th(2)] obtain stored k where a: "l' = l\<lparr>lg_Events := lg_Events l @ stored, lg_Drawn := k\<rparr>"
      "list_all2 (encoded r) es stored" "map e_Sequence es = map (\<lambda>i. seq + 1 + int i) [0..<length ds]"
    and all: "list_all2 (\<lambda>d e. e = newEvent r (s_ID (lg_Session l)) th (e_ID e) (e_Sequence e) turn d
          \<and> (d_ID d \<noteq> [] \<longrightarrow> e_ID e = d_ID d)) ds es" by (auto simp: appended_def)
  have n: "es ! i = newEvent r (s_ID (lg_Session l)) th (e_ID (es ! i)) (e_Sequence (es ! i)) turn (ds ! i)"
      "length ds = length es" if "i < length es" for i
    using all that unfolding list_all2_conv_all_nth by auto
  have len: "length ds = length es" using all by (rule list_all2_lengthD)
  have t: "e_Type (es ! i) = d_Type (ds ! i) \<and> e_ThreadID (es ! i) = th \<and> e_TurnEventID (es ! i) = turn"
    if "i < length es" for i
    by (subst (1 2 3) n(1) [OF that]) (simp add: newEvent_def)
  show thesis
  proof (rule that [OF th(1) a(1,2) _ _ a(3)])
    show "map e_Type es = map d_Type ds" using t len by (auto intro!: nth_equalityI)
    show "list_all (\<lambda>e. e_ThreadID e = th \<and> e_TurnEventID e = turn) es" using t by (auto simp: list_all_length)
  qed
qed

lemma putCompleted_keeps:
  assumes "putCompleted now session primaryThread se usage l = Inr (s', l')"
  shows "map fst (lg_Threads l') = map fst (lg_Threads l)" "s_AgentSnapshot s' = s_AgentSnapshot session"
proof -
  have fst: "map fst (updateWhere (\<lambda>(k, _). k = PrimaryKind) (\<lambda>(k, _). (k, p)) ts) = map fst ts" for p :: SessionThread and ts
    by (rule map_updateWhere_inv) auto
  show "map fst (lg_Threads l') = map fst (lg_Threads l)"
    using assms by (auto simp: putCompleted_def Let_def bindE_Inr_iff putProjection_def putPrimarySessionThreadProjection_def
      putSessionOnly_def putPrimaryThreadProjection_def fst split: option.splits)
  have keep: "s_AgentSnapshot (applyOutcomeResults s ds now) = s_AgentSnapshot s" for s ds
    unfolding applyOutcomeResults_def by (induction ds arbitrary: s) (auto simp: ApplyOutcomeResult_def)
  have "s' = TransitionStatus (applyOutcomeResults (session\<lparr>s_Usage := usageAdd (s_Usage session) usage\<rparr>) (se_Drafts se) now)
    (se_Status se) now"
    using assms by (auto simp: putCompleted_def Let_def bindE_Inr_iff split: option.splits)
  then show "s_AgentSnapshot s' = s_AgentSnapshot session"
    by (auto simp: TransitionStatus_def Let_def keep split: option.splits)
qed

text \<open>All of it together.\<close>

lemma commitTurn_frame:
  assumes "commitTurn r session primaryThread trigger interrupt t l = Inr (c, l')" "to_TriggerEventID t \<noteq> []"
  obtains l2 se stored f new th where
    "GetPrimarySessionThreadID l = Inr th" "lg_Events l2 = lg_Events l" "lg_Threads l2 = lg_Threads l"
    "\<not> IsUnresolvedPendingResolution (e_ThreadID trigger) (to_TriggerEventID t) l2"
    "se = settle (rt_Now r) session (primaryThread \<noteq> None) (interrupt \<noteq> None) (gatedAfter trigger t l2) t l2"
    "list_all2 (encoded r) (tc_Events c) stored" "map e_Type stored = map d_Type (se_Drafts se)"
    "list_all (\<lambda>e. e_ThreadID e = th \<and> e_TurnEventID e = Some (to_TriggerEventID t)) stored"
    "lg_Events l' = map f (lg_Events l @ stored)" "maybeStamp (rt_Now r) f"
    "\<And>e. e_ID e = to_TriggerEventID t \<Longrightarrow> e_ProcessedAt (f e) \<noteq> None"
    "\<And>e. turnRetriesExhausted (to_Drafts t) \<Longrightarrow> e \<in> set (lg_Events l @ stored) \<Longrightarrow> e_ID e \<noteq> to_TriggerEventID t
       \<Longrightarrow> \<not> queuedMessage th (f e)"
    "lg_Pending l' = lg_Pending l2 @ new" "list_all (freshAction (e_ThreadID trigger)) new"
    "map pa_ActionEventID new = to_PendingActionEventIDs t"
    "tc_Applied c" "tc_Session c = lg_Session l'" "s_Status (lg_Session l') = se_Status se"
    "lg_Exists l' = lg_Exists l" "lg_DeletingAt l' = lg_DeletingAt l"
    "s_AgentSnapshot (lg_Session l') = s_AgentSnapshot session" "map fst (lg_Threads l') = map fst (lg_Threads l)"
  using assms(1)
proof (rule commitTurn_steps, goal_cases)
  case (1 l1 resolved l2 se events finalSeq l3 l4 l5 processed session' l8)
  define l7 where "l7 = (if turnRetriesExhausted (to_Drafts t)
        then FlushQueuedUserMessages (rt_Now r) (to_TriggerEventID t) (markProcessed (rt_Now r) processed l5)
        else markProcessed (rt_Now r) processed l5)"
  note put = 1(10) [folded l7_def]
  obtain j where j: "l1 = l\<lparr>lg_Journal := j\<rparr>" using finishTurnAttempt_frame [OF 1(3)] by blast
  note r2 = resolve_rows [OF 1(4)]
  obtain th stored k where th: "GetPrimarySessionThreadID l2 = Inr th"
    and l3: "l3 = l2\<lparr>lg_Events := lg_Events l2 @ stored, lg_Drawn := k\<rparr>" "list_all2 (encoded r) events stored"
      "map e_Type events = map d_Type (se_Drafts se)"
      "list_all (\<lambda>e. e_ThreadID e = th \<and> e_TurnEventID e = Some (to_TriggerEventID t)) events"
    by (rule append_rows [OF 1(6)])
  have st: "map e_Type stored = map e_Type events"
      "list_all (\<lambda>e. e_ThreadID e = th \<and> e_TurnEventID e = Some (to_TriggerEventID t)) stored"
    using l3(2,4) by (auto simp: list_all2_conv_all_nth encoded_sel list_all_length intro!: nth_equalityI)
  obtain new k2 where new: "l4 = l3\<lparr>lg_Pending := lg_Pending l3 @ new, lg_Drawn := k2\<rparr>"
      "map pa_ActionEventID new = to_PendingActionEventIDs t" "list_all (freshAction (e_ThreadID trigger)) new"
    using insertPending_frame [OF 1(7)] by blast
  obtain ts where l5: "l5 = l4\<lparr>lg_Transcript := ts\<rparr>" using transcript_frame [OF 1(8)] by blast
  obtain f where f: "lg_Events l7 = map f (lg_Events l5)" "maybeStamp (rt_Now r) f"
    "\<And>e. e_ID e \<in> set processed \<Longrightarrow> e_ProcessedAt (f e) \<noteq> None"
    "\<And>e th. turnRetriesExhausted (to_Drafts t) \<Longrightarrow> GetPrimarySessionThreadID l5 = Inr th \<Longrightarrow> e \<in> set (lg_Events l5)
       \<Longrightarrow> e_ID e \<noteq> to_TriggerEventID t \<Longrightarrow> \<not> queuedMessage th (f e)"
    by (rule stamping_passes [of _ "turnRetriesExhausted (to_Drafts t)" "rt_Now r" "to_TriggerEventID t" processed l5, OF l7_def]) blast
  obtain es where l7: "l7 = l5\<lparr>lg_Events := es\<rparr>" unfolding l7_def using stamps_frame by blast
  obtain threads where l8: "l8 = l7\<lparr>lg_Session := session', lg_Threads := threads\<rparr>" "s_Status session' = se_Status se"
    using putCompleted_frame(1,2) [OF put] by blast
  have s8: "lg_Pending l8 = lg_Pending l5" "lg_Exists l8 = lg_Exists l5" "lg_DeletingAt l8 = lg_DeletingAt l5"
      "lg_Events l8 = lg_Events l7" "lg_Session l8 = session'" "map fst (lg_Threads l8) = map fst (lg_Threads l5)"
    using putCompleted_keeps(1) [OF put] unfolding l8(1) by (simp_all add: l7)
  have l'8: "lg_Events l' = lg_Events l8" "lg_Pending l' = lg_Pending l8" "lg_Session l' = lg_Session l8"
      "lg_Exists l' = lg_Exists l8" "lg_DeletingAt l' = lg_DeletingAt l8" "lg_Threads l' = lg_Threads l8"
    unfolding 1(11) by (simp_all add: wakePrimary_def)
  have trig: "to_TriggerEventID t \<in> set processed"
  proof (cases "to_ResolutionEventIDs t = []")
    case True
    with processed_member [OF 1(9)] assms(2) show ?thesis by auto
  next
    case False
    with processed_member [OF 1(9)] assms(2) barrier_rows(2) [OF 1(4) False] show ?thesis by auto
  qed
  have prim: "GetPrimarySessionThreadID l5 = GetPrimarySessionThreadID l2" "GetPrimarySessionThreadID l2 = GetPrimarySessionThreadID l"
    unfolding l5 new(1) l3(1) using r2 by (simp_all add: GetPrimarySessionThreadID_def j)
  have ev: "lg_Events l5 = lg_Events l @ stored" unfolding l5 new(1) l3(1) using r2 by (simp add: j)
  have kinds: "map fst (lg_Threads l8) = map fst (lg_Threads l)" "s_AgentSnapshot session' = s_AgentSnapshot session"
    using putCompleted_keeps(2) [OF put] unfolding s8 l5 new(1) l3(1) by (simp_all add: r2 j)
  show ?case
  proof (rule 1(1))
    show "GetPrimarySessionThreadID l = Inr th" using th prim by simp
    show "lg_Events l2 = lg_Events l" "lg_Threads l2 = lg_Threads l" using r2 by (simp_all add: j)
    show "\<not> IsUnresolvedPendingResolution (e_ThreadID trigger) (to_TriggerEventID t) l2" by (rule resolve_closes [OF 1(4)])
    show "se = settle (rt_Now r) session (primaryThread \<noteq> None) (interrupt \<noteq> None) (gatedAfter trigger t l2) t l2" by fact
    show "list_all2 (encoded r) (tc_Events c) stored" using l3(2) 1(12) by simp
    show "map e_Type stored = map d_Type (se_Drafts se)" using st(1) l3(3) by simp
    show "list_all (\<lambda>e. e_ThreadID e = th \<and> e_TurnEventID e = Some (to_TriggerEventID t)) stored" by fact
    show "lg_Events l' = map f (lg_Events l @ stored)" using f(1) unfolding l'8 s8 ev .
    show "maybeStamp (rt_Now r) f" by fact
    show "e_ProcessedAt (f e) \<noteq> None" if "e_ID e = to_TriggerEventID t" for e using f(3) trig that by simp
    show "\<not> queuedMessage th (f e)" if "turnRetriesExhausted (to_Drafts t)" "e \<in> set (lg_Events l @ stored)"
      "e_ID e \<noteq> to_TriggerEventID t" for e using f(4) [OF that(1) _ _ that(3)] that(2) th prim ev by simp
    show "lg_Pending l' = lg_Pending l2 @ new" unfolding l'8 s8 l5 new(1) l3(1) by simp
    show "list_all (freshAction (e_ThreadID trigger)) new" "map pa_ActionEventID new = to_PendingActionEventIDs t" by fact+
    show "tc_Applied c" "tc_Session c = lg_Session l'" "s_Status (lg_Session l') = se_Status se"
      using 1(12) l8(2) unfolding l'8 s8 by simp_all
    show "lg_Exists l' = lg_Exists l" "lg_DeletingAt l' = lg_DeletingAt l"
      unfolding l'8 s8 l5 new(1) l3(1) by (simp_all add: r2 j)
    show "s_AgentSnapshot (lg_Session l') = s_AgentSnapshot session" using kinds(2) unfolding l'8 s8 .
    show "map fst (lg_Threads l') = map fst (lg_Threads l)" using kinds(1) unfolding l'8 .
  qed
qed

section \<open>Which drafts a completion publishes\<close>

lemma interruptedOutput_sel:
  "to_TriggerEventID (interruptedOutput o' t) = to_TriggerEventID t"
  "to_Status (interruptedOutput o' t) = StatusIdle"
  by (simp_all add: interruptedOutput_def interruptedTurnDrafts_def)

lemma rewrite_types: "map d_Type (rewriteTerminalSessionIdleStopReason ds p) = map d_Type ds"
proof -
  have "map d_Type (updateFirst q (\<lambda>d. d\<lparr>d_Payload := h d\<rparr>) xs) = map d_Type xs" for q h and xs :: "EventDraft list"
    by (induction xs) auto
  then show ?thesis by (simp add: rewriteTerminalSessionIdleStopReason_def rev_map [symmetric])
qed

lemma insertUsage_types: "set (map d_Type (insertUsageBeforeTerminalIdle ds u)) = insert (d_Type u) (set (map d_Type ds))"
  by (induction ds) auto

lemma published_types:
  "set (map d_Type (publishedDrafts now s st ids ds l)) \<subseteq> insert EvSessionUsage (set (map d_Type ds))"
  unfolding publishedDrafts_def Let_def by (auto simp: rewrite_types insertUsage_types simp del: set_map)

lemma settle_types:
  "set (map d_Type (se_Drafts (settle now s b i g t l)))
     \<subseteq> set (map d_Type (to_Drafts t)) \<union> {EvSessionUsage, EvSessionStatusRunning}"
proof -
  have q: "set (map d_Type (fst (snd (settleQueue i g t l)))) \<subseteq> set (map d_Type (to_Drafts t)) \<union> {EvSessionStatusRunning}"
    by (auto simp: settleQueue_def Let_def runningDraft_def withoutTerminalIdle_def)
  obtain st ds n where s: "settleQueue i g t l = (st, ds, n)" by (metis prod.exhaust)
  have w: "set (map d_Type (withoutTerminalIdle ds)) \<subseteq> set (map d_Type ds)" by (auto simp: withoutTerminalIdle_def)
  show ?thesis
    using q w published_types [of now s] unfolding settle_def s by (auto simp: Let_def simp del: set_map split: if_splits; blast)
qed

lemma interrupted_types:
  "set (map d_Type (to_Drafts (interruptedOutput o' t)))
     \<subseteq> set (map d_Type (to_Drafts t)) \<union> {EvSpanOutcomeEvaluationEnd, EvSessionStatusIdle}"
  by (auto simp: interruptedOutput_def interruptedTurnDrafts_def interruptedEvaluationDraft_def endTurnDraft_def
      split: option.splits)

section \<open>Replays\<close>

lemma find_map_id:
  assumes "\<And>e :: Event. e_ID (f e) = e_ID e"
  shows "find (\<lambda>e. e_ID e = i) (map f es) = map_option f (find (\<lambda>e. e_ID e = i) es)"
  by (induction es) (simp_all add: assms)

lemma primary_from_kinds:
  assumes "GetPrimarySessionThreadID l = Inr th" "map fst (lg_Threads l') = map fst (lg_Threads l)"
  shows "\<exists>p. GetPrimarySessionThreadProjection l' = Inr p"
proof -
  have none: "find (\<lambda>(k, _). k = PrimaryKind) ts = None \<longleftrightarrow> PrimaryKind \<notin> set (map fst ts)"
    for ts :: "(threadKind \<times> SessionThread) list" by (induction ts) auto
  from assms(1) have "find (\<lambda>(k, _). k = PrimaryKind) (lg_Threads l) \<noteq> None"
    unfolding GetPrimarySessionThreadID_def by (auto split: option.splits)
  then have "find (\<lambda>(k, _). k = PrimaryKind) (lg_Threads l') \<noteq> None" unfolding none assms(2) .
  then show ?thesis by (auto simp: GetPrimarySessionThreadProjection_def)
qed

text \<open>A committed turn, with the output the race left it: the two applied cases of a completion.\<close>

lemma applied_cases:
  assumes "completeTurn r t l = Inr (c, l')" "tc_Applied c"
  obtains trigger primaryThread interrupt t' where "GetEvent (to_TriggerEventID t) l = Some trigger"
    "t' = t \<and> interrupt = None \<or> (\<exists>o'. t' = interruptedOutput o' t) \<and> interrupt \<noteq> None"
    "primaryThread = None \<longleftrightarrow> ag_Multiagent (s_AgentSnapshot (lg_Session l)) = None"
    "commitTurn r (lg_Session l) primaryThread trigger interrupt t' l = Inr (c, l')"
  using assms(1)
proof (cases rule: completeTurn_cases)
  case (replay trigger)
  with assms(2) show thesis by (simp add: replayTurn_def)
next
  case (plain trigger primaryThread)
  then show thesis by (intro that [of trigger t None primaryThread]) simp_all
next
  case (interrupted trigger primaryThread interrupt evaluated)
  then show thesis by (intro that [of trigger "interruptedOutput evaluated t" "Some interrupt" primaryThread]) auto
qed

lemma completion_lock: "completeTurn r t l = Inr x \<Longrightarrow> lg_Exists l \<and> lg_DeletingAt l = None"
  by (auto simp: completeTurn_def bindE_Inr_iff LockSession_def split: if_splits)

lemma events_by_turn:
  assumes "logOk l"
  shows "ListEventsByTurn i l = filter (\<lambda>e. e_TurnEventID e = Some i) (lg_Events l)"
proof -
  have "sorted_wrt (<) (map e_Sequence (filter q (lg_Events l)))" for q
    using assms unfolding logOk_def sorted_wrt_map by (elim conjE) (rule sorted_wrt_filter)
  then have "sorted (map e_Sequence (filter q (lg_Events l)))" for q
    by (rule strict_sorted_imp_sorted)
  then show ?thesis unfolding ListEventsByTurn_def by (rule sort_key_id_if_sorted)
qed

section \<open>Two observations\<close>

text \<open>
  A primary Thread that parks while a child runs publishes no idle event, so the replay of its completion does
  not see that the turn was parked.
\<close>

lemma commitTurn_parked: "commitTurn r s p trigger i t l = Inr (c, l') \<Longrightarrow> tc_Parked c = (to_PendingActionEventIDs t \<noteq> [])"
  by (erule commitTurn_steps) simp

lemma replay_forgets_park:
  assumes "completeTurn r t l = Inr (c, l')" "tc_Applied c" "tc_Parked c" "to_TriggerEventID t \<noteq> []"
    and "ag_Multiagent (s_AgentSnapshot (lg_Session l)) \<noteq> None" "HasActiveChildThreads l" "to_Status t = StatusIdle"
    and "EvSessionThreadStatusIdle \<notin> set (map d_Type (to_Drafts t))"
    and "logOk l" "ListEventsByTurn (to_TriggerEventID t) l = []"
  shows "\<not> tc_Parked (replayTurn s (to_TriggerEventID t) l')"
proof (rule applied_cases [OF assms(1,2)])
  let ?i = "to_TriggerEventID t"
  fix trigger primaryThread interrupt t0
  assume t0: "t0 = t \<and> interrupt = None \<or> (\<exists>o'. t0 = interruptedOutput o' t) \<and> interrupt \<noteq> None"
    and p: "primaryThread = None \<longleftrightarrow> ag_Multiagent (s_AgentSnapshot (lg_Session l)) = None"
    and c: "commitTurn r (lg_Session l) primaryThread trigger interrupt t0 l = Inr (c, l')"
  have "to_PendingActionEventIDs t0 \<noteq> []" using commitTurn_parked [OF c] assms(3) by simp
  then have t: "t0 = t" "interrupt = None" using t0 by (auto simp: interruptedOutput_def interruptedTurnDrafts_def)
  show ?thesis
  proof (rule commitTurn_frame [OF c], use assms(4) t in simp, goal_cases)
    case (1 l2 se stored f new th)
    note fr = 1 [unfolded t]
    have "HasActiveChildThreads l2" using assms(6) fr(3) by (simp add: HasActiveChildThreads_def)
    moreover have "gatedAfter trigger t l2" using \<open>to_PendingActionEventIDs t0 \<noteq> []\<close> t by (simp add: gatedAfter_def)
    ultimately have "se_Drafts se = withoutTerminalIdle (to_Drafts t)"
      using p assms(5,7) unfolding fr(5) by (simp add: settle_def settleQueue_def publishedDrafts_def Let_def)
    then have "set (map e_Type stored) \<inter> {EvSessionStatusIdle, EvSessionThreadStatusIdle} = {}"
      using assms(8) unfolding fr(7) by (auto simp: withoutTerminalIdle_def)
    then have types: "\<not> isIdle (e_Type e)" if "e \<in> set stored" for e
      using that unfolding isIdle_def by (metis disjoint_insert(1) image_eqI list.set_map)
    have "logOk l'" using completeTurn_keeps [OF assms(1)] assms(9) upTo_maxSeq [of l] unfolding keeps_def by blast
    have "filter (\<lambda>e. e_TurnEventID e = Some ?i) (lg_Events l) = []"
      using assms(10) unfolding events_by_turn [OF assms(9)] .
    then have "e \<in> f ` set stored" if "e \<in> set (ListEventsByTurn ?i l')" for e
      using that maybeStamp_sel [OF fr(10)] unfolding events_by_turn [OF \<open>logOk l'\<close>] fr(9)
      by (auto simp: filter_empty_conv)
    then have "\<not> isIdle (e_Type e)" if "e \<in> set (ListEventsByTurn ?i l')" for e
      using that types maybeStamp_sel [OF fr(10)] by fastforce
    then show ?thesis by (auto simp: replayTurn_def turnEventsParked_def list_ex_iff)
  qed
qed

text \<open>A child completion sets the status of the Session from its Threads, also where the Session had terminated.\<close>

lemma child_completion_revives_session:
  assumes "settleSession r session i b usage turn seq l = Inr (s', es, l')"
    and "(k, t) \<in> set (lg_Threads l)" "t_SessionID t = s_ID (lg_Session l)" "t_ArchivedAt t = None" "t_Status t = StatusIdle"
  shows "s_Status s' \<noteq> StatusTerminated"
proof -
  have "s_Status s' = unarchivedStatuses l"
    using assms(1) by (auto simp: settleSession_def Let_def TransitionStatus_def bindE_Inr_iff split: if_splits)
  moreover have "StatusIdle \<in> t_Status ` {t \<in> set (map snd (lg_Threads l)). t_SessionID t = s_ID (lg_Session l)
      \<and> t_ArchivedAt t = None}" using assms(2-5) by force
  ultimately show ?thesis
    unfolding unarchivedStatuses_def aggregateSessionThreadStatus_def aggregateRows_spec by auto
qed

section \<open>Properties\<close>

text \<open>
  C14. A redelivered completion replays: once a completion was applied, completing the same trigger again,
  whatever output the retry computed, changes no row, is reported as not applied, and returns the Session
  as it is and the events of the turn in the order they were published, those of the first completion last.
  (An outcome trigger whose outcome is still active is the exception: it stays open for the next evaluation.)
\<close>

theorem completion_replays:
  assumes "completeTurn r t l = Inr (c, l')" "tc_Applied c" "logOk l" "to_TriggerEventID t \<noteq> []"
    and "GetEvent (to_TriggerEventID t) l' = Some trigger"
    and "\<not> activeReceiptProcessedOutcome (lg_Session l') (e_Type trigger) (e_Payload trigger)"
    and "to_TriggerEventID t' = to_TriggerEventID t"
  shows "\<exists>c'. completeTurn r' t' l' = Inr (c', l') \<and> \<not> tc_Applied c' \<and> tc_Session c' = tc_Session c
    \<and> map e_ID (tc_Events c') = map e_ID (ListEventsByTurn (to_TriggerEventID t) l) @ map e_ID (tc_Events c)"
proof (rule applied_cases [OF assms(1,2)])
  let ?i = "to_TriggerEventID t"
  fix trigger0 primaryThread interrupt t0
  assume g: "GetEvent ?i l = Some trigger0"
    and t0: "t0 = t \<and> interrupt = None \<or> (\<exists>o'. t0 = interruptedOutput o' t) \<and> interrupt \<noteq> None"
    and "primaryThread = None \<longleftrightarrow> ag_Multiagent (s_AgentSnapshot (lg_Session l)) = None"
    and c: "commitTurn r (lg_Session l) primaryThread trigger0 interrupt t0 l = Inr (c, l')"
  have i: "to_TriggerEventID t0 = ?i" using t0 by (auto simp: interruptedOutput_sel)
  show ?thesis
  proof (rule commitTurn_frame [OF c], use assms(4) i in simp, goal_cases)
    case (1 l2 se stored f new th)
    note fr = 1 [unfolded i]
    have fid: "e_ID (f e) = e_ID e" for e using maybeStamp_sel [OF fr(10)] by blast
    have "find (\<lambda>e. e_ID e = ?i) (lg_Events l @ stored) = Some trigger0"
      using g by (simp add: GetEvent_def find_append)
    then have "GetEvent ?i l' = Some (f trigger0)"
      unfolding GetEvent_def fr(9) find_map_id [of f, OF fid] by simp
    then have tr: "trigger = f trigger0" using assms(5) by simp
    have id0: "e_ID trigger0 = ?i" using g unfolding GetEvent_def by (auto dest: find_in_set)
    have thr: "e_ThreadID trigger = e_ThreadID trigger0" "e_ID trigger = ?i"
      using maybeStamp_sel [OF fr(10), of trigger0] id0 unfolding tr by simp_all
    have "\<not> IsUnresolvedPendingResolution (e_ThreadID trigger) ?i l'"
      using fr(4,14) unfolding thr(1) IsUnresolvedPendingResolution_def fr(13)
      by (auto simp: list_ex_iff list_all_iff freshAction_def)
    moreover have "e_ProcessedAt trigger \<noteq> None" unfolding tr using fr(11) id0 by blast
    ultimately have committed: "turnCommitted (lg_Session l') trigger l'"
      using assms(6) thr(2) by (simp add: turnCommitted_def)
    have lock: "LockSession l' = Inr (lg_Session l')"
      using completion_lock [OF assms(1)] fr(19,20) by (simp add: LockSession_def)
    obtain p where p: "GetPrimarySessionThreadProjection l' = Inr p"
      using primary_from_kinds [OF fr(1) fr(22)] by blast
    have run: "completeTurn r' t' l' = Inr (replayTurn (lg_Session l') ?i l', l')"
      unfolding completeTurn_def lock assms(7) by (simp add: p assms(5) committed)
    have "logOk l'"
      using completeTurn_keeps [OF assms(1)] assms(3) upTo_maxSeq [of l] unfolding keeps_def by blast
    then have "ListEventsByTurn ?i l' = map f (filter (\<lambda>e. e_TurnEventID e = Some ?i) (lg_Events l @ stored))"
      using maybeStamp_sel [OF fr(10)] unfolding events_by_turn [OF \<open>logOk l'\<close>] fr(9)
      by (simp add: filter_map o_def)
    also have "\<dots> = map f (ListEventsByTurn ?i l @ stored)"
      using fr(8) unfolding events_by_turn [OF assms(3)] by (simp add: list_all_iff)
    finally have ev: "ListEventsByTurn ?i l' = map f (ListEventsByTurn ?i l @ stored)" .
    have "map e_ID stored = map e_ID (tc_Events c)"
      using fr(6) by (auto simp: list_all2_conv_all_nth encoded_sel intro!: nth_equalityI)
    then have "map e_ID (ListEventsByTurn ?i l') = map e_ID (ListEventsByTurn ?i l) @ map e_ID (tc_Events c)"
      unfolding ev using fid by (simp add: o_def)
    with run fr(17) show ?thesis by (auto simp: replayTurn_def)
  qed
qed

theorem completion_replays_witness:
  "\<exists>c l' c'. completeTurn sampleRuntime sampleTurn sampleStart = Inr (c, l')
     \<and> completeTurn sampleRuntime (sampleTurn\<lparr>to_Drafts := []\<rparr>) l' = Inr (c', l') \<and> \<not> tc_Applied c'
     \<and> map e_ID (tc_Events c') = map e_ID (tc_Events c)"
proof (rule sampleRun)
  fix c l'
  assume c: "completeTurn sampleRuntime sampleTurn sampleStart = Inr (c, l')" "tc_Applied c" "s_Outcomes (lg_Session l') = []"
  have ok: "logOk sampleStart" "ListEventsByTurn ''m1'' sampleStart = []"
    by (simp_all add: logOk_def sampleStart_def sampleLedger_def ListEventsByTurn_def sampleMessage_def)
  obtain m where "keeps (maxSeq sampleStart) sampleStart m l'" using completeTurn_keeps [OF c(1)] by blast
  then have "grows sampleStart l'" using ok(1) upTo_maxSeq by (simp add: keeps_def)
  then obtain trigger where g: "GetEvent ''m1'' l' = Some trigger"
    by (auto simp: grows_def GetEvent_def sampleStart_def sampleLedger_def sampleMessage_def list_all2_Cons1 dest: stamped_sel)
  have "\<not> activeReceiptProcessedOutcome (lg_Session l') (e_Type trigger) (e_Payload trigger)"
    using c(3) by (simp add: activeReceiptProcessedOutcome_def ActiveOutcome_def)
  from completion_replays [OF c(1,2) ok(1) _ _ this, of "sampleTurn\<lparr>to_Drafts := []\<rparr>" sampleRuntime] c(1) g ok(2)
  show ?thesis by (auto simp: sampleTurn_def)
qed

text \<open>
  C15. No message is stranded by a completion: when a turn of the primary Thread whose output carries no message
  commits and the Session comes out idle, then either the Thread waits for client actions or no
  unprocessed message is left on it, also when the turn was interrupted or had exhausted its retries.
\<close>

theorem idle_leaves_no_message:
  assumes "completeTurn r t l = Inr (c, l')" "tc_Applied c" "to_TriggerEventID t \<noteq> []"
    and "GetEvent (to_TriggerEventID t) l = Some trigger" "GetPrimarySessionThreadID l = Inr (e_ThreadID trigger)"
    and "{EvUserMessage, EvAgentThreadMessageReceived} \<inter> set (map d_Type (to_Drafts t)) = {}"
    and "s_Status (tc_Session c) = StatusIdle" "\<not> HasUnresolvedPendingActions (e_ThreadID trigger) l'"
  shows "\<not> list_ex (queuedMessage (e_ThreadID trigger)) (lg_Events l')"
proof (rule applied_cases [OF assms(1,2)])
  let ?i = "to_TriggerEventID t" and ?th = "e_ThreadID trigger"
  fix trigger0 primaryThread interrupt t0
  assume "GetEvent ?i l = Some trigger0"
    and t0: "t0 = t \<and> interrupt = None \<or> (\<exists>o'. t0 = interruptedOutput o' t) \<and> interrupt \<noteq> None"
    and "primaryThread = None \<longleftrightarrow> ag_Multiagent (s_AgentSnapshot (lg_Session l)) = None"
    and "commitTurn r (lg_Session l) primaryThread trigger0 interrupt t0 l = Inr (c, l')"
  with assms(4) have c: "commitTurn r (lg_Session l) primaryThread trigger interrupt t0 l = Inr (c, l')" by simp
  have i: "to_TriggerEventID t0 = ?i" using t0 by (auto simp: interruptedOutput_sel)
  have no: "{EvUserMessage, EvAgentThreadMessageReceived} \<inter> set (map d_Type (to_Drafts t0)) = {}"
  proof -
    have "set (map d_Type (to_Drafts t0)) \<subseteq> set (map d_Type (to_Drafts t)) \<union> {EvSpanOutcomeEvaluationEnd, EvSessionStatusIdle}"
      using t0 interrupted_types [of _ t] by blast
    moreover have "{EvUserMessage, EvAgentThreadMessageReceived} \<inter> {EvSpanOutcomeEvaluationEnd, EvSessionStatusIdle} = {}"
      by (simp add: event_type_defs)
    ultimately show ?thesis using assms(6) by blast
  qed
  show ?thesis
  proof (rule commitTurn_frame [OF c], use assms(3) i in simp, goal_cases)
    case (1 l2 se stored f new th)
    note fr = 1 [unfolded i]
    have th: "th = ?th" using fr(1) assms(5) by simp
    have idle: "se_Status se = StatusIdle" using fr(17,18) assms(7) by simp
    have open': "\<not> gatedAfter trigger t0 l2"
    proof -
      have "new = []"
        using assms(8) fr(14) unfolding HasUnresolvedPendingActions_def fr(13)
        by (cases new) (simp_all add: freshAction_def unresolved_def)
      with assms(8) fr(13,15) show ?thesis by (simp add: gatedAfter_def HasUnresolvedPendingActions_def)
    qed
    have queue: "turnRetriesExhausted (to_Drafts t0) \<or> CountUnprocessedUserMessages ?i l2 = 0"
      using idle open' i t0 unfolding fr(5) settle_def settleQueue_def
      by (auto simp: Let_def interruptedOutput_sel split: if_splits)
    have fresh: "\<not> queuedMessage ?th e" if "e \<in> set stored" for e
    proof -
      have "e_Type e \<in> set (map d_Type (se_Drafts se))" using that unfolding fr(7) [symmetric] by simp
      then have "e_Type e \<in> set (map d_Type (to_Drafts t0)) \<union> {EvSessionUsage, EvSessionStatusRunning}"
        using settle_types unfolding fr(5) by blast
      moreover have "{EvUserMessage, EvAgentThreadMessageReceived} \<inter> {EvSessionUsage, EvSessionStatusRunning} = {}"
        by (simp add: event_type_defs)
      ultimately show ?thesis using no by (auto simp: queuedMessage_def)
    qed
    have "\<not> queuedMessage ?th (f e)" if e: "e \<in> set (lg_Events l @ stored)" for e
    proof (cases "e_ID e = ?i")
      case True
      then show ?thesis using fr(11) by (simp add: queuedMessage_def)
    next
      case False
      show ?thesis
      proof (cases "turnRetriesExhausted (to_Drafts t0)")
        case True
        then show ?thesis using fr(12) [OF True e False] th by simp
      next
        case more: False
        have "GetPrimarySessionThreadID l2 = Inr ?th" using assms(5) fr(3) by (simp add: GetPrimarySessionThreadID_def)
        with more queue have "affected (\<lambda>e. queuedMessage ?th e \<and> e_ID e \<noteq> ?i) (lg_Events l2) = 0"
          by (simp add: CountUnprocessedUserMessages_def)
        then have "e \<in> set (lg_Events l) \<Longrightarrow> \<not> queuedMessage ?th e"
          using False unfolding fr(2) affected_def by (auto simp: filter_empty_conv)
        with fresh e queued_stamp [OF fr(10)] show ?thesis by auto
      qed
    qed
    then show ?thesis unfolding fr(9) by (auto simp: list_ex_iff)
  qed
qed

theorem idle_leaves_no_message_witness:
  "\<exists>c l'. completeTurn sampleRuntime sampleTurn sampleStart = Inr (c, l')
     \<and> \<not> list_ex (queuedMessage ''main'') (lg_Events l')"
proof (rule sampleRun)
  fix c l'
  assume c: "completeTurn sampleRuntime sampleTurn sampleStart = Inr (c, l')" "tc_Applied c"
    "s_Status (tc_Session c) = StatusIdle" "lg_Pending l' = []"
  have g: "GetEvent (to_TriggerEventID sampleTurn) sampleStart = Some (sampleMessage ''m1'' 1)"
    by (simp add: GetEvent_def sampleStart_def sampleLedger_def sampleMessage_def sampleTurn_def)
  have "\<not> list_ex (queuedMessage (e_ThreadID (sampleMessage ''m1'' 1))) (lg_Events l')"
    by (rule idle_leaves_no_message [OF c(1,2) _ g _ _ c(3)])
      (simp_all add: c(4) sampleTurn_def endTurnDraft_def HasUnresolvedPendingActions_def GetPrimarySessionThreadID_def
        sampleStart_def sampleLedger_def sampleMessage_def NewPrimarySessionThread_def ApplyPrimarySessionProjection_def
        Let_def event_type_defs)
  with c(1) show ?thesis by (auto simp: sampleMessage_def)
qed

end
