(* ===== verification/Wakeups.thy ===== *)
theory Wakeups
  imports TurnSafety
begin

text \<open>
  What an admission wakes: every interrupt and every piece of work that can run gets a durable wakeup
  that covers its sequence number, in the transaction that admits it.
\<close>

section \<open>Routing\<close>

text \<open>Where the wakeup of a Thread's event goes: the primary row for a Thread without parent.\<close>

definition primaryRoute :: "ledger \<Rightarrow> string \<Rightarrow> string \<Rightarrow> bool" where
  "primaryRoute l primaryID i \<longleftrightarrow> i = primaryID
     \<or> (\<exists>t. loadSessionThreadForUpdate i l = Inr t \<and> t_ParentThreadID t = None)"

definition targeted :: "ledger \<Rightarrow> string \<Rightarrow> interruptWakeTargets \<Rightarrow> routedClientDraft \<Rightarrow> bool" where
  "targeted l primaryID w item \<longleftrightarrow> d_Type (rd_Draft item) \<noteq> EvUserInterrupt
     \<or> rd_ThreadID item \<in> set (iw_Children w) \<or> iw_Primary w \<and> primaryRoute l primaryID (rd_ThreadID item)"

definition below :: "interruptWakeTargets \<Rightarrow> interruptWakeTargets \<Rightarrow> bool" where
  "below v w \<longleftrightarrow> (iw_Primary v \<longrightarrow> iw_Primary w) \<and> set (iw_Children v) \<subseteq> set (iw_Children w)"

lemma targeted_below: "below v w \<Longrightarrow> targeted l p v x \<Longrightarrow> targeted l p w x"
  by (auto simp: below_def targeted_def)

lemma load_id: "loadSessionThreadForUpdate i l = Inr t \<Longrightarrow> t_ID t = i"
  by (auto simp: loadSessionThreadForUpdate_def split: option.splits dest!: find_in_set)

lemma routeInterrupt_targets:
  assumes "routeInterrupt l primaryID d w = Inr (target, w', copies)" "d_Type d = EvUserInterrupt"
  shows "below w w' \<and> targeted l primaryID w' \<lparr>rd_Draft = d', rd_ThreadID = target, rd_Submitted = b\<rparr>
    \<and> list_all (targeted l primaryID w') copies"
proof (cases "jget (d_Payload d) ''session_thread_id''")
  case None
  with assms show ?thesis
    by (auto simp: routeInterrupt_def below_def targeted_def primaryRoute_def list_all_iff)
next
  case (Some h)
  then obtain t where t: "loadSessionThreadForUpdate (strOf (Some h)) l = Inr t" "target = t_ID t" "w' = addTarget t w"
      "copies = []"
    using assms by (auto simp: routeInterrupt_def split: if_splits sum.splits)
  from t(1) load_id [OF t(1)] have "loadSessionThreadForUpdate (t_ID t) l = Inr t" by simp
  then show ?thesis
    unfolding t(2,3,4) by (auto simp: addTarget_def below_def targeted_def primaryRoute_def)
qed

lemma routeResolution_type: "routeResolution l p d i k = Inr (t, d') \<Longrightarrow> d_Type d' = d_Type d"
  by (auto simp: routeResolution_def Let_def split: option.splits if_splits)

lemma interrupt_no_resolution: "ResolutionReference EvUserInterrupt p = None"
  by (simp add: ResolutionReference_def event_type_defs)

lemma routeClientDraft_steps:
  assumes "routeClientDraft l primaryID d ro = Inr ro'"
  obtains target d1 threads target2 targets copies where
    "d_Type d1 = d_Type d" "d_Type d = EvUserInterrupt \<Longrightarrow> target = primaryID"
    "(if d_Type d = EvUserInterrupt then routeInterrupt l target d1 (ro_Targets ro)
      else Inr (target, ro_Targets ro, [])) = Inr (target2, targets, copies)"
    "ro_Routed ro' = ro_Routed ro @ \<lparr>rd_Draft = d1, rd_ThreadID = target2, rd_Submitted = True\<rparr> # copies"
    "ro_Targets ro' = targets" "ro_ResolutionThreads ro' = threads"
proof -
  let ?t = "if d_Type d = EvSystemMessage \<and> d_ID d \<noteq> [] \<and> d_ID d = ro_CompanionEventID ro
                    then ro_CompanionThreadID ro else primaryID"
  have sys: "d_Type d = EvUserInterrupt \<Longrightarrow> ?t = primaryID" by (simp add: event_type_defs)
  from assms obtain target d1 threads target2 targets copies where
      res: "(case ResolutionReference (d_Type d) (d_Payload d) of
             None \<Rightarrow> Inr (?t, d, ro_ResolutionThreads ro)
           | Some (referencedID, kind) \<Rightarrow>
               bindE (routeResolution l primaryID d referencedID kind) (\<lambda>(t, d').
                 Inr (t, d', t # ro_ResolutionThreads ro))) = Inr (target, d1, threads)"
    and int: "(if d_Type d1 = EvUserInterrupt then routeInterrupt l target d1 (ro_Targets ro)
                else Inr (target, ro_Targets ro, [])) = Inr (target2, targets, copies)"
    and ro': "ro_Routed ro' = ro_Routed ro @ \<lparr>rd_Draft = d1, rd_ThreadID = target2, rd_Submitted = True\<rparr> # copies"
      "ro_Targets ro' = targets" "ro_ResolutionThreads ro' = threads"
    unfolding routeClientDraft_def Let_def bindE_Inr_iff split_paired_Ex prod.case by auto
  have ty: "d_Type d1 = d_Type d"
    using res by (auto simp: bindE_Inr_iff split: option.splits dest: routeResolution_type)
  have "d_Type d = EvUserInterrupt \<Longrightarrow> target = primaryID"
    using res sys interrupt_no_resolution by auto
  with ty int ro' show thesis by (intro that) auto
qed

lemma routeClientDraft_targets:
  assumes "routeClientDraft l primaryID d ro = Inr ro'" "list_all (targeted l primaryID (ro_Targets ro)) (ro_Routed ro)"
  shows "list_all (targeted l primaryID (ro_Targets ro')) (ro_Routed ro')"
proof (rule routeClientDraft_steps [OF assms(1)], goal_cases)
  case (1 target d1 threads target2 targets copies)
  show ?case
  proof (cases "d_Type d = EvUserInterrupt")
    case False
    with 1 assms(2) show ?thesis by (auto simp: targeted_def)
  next
    case True
    with 1(2,3) have "routeInterrupt l primaryID d1 (ro_Targets ro) = Inr (target2, targets, copies)" by simp
    from routeInterrupt_targets [OF this, of d1 True] True 1(1)
    have "below (ro_Targets ro) targets" "targeted l primaryID targets \<lparr>rd_Draft = d1, rd_ThreadID = target2, rd_Submitted = True\<rparr>"
      "list_all (targeted l primaryID targets) copies" by auto
    with assms(2) 1(4,5) show ?thesis by (auto simp: list_all_iff intro: targeted_below)
  qed
qed

lemma routed_targets:
  "routeClientDraftsLocked l primaryID ds ro = Inr ro' \<Longrightarrow> list_all (targeted l primaryID (ro_Targets ro)) (ro_Routed ro) \<Longrightarrow>
     list_all (targeted l primaryID (ro_Targets ro')) (ro_Routed ro')"
proof (induction ds arbitrary: ro)
  case (Cons d ds)
  then obtain ro1 where "routeClientDraft l primaryID d ro = Inr ro1" "routeClientDraftsLocked l primaryID ds ro1 = Inr ro'"
    by (auto simp: bindE_Inr_iff)
  with Cons routeClientDraft_targets show ?case by blast
qed simp

section \<open>Appended events\<close>

lemma append_events:
  assumes "appendThreadDrafts r th ds n turn l = Inr (es, m, l')"
  shows "list_all2 (\<lambda>d e. e_Type e = d_Type d \<and> e_ThreadID e = th) ds es" "n \<le> m"
    "list_all (\<lambda>e. e_Sequence e \<le> m) es" "lg_Pending l' = lg_Pending l" "lg_Outbox l' = lg_Outbox l"
    "lg_Threads l' = lg_Threads l" "lg_Session l' = lg_Session l"
proof -
  from append_effect [OF assms] have m: "m = n + int (length ds)"
    and a: "appended r th ds n turn l es l'" by auto
  have all: "list_all2 (\<lambda>d e. e = newEvent r (s_ID (lg_Session l)) th (e_ID e) (e_Sequence e) turn d
          \<and> (d_ID d \<noteq> [] \<longrightarrow> e_ID e = d_ID d)) ds es"
    and sq: "map e_Sequence es = map (\<lambda>i. n + 1 + int i) [0..<length ds]" using a by (simp_all add: appended_def)
  show "list_all2 (\<lambda>d e. e_Type e = d_Type d \<and> e_ThreadID e = th) ds es"
    by (rule list_all2_mono [OF all]) (metis Event.select_convs(3,5) newEvent_def)
  show "n \<le> m" using m by simp
  have "set (map e_Sequence es) \<subseteq> {k. k \<le> m}" unfolding sq m by auto
  then show "list_all (\<lambda>e. e_Sequence e \<le> m) es" by (auto simp: list_all_iff)
  show "lg_Pending l' = lg_Pending l" "lg_Outbox l' = lg_Outbox l" "lg_Threads l' = lg_Threads l" "lg_Session l' = lg_Session l"
    using a by (auto simp: appended_def)
qed

lemma appendRouted_events:
  "appendRouted r items n l = Inr (es, sub, m, l') \<Longrightarrow>
     list_all2 (\<lambda>item e. e_Type e = d_Type (rd_Draft item) \<and> e_ThreadID e = rd_ThreadID item) items es \<and> n \<le> m
     \<and> list_all (\<lambda>e. e_Sequence e \<le> m) es"
proof (induction items arbitrary: n l es sub m l')
  case (Cons item items)
  then obtain es1 k l1 es2 sub2 where
    a: "appendThreadDrafts r (rd_ThreadID item) [rd_Draft item] n None l = Inr (es1, k, l1)"
    and b: "appendRouted r items k l1 = Inr (es2, sub2, m, l')" and es: "es = es1 @ es2"
    by (auto simp: bindE_Inr_iff simp del: appendThreadDrafts.simps)
  obtain e where "es1 = [e]" "e_Type e = d_Type (rd_Draft item)" "e_ThreadID e = rd_ThreadID item" "e_Sequence e \<le> k" "n \<le> k"
    using append_events [OF a] by (auto simp: list_all2_Cons1)
  with Cons.IH [OF b] show ?case unfolding es by (auto simp: list_all_iff)
qed simp

lemma wakeChildren_rows:
  "wakeResolvedChildren r primaryID ids n l = Inr (woken, es, m, l') \<Longrightarrow>
     n \<le> m \<and> list_all (\<lambda>e. e_Type e = EvSessionThreadStatusRunning) es \<and> lg_Pending l' = lg_Pending l
     \<and> s_ID (lg_Session l') = s_ID (lg_Session l)"
proof (induction ids arbitrary: n l woken es m l')
  case (Cons i ids)
  show ?case
  proof (cases "\<not> HasUnresolvedPendingActions i l \<or> HasUnclaimedPendingActions i l")
    case True
    then show ?thesis using Cons by simp
  next
    case False
    show ?thesis
    proof (rule wakeChildren_Cons [OF Cons.prems False], goal_cases)
      case (1 t es1 k l1 woken2 es2)
      have "n \<le> k \<and> list_all (\<lambda>e. e_Type e = EvSessionThreadStatusRunning) es1 \<and> lg_Pending l1 = lg_Pending l
        \<and> s_ID (lg_Session l1) = s_ID (lg_Session l)"
      proof (cases "t_Status t = StatusRunning")
        case True
        with 1(2) show ?thesis by (auto simp: startChild_def)
      next
        case False
        let ?t1 = "Thread_TransitionStatus t StatusRunning (rt_Now r)"
        from 1(2) False obtain l2 e1 k1 l3 e2 where p: "putSessionThreadTx ?t1 l = Inr l2"
          "appendThreadDrafts r (t_ID ?t1) [childRunningDraft ?t1] n None l2 = Inr (e1, k1, l3)"
          "appendThreadDrafts r primaryID [childRunningDraft ?t1] k1 None l3 = Inr (e2, k, l1)" "es1 = e1 @ e2"
          by (auto simp: startChild_def Let_def bindE_Inr_iff simp del: appendThreadDrafts.simps)
        have "lg_Pending l2 = lg_Pending l \<and> lg_Session l2 = lg_Session l"
          using p(1) by (auto simp: putSessionThreadTx_def split: if_splits)
        with append_events [OF p(2)] append_events [OF p(3)] p(4) show ?thesis
          by (auto simp: list_all2_Cons1 childRunningDraft_def)
      qed
      with Cons.IH [OF 1(3)] 1(5) show ?case by auto
    qed
  qed
qed simp

section \<open>Rows of the outbox\<close>

definition primaryCovered :: "string \<Rightarrow> int \<Rightarrow> outbox \<Rightarrow> bool" where
  "primaryCovered u n s \<longleftrightarrow> (case map_of (ob_Primary s) u of None \<Rightarrow> False | Some row \<Rightarrow> n \<le> or_MaxEventSeq row)"

definition threadCovered :: "string \<Rightarrow> string \<Rightarrow> int \<Rightarrow> outbox \<Rightarrow> bool" where
  "threadCovered u i n s \<longleftrightarrow> (case map_of (ob_Thread s) (u, i) of None \<Rightarrow> False | Some row \<Rightarrow> n \<le> or_MaxEventSeq row)"

lemma covered_upsert:
  "primaryCovered u n (UpsertOutbox u n now s)"
  "threadCovered u i n (UpsertThreadOutbox u i n now s)"
  "threadCovered u j k s \<Longrightarrow> threadCovered u j k (UpsertThreadOutbox u i n now s)"
  "primaryCovered u k (UpsertThreadOutbox v i n now s) = primaryCovered u k s"
  by (auto simp: primaryCovered_def threadCovered_def UpsertOutbox_def UpsertThreadOutbox_def raise_def
      freshThreadRow_def split: option.splits)

lemma covered_mono: "primaryCovered u n s \<Longrightarrow> k \<le> n \<Longrightarrow> primaryCovered u k s"
  "threadCovered u i n s \<Longrightarrow> k \<le> n \<Longrightarrow> threadCovered u i k s"
  by (auto simp: primaryCovered_def threadCovered_def split: option.splits)

lemma wakeThreads_keep:
  "threadCovered (s_ID s) i n (lg_Outbox l) \<Longrightarrow> threadCovered (s_ID s) i n (lg_Outbox (fold (wakeThread r s n) ids l))"
proof (induction ids arbitrary: l)
  case (Cons j ids)
  have "threadCovered (s_ID s) i n (lg_Outbox (wakeThread r s n j l))"
    using Cons.prems by (simp add: wakeThread_def covered_upsert(3))
  from Cons.IH [OF this] show ?case by simp
qed simp

lemma wakeThreads_covers:
  "i \<in> set ids \<Longrightarrow> threadCovered (s_ID s) i n (lg_Outbox (fold (wakeThread r s n) ids l))"
  "primaryCovered u k (lg_Outbox (fold (wakeThread r s n) ids l)) = primaryCovered u k (lg_Outbox l)"
proof -
  show "i \<in> set ids \<Longrightarrow> threadCovered (s_ID s) i n (lg_Outbox (fold (wakeThread r s n) ids l))"
  proof (induction ids arbitrary: l)
    case (Cons j ids)
    have "threadCovered (s_ID s) i n (lg_Outbox (wakeThread r s n i l))" by (simp add: wakeThread_def covered_upsert(2))
    from wakeThreads_keep [OF this] Cons show ?case by auto
  qed simp
  show "primaryCovered u k (lg_Outbox (fold (wakeThread r s n) ids l)) = primaryCovered u k (lg_Outbox l)"
    by (induction ids arbitrary: l) (simp_all add: wakeThread_def covered_upsert)
qed

lemma wakeThreads_rows:
  "lg_Session (fold (wakeThread r s n) ids l) = lg_Session l" "lg_Pending (fold (wakeThread r s n) ids l) = lg_Pending l"
  by (induction ids arbitrary: l) (simp_all add: wakeThread_def)

lemma putRuntime_rows:
  "putRuntimeProjection s p l = Inr l' \<Longrightarrow> lg_Session l' = s \<and> lg_Pending l' = lg_Pending l \<and> lg_Outbox l' = lg_Outbox l"
  by (auto simp: putRuntimeProjection_def putProjection_def putPrimarySessionThreadProjection_def bindE_Inr_iff
      putSessionOnly_def putPrimaryThreadProjection_def split: option.splits)

lemma maybeEnqueue_rows:
  "(if b then enqueueWork r s seq l else Inr l) = Inr l' \<Longrightarrow>
     lg_Session l' = lg_Session l \<and> lg_Pending l' = lg_Pending l \<and> lg_Outbox l' = lg_Outbox l"
  by (auto simp: enqueueWork_def NewID_eq bindE_Inr_iff Let_def split: if_splits)

lemma wakeAdmitted_covers:
  assumes "wakeAdmitted r session primaryThread runnable childRuns hasInterrupt targets wake events submitted seq l = Inr (a, l')"
  shows "lg_Pending l' = lg_Pending l"
    and "set (am_Events a) \<subseteq> set events \<union> {e. e_Type e = EvSessionStatusRunning}"
    and "runnable \<or> childRuns \<or> hasInterrupt \<Longrightarrow> runnable \<or> iw_Primary targets \<Longrightarrow>
      primaryCovered (s_ID (lg_Session l')) seq (lg_Outbox l')"
    and "runnable \<or> childRuns \<or> hasInterrupt \<Longrightarrow> i \<in> set wake \<Longrightarrow> threadCovered (s_ID (lg_Session l')) i seq (lg_Outbox l')"
    and "runnable \<Longrightarrow> s_Status (lg_Session l') \<noteq> StatusIdle"
    and "runnable \<or> childRuns \<or> hasInterrupt \<Longrightarrow> am_PrimaryEnqueued a = (runnable \<or> iw_Primary targets)"
proof -
  have "lg_Pending l' = lg_Pending l \<and> set (am_Events a) \<subseteq> set events \<union> {e. e_Type e = EvSessionStatusRunning}
    \<and> (runnable \<or> childRuns \<or> hasInterrupt \<longrightarrow> runnable \<or> iw_Primary targets \<longrightarrow>
      primaryCovered (s_ID (lg_Session l')) seq (lg_Outbox l'))
    \<and> (runnable \<or> childRuns \<or> hasInterrupt \<longrightarrow> i \<in> set wake \<longrightarrow> threadCovered (s_ID (lg_Session l')) i seq (lg_Outbox l'))
    \<and> (runnable \<longrightarrow> s_Status (lg_Session l') \<noteq> StatusIdle)
    \<and> (runnable \<or> childRuns \<or> hasInterrupt \<longrightarrow> am_PrimaryEnqueued a = (runnable \<or> iw_Primary targets))"
    using assms
  proof (cases rule: wakeAdmitted_cases)
    case quiet
    then show ?thesis by (auto dest: putRuntime_rows)
  next
    case (active session1 thread1 session2 statusEvents seq2 l1 l2)
    let ?woken = "fold (wakeThread r session2 seq2) wake (if runnable \<or> iw_Primary targets then wakePrimary r session2 seq2 l2 else l2)"
    have st: "seq \<le> seq2 \<and> lg_Pending l1 = lg_Pending l \<and> list_all (\<lambda>e. e_Type e = EvSessionStatusRunning) statusEvents
      \<and> (runnable \<longrightarrow> s_Status session2 \<noteq> StatusIdle)"
      using active(3)
    proof (cases "(runnable \<or> childRuns) \<and> s_Status session1 = StatusIdle")
      case True
      with active(3) obtain th where "appendThreadDrafts r th [\<lparr>d_ID = [], d_Type = EvSessionStatusRunning, d_Payload = []\<rparr>]
          seq None l = Inr (statusEvents, seq2, l1)" "session2 = TransitionStatus session1 StatusRunning (rt_Now r)"
        by (auto simp: bindE_Inr_iff appendDrafts_def simp del: appendThreadDrafts.simps)
      with append_events [OF this(1)] show ?thesis by (auto simp: list_all2_Cons1 TransitionStatus_def Let_def)
    qed auto
    note p = putRuntime_rows [OF active(4)] and q = maybeEnqueue_rows [OF active(5)]
    have l2: "lg_Session ?woken = session2" "lg_Pending ?woken = lg_Pending l1"
      using p by (simp_all add: wakeThreads_rows wakePrimary_def)
    have "primaryCovered (s_ID session2) seq2 (lg_Outbox ?woken)" if "runnable \<or> iw_Primary targets"
      using that by (simp add: wakeThreads_covers(2) wakePrimary_def covered_upsert)
    moreover have "threadCovered (s_ID session2) i seq2 (lg_Outbox ?woken)" if "i \<in> set wake"
      using that by (rule wakeThreads_covers(1))
    ultimately show ?thesis
      using st q l2 active(6) covered_mono by (auto simp: list_all_iff)
  qed
  then show "lg_Pending l' = lg_Pending l"
    and "set (am_Events a) \<subseteq> set events \<union> {e. e_Type e = EvSessionStatusRunning}"
    and "runnable \<or> childRuns \<or> hasInterrupt \<Longrightarrow> runnable \<or> iw_Primary targets \<Longrightarrow>
      primaryCovered (s_ID (lg_Session l')) seq (lg_Outbox l')"
    and "runnable \<or> childRuns \<or> hasInterrupt \<Longrightarrow> i \<in> set wake \<Longrightarrow> threadCovered (s_ID (lg_Session l')) i seq (lg_Outbox l')"
    and "runnable \<Longrightarrow> s_Status (lg_Session l') \<noteq> StatusIdle"
    and "runnable \<or> childRuns \<or> hasInterrupt \<Longrightarrow> am_PrimaryEnqueued a = (runnable \<or> iw_Primary targets)" by blast+
qed

section \<open>Properties\<close>

definition sampleDraft :: EventDraft where
  "sampleDraft = \<lparr>d_ID = [], d_Type = EvUserMessage, d_Payload = []\<rparr>"

lemma sampleAdmission_eval:
  "case AdmitEvents sampleRuntime [sampleDraft] (sampleLedger [] []) of Inl _ \<Rightarrow> False
   | Inr (a, l') \<Rightarrow> map e_Type (am_Events a) = [EvUserMessage, EvSessionStatusRunning] \<and> lg_Pending l' = []"
  by code_simp

text \<open>
  C16. Admitted work is woken: an interrupt that an admission appends gets, in the same transaction, a durable
  wakeup of the Workflow that owns its Thread with at least its sequence number; and a user message or
  outcome, unless its primary Thread waits for client actions, gets the wakeup of the Session and leaves
  the Session out of idle.
\<close>

theorem admitted_work_is_woken:
  assumes "AdmitEvents r drafts l = Inr (a, l')" "e \<in> set (am_Events a)" "GetPrimarySessionThreadID l = Inr th"
  shows "(e_Type e \<in> {EvUserMessage, EvUserDefineOutcome} \<and> \<not> HasUnresolvedPendingActions th l'
       \<longrightarrow> s_Status (lg_Session l') \<noteq> StatusIdle \<and> primaryCovered (s_ID (lg_Session l')) (e_Sequence e) (lg_Outbox l'))
    \<and> (e_Type e = EvUserInterrupt
       \<longrightarrow> threadCovered (s_ID (lg_Session l')) (e_ThreadID e) (e_Sequence e) (lg_Outbox l')
         \<or> primaryRoute l th (e_ThreadID e) \<and> primaryCovered (s_ID (lg_Session l')) (e_Sequence e) (lg_Outbox l'))"
  using assms(1)
proof (cases rule: AdmitEvents_cases)
  case (stopped k)
  then have "am_Events a = []" by (metis noAdmission_def Admission.select_convs(2))
  with assms(2) show ?thesis by simp
next
  case (routed session primaryThread prepared k primaryID)
  let ?l = "l\<lparr>lg_Drawn := k\<rparr>" and ?u = "s_ID (lg_Session l')"
  have th: "primaryID = th" using routed(1) assms(3) by simp
  show ?thesis
  proof (rule admitRouted_steps [OF routed(2)], goal_cases)
    case (1 ro events submitted seq1 l1 admitted l2 gated ready woken childEvents seq3 l3)
    note w = wakeAdmitted_covers [OF 1(7)]
    have items: "list_all2 (\<lambda>item e. e_Type e = d_Type (rd_Draft item) \<and> e_ThreadID e = rd_ThreadID item) (ro_Routed ro) events"
      and seqs: "list_all (\<lambda>e. e_Sequence e \<le> seq1) events" using appendRouted_events [OF 1(2)] by auto
    note kids = wakeChildren_rows [OF 1(6)]
    have new: "e \<in> set events" if "e_Type e \<in> {EvUserMessage, EvUserDefineOutcome, EvUserInterrupt}"
    proof -
      have "e \<in> set events \<union> set childEvents \<union> {e. e_Type e = EvSessionStatusRunning}" using w(2) assms(2) by auto
      with kids that show ?thesis by (auto simp: list_all_iff event_type_defs)
    qed
    have seq: "e_Sequence e \<le> seq3" if "e \<in> set events" using that seqs kids by (auto simp: list_all_iff)
    have gated: "gated = HasUnresolvedPendingActions th l'"
      using 1(4) w(1) kids th by (simp add: HasUnresolvedPendingActions_def)
    show ?case
    proof (intro conjI impI)
      assume "e_Type e \<in> {EvUserMessage, EvUserDefineOutcome} \<and> \<not> HasUnresolvedPendingActions th l'"
      then have e: "e \<in> set events" "hasType EvUserMessage events \<or> hasType EvUserDefineOutcome events" "\<not> gated"
        using new gated by (auto simp: hasType_def list_ex_iff)
      then show "s_Status (lg_Session l') \<noteq> StatusIdle" using w(5) by blast
      show "primaryCovered ?u (e_Sequence e) (lg_Outbox l')"
        by (rule covered_mono(1) [OF w(3)]) (use e seq in auto)
    next
      assume i: "e_Type e = EvUserInterrupt"
      then have e: "e \<in> set events" "hasType EvUserInterrupt events" using new by (auto simp: hasType_def list_ex_iff)
      have "list_all (targeted ?l th (ro_Targets ro)) (ro_Routed ro)"
        using routed_targets [OF 1(1)] th by (simp add: noRouting_def)
      moreover obtain item where "item \<in> set (ro_Routed ro)" "e_Type e = d_Type (rd_Draft item)"
        "e_ThreadID e = rd_ThreadID item"
      proof -
        obtain j where j: "j < length events" "events ! j = e" using e(1) by (auto simp: in_set_conv_nth)
        with items have "j < length (ro_Routed ro)" "e_Type e = d_Type (rd_Draft (ro_Routed ro ! j))
            \<and> e_ThreadID e = rd_ThreadID (ro_Routed ro ! j)" by (auto simp: list_all2_conv_all_nth)
        with that [of "ro_Routed ro ! j"] show thesis by simp
      qed
      ultimately consider "e_ThreadID e \<in> set (iw_Children (ro_Targets ro))"
        | "iw_Primary (ro_Targets ro)" "primaryRoute ?l th (e_ThreadID e)"
        using i by (auto simp: list_all_iff targeted_def)
      then show "threadCovered ?u (e_ThreadID e) (e_Sequence e) (lg_Outbox l')
         \<or> primaryRoute l th (e_ThreadID e) \<and> primaryCovered ?u (e_Sequence e) (lg_Outbox l')"
      proof cases
        case 1
        have "threadCovered ?u (e_ThreadID e) (e_Sequence e) (lg_Outbox l')"
          by (rule covered_mono(2) [OF w(4)]) (use 1 e seq in \<open>auto simp: sortedIDs_def\<close>)
        then show ?thesis ..
      next
        case 2
        have "primaryCovered ?u (e_Sequence e) (lg_Outbox l')"
          by (rule covered_mono(1) [OF w(3)]) (use 2 e seq in auto)
        with 2 show ?thesis by (simp add: primaryRoute_def loadSessionThreadForUpdate_def)
      qed
    qed
  qed
qed

theorem admitted_work_is_woken_witness:
  "\<exists>a l' e. AdmitEvents sampleRuntime [sampleDraft] (sampleLedger [] []) = Inr (a, l') \<and> e \<in> set (am_Events a)
     \<and> e_Type e = EvUserMessage \<and> s_Status (lg_Session l') \<noteq> StatusIdle
     \<and> primaryCovered (s_ID (lg_Session l')) (e_Sequence e) (lg_Outbox l')"
proof -
  obtain a l' where a: "AdmitEvents sampleRuntime [sampleDraft] (sampleLedger [] []) = Inr (a, l')"
    "map e_Type (am_Events a) = [EvUserMessage, EvSessionStatusRunning]" "lg_Pending l' = []"
    using sampleAdmission_eval by (auto split: sum.splits)
  then obtain e where e: "e \<in> set (am_Events a)" "e_Type e = EvUserMessage" by (cases "am_Events a") auto
  have "GetPrimarySessionThreadID (sampleLedger [] []) = Inr ''main''"
    by (simp add: GetPrimarySessionThreadID_def sampleLedger_def NewPrimarySessionThread_def
        ApplyPrimarySessionProjection_def Let_def)
  from admitted_work_is_woken [OF a(1) e(1) this] a e show ?thesis
    by (auto simp: HasUnresolvedPendingActions_def)
qed

end
