(* ===== verification/Drain.thy ===== *)
theory Drain
  imports Progress
begin

text \<open>
  The durable loops that drive a Session and a child Thread (\<open>internal/temporal/session_workflow.go\<close>,
  \<open>session_thread_workflow.go\<close>, \<open>interrupt_workflow.go\<close>) and the reads they make (\<open>activities.go\<close>). An activity is a
  function on the world, which it may change, as other transactions run while it does; a Workflow's own
  state is its cursor and how many turns it drove. \<open>GetVersion\<close> marks of older histories are arguments.
\<close>

section \<open>References\<close>

datatype TurnDisposition = TurnCompleted | TurnParked | TurnTerminated

record EventRef =
  er_ID :: string
  er_Seq :: int
  er_Type :: string

record PendingActionRef =
  pr_ActionEventID :: string
  pr_ActionEventSeq :: int
  pr_Kind :: PendingActionKind
  pr_ResolutionEventID :: string
  pr_ResolutionEventSeq :: int

definition eventRef :: "Event \<Rightarrow> EventRef" where
  "eventRef e = \<lparr>er_ID = e_ID e, er_Seq = e_Sequence e, er_Type = e_Type e\<rparr>"

section \<open>Activities that read the ledger\<close>

definition loadBatchLimit :: nat where "loadBatchLimit = 100"

definition ThreadEventsAfter :: "string \<Rightarrow> int \<Rightarrow> int \<Rightarrow> ledger \<Rightarrow> Event list" where
  "ThreadEventsAfter threadID cursor limit l =
     take (if limit \<le> 0 then 100 else nat limit)
       (sort_key e_Sequence (filter (\<lambda>e. e_ThreadID e = threadID \<and> cursor < e_Sequence e) (lg_Events l)))"

definition EventsAfter :: "int \<Rightarrow> int \<Rightarrow> ledger \<Rightarrow> Event list" where
  "EventsAfter cursor limit l =
     (case GetPrimarySessionThreadID l of
        Inl _ \<Rightarrow> []
      | Inr threadID \<Rightarrow> ThreadEventsAfter threadID cursor limit l)"

definition LoadEvents :: "string \<Rightarrow> int \<Rightarrow> int \<Rightarrow> ledger \<Rightarrow> EventRef list" where
  "LoadEvents threadID cursor limit0 l =
     (let limit = (if limit0 \<le> 0 then int loadBatchLimit else limit0)
      in map eventRef (if threadID \<noteq> [] then ThreadEventsAfter threadID cursor limit l else EventsAfter cursor limit l))"

definition LoadInterrupt :: "string \<Rightarrow> int \<Rightarrow> ledger \<Rightarrow> EventRef option" where
  "LoadInterrupt threadID afterSeq l =
     map_option eventRef (if threadID = [] then FirstUnprocessedInterruptAfter afterSeq l
       else FirstUnprocessedThreadInterruptAfter threadID afterSeq l)"

definition UnresolvedPendingActions :: "ledger \<Rightarrow> storeError + PendingAction list" where
  "UnresolvedPendingActions l =
     (case GetPrimarySessionThreadID l of
        Inl _ \<Rightarrow> Inl (Refused (NotFound ''primary session Thread not found''))
      | Inr threadID \<Rightarrow> Inr (ListUnresolvedPendingActions threadID l))"

definition sourceEvent :: "string \<Rightarrow> ledger \<Rightarrow> storeError + Event" where
  "sourceEvent i l = (case GetEvent i l of None \<Rightarrow> Inl (Refused (NotFound ''event not found'')) | Some e \<Rightarrow> Inr e)"

definition pendingRef :: "ledger \<Rightarrow> PendingAction \<Rightarrow> storeError + PendingActionRef" where
  "pendingRef l a =
     bindE (sourceEvent (pa_ActionEventID a) l) (\<lambda>action.
       (let ref = \<lparr>pr_ActionEventID = pa_ActionEventID a, pr_ActionEventSeq = e_Sequence action, pr_Kind = pa_Kind a,
              pr_ResolutionEventID = [], pr_ResolutionEventSeq = 0\<rparr>
        in case pa_ResolvingEventID a of
             None \<Rightarrow> Inr ref
           | Some i \<Rightarrow> bindE (sourceEvent i l) (\<lambda>resolution.
               Inr (ref\<lparr>pr_ResolutionEventID := e_ID resolution, pr_ResolutionEventSeq := e_Sequence resolution\<rparr>))))"

definition LoadPendingActions :: "string \<Rightarrow> ledger \<Rightarrow> storeError + PendingActionRef list" where
  "LoadPendingActions threadID l =
     bindE (if threadID \<noteq> [] then Inr (ListUnresolvedPendingActions threadID l) else UnresolvedPendingActions l) (\<lambda>pending.
     bindE (mapE (pendingRef l) pending) (\<lambda>refs.
       Inr (sort_key (\<lambda>r. QueueKey (pr_ActionEventSeq r) (pr_ActionEventID r)) refs)))"

section \<open>Activities of a Workflow\<close>

record 'w activities =
  ac_LoadPendingActions :: "'w \<Rightarrow> storeError + PendingActionRef list \<times> 'w"
  ac_LoadEvents :: "int \<Rightarrow> 'w \<Rightarrow> storeError + EventRef list \<times> 'w"
  ac_LoadInterrupt :: "int \<Rightarrow> 'w \<Rightarrow> storeError + EventRef option \<times> 'w"
  ac_Acknowledge :: "string \<Rightarrow> 'w \<Rightarrow> storeError + 'w"
  ac_RunTurn :: "string \<Rightarrow> string list \<Rightarrow> int \<Rightarrow> 'w \<Rightarrow> storeError + TurnDisposition \<times> 'w"

record drainState =
  dr_Cursor :: int
  dr_Turns :: nat

datatype drained = Drained | Parked | Terminated

text \<open>
  The choice over a barrier: \<open>None\<close> while an action is unclaimed, else the claims in the order of the
  actions and the latest of them, the trigger of the resumed turn.
\<close>

fun selectBarrier :: "PendingActionRef list \<Rightarrow> string list \<Rightarrow> string \<times> int \<Rightarrow> (string list \<times> string \<times> int) option" where
  "selectBarrier [] ids (i, seq) = Some (ids, i, seq)"
| "selectBarrier (a # as) ids (i, seq) =
     (if pr_ResolutionEventID a = [] then None
      else selectBarrier as (ids @ [pr_ResolutionEventID a])
        (if seq < pr_ResolutionEventSeq a \<or> pr_ResolutionEventSeq a = seq \<and> i < pr_ResolutionEventID a
         then (pr_ResolutionEventID a, pr_ResolutionEventSeq a) else (i, seq)))"

text \<open>An interrupt that was received before the barrier was complete is acknowledged without moving the cursor.\<close>

definition preemptBarrier ::
    "'w activities \<Rightarrow> bool \<Rightarrow> int \<Rightarrow> (string list \<times> string \<times> int) option \<Rightarrow> 'w \<Rightarrow> storeError + bool \<times> 'w" where
  "preemptBarrier acts interruptsEnabled cursor picked w =
     (if \<not> interruptsEnabled then Inr (False, w)
      else bindE (ac_LoadInterrupt acts cursor w) (\<lambda>(found, w1). case found of
          None \<Rightarrow> Inr (False, w1)
        | Some interrupt \<Rightarrow>
            if (case picked of None \<Rightarrow> True | Some (_, _, seq) \<Rightarrow> er_Seq interrupt < seq)
            then bindE (ac_Acknowledge acts (er_ID interrupt) w1) (\<lambda>w2. Inr (True, w2))
            else Inr (False, w1)))"

section \<open>The Session's loop\<close>

definition drivesTurn :: "string \<Rightarrow> bool" where
  "drivesTurn t \<longleftrightarrow> t \<in> {EvUserMessage, EvUserDefineOutcome, EvAgentThreadMessageReceived}"

fun consumeEvents ::
    "'w activities \<Rightarrow> EventRef list \<Rightarrow> drainState \<Rightarrow> 'w \<Rightarrow> storeError + drained option \<times> drainState \<times> 'w" where
  "consumeEvents acts [] st w = Inr (None, st, w)"
| "consumeEvents acts (e # es) st w =
     (if er_Seq e \<le> dr_Cursor st then consumeEvents acts es st w
      else if drivesTurn (er_Type e)
      then bindE (ac_RunTurn acts (er_ID e) [] (er_Seq e) w) (\<lambda>(d, w1).
        (let st1 = \<lparr>dr_Cursor = er_Seq e, dr_Turns = dr_Turns st + 1\<rparr>
         in case d of TurnTerminated \<Rightarrow> Inr (Some Terminated, st1, w1)
                    | TurnParked \<Rightarrow> Inr (Some Parked, st1, w1)
                    | TurnCompleted \<Rightarrow> consumeEvents acts es st1 w1))
      else if er_Type e = EvUserInterrupt
      then bindE (ac_Acknowledge acts (er_ID e) w) (\<lambda>w1. consumeEvents acts es (st\<lparr>dr_Cursor := er_Seq e\<rparr>) w1)
      else consumeEvents acts es (st\<lparr>dr_Cursor := er_Seq e\<rparr>) w)"

definition drainRound ::
    "'w activities \<Rightarrow> bool \<Rightarrow> drainState \<Rightarrow> 'w \<Rightarrow> storeError + drained option \<times> drainState \<times> 'w" where
  "drainRound acts interruptsEnabled st w =
     bindE (ac_LoadPendingActions acts w) (\<lambda>(actions, w1).
       if actions \<noteq> []
       then (let picked = selectBarrier actions [] ([], 0)
             in bindE (preemptBarrier acts interruptsEnabled (dr_Cursor st) picked w1) (\<lambda>(again, w2).
                  if again then Inr (None, st, w2)
                  else (case picked of
                      None \<Rightarrow> Inr (Some Parked, st, w2)
                    | Some (ids, trigger, seq) \<Rightarrow>
                        bindE (ac_RunTurn acts trigger ids seq w2) (\<lambda>(d, w3).
                          (let st1 = st\<lparr>dr_Turns := dr_Turns st + 1\<rparr>
                           in case d of TurnTerminated \<Rightarrow> Inr (Some Terminated, st1, w3)
                                      | TurnParked \<Rightarrow> Inr (Some Parked, st1, w3)
                                      | TurnCompleted \<Rightarrow> Inr (None, st1, w3))))))
       else bindE (ac_LoadEvents acts (dr_Cursor st) w1) (\<lambda>(events, w2).
         if events = [] then Inr (Some Drained, st, w2) else consumeEvents acts events st w2))"

text \<open>The loop may run forever, while its turns keep bringing new work: then it has no value.\<close>

partial_function (option) drain ::
    "'w activities \<Rightarrow> bool \<Rightarrow> drainState \<Rightarrow> 'w \<Rightarrow> (storeError + drained \<times> drainState \<times> 'w) option" where
  "drain acts interruptsEnabled st w =
     (case drainRound acts interruptsEnabled st w of
        Inl e \<Rightarrow> Some (Inl e)
      | Inr (stop, st1, w1) \<Rightarrow> (case stop of
          None \<Rightarrow> drain acts interruptsEnabled st1 w1
        | Some how \<Rightarrow> Some (Inr (how, st1, w1))))"

section \<open>A child's loop\<close>

definition threadDrainBoundary :: "TurnDisposition \<Rightarrow> bool \<Rightarrow> bool \<times> bool" where
  "threadDrainBoundary disposition stopOnPark =
     (case disposition of
        TurnTerminated \<Rightarrow> (True, True)
      | TurnParked \<Rightarrow> (stopOnPark, False)
      | TurnCompleted \<Rightarrow> (False, False))"

text \<open>The marks of a child's Workflow: pending-action routing, the boundary after a parked message turn, interrupts.\<close>

record threadVersions =
  tv_PendingActionRouting :: bool
  tv_ParkedMessageDrainBoundary :: bool
  tv_Interrupts :: bool

fun consumeThreadEvents ::
    "'w activities \<Rightarrow> threadVersions \<Rightarrow> EventRef list \<Rightarrow> drainState \<Rightarrow> 'w \<Rightarrow> storeError + bool option \<times> drainState \<times> 'w" where
  "consumeThreadEvents acts v [] st w = Inr (None, st, w)"
| "consumeThreadEvents acts v (e # es) st w =
     (if er_Seq e \<le> dr_Cursor st then consumeThreadEvents acts v es st w
      else bindE (if er_Type e = EvAgentThreadMessageReceived
                  then bindE (ac_RunTurn acts (er_ID e) [] (er_Seq e) w) (\<lambda>(d, w1).
                    Inr (threadDrainBoundary d (tv_ParkedMessageDrainBoundary v), dr_Turns st + 1, w1))
                  else Inr ((False, False), dr_Turns st, w)) (\<lambda>((stop, terminated), turns, w1).
        (let st1 = \<lparr>dr_Cursor = er_Seq e, dr_Turns = turns\<rparr>
         in if stop then Inr (Some terminated, st1, w1)
            else bindE (if er_Type e = EvUserInterrupt \<and> tv_Interrupts v then ac_Acknowledge acts (er_ID e) w1 else Inr w1)
                   (consumeThreadEvents acts v es st1))))"

definition threadDrainRound ::
    "'w activities \<Rightarrow> threadVersions \<Rightarrow> drainState \<Rightarrow> 'w \<Rightarrow> storeError + bool option \<times> drainState \<times> 'w" where
  "threadDrainRound acts v st w =
     bindE (if tv_PendingActionRouting v then ac_LoadPendingActions acts w else Inr ([], w)) (\<lambda>(actions, w1).
       if actions \<noteq> []
       then (let picked = selectBarrier actions [] ([], 0)
             in bindE (preemptBarrier acts (tv_Interrupts v) (dr_Cursor st) picked w1) (\<lambda>(again, w2).
                  if again then Inr (None, st, w2)
                  else (case picked of
                      None \<Rightarrow> Inr (Some False, st, w2)
                    | Some (ids, trigger, seq) \<Rightarrow>
                        bindE (ac_RunTurn acts trigger ids seq w2) (\<lambda>(d, w3).
                          (let st1 = st\<lparr>dr_Turns := dr_Turns st + 1\<rparr>;
                               (stop, terminated) = threadDrainBoundary d True
                           in Inr (if stop then Some terminated else None, st1, w3))))))
       else bindE (ac_LoadEvents acts (dr_Cursor st) w1) (\<lambda>(events, w2).
         if events = [] then Inr (Some False, st, w2) else consumeThreadEvents acts v events st w2))"

partial_function (option) threadDrain ::
    "'w activities \<Rightarrow> threadVersions \<Rightarrow> drainState \<Rightarrow> 'w \<Rightarrow> (storeError + bool \<times> drainState \<times> 'w) option" where
  "threadDrain acts v st w =
     (case threadDrainRound acts v st w of
        Inl e \<Rightarrow> Some (Inl e)
      | Inr (stop, st1, w1) \<Rightarrow> (case stop of
          None \<Rightarrow> threadDrain acts v st1 w1
        | Some terminated \<Rightarrow> Some (Inr (terminated, st1, w1))))"

section \<open>The life of a Workflow\<close>

text \<open>
  One pass of the outer loop. Whether signals were buffered before the drain and arrived during it is up to
  the environment, as is Temporal's suggestion to start a new history; the pass ends with a failure, the
  end of the Workflow, another pass, a new history that keeps only the cursor, or a wait for a signal.
\<close>

definition continueAsNewThreshold :: nat where "continueAsNewThreshold = 500"

datatype passEnd = Failed storeError | Closed | Again | ContinueAsNew int | Wait

definition afterDrain :: "bool \<Rightarrow> bool \<Rightarrow> bool \<Rightarrow> nat \<Rightarrow> drainState \<Rightarrow> passEnd" where
  "afterDrain terminated signalled suggested threshold st =
     (if terminated then Closed
      else if signalled then Again
      else if threshold \<le> dr_Turns st \<or> suggested then ContinueAsNew (dr_Cursor st)
      else Wait)"

definition sessionPass ::
    "'w activities \<Rightarrow> bool \<Rightarrow> nat \<Rightarrow> bool \<Rightarrow> bool \<Rightarrow> bool \<Rightarrow> drainState \<Rightarrow> 'w \<Rightarrow> (passEnd \<times> drainState \<times> 'w) option" where
  "sessionPass acts interruptsEnabled threshold requested signalled suggested st w =
     (if \<not> requested then Some (afterDrain False signalled suggested threshold st, st, w)
      else (case drain acts interruptsEnabled st w of
          None \<Rightarrow> None
        | Some (Inl e) \<Rightarrow> Some (Failed e, st, w)
        | Some (Inr (how, st1, w1)) \<Rightarrow> Some (afterDrain (how = Terminated) signalled suggested threshold st1, st1, w1)))"

definition threadPass ::
    "'w activities \<Rightarrow> threadVersions \<Rightarrow> nat \<Rightarrow> bool \<Rightarrow> bool \<Rightarrow> bool \<Rightarrow> drainState \<Rightarrow> 'w \<Rightarrow> (passEnd \<times> drainState \<times> 'w) option" where
  "threadPass acts v threshold requested signalled suggested st w =
     (if \<not> requested then Some (afterDrain False signalled suggested threshold st, st, w)
      else (case threadDrain acts v st w of
          None \<Rightarrow> None
        | Some (Inl e) \<Rightarrow> Some (Failed e, st, w)
        | Some (Inr (terminated, st1, w1)) \<Rightarrow> Some (afterDrain terminated signalled suggested threshold st1, st1, w1)))"

section \<open>Activities on the store\<close>

text \<open>What a completion tells the Workflow, and the completion that acknowledges an interrupt no turn is left to see.\<close>

definition completionStatus :: "bool \<Rightarrow> TurnCompletion \<Rightarrow> Status" where
  "completionStatus isChild c =
     (if isChild then (case tc_ThreadStatus c of None \<Rightarrow> s_Status (tc_Session c) | Some s \<Rightarrow> s)
      else s_Status (tc_Session c))"

definition CompleteTurnActivity ::
    "bool \<Rightarrow> runtime \<Rightarrow> string \<Rightarrow> turnOutput \<Rightarrow> ledger \<Rightarrow> storeError + TurnDisposition \<times> ledger" where
  "CompleteTurnActivity isChild r threadID t l =
     bindE (if isChild then CompleteThreadWorkflowTurn r threadID t l
            else CompleteWorkflowTurnWithTranscriptAndUsage r t l) (\<lambda>(c, l1).
       Inr (if completionStatus isChild c = StatusTerminated then TurnTerminated
            else if tc_Parked c then TurnParked
            else TurnCompleted, l1))"

text \<open>The usage of a turn whose requests were accounted as they ran is not counted again.\<close>

definition CompleteWorkflowTurn ::
    "bool \<Rightarrow> bool \<Rightarrow> runtime \<Rightarrow> string \<Rightarrow> turnOutput \<Rightarrow> ledger \<Rightarrow> storeError + TurnDisposition \<times> ledger" where
  "CompleteWorkflowTurn isChild usageAlreadyAccounted r threadID t l =
     CompleteTurnActivity isChild r threadID (if usageAlreadyAccounted then t\<lparr>to_Usage := zeroUsage\<rparr> else t) l"

definition idleInterrupt :: "string \<Rightarrow> turnOutput" where
  "idleInterrupt i = \<lparr>to_TriggerEventID = i, to_Drafts = [], to_Status = StatusIdle, to_AttemptID = [], to_AttemptState = None,
     to_AttemptError = None, to_PendingActionEventIDs = [], to_ResolutionEventIDs = [], to_TranscriptDelta = None,
     to_ToolUseMappings = [], to_Usage = zeroUsage\<rparr>"

definition acknowledgeIdleInterrupt :: "runtime \<Rightarrow> string \<Rightarrow> string \<Rightarrow> ledger \<Rightarrow> storeError + TurnDisposition \<times> ledger" where
  "acknowledgeIdleInterrupt r threadID i l = CompleteTurnActivity (threadID \<noteq> []) r threadID (idleInterrupt i) l"

text \<open>
  The activities of a Workflow that is alone with the store; \<open>run\<close> stands for the agent loop of one turn and
  \<open>rt\<close> gives each transaction its clock and identifiers.
\<close>

definition storeActivities ::
    "(ledger \<Rightarrow> runtime) \<Rightarrow> (string \<Rightarrow> string list \<Rightarrow> int \<Rightarrow> ledger \<Rightarrow> storeError + TurnDisposition \<times> ledger) \<Rightarrow> string \<Rightarrow>
     ledger activities" where
  "storeActivities rt run threadID = \<lparr>
     ac_LoadPendingActions = (\<lambda>l. bindE (LoadPendingActions threadID l) (\<lambda>as. Inr (as, l))),
     ac_LoadEvents = (\<lambda>cursor l. Inr (LoadEvents threadID cursor (int loadBatchLimit) l, l)),
     ac_LoadInterrupt = (\<lambda>seq l. Inr (LoadInterrupt threadID seq l, l)),
     ac_Acknowledge = (\<lambda>i l. bindE (acknowledgeIdleInterrupt (rt l) threadID i l) (\<lambda>(_, l1). Inr l1)),
     ac_RunTurn = run\<rparr>"

end
