(* ===== verification/DrainSafety.thy ===== *)
theory DrainSafety
  imports Drain
begin

text \<open>
  What the loop of a Session does, whatever its activities return: turns run in the order of receipt, once
  each, and none overtakes an open barrier; and what it selects over a barrier is what the store accepts.
\<close>

section \<open>A record of the calls\<close>

datatype activityCall =
    CallPending "PendingActionRef list"
  | CallEvents "EventRef list"
  | CallInterrupt
  | CallAcknowledge string
  | CallTurn string "string list" int TurnDisposition

text \<open>The same activities, keeping a record of the calls that returned.\<close>

definition traced :: "'w activities \<Rightarrow> ('w \<times> activityCall list) activities" where
  "traced acts = \<lparr>
     ac_LoadPendingActions = (\<lambda>(w, tr). bindE (ac_LoadPendingActions acts w) (\<lambda>(as, w1). Inr (as, w1, tr @ [CallPending as]))),
     ac_LoadEvents = (\<lambda>c (w, tr). bindE (ac_LoadEvents acts c w) (\<lambda>(es, w1). Inr (es, w1, tr @ [CallEvents es]))),
     ac_LoadInterrupt = (\<lambda>c (w, tr). bindE (ac_LoadInterrupt acts c w) (\<lambda>(i, w1). Inr (i, w1, tr @ [CallInterrupt]))),
     ac_Acknowledge = (\<lambda>i (w, tr). bindE (ac_Acknowledge acts i w) (\<lambda>w1. Inr (w1, tr @ [CallAcknowledge i]))),
     ac_RunTurn = (\<lambda>i ids seq (w, tr). bindE (ac_RunTurn acts i ids seq w) (\<lambda>(d, w1). Inr (d, w1, tr @ [CallTurn i ids seq d])))\<rparr>"

lemma traced_calls:
  "ac_LoadPendingActions (traced acts) (w, tr) = Inr (as, w1, tr1) \<longleftrightarrow>
     ac_LoadPendingActions acts w = Inr (as, w1) \<and> tr1 = tr @ [CallPending as]"
  "ac_LoadEvents (traced acts) c (w, tr) = Inr (es, w1, tr1) \<longleftrightarrow>
     ac_LoadEvents acts c w = Inr (es, w1) \<and> tr1 = tr @ [CallEvents es]"
  "ac_LoadInterrupt (traced acts) c (w, tr) = Inr (i, w1, tr1) \<longleftrightarrow>
     ac_LoadInterrupt acts c w = Inr (i, w1) \<and> tr1 = tr @ [CallInterrupt]"
  "ac_Acknowledge (traced acts) j (w, tr) = Inr (w1, tr1) \<longleftrightarrow>
     ac_Acknowledge acts j w = Inr w1 \<and> tr1 = tr @ [CallAcknowledge j]"
  "ac_RunTurn (traced acts) j ids seq (w, tr) = Inr (d, w1, tr1) \<longleftrightarrow>
     ac_RunTurn acts j ids seq w = Inr (d, w1) \<and> tr1 = tr @ [CallTurn j ids seq d]"
  by (auto simp: traced_def bindE_Inr_iff)

text \<open>The sequence numbers of the triggers of ordinary turns.\<close>

fun ordinary :: "activityCall list \<Rightarrow> int list" where
  "ordinary [] = []"
| "ordinary (CallTurn i ids seq d # tr) = (if ids = [] then seq # ordinary tr else ordinary tr)"
| "ordinary (_ # tr) = ordinary tr"

fun turnsIn :: "activityCall list \<Rightarrow> nat" where
  "turnsIn [] = 0"
| "turnsIn (CallTurn i ids seq d # tr) = Suc (turnsIn tr)"
| "turnsIn (_ # tr) = turnsIn tr"

lemma ordinary_append [simp]: "ordinary (xs @ ys) = ordinary xs @ ordinary ys"
  by (induction xs rule: ordinary.induct) auto

lemma turnsIn_append [simp]: "turnsIn (xs @ ys) = turnsIn xs + turnsIn ys"
  by (induction xs rule: turnsIn.induct) auto

text \<open>
  The discipline over a barrier: \<open>Some as\<close> is the barrier as last read, \<open>None\<close> a state in which it must be
  read again before a turn.
\<close>

fun orderly :: "PendingActionRef list option \<Rightarrow> activityCall list \<Rightarrow> bool" where
  "orderly s [] = True"
| "orderly s (CallPending as # tr) = orderly (Some as) tr"
| "orderly s (CallTurn i ids seq d # tr) =
     (case s of
        None \<Rightarrow> False
      | Some as \<Rightarrow>
          if as = [] then ids = [] \<and> orderly (if d = TurnCompleted then s else None) tr
          else selectBarrier as [] ([], 0) = Some (ids, i, seq) \<and> orderly None tr)"
| "orderly s (_ # tr) = orderly s tr"

text \<open>What a stretch of the loop that began at one state leaves behind, from a barrier state to a barrier state.\<close>

definition stretch :: "drainState \<Rightarrow> drainState \<Rightarrow> activityCall list \<Rightarrow> bool" where
  "stretch st st1 tr \<longleftrightarrow> sorted_wrt (<) (ordinary tr)
     \<and> list_all (\<lambda>k. dr_Cursor st < k \<and> k \<le> dr_Cursor st1) (ordinary tr)
     \<and> dr_Cursor st \<le> dr_Cursor st1 \<and> dr_Turns st1 = dr_Turns st + turnsIn tr"

lemma stretch_refl [simp]: "stretch st st []"
  by (simp add: stretch_def)

lemma stretch_trans: "stretch a b xs \<Longrightarrow> stretch b c ys \<Longrightarrow> stretch a c (xs @ ys)"
  unfolding stretch_def sorted_wrt_append ordinary_append turnsIn_append list_all_append list_all_iff by fastforce

lemma stretch_quiet: "ordinary tr = [] \<Longrightarrow> turnsIn tr = 0 \<Longrightarrow> dr_Turns st1 = dr_Turns st \<Longrightarrow>
    dr_Cursor st \<le> dr_Cursor st1 \<Longrightarrow> stretch st st1 tr"
  by (simp add: stretch_def)

lemma consume_stretch:
  assumes "consumeEvents (traced acts) es st (w, tr) = Inr (stop, st1, w1, tr1)"
  shows "\<exists>more. tr1 = tr @ more \<and> stretch st st1 more \<and> orderly (Some []) more"
  using assms
proof (induction es arbitrary: st w tr)
  case Nil
  then show ?case by (auto intro: exI [of _ "[]"])
next
  case (Cons e es)
  consider (old) "er_Seq e \<le> dr_Cursor st" | (turn) "dr_Cursor st < er_Seq e" "drivesTurn (er_Type e)"
    | (interrupt) "dr_Cursor st < er_Seq e" "\<not> drivesTurn (er_Type e)" "er_Type e = EvUserInterrupt"
    | (other) "dr_Cursor st < er_Seq e" "\<not> drivesTurn (er_Type e)" "er_Type e \<noteq> EvUserInterrupt" by fastforce
  then show ?case
  proof cases
    case old
    then show ?thesis using Cons by simp
  next
    case turn
    let ?st = "\<lparr>dr_Cursor = er_Seq e, dr_Turns = Suc (dr_Turns st)\<rparr>"
    from Cons.prems turn obtain d w2 where r: "ac_RunTurn acts (er_ID e) [] (er_Seq e) w = Inr (d, w2)"
      and rest: "(case d of TurnTerminated \<Rightarrow> Inr (Some Terminated, ?st, w2, tr @ [CallTurn (er_ID e) [] (er_Seq e) d])
           | TurnParked \<Rightarrow> Inr (Some Parked, ?st, w2, tr @ [CallTurn (er_ID e) [] (er_Seq e) d])
           | TurnCompleted \<Rightarrow> consumeEvents (traced acts) es ?st (w2, tr @ [CallTurn (er_ID e) [] (er_Seq e) d]))
        = Inr (stop, st1, w1, tr1)"
      by (auto simp: bindE_Inr_iff traced_calls Let_def)
    have one: "stretch st ?st [CallTurn (er_ID e) [] (er_Seq e) d]" using turn by (simp add: stretch_def)
    show ?thesis
    proof (cases "d = TurnCompleted")
      case True
      from rest have "consumeEvents (traced acts) es ?st (w2, tr @ [CallTurn (er_ID e) [] (er_Seq e) d]) = Inr (stop, st1, w1, tr1)"
        by (simp add: True)
      from Cons.IH [OF this] obtain more where m: "tr1 = (tr @ [CallTurn (er_ID e) [] (er_Seq e) d]) @ more"
        "stretch ?st st1 more" "orderly (Some []) more" by blast
      show ?thesis
        by (rule exI [of _ "CallTurn (er_ID e) [] (er_Seq e) d # more"])
          (use m True stretch_trans [OF one m(2)] in simp)
    next
      case False
      with rest have "st1 = ?st" "tr1 = tr @ [CallTurn (er_ID e) [] (er_Seq e) d]" by (cases d; simp)+
      then show ?thesis by (intro exI [of _ "[CallTurn (er_ID e) [] (er_Seq e) d]"]) (use one in simp)
    qed
  next
    case interrupt
    from Cons.prems interrupt obtain w2 where
      rest: "consumeEvents (traced acts) es (st\<lparr>dr_Cursor := er_Seq e\<rparr>) (w2, tr @ [CallAcknowledge (er_ID e)]) = Inr (stop, st1, w1, tr1)"
      by (auto simp: bindE_Inr_iff traced_calls)
    from Cons.IH [OF this] obtain more where m: "tr1 = (tr @ [CallAcknowledge (er_ID e)]) @ more"
      "stretch (st\<lparr>dr_Cursor := er_Seq e\<rparr>) st1 more" "orderly (Some []) more" by blast
    have "stretch st (st\<lparr>dr_Cursor := er_Seq e\<rparr>) [CallAcknowledge (er_ID e)]" using interrupt by (intro stretch_quiet) simp_all
    from stretch_trans [OF this m(2)] m show ?thesis by (intro exI [of _ "CallAcknowledge (er_ID e) # more"]) simp
  next
    case other
    with Cons.prems have "consumeEvents (traced acts) es (st\<lparr>dr_Cursor := er_Seq e\<rparr>) (w, tr) = Inr (stop, st1, w1, tr1)"
      by simp
    from Cons.IH [OF this] obtain more where m: "tr1 = tr @ more" "stretch (st\<lparr>dr_Cursor := er_Seq e\<rparr>) st1 more"
      "orderly (Some []) more" by blast
    have "stretch st (st\<lparr>dr_Cursor := er_Seq e\<rparr>) []" using other by (intro stretch_quiet) simp_all
    from stretch_trans [OF this m(2)] m show ?thesis by auto
  qed
qed

lemma selected_ids: "selectBarrier as ids t = Some (ids', t') \<Longrightarrow> ids' = ids @ map pr_ResolutionEventID as"
  by (induction as ids t rule: selectBarrier.induct) (auto split: if_splits)

lemma preempt_calls:
  assumes "preemptBarrier (traced acts) ie c picked (w, tr) = Inr (again, w1, tr1)"
  shows "\<exists>pc. tr1 = tr @ pc \<and> (pc = [] \<or> pc = [CallInterrupt] \<or> (\<exists>i. pc = [CallInterrupt, CallAcknowledge i]))"
proof (cases ie)
  case False
  with assms show ?thesis by (simp add: preemptBarrier_def)
next
  case True
  with assms obtain found w2 where l: "ac_LoadInterrupt acts c w = Inr (found, w2)"
    by (auto simp: preemptBarrier_def bindE_Inr_iff traced_calls)
  have l': "ac_LoadInterrupt (traced acts) c (w, tr) = Inr (found, w2, tr @ [CallInterrupt])"
    using l by (simp add: traced_calls)
  show ?thesis
  proof (cases found)
    case None
    with assms True have "tr1 = tr @ [CallInterrupt]" by (simp add: preemptBarrier_def l')
    then show ?thesis by simp
  next
    case (Some e)
    define early where "early = (case picked of None \<Rightarrow> True | Some (_, _, seq) \<Rightarrow> er_Seq e < seq)"
    from assms True Some have "(if early then bindE (ac_Acknowledge (traced acts) (er_ID e) (w2, tr @ [CallInterrupt])) (\<lambda>w2. Inr (True, w2))
            else Inr (False, w2, tr @ [CallInterrupt])) = Inr (again, w1, tr1)"
      by (simp add: preemptBarrier_def l' early_def)
    then show ?thesis by (cases early) (auto simp: bindE_Inr_iff traced_calls)
  qed
qed

lemma round_stretch:
  assumes "drainRound (traced acts) ie st (w, tr) = Inr (stop, st1, w1, tr1)"
  shows "\<exists>more. tr1 = tr @ more \<and> stretch st st1 more \<and> (\<forall>s. orderly s more)"
proof -
  from assms obtain as w2 where load: "ac_LoadPendingActions acts w = Inr (as, w2)"
    by (auto simp: drainRound_def bindE_Inr_iff traced_calls)
  show ?thesis
  proof (cases "as = []")
    case True
    with assms load obtain es w3 where le: "ac_LoadEvents acts (dr_Cursor st) w2 = Inr (es, w3)"
      by (auto simp: drainRound_def bindE_Inr_iff traced_calls)
    have a: "ac_LoadPendingActions (traced acts) (w, tr) = Inr ([], w2, tr @ [CallPending []])"
      and b: "ac_LoadEvents (traced acts) (dr_Cursor st) (w2, tr @ [CallPending []]) = Inr (es, w3, (tr @ [CallPending []]) @ [CallEvents es])"
      using load le True by (simp_all only: traced_calls)
    from assms have
      rest: "(if es = [] then Inr (Some Drained, st, w3, tr @ [CallPending [], CallEvents []])
              else consumeEvents (traced acts) es st (w3, tr @ [CallPending [], CallEvents es])) = Inr (stop, st1, w1, tr1)"
      unfolding drainRound_def a b by (simp add: b split: if_splits)
    have q: "stretch st st [CallPending [], CallEvents es]" by (intro stretch_quiet) simp_all
    show ?thesis
    proof (cases "es = []")
      case True
      with rest q show ?thesis by (intro exI [of _ "[CallPending [], CallEvents []]"]) simp
    next
      case False
      with rest consume_stretch obtain more where m: "tr1 = (tr @ [CallPending [], CallEvents es]) @ more"
        "stretch st st1 more" "orderly (Some []) more" by metis
      from stretch_trans [OF q m(2)] m show ?thesis
        by (intro exI [of _ "[CallPending [], CallEvents es] @ more"]) simp
    qed
  next
    case False
    let ?tr = "tr @ [CallPending as]"
    from assms load False obtain again w3 tr3 where
      pre: "preemptBarrier (traced acts) ie (dr_Cursor st) (selectBarrier as [] ([], 0)) (w2, ?tr) = Inr (again, w3, tr3)"
      and rest: "(if again then Inr (None, st, w3, tr3)
         else (case selectBarrier as [] ([], 0) of
             None \<Rightarrow> Inr (Some Parked, st, w3, tr3)
           | Some (ids, trigger, seq) \<Rightarrow>
               bindE (ac_RunTurn (traced acts) trigger ids seq (w3, tr3)) (\<lambda>(d, w3).
                 (let st1 = st\<lparr>dr_Turns := dr_Turns st + 1\<rparr>
                  in case d of TurnTerminated \<Rightarrow> Inr (Some Terminated, st1, w3)
                             | TurnParked \<Rightarrow> Inr (Some Parked, st1, w3)
                             | TurnCompleted \<Rightarrow> Inr (None, st1, w3))))) = Inr (stop, st1, w1, tr1)"
      by (auto simp: drainRound_def bindE_Inr_iff traced_calls Let_def)
    from preempt_calls [OF pre] obtain pc where
      pc: "tr3 = ?tr @ pc" "ordinary pc = []" "turnsIn pc = 0" "\<forall>s more. orderly s (pc @ more) = orderly s more"
      by fastforce
    show ?thesis
    proof (cases "again \<or> selectBarrier as [] ([], 0) = None")
      case True
      with rest have "st1 = st" "tr1 = tr3" by (auto split: if_splits)
      then show ?thesis using pc by (intro exI [of _ "CallPending as # pc"]) (simp add: stretch_def pc(4) [rule_format, of _ "[]", simplified])
    next
      case open': False
      then obtain ids i seq where sel: "selectBarrier as [] ([], 0) = Some (ids, i, seq)" by auto
      from rest open' sel obtain d w4 tr4 where run: "ac_RunTurn (traced acts) i ids seq (w3, tr3) = Inr (d, w4, tr4)"
        by (cases "ac_RunTurn (traced acts) i ids seq (w3, tr3)") auto
      have r: "tr1 = tr3 @ [CallTurn i ids seq d]" "st1 = st\<lparr>dr_Turns := Suc (dr_Turns st)\<rparr>"
        using rest open' sel run by (cases d; simp add: traced_calls)+
      from selected_ids [OF sel] False have "ids \<noteq> []" by simp
      then have "stretch st st1 (CallPending as # pc @ [CallTurn i ids seq d])" using pc r(2) by (simp add: stretch_def)
      moreover have "orderly s (CallPending as # pc @ [CallTurn i ids seq d])" for s
        using pc(4) sel False by simp
      ultimately show ?thesis using r(1) pc(1)
        by (intro exI [of _ "CallPending as # pc @ [CallTurn i ids seq d]"]) simp
    qed
  qed
qed

lemma orderly_append: "orderly s xs \<Longrightarrow> (\<And>s. orderly s ys) \<Longrightarrow> orderly s (xs @ ys)"
  by (induction s xs rule: orderly.induct) (auto split: option.splits if_splits)

definition reached :: "drainState \<Rightarrow> 'w \<times> activityCall list \<Rightarrow> storeError + drained \<times> drainState \<times> 'w \<times> activityCall list \<Rightarrow> bool" where
  "reached st wt y \<longleftrightarrow> (\<forall>how st1 w1 tr1. y = Inr (how, st1, w1, tr1) \<longrightarrow>
     (\<exists>more. tr1 = snd wt @ more \<and> stretch st st1 more \<and> (\<forall>s. orderly s more)))"

lemma drain_reached:
  assumes "drain (traced acts) ie st wt = Some y"
  shows "reached st wt y"
proof (rule drain.raw_induct [where P = "\<lambda>acts' ie st wt y. acts' = traced acts \<longrightarrow> reached st wt y", OF _ assms, THEN mp])
  fix rec :: "('a \<times> activityCall list) activities \<Rightarrow> bool \<Rightarrow> drainState \<Rightarrow> 'a \<times> activityCall list \<Rightarrow> (storeError + drained \<times> drainState \<times> 'a \<times> activityCall list) option"
    and acts' ie st wt y
  assume IH: "\<And>acts' ie st wt y. rec acts' ie st wt = Some y \<Longrightarrow> acts' = traced acts \<longrightarrow> reached st wt y"
    and eq': "(case drainRound acts' ie st wt of Inl e \<Rightarrow> Some (Inl e)
      | Inr (stop, st1, w1) \<Rightarrow> (case stop of None \<Rightarrow> rec acts' ie st1 w1 | Some how \<Rightarrow> Some (Inr (how, st1, w1)))) = Some y"
  obtain w tr where wt: "wt = (w, tr)" by fastforce
  show "acts' = traced acts \<longrightarrow> reached st wt y"
  proof
  assume acts: "acts' = traced acts"
  note eq = eq' [unfolded acts]
  show "reached st wt y"
  proof (cases "drainRound (traced acts) ie st wt")
    case (Inl e)
    with eq show ?thesis by (auto simp: reached_def)
  next
    case (Inr r)
    obtain stop st2 w2 tr2 where r: "r = (stop, st2, w2, tr2)" by (metis surj_pair)
    from round_stretch [OF Inr [unfolded wt r]] obtain m where m: "tr2 = tr @ m" "stretch st st2 m" "\<forall>s. orderly s m" by blast
    show ?thesis
    proof (cases stop)
      case (Some how')
      with eq m wt Inr r show ?thesis by (auto simp: reached_def)
    next
      case None
      with eq Inr r have "reached st2 (w2, tr2) y" by (intro IH [THEN mp]) simp_all
      then show ?thesis unfolding reached_def wt using m
        by (fastforce intro: stretch_trans [OF m(2)] orderly_append)
    qed
  qed
  qed
qed simp

lemma drain_stretch:
  "drain (traced acts) ie st (w, []) = Some (Inr (how, st1, w1, tr)) \<Longrightarrow> stretch st st1 tr \<and> orderly None tr"
  using drain_reached [of acts ie st "(w, [])"] by (auto simp: reached_def)

section \<open>A log of two messages\<close>

text \<open>A world that is only the references of a log; a turn completes and adds its answer.\<close>

definition sampleActivities :: "EventRef list activities" where
  "sampleActivities = \<lparr>
     ac_LoadPendingActions = (\<lambda>w. Inr ([], w)),
     ac_LoadEvents = (\<lambda>c w. Inr (filter (\<lambda>e. c < er_Seq e) w, w)),
     ac_LoadInterrupt = (\<lambda>c w. Inr (None, w)),
     ac_Acknowledge = (\<lambda>i w. Inr w),
     ac_RunTurn = (\<lambda>i ids seq w.
       Inr (TurnCompleted, w @ [\<lparr>er_ID = i @ ''a'', er_Seq = int (length w) + 1, er_Type = EvAgentMessage\<rparr>]))\<rparr>"

definition sampleRows :: "EventRef list" where
  "sampleRows = [\<lparr>er_ID = ''m1'', er_Seq = 1, er_Type = EvUserMessage\<rparr>, \<lparr>er_ID = ''m2'', er_Seq = 2, er_Type = EvUserMessage\<rparr>]"

text \<open>The loop with a bound on its rounds, to evaluate it.\<close>

fun drainFor ::
    "nat \<Rightarrow> 'w activities \<Rightarrow> bool \<Rightarrow> drainState \<Rightarrow> 'w \<Rightarrow> (storeError + drained \<times> drainState \<times> 'w) option" where
  "drainFor 0 acts ie st w = None"
| "drainFor (Suc n) acts ie st w =
     (case drainRound acts ie st w of
        Inl e \<Rightarrow> Some (Inl e)
      | Inr (stop, st1, w1) \<Rightarrow> (case stop of
          None \<Rightarrow> drainFor n acts ie st1 w1
        | Some how \<Rightarrow> Some (Inr (how, st1, w1))))"

lemma drainFor_drain: "drainFor n acts ie st w = Some y \<Longrightarrow> drain acts ie st w = Some y"
proof (induction n arbitrary: st w)
  case (Suc n)
  then show ?case
    by (subst drain.simps) (auto split: sum.split_asm option.split_asm)
qed simp

lemma sampleDrain_eval:
  "(case drainFor 4 (traced sampleActivities) True \<lparr>dr_Cursor = 0, dr_Turns = 0\<rparr> (sampleRows, []) of
     Some (Inr (how, st, l, tr)) \<Rightarrow> how = Drained \<and> ordinary tr = [1, 2] \<and> dr_Cursor st = 4 \<and> dr_Turns st = 2
     | _ \<Rightarrow> False)"
  by code_simp

lemma sampleDrain:
  obtains l tr where "drain (traced sampleActivities) True \<lparr>dr_Cursor = 0, dr_Turns = 0\<rparr> (sampleRows, []) =
      Some (Inr (Drained, \<lparr>dr_Cursor = 4, dr_Turns = 2\<rparr>, l, tr))" "ordinary tr = [1, 2]"
proof -
  from sampleDrain_eval obtain st l tr where
    "drainFor 4 (traced sampleActivities) True \<lparr>dr_Cursor = 0, dr_Turns = 0\<rparr> (sampleRows, []) = Some (Inr (Drained, st, l, tr))"
    "ordinary tr = [1, 2]" "dr_Cursor st = 4" "dr_Turns st = 2" by (auto split: option.splits sum.splits)
  then show thesis using that drainFor_drain by (metis drainState.surjective old.unit.exhaust)
qed

section \<open>The whole life of a Session's Workflow\<close>

text \<open>
  Passes of the outer loop, new histories that keep only the cursor, and whatever the rest of the world does
  between them.
\<close>

inductive life ::
    "'w activities \<Rightarrow> bool \<Rightarrow> nat \<Rightarrow> drainState \<times> 'w \<times> activityCall list \<Rightarrow> drainState \<times> 'w \<times> activityCall list \<Rightarrow> bool"
  for acts ie threshold where
  pass: "sessionPass (traced acts) ie threshold requested signalled suggested st wt = Some (fin, st1, wt1) \<Longrightarrow>
     fin \<in> {Again, Wait, Closed} \<Longrightarrow> life acts ie threshold (st, wt) (st1, wt1)"
| anew: "sessionPass (traced acts) ie threshold requested signalled suggested st wt = Some (ContinueAsNew c, st1, wt1) \<Longrightarrow>
     life acts ie threshold (st, wt) (\<lparr>dr_Cursor = c, dr_Turns = 0\<rparr>, wt1)"
| world: "life acts ie threshold (st, w, tr) (st, w', tr)"

definition triggersWithin :: "int \<Rightarrow> int \<Rightarrow> activityCall list \<Rightarrow> bool" where
  "triggersWithin a b tr \<longleftrightarrow> a \<le> b \<and> sorted_wrt (<) (ordinary tr) \<and> list_all (\<lambda>k. a < k \<and> k \<le> b) (ordinary tr)"

lemma triggersWithin_trans: "triggersWithin a b xs \<Longrightarrow> triggersWithin b c ys \<Longrightarrow> triggersWithin a c (xs @ ys)"
  unfolding triggersWithin_def sorted_wrt_append ordinary_append list_all_append list_all_iff by fastforce

lemma sessionPass_stretch:
  assumes "sessionPass (traced acts) ie n requested signalled suggested st (w, tr) = Some (fin, st1, w1, tr1)" "\<forall>e. fin \<noteq> Failed e"
  shows "\<exists>more. tr1 = tr @ more \<and> triggersWithin (dr_Cursor st) (dr_Cursor st1) more \<and> (\<forall>s. orderly s more)"
proof (cases requested)
  case False
  with assms show ?thesis by (auto simp: sessionPass_def triggersWithin_def)
next
  case True
  from assms True obtain how where d: "drain (traced acts) ie st (w, tr) = Some (Inr (how, st1, w1, tr1))"
    by (auto simp: sessionPass_def split: option.split_asm sum.split_asm)
  from drain_reached [OF d] show ?thesis by (auto simp: reached_def stretch_def triggersWithin_def)
qed

lemma pass_cursor: "sessionPass acts ie n requested signalled suggested st w = Some (ContinueAsNew c, st1, w1) \<Longrightarrow> c = dr_Cursor st1"
  by (auto simp: sessionPass_def afterDrain_def split: option.split_asm sum.split_asm if_split_asm)

definition lived :: "drainState \<times> 'w \<times> activityCall list \<Rightarrow> drainState \<times> 'w \<times> activityCall list \<Rightarrow> bool" where
  "lived a b \<longleftrightarrow> (\<exists>more. snd (snd b) = snd (snd a) @ more
     \<and> triggersWithin (dr_Cursor (fst a)) (dr_Cursor (fst b)) more \<and> (\<forall>s. orderly s more))"

lemma life_lived: "life acts ie n a b \<Longrightarrow> lived a b"
proof (induction rule: life.induct)
  case (pass requested signalled suggested st wt fin st1 wt1)
  then show ?case
    using sessionPass_stretch [of acts ie n requested signalled suggested st "fst wt" "snd wt" fin st1 "fst wt1" "snd wt1"]
    by (auto simp: lived_def)
next
  case (anew requested signalled suggested st wt c st1 wt1)
  then show ?case
    using sessionPass_stretch [of acts ie n requested signalled suggested st "fst wt" "snd wt" "ContinueAsNew c" st1 "fst wt1" "snd wt1"]
      pass_cursor [OF anew]
    by (auto simp: lived_def)
qed (auto simp: lived_def triggersWithin_def)

lemma lived_trans: "lived a b \<Longrightarrow> lived b c \<Longrightarrow> lived a c"
  unfolding lived_def by (fastforce intro: triggersWithin_trans orderly_append)

lemma lived_refl: "lived a a"
  by (auto simp: lived_def triggersWithin_def)

lemma life_stretch: "(life acts ie n)\<^sup>*\<^sup>* a b \<Longrightarrow> lived a b"
  by (induction rule: rtranclp_induct) (blast intro: lived_refl lived_trans life_lived)+

lemma sampleLife:
  obtains l tr where "(life sampleActivities True 2)\<^sup>*\<^sup>* (\<lparr>dr_Cursor = 0, dr_Turns = 0\<rparr>, sampleRows, [])
     (\<lparr>dr_Cursor = 4, dr_Turns = 0\<rparr>, l, tr)" "ordinary tr = [1, 2]"
proof (rule sampleDrain)
  fix l tr
  assume d: "drain (traced sampleActivities) True \<lparr>dr_Cursor = 0, dr_Turns = 0\<rparr> (sampleRows, []) =
      Some (Inr (Drained, \<lparr>dr_Cursor = 4, dr_Turns = 2\<rparr>, l, tr))" and o: "ordinary tr = [1, 2]"
  have "sessionPass (traced sampleActivities) True 2 True False False \<lparr>dr_Cursor = 0, dr_Turns = 0\<rparr> (sampleRows, [])
      = Some (ContinueAsNew 4, \<lparr>dr_Cursor = 4, dr_Turns = 2\<rparr>, l, tr)"
    by (simp add: sessionPass_def d afterDrain_def)
  from life.anew [OF this] o show thesis by (blast intro: that)
qed

section \<open>Properties\<close>

text \<open>
  C21. Every message drives at most one turn, in the order of receipt: over the whole life of a Session's Workflow,
  however its signals arrive and through every new history, the ordinary turns have strictly growing
  sequence numbers, all above the cursor it began with and none above the cursor it has reached.
\<close>

theorem message_turns_once:
  assumes "(life acts interruptsEnabled threshold)\<^sup>*\<^sup>* (st, w, []) (st1, w1, tr)"
  shows "dr_Cursor st \<le> dr_Cursor st1 \<and> sorted_wrt (<) (ordinary tr)
    \<and> list_all (\<lambda>k. dr_Cursor st < k \<and> k \<le> dr_Cursor st1) (ordinary tr)"
  using life_stretch [OF assms] by (auto simp: lived_def triggersWithin_def)

theorem message_turns_once_witness:
  "\<exists>l tr. (life sampleActivities True 2)\<^sup>*\<^sup>* (\<lparr>dr_Cursor = 0, dr_Turns = 0\<rparr>, sampleRows, [])
       (\<lparr>dr_Cursor = 4, dr_Turns = 0\<rparr>, l, tr)
     \<and> ordinary tr = [1, 2] \<and> sorted_wrt (<) (ordinary tr)"
proof (rule sampleLife)
  fix l tr
  assume r: "(life sampleActivities True 2)\<^sup>*\<^sup>* (\<lparr>dr_Cursor = 0, dr_Turns = 0\<rparr>, sampleRows, [])
     (\<lparr>dr_Cursor = 4, dr_Turns = 0\<rparr>, l, tr)" "ordinary tr = [1, 2]"
  from message_turns_once [OF r(1)] r show ?thesis by blast
qed

text \<open>
  C22. No turn overtakes a barrier: every turn the Session's Workflow runs follows a read of its barrier; an
  ordinary one a read that found none, with only completed turns since; and a resuming one a read of a fully
  claimed barrier, whose claims and latest claim are exactly what it runs with.
\<close>

theorem no_turn_overtakes_barrier:
  assumes "(life acts interruptsEnabled threshold)\<^sup>*\<^sup>* (st, w, []) (st1, w1, tr)"
  shows "orderly None tr"
  using life_stretch [OF assms] by (auto simp: lived_def)

theorem no_turn_overtakes_barrier_witness:
  "\<exists>l tr. (life sampleActivities True 2)\<^sup>*\<^sup>* (\<lparr>dr_Cursor = 0, dr_Turns = 0\<rparr>, sampleRows, [])
       (\<lparr>dr_Cursor = 4, dr_Turns = 0\<rparr>, l, tr)
     \<and> turnsIn tr \<noteq> 0 \<and> orderly None tr"
proof (rule sampleLife)
  fix l tr
  assume r: "(life sampleActivities True 2)\<^sup>*\<^sup>* (\<lparr>dr_Cursor = 0, dr_Turns = 0\<rparr>, sampleRows, [])
     (\<lparr>dr_Cursor = 4, dr_Turns = 0\<rparr>, l, tr)" "ordinary tr = [1, 2]"
  have "turnsIn tr \<noteq> 0" using r(2) by (induction tr rule: ordinary.induct) auto
  with no_turn_overtakes_barrier [OF r(1)] r show ?thesis by blast
qed

end
