(* ===== verification/Resume.thy ===== *)
theory Resume
  imports DrainSafety
begin

text \<open>
  What a Workflow selects over a barrier is what the store accepts as its resolution, and a loop that is alone
  with the store ends.
\<close>

section \<open>The selection\<close>

lemma selectBarrier_claims:
  "selectBarrier as ids t = Some (ids', i, seq) \<Longrightarrow>
     list_all (\<lambda>a. pr_ResolutionEventID a \<noteq> []) as \<and> ids' = ids @ map pr_ResolutionEventID as
     \<and> ((i, seq) = t \<or> (i, seq) \<in> set (map (\<lambda>a. (pr_ResolutionEventID a, pr_ResolutionEventSeq a)) as))
     \<and> snd t \<le> seq \<and> list_all (\<lambda>a. pr_ResolutionEventSeq a \<le> seq) as"
proof (induction as ids t rule: selectBarrier.induct)
  case (2 a as ids i0 seq0)
  let ?t = "if seq0 < pr_ResolutionEventSeq a \<or> pr_ResolutionEventSeq a = seq0 \<and> i0 < pr_ResolutionEventID a
         then (pr_ResolutionEventID a, pr_ResolutionEventSeq a) else (i0, seq0)"
  have n: "pr_ResolutionEventID a \<noteq> []" using 2(2) by auto
  from 2(2) n have s: "selectBarrier as (ids @ [pr_ResolutionEventID a]) ?t = Some (ids', i, seq)"
    by (simp only: selectBarrier.simps if_not_P not_False_eq_True)
  have "seq0 \<le> snd ?t" "pr_ResolutionEventSeq a \<le> snd ?t" by auto
  with 2(1) [OF n s] n show ?case by (auto split: if_splits)
qed auto

lemma mapE_Inr: "mapE f xs = Inr ys \<longleftrightarrow> list_all2 (\<lambda>x y. f x = Inr y) xs ys"
  by (induction xs arbitrary: ys) (auto simp: bindE_Inr_iff list_all2_Cons1)

definition owner :: "string \<Rightarrow> ledger \<Rightarrow> storeError + string" where
  "owner threadID l = (if threadID \<noteq> [] then Inr threadID else GetPrimarySessionThreadID l)"

lemma LoadPending_rows:
  assumes "LoadPendingActions threadID l = Inr actions"
  obtains th refs where "owner threadID l = Inr th"
    "list_all2 (\<lambda>p r. pendingRef l p = Inr r) (ListUnresolvedPendingActions th l) refs"
    "actions = sort_key (\<lambda>r. QueueKey (pr_ActionEventSeq r) (pr_ActionEventID r)) refs"
  using assms unfolding LoadPendingActions_def bindE_Inr_iff mapE_Inr
  by (auto simp: UnresolvedPendingActions_def owner_def split: if_split_asm sum.split_asm)

lemma pendingRef_claim:
  assumes "pendingRef l p = Inr r"
  shows "pr_ResolutionEventID r \<noteq> [] \<Longrightarrow> pa_ResolvingEventID p = Some (pr_ResolutionEventID r)
    \<and> (\<exists>e \<in> set (lg_Events l). pr_ResolutionEventSeq r = e_Sequence e)"
  using assms
  by (cases "pa_ResolvingEventID p")
    (auto simp: pendingRef_def bindE_Inr_iff sourceEvent_def Let_def GetEvent_def split: option.split_asm
      dest!: find_in_set intro: bexI)

text \<open>What the selection guarantees of the rows.\<close>

lemma selected_rows:
  assumes load: "LoadPendingActions threadID l = Inr actions" "owner threadID l = Inr th"
    and sel: "selectBarrier actions [] ([], 0) = Some (ids, i, seq)" "actions \<noteq> []"
    and pos: "list_all (\<lambda>e. 0 < e_Sequence e) (lg_Events l)"
  shows "i \<in> set ids" "[] \<notin> set ids" "ids \<noteq> []"
    and "list_all (\<lambda>p. pa_ResolvingEventID p \<noteq> None) (filter (unresolved th) (lg_Pending l))"
    and "mset ids = mset (map (the \<circ> pa_ResolvingEventID) (filter (unresolved th) (lg_Pending l)))"
proof -
  obtain refs where rows: "list_all2 (\<lambda>p r. pendingRef l p = Inr r) (ListUnresolvedPendingActions th l) refs"
    and acts: "actions = sort_key (\<lambda>r. QueueKey (pr_ActionEventSeq r) (pr_ActionEventID r)) refs"
    by (rule LoadPending_rows [OF load(1)]) (use load(2) that in auto)
  let ?rows = "ListUnresolvedPendingActions th l"
  note c = selectBarrier_claims [OF sel(1)]
  have claimed: "list_all (\<lambda>r. pr_ResolutionEventID r \<noteq> []) refs" using c unfolding acts by (simp add: list_all_iff)
  have ids: "ids = map pr_ResolutionEventID actions" using c by simp
  have len: "length ?rows = length refs" using rows by (rule list_all2_lengthD)
  have row: "pa_ResolvingEventID (?rows ! k) = Some (pr_ResolutionEventID (refs ! k))
      \<and> (\<exists>e \<in> set (lg_Events l). pr_ResolutionEventSeq (refs ! k) = e_Sequence e)" if "k < length refs" for k
  proof (rule pendingRef_claim)
    show "pendingRef l (?rows ! k) = Inr (refs ! k)" using list_all2_nthD [OF rows, of k] len that by simp
    show "pr_ResolutionEventID (refs ! k) \<noteq> []" using claimed that by (simp add: list_all_length)
  qed
  have resolving: "map pa_ResolvingEventID ?rows = map (Some \<circ> pr_ResolutionEventID) refs"
    using row len by (intro nth_equalityI) simp_all
  have "list_all (\<lambda>p. pa_ResolvingEventID p \<noteq> None) ?rows"
    using row len unfolding list_all_length by auto
  then show "list_all (\<lambda>p. pa_ResolvingEventID p \<noteq> None) (filter (unresolved th) (lg_Pending l))"
    by (simp add: list_all_iff ListUnresolved_mset)
  have "map (the \<circ> pa_ResolvingEventID) ?rows = map pr_ResolutionEventID refs"
    using arg_cong [OF resolving, of "map the"] by (simp add: o_def)
  moreover have "mset (map (the \<circ> pa_ResolvingEventID) ?rows) =
      mset (map (the \<circ> pa_ResolvingEventID) (filter (unresolved th) (lg_Pending l)))"
    unfolding mset_map ListUnresolvedPendingActions_def mset_sort ..
  ultimately show "mset ids = mset (map (the \<circ> pa_ResolvingEventID) (filter (unresolved th) (lg_Pending l)))"
    unfolding ids acts by simp
  have "\<forall>a \<in> set actions. 0 < pr_ResolutionEventSeq a"
  proof
    fix a assume "a \<in> set actions"
    then obtain k where k: "k < length refs" "a = refs ! k" unfolding acts by (auto simp: in_set_conv_nth)
    from row [OF k(1)] k(2) obtain e where "e \<in> set (lg_Events l)" "pr_ResolutionEventSeq a = e_Sequence e" by auto
    with pos show "0 < pr_ResolutionEventSeq a" by (simp add: list_all_iff)
  qed
  moreover obtain a where "a \<in> set actions" using sel(2) by (cases actions) auto
  ultimately have "0 < seq" using c by (force simp: list_all_iff)
  then have "(i, seq) \<noteq> ([], 0)" by auto
  with c show "i \<in> set ids" by (auto simp: ids)
  show "[] \<notin> set ids" "ids \<noteq> []" using c sel(2) by (auto simp: ids list_all_iff)
qed

lemma selected_accepted:
  assumes load: "LoadPendingActions threadID l = Inr actions" "owner threadID l = Inr th"
    and sel: "selectBarrier actions [] ([], 0) = Some (ids, i, seq)" "actions \<noteq> []"
    and pos: "list_all (\<lambda>e. 0 < e_Sequence e) (lg_Events l)" and ok: "pendingOk (lg_Pending l)"
  shows "\<exists>l'. resolvePendingBarrierLocked now th i ids l = Inr (True, l')"
proof -
  note s = selected_rows [OF load sel pos]
  let ?un = "filter (unresolved th) (lg_Pending l)"
  have "distinct (map (the \<circ> pa_ResolvingEventID) ?un)"
    using ok s(4) by (intro distinct_resolving_filter) (simp_all add: pendingOk_def)
  then have dis: "distinct ids" using s(5) by (metis mset_eq_imp_distinct_iff)
  have len: "length ?un = length ids" 
  proof -
    have "length (map (the \<circ> pa_ResolvingEventID) ?un) = length ids" using s(5) by (rule mset_eq_length [OF sym])
    then show ?thesis by simp
  qed
  have "set ids = (the \<circ> pa_ResolvingEventID) ` set ?un" using mset_eq_setD [OF s(5)] by (simp only: set_map)
  then have claims: "list_all (\<lambda>p. pa_ResolvingEventID p \<in> Some ` set ids) ?un"
    using s(4) unfolding list_all_iff by (metis comp_apply image_eqI option.exhaust_sel)
  have "filter (\<lambda>p. unresolved th p \<and> pa_ResolvingEventID p \<in> Some ` set ids) (lg_Pending l) = ?un"
    using claims by (auto simp: list_all_iff intro: filter_cong)
  then have "fst (ResolvePendingActionsForEvents now th ids l) = length ids"
    by (simp add: ResolvePendingActionsForEvents_def resolveWhere_def affected_def len)
  moreover have "checkClaimed ids (ListUnresolvedPendingActions th l) = Inr ()"
    using claims unfolding checkClaimed_ok list_all_iff ListUnresolved_mset(1) .
  moreover have "distinctIDs ''resolution event id is required'' ''duplicate resolution event id'' [] ids = Inr ids"
    using dis s(2) by (simp add: distinctIDs_ok)
  ultimately show ?thesis using s(1,3) len
    by (simp add: resolvePendingBarrierLocked_def Let_def case_prod_beta ListUnresolved_mset(2) del: distinctIDs.simps checkClaimed.simps)
qed

end
