(* ===== verification/DrainEnds.thy ===== *)
theory DrainEnds
  imports Resume TurnSafety
begin

text \<open>
  The loop of a Session that is alone with the store ends: a turn or an acknowledgement adds no input of its own,
  so interrupts, inputs, the barrier and the rows past the cursor run out in this order of weight.
\<close>

section \<open>Quiet steps\<close>

definition isInput :: "string \<Rightarrow> bool" where
  "isInput t \<longleftrightarrow> drivesTurn t \<or> t = EvUserInterrupt"

definition quiet :: "ledger \<Rightarrow> ledger \<Rightarrow> bool" where
  "quiet l l' \<longleftrightarrow> GetPrimarySessionThreadID l' = GetPrimarySessionThreadID l
     \<and> (\<exists>old new. lg_Events l' = old @ new \<and> list_all2 stamped (lg_Events l) old
          \<and> list_all (\<lambda>e. \<not> isInput (e_Type e)) new)"

definition openInterrupts :: "string \<Rightarrow> ledger \<Rightarrow> nat" where
  "openInterrupts th l = affected (\<lambda>e. e_ThreadID e = th \<and> e_Type e = EvUserInterrupt \<and> e_ProcessedAt e = None) (lg_Events l)"

definition inputsAfter :: "string \<Rightarrow> int \<Rightarrow> ledger \<Rightarrow> nat" where
  "inputsAfter th c l = affected (\<lambda>e. e_ThreadID e = th \<and> isInput (e_Type e) \<and> c < e_Sequence e) (lg_Events l)"

definition rowsAfter :: "string \<Rightarrow> int \<Rightarrow> ledger \<Rightarrow> nat" where
  "rowsAfter th c l = affected (\<lambda>e. e_ThreadID e = th \<and> c < e_Sequence e) (lg_Events l)"

definition openBarrier :: "string \<Rightarrow> ledger \<Rightarrow> nat" where
  "openBarrier th l = (if HasUnresolvedPendingActions th l then 1 else 0)"

definition work :: "string \<Rightarrow> int \<times> ledger \<Rightarrow> nat \<times> nat \<times> nat \<times> nat" where
  "work th = (\<lambda>(c, l). (openInterrupts th l, inputsAfter th c l, openBarrier th l, rowsAfter th c l))"

definition lessWork :: "string \<Rightarrow> ((int \<times> ledger) \<times> int \<times> ledger) set" where
  "lessWork th = inv_image (less_than <*lex*> less_than <*lex*> less_than <*lex*> less_than) (work th)"

lemma wf_lessWork: "wf (lessWork th)"
  unfolding lessWork_def by (intro wf_inv_image wf_lex_prod wf_less_than)

lemma stamped_all: "stamped e e' \<Longrightarrow> e_ID e' = e_ID e \<and> e_Sequence e' = e_Sequence e \<and> e_Type e' = e_Type e
    \<and> e_ThreadID e' = e_ThreadID e \<and> (e_ProcessedAt e' = None \<longrightarrow> e_ProcessedAt e = None)"
  by (auto simp: stamped_def)

lemma affected_stamped:
  "list_all2 stamped xs ys \<Longrightarrow> (\<And>e e'. stamped e e' \<Longrightarrow> p e' \<Longrightarrow> p e) \<Longrightarrow> affected p ys \<le> affected p xs"
  unfolding affected_def by (induction rule: list_all2_induct) auto

lemma affected_none: "list_all (\<lambda>e. \<not> p e) xs \<Longrightarrow> affected p xs = 0"
  by (induction xs) (auto simp: affected_def)

lemma affected_append: "affected p (xs @ ys) = affected p xs + affected p ys"
  by (simp add: affected_def)

lemma affected_less: "(\<And>e. p e \<Longrightarrow> q e) \<Longrightarrow> e \<in> set xs \<Longrightarrow> q e \<Longrightarrow> \<not> p e \<Longrightarrow> affected p xs < affected q xs"
proof -
  assume a: "\<And>e. p e \<Longrightarrow> q e" "e \<in> set xs" "q e" "\<not> p e"
  have "filter p (filter q xs) = filter p xs" using a(1) by (auto intro: filter_cong)
  moreover have "length (filter p (filter q xs)) < length (filter q xs)"
    using a by (intro length_filter_less [of e]) auto
  ultimately show ?thesis by (simp add: affected_def)
qed

lemma affected_le: "(\<And>e. p e \<Longrightarrow> q e) \<Longrightarrow> affected p xs \<le> affected q xs"
  by (induction xs) (auto simp: affected_def)

lemma quiet_refl: "quiet l l"
  unfolding quiet_def by (intro conjI refl exI [of _ "lg_Events l"] exI [of _ "[]"]) (simp_all add: list_all2_refl)

lemma quiet_affected:
  assumes "quiet l l'" and inp: "\<And>e. p e \<Longrightarrow> isInput (e_Type e)" and st: "\<And>e e'. stamped e e' \<Longrightarrow> p e' \<Longrightarrow> p e"
  shows "affected p (lg_Events l') \<le> affected p (lg_Events l)"
proof -
  from assms(1) obtain old new where e: "lg_Events l' = old @ new" "list_all2 stamped (lg_Events l) old"
    "list_all (\<lambda>e. \<not> isInput (e_Type e)) new" by (auto simp: quiet_def)
  have "affected p new = 0" using e(3) inp by (intro affected_none) (auto simp: list_all_iff)
  moreover have "affected p old \<le> affected p (lg_Events l)" by (rule affected_stamped [OF e(2) st])
  ultimately show ?thesis by (simp add: e(1) affected_append)
qed

lemma quiet_counts:
  assumes "quiet l l'"
  shows "openInterrupts th l' \<le> openInterrupts th l" "inputsAfter th c l' \<le> inputsAfter th c l"
  unfolding openInterrupts_def inputsAfter_def
  by (rule quiet_affected [OF assms]; auto simp: isInput_def dest!: stamped_all)+

lemma quiet_event:
  assumes "quiet l l'" "e \<in> set (lg_Events l)"
  shows "\<exists>e' \<in> set (lg_Events l'). stamped e e'"
proof -
  from assms(1) obtain old new where e: "lg_Events l' = old @ new" "list_all2 stamped (lg_Events l) old"
    by (auto simp: quiet_def)
  from assms(2) obtain i where i: "i < length (lg_Events l)" "e = lg_Events l ! i" by (auto simp: in_set_conv_nth)
  with list_all2_nthD [OF e(2) i(1)] list_all2_lengthD [OF e(2)] have "stamped e (old ! i)" "old ! i \<in> set old" by auto
  then show ?thesis using e(1) by auto
qed

text \<open>The rows that a list of references shows.\<close>

definition onLedger :: "string \<Rightarrow> ledger \<Rightarrow> EventRef list \<Rightarrow> bool" where
  "onLedger th l es \<longleftrightarrow> list_all (\<lambda>r. \<exists>e \<in> set (lg_Events l). e_ThreadID e = th \<and> e_ID e = er_ID r
     \<and> e_Sequence e = er_Seq r \<and> e_Type e = er_Type r) es"

lemma onLedger_quiet: "quiet l l' \<Longrightarrow> onLedger th l es \<Longrightarrow> onLedger th l' es"
  unfolding onLedger_def list_all_iff
proof (intro ballI)
  fix r assume q: "quiet l l'" and s: "\<forall>r\<in>set es. \<exists>e \<in> set (lg_Events l). e_ThreadID e = th \<and> e_ID e = er_ID r
     \<and> e_Sequence e = er_Seq r \<and> e_Type e = er_Type r" and r: "r \<in> set es"
  then obtain e where e: "e \<in> set (lg_Events l)" "e_ThreadID e = th \<and> e_ID e = er_ID r
     \<and> e_Sequence e = er_Seq r \<and> e_Type e = er_Type r" by blast
  from quiet_event [OF q e(1)] obtain e' where e': "e' \<in> set (lg_Events l')" "stamped e e'" by blast
  show "\<exists>e \<in> set (lg_Events l'). e_ThreadID e = th \<and> e_ID e = er_ID r
     \<and> e_Sequence e = er_Seq r \<and> e_Type e = er_Type r"
    using stamped_all [OF e'(2)] e(2) by (intro bexI [OF _ e'(1)]) simp
qed

section \<open>Loops over quiet steps\<close>

locale quiet_steps =
  fixes ok :: "ledger \<Rightarrow> bool" and th :: string
    and ack :: "string \<Rightarrow> ledger \<Rightarrow> storeError + ledger"
    and run :: "string \<Rightarrow> string list \<Rightarrow> int \<Rightarrow> ledger \<Rightarrow> storeError + TurnDisposition \<times> ledger"
  assumes owned: "ok l \<Longrightarrow> GetPrimarySessionThreadID l = Inr th"
    and ack_ok: "ok l \<Longrightarrow> ack i l = Inr l' \<Longrightarrow> ok l' \<and> quiet l l'"
    and ack_done: "ok l \<Longrightarrow> ack i l = Inr l' \<Longrightarrow> e \<in> set (lg_Events l') \<Longrightarrow> e_ID e = i \<Longrightarrow> e_ProcessedAt e \<noteq> None"
    and run_ok: "ok l \<Longrightarrow> run i ids seq l = Inr (TurnCompleted, l') \<Longrightarrow> ok l' \<and> quiet l l'"
    and run_closes: "ok l \<Longrightarrow> LoadPendingActions [] l = Inr as \<Longrightarrow> as \<noteq> [] \<Longrightarrow>
      selectBarrier as [] ([], 0) = Some (ids, i, seq) \<Longrightarrow> run i ids seq l = Inr (TurnCompleted, l') \<Longrightarrow>
      \<not> HasUnresolvedPendingActions th l'"
begin

definition acts :: "ledger activities" where
  "acts = \<lparr>
     ac_LoadPendingActions = (\<lambda>l. bindE (LoadPendingActions [] l) (\<lambda>as. Inr (as, l))),
     ac_LoadEvents = (\<lambda>cursor l. Inr (LoadEvents [] cursor (int loadBatchLimit) l, l)),
     ac_LoadInterrupt = (\<lambda>seq l. Inr (LoadInterrupt [] seq l, l)),
     ac_Acknowledge = ack,
     ac_RunTurn = run\<rparr>"

lemma acts_sel:
  "ac_LoadPendingActions acts = (\<lambda>l. bindE (LoadPendingActions [] l) (\<lambda>as. Inr (as, l)))" "ac_RunTurn acts = run"
  "ac_LoadInterrupt acts = (\<lambda>seq l. Inr (LoadInterrupt [] seq l, l))" "ac_Acknowledge acts = ack"
  by (simp_all add: acts_def)

lemma consumed_input:
  assumes "quiet l l'" "onLedger th l [r]" "c < er_Seq r" "isInput (er_Type r)"
  shows "((er_Seq r, l'), (c, l)) \<in> lessWork th"
proof -
  from assms(2) obtain e where e: "e \<in> set (lg_Events l)" "e_ThreadID e = th" "e_Sequence e = er_Seq r" "e_Type e = er_Type r"
    by (auto simp: onLedger_def)
  have "inputsAfter th (er_Seq r) l < inputsAfter th c l"
    unfolding inputsAfter_def using e assms(3,4) by (intro affected_less [of _ _ e]) auto
  with quiet_counts(2) [OF assms(1), of th "er_Seq r"] have "inputsAfter th (er_Seq r) l' < inputsAfter th c l" by simp
  then show ?thesis using quiet_counts(1) [OF assms(1), of th] by (auto simp: lessWork_def work_def)
qed

lemma consumed_other:
  assumes "onLedger th l [r]" "c < er_Seq r"
  shows "((er_Seq r, l), (c, l)) \<in> lessWork th"
proof -
  from assms(1) obtain e where e: "e \<in> set (lg_Events l)" "e_ThreadID e = th" "e_Sequence e = er_Seq r"
    by (auto simp: onLedger_def)
  have "rowsAfter th (er_Seq r) l < rowsAfter th c l"
    unfolding rowsAfter_def using e assms(2) by (intro affected_less [of _ _ e]) auto
  moreover have "inputsAfter th (er_Seq r) l \<le> inputsAfter th c l"
    unfolding inputsAfter_def using assms(2) by (intro affected_le) auto
  ultimately show ?thesis by (auto simp: lessWork_def work_def)
qed

lemma trans_lessWork: "(a, b) \<in> lessWork th \<Longrightarrow> (b, c) \<in> lessWork th \<Longrightarrow> (a, c) \<in> lessWork th"
  by (cases a; cases b; cases c) (auto simp: lessWork_def work_def)

lemma consume_less:
  assumes "consumeEvents acts es st l = Inr (None, st', l')" "ok l" "onLedger th l es"
  shows "ok l' \<and> (((dr_Cursor st', l'), (dr_Cursor st, l)) \<in> lessWork th
    \<or> st' = st \<and> l' = l \<and> list_all (\<lambda>r. er_Seq r \<le> dr_Cursor st) es)"
  using assms
proof (induction es arbitrary: st l)
  case (Cons r es)
  from Cons.prems(3) have s: "onLedger th l [r]" "onLedger th l es" by (simp_all add: onLedger_def)
  show ?case
  proof (cases "er_Seq r \<le> dr_Cursor st")
    case True
    with Cons.prems Cons.IH [of st l] s(2) show ?thesis by auto
  next
    case False
    then have c: "dr_Cursor st < er_Seq r" by simp
    obtain st1 l1 where step: "((dr_Cursor st1, l1), (dr_Cursor st, l)) \<in> lessWork th" "ok l1" "quiet l l1"
      and rest: "consumeEvents acts es st1 l1 = Inr (None, st', l')"
    proof (cases "drivesTurn (er_Type r)")
      case True
      from Cons.prems(1) False True obtain d l1 where run: "run (er_ID r) [] (er_Seq r) l = Inr (d, l1)"
        by (auto simp: acts_def bindE_Inr_iff)
      with Cons.prems(1) False True have d: "d = TurnCompleted"
        and rest: "consumeEvents acts es \<lparr>dr_Cursor = er_Seq r, dr_Turns = Suc (dr_Turns st)\<rparr> l1 = Inr (None, st', l')"
        by (cases d; auto simp: acts_def Let_def)+
      from run_ok [OF Cons.prems(2) run [unfolded d]] have o: "ok l1" "quiet l l1" by auto
      show thesis
        by (rule that [OF _ o rest]) (use consumed_input [OF o(2) s(1) c] True in \<open>simp add: isInput_def\<close>)
    next
      case plain: False
      show thesis
      proof (cases "er_Type r = EvUserInterrupt")
        case True
        from Cons.prems(1) False plain True obtain l1 where a: "ack (er_ID r) l = Inr l1"
          and rest: "consumeEvents acts es (st\<lparr>dr_Cursor := er_Seq r\<rparr>) l1 = Inr (None, st', l')"
          by (auto simp: acts_def bindE_Inr_iff)
        from ack_ok [OF Cons.prems(2) a] have o: "ok l1" "quiet l l1" by auto
        show thesis
          by (rule that [OF _ o rest]) (use consumed_input [OF o(2) s(1) c] True in \<open>simp add: isInput_def\<close>)
      next
        case other: False
        from Cons.prems(1) False plain other have rest: "consumeEvents acts es (st\<lparr>dr_Cursor := er_Seq r\<rparr>) l = Inr (None, st', l')"
          by simp
        show thesis by (rule that [OF _ Cons.prems(2) quiet_refl rest]) (use consumed_other [OF s(1) c] in simp)
      qed
    qed
    from Cons.IH [OF rest step(2) onLedger_quiet [OF step(3) s(2)]] step(1) show ?thesis
      by (auto intro: trans_lessWork)
  qed
qed simp

lemma loaded_events:
  assumes "ok l"
  shows "onLedger th l (LoadEvents [] c (int loadBatchLimit) l)" "list_all (\<lambda>r. c < er_Seq r) (LoadEvents [] c (int loadBatchLimit) l)"
proof -
  have "set (LoadEvents [] c (int loadBatchLimit) l)
      \<subseteq> eventRef ` set (filter (\<lambda>e. e_ThreadID e = th \<and> c < e_Sequence e) (lg_Events l))"
    using owned [OF assms] by (auto simp: LoadEvents_def EventsAfter_def ThreadEventsAfter_def dest!: in_set_takeD)
  then show "onLedger th l (LoadEvents [] c (int loadBatchLimit) l)"
    "list_all (\<lambda>r. c < er_Seq r) (LoadEvents [] c (int loadBatchLimit) l)"
    by (force simp: onLedger_def list_all_iff eventRef_def)+
qed

lemma acknowledged_less:
  assumes "ok l" "LoadInterrupt [] c l = Some r" "ack (er_ID r) l = Inr l'"
  shows "((c, l'), (c, l)) \<in> lessWork th"
proof -
  let ?p = "\<lambda>e. e_ThreadID e = th \<and> e_Type e = EvUserInterrupt \<and> e_ProcessedAt e = None"
  let ?q = "\<lambda>e. ?p e \<and> e_ID e \<noteq> er_ID r"
  from assms(2) owned [OF assms(1)] obtain e where f: "FirstUnprocessedThreadInterruptAfter th c l = Some e" "r = eventRef e"
    by (auto simp: LoadInterrupt_def FirstUnprocessedInterruptAfter_def)
  define es where "es = sort_key e_Sequence (filter (\<lambda>e. e_ThreadID e = th \<and> c < e_Sequence e
         \<and> e_Type e = EvUserInterrupt \<and> e_ProcessedAt e = None) (lg_Events l))"
  from f(1) have "e \<in> set es" unfolding FirstUnprocessedThreadInterruptAfter_def es_def [symmetric]
    by (cases es) auto
  then have e: "e \<in> set (lg_Events l)" "?p e" by (auto simp: es_def)
  note a = ack_ok [OF assms(1,3)]
  have "?p e \<longleftrightarrow> ?q e" if "e \<in> set (lg_Events l')" for e using ack_done [OF assms(1,3) that] by blast
  then have "affected ?p (lg_Events l') = affected ?q (lg_Events l')"
    unfolding affected_def by (intro arg_cong [where f = length] filter_cong) simp_all
  also have "\<dots> \<le> affected ?q (lg_Events l)" using a
    by (intro quiet_affected) (auto simp: isInput_def dest!: stamped_all)
  also have "\<dots> < affected ?p (lg_Events l)" by (rule affected_less [OF _ e(1)]) (use e f(2) in \<open>auto simp: eventRef_def\<close>)
  finally show ?thesis by (simp add: lessWork_def work_def openInterrupts_def)
qed

lemma preempted:
  assumes "preemptBarrier acts ie c picked l = Inr (again, l')" "ok l"
  shows "ok l' \<and> (if again then ((c, l'), (c, l)) \<in> lessWork th else l' = l)"
proof (cases ie)
  case False
  with assms show ?thesis by (auto simp: preemptBarrier_def)
next
  case True
  show ?thesis
  proof (cases "LoadInterrupt [] c l")
    case None
    with assms True show ?thesis by (simp add: preemptBarrier_def acts_def)
  next
    case (Some r)
    define early where "early = (case picked of None \<Rightarrow> True | Some (_, _, seq) \<Rightarrow> er_Seq r < seq)"
    from assms(1) True Some have "(if early then bindE (ac_Acknowledge acts (er_ID r) l) (\<lambda>w2. Inr (True, w2)) else Inr (False, l)) = Inr (again, l')"
      by (simp add: preemptBarrier_def acts_sel early_def)
    then show ?thesis
      using acknowledged_less [OF assms(2) Some] ack_ok [OF assms(2)] assms(2)
      by (cases early) (auto simp: bindE_Inr_iff acts_sel)
  qed
qed

lemma round_less:
  assumes "drainRound acts ie st l = Inr (None, st', l')" "ok l"
  shows "ok l' \<and> ((dr_Cursor st', l'), (dr_Cursor st, l)) \<in> lessWork th"
proof -
  have "\<exists>as. LoadPendingActions [] l = Inr as"
    using assms(1) by (auto simp: drainRound_def acts_def bindE_Inr_iff)
  then obtain as where load: "LoadPendingActions [] l = Inr as" ..
  show ?thesis
  proof (cases "as = []")
    case True
    let ?es = "LoadEvents [] (dr_Cursor st) (int loadBatchLimit) l"
    from assms(1) load True have "consumeEvents acts ?es st l = Inr (None, st', l')" and "?es \<noteq> []"
      by (auto simp: drainRound_def acts_def split: if_split_asm)
    from consume_less [OF this(1) assms(2) loaded_events(1) [OF assms(2)]] loaded_events(2) [OF assms(2), of "dr_Cursor st"] this(2)
    show ?thesis by (cases ?es) auto
  next
    case False
    let ?picked = "selectBarrier as [] ([], 0)"
    have "\<exists>again l1. preemptBarrier acts ie (dr_Cursor st) ?picked l = Inr (again, l1)"
      using assms(1) load False by (cases "preemptBarrier acts ie (dr_Cursor st) ?picked l")
        (auto simp: drainRound_def acts_def Let_def)
    then obtain again l1 where pre: "preemptBarrier acts ie (dr_Cursor st) ?picked l = Inr (again, l1)" by blast
    note p = preempted [OF pre assms(2)]
    have rest: "(if again then Inr (None, st, l1)
        else (case ?picked of
            None \<Rightarrow> Inr (Some Parked, st, l1)
          | Some (ids, trigger, seq) \<Rightarrow>
              bindE (ac_RunTurn acts trigger ids seq l1) (\<lambda>(d, w3).
                (let st1 = st\<lparr>dr_Turns := dr_Turns st + 1\<rparr>
                 in case d of TurnTerminated \<Rightarrow> Inr (Some Terminated, st1, w3)
                            | TurnParked \<Rightarrow> Inr (Some Parked, st1, w3)
                            | TurnCompleted \<Rightarrow> Inr (None, st1, w3))))) = Inr (None, st', l')"
      using assms(1) load False pre by (simp add: drainRound_def acts_sel Let_def)
    show ?thesis
    proof (cases again)
      case True
      with rest p show ?thesis by simp
    next
      case running: False
      with p have l1: "l1 = l" by simp
      from rest running obtain ids i seq where sel: "?picked = Some (ids, i, seq)"
        by (cases ?picked) auto
      from rest running sel l1 obtain d l2 where r: "run i ids seq l = Inr (d, l2)" by (cases "run i ids seq l") (auto simp: acts_sel)
      with rest running sel l1 have d: "d = TurnCompleted" "st' = st\<lparr>dr_Turns := Suc (dr_Turns st)\<rparr>" "l' = l2"
        by (cases d; simp add: acts_sel)+
      note ro = run_ok [OF assms(2) r [unfolded d(1)]]
      note rc = run_closes [OF assms(2) load False sel r [unfolded d(1)]]
      obtain th' refs where rows: "owner [] l = Inr th'"
        "list_all2 (\<lambda>p r. pendingRef l p = Inr r) (ListUnresolvedPendingActions th' l) refs"
        "as = sort_key (\<lambda>r. QueueKey (pr_ActionEventSeq r) (pr_ActionEventID r)) refs" by (rule LoadPending_rows [OF load])
      have "th' = th" using rows(1) owned [OF assms(2)] by (simp add: owner_def)
      then have "ListUnresolvedPendingActions th l \<noteq> []"
        using rows(2,3) False by (cases "ListUnresolvedPendingActions th l") simp_all
      then have "HasUnresolvedPendingActions th l"
        using ListUnresolved_mset(1) [of th l] unfolding HasUnresolvedPendingActions_def list_ex_iff
        by (cases "ListUnresolvedPendingActions th l") auto
      then show ?thesis using ro rc quiet_counts(1) [of l l2 th] quiet_counts(2) [of l l2 th "dr_Cursor st"] unfolding d(2,3)
        by (auto simp: lessWork_def work_def openBarrier_def)
    qed
  qed
qed

lemma drain_ends: "ok l \<Longrightarrow> \<exists>y. drain acts ie st l = Some y"
proof (induction "(dr_Cursor st, l)" arbitrary: st l rule: wf_induct_rule [OF wf_lessWork [of th]])
  case 1
  show ?case
  proof (cases "drainRound acts ie st l")
    case (Inl e)
    then show ?thesis by (subst drain.simps) simp
  next
    case (Inr r)
    obtain stop st1 l1 where r: "r = (stop, st1, l1)" by (metis surj_pair)
    show ?thesis
    proof (cases stop)
      case (Some how)
      with Inr r show ?thesis by (subst drain.simps) simp
    next
      case None
      from round_less [OF Inr [unfolded r None] "1.prems"] have "\<exists>y. drain acts ie st1 l1 = Some y"
        by (intro "1.hyps") auto
      with Inr r None show ?thesis by (subst drain.simps) simp
    qed
  qed
qed

end

section \<open>A Session alone with the store\<close>

text \<open>The rows of a Session as the store keeps them.\<close>

definition claimsStand :: "ledger \<Rightarrow> bool" where
  "claimsStand l \<longleftrightarrow> list_all (\<lambda>p. \<forall>i. pa_ResolvingEventID p = Some i \<longrightarrow>
     (\<exists>e \<in> set (lg_Events l). e_ID e = i \<and> e_ThreadID e = pa_ThreadID p)) (lg_Pending l)"

definition served :: "string \<Rightarrow> ledger \<Rightarrow> bool" where
  "served th l \<longleftrightarrow> GetPrimarySessionThreadID l = Inr th \<and> logOk l
     \<and> list_all (\<lambda>e. e_ID e \<noteq> [] \<and> 0 < e_Sequence e) (lg_Events l) \<and> claimsStand l"

definition plainOutput :: "turnOutput \<Rightarrow> string \<Rightarrow> string list \<Rightarrow> bool" where
  "plainOutput t i ids \<longleftrightarrow> to_TriggerEventID t = i \<and> to_ResolutionEventIDs t = ids
     \<and> list_all (\<lambda>d. \<not> isInput (d_Type d)) (to_Drafts t)"

text \<open>Turns whose agent loop produces the output \<open>out\<close>.\<close>

definition answering ::
    "(ledger \<Rightarrow> runtime) \<Rightarrow> (ledger \<Rightarrow> string \<Rightarrow> string list \<Rightarrow> turnOutput) \<Rightarrow>
     string \<Rightarrow> string list \<Rightarrow> int \<Rightarrow> ledger \<Rightarrow> storeError + TurnDisposition \<times> ledger" where
  "answering rt out i ids seq l = CompleteTurnActivity False (rt l) [] (out l i ids) l"

lemma completeTurn_commits:
  assumes "completeTurn r t l = Inr (c, l')"
  obtains (replay) trigger where "GetEvent (to_TriggerEventID t) l = Some trigger" "turnCommitted (lg_Session l) trigger l" "l' = l"
    | (commit) trigger p interrupt t' where "GetEvent (to_TriggerEventID t) l = Some trigger"
      "\<not> turnCommitted (lg_Session l) trigger l" "commitTurn r (lg_Session l) p trigger interrupt t' l = Inr (c, l')"
      "\<And>pt. p = Some pt \<Longrightarrow> GetPrimarySessionThreadProjection l = Inr pt"
      "t' = t \<or> (\<exists>evaluated. t' = interruptedOutput evaluated t)"
proof -
  from assms obtain session p where lock: "LockSession l = Inr session"
    and multi: "(if ag_Multiagent (s_AgentSnapshot session) = None then Inr None
      else bindE (GetPrimarySessionThreadProjection l) (\<lambda>p. Inr (Some p))) = Inr p"
    and rest: "(case GetEvent (to_TriggerEventID t) l of
       None \<Rightarrow> Inl (Refused (NotFound ''trigger event not found''))
     | Some trigger \<Rightarrow>
         if turnCommitted session trigger l then Inr (replayTurn session (to_TriggerEventID t) l, l)
         else (case (if e_Type trigger = EvUserInterrupt then None
                     else FirstUnprocessedInterruptAfter (e_Sequence trigger) l) of
             None \<Rightarrow> commitTurn r session p trigger None t l
           | Some interrupt \<Rightarrow>
               commitTurn r session p trigger (Some interrupt)
                 (interruptedOutput
                    (if activeReceiptProcessedOutcome session (e_Type trigger) (e_Payload trigger)
                     then ActiveOutcome session else None) t) l)) = Inr (c, l')"
    unfolding completeTurn_def bindE_Inr_iff by blast
  have s: "session = lg_Session l" by (rule LockSession_ok [OF lock])
  have p: "p = Some pt \<Longrightarrow> GetPrimarySessionThreadProjection l = Inr pt" for pt
    using multi by (auto simp: bindE_Inr_iff split: if_splits)
  from rest obtain trigger where g: "GetEvent (to_TriggerEventID t) l = Some trigger"
    by (cases "GetEvent (to_TriggerEventID t) l") simp_all
  show thesis
  proof (cases "turnCommitted (lg_Session l) trigger l")
    case True
    with rest show thesis by (intro replay [OF g]) (simp_all add: s g)
  next
    case False
    let ?race = "if e_Type trigger = EvUserInterrupt then None else FirstUnprocessedInterruptAfter (e_Sequence trigger) l"
    show thesis
    proof (cases ?race)
      case None
      with rest False have "commitTurn r (lg_Session l) p trigger None t l = Inr (c, l')" by (simp add: s g)
      from commit [OF g False this p] show thesis by blast
    next
      case (Some interrupt)
      with rest False have "\<exists>evaluated. commitTurn r (lg_Session l) p trigger (Some interrupt) (interruptedOutput evaluated t) l = Inr (c, l')"
        by (auto simp: s g)
      then show thesis using commit [OF g False _ p] by blast
    qed
  qed
qed

lemma projected_ID: "t_ID (ApplyPrimarySessionProjection t s) = t_ID t"
  by (simp add: ApplyPrimarySessionProjection_def Let_def)

lemma primary_kept:
  assumes "putCompleted now session p se usage l = Inr (s', l')"
    and "\<And>pt. p = Some pt \<Longrightarrow> GetPrimarySessionThreadProjection l = Inr pt"
  shows "GetPrimarySessionThreadID l' = GetPrimarySessionThreadID l"
proof -
  have id: "t_ID (Thread_TransitionStatus t st k) = t_ID t" for t st k
    by (simp add: Thread_TransitionStatus_def Let_def split: option.splits)
  have sid: "t_ID (ApplyIndependentPrimarySessionProjection t s) = t_ID t" for t s
    by (cases "s_ArchivedAt s"; simp add: ApplyIndependentPrimarySessionProjection_def Let_def id)
  have upd: "(case find (\<lambda>(k, _). k = PrimaryKind) (updateWhere (\<lambda>(k, _). k = PrimaryKind) (\<lambda>(k, _). (k, t')) ts) of
        None \<Rightarrow> Inl NoRows | Some (_, t) \<Rightarrow> Inr (t_ID t)) =
      (case find (\<lambda>(k, _). k = PrimaryKind) ts of None \<Rightarrow> Inl NoRows | Some (_, t) \<Rightarrow> Inr (t_ID t))"
    if "find (\<lambda>(k, _). k = PrimaryKind) ts = Some (k0, t0)" "t_ID t' = t_ID t0" for ts k0 t0 t'
    using that by (induction ts) (auto split: if_splits)
  have put: "GetPrimarySessionThreadID (putPrimaryThreadProjection t' l1) = GetPrimarySessionThreadID l1"
    if "GetPrimarySessionThreadProjection l1 = Inr t0" "t_ID t' = t_ID t0" for t' t0 l1
    using that upd [of "lg_Threads l1"]
    by (auto simp: GetPrimarySessionThreadProjection_def GetPrimarySessionThreadID_def putPrimaryThreadProjection_def
        split: option.split_asm)
  have only: "GetPrimarySessionThreadID (putSessionOnly s l1) = GetPrimarySessionThreadID l1"
    "GetPrimarySessionThreadProjection (putSessionOnly s l1) = GetPrimarySessionThreadProjection l1" for s l1
    by (simp_all add: GetPrimarySessionThreadID_def GetPrimarySessionThreadProjection_def putSessionOnly_def)
  show ?thesis
  proof (cases p)
    case None
    with assms(1) obtain t0 where t0: "GetPrimarySessionThreadProjection l = Inr t0"
      and "l' = putPrimaryThreadProjection (if ag_Multiagent (s_AgentSnapshot s') = None
               then ApplyPrimarySessionProjection t0 s'
               else ApplyIndependentPrimarySessionProjection t0 s') (putSessionOnly s' l)"
      by (auto simp: putCompleted_def Let_def bindE_Inr_iff putProjection_def putPrimarySessionThreadProjection_def only)
    with put [of "putSessionOnly s' l" t0] show ?thesis by (simp add: only sid projected_ID)
  next
    case (Some pt)
    with assms put [OF assms(2) [OF Some]] show ?thesis
      by (auto simp: putCompleted_def Let_def only id)
  qed
qed

lemma plain_types: "list_all (\<lambda>d. \<not> isInput (d_Type d)) ds \<longleftrightarrow> (\<forall>ty \<in> set (map d_Type ds). \<not> isInput ty)"
  by (simp add: list_all_iff)

lemma statuses_plain: "\<not> isInput EvSessionUsage" "\<not> isInput EvSessionStatusRunning" "\<not> isInput EvSpanOutcomeEvaluationEnd"
    "\<not> isInput EvSessionStatusIdle"
  by (simp_all add: isInput_def drivesTurn_def event_type_defs)

lemma interrupted_plain:
  assumes "list_all (\<lambda>d. \<not> isInput (d_Type d)) (to_Drafts t)" "t' = t \<or> (\<exists>evaluated. t' = interruptedOutput evaluated t)"
  shows "list_all (\<lambda>d. \<not> isInput (d_Type d)) (to_Drafts t')" "to_TriggerEventID t' = to_TriggerEventID t"
    "to_ResolutionEventIDs t' = to_ResolutionEventIDs t"
proof -
  show "list_all (\<lambda>d. \<not> isInput (d_Type d)) (to_Drafts t')"
    using assms interrupted_types statuses_plain unfolding plain_types by (auto simp del: set_map dest: subsetD)
  show "to_TriggerEventID t' = to_TriggerEventID t" "to_ResolutionEventIDs t' = to_ResolutionEventIDs t"
    using assms(2) by (auto simp: interruptedOutput_def interruptedTurnDrafts_def)
qed

lemma quiet_served:
  assumes "quiet l l'" "served th l" "logOk l'" "list_all (\<lambda>e. e_ID e \<noteq> [] \<and> 0 < e_Sequence e) (lg_Events l')"
    and pend: "lg_Pending l' = updateWhere q (\<lambda>x. x\<lparr>pa_ResolvedAt := Some now\<rparr>) (lg_Pending l) @ new"
    and fresh: "list_all (\<lambda>p. pa_ResolvingEventID p = None) new"
  shows "served th l'"
proof -
  have "\<exists>e \<in> set (lg_Events l'). e_ID e = i \<and> e_ThreadID e = pa_ThreadID p"
    if "p \<in> set (lg_Pending l)" "pa_ResolvingEventID p = Some i" for p i
  proof -
    from assms(2) that obtain e where e: "e \<in> set (lg_Events l)" "e_ID e = i" "e_ThreadID e = pa_ThreadID p"
      unfolding served_def claimsStand_def list_all_iff by blast
    from quiet_event [OF assms(1) e(1)] obtain e' where "e' \<in> set (lg_Events l')" "stamped e e'" by blast
    with e stamped_all show ?thesis by metis
  qed
  then have "claimsStand l'" using fresh
    unfolding claimsStand_def pend by (fastforce simp: list_all_iff set_updateWhere split: if_splits)
  then show ?thesis using assms(1-4) by (auto simp: served_def quiet_def)
qed

lemma commit_rows:
  assumes "commitTurn r session p trigger interrupt t l = Inr (c, l')"
    and "\<And>pt. p = Some pt \<Longrightarrow> GetPrimarySessionThreadProjection l = Inr pt"
  shows "GetPrimarySessionThreadID l' = GetPrimarySessionThreadID l"
    and "\<exists>q new. lg_Pending l' = updateWhere q (\<lambda>x. x\<lparr>pa_ResolvedAt := Some (rt_Now r)\<rparr>) (lg_Pending l) @ new
      \<and> list_all (\<lambda>p. pa_ResolvingEventID p = None) new"
    and "to_ResolutionEventIDs t \<noteq> [] \<Longrightarrow> to_PendingActionEventIDs t = [] \<Longrightarrow> \<not> HasUnresolvedPendingActions (e_ThreadID trigger) l'"
    and "tc_Parked c = (to_PendingActionEventIDs t \<noteq> [])"
  using assms(1)
proof (atomize (full), rule commitTurn_steps, goal_cases)
  case (1 l1 resolved l2 se events finalSeq l3 l4 l5 processed session' l8)
  obtain j where j: "l1 = l\<lparr>lg_Journal := j\<rparr>" using finishTurnAttempt_frame [OF 1(2)] by blast
  obtain q where q: "lg_Pending l2 = updateWhere q (\<lambda>x. x\<lparr>pa_ResolvedAt := Some (rt_Now r)\<rparr>) (lg_Pending l1)"
    and l2: "l2 = l1\<lparr>lg_Pending := lg_Pending l2\<rparr>" using resolve_frame [OF 1(3)] by blast
  obtain th' stored k where l3: "l3 = l2\<lparr>lg_Events := lg_Events l2 @ stored, lg_Drawn := k\<rparr>" by (rule append_rows [OF 1(5)])
  obtain new k2 where new: "l4 = l3\<lparr>lg_Pending := lg_Pending l3 @ new, lg_Drawn := k2\<rparr>"
      "map pa_ActionEventID new = to_PendingActionEventIDs t" "list_all (freshAction (e_ThreadID trigger)) new"
    using insertPending_frame [OF 1(6)] by blast
  obtain ts where l5: "l5 = l4\<lparr>lg_Transcript := ts\<rparr>" using transcript_frame [OF 1(7)] by blast
  define l7 where "l7 = (if turnRetriesExhausted (to_Drafts t)
        then FlushQueuedUserMessages (rt_Now r) (to_TriggerEventID t) (markProcessed (rt_Now r) processed l5)
        else markProcessed (rt_Now r) processed l5)"
  note put = 1(9) [folded l7_def]
  obtain es where l7: "l7 = l5\<lparr>lg_Events := es\<rparr>" unfolding l7_def using stamps_frame by blast
  have "lg_Threads l2 = lg_Threads l" using resolve_rows(2) [OF 1(3)] by (simp add: j)
  then have same: "lg_Threads l7 = lg_Threads l" unfolding l7 l5 new(1) l3 by simp
  have p: "p = Some pt \<Longrightarrow> GetPrimarySessionThreadProjection l7 = Inr pt" for pt
    using assms(2) same by (simp add: GetPrimarySessionThreadProjection_def)
  have prim: "GetPrimarySessionThreadID l8 = GetPrimarySessionThreadID l"
    using primary_kept [OF put p] same by (simp add: GetPrimarySessionThreadID_def)
  obtain threads where l8: "l8 = l7\<lparr>lg_Session := session', lg_Threads := threads\<rparr>"
    using putCompleted_frame(1) [OF put] by blast
  have pend: "lg_Pending l' = lg_Pending l2 @ new"
    unfolding 1(10) by (simp add: wakePrimary_def l8 l7 l5 new(1) l3)
  have "GetPrimarySessionThreadID l' = GetPrimarySessionThreadID l" using prim unfolding 1(10)
    by (simp add: wakePrimary_def GetPrimarySessionThreadID_def)
  moreover have "lg_Pending l' = updateWhere q (\<lambda>x. x\<lparr>pa_ResolvedAt := Some (rt_Now r)\<rparr>) (lg_Pending l) @ new"
    using pend q by (simp add: j)
  moreover have "list_all (\<lambda>p. pa_ResolvingEventID p = None) new" using new(3) by (simp add: list_all_iff freshAction_def)
  moreover have "\<not> HasUnresolvedPendingActions (e_ThreadID trigger) l'"
    if "to_ResolutionEventIDs t \<noteq> []" "to_PendingActionEventIDs t = []"
  proof -
    have "new = []" using new(2) that(2) by simp
    with pend barrier_clears(1) [OF 1(3) that(1)] show ?thesis by (simp add: HasUnresolvedPendingActions_def)
  qed
  moreover have "tc_Parked c = (to_PendingActionEventIDs t \<noteq> [])" using 1(11) by simp
  ultimately show ?case by blast
qed

lemma served_trigger:
  assumes "served th l" "GetEvent i l = Some e"
  shows "i \<noteq> []" "e_ID e = i" "e \<in> set (lg_Events l)" "e' \<in> set (lg_Events l) \<Longrightarrow> e_ID e' = i \<Longrightarrow> e' = e"
proof -
  from assms(2) show e: "e \<in> set (lg_Events l)" "e_ID e = i" by (auto simp: GetEvent_def dest: find_in_set)
  with assms(1) show "i \<noteq> []" by (auto simp: served_def list_all_iff)
  have "inj_on e_ID (set (lg_Events l))" using assms(1) by (simp add: served_def logOk_def distinct_map)
  then show "e' \<in> set (lg_Events l) \<Longrightarrow> e_ID e' = i \<Longrightarrow> e' = e" using e by (auto dest: inj_onD)
qed

lemma maybeStamp_stamped: "maybeStamp now f \<Longrightarrow> stamped e (f e)"
  by (metis maybeStamp_def stamped_event stamped_refl)

lemma append_new:
  assumes "\<forall>pfx n. rt_NewID r pfx n \<noteq> []"
  shows "appendThreadDrafts r th ds seq turn l = Inr (es, n, l') \<Longrightarrow> list_all (\<lambda>e. e_ID e \<noteq> [] \<and> seq < e_Sequence e) es"
proof (induction ds arbitrary: seq l es)
  case (Cons d ds)
  obtain i l1 where i: "(if d_ID d = [] then NewID r PrefixEvent l else (d_ID d, l)) = (i, l1)" by fastforce
  then have "i \<noteq> []" using assms by (auto simp: NewID_eq split: if_splits)
  moreover from Cons.prems i obtain l2 es' where
      rec: "appendThreadDrafts r th ds (seq + 1) turn l2 = Inr (es', n, l')"
    and es: "es = newEvent r (s_ID (lg_Session l)) th i (seq + 1) turn d # es'"
    by (auto simp: Let_def bindE_Inr_iff split: option.splits)
  moreover have "list_all (\<lambda>e. e_ID e \<noteq> [] \<and> seq + 1 < e_Sequence e) es'" by (rule Cons.IH [OF rec])
  ultimately show ?case by (auto simp: newEvent_def list_all_iff)
qed simp

lemma maxSeq_positive: "list_all (\<lambda>e. 0 < e_Sequence e) (lg_Events l) \<Longrightarrow> 0 \<le> maxSeq l"
proof -
  have "x \<le> foldr max xs x" for x :: int and xs by (induction xs) auto
  then show "list_all (\<lambda>e. 0 < e_Sequence e) (lg_Events l) \<Longrightarrow> 0 \<le> maxSeq l"
    by (cases "lg_Events l") (simp_all add: maxSeq_def, metis less_imp_le order_trans)
qed

lemma commit_new:
  assumes "commitTurn r session p trigger interrupt t l = Inr (c, l')" "\<forall>pfx n. rt_NewID r pfx n \<noteq> []"
    and "list_all (\<lambda>e. 0 < e_Sequence e) (lg_Events l)"
  shows "list_all (\<lambda>e. e_ID e \<noteq> [] \<and> 0 < e_Sequence e) (tc_Events c)"
  using assms(1)
proof (rule commitTurn_steps, goal_cases)
  case (1 l1 resolved l2 se events finalSeq l3 l4 l5 processed session' l8)
  have "lg_Events l2 = lg_Events l" using finishTurnAttempt_frame [OF 1(2)] resolve_rows(1) [OF 1(3)] by auto
  then have "0 \<le> maxSeq l2" using maxSeq_positive [OF assms(3)] by (simp add: maxSeq_def)
  moreover have "list_all (\<lambda>e. e_ID e \<noteq> [] \<and> maxSeq l2 < e_Sequence e) events"
    using 1(5) append_new [OF assms(2)] by (auto simp: appendDrafts_def bindE_Inr_iff simp del: appendThreadDrafts.simps)
  ultimately show ?case using 1(11) by (auto simp: list_all_iff)
qed

lemma completeTurn_quiet:
  assumes run: "completeTurn r t l = Inr (c, l')" and ok: "served th l"
    and plain: "list_all (\<lambda>d. \<not> isInput (d_Type d)) (to_Drafts t)" and ids: "\<forall>pfx n. rt_NewID r pfx n \<noteq> []"
  shows "served th l' \<and> quiet l l' \<and> (\<forall>e \<in> set (lg_Events l'). e_ID e = to_TriggerEventID t \<longrightarrow> e_ProcessedAt e \<noteq> None)"
  using run
proof (cases rule: completeTurn_commits)
  case (replay trigger)
  then have "e_ProcessedAt trigger \<noteq> None" by (simp add: turnCommitted_def)
  then have "\<forall>e \<in> set (lg_Events l). e_ID e = to_TriggerEventID t \<longrightarrow> e_ProcessedAt e \<noteq> None"
    using served_trigger(4) [OF ok replay(1)] by blast
  with ok quiet_refl [of l] show ?thesis unfolding replay(3) by blast
next
  case (commit trigger p interrupt t')
  note t' = interrupted_plain [OF plain commit(5)]
  have trig: "to_TriggerEventID t' \<noteq> []" using served_trigger(1) [OF ok commit(1)] t'(2) by simp
  note rows = commit_rows [OF commit(3,4)]
  obtain q new where pend: "lg_Pending l' = updateWhere q (\<lambda>x. x\<lparr>pa_ResolvedAt := Some (rt_Now r)\<rparr>) (lg_Pending l) @ new"
    "list_all (\<lambda>p. pa_ResolvingEventID p = None) new" using rows(2) by blast
  have log: "logOk l'" using commitTurn_keeps [OF commit(3)] ok upTo_maxSeq [of l] by (auto simp: keeps_def served_def)
  show ?thesis
  proof (rule commitTurn_frame [OF commit(3) trig], goal_cases)
    case (1 l2 se stored f new' th')
    have types: "set (map e_Type stored) \<subseteq> set (map d_Type (to_Drafts t')) \<union> {EvSessionUsage, EvSessionStatusRunning}"
      unfolding 1(7) using settle_types unfolding 1(5) .
    have "\<forall>ty \<in> set (map e_Type stored). \<not> isInput ty"
      using types t'(1) statuses_plain unfolding plain_types by (auto simp del: set_map dest: subsetD)
    then have "list_all (\<lambda>e. \<not> isInput (e_Type e)) (map f stored)"
      using maybeStamp_sel [OF 1(10)] by (simp add: list_all_iff)
    moreover have "list_all2 stamped (lg_Events l) (map f (lg_Events l))"
      using maybeStamp_stamped [OF 1(10)] by (simp add: list_all2_conv_all_nth)
    ultimately have q: "quiet l l'" unfolding quiet_def 1(9) using rows(1) by auto
    have fin: "\<forall>e \<in> set (lg_Events l'). e_ID e = to_TriggerEventID t \<longrightarrow> e_ProcessedAt e \<noteq> None"
      using 1(11) maybeStamp_sel [OF 1(10)] t'(2) unfolding 1(9) by auto
    have old: "list_all (\<lambda>e. e_ID e \<noteq> [] \<and> 0 < e_Sequence e) (lg_Events l)" using ok by (simp add: served_def)
    then have "list_all (\<lambda>e. 0 < e_Sequence e) (lg_Events l)" by (simp add: list_all_iff)
    from commit_new [OF commit(3) ids this] have "list_all (\<lambda>e. e_ID e \<noteq> [] \<and> 0 < e_Sequence e) stored"
      using 1(6) by (auto simp: list_all_length list_all2_conv_all_nth encoded_sel)
    with old have "list_all (\<lambda>e. e_ID e \<noteq> [] \<and> 0 < e_Sequence e) (lg_Events l')"
      unfolding 1(9) using maybeStamp_sel [OF 1(10)] by (auto simp: list_all_iff)
    from quiet_served [OF q ok log this pend] q fin show ?case by blast
  qed
qed

lemma activity_completes:
  assumes "CompleteTurnActivity False r th t l = Inr (d, l')"
  obtains c where "completeTurn r t l = Inr (c, l')" "d = TurnCompleted \<Longrightarrow> \<not> tc_Parked c"
  using assms CompleteWorkflowTurn_completes
  by (fastforce simp: CompleteTurnActivity_def bindE_Inr_iff split: if_split_asm)

text \<open>The trigger a resumed turn is given is an unresolved claim, so its completion commits and closes the barrier.\<close>

lemma resume_closes:
  assumes ok: "served th l" and load: "LoadPendingActions [] l = Inr as" "as \<noteq> []"
    and sel: "selectBarrier as [] ([], 0) = Some (ids, i, seq)"
    and run: "completeTurn r t l = Inr (c, l')" "\<not> tc_Parked c"
    and t: "to_TriggerEventID t = i" "to_ResolutionEventIDs t = ids" "list_all (\<lambda>d. \<not> isInput (d_Type d)) (to_Drafts t)"
  shows "\<not> HasUnresolvedPendingActions th l'"
proof -
  have pos: "list_all (\<lambda>e. 0 < e_Sequence e) (lg_Events l)" using ok by (simp add: served_def list_all_iff)
  have "owner [] l = Inr th" using ok by (simp add: owner_def served_def)
  note s = selected_rows [OF load(1) this sel load(2) pos]
  from s(1) mset_eq_setD [OF s(5)] obtain p where p: "p \<in> set (lg_Pending l)" "unresolved th p" "i = the (pa_ResolvingEventID p)"
    by auto
  with s(4) have claim: "pa_ResolvingEventID p = Some i" by (auto simp: list_all_iff)
  from ok p(1) claim obtain e where e: "e \<in> set (lg_Events l)" "e_ID e = i" "e_ThreadID e = pa_ThreadID p"
    unfolding served_def claimsStand_def list_all_iff by blast
  show ?thesis using run(1)
  proof (cases rule: completeTurn_commits)
    case (replay trigger)
    have "e = trigger" using served_trigger(4) [OF ok replay(1) e(1)] e(2) t(1) by simp
    then have "IsUnresolvedPendingResolution (e_ThreadID trigger) (e_ID trigger) l"
      using e p(1,2) claim by (auto simp: IsUnresolvedPendingResolution_def list_ex_iff unresolved_def intro!: bexI [of _ p])
    with replay(2) show ?thesis by (simp add: turnCommitted_def)
  next
    case (commit trigger q interrupt t')
    have "e = trigger" using served_trigger(4) [OF ok commit(1) e(1)] e(2) t(1) by simp
    then have th: "e_ThreadID trigger = th" using e(3) p(2) by (simp add: unresolved_def)
    note t' = interrupted_plain [OF t(3) commit(5)]
    from commit_rows(4) [OF commit(3,4)] run(2) have "to_PendingActionEventIDs t' = []" by simp
    with commit_rows(3) [OF commit(3,4)] t'(3) t(2) s(3) th show ?thesis by auto
  qed
qed

definition acknowledging :: "(ledger \<Rightarrow> runtime) \<Rightarrow> string \<Rightarrow> ledger \<Rightarrow> storeError + ledger" where
  "acknowledging rt i l = bindE (acknowledgeIdleInterrupt (rt l) [] i l) (\<lambda>(_, l1). Inr l1)"

text \<open>The identifiers a store draws are never empty; the output of a turn answers its trigger and its claims.\<close>

definition soundRuntime :: "(ledger \<Rightarrow> runtime) \<Rightarrow> bool" where
  "soundRuntime rt \<longleftrightarrow> (\<forall>l pfx n. rt_NewID (rt l) pfx n \<noteq> [])"

definition soundOutput :: "(ledger \<Rightarrow> string \<Rightarrow> string list \<Rightarrow> turnOutput) \<Rightarrow> bool" where
  "soundOutput out \<longleftrightarrow> (\<forall>l i ids. plainOutput (out l i ids) i ids)"

definition servedBy :: "(ledger \<Rightarrow> runtime) \<Rightarrow> (ledger \<Rightarrow> string \<Rightarrow> string list \<Rightarrow> turnOutput) \<Rightarrow> string \<Rightarrow> ledger \<Rightarrow> bool" where
  "servedBy rt out th l \<longleftrightarrow> soundRuntime rt \<and> soundOutput out \<and> served th l"

interpretation alone: quiet_steps "servedBy rt out th" th "acknowledging rt" "answering rt out" for rt out th
proof (unfold_locales, goal_cases)
  case (1 l)
  then show ?case by (simp add: servedBy_def served_def)
next
  case (2 l i l')
  then obtain d where "CompleteTurnActivity False (rt l) [] (idleInterrupt i) l = Inr (d, l')"
    by (auto simp: acknowledging_def acknowledgeIdleInterrupt_def bindE_Inr_iff)
  then obtain c where c: "completeTurn (rt l) (idleInterrupt i) l = Inr (c, l')" by (rule activity_completes)
  from completeTurn_quiet [OF c, of th] 2(1) show ?case by (simp add: servedBy_def soundRuntime_def idleInterrupt_def)
next
  case (3 l i l' e)
  then obtain d where "CompleteTurnActivity False (rt l) [] (idleInterrupt i) l = Inr (d, l')"
    by (auto simp: acknowledging_def acknowledgeIdleInterrupt_def bindE_Inr_iff)
  then obtain c where c: "completeTurn (rt l) (idleInterrupt i) l = Inr (c, l')" by (rule activity_completes)
  from completeTurn_quiet [OF c, of th] 3 show ?case by (simp add: servedBy_def soundRuntime_def idleInterrupt_def)
next
  case (4 l i ids seq l')
  obtain c where c: "completeTurn (rt l) (out l i ids) l = Inr (c, l')"
    using activity_completes [OF 4(2) [unfolded answering_def]] by blast
  have "plainOutput (out l i ids) i ids" using 4(1) by (simp add: servedBy_def soundOutput_def)
  with completeTurn_quiet [OF c, of th] 4(1) show ?case by (simp add: servedBy_def soundRuntime_def plainOutput_def)
next
  case (5 l as ids i seq l')
  obtain c where c: "completeTurn (rt l) (out l i ids) l = Inr (c, l')" "\<not> tc_Parked c"
    using activity_completes [OF 5(5) [unfolded answering_def]] by blast
  have "plainOutput (out l i ids) i ids" "served th l" using 5(1) by (simp_all add: servedBy_def soundOutput_def)
  then show ?case by (intro resume_closes [OF _ 5(2,3,4) c]) (simp_all add: plainOutput_def)
qed

lemma alone_acts: "alone.acts rt out = storeActivities rt (answering rt out) []"
proof -
  have "(\<lambda>i l. bindE (acknowledgeIdleInterrupt (rt l) [] i l) (\<lambda>(_, l1). Inr l1)) = acknowledging rt"
    by (simp add: acknowledging_def fun_eq_iff)
  then show ?thesis unfolding storeActivities_def by (simp only: alone.acts_def)
qed

section \<open>Properties\<close>

text \<open>
  C23. What a Workflow selects over a barrier is what the store accepts: when every unresolved action of a Thread is
  claimed, the claims and the trigger that the loop reads off its activity are distinct, complete and contain the
  trigger, so the completion that names them closes the whole barrier.
\<close>

theorem selection_closes_barrier:
  assumes "LoadPendingActions threadID l = Inr actions" "owner threadID l = Inr th" "actions \<noteq> []"
    and "selectBarrier actions [] ([], 0) = Some (ids, trigger, seq)"
    and "list_all (\<lambda>e. 0 < e_Sequence e) (lg_Events l)" "pendingOk (lg_Pending l)"
  shows "\<exists>l'. resolvePendingBarrierLocked now th trigger ids l = Inr (True, l') \<and> \<not> HasUnresolvedPendingActions th l'"
proof -
  obtain l' where r: "resolvePendingBarrierLocked now th trigger ids l = Inr (True, l')"
    using selected_accepted [OF assms(1,2,4,3,5,6)] by blast
  with barrier_clears(1) [OF r selected_rows(3) [OF assms(1,2,4,3,5)]] show ?thesis by blast
qed

text \<open>A barrier of two actions, answered in the other order: the trigger is the answer that came last.\<close>

definition sampleBarrier :: ledger where
  "sampleBarrier = sampleLedger [sampleAction ''1'' (Some ''r1'') 3, sampleAction ''2'' (Some ''r2'') 4]
     [(sampleMessage ''use1'' 1)\<lparr>e_Type := EvAgentCustomToolUse\<rparr>, (sampleMessage ''use2'' 2)\<lparr>e_Type := EvAgentCustomToolUse\<rparr>,
      (sampleAnswer ''r2'' ''use2'')\<lparr>e_Sequence := 3\<rparr>, (sampleAnswer ''r1'' ''use1'')\<lparr>e_Sequence := 4\<rparr>]"

definition sampleRefs :: "PendingActionRef list" where
  "sampleRefs =
     [\<lparr>pr_ActionEventID = ''use1'', pr_ActionEventSeq = 1, pr_Kind = PendingCustomToolResult,
       pr_ResolutionEventID = ''r1'', pr_ResolutionEventSeq = 4\<rparr>,
      \<lparr>pr_ActionEventID = ''use2'', pr_ActionEventSeq = 2, pr_Kind = PendingCustomToolResult,
       pr_ResolutionEventID = ''r2'', pr_ResolutionEventSeq = 3\<rparr>]"

theorem selection_closes_barrier_witness:
  "LoadPendingActions [] sampleBarrier = Inr sampleRefs
     \<and> selectBarrier sampleRefs [] ([], 0) = Some ([''r1'', ''r2''], ''r1'', 4)
     \<and> (\<exists>l'. resolvePendingBarrierLocked 9 ''main'' ''r1'' [''r1'', ''r2''] sampleBarrier = Inr (True, l')
          \<and> \<not> HasUnresolvedPendingActions ''main'' l')"
proof -
  have load: "LoadPendingActions [] sampleBarrier = Inr sampleRefs" by code_simp
  have own: "owner [] sampleBarrier = Inr ''main''" by code_simp
  have sel: "selectBarrier sampleRefs [] ([], 0) = Some ([''r1'', ''r2''], ''r1'', 4)" by code_simp
  have "sampleRefs \<noteq> []" "list_all (\<lambda>e. 0 < e_Sequence e) (lg_Events sampleBarrier)" "pendingOk (lg_Pending sampleBarrier)"
    by code_simp+
  with selection_closes_barrier [OF load own _ sel, of 9] load sel show ?thesis by blast
qed

text \<open>
  C24. The loop of a Session ends: alone with the store, with turns that return and publish no input of their own,
  it stops after finitely many rounds on any sound ledger, drained, parked or terminated, or with an error of an
  activity; it never spins on an interrupt, a barrier or a row it has passed.
\<close>

theorem drain_returns:
  assumes "servedBy rt out th l"
  shows "\<exists>y. drain (storeActivities rt (answering rt out) []) interruptsEnabled st l = Some y"
  using alone.drain_ends [OF assms] unfolding alone_acts .

definition sampleClock :: "ledger \<Rightarrow> runtime" where
  "sampleClock l = sampleRuntime\<lparr>rt_NewID := (\<lambda>pfx n. ''x'' @ replicate n (CHR ''i''))\<rparr>"

definition sampleAnswering :: "ledger \<Rightarrow> string \<Rightarrow> string list \<Rightarrow> turnOutput" where
  "sampleAnswering l i ids = (idleInterrupt i)\<lparr>to_ResolutionEventIDs := ids,
     to_Drafts := [\<lparr>d_ID = [], d_Type = EvAgentMessage, d_Payload = []\<rparr>]\<rparr>"

theorem drain_returns_witness:
  "\<exists>y. drain (storeActivities sampleClock (answering sampleClock sampleAnswering) []) True
        \<lparr>dr_Cursor = 0, dr_Turns = 0\<rparr> (sampleLedger [] [sampleMessage ''m1'' 1, sampleMessage ''m2'' 2]) = Some y"
proof (rule drain_returns)
  have "served ''main'' (sampleLedger [] [sampleMessage ''m1'' 1, sampleMessage ''m2'' 2])"
    unfolding served_def claimsStand_def
    by (simp add: sampleLedger_def sampleMessage_def logOk_def GetPrimarySessionThreadID_def NewPrimarySessionThread_def projected_ID)
  then show "servedBy sampleClock sampleAnswering ''main'' (sampleLedger [] [sampleMessage ''m1'' 1, sampleMessage ''m2'' 2])"
    by (simp add: servedBy_def soundRuntime_def sampleClock_def soundOutput_def plainOutput_def sampleAnswering_def
        idleInterrupt_def isInput_def drivesTurn_def event_type_defs)
qed

end
