(* ===== verification/Requests.thy ===== *)
theory Requests
  imports Compaction Resources Journal
begin

text \<open>
  Model requests (\<open>internal/model/client.go\<close>, \<open>internal/model/context.go\<close>, \<open>internal/temporal/context.go\<close>), the
  conversation helpers of \<open>internal/agentruntime\<close> and the Skill blocks that outlive compaction
  (\<open>agentruntime/skills.go\<close>). The embedded model catalog, SHA-256 in hexadecimal and \<open>json.Marshal\<close> of the
  values that are measured or hashed are the fields of an environment.
\<close>

section \<open>Requests and responses\<close>

record ToolSchema =
  sc_Type :: string
  sc_Name :: string
  sc_Description :: string
  sc_InputSchema :: "payload option"

record Request =
  rq_Model :: string
  rq_Effort :: string
  rq_Speed :: string
  rq_InferenceGeo :: string
  rq_System :: string
  rq_Messages :: "Message list"
  rq_MaxTokens :: int
  rq_Tools :: "ToolSchema list"

record Response =
  rp_Content :: "ContentBlock list"
  rp_StopReason :: string
  rp_Usage :: TokenUsage

section \<open>Conversations (internal/agentruntime/agentcore.go)\<close>

definition mergeMessage :: "Message \<Rightarrow> Message \<Rightarrow> Message" where
  "mergeMessage a b = \<lparr>mg_Role = mg_Role a, mg_Content = mg_Content a @ mg_Content b,
     mg_ContextUsage = (if mg_ContextUsage b \<noteq> None then mg_ContextUsage b else mg_ContextUsage a)\<rparr>"

definition AppendMerging :: "Message list \<Rightarrow> Message list \<Rightarrow> Message list" where
  "AppendMerging base added =
     foldl (\<lambda>out m. if out \<noteq> [] \<and> mg_Role (last out) = mg_Role m
                    then butlast out @ [mergeMessage (last out) m] else out @ [m]) base added"

definition TextBlocksToContent :: "ContentBlock list \<Rightarrow> jval list" where
  "TextBlocksToContent bs =
     map (\<lambda>b. JObj [(''type'', JStr ''text''), (''text'', JStr (cb_Text b))])
       (filter (\<lambda>b. cb_Type b = ''text'' \<and> cb_Text b \<noteq> []) bs)"

definition HasThinkingBlocks :: "ContentBlock list \<Rightarrow> bool" where
  "HasThinkingBlocks bs \<longleftrightarrow> list_ex (\<lambda>b. cb_Type b = ''thinking'' \<or> cb_Type b = ''redacted_thinking'') bs"

definition FlattenResultText :: "jval list \<Rightarrow> string" where
  "FlattenResultText content = flattenItems content"

section \<open>Skill blocks (internal/agentruntime/skills.go)\<close>

definition runtimeSkillBasePrefix :: string where
  "runtimeSkillBasePrefix = ''Base directory for this skill: ''"

definition runtimeSkillReattachTokens :: int where "runtimeSkillReattachTokens = 5000"

definition runtimeSkillsReattachTokens :: int where "runtimeSkillsReattachTokens = 25000"

definition runtimeSkillCompactionMarker :: string where
  "runtimeSkillCompactionMarker =
     nl @ nl @ ''[... skill content truncated for compaction; re-invoke the Skill to restore the full content]''"

definition RuntimeSkillName :: "payload \<Rightarrow> string + string" where
  "RuntimeSkillName input =
     (if length input \<noteq> 1 then Inl ''skill: input must contain exactly one skill name''
      else (case asStr (jget input ''skill'') of
          None \<Rightarrow> Inl ''skill: skill is required''
        | Some name \<Rightarrow>
            if trimSpace name = [] then Inl ''skill: skill is required''
            else if trimSpace name \<noteq> name then Inl ''skill: skill must be an exact available Skill name''
            else Inr name))"

definition RuntimeSkillInjectionAt :: "string \<Rightarrow> string \<Rightarrow> string \<Rightarrow> ContentBlock" where
  "RuntimeSkillInjectionAt skillRoot name body =
     textBlock (runtimeSkillBasePrefix @ skillRoot @ ''/'' @ name @ nl @ nl @ body)"

definition runtimeSkillInjectionName :: "ContentBlock \<Rightarrow> string option" where
  "runtimeSkillInjectionName b =
     (if cb_Type b \<noteq> ''text'' \<or> \<not> hasPrefix (cb_Text b) runtimeSkillBasePrefix then None
      else if hasSuffix (cb_Text b) runtimeSkillCompactionMarker then None
      else
        (let rest = trimPrefix (cb_Text b) runtimeSkillBasePrefix; line = takeWhile (\<lambda>ch. ch \<noteq> newline) rest;
             pre = SessionSkillsRoot @ ''/''
         in if newline \<notin> set rest then None
            else if \<not> hasPrefix line pre then None
            else
              (case (case splitOn (CHR ''/'') (trimPrefix line pre) of
                   [name] \<Rightarrow> Some name
                 | [scope, digest, name] \<Rightarrow>
                     if scope = ''.agents'' \<and> length digest = 24 \<and> list_all isHexByte digest then Some name else None
                 | _ \<Rightarrow> None) of
                 None \<Rightarrow> None
               | Some name \<Rightarrow>
                   if name = [] \<or> list_ex (\<lambda>ch. ch = CHR 0x5C \<or> ch = CHR 0x00) name then None else Some name)))"

definition LoadedRuntimeSkills :: "Message list \<Rightarrow> string set" where
  "LoadedRuntimeSkills ms =
     set (concat (map (\<lambda>m. concat (map (\<lambda>b. case runtimeSkillInjectionName b of None \<Rightarrow> [] | Some n \<Rightarrow> [n])
       (mg_Content m))) ms))"

record skillInjection =
  si_Name :: string
  si_Block :: ContentBlock
  si_Order :: nat

definition latestRuntimeSkillInjections :: "Message list \<Rightarrow> skillInjection list" where
  "latestRuntimeSkillInjections ms =
     (let blocks = concat (map mg_Content ms);
          latest = foldl (\<lambda>m (i, b). case runtimeSkillInjectionName b of
              None \<Rightarrow> m | Some n \<Rightarrow> aput n \<lparr>si_Name = n, si_Block = b, si_Order = i\<rparr> m) []
            (zip [0..<length blocks] blocks)
      in sort_key si_Order (map snd latest))"

fun reattachTotal :: "int \<Rightarrow> skillInjection list \<Rightarrow> int" where
  "reattachTotal acc [] = acc"
| "reattachTotal acc (e # es) =
     (let tokens = min (EstimateTextTokens (cb_Text (si_Block e))) runtimeSkillReattachTokens
      in if runtimeSkillsReattachTokens - acc < tokens then runtimeSkillsReattachTokens
         else reattachTotal (acc + tokens) es)"

definition RuntimeSkillReattachmentBudget :: "Message list \<Rightarrow> int" where
  "RuntimeSkillReattachmentBudget ms = reattachTotal 0 (latestRuntimeSkillInjections ms)"

definition truncateRuntimeSkillInjection :: "string \<Rightarrow> int \<Rightarrow> string" where
  "truncateRuntimeSkillInjection t maxTokens =
     (if EstimateTextTokens t \<le> maxTokens then t
      else
        (let wanted = max (maxTokens * 3 - int (length runtimeSkillCompactionMarker)) (int (length runtimeSkillBasePrefix));
             n = nat (min wanted (int (length t)))
         in take (if n < length t then snippetCut t n else n) t @ runtimeSkillCompactionMarker))"

text \<open>The selection goes from the latest entry to the first and stops when the budget is used up.\<close>

fun selectInjections :: "string set \<Rightarrow> int \<Rightarrow> skillInjection list \<Rightarrow> skillInjection list" where
  "selectInjections already remaining [] = []"
| "selectInjections already remaining (e # es) =
     (if remaining \<le> 0 then []
      else if si_Name e \<in> already then selectInjections already remaining es
      else
        (let limit = min runtimeSkillReattachTokens remaining;
             cut = truncateRuntimeSkillInjection (cb_Text (si_Block e)) limit
         in e\<lparr>si_Block := (si_Block e)\<lparr>cb_Text := cut\<rparr>\<rparr>
              # selectInjections already (remaining - min limit (EstimateTextTokens cut)) es))"

definition ReattachRuntimeSkillInjections :: "Message list \<Rightarrow> Message list \<Rightarrow> Message list" where
  "ReattachRuntimeSkillInjections full projected =
     (let entries = latestRuntimeSkillInjections full;
          selected = selectInjections (LoadedRuntimeSkills projected) runtimeSkillsReattachTokens (rev entries);
          blocks = map si_Block (sort_key si_Order selected)
      in if entries = [] \<or> selected = [] then projected
         else if projected = [] then [\<lparr>mg_Role = RoleUser, mg_Content = blocks, mg_ContextUsage = None\<rparr>]
         else if mg_Role (last projected) = RoleUser
         then butlast projected @ [(last projected)\<lparr>mg_Content :=
                (if hasToolResult (last projected) then mg_Content (last projected) @ blocks
                 else blocks @ mg_Content (last projected))\<rparr>]
         else AppendMerging projected [\<lparr>mg_Role = RoleUser, mg_Content = blocks, mg_ContextUsage = None\<rparr>])"

section \<open>Context of a request (internal/model/context.go)\<close>

record providerEnv =
  pv_Catalog :: "(string \<times> int) list"
  pv_Hash :: "string \<Rightarrow> string"
  pv_Codec :: codec
  pv_Tools :: "ToolSchema list \<Rightarrow> string option"
  pv_Head :: "Request \<Rightarrow> string"
  pv_Prefix :: "(Role \<times> ContentBlock list) list \<Rightarrow> string"

record ContextProfile =
  cf_ContextWindow :: int
  cf_Found :: bool

record ContextLimits =
  cl_ContextWindow :: int
  cl_MaxOutputTokens :: int
  cl_InputLimit :: int
  cl_CompactThreshold :: int
  cl_GrowthReserve :: int

record ContextMeasurement =
  cm_Tokens :: int
  cm_Exact :: bool

definition defaultContextWindowTokens :: int where "defaultContextWindowTokens = 200000"

definition defaultMaxTokens :: int where "defaultMaxTokens = 4096"

definition contextProfile :: "int \<Rightarrow> ContextProfile" where
  "contextProfile window = \<lparr>cf_ContextWindow = (if window \<le> 0 then defaultContextWindowTokens else window), cf_Found = True\<rparr>"

fun aliasProfile :: "string \<Rightarrow> ContextProfile option \<Rightarrow> (string \<times> int) list \<Rightarrow> ContextProfile" where
  "aliasProfile modelID found [] =
     (case found of Some p \<Rightarrow> p | None \<Rightarrow> \<lparr>cf_ContextWindow = defaultContextWindowTokens, cf_Found = False\<rparr>)"
| "aliasProfile modelID found ((i, window) # rest) =
     (if \<not> hasPrefix i (modelID @ ''-'') then aliasProfile modelID found rest
      else (case found of
          None \<Rightarrow> aliasProfile modelID (Some (contextProfile window)) rest
        | Some p \<Rightarrow>
            if cf_ContextWindow p \<noteq> cf_ContextWindow (contextProfile window)
            then \<lparr>cf_ContextWindow = defaultContextWindowTokens, cf_Found = False\<rparr>
            else aliasProfile modelID found rest))"

definition ResolveContextProfile :: "(string \<times> int) list \<Rightarrow> string \<Rightarrow> ContextProfile" where
  "ResolveContextProfile catalog modelID0 =
     (let modelID = trimSpace modelID0
      in case find (\<lambda>(i, _). i = modelID) catalog of
           Some (_, window) \<Rightarrow> contextProfile window
         | None \<Rightarrow> (case find (\<lambda>(i, _). hasPrefix modelID (i @ ''-'')) catalog of
             Some (_, window) \<Rightarrow> contextProfile window
           | None \<Rightarrow> aliasProfile modelID None catalog))"

definition RequestContextLimits :: "providerEnv \<Rightarrow> Request \<Rightarrow> ContextLimits" where
  "RequestContextLimits env r =
     (let window = cf_ContextWindow (ResolveContextProfile (pv_Catalog env) (rq_Model r));
          wanted = (if rq_MaxTokens r \<le> 0 then defaultMaxTokens else rq_MaxTokens r);
          maxOutput = (if window \<le> wanted then window div 4 else wanted);
          buffer = (if 800000 \<le> window then 50000 else if 400000 \<le> window then 30000 else 13000);
          inputLimit = window - maxOutput;
          growthReserve = maxOutput + 15000;
          threshold = inputLimit - max buffer growthReserve
      in \<lparr>cl_ContextWindow = window, cl_MaxOutputTokens = maxOutput, cl_InputLimit = inputLimit,
          cl_CompactThreshold = max threshold 1, cl_GrowthReserve = growthReserve\<rparr>)"

definition RequestContextFingerprint :: "providerEnv \<Rightarrow> Request \<Rightarrow> string" where
  "RequestContextFingerprint env r =
     pv_Hash env (pv_Head env (r\<lparr>rq_Messages := [], rq_MaxTokens := cl_MaxOutputTokens (RequestContextLimits env r)\<rparr>))"

definition messagePrefixFingerprint :: "providerEnv \<Rightarrow> Message list \<Rightarrow> nat \<Rightarrow> int \<Rightarrow> string" where
  "messagePrefixFingerprint env ms lastIndex blocks =
     (if length ms \<le> lastIndex then []
      else if blocks < 0 \<or> int (length (mg_Content (ms ! lastIndex))) < blocks then []
      else pv_Hash env (pv_Prefix env
        (map (\<lambda>m. (mg_Role m, mg_Content m)) (take lastIndex ms)
          @ [(mg_Role (ms ! lastIndex), take (nat blocks) (mg_Content (ms ! lastIndex)))])))"

definition messagesAfterAnchor :: "Message list \<Rightarrow> nat \<Rightarrow> int \<Rightarrow> Message list" where
  "messagesAfterAnchor ms index blocks =
     (if blocks < int (length (mg_Content (ms ! index)))
      then [\<lparr>mg_Role = mg_Role (ms ! index), mg_Content = drop (nat blocks) (mg_Content (ms ! index)),
              mg_ContextUsage = None\<rparr>] else [])
     @ drop (Suc index) ms"

definition estimateFullRequestTokens :: "providerEnv \<Rightarrow> Request \<Rightarrow> int" where
  "estimateFullRequestTokens env r =
     EstimateTextTokens (rq_System r) + EstimateMessagesTokens (pv_Codec env) (rq_Messages r)
       + (case pv_Tools env (rq_Tools r) of None \<Rightarrow> 0 | Some enc \<Rightarrow> EstimateTextTokens enc)"

definition usableAnchor :: "providerEnv \<Rightarrow> Request \<Rightarrow> nat \<Rightarrow> ContextUsageAnchor option" where
  "usableAnchor env r index =
     (let m = rq_Messages r ! index
      in case mg_ContextUsage m of
           None \<Rightarrow> None
         | Some anchor \<Rightarrow>
             if cu_RequestFingerprint anchor \<noteq> RequestContextFingerprint env r
                \<or> cu_ContentBlocks anchor < 0 \<or> int (length (mg_Content m)) < cu_ContentBlocks anchor
                \<or> messagePrefixFingerprint env (rq_Messages r) index (cu_ContentBlocks anchor) \<noteq> cu_PrefixFingerprint anchor
             then None else Some anchor)"

text \<open>The latest anchor that still fits counts, and what came after it is estimated.\<close>

fun measureFrom :: "providerEnv \<Rightarrow> Request \<Rightarrow> nat \<Rightarrow> ContextMeasurement" where
  "measureFrom env r 0 = \<lparr>cm_Tokens = estimateFullRequestTokens env r, cm_Exact = False\<rparr>"
| "measureFrom env r (Suc index) =
     (case usableAnchor env r index of
        None \<Rightarrow> measureFrom env r index
      | Some anchor \<Rightarrow>
          \<lparr>cm_Tokens = ContextTokens (cu_Usage anchor)
             + EstimateMessagesTokens (pv_Codec env) (messagesAfterAnchor (rq_Messages r) index (cu_ContentBlocks anchor)),
           cm_Exact = True\<rparr>)"

definition MeasureRequestContext :: "providerEnv \<Rightarrow> Request \<Rightarrow> ContextMeasurement" where
  "MeasureRequestContext env r = measureFrom env r (length (rq_Messages r))"

definition appendAssistantForContext :: "Message list \<Rightarrow> Message \<Rightarrow> Message list" where
  "appendAssistantForContext ms assistant =
     (if ms \<noteq> [] \<and> mg_Role (last ms) = RoleAssistant
      then butlast ms @ [(last ms)\<lparr>mg_Content := mg_Content (last ms) @ mg_Content assistant,
             mg_ContextUsage := mg_ContextUsage assistant\<rparr>]
      else ms @ [assistant])"

definition AnchoredAssistantMessage :: "providerEnv \<Rightarrow> Request \<Rightarrow> Response \<Rightarrow> Message" where
  "AnchoredAssistantMessage env r response =
     (let message = \<lparr>mg_Role = RoleAssistant, mg_Content = rp_Content response, mg_ContextUsage = None\<rparr>;
          anchored = appendAssistantForContext (rq_Messages r) message;
          blocks = int (length (mg_Content (last anchored)))
      in if ContextTokens (rp_Usage response) \<le> 0 then message
         else message\<lparr>mg_ContextUsage := Some
           \<lparr>cu_Usage = rp_Usage response, cu_RequestFingerprint = RequestContextFingerprint env r,
            cu_PrefixFingerprint = messagePrefixFingerprint env anchored (length anchored - 1) blocks,
            cu_ContentBlocks = blocks\<rparr>\<rparr>)"

section \<open>Admission of a request (internal/temporal/context.go)\<close>

record preparedRequestContext =
  pc_Request :: Request
  pc_Measurement :: ContextMeasurement
  pc_Limits :: ContextLimits
  pc_Projection :: ContextProjection

definition requestContextOverhead :: "providerEnv \<Rightarrow> Request \<Rightarrow> int" where
  "requestContextOverhead env r = EstimateTextTokens (rq_System r)
     + (case pv_Tools env (rq_Tools r) of None \<Rightarrow> 0 | Some enc \<Rightarrow> EstimateTextTokens enc)"

definition contextLimitError :: "preparedRequestContext \<Rightarrow> string" where
  "contextLimitError p = ''model request context is too large: measured '' @ itoa (cm_Tokens (pc_Measurement p))
     @ '' tokens, input limit '' @ itoa (cl_InputLimit (pc_Limits p)) @ '' tokens for a ''
     @ itoa (cl_ContextWindow (pc_Limits p)) @ ''-token window''"

definition messageBudgetOf :: "providerEnv \<Rightarrow> Request \<Rightarrow> bool \<Rightarrow> int \<Rightarrow> int" where
  "messageBudgetOf env r forceCompact override =
     (let tokens = EstimateMessagesTokens (pv_Codec env) (rq_Messages r);
          room = (if 0 < override then override
                  else cl_CompactThreshold (RequestContextLimits env r) - requestContextOverhead env r);
          aggressive = tokens * 3 div 4;
          budget = (if forceCompact \<and> 0 < aggressive \<and> aggressive < room then aggressive else room)
      in max budget 1)"

definition prepareRequestContext ::
    "providerEnv \<Rightarrow> Request \<Rightarrow> bool \<Rightarrow> int \<Rightarrow> string + preparedRequestContext" where
  "prepareRequestContext env r forceCompact override =
     (let limits = RequestContextLimits env r;
          tokens = EstimateMessagesTokens (pv_Codec env) (rq_Messages r);
          measurement = MeasureRequestContext env r;
          result = \<lparr>pc_Request = r, pc_Measurement = measurement, pc_Limits = limits,
            pc_Projection = \<lparr>cp_Compacted = False, cp_OriginalEstimatedTokens = tokens,
              cp_ProjectedEstimatedTokens = tokens, cp_DroppedMessages = 0\<rparr>\<rparr>;
          measured = cm_Tokens measurement;
          shouldCompact = (if 0 < override then override < tokens
            else forceCompact \<or> cl_CompactThreshold limits \<le> measured
                 \<or> cl_InputLimit limits \<le> measured + cl_GrowthReserve limits)
      in if \<not> shouldCompact
         then (if cl_InputLimit limits \<le> measured then Inl (contextLimitError result) else Inr result)
         else
           (let budget = messageBudgetOf env r forceCompact override;
                target = (if budget < tokens then max (budget - RuntimeSkillReattachmentBudget (rq_Messages r)) 1 else budget);
                (compacted, projection) = CompactMessages (pv_Codec env) (rq_Messages r) target;
                kept = (if cp_Compacted projection then ReattachRuntimeSkillInjections (rq_Messages r) compacted else compacted);
                smaller = r\<lparr>rq_Messages := kept\<rparr>;
                result1 = (if cp_Compacted projection
                  then result\<lparr>pc_Request := smaller,
                         pc_Projection := projection\<lparr>cp_ProjectedEstimatedTokens :=
                           EstimateMessagesTokens (pv_Codec env) kept\<rparr>,
                         pc_Measurement := MeasureRequestContext env smaller\<rparr>
                  else result\<lparr>pc_Request := smaller, pc_Projection := projection\<rparr>)
            in if cl_InputLimit limits \<le> cm_Tokens (pc_Measurement result1) then Inl (contextLimitError result1)
               else if forceCompact \<and> \<not> cp_Compacted projection
               then Inl ''model request exceeded the provider context window and no older context can be compacted''
               else Inr result1))"


section \<open>Whole conversations\<close>

text \<open>
  A conversation the provider accepts: roles alternate, calls are the assistant's, results are the user's, and the
  results of a message answer calls of the message before and answer them all; the last message leaves none open.
\<close>

definition usesOf :: "Role \<times> blockShape list \<Rightarrow> string list" where
  "usesOf m = map (\<lambda>(_, i, _). i) (filter (\<lambda>(t, _). t = ''tool_use'') (snd m))"

definition resultsOf :: "Role \<times> blockShape list \<Rightarrow> string list" where
  "resultsOf m = map (\<lambda>(_, _, _, _, i, _). i) (filter (\<lambda>(t, _). t = ''tool_result'') (snd m))"

definition wholeNext :: "Role option \<Rightarrow> string list \<Rightarrow> Role \<times> blockShape list \<Rightarrow> bool" where
  "wholeNext prev ids m \<longleftrightarrow> prev \<noteq> Some (fst m) \<and> set (resultsOf m) = set ids
     \<and> (resultsOf m \<noteq> [] \<longrightarrow> fst m = RoleUser) \<and> (usesOf m \<noteq> [] \<longrightarrow> fst m = RoleAssistant)"

fun wholeFrom :: "Role option \<Rightarrow> string list \<Rightarrow> (Role \<times> blockShape list) list \<Rightarrow> bool" where
  "wholeFrom prev ids [] = True"
| "wholeFrom prev ids (m # ms) = (wholeNext prev ids m \<and> wholeFrom (Some (fst m)) (usesOf m) ms)"

definition lastRole :: "Role option \<Rightarrow> (Role \<times> blockShape list) list \<Rightarrow> Role option" where
  "lastRole prev xs = (if xs = [] then prev else Some (fst (last xs)))"

definition lastUses :: "string list \<Rightarrow> (Role \<times> blockShape list) list \<Rightarrow> string list" where
  "lastUses ids xs = (if xs = [] then ids else usesOf (last xs))"

definition wholeShape :: "(Role \<times> blockShape list) list \<Rightarrow> bool" where
  "wholeShape xs \<longleftrightarrow> wholeFrom None [] xs \<and> lastUses [] xs = []"

definition wholeConversation :: "Message list \<Rightarrow> bool" where
  "wholeConversation ms \<longleftrightarrow> wholeShape (map shapeM ms)"

lemma whole_is_legal: "wholeFrom prev ids ms \<Longrightarrow> legalFrom prev ids ms"
proof (induction prev ids ms rule: wholeFrom.induct)
  case (2 prev ids m ms)
  obtain r bs where m: "m = (r, bs)" by (cases m) auto
  have a: "list_all (\<lambda>(t, _, _, _, for, _). t = ''tool_result'' \<longrightarrow> r = RoleUser \<and> for \<in> set ids) bs
      \<longleftrightarrow> set (resultsOf m) \<subseteq> set ids \<and> (resultsOf m \<noteq> [] \<longrightarrow> r = RoleUser)"
    unfolding m by (induction bs) (auto simp: resultsOf_def)
  have b: "list_all (\<lambda>(t, _). t = ''tool_use'' \<longrightarrow> r = RoleAssistant) bs \<longleftrightarrow> (usesOf m \<noteq> [] \<longrightarrow> r = RoleAssistant)"
    unfolding m by (induction bs) (auto simp: usesOf_def)
  have c: "map (\<lambda>(_, i, _). i) (filter (\<lambda>(t, _). t = ''tool_use'') bs) = usesOf m" by (simp add: m usesOf_def)
  have "legalFrom prev ids ((r, bs) # ms)"
    using 2 a b c by (simp add: wholeNext_def m)
  then show ?case by (simp add: m)
qed simp

lemma wholeFrom_app:
  "wholeFrom prev ids (xs @ ys) \<longleftrightarrow> wholeFrom prev ids xs \<and> wholeFrom (lastRole prev xs) (lastUses ids xs) ys"
proof (induction xs arbitrary: prev ids)
  case Nil
  then show ?case by (simp add: lastRole_def lastUses_def)
next
  case (Cons x xs)
  have "lastRole prev (x # xs) = lastRole (Some (fst x)) xs" "lastUses ids (x # xs) = lastUses (usesOf x) xs"
    by (simp_all add: lastRole_def lastUses_def)
  then show ?case using Cons.IH [of "Some (fst x)" "usesOf x"] by auto
qed

lemma resultFree_results: "resultFree m \<longleftrightarrow> resultsOf m = []"
  by (cases m) (auto simp: resultFree_def resultsOf_def filter_empty_conv list_all_iff)

text \<open>One message after a whole conversation, or folded into its last message.\<close>

definition plainShape :: "Role \<times> blockShape list \<Rightarrow> bool" where
  "plainShape m \<longleftrightarrow> usesOf m = [] \<and> resultsOf m = []"

definition mergeShape :: "Role \<times> blockShape list \<Rightarrow> Role \<times> blockShape list \<Rightarrow> Role \<times> blockShape list" where
  "mergeShape a b = (fst a, snd a @ snd b)"

definition appendShape :: "(Role \<times> blockShape list) list \<Rightarrow> Role \<times> blockShape list \<Rightarrow> (Role \<times> blockShape list) list" where
  "appendShape xs m = (if xs \<noteq> [] \<and> fst (last xs) = fst m then butlast xs @ [mergeShape (last xs) m] else xs @ [m])"

lemma merge_shape_ids: "usesOf (mergeShape a b) = usesOf a @ usesOf b" "resultsOf (mergeShape a b) = resultsOf a @ resultsOf b"
    "fst (mergeShape a b) = fst a"
  by (simp_all add: usesOf_def resultsOf_def mergeShape_def)

lemma AppendMerging_shape: "map shapeM (AppendMerging ms added) = foldl appendShape (map shapeM ms) (map shapeM added)"
proof -
  have one: "map shapeM (if out \<noteq> [] \<and> mg_Role (last out) = mg_Role m then butlast out @ [mergeMessage (last out) m] else out @ [m])
      = appendShape (map shapeM out) (shapeM m)" for out m
    by (auto simp: appendShape_def last_map shapeM_role map_butlast mergeShape_def mergeMessage_def shapeM_def)
  show ?thesis unfolding AppendMerging_def
    by (induction added arbitrary: ms) (simp_all only: foldl_Nil foldl_Cons list.map one)
qed

lemma wholeFrom_last: "xs \<noteq> [] \<Longrightarrow> wholeFrom prev ids xs \<longleftrightarrow>
    wholeFrom prev ids (butlast xs) \<and> wholeNext (lastRole prev (butlast xs)) (lastUses ids (butlast xs)) (last xs)"
  using wholeFrom_app [of prev ids "butlast xs" "[last xs]"] by simp

lemma append_whole:
  assumes "wholeFrom None [] xs" "lastUses [] xs = []" "resultsOf m = []" "usesOf m \<noteq> [] \<Longrightarrow> fst m = RoleAssistant"
  shows "wholeFrom None [] (appendShape xs m) \<and> lastUses [] (appendShape xs m) = usesOf m
    \<and> lastRole None (appendShape xs m) = Some (fst m)"
proof (cases "xs \<noteq> [] \<and> fst (last xs) = fst m")
  case True
  then have "usesOf (last xs) = []" using assms(2) by (simp add: lastUses_def)
  with True assms show ?thesis
    by (auto simp: appendShape_def wholeFrom_app wholeFrom_last [of xs] wholeNext_def merge_shape_ids lastUses_def lastRole_def)
next
  case False
  with assms show ?thesis by (auto simp: appendShape_def wholeFrom_app wholeNext_def lastRole_def lastUses_def)
qed

lemma append_plain: "wholeShape xs \<Longrightarrow> plainShape m \<Longrightarrow> wholeShape (appendShape xs m)"
  using append_whole [of xs m] by (auto simp: wholeShape_def plainShape_def)

text \<open>An assistant message with calls and a user message with their results.\<close>

lemma append_round:
  assumes "wholeShape xs" "fst a = RoleAssistant" "resultsOf a = []" "fst u = RoleUser" "usesOf u = []"
    and "set (resultsOf u) = set (usesOf a)"
  shows "wholeShape (appendShape (appendShape xs a) u)"
proof -
  let ?ys = "appendShape xs a"
  have a: "wholeFrom None [] ?ys" "lastUses [] ?ys = usesOf a" "lastRole None ?ys = Some RoleAssistant"
    using append_whole [of xs a] assms by (auto simp: wholeShape_def)
  have ne: "?ys \<noteq> []" by (simp add: appendShape_def)
  then have "fst (last ?ys) = RoleAssistant" using a(3) by (simp add: lastRole_def)
  then have "appendShape ?ys u = ?ys @ [u]" using assms(4) by (simp add: appendShape_def)
  with a assms show ?thesis by (auto simp: wholeShape_def wholeFrom_app wholeNext_def lastUses_def)
qed

section \<open>Whole conversations survive compaction\<close>

lemma drop_whole:
  assumes "wholeFrom None [] (xs @ y # ys)" "resultsOf y = []" "prev \<noteq> Some (fst y)"
  shows "wholeFrom prev [] (y # ys)"
  using assms by (auto simp: wholeFrom_app wholeNext_def)

lemma withSummary_whole:
  assumes "wholeFrom None [] (map shapeM ms)" "ms \<noteq> []" "resultsOf (shapeM (hd ms)) = []"
  shows "wholeFrom None [] (map shapeM (withSummary summary ms))
    \<and> lastUses [] (map shapeM (withSummary summary ms)) = lastUses [] (map shapeM ms)"
proof -
  obtain m rest where ms: "ms = m # rest" using assms(2) by (cases ms) auto
  have tb: "shapeB (textBlock summary) = (''text'', [], [], None, [], False)"
    by (simp add: shapeB_def textBlock_def emptyBlock_def)
  define n where "n = m\<lparr>mg_Content := textBlock summary # mg_Content m\<rparr>"
  have n: "fst (shapeM n) = fst (shapeM m)" "usesOf (shapeM n) = usesOf (shapeM m)" "resultsOf (shapeM n) = resultsOf (shapeM m)"
    by (simp_all add: n_def shapeM_def usesOf_def resultsOf_def tb)
  define s where "s = \<lparr>mg_Role = RoleUser, mg_Content = [textBlock summary], mg_ContextUsage = None\<rparr>"
  have s: "fst (shapeM s) = RoleUser" "usesOf (shapeM s) = []" "resultsOf (shapeM s) = []"
    by (simp_all add: s_def shapeM_def usesOf_def resultsOf_def tb)
  have "withSummary summary ms = (if mg_Role m = RoleUser then n # rest else s # m # rest)"
    by (simp add: withSummary_def ms n_def s_def)
  then show ?thesis using assms(1,3) n s
    by (cases "mg_Role m") (auto simp: ms wholeNext_def lastUses_def shapeM_role)
qed

lemma compaction_keeps_whole:
  assumes "wholeConversation messages"
  shows "wholeConversation (fst (CompactMessages c messages n))"
proof -
  have inplace: "wholeConversation (fst (compactInPlace c messages n p))" for p
    using assms compactOversized_shape [of c messages n]
    by (simp add: compactInPlace_def wholeConversation_def cloneMessages_def case_prod_beta)
  show ?thesis
  proof (cases "n \<le> 0 \<or> EstimateMessagesTokens c messages \<le> n \<or> length messages \<le> 1 \<or> chosenCut c messages n = 0")
    case True
    then show ?thesis using assms inplace by (auto simp: CompactMessages_def Let_def cloneMessages_def)
  next
    case False
    let ?k = "chosenCut c messages n"
    let ?s = "withSummary (compactedSummary (take ?k messages) (clampSummary n)) (drop ?k messages)"
    have legal: "legalConversation messages"
      using assms whole_is_legal by (auto simp: wholeConversation_def wholeShape_def legalConversation_def)
    have k: "?k < length messages" "resultFree (shapeM (messages ! ?k))" using chosenCut_legal [OF legal, of c n] False by auto
    have split: "map shapeM messages = map shapeM (take ?k messages)
        @ shapeM (messages ! ?k) # map shapeM (drop (Suc ?k) messages)"
      using k(1) by (metis append_take_drop_id Cons_nth_drop_Suc list.simps(9) map_append)
    have whole: "wholeFrom None [] (map shapeM messages)" "lastUses [] (map shapeM messages) = []"
      using assms by (auto simp: wholeConversation_def wholeShape_def)
    have "wholeFrom None [] (map shapeM (drop ?k messages))"
      using drop_whole [OF whole(1) [unfolded split], of None] k by (simp add: resultFree_results flip: Cons_nth_drop_Suc)
    then have "wholeFrom None [] (map shapeM ?s)" "lastUses [] (map shapeM ?s) = lastUses [] (map shapeM (drop ?k messages))"
      using withSummary_whole [of "drop ?k messages"] k by (auto simp: hd_drop_conv_nth resultFree_results)
    moreover have "lastUses [] (map shapeM (drop ?k messages)) = []"
      using whole(2) k(1) by (simp add: lastUses_def last_map split: if_split_asm)
    ultimately have "wholeConversation (fst (compactOversizedToolResults c ?s n))"
      by (simp add: wholeConversation_def wholeShape_def compactOversized_shape)
    with False show ?thesis by (simp add: CompactMessages_def Let_def cloneMessages_def)
  qed
qed

section \<open>Skill blocks keep a conversation whole\<close>

lemma injection_text: "runtimeSkillInjectionName b = Some n \<Longrightarrow> cb_Type b = ''text''"
  by (simp add: runtimeSkillInjectionName_def split: if_split_asm)

lemma latest_text: "e \<in> set (latestRuntimeSkillInjections ms) \<Longrightarrow> cb_Type (si_Block e) = ''text''"
proof -
  let ?f = "\<lambda>m (i, b). case runtimeSkillInjectionName b of
              None \<Rightarrow> m | Some n \<Rightarrow> aput n \<lparr>si_Name = n, si_Block = b, si_Order = i\<rparr> m"
  have "\<forall>e \<in> snd ` set m. cb_Type (si_Block e) = ''text'' \<Longrightarrow> \<forall>e \<in> snd ` set (foldl ?f m xs). cb_Type (si_Block e) = ''text''" for m xs
  proof (induction xs arbitrary: m)
    case (Cons x xs)
    obtain i b where x: "x = (i, b)" by (cases x) auto
    have "\<forall>e \<in> snd ` set (?f m x). cb_Type (si_Block e) = ''text''"
      using Cons.prems injection_text [of b]
      by (cases "runtimeSkillInjectionName b") (auto simp: x dest!: set_aput_sub)
    from Cons.IH [OF this] show ?case by simp
  qed simp
  from this [of "[]" "zip [0..<length (concat (map mg_Content ms))] (concat (map mg_Content ms))"]
  show "e \<in> set (latestRuntimeSkillInjections ms) \<Longrightarrow> cb_Type (si_Block e) = ''text''"
    unfolding latestRuntimeSkillInjections_def Let_def by auto
qed

lemma selected_text:
  "\<forall>e \<in> set es. cb_Type (si_Block e) = ''text'' \<Longrightarrow> e \<in> set (selectInjections already remaining es) \<Longrightarrow> cb_Type (si_Block e) = ''text''"
  by (induction already remaining es rule: selectInjections.induct) (auto simp: Let_def split: if_split_asm)

lemma text_blocks_plain:
  assumes "\<forall>b \<in> set bs. cb_Type b = ''text''"
  shows "filter (\<lambda>(t, _). t = ''tool_use'') (map shapeB bs) = []" "filter (\<lambda>(t, _). t = ''tool_result'') (map shapeB bs) = []"
  using assms by (auto simp: filter_empty_conv shapeB_def)

lemma reattach_whole:
  assumes "wholeConversation projected"
  shows "wholeConversation (ReattachRuntimeSkillInjections full projected)"
proof -
  define blocks where "blocks = map si_Block (sort_key si_Order
    (selectInjections (LoadedRuntimeSkills projected) runtimeSkillsReattachTokens (rev (latestRuntimeSkillInjections full))))"
  have "\<forall>b \<in> set blocks. cb_Type b = ''text''"
    unfolding blocks_def using latest_text selected_text [of "rev (latestRuntimeSkillInjections full)"] by auto
  note plain = text_blocks_plain [OF this]
  let ?m = "\<lparr>mg_Role = RoleUser, mg_Content = blocks, mg_ContextUsage = None\<rparr>"
  have m: "plainShape (shapeM ?m)" using plain by (simp add: plainShape_def usesOf_def resultsOf_def shapeM_def)
  have alone: "wholeConversation [?m]" using append_plain [of "[]", OF _ m]
    by (simp add: wholeConversation_def wholeShape_def appendShape_def lastUses_def)
  have ends: "wholeConversation (AppendMerging projected [?m])"
    using append_plain [OF _ m] assms by (simp add: wholeConversation_def AppendMerging_shape)
  define n where "n = (last projected)\<lparr>mg_Content := (if hasToolResult (last projected)
    then mg_Content (last projected) @ blocks else blocks @ mg_Content (last projected))\<rparr>"
  have n: "fst (shapeM n) = fst (shapeM (last projected))" "usesOf (shapeM n) = usesOf (shapeM (last projected))"
    "resultsOf (shapeM n) = resultsOf (shapeM (last projected))"
    using plain by (simp_all add: n_def shapeM_def usesOf_def resultsOf_def)
  have inside: "wholeConversation (butlast projected @ [n])" if "projected \<noteq> []"
  proof -
    have "wholeNext prev ids (shapeM n) = wholeNext prev ids (shapeM (last projected))" for prev ids
      by (simp add: wholeNext_def n)
    moreover have "map shapeM projected = map shapeM (butlast projected) @ [shapeM (last projected)]"
      using that by (metis append_butlast_last_id list.simps(8,9) map_append)
    ultimately show ?thesis using assms n
      by (simp add: wholeConversation_def wholeShape_def wholeFrom_app lastUses_def)
  qed
  show ?thesis using assms alone ends inside
    unfolding ReattachRuntimeSkillInjections_def Let_def blocks_def [symmetric] n_def by auto
qed

section \<open>What is not compacted is not changed\<close>

lemma trimPass_unchanged: "fst (snd (trimPass est n sel f ms changed ps)) = False \<Longrightarrow>
    trimPass est n sel f ms changed ps = (ms, changed, False) \<and> \<not> changed"
proof (induction ps arbitrary: ms changed)
  case (Cons p ps)
  obtain i j where p: "p = (i, j)" by (cases p) auto
  show ?case
  proof (cases "sel (mg_Content (ms ! i) ! j)")
    case True
    with Cons.prems Cons.IH [of "updateBlock ms i j f" True] show ?thesis
      by (auto simp: p Let_def split: if_split_asm)
  next
    case False
    then have "trimPass est n sel f ms changed (p # ps) = trimPass est n sel f ms changed ps" by (simp add: p)
    with Cons.IH [of ms changed] Cons.prems show ?thesis by metis
  qed
qed simp

lemma compactOversized_unchanged:
  assumes "compactOversizedToolResults c ms n = (ms', False)"
  shows "ms' = ms"
proof -
  let ?est = "EstimateMessagesTokens c"
  obtain ms1 compacted returned where t: "trimPass ?est n (\<lambda>b. cb_Type b = ''tool_result'' \<and> 1024 \<le> originalBytes b)
      trimBlock ms False (positions ms) = (ms1, compacted, returned)" by (rule prod_cases3)
  have u: "\<not> compacted \<Longrightarrow> ms1 = ms"
    using trimPass_unchanged [of ?est n "\<lambda>b. cb_Type b = ''tool_result'' \<and> 1024 \<le> originalBytes b" trimBlock ms False "positions ms"]
    unfolding t by simp
  show ?thesis
  proof (cases "?est ms \<le> n")
    case True
    with assms show ?thesis by (simp add: compactOversizedToolResults_def)
  next
    case False
    with assms u show ?thesis
      unfolding compactOversizedToolResults_def Let_def t by (auto simp: case_prod_beta split: if_split_asm)
  qed
qed

lemma uncompacted_same:
  assumes "CompactMessages c ms n = (ms', p)" "\<not> cp_Compacted p"
  shows "ms' = ms"
proof (cases "n \<le> 0 \<or> EstimateMessagesTokens c ms \<le> n \<or> length ms \<le> 1 \<or> chosenCut c ms n = 0")
  case True
  have "compactInPlace c ms n q = (ms', p) \<Longrightarrow> ms' = ms" for q
    using assms(2) compactOversized_unchanged [of c ms n]
    by (auto simp: compactInPlace_def cloneMessages_def case_prod_beta prod_eq_iff split: if_split_asm)
  with True assms(1) show ?thesis by (auto simp: CompactMessages_def Let_def cloneMessages_def split: if_split_asm)
next
  case False
  with assms show ?thesis by (auto simp: CompactMessages_def Let_def)
qed

section \<open>What is admitted\<close>

text \<open>
  The outcome of an admitted request: either the request itself, or the compacted conversation with its Skill blocks.
\<close>

lemma prepared_cases:
  assumes "prepareRequestContext env r forceCompact override = Inr p"
  obtains (asIs) "pc_Request p = r" "pc_Measurement p = MeasureRequestContext env r" "\<not> cp_Compacted (pc_Projection p)"
      "pc_Limits p = RequestContextLimits env r" "cm_Tokens (pc_Measurement p) < cl_InputLimit (pc_Limits p)"
      "forceCompact \<longrightarrow> 0 < override"
  | (compacted) target where "cp_Compacted (pc_Projection p)"
      "pc_Request p = r\<lparr>rq_Messages := ReattachRuntimeSkillInjections (rq_Messages r)
         (fst (CompactMessages (pv_Codec env) (rq_Messages r) target))\<rparr>"
      "pc_Measurement p = MeasureRequestContext env (pc_Request p)"
      "pc_Limits p = RequestContextLimits env r" "cm_Tokens (pc_Measurement p) < cl_InputLimit (pc_Limits p)"
proof -
  let ?tokens = "EstimateMessagesTokens (pv_Codec env) (rq_Messages r)" and ?limits = "RequestContextLimits env r"
  let ?measured = "cm_Tokens (MeasureRequestContext env r)"
  define should where "should = (if 0 < override then override < ?tokens
            else forceCompact \<or> cl_CompactThreshold ?limits \<le> ?measured
                 \<or> cl_InputLimit ?limits \<le> ?measured + cl_GrowthReserve ?limits)"
  define target where "target = (if messageBudgetOf env r forceCompact override < ?tokens
    then max (messageBudgetOf env r forceCompact override - RuntimeSkillReattachmentBudget (rq_Messages r)) 1
    else messageBudgetOf env r forceCompact override)"
  obtain ms q where c: "CompactMessages (pv_Codec env) (rq_Messages r) target = (ms, q)" by fastforce
  show thesis
  proof (cases "should \<and> cp_Compacted q")
    case True
    show thesis
    proof (rule compacted [of target], goal_cases)
      case 1
      from assms True c show ?case unfolding prepareRequestContext_def Let_def should_def [symmetric] target_def [symmetric]
        by (auto split: if_split_asm)
    next
      case 2
      from assms True c show ?case unfolding prepareRequestContext_def Let_def should_def [symmetric] target_def [symmetric]
        by (auto split: if_split_asm)
    next
      case 3
      from assms True c show ?case unfolding prepareRequestContext_def Let_def should_def [symmetric] target_def [symmetric]
        by (auto split: if_split_asm)
    next
      case 4
      from assms True c show ?case unfolding prepareRequestContext_def Let_def should_def [symmetric] target_def [symmetric]
        by (auto split: if_split_asm)
    next
      case 5
      from assms True c show ?case unfolding prepareRequestContext_def Let_def should_def [symmetric] target_def [symmetric]
        by (auto split: if_split_asm)
    qed
  next
    case False
    have free: "\<not> should \<Longrightarrow> forceCompact \<Longrightarrow> 0 < override" by (simp add: should_def split: if_split_asm)
    have same: "\<not> cp_Compacted q \<Longrightarrow> ms = rq_Messages r" by (rule uncompacted_same [OF c])
    then have "\<not> cp_Compacted q \<Longrightarrow> r\<lparr>rq_Messages := ms\<rparr> = r" by simp
    then have "pc_Request p = r \<and> pc_Measurement p = MeasureRequestContext env r \<and> \<not> cp_Compacted (pc_Projection p)
      \<and> pc_Limits p = ?limits \<and> cm_Tokens (pc_Measurement p) < cl_InputLimit (pc_Limits p)
      \<and> (forceCompact \<longrightarrow> 0 < override)"
      using assms False c free unfolding prepareRequestContext_def Let_def should_def [symmetric] target_def [symmetric]
      by (auto split: if_split_asm)
    then show thesis by (elim conjE) (rule asIs)
  qed
qed

section \<open>Properties\<close>

lemma limits_frame: "RequestContextLimits env (r\<lparr>rq_Messages := ms\<rparr>) = RequestContextLimits env r"
proof -
  have "rq_Model (r\<lparr>rq_Messages := ms\<rparr>) = rq_Model r" "rq_MaxTokens (r\<lparr>rq_Messages := ms\<rparr>) = rq_MaxTokens r" by simp_all
  then show ?thesis unfolding RequestContextLimits_def by (simp only:)
qed


definition sampleEnv :: providerEnv where
  "sampleEnv = \<lparr>pv_Catalog = [], pv_Hash = id, pv_Codec = sampleCodec, pv_Tools = (\<lambda>_. Some ''[]''),
     pv_Head = rq_Model, pv_Prefix = (\<lambda>ps. itoa (int (length ps)))\<rparr>"

definition sampleRequest :: Request where
  "sampleRequest = \<lparr>rq_Model = ''m'', rq_Effort = [], rq_Speed = [], rq_InferenceGeo = [], rq_System = ''be brief'',
     rq_Messages = sampleConversation, rq_MaxTokens = 0, rq_Tools = []\<rparr>"

lemma sampleEnv_limits: "RequestContextLimits sampleEnv sampleRequest =
    \<lparr>cl_ContextWindow = 200000, cl_MaxOutputTokens = 4096, cl_InputLimit = 195904, cl_CompactThreshold = 176808,
     cl_GrowthReserve = 19096\<rparr>"
proof -
  have "cf_ContextWindow (ResolveContextProfile (pv_Catalog sampleEnv) (rq_Model sampleRequest)) = 200000"
    by (simp add: ResolveContextProfile_def sampleEnv_def Let_def defaultContextWindowTokens_def)
  moreover have "rq_MaxTokens sampleRequest = 0" by (simp add: sampleRequest_def)
  ultimately show ?thesis by (simp add: RequestContextLimits_def Let_def defaultMaxTokens_def)
qed

lemma sample_admitted:
  "\<exists>p. prepareRequestContext sampleEnv sampleRequest False 0 = Inr p \<and> pc_Request p = sampleRequest"
proof -
  have "cm_Tokens (MeasureRequestContext sampleEnv sampleRequest) \<le> 100" by code_simp
  then show ?thesis by (simp add: prepareRequestContext_def Let_def sampleEnv_limits)
qed

text \<open>
  C11. A request that is admitted fits: its context, measured as it will be sent, is below the input limit of its
  model, the window less the output it asks for, whether it was compacted or not.
\<close>

theorem prepared_request_fits:
  assumes "prepareRequestContext env r forceCompact override = Inr p"
  shows "pc_Measurement p = MeasureRequestContext env (pc_Request p)
    \<and> cm_Tokens (MeasureRequestContext env (pc_Request p))
        < cl_ContextWindow (RequestContextLimits env (pc_Request p)) - cl_MaxOutputTokens (RequestContextLimits env (pc_Request p))
    \<and> (forceCompact \<longrightarrow> 0 < override \<or> cp_Compacted (pc_Projection p))"
proof -
  have inp: "cl_InputLimit (RequestContextLimits env r)
      = cl_ContextWindow (RequestContextLimits env r) - cl_MaxOutputTokens (RequestContextLimits env r)"
    unfolding RequestContextLimits_def Let_def by (simp only: ContextLimits.select_convs)
  from assms show ?thesis
  proof (cases rule: prepared_cases)
    case asIs
    with inp show ?thesis by simp
  next
    case (compacted target)
    then have "cl_InputLimit (pc_Limits p)
        = cl_ContextWindow (RequestContextLimits env (pc_Request p)) - cl_MaxOutputTokens (RequestContextLimits env (pc_Request p))"
      using inp limits_frame by simp
    with compacted(1,3,5) show ?thesis by simp
  qed
qed

theorem prepared_request_fits_witness:
  "\<exists>p. prepareRequestContext sampleEnv sampleRequest False 0 = Inr p
     \<and> cm_Tokens (MeasureRequestContext sampleEnv (pc_Request p)) < 200000 - 4096"
proof -
  obtain p where p: "prepareRequestContext sampleEnv sampleRequest False 0 = Inr p" "pc_Request p = sampleRequest"
    using sample_admitted by blast
  with prepared_request_fits [OF p(1)] show ?thesis by (auto simp: sampleEnv_limits)
qed

text \<open>
  Admission keeps a conversation whole: if roles alternate and every call is answered, fully, in the next
  message, then the same holds of the admitted request, through the cut, the summary, the trimmed results and the
  Skill instructions that are attached again.
\<close>

lemma prepared_keeps_whole:
  assumes "wholeConversation (rq_Messages r)" "prepareRequestContext env r forceCompact override = Inr p"
  shows "wholeConversation (rq_Messages (pc_Request p))"
  using assms(2)
proof (cases rule: prepared_cases)
  case asIs
  with assms(1) show ?thesis by simp
next
  case (compacted target)
  with reattach_whole [OF compaction_keeps_whole [OF assms(1)]] show ?thesis by simp
qed

lemma AppendMerging_one: "AppendMerging ms [m] =
    (if ms \<noteq> [] \<and> mg_Role (last ms) = mg_Role m then butlast ms @ [mergeMessage (last ms) m] else ms @ [m])"
  by (simp add: AppendMerging_def)

text \<open>
  C12. Usage the provider reported is used exactly: after a response whose anchored message is folded into the
  conversation, the next request with whatever the user side adds is measured as the reported tokens plus the
  estimate of the addition only.
\<close>

theorem measurement_exact:
  assumes "0 < ContextTokens (rp_Usage response)" "mg_Role u = RoleUser" "mg_ContextUsage u = None"
    and "follow = [] \<or> follow = [u]"
  shows "MeasureRequestContext env (r\<lparr>rq_Messages :=
        AppendMerging (AppendMerging (rq_Messages r) [AnchoredAssistantMessage env r response]) follow\<rparr>)
    = \<lparr>cm_Tokens = ContextTokens (rp_Usage response) + EstimateMessagesTokens (pv_Codec env) follow, cm_Exact = True\<rparr>"
proof -
  let ?ms = "rq_Messages r" and ?plain = "\<lparr>mg_Role = RoleAssistant, mg_Content = rp_Content response, mg_ContextUsage = None\<rparr>"
  define anchored where "anchored = appendAssistantForContext ?ms ?plain"
  define k where "k = length anchored - 1"
  define blocks where "blocks = int (length (mg_Content (last anchored)))"
  define anchor where "anchor = \<lparr>cu_Usage = rp_Usage response, cu_RequestFingerprint = RequestContextFingerprint env r,
            cu_PrefixFingerprint = messagePrefixFingerprint env anchored k blocks, cu_ContentBlocks = blocks\<rparr>"
  have a: "AnchoredAssistantMessage env r response = ?plain\<lparr>mg_ContextUsage := Some anchor\<rparr>"
    using assms(1) by (simp add: AnchoredAssistantMessage_def Let_def anchored_def anchor_def blocks_def k_def)
  define ms1 where "ms1 = AppendMerging ?ms [AnchoredAssistantMessage env r response]"
  have ne: "anchored \<noteq> []" by (simp add: anchored_def appendAssistantForContext_def)
  have ms1: "ms1 = butlast anchored @ [(last anchored)\<lparr>mg_ContextUsage := Some anchor\<rparr>]"
    unfolding ms1_def a AppendMerging_one anchored_def appendAssistantForContext_def by (auto simp: mergeMessage_def)
  have same: "map (\<lambda>m. (mg_Role m, mg_Content m)) ms1 = map (\<lambda>m. (mg_Role m, mg_Content m)) anchored"
    using ne unfolding ms1 by (cases anchored rule: rev_cases) auto
  have role: "mg_Role (last ms1) = RoleAssistant"
    unfolding ms1 anchored_def appendAssistantForContext_def by auto
  define ms2 where "ms2 = AppendMerging ms1 follow"
  have ms2: "ms2 = ms1 @ follow"
    using assms(2,4) role unfolding ms2_def by (auto simp: AppendMerging_one) (simp_all add: AppendMerging_def)
  define r2 where "r2 = r\<lparr>rq_Messages := ms2\<rparr>"
  have k: "length anchored = Suc k" using ne by (simp add: k_def)
  have len: "length ms1 = Suc k" using ne by (simp add: ms1 k_def)
  have at_k: "ms2 ! k = (last anchored)\<lparr>mg_ContextUsage := Some anchor\<rparr>" using ne by (simp add: ms2 ms1 k_def nth_append)
  have fp: "RequestContextFingerprint env r2 = RequestContextFingerprint env r"
    by (simp add: RequestContextFingerprint_def r2_def limits_frame)
  have takes: "map (\<lambda>m. (mg_Role m, mg_Content m)) (take k ms2) = map (\<lambda>m. (mg_Role m, mg_Content m)) (take k anchored)"
  proof -
    have "take k ms2 = butlast anchored" by (simp add: ms2 ms1 k_def)
    moreover have "take k anchored = butlast anchored" by (simp add: k_def butlast_conv_take)
    ultimately show ?thesis by simp
  qed
  have last: "anchored ! k = last anchored" using ne by (simp add: k_def last_conv_nth)
  have lens: "\<not> length ms2 \<le> k" "\<not> length anchored \<le> k" using len ne k by (simp_all add: ms2)
  have shape: "mg_Role (ms2 ! k) = mg_Role (anchored ! k)" "mg_Content (ms2 ! k) = mg_Content (anchored ! k)"
    unfolding at_k last by simp_all
  have "messagePrefixFingerprint env ms2 k blocks = messagePrefixFingerprint env anchored k blocks"
    unfolding messagePrefixFingerprint_def shape takes using lens by simp
  then have usable: "usableAnchor env r2 k = Some anchor"
    using at_k fp by (simp add: usableAnchor_def r2_def anchor_def blocks_def)
  have after: "messagesAfterAnchor ms2 k blocks = follow" using at_k len by (simp add: messagesAfterAnchor_def blocks_def ms2)
  have top: "measureFrom env r2 (Suc k) = \<lparr>cm_Tokens = ContextTokens (rp_Usage response)
      + EstimateMessagesTokens (pv_Codec env) follow, cm_Exact = True\<rparr>"
    using usable after by (simp add: r2_def anchor_def)
  have "MeasureRequestContext env r2 = measureFrom env r2 (Suc k)"
  proof (cases "follow = []")
    case True
    then show ?thesis using len by (simp add: MeasureRequestContext_def r2_def ms2)
  next
    case False
    with assms(4) have f: "follow = [u]" by simp
    have "usableAnchor env r2 (Suc k) = None"
      using assms(3) len by (simp add: usableAnchor_def r2_def ms2 f nth_append)
    then show ?thesis using len by (simp add: MeasureRequestContext_def r2_def ms2 f)
  qed
  with top show ?thesis by (simp add: r2_def ms2_def ms1_def)
qed

theorem measurement_exact_witness:
  "MeasureRequestContext sampleEnv (sampleRequest\<lparr>rq_Messages :=
      AppendMerging (AppendMerging sampleConversation [AnchoredAssistantMessage sampleEnv sampleRequest
        \<lparr>rp_Content = [textBlock ''done''], rp_StopReason = ''end_turn'', rp_Usage = zeroUsage\<lparr>InputTokens := 90, OutputTokens := 5\<rparr>\<rparr>])
      [\<lparr>mg_Role = RoleUser, mg_Content = [textBlock ''thanks''], mg_ContextUsage = None\<rparr>]\<rparr>)
   = \<lparr>cm_Tokens = 95 + EstimateMessagesTokens sampleCodec
        [\<lparr>mg_Role = RoleUser, mg_Content = [textBlock ''thanks''], mg_ContextUsage = None\<rparr>], cm_Exact = True\<rparr>"
proof -
  let ?u = "\<lparr>mg_Role = RoleUser, mg_Content = [textBlock ''thanks''], mg_ContextUsage = None\<rparr>"
  let ?r = "\<lparr>rp_Content = [textBlock ''done''], rp_StopReason = ''end_turn'', rp_Usage = zeroUsage\<lparr>InputTokens := 90, OutputTokens := 5\<rparr>\<rparr>"
  have t: "ContextTokens (rp_Usage ?r) = 95" by code_simp
  have m: "rq_Messages sampleRequest = sampleConversation" "pv_Codec sampleEnv = sampleCodec"
    by (simp_all add: sampleRequest_def sampleEnv_def)
  show ?thesis using measurement_exact [of ?r ?u "[?u]" sampleEnv sampleRequest] unfolding t m by simp
qed

end
