(* ===== verification/TurnLoop.thy ===== *)
theory TurnLoop
  imports ToolRounds
begin

text \<open>
  The loop of one turn (\<open>runWorkflowTurnInternal\<close> in \<open>internal/temporal/agent_workflow.go\<close>): prepare, resume a
  barrier, then rounds of a model request with its retries, the provider's stop reason, the evaluation of an
  outcome and the tools, until the turn is committed. A phase goes on with its state or has ended the turn.
\<close>

datatype 'a flow = Go 'a | Ended TurnDisposition

definition ending :: "storeError + TurnDisposition \<times> 'w \<Rightarrow> storeError + 'a flow \<times> 'w" where
  "ending x = bindE x (\<lambda>(d, w). Inr (Ended d, w))"

text \<open>A phase that may have ended the turn, and what follows it.\<close>

definition andThen :: "storeError + 'a flow \<times> 'w \<Rightarrow> ('a \<Rightarrow> 'w \<Rightarrow> storeError + 'b flow \<times> 'w) \<Rightarrow> storeError + 'b flow \<times> 'w" where
  "andThen x f = bindE x (\<lambda>(r, w). case r of Ended d \<Rightarrow> Inr (Ended d, w) | Go a \<Rightarrow> f a w)"

lemma bindE_cong [fundef_cong]: "x = x' \<Longrightarrow> (\<And>a. x' = Inr a \<Longrightarrow> f a = g a) \<Longrightarrow> bindE x f = bindE x' g"
  by (cases x') simp_all

section \<open>Stop reasons and delays\<close>

datatype providerResponseDisposition =
    providerResponseComplete
  | providerResponseExecuteTools
  | providerResponseContinuePause
  | providerResponseContinueOutput

definition classifyProviderResponse :: "(string \<Rightarrow> string) \<Rightarrow> string \<Rightarrow> nat \<Rightarrow> providerResponseDisposition \<times> string" where
  "classifyProviderResponse qt reason toolUseCount =
     (if reason \<in> {''end_turn'', ''stop_sequence'', ''refusal'', ''model_context_window_exceeded''}
      then (providerResponseComplete,
            if 0 < toolUseCount then ''model returned '' @ reason @ '' with a client tool_use block'' else [])
      else if reason = ''tool_use''
      then (if toolUseCount = 0
            then (providerResponseComplete, ''model returned tool_use without a client tool_use block'')
            else (providerResponseExecuteTools, []))
      else if reason = ''pause_turn''
      then (if 0 < toolUseCount
            then (providerResponseComplete, ''model returned pause_turn with a client tool_use block'')
            else (providerResponseContinuePause, []))
      else if reason = ''max_tokens''
      then (if 0 < toolUseCount
            then (providerResponseComplete, ''model returned max_tokens with a potentially incomplete client tool_use block'')
            else (providerResponseContinueOutput, []))
      else if reason = [] then (providerResponseComplete, ''model response has no stop_reason'')
      else (providerResponseComplete, ''model returned unsupported stop_reason '' @ qt reason))"

definition maxWorkflowToolRounds :: int where "maxWorkflowToolRounds = 20"
definition maxPauseTurnContinuations :: nat where "maxPauseTurnContinuations = 5"
definition maxOutputContinuations :: nat where "maxOutputContinuations = 3"
definition maxModelRequestAttempts :: nat where "maxModelRequestAttempts = 3"
definition modelRetryInitialDelay :: int where "modelRetryInitialDelay = 1000000000"
definition modelRetryMaximumDelay :: int where "modelRetryMaximumDelay = 60000000000"

definition modelRetryDelay :: "ModelRetryError \<Rightarrow> nat \<Rightarrow> int" where
  "modelRetryDelay retry attempt =
     (let delay = (if 0 < mr_RetryAfterMillis retry then i64Mul (mr_RetryAfterMillis retry) 1000000
            else i64Mul modelRetryInitialDelay (wrap64 (2 ^ attempt)))
      in if modelRetryMaximumDelay < delay then modelRetryMaximumDelay else delay)"

section \<open>One model request\<close>

record modelCall =
  mc_Called :: CallModelResult
  mc_Interrupted :: bool
  mc_Request :: Request
  mc_Messages :: "Message list"
  mc_Turn :: turnState

definition compactedDraft :: EventDraft where
  "compactedDraft = \<lparr>d_ID = [], d_Type = EvAgentThreadContextCompacted, d_Payload = []\<rparr>"

definition accountedModel :: "Request \<Rightarrow> Model" where
  "accountedModel request = \<lparr>m_ID = rq_Model request, m_Effort = rq_Effort request, m_Speed = rq_Speed request,
     m_InferenceGeo = rq_InferenceGeo request, m_EffortExplicit = False, m_SpeedExplicit = False\<rparr>"

text \<open>What precedes the model's answer: admission by the budget, the span's start, and the usage that is accounted.\<close>

definition callModel ::
    "turnContext \<Rightarrow> 'w turnActivities \<Rightarrow> nat \<Rightarrow> nat \<Rightarrow> Request \<Rightarrow> turnState \<Rightarrow> 'w \<Rightarrow>
     storeError + (CallModelResult \<times> interruptibleActivityOutcome \<times> turnState) \<times> 'w" where
  "callModel c acts rnd attempt request t w =
     (let v = wc_Versions c; (startID, endID) = modelRequestAttemptSpanIDs c rnd attempt;
          input = \<lparr>ci_ThreadID = (if pt_IsChild (wc_Prepared c) then pt_ThreadID (wc_Prepared c) else []),
            ci_ModelRequestStartID = startID, ci_ModelRequestEndID = endID,
            ci_HandleRetryableErrors = gv_ModelRetryLifecycle v, ci_Request = request\<rparr>
      in bindE (if gv_ModelRequestAccounting v then tw_AwaitAdmission acts w else Inr w) (\<lambda>w1.
         bindE (if gv_LiveModelSpanStarts v then tw_StartModelRequest acts startID w1 else Inr w1) (\<lambda>w2.
         bindE (tw_CallModel acts input w2) (\<lambda>((called, oc), w3).
           (let usage = rp_Usage (cr_Response called);
                t1 = (if io_Completed oc then t\<lparr>ws_Usage := usageAdd (ws_Usage t) usage\<rparr> else t)
            in bindE (if gv_ModelRequestAccounting v \<and> io_Completed oc \<and> hasTokenUsage usage
                      then tw_AccountModelRequest acts (cr_ModelRequestEndID called)
                             (accountedModel request) usage (rp_StopReason (cr_Response called)) w3
                      else Inr w3) (\<lambda>w4. Inr ((called, oc, t1), w4)))))))"

definition cancelledCall :: "turnContext \<Rightarrow> nat \<Rightarrow> nat \<Rightarrow> CallModelResult" where
  "cancelledCall c rnd attempt =
     (let (startID, endID) = modelRequestAttemptSpanIDs c rnd attempt
      in \<lparr>cr_Response = \<lparr>rp_Content = [], rp_StopReason = [], rp_Usage = zeroUsage\<rparr>, cr_MessageEventID = [],
          cr_ThinkingEventID = [], cr_ModelRequestStartID = startID, cr_ModelRequestEndID = endID, cr_ToolSteps = [],
          cr_FatalError = [], cr_FatalErrorType = [], cr_ContextOverflow = False, cr_ContextOverflowError = [],
          cr_RetryError = None\<rparr>)"

definition spanStart :: "turnContext \<Rightarrow> CallModelResult \<Rightarrow> turnState \<Rightarrow> turnState" where
  "spanStart c called t = (if gv_LiveModelSpanStarts (wc_Versions c) then t else addDrafts (modelRequestStartDraft called) t)"

definition spanEnd :: "CallModelResult \<Rightarrow> bool \<Rightarrow> turnState \<Rightarrow> turnState" where
  "spanEnd called isError t = addDrafts (modelRequestEndDraft called isError) t"

text \<open>A failed request that is tried again: its retry is published, waited for and taken up.\<close>

definition retryModel ::
    "turnContext \<Rightarrow> 'w turnActivities \<Rightarrow> nat \<Rightarrow> nat \<Rightarrow> ModelRetryError \<Rightarrow> turnState \<Rightarrow> 'w \<Rightarrow> storeError + turnState flow \<times> 'w" where
  "retryModel c acts rnd attempt retry t w =
     (let (errorID, rescheduledID, runningID) = modelRetryEventIDs c rnd attempt
      in bindE (flushOutput c acts t w) (\<lambda>(t1, w1).
         bindE (tw_RecordModelRetry acts retry errorID rescheduledID w1) (\<lambda>w2.
         bindE (tw_WaitModelRetry acts (modelRetryDelay retry attempt) w2) (\<lambda>(interrupted, w3).
           if interrupted then ending (completeInterrupted c acts t1 w3)
           else bindE (tw_ResumeModelRetry acts runningID w3) (\<lambda>w4. Inr (Go t1, w4))))))"

text \<open>
  The attempts at one request: a context overflow is recovered from once, by compaction, and a retryable error as
  long as attempts are left.
\<close>

function requestModel ::
    "turnContext \<Rightarrow> 'w turnActivities \<Rightarrow> nat \<Rightarrow> nat \<Rightarrow> bool \<Rightarrow> Request \<Rightarrow> Message list \<Rightarrow> turnState \<Rightarrow> 'w \<Rightarrow>
     storeError + modelCall flow \<times> 'w" where
  "requestModel c acts rnd attempt recovered request messages t w =
     bindE (callModel c acts rnd attempt request t w) (\<lambda>((called, oc, t1), w1).
       if io_Interrupted oc \<and> \<not> io_Completed oc
       then ending (completeInterrupted c acts
              (spanEnd (cancelledCall c rnd attempt) True (spanStart c (cancelledCall c rnd attempt) t1)) w1)
       else
         (let t2 = spanStart c called t1; t3 = spanEnd called True t2
          in if cr_ContextOverflow called
             then (if io_Interrupted oc then ending (completeInterrupted c acts t3 w1)
                   else if recovered
                   then ending (terminateTyped c acts t3 ''model_request_failed_error''
                     (if cr_ContextOverflowError called = []
                      then ''model request exceeded the provider context window after compaction''
                      else cr_ContextOverflowError called) w1)
                   else (case prepareRequestContext (wc_Env c) request True 0 of
                       Inl e \<Rightarrow> ending (terminateTyped c acts t3 ''model_request_failed_error'' e w1)
                     | Inr p \<Rightarrow> bindE (flushOutput c acts (addDrafts [compactedDraft] t3) w1) (\<lambda>(t4, w2).
                         requestModel c acts rnd (Suc attempt) True (pc_Request p) (rq_Messages (pc_Request p)) t4 w2)))
             else if cr_FatalError called \<noteq> []
             then (if io_Interrupted oc then ending (completeInterrupted c acts t3 w1)
                   else ending (terminateTyped c acts t3 (cr_FatalErrorType called) (cr_FatalError called) w1))
             else (case cr_RetryError called of
                 None \<Rightarrow> Inr (Go \<lparr>mc_Called = called, mc_Interrupted = io_Interrupted oc, mc_Request = request,
                   mc_Messages = messages, mc_Turn = t2\<rparr>, w1)
               | Some retry \<Rightarrow>
                   if io_Interrupted oc then ending (completeInterrupted c acts t3 w1)
                   else if maxModelRequestAttempts \<le> attempt + 1 then ending (exhaustModelRetries c acts t3 retry w1)
                   else bindE (retryModel c acts rnd attempt retry t3 w1) (\<lambda>(r, w2). case r of
                       Ended d \<Rightarrow> Inr (Ended d, w2)
                     | Go t4 \<Rightarrow> requestModel c acts rnd (Suc attempt) recovered request messages t4 w2))))"
  by pat_completeness auto

termination
  by (relation "measures [\<lambda>(c, acts, rnd, attempt, recovered, _). if recovered then 0 else 1,
      \<lambda>(c, acts, rnd, attempt, _). maxModelRequestAttempts - attempt]") auto

declare requestModel.simps [simp del]

section \<open>The state of the loop\<close>

record loopState =
  ls_Turn :: turnState
  ls_Messages :: "Message list"
  ls_OutcomeIteration :: int
  ls_OutcomeFinished :: bool
  ls_PauseContinuations :: nat
  ls_OutputContinuations :: nat
  ls_PauseChainActive :: bool
  ls_PauseMessagesBase :: "Message list"
  ls_PauseTranscriptBase :: "Message list"

definition onTurn :: "(turnState \<Rightarrow> turnState) \<Rightarrow> loopState \<Rightarrow> loopState" where
  "onTurn f s = s\<lparr>ls_Turn := f (ls_Turn s)\<rparr>"

text \<open>One answer of the model, with what it was asked and how many mappings there were before.\<close>

record answer =
  an_Called :: CallModelResult
  an_Interrupted :: bool
  an_Request :: Request
  an_Assistant :: Message
  an_ToolUses :: "ContentBlock list"
  an_Disposition :: providerResponseDisposition
  an_Failure :: string
  an_Checkpoint :: nat

section \<open>Evaluation of an outcome\<close>

definition evaluateOutcome ::
    "turnContext \<Rightarrow> 'w turnActivities \<Rightarrow> EvaluateOutcomeInput \<Rightarrow> turnState \<Rightarrow> 'w \<Rightarrow>
     storeError + (EvaluateOutcomeResult \<times> interruptibleActivityOutcome \<times> turnState) \<times> 'w" where
  "evaluateOutcome c acts input t w =
     bindE (tw_EvaluateOutcome acts input w) (\<lambda>((evaluated0, oc), w1).
       (let evaluated = (if gv_OutcomeHeartbeats (wc_Versions c) \<and> io_Completed oc
              then evaluated0\<lparr>or_StartEventID := oi_StartEventID input, or_EndEventID := oi_EndEventID input\<rparr> else evaluated0);
            t1 = (if io_Completed oc then t\<lparr>ws_Usage := usageAdd (ws_Usage t) (or_Usage evaluated)\<rparr> else t)
        in bindE (if io_Completed oc \<and> gv_ModelRequestAccounting (wc_Versions c) \<and> hasTokenUsage (or_Usage evaluated)
                  then tw_AccountModelRequest acts (oi_EndEventID input) (oi_Model input) (or_Usage evaluated)
                         (or_StopReason evaluated) w1
                  else Inr w1) (\<lambda>w2. Inr ((evaluated, oc, t1), w2))))"

definition userText :: "string \<Rightarrow> Message" where
  "userText s = \<lparr>mg_Role = RoleUser, mg_Content = [textBlock s], mg_ContextUsage = None\<rparr>"

text \<open>What goes to the model, and to the private transcript, as the user's words.\<close>

definition addUserText :: "turnContext \<Rightarrow> string \<Rightarrow> Message list \<Rightarrow> loopState \<Rightarrow> loopState" where
  "addUserText c txt base s =
     (let s1 = s\<lparr>ls_Messages := AppendMerging base [userText txt]\<rparr>
      in if pt_UsesProviderTranscript (wc_Prepared c) then onTurn (addTranscript [userText txt]) s1 else s1)"

definition feedbackText :: "EvaluateOutcomeResult \<Rightarrow> string" where
  "feedbackText evaluated = ''Independent outcome evaluation: '' @ or_Explanation evaluated @ nl
     @ (if or_Result evaluated = ''max_iterations_reached''
        then ''The evaluation budget is exhausted. Provide one final acknowledgment of the best available result.''
        else ''Revise the deliverable to address this feedback, then present the updated result.'')"

definition outcomePhase ::
    "turnContext \<Rightarrow> 'w turnActivities \<Rightarrow> OutcomeSpec \<Rightarrow> Message list \<Rightarrow> loopState \<Rightarrow> 'w \<Rightarrow> storeError + loopState flow \<times> 'w" where
  "outcomePhase c acts outcome cand s w =
     (let v = wc_Versions c; r = pt_Request (wc_Prepared c); iteration = ls_OutcomeIteration s;
          (startID, endID) = outcomeEvaluationSpanIDs c iteration;
          input = \<lparr>oi_StartEventID = startID, oi_EndEventID = endID, oi_Model = accountedModel r, oi_Outcome = outcome,
            oi_Candidate = cand, oi_Iteration = iteration,
            oi_FinalCycle = os_MaxIterations outcome \<le> iteration + 1\<rparr>
      in bindE (if gv_ModelRequestAccounting v
                then bindE (flushOutput c acts (ls_Turn s) w) (\<lambda>(t, w1). bindE (tw_AwaitAdmission acts w1) (\<lambda>w2. Inr (t, w2)))
                else Inr (ls_Turn s, w)) (\<lambda>(t1, w1).
         bindE (if gv_OutcomeHeartbeats v
                then bindE (flushOutput c acts (addDrafts [outcomeEvaluationStartDraft outcome iteration startID] t1) w1)
                       (\<lambda>(t, w2). Inr (t\<lparr>ws_ActiveEvaluationStartID := startID, ws_ActiveIteration := iteration\<rparr>, w2))
                else Inr (t1, w1)) (\<lambda>(t2, w2).
         bindE (evaluateOutcome c acts input t2 w2) (\<lambda>((evaluated, oc, t3), w3).
           if io_Interrupted oc \<and> \<not> io_Completed oc then ending (completeInterrupted c acts t3 w3)
           else if or_FatalError evaluated \<noteq> []
           then (if io_Interrupted oc then ending (completeInterrupted c acts t3 w3)
                 else ending (terminate c acts
                   (if gv_OutcomeHeartbeats v
                    then (addDrafts [outcomeEvaluationFailureDraft outcome iteration startID endID evaluated] t3)
                           \<lparr>ws_ActiveEvaluationStartID := []\<rparr>
                    else t3) (or_FatalError evaluated) w3))
           else
             (let t4 = (if gv_OutcomeHeartbeats v
                    then (let t = addDrafts [outcomeEvaluationEndDraft outcome iteration evaluated] t3
                          in if io_Interrupted oc then t else t\<lparr>ws_ActiveEvaluationStartID := []\<rparr>)
                    else addDrafts (outcomeEvaluationDrafts outcome iteration evaluated) t3);
                  s1 = s\<lparr>ls_Turn := t4\<rparr>
              in if io_Interrupted oc then ending (completeInterrupted c acts t4 w3)
                 else if or_Result evaluated \<in> {''satisfied'', ''failed''} then ending (complete c acts t4 [] w3)
                 else if or_Result evaluated = ''max_iterations_reached''
                 then Inr (Go (addUserText c (feedbackText evaluated) cand (s1\<lparr>ls_OutcomeFinished := True\<rparr>)), w3)
                 else if or_Result evaluated = ''needs_revision''
                 then Inr (Go (addUserText c (feedbackText evaluated) cand (s1\<lparr>ls_OutcomeIteration := iteration + 1\<rparr>)), w3)
                 else ending (terminate c acts t4 ''grader returned an unsupported outcome result'' w3))))))"

section \<open>After the answer\<close>

definition toolNameForProviderID :: "ContentBlock list \<Rightarrow> string \<Rightarrow> string" where
  "toolNameForProviderID bs i =
     (case find (\<lambda>b. cb_Type b = ''tool_use'' \<and> cb_ToolUseID b = i) bs of None \<Rightarrow> [] | Some b \<Rightarrow> cb_ToolName b)"

definition plannedProviderID :: "PlannedToolStep \<Rightarrow> string" where
  "plannedProviderID p = (if ps_ProviderToolUseID p = [] then ps_ToolUseEventID p else ps_ProviderToolUseID p)"

definition newMappings :: "turnContext \<Rightarrow> CallModelResult \<Rightarrow> providerResponseDisposition \<Rightarrow> ProviderToolUseMapping list" where
  "newMappings c called disposition =
     (if gv_ProviderStopReasons (wc_Versions c) \<and> disposition \<noteq> providerResponseExecuteTools then []
      else map (\<lambda>p. \<lparr>pm_PublicEventID = ps_ToolUseEventID p, pm_ProviderToolUseID = plannedProviderID p,
             pm_ToolName = toolNameForProviderID (rp_Content (cr_Response called)) (plannedProviderID p)\<rparr>)
           (filter (\<lambda>p. case indexTurnTools (pt_Tools (wc_Prepared c))
                 (toolNameForProviderID (rp_Content (cr_Response called)) (plannedProviderID p)) of
               None \<Rightarrow> True | Some d \<Rightarrow> \<not> privateTool (ut_Kind d)) (cr_ToolSteps called)))"

text \<open>The transcript and the mappings of an answer; older histories restart the transcript of a chain of pauses.\<close>

definition recordAnswer :: "turnContext \<Rightarrow> answer \<Rightarrow> loopState \<Rightarrow> loopState" where
  "recordAnswer c a s =
     (let v = wc_Versions c; legacy = (gv_ProviderStopReasons v \<and> \<not> gv_CumulativePauseContinuations v);
          pausing = (an_Disposition a = providerResponseContinuePause);
          s1 = (if \<not> pt_UsesProviderTranscript (wc_Prepared c) then s
                else
                  (let s0 = (if \<not> (legacy \<and> pausing) then s
                         else if ls_PauseChainActive s
                         then onTurn (\<lambda>t. t\<lparr>ws_TranscriptDelta := ls_PauseTranscriptBase s\<rparr>) s
                         else s\<lparr>ls_PauseTranscriptBase := ws_TranscriptDelta (ls_Turn s)\<rparr>)
                   in onTurn (\<lambda>t. (addTranscript [an_Assistant a] t)\<lparr>ws_ToolUseMappings := ws_ToolUseMappings t
                        @ newMappings c (an_Called a) (an_Disposition a)\<rparr>) s0))
      in if legacy \<and> \<not> pausing then s1\<lparr>ls_PauseChainActive := False\<rparr> else s1)"

definition thinkingDrafts :: "CallModelResult \<Rightarrow> EventDraft list" where
  "thinkingDrafts called = (if cr_ThinkingEventID called = [] then []
     else [\<lparr>d_ID = cr_ThinkingEventID called, d_Type = EvAgentThinking, d_Payload = []\<rparr>])"

definition messageDrafts :: "CallModelResult \<Rightarrow> EventDraft list" where
  "messageDrafts called =
     (let content = TextBlocksToContent (rp_Content (cr_Response called))
      in if content = [] then []
         else [\<lparr>d_ID = cr_MessageEventID called, d_Type = EvAgentMessage, d_Payload = [(''content'', JArr content)]\<rparr>])"

definition textUnnamed :: "CallModelResult \<Rightarrow> bool" where
  "textUnnamed called \<longleftrightarrow> TextBlocksToContent (rp_Content (cr_Response called)) \<noteq> [] \<and> cr_MessageEventID called = []"

definition continuePause ::
    "turnContext \<Rightarrow> 'w turnActivities \<Rightarrow> answer \<Rightarrow> loopState \<Rightarrow> 'w \<Rightarrow> storeError + loopState flow \<times> 'w" where
  "continuePause c acts a s w =
     (let t = spanEnd (an_Called a) False (ls_Turn s); cumulative = gv_CumulativePauseContinuations (wc_Versions c)
      in if an_Interrupted a then ending (completeInterrupted c acts t w)
         else if maxPauseTurnContinuations \<le> ls_PauseContinuations s
         then ending (terminateTyped c acts t ''model_request_failed_error'' ''model exceeded the pause_turn continuation limit'' w)
         else
           (let base = (if \<not> cumulative \<and> ls_PauseChainActive s then ls_PauseMessagesBase s else ls_Messages s)
            in Inr (Go (s\<lparr>ls_Turn := t, ls_PauseContinuations := ls_PauseContinuations s + 1,
                 ls_PauseMessagesBase := (if \<not> cumulative \<and> \<not> ls_PauseChainActive s then ls_Messages s else ls_PauseMessagesBase s),
                 ls_PauseChainActive := (ls_PauseChainActive s \<or> \<not> cumulative),
                 ls_Messages := AppendMerging base [an_Assistant a]\<rparr>), w)))"

definition continueOutputText :: string where
  "continueOutputText = ''Output token limit reached. Continue directly from where you stopped without apologizing or recapping.''"

definition continueOutput ::
    "turnContext \<Rightarrow> 'w turnActivities \<Rightarrow> answer \<Rightarrow> loopState \<Rightarrow> 'w \<Rightarrow> storeError + loopState flow \<times> 'w" where
  "continueOutput c acts a s w =
     (let t = spanEnd (an_Called a) False (ls_Turn s)
      in if an_Interrupted a then ending (completeInterrupted c acts t w)
         else if maxOutputContinuations \<le> ls_OutputContinuations s
         then ending (terminateTyped c acts t ''model_request_failed_error'' ''model exceeded the max_tokens continuation limit'' w)
         else Inr (Go (addUserText c continueOutputText (AppendMerging (ls_Messages s) [an_Assistant a])
                (s\<lparr>ls_Turn := t, ls_OutputContinuations := ls_OutputContinuations s + 1\<rparr>)), w))"

text \<open>No calls: the turn is complete, or its outcome is evaluated.\<close>

definition finishPhase ::
    "turnContext \<Rightarrow> 'w turnActivities \<Rightarrow> answer \<Rightarrow> loopState \<Rightarrow> 'w \<Rightarrow> storeError + loopState flow \<times> 'w" where
  "finishPhase c acts a s w =
     (let t = spanEnd (an_Called a) False (ls_Turn s)
      in case pt_Outcome (wc_Prepared c) of
           None \<Rightarrow> ending (complete c acts t [] w)
         | Some outcome \<Rightarrow>
             if ls_OutcomeFinished s then ending (complete c acts t [] w)
             else outcomePhase c acts outcome (AppendMerging (ls_Messages s) [an_Assistant a]) (s\<lparr>ls_Turn := t\<rparr>) w)"

definition stepsByProviderID :: "PlannedToolStep list \<Rightarrow> string \<Rightarrow> PlannedToolStep option" where
  "stepsByProviderID steps i = find (\<lambda>p. plannedProviderID p = i) (rev steps)"

definition toolPhase ::
    "turnContext \<Rightarrow> 'w turnActivities \<Rightarrow> answer \<Rightarrow> loopState \<Rightarrow> 'w \<Rightarrow> storeError + loopState flow \<times> 'w" where
  "toolPhase c acts a s w =
     (let p = wc_Prepared c; t = spanEnd (an_Called a) False (ls_Turn s);
          interrupted = (\<lambda>results t w. ending (completeInterrupted c acts
            (closeInterruptedProviderToolRound c (an_ToolUses a) results (an_Checkpoint a) t) w))
      in if pt_AttemptID p = []
         then (if an_Interrupted a then interrupted [] t w
               else ending (terminate c acts t ''tool-using turn has no durable attempt id'' w))
         else (case planToolBatch (an_ToolUses a) (indexTurnTools (pt_Tools p))
                 (stepsByProviderID (cr_ToolSteps (an_Called a))) (gv_MCPToolEvents (wc_Versions c)) of
             Inl failure \<Rightarrow> (if an_Interrupted a then interrupted [] t w else ending (terminate c acts t failure w))
           | Inr plan \<Rightarrow>
               (let t1 = addDrafts (tp_ActionDrafts plan) t
                in if an_Interrupted a then interrupted [] t1 w
                   else bindE (executeToolBatch c acts (pt_AttemptID p) (an_Request a) (rp_Content (cr_Response (an_Called a)))
                          (tp_Executable plan) t1 \<lparr>tx_ResultDrafts = [], tx_ResultBlocks = []\<rparr> [] w)
                        (\<lambda>((x, how, t2), w1).
                          (let t3 = addDrafts (tx_ResultDrafts x) t2
                           in case how of
                                BatchInterrupted \<Rightarrow> interrupted (tx_ResultBlocks x) t3 w1
                              | BatchFailed failure \<Rightarrow> ending (terminate c acts t3 failure w1)
                              | BatchDone \<Rightarrow>
                                  (let results = \<lparr>mg_Role = RoleUser, mg_Content = tx_ResultBlocks x, mg_ContextUsage = None\<rparr>;
                                       t4 = (if pt_UsesProviderTranscript p \<and> tx_ResultBlocks x \<noteq> []
                                             then addTranscript [results] t3 else t3)
                                   in if tp_PendingActionEventIDs plan \<noteq> []
                                      then ending (complete c acts t4 (tp_PendingActionEventIDs plan) w1)
                                      else Inr (Go (s\<lparr>ls_Turn := t4,
                                             ls_Messages := AppendMerging (ls_Messages s) [an_Assistant a, results]\<rparr>), w1)))))))"

definition answerPhase ::
    "turnContext \<Rightarrow> 'w turnActivities \<Rightarrow> answer \<Rightarrow> loopState \<Rightarrow> 'w \<Rightarrow> storeError + loopState flow \<times> 'w" where
  "answerPhase c acts a s0 w =
     (let called = an_Called a; s = onTurn (addDrafts (thinkingDrafts called)) (recordAnswer c a s0)
      in if textUnnamed called
         then (if an_Interrupted a then ending (completeInterrupted c acts (ls_Turn s) w)
               else ending (terminate c acts (ls_Turn s) ''model response text has no durable public event id'' w))
         else
           (let s1 = onTurn (addDrafts (messageDrafts called)) s; reasons = gv_ProviderStopReasons (wc_Versions c)
            in if an_Failure a \<noteq> []
               then (let t = spanEnd called False (ls_Turn s1)
                     in if an_Interrupted a then ending (completeInterrupted c acts t w)
                        else ending (terminateTyped c acts t ''model_request_failed_error'' (an_Failure a) w))
               else if reasons \<and> an_Disposition a = providerResponseContinuePause then continuePause c acts a s1 w
               else if reasons \<and> an_Disposition a = providerResponseContinueOutput then continueOutput c acts a s1 w
               else if an_ToolUses a = [] then finishPhase c acts a s1 w
               else toolPhase c acts a s1 w))"

definition answerOf :: "turnContext \<Rightarrow> nat \<Rightarrow> modelCall \<Rightarrow> answer" where
  "answerOf c checkpoint m =
     (let called = mc_Called m; response = cr_Response called;
          uses = filter (\<lambda>b. cb_Type b = ''tool_use'') (rp_Content response);
          (disposition, failure) = (if gv_ProviderStopReasons (wc_Versions c)
            then classifyProviderResponse (wc_Quote c) (rp_StopReason response) (length uses)
            else (providerResponseComplete, []))
      in \<lparr>an_Called = called, an_Interrupted = mc_Interrupted m, an_Request = mc_Request m,
          an_Assistant = AnchoredAssistantMessage (wc_Env c) (mc_Request m) response, an_ToolUses = uses,
          an_Disposition = disposition, an_Failure = failure, an_Checkpoint = checkpoint\<rparr>)"

section \<open>A round, and the turn\<close>

definition turnRound ::
    "turnContext \<Rightarrow> 'w turnActivities \<Rightarrow> nat \<Rightarrow> loopState \<Rightarrow> 'w \<Rightarrow> storeError + loopState flow \<times> 'w" where
  "turnRound c acts rnd s w =
     bindE (if gv_LiveModelSpanStarts (wc_Versions c) then flushOutput c acts (ls_Turn s) w else Inr (ls_Turn s, w)) (\<lambda>(t, w1).
       case prepareRequestContext (wc_Env c) ((pt_Request (wc_Prepared c))\<lparr>rq_Messages := ls_Messages s\<rparr>) False 0 of
         Inl e \<Rightarrow> ending (terminate c acts t e w1)
       | Inr p \<Rightarrow>
           (let request = pc_Request p; compacted = cp_Compacted (pc_Projection p);
                messages = (if compacted then rq_Messages request else ls_Messages s);
                t1 = (if compacted then addDrafts [compactedDraft] t else t)
            in andThen (requestModel c acts rnd 0 False request messages t1 w1) (\<lambda>m w2.
                 answerPhase c acts (answerOf c (length (ws_ToolUseMappings (mc_Turn m))) m)
                   (s\<lparr>ls_Turn := mc_Turn m, ls_Messages := mc_Messages m\<rparr>) w2)))"

fun turnRounds ::
    "turnContext \<Rightarrow> 'w turnActivities \<Rightarrow> nat \<Rightarrow> nat \<Rightarrow> loopState \<Rightarrow> 'w \<Rightarrow> storeError + loopState flow \<times> 'w" where
  "turnRounds c acts rnd 0 s w = Inr (Go s, w)"
| "turnRounds c acts rnd (Suc left) s w =
     andThen (turnRound c acts rnd s w) (\<lambda>s1 w1. turnRounds c acts (Suc rnd) left s1 w1)"

definition maxRounds :: "PrepareTurnResult \<Rightarrow> nat" where
  "maxRounds p = (case pt_Outcome p of
     None \<Rightarrow> nat maxWorkflowToolRounds
   | Some outcome \<Rightarrow> nat (maxWorkflowToolRounds * (os_MaxIterations outcome + 1)))"

definition initialTurn :: "turnContext \<Rightarrow> turnState" where
  "initialTurn c =
     (let p = wc_Prepared c
      in \<lparr>ws_Output = pt_PreludeEvents p
            @ (if gv_ContextCompactionEvents (wc_Versions c) \<and> cp_Compacted (pt_ContextProjection p) then [compactedDraft] else []),
          ws_AttemptID = [], ws_Ordinal = 0, ws_ActiveEvaluationStartID = [], ws_ActiveIteration = 0,
          ws_TranscriptDelta = pt_TranscriptDelta p, ws_ToolUseMappings = [],
          ws_LoadedSkills = LoadedRuntimeSkills (rq_Messages (pt_Request p)), ws_Usage = zeroUsage, ws_Flushed = 0\<rparr>)"

definition initialLoop :: "Message list \<Rightarrow> turnState \<Rightarrow> loopState" where
  "initialLoop messages t = \<lparr>ls_Turn = t, ls_Messages = messages, ls_OutcomeIteration = 0, ls_OutcomeFinished = False,
     ls_PauseContinuations = 0, ls_OutputContinuations = 0, ls_PauseChainActive = False, ls_PauseMessagesBase = [],
     ls_PauseTranscriptBase = []\<rparr>"

definition exceedRounds :: "turnContext \<Rightarrow> 'w turnActivities \<Rightarrow> turnState \<Rightarrow> 'w \<Rightarrow> storeError + TurnDisposition \<times> 'w" where
  "exceedRounds c acts t w =
     (if gv_ProviderStopReasons (wc_Versions c)
      then terminateTyped c acts t ''model_request_failed_error'' ''agent loop exceeded the per-turn round limit'' w
      else complete c acts t [] w)"

text \<open>The turn once it is prepared; \<open>c\<close> holds what was prepared.\<close>

definition runPrepared :: "turnContext \<Rightarrow> 'w turnActivities \<Rightarrow> 'w \<Rightarrow> storeError + TurnDisposition \<times> 'w" where
  "runPrepared c acts w =
     (let p = wc_Prepared c; t = initialTurn c
      in if pt_FatalError p \<noteq> [] then terminate c acts t (pt_FatalError p) w
         else bindE (resumeWorkflowTurn c acts (rq_Messages (pt_Request p)) t w) (\<lambda>((how, t1), w1).
           case how of
             ResumeInterrupted \<Rightarrow> completeInterrupted c acts t1 w1
           | ResumeFailed failure \<Rightarrow> terminate c acts t1 failure w1
           | Resumed messages \<Rightarrow>
               bindE (turnRounds c acts 0 (maxRounds p) (initialLoop messages t1) w1) (\<lambda>(r, w2). case r of
                   Ended d \<Rightarrow> Inr (d, w2)
                 | Go s \<Rightarrow> exceedRounds c acts (ls_Turn s) w2)))"

definition runWorkflowTurnInternal ::
    "turnContext \<Rightarrow> 'w turnActivities \<Rightarrow> 'w \<Rightarrow> storeError + TurnDisposition \<times> 'w" where
  "runWorkflowTurnInternal c acts w =
     bindE (tw_PrepareTurn acts (wc_TriggerEventID c) (wc_ResolutionEventIDs c) w) (\<lambda>(p, w1).
       if pt_AlreadyCompleted p then Inr (if pt_Terminated p then TurnTerminated else TurnCompleted, w1)
       else runPrepared (c\<lparr>wc_Prepared := p\<rparr>) acts w1)"

end
