(* ===== verification/TurnLaws.thy ===== *)
theory TurnLaws
  imports TurnLoop
begin

text \<open>
  What a turn does whatever its activities return. The activities keep a record of the calls that returned; one
  relation between the state a phase starts from, the calls it makes and the state it leaves is proved of every
  phase of the loop in turn, and the properties of a turn are read off it.
\<close>

section \<open>A record of the calls of a turn\<close>

datatype turnCall =
    CallPrepare PrepareTurnResult
  | CallAppend "EventDraft list"
  | CallAdmission
  | CallStart string
  | CallModel CallModelInput CallModelResult bool
  | CallAccount string TokenUsage
  | CallRetry string
  | CallWait int
  | CallResumeRetry string
  | CallEvaluate EvaluateOutcomeResult bool
  | CallExecute ExecuteToolInput ExecuteToolResult bool
  | CallPublish
  | CallCommit turnOutput TurnDisposition

definition tracedTurn :: "'w turnActivities \<Rightarrow> ('w \<times> turnCall list) turnActivities" where
  "tracedTurn acts = \<lparr>
     tw_PrepareTurn = (\<lambda>i ids (w, tr). bindE (tw_PrepareTurn acts i ids w) (\<lambda>(p, w1). Inr (p, w1, tr @ [CallPrepare p]))),
     tw_AppendWorkflowEvents = (\<lambda>ds (w, tr). bindE (tw_AppendWorkflowEvents acts ds w) (\<lambda>w1. Inr (w1, tr @ [CallAppend ds]))),
     tw_AwaitAdmission = (\<lambda>(w, tr). bindE (tw_AwaitAdmission acts w) (\<lambda>w1. Inr (w1, tr @ [CallAdmission]))),
     tw_StartModelRequest = (\<lambda>i (w, tr). bindE (tw_StartModelRequest acts i w) (\<lambda>w1. Inr (w1, tr @ [CallStart i]))),
     tw_CallModel = (\<lambda>i (w, tr). bindE (tw_CallModel acts i w) (\<lambda>((r, oc), w1).
       Inr ((r, oc), w1, tr @ [CallModel i r (io_Completed oc)]))),
     tw_AccountModelRequest = (\<lambda>i m u s (w, tr). bindE (tw_AccountModelRequest acts i m u s w) (\<lambda>w1.
       Inr (w1, tr @ [CallAccount i u]))),
     tw_RecordModelRetry = (\<lambda>e i j (w, tr). bindE (tw_RecordModelRetry acts e i j w) (\<lambda>w1. Inr (w1, tr @ [CallRetry i]))),
     tw_WaitModelRetry = (\<lambda>n (w, tr). bindE (tw_WaitModelRetry acts n w) (\<lambda>(b, w1). Inr (b, w1, tr @ [CallWait n]))),
     tw_ResumeModelRetry = (\<lambda>i (w, tr). bindE (tw_ResumeModelRetry acts i w) (\<lambda>w1. Inr (w1, tr @ [CallResumeRetry i]))),
     tw_EvaluateOutcome = (\<lambda>i (w, tr). bindE (tw_EvaluateOutcome acts i w) (\<lambda>((r, oc), w1).
       Inr ((r, oc), w1, tr @ [CallEvaluate r (io_Completed oc)]))),
     tw_ExecuteTool = (\<lambda>i (w, tr). bindE (tw_ExecuteTool acts i w) (\<lambda>((r, oc), w1).
       Inr ((r, oc), w1, tr @ [CallExecute i r (io_Completed oc)]))),
     tw_PublishSessionOutputs = (\<lambda>(w, tr). bindE (tw_PublishSessionOutputs acts w) (\<lambda>(e, w1). Inr (e, w1, tr @ [CallPublish]))),
     tw_CompleteWorkflowTurn = (\<lambda>a out (w, tr). bindE (tw_CompleteWorkflowTurn acts a out w) (\<lambda>(d, w1).
       Inr (d, w1, tr @ [CallCommit out d])))\<rparr>"

text \<open>The drafts that were published or committed, and those of an ended span.\<close>

fun draftedIn :: "turnCall list \<Rightarrow> EventDraft list" where
  "draftedIn [] = []"
| "draftedIn (CallAppend ds # tr) = ds @ draftedIn tr"
| "draftedIn (CallCommit out d # tr) = to_Drafts out @ draftedIn tr"
| "draftedIn (_ # tr) = draftedIn tr"

fun startedIn :: "turnCall list \<Rightarrow> string list" where
  "startedIn [] = []"
| "startedIn (CallStart i # tr) = i # startedIn tr"
| "startedIn (_ # tr) = startedIn tr"

fun modelCallsIn :: "turnCall list \<Rightarrow> nat" where
  "modelCallsIn [] = 0"
| "modelCallsIn (CallModel i r completed # tr) = Suc (modelCallsIn tr)"
| "modelCallsIn (_ # tr) = modelCallsIn tr"

fun usagesIn :: "turnCall list \<Rightarrow> TokenUsage list" where
  "usagesIn [] = []"
| "usagesIn (CallModel i r completed # tr) = (if completed then [rp_Usage (cr_Response r)] else []) @ usagesIn tr"
| "usagesIn (CallEvaluate r completed # tr) = (if completed then [or_Usage r] else []) @ usagesIn tr"
| "usagesIn (_ # tr) = usagesIn tr"

text \<open>Each tool run carries the number of the runs completed before it.\<close>

fun ordinalAfter :: "int \<Rightarrow> turnCall list \<Rightarrow> int" where
  "ordinalAfter k [] = k"
| "ordinalAfter k (CallExecute i r completed # tr) = ordinalAfter (if completed then k + 1 else k) tr"
| "ordinalAfter k (_ # tr) = ordinalAfter k tr"

fun numbered :: "int \<Rightarrow> turnCall list \<Rightarrow> bool" where
  "numbered k [] = True"
| "numbered k (CallExecute i r completed # tr) = (xi_Ordinal i = k \<and> numbered (if completed then k + 1 else k) tr)"
| "numbered k (_ # tr) = numbered k tr"

fun committed :: "turnCall \<Rightarrow> bool" where
  "committed (CallCommit out d) = True"
| "committed _ = False"

lemma calls_append [simp]:
  "draftedIn (xs @ ys) = draftedIn xs @ draftedIn ys"
  "startedIn (xs @ ys) = startedIn xs @ startedIn ys"
  "modelCallsIn (xs @ ys) = modelCallsIn xs + modelCallsIn ys"
  "usagesIn (xs @ ys) = usagesIn xs @ usagesIn ys"
  "ordinalAfter k (xs @ ys) = ordinalAfter (ordinalAfter k xs) ys"
  "numbered k (xs @ ys) \<longleftrightarrow> numbered k xs \<and> numbered (ordinalAfter k xs) ys"
proof -
  show "draftedIn (xs @ ys) = draftedIn xs @ draftedIn ys" by (induction xs rule: draftedIn.induct) auto
  show "startedIn (xs @ ys) = startedIn xs @ startedIn ys" by (induction xs rule: startedIn.induct) auto
  show "modelCallsIn (xs @ ys) = modelCallsIn xs + modelCallsIn ys" by (induction xs rule: modelCallsIn.induct) auto
  show "usagesIn (xs @ ys) = usagesIn xs @ usagesIn ys" by (induction xs rule: usagesIn.induct) auto
  show "ordinalAfter k (xs @ ys) = ordinalAfter (ordinalAfter k xs) ys" by (induction k xs rule: ordinalAfter.induct) auto
  show "numbered k (xs @ ys) \<longleftrightarrow> numbered k xs \<and> numbered (ordinalAfter k xs) ys" by (induction k xs rule: numbered.induct) auto
qed

definition endOf :: "EventDraft \<Rightarrow> string list" where
  "endOf d = (if d_Type d = EvSpanModelRequestEnd
     then (case map_of (d_Payload d) ''model_request_start_id'' of Some (JStr i) \<Rightarrow> [i] | _ \<Rightarrow> []) else [])"

definition endsOf :: "EventDraft list \<Rightarrow> string set" where
  "endsOf ds = set (concat (map endOf ds))"

lemma endsOf_simps [simp]: "endsOf [] = {}" "endsOf (d # ds) = set (endOf d) \<union> endsOf ds" "endsOf (xs @ ys) = endsOf xs \<union> endsOf ys"
  by (auto simp: endsOf_def)

section \<open>What a tool may run on\<close>

text \<open>
  A tool runs when it is one of the turn's tools and is private to the runtime, needs no permission, or the user
  allowed this very call. Custom and self-hosted tools never run here.
\<close>

definition confirmedFor :: "ExecuteToolInput \<Rightarrow> ResumeAction \<Rightarrow> bool" where
  "confirmedFor i a \<longleftrightarrow> ra_Kind a = PendingToolConfirmation \<and> ra_Confirmation a \<noteq> ''deny''
     \<and> ra_ActionEventID a = xi_ToolUseEventID i \<and> ra_ToolStepID a = xi_ToolStepID i
     \<and> ra_ToolName a = xi_ToolName i \<and> ra_Input a = xi_Input i"

definition mayRun :: "PrepareTurnResult \<Rightarrow> ExecuteToolInput \<Rightarrow> bool" where
  "mayRun p i \<longleftrightarrow> xi_AttemptID i \<noteq> [] \<and> xi_ToolStepID i \<noteq> [] \<and>
     (case indexTurnTools (pt_Tools p) (xi_ToolName i) of
        None \<Rightarrow> False
      | Some d \<Rightarrow> ut_Kind d = xi_ToolKind i \<and> ut_Kind d \<notin> {TurnToolCustom, TurnToolSelfHosted}
          \<and> (privateTool (ut_Kind d) \<or> pp_Type (ut_Permission d) \<noteq> ''always_ask''
             \<or> list_ex (confirmedFor i) (pt_ResumeActions p)))"

fun callAllowed :: "PrepareTurnResult \<Rightarrow> turnCall \<Rightarrow> bool" where
  "callAllowed p (CallExecute i r completed) = mayRun p i"
| "callAllowed p (CallCommit out d) = False"
| "callAllowed p (CallPrepare q) = False"
| "callAllowed p _ = True"

text \<open>The model activity names what it was asked to name, and gives public text an event.\<close>

fun answersNamed :: "turnCall \<Rightarrow> bool" where
  "answersNamed (CallModel i r completed) \<longleftrightarrow> cr_ModelRequestStartID r = ci_ModelRequestStartID i
     \<and> cr_ModelRequestEndID r = ci_ModelRequestEndID i \<and> \<not> textUnnamed r"
| "answersNamed _ = True"

section \<open>One step of a turn\<close>

text \<open>
  From the state \<open>t\<close> with the spans \<open>spans\<close> begun, the calls \<open>calls\<close>, at most \<open>n\<close> of them to the model, lead to \<open>t1\<close>
  with the spans \<open>spans1\<close> begun.
\<close>

definition step ::
    "PrepareTurnResult \<Rightarrow> nat \<Rightarrow> string set \<Rightarrow> turnState \<Rightarrow> turnCall list \<Rightarrow> string set \<Rightarrow> turnState \<Rightarrow> bool" where
  "step p n spans t calls spans1 t1 \<longleftrightarrow> list_all (callAllowed p) calls \<and> modelCallsIn calls \<le> n
     \<and> numbered (ws_Ordinal t) calls \<and> ws_Ordinal t1 = ordinalAfter (ws_Ordinal t) calls
     \<and> ws_Usage t1 = foldl usageAdd (ws_Usage t) (usagesIn calls)
     \<and> (list_all answersNamed calls \<longrightarrow>
          endsOf (ws_Output t) \<union> set (startedIn calls) \<union> spans \<subseteq> endsOf (draftedIn calls) \<union> endsOf (ws_Output t1) \<union> spans1)"

lemma step_trans:
  assumes "step p n S t xs S1 t1" "step p m S1 t1 ys S2 t2"
  shows "step p (n + m) S t (xs @ ys) S2 t2"
proof -
  have "endsOf (ws_Output t) \<union> set (startedIn (xs @ ys)) \<union> S
      \<subseteq> endsOf (draftedIn (xs @ ys)) \<union> endsOf (ws_Output t2) \<union> S2" if "list_all answersNamed (xs @ ys)"
  proof -
    have "endsOf (ws_Output t) \<union> set (startedIn xs) \<union> S \<subseteq> endsOf (draftedIn xs) \<union> endsOf (ws_Output t1) \<union> S1"
      "endsOf (ws_Output t1) \<union> set (startedIn ys) \<union> S1 \<subseteq> endsOf (draftedIn ys) \<union> endsOf (ws_Output t2) \<union> S2"
      using assms that by (simp_all add: step_def)
    then show ?thesis by auto
  qed
  then show ?thesis using assms by (auto simp: step_def)
qed

lemma step_more: "step p n S t xs S1 t1 \<Longrightarrow> n \<le> m \<Longrightarrow> step p m S t xs S1 t1"
  by (auto simp: step_def)

text \<open>A change of the state between calls: it keeps the ordinal, the usage and the ended spans.\<close>

definition quiet :: "turnState \<Rightarrow> turnState \<Rightarrow> bool" where
  "quiet t t1 \<longleftrightarrow> ws_Ordinal t1 = ws_Ordinal t \<and> ws_Usage t1 = ws_Usage t \<and> endsOf (ws_Output t) \<subseteq> endsOf (ws_Output t1)"

lemma quiet_step: "quiet t t1 \<Longrightarrow> S \<subseteq> S1 \<Longrightarrow> step p n S t [] S1 t1"
  by (auto simp: step_def quiet_def)

lemma quiet_self [simp]: "quiet t t"
  by (simp add: quiet_def)

lemma quiet_trans: "quiet a b \<Longrightarrow> quiet b c \<Longrightarrow> quiet a c"
  by (auto simp: quiet_def)

lemma step_quiet: "step p n S t xs S1 t1 \<Longrightarrow> quiet t1 t2 \<Longrightarrow> step p n S t xs S1 t2"
  using step_trans [of p n S t xs S1 t1 0 "[]" S1 t2] quiet_step [of t1 t2 S1 S1 p 0] by simp

lemma quiet_then_step: "quiet t t1 \<Longrightarrow> step p n S t1 xs S1 t2 \<Longrightarrow> step p n S t xs S1 t2"
  using step_trans [of p 0 S t "[]" S t1 n xs S1 t2] quiet_step [of t t1 S S p 0] by simp

lemma quiet_adds [simp]: "quiet t (addDrafts ds t)" "quiet t (addTranscript ms t)"
  by (simp_all add: quiet_def addDrafts_def addTranscript_def)

text \<open>The end of a turn: one commit, of what the turn had left to publish.\<close>

definition closing :: "PrepareTurnResult \<Rightarrow> nat \<Rightarrow> string set \<Rightarrow> turnState \<Rightarrow> turnCall list \<Rightarrow> TurnDisposition \<Rightarrow> bool" where
  "closing p n spans t calls d \<longleftrightarrow> (\<exists>pre out t1. calls = pre @ [CallCommit out d] \<and> step p n spans t pre {} t1
     \<and> to_Usage out = ws_Usage t1 \<and> endsOf (ws_Output t1) \<subseteq> endsOf (to_Drafts out))"

lemma step_closing: "step p n S t xs S1 t1 \<Longrightarrow> closing p m S1 t1 ys d \<Longrightarrow> closing p (n + m) S t (xs @ ys) d"
  unfolding closing_def by (metis append_assoc step_trans)

definition flows ::
    "PrepareTurnResult \<Rightarrow> nat \<Rightarrow> string set \<Rightarrow> turnState \<Rightarrow> ('a \<Rightarrow> string set) \<Rightarrow> ('a \<Rightarrow> turnState) \<Rightarrow> turnCall list \<Rightarrow> 'a flow \<Rightarrow> bool" where
  "flows p n spans t spans1 get calls r =
     (case r of Ended d \<Rightarrow> closing p n spans t calls d | Go a \<Rightarrow> step p n spans t calls (spans1 a) (get a))"

section \<open>Runs that keep a relation\<close>

definition does :: "(turnCall list \<Rightarrow> 'a \<Rightarrow> bool) \<Rightarrow> turnCall list \<Rightarrow> storeError + 'a \<times> 'w \<times> turnCall list \<Rightarrow> bool" where
  "does R tr x \<longleftrightarrow> (\<forall>a w tr1. x = Inr (a, w, tr1) \<longrightarrow> (\<exists>calls. tr1 = tr @ calls \<and> R calls a))"

lemma does_Inr [simp]: "does R tr (Inr (a, w, tr)) \<longleftrightarrow> R [] a"
  by (simp add: does_def)

lemma does_Inl [simp]: "does R tr (Inl e)"
  by (simp add: does_def)

lemma does_mono: "does R tr x \<Longrightarrow> (\<And>calls a. R calls a \<Longrightarrow> S calls a) \<Longrightarrow> does S tr x"
  unfolding does_def by blast

lemma does_bind:
  assumes "does R tr x"
    and "\<And>a w calls. R calls a \<Longrightarrow> does (\<lambda>ys b. S (calls @ ys) b) (tr @ calls) (f (a, w, tr @ calls))"
  shows "does S tr (bindE x f)"
  unfolding does_def bindE_Inr_iff
proof (intro allI impI, elim exE conjE)
  fix b w1 tr2 y assume "x = Inr y" and f: "f y = Inr (b, w1, tr2)"
  then obtain a w tr1 where y: "y = (a, w, tr1)" by (cases y) auto
  with assms(1) \<open>x = Inr y\<close> obtain calls where m: "tr1 = tr @ calls" "R calls a" by (auto simp: does_def)
  from assms(2) [OF m(2)] f obtain ys where "tr2 = (tr @ calls) @ ys" "S (calls @ ys) b"
    unfolding does_def y m(1) by blast
  then show "\<exists>calls. tr2 = tr @ calls \<and> S calls b" by auto
qed


definition does0 :: "(turnCall list \<Rightarrow> bool) \<Rightarrow> turnCall list \<Rightarrow> storeError + 'w \<times> turnCall list \<Rightarrow> bool" where
  "does0 R tr x \<longleftrightarrow> (\<forall>w tr1. x = Inr (w, tr1) \<longrightarrow> (\<exists>calls. tr1 = tr @ calls \<and> R calls))"

lemma does0_Inr [simp]: "does0 R tr (Inr (w, tr)) \<longleftrightarrow> R []"
  by (simp add: does0_def)

lemma does0_bind:
  assumes "does0 R tr x" and "\<And>w calls. R calls \<Longrightarrow> does (\<lambda>ys b. S (calls @ ys) b) (tr @ calls) (f (w, tr @ calls))"
  shows "does S tr (bindE x f)"
  unfolding does_def bindE_Inr_iff
proof (intro allI impI, elim exE conjE)
  fix b w1 tr2 y assume "x = Inr y" and f: "f y = Inr (b, w1, tr2)"
  then obtain w tr1 where y: "y = (w, tr1)" by (cases y) auto
  with assms(1) \<open>x = Inr y\<close> obtain calls where m: "tr1 = tr @ calls" "R calls" by (auto simp: does0_def)
  from assms(2) [OF m(2)] f obtain ys where "tr2 = (tr @ calls) @ ys" "S (calls @ ys) b"
    unfolding does_def y m(1) by blast
  then show "\<exists>calls. tr2 = tr @ calls \<and> S calls b" by auto
qed

lemma does_if: "(b \<Longrightarrow> does R tr x) \<Longrightarrow> (\<not> b \<Longrightarrow> does R tr y) \<Longrightarrow> does R tr (if b then x else y)"
  by simp

lemma does_sum: "(\<And>e. x = Inl e \<Longrightarrow> does R tr (f e)) \<Longrightarrow> (\<And>a. x = Inr a \<Longrightarrow> does R tr (g a)) \<Longrightarrow>
    does R tr (case x of Inl e \<Rightarrow> f e | Inr a \<Rightarrow> g a)"
  by (cases x) simp_all

lemma does_option: "(x = None \<Longrightarrow> does R tr y) \<Longrightarrow> (\<And>a. x = Some a \<Longrightarrow> does R tr (g a)) \<Longrightarrow>
    does R tr (case x of None \<Rightarrow> y | Some a \<Rightarrow> g a)"
  by (cases x) simp_all

lemma does0_if: "(b \<Longrightarrow> does0 R tr x) \<Longrightarrow> (\<not> b \<Longrightarrow> does0 R tr y) \<Longrightarrow> does0 R tr (if b then x else y)"
  by simp

lemma traced_does0:
  "does0 (\<lambda>cs. cs = [CallAppend ds]) tr (tw_AppendWorkflowEvents (tracedTurn acts) ds (w, tr))"
  "does0 (\<lambda>cs. cs = [CallAdmission]) tr (tw_AwaitAdmission (tracedTurn acts) (w, tr))"
  "does0 (\<lambda>cs. cs = [CallStart i]) tr (tw_StartModelRequest (tracedTurn acts) i (w, tr))"
  "does0 (\<lambda>cs. cs = [CallAccount i u]) tr (tw_AccountModelRequest (tracedTurn acts) i m u r (w, tr))"
  "does0 (\<lambda>cs. cs = [CallRetry i]) tr (tw_RecordModelRetry (tracedTurn acts) e i j (w, tr))"
  "does0 (\<lambda>cs. cs = [CallResumeRetry i]) tr (tw_ResumeModelRetry (tracedTurn acts) i (w, tr))"
  by (auto simp: does0_def tracedTurn_def bindE_Inr_iff)

lemma traced_does:
  "does (\<lambda>cs q. cs = [CallPrepare q]) tr (tw_PrepareTurn (tracedTurn acts) i ids (w, tr))"
  "does (\<lambda>cs b. cs = [CallWait n]) tr (tw_WaitModelRetry (tracedTurn acts) n (w, tr))"
  "does (\<lambda>cs x. cs = [CallModel ci (fst x) (io_Completed (snd x))]) tr (tw_CallModel (tracedTurn acts) ci (w, tr))"
  "does (\<lambda>cs x. cs = [CallEvaluate (fst x) (io_Completed (snd x))]) tr (tw_EvaluateOutcome (tracedTurn acts) oi (w, tr))"
  "does (\<lambda>cs x. cs = [CallExecute xi (fst x) (io_Completed (snd x))]) tr (tw_ExecuteTool (tracedTurn acts) xi (w, tr))"
  "does (\<lambda>cs e. cs = [CallPublish]) tr (tw_PublishSessionOutputs (tracedTurn acts) (w, tr))"
  "does (\<lambda>cs d. cs = [CallCommit out d]) tr (tw_CompleteWorkflowTurn (tracedTurn acts) a out (w, tr))"
  by (auto simp: does_def tracedTurn_def bindE_Inr_iff)

section \<open>The phases\<close>

lemma endOf_flushed: "endsOf (flushDrafts c t) = endsOf (ws_Output t)"
proof -
  have "endOf ((\<lambda>(i, d). if d_ID d = [] then d\<lparr>d_ID := g i\<rparr> else d) x) = endOf (snd x)" for x and g :: "nat \<Rightarrow> string"
    by (cases x) (simp add: endOf_def)
  then have "map endOf (flushDrafts c t) = map (endOf \<circ> snd) (zip [0..<length (ws_Output t)] (ws_Output t))"
    unfolding flushDrafts_def map_map by (auto intro: map_cong)
  also have "\<dots> = map endOf (ws_Output t)" by (simp flip: map_map)
  finally show ?thesis by (simp add: endsOf_def)
qed

lemma flush_does: "does (\<lambda>cs t1. step p 0 S t cs S t1) tr (flushOutput c (tracedTurn acts) t (w, tr))"
  unfolding flushOutput_def
  by (intro does_if does0_bind [OF traced_does0(1)]) (simp_all add: quiet_step step_def endOf_flushed)

text \<open>What may follow a step.\<close>

lemma does_after:
  assumes "does (\<lambda>cs a. step p n S t cs (S1 a) (g a) \<and> Q a) tr x"
    and "\<And>a w cs. Q a \<Longrightarrow> step p n S t cs (S1 a) (g a) \<Longrightarrow> does (\<lambda>ys b. step p m (S1 a) (g a) ys (S2 b) (h b)) (tr @ cs) (f (a, w, tr @ cs))"
    and "n + m \<le> k"
  shows "does (\<lambda>cs b. step p k S t cs (S2 b) (h b)) tr (bindE x f)"
  by (rule does_bind [OF assms(1)], elim conjE, rule does_mono [OF assms(2)])
    (auto intro: step_trans step_more [OF _ assms(3)])

lemma closing_more: "closing p n S t cs d \<Longrightarrow> n \<le> m \<Longrightarrow> closing p m S t cs d"
  unfolding closing_def by (metis step_more)

lemma flows_step: "step p n S t xs S1 t1 \<Longrightarrow> flows p m S1 t1 S2 get ys r \<Longrightarrow> n + m \<le> k \<Longrightarrow> flows p k S t S2 get (xs @ ys) r"
  by (auto simp: flows_def intro: step_more [OF step_trans] closing_more [OF step_closing] split: flow.split)

lemma does_then:
  assumes "does (\<lambda>cs a. step p n S t cs (S1 a) (g a)) tr x"
    and "\<And>a w cs. step p n S t cs (S1 a) (g a) \<Longrightarrow> does (\<lambda>ys r. flows p m (S1 a) (g a) S2 get ys r) (tr @ cs) (f (a, w, tr @ cs))"
    and "n + m \<le> k"
  shows "does (\<lambda>cs r. flows p k S t S2 get cs r) tr (bindE x f)"
  by (rule does_bind [OF assms(1)], rule does_mono [OF assms(2)]) (auto intro: flows_step assms(3))

lemma does_close:
  assumes "does (\<lambda>cs a. step p n S t cs (S1 a) (g a)) tr x"
    and "\<And>a w cs. step p n S t cs (S1 a) (g a) \<Longrightarrow> does (\<lambda>ys d. closing p m (S1 a) (g a) ys d) (tr @ cs) (f (a, w, tr @ cs))"
    and "n + m \<le> k"
  shows "does (\<lambda>cs d. closing p k S t cs d) tr (bindE x f)"
  by (rule does_bind [OF assms(1)], rule does_mono [OF assms(2)]) (auto intro: closing_more [OF step_closing] assms(3))

lemma ending_does:
  assumes "does (\<lambda>cs d. closing p n S t cs d) tr x"
  shows "does (\<lambda>cs r. flows p n S t S2 get cs r) tr (ending x)"
  unfolding ending_def by (rule does_bind [OF assms]) (simp add: flows_def)

lemma closing_quiet: "quiet t t1 \<Longrightarrow> closing p n S t1 cs d \<Longrightarrow> closing p n S t cs d"
  unfolding closing_def by (metis quiet_then_step)

lemma flows_quiet: "quiet t t1 \<Longrightarrow> flows p n S t1 S2 get cs r \<Longrightarrow> flows p n S t S2 get cs r"
  by (auto simp: flows_def intro: closing_quiet quiet_then_step split: flow.split)

lemma closing_out:
  "to_Usage out = ws_Usage t \<Longrightarrow> endsOf (ws_Output t) \<subseteq> endsOf (to_Drafts out) \<Longrightarrow> closing p 0 {} t [CallCommit out d] d"
  unfolding closing_def by (intro exI [of _ "[]"] exI [of _ out] exI [of _ t]) (simp add: quiet_step)

lemma publish_does: "does (\<lambda>cs t1. step p 0 {} t cs {} t1) tr (publishSessionOutputs c (tracedTurn acts) t (w, tr))"
  unfolding publishSessionOutputs_def
  by (intro does_if does_bind [OF traced_does(6)]) (auto simp: quiet_step step_def addDrafts_def)

lemma turnOutputOf_simps: "to_Usage (turnOutputOf c t ds st a e pe) = ws_Usage t" "to_Drafts (turnOutputOf c t ds st a e pe) = ds"
  by (simp_all add: turnOutputOf_def Let_def)

lemma commits_does: "does (\<lambda>cs d. closing p 0 {} t cs d) tr (commitOutput c (tracedTurn acts) (turnOutputOf c t (ws_Output t @ ds) st a e pe) (w, tr))"
  unfolding commitOutput_def
  by (rule does_mono [OF traced_does(7)]) (simp add: closing_out turnOutputOf_simps)

lemma completeTurn_does: "does (\<lambda>cs d. closing p 0 {} t cs d) tr (turn_completeTurn c (tracedTurn acts) t pe pub (w, tr))"
  unfolding turn_completeTurn_def
  by (rule does_close [where n = 0 and m = 0 and g = "\<lambda>t. t" and S = "{}" and ?S1.0 = "\<lambda>_. {}"])
    (simp_all only: publish_does does_Inr quiet_step quiet_self subset_refl commits_does case_prod_conv if_split simp_thms add_0 order_refl)

lemma closes_does:
  "does (\<lambda>cs d. closing p 0 {} t cs d) tr (complete c (tracedTurn acts) t pe (w, tr))"
  "does (\<lambda>cs d. closing p 0 {} t cs d) tr (completeInterrupted c (tracedTurn acts) t (w, tr))"
  "does (\<lambda>cs d. closing p 0 {} t cs d) tr (terminateTyped c (tracedTurn acts) t ty msg (w, tr))"
  "does (\<lambda>cs d. closing p 0 {} t cs d) tr (terminate c (tracedTurn acts) t msg (w, tr))"
  "does (\<lambda>cs d. closing p 0 {} t cs d) tr (exhaustModelRetries c (tracedTurn acts) t retry (w, tr))"
proof -
  show t: "does (\<lambda>cs d. closing p 0 {} t cs d) tr (terminateTyped c (tracedTurn acts) t ty msg (w, tr))" for ty
    unfolding terminateTyped_def Let_def by (rule commits_does)
  show "does (\<lambda>cs d. closing p 0 {} t cs d) tr (terminate c (tracedTurn acts) t msg (w, tr))"
    unfolding terminate_def by (rule t)
  show "does (\<lambda>cs d. closing p 0 {} t cs d) tr (exhaustModelRetries c (tracedTurn acts) t retry (w, tr))"
    unfolding exhaustModelRetries_def
    by (rule does_close [OF publish_does, where m = 0]) (simp_all only: commits_does case_prod_conv add_0 order_refl)
qed (simp_all add: complete_def completeInterrupted_def completeTurn_does)

lemma ends_does:
  assumes "quiet t t1"
  shows "does (\<lambda>cs r. flows p n {} t S2 get cs r) tr (ending (complete c (tracedTurn acts) t1 pe (w, tr)))"
    and "does (\<lambda>cs r. flows p n {} t S2 get cs r) tr (ending (completeInterrupted c (tracedTurn acts) t1 (w, tr)))"
    and "does (\<lambda>cs r. flows p n {} t S2 get cs r) tr (ending (terminateTyped c (tracedTurn acts) t1 ty msg (w, tr)))"
    and "does (\<lambda>cs r. flows p n {} t S2 get cs r) tr (ending (terminate c (tracedTurn acts) t1 msg (w, tr)))"
    and "does (\<lambda>cs r. flows p n {} t S2 get cs r) tr (ending (exhaustModelRetries c (tracedTurn acts) t1 retry (w, tr)))"
proof -
  have k: "closing p n {} t cs d" if "closing p 0 {} t1 cs d" for cs d
    by (rule closing_more [OF closing_quiet [OF assms that]]) simp
  note fin = ending_does [OF does_mono [OF _ k]]
  show "does (\<lambda>cs r. flows p n {} t S2 get cs r) tr (ending (complete c (tracedTurn acts) t1 pe (w, tr)))"
    "does (\<lambda>cs r. flows p n {} t S2 get cs r) tr (ending (completeInterrupted c (tracedTurn acts) t1 (w, tr)))"
    "does (\<lambda>cs r. flows p n {} t S2 get cs r) tr (ending (terminateTyped c (tracedTurn acts) t1 ty msg (w, tr)))"
    "does (\<lambda>cs r. flows p n {} t S2 get cs r) tr (ending (terminate c (tracedTurn acts) t1 msg (w, tr)))"
    "does (\<lambda>cs r. flows p n {} t S2 get cs r) tr (ending (exhaustModelRetries c (tracedTurn acts) t1 retry (w, tr)))"
    by (rule fin, rule closes_does, assumption)+
qed


section \<open>The model request\<close>

definition wellCalled :: "CallModelResult \<Rightarrow> bool" where
  "wellCalled called \<longleftrightarrow> cr_ModelRequestStartID called \<noteq> [] \<and> cr_ModelRequestEndID called \<noteq> [] \<and> \<not> textUnnamed called"

definition spansOf :: "CallModelResult \<Rightarrow> string set" where
  "spansOf called = (if wellCalled called then {cr_ModelRequestStartID called} else {})"

lemma span_ids_nonempty: "fst (modelRequestAttemptSpanIDs c rnd attempt) \<noteq> []" "snd (modelRequestAttemptSpanIDs c rnd attempt) \<noteq> []"
  by (simp_all add: modelRequestAttemptSpanIDs_def modelRequestSpanIDs_def operationID_def PrefixEvent_def Let_def)

lemma quiet_spans [simp]: "quiet t (spanStart c called t)" "quiet t (spanEnd called b t)"
  by (simp_all add: spanStart_def spanEnd_def)

lemma spanEnd_closes: "spansOf called \<subseteq> endsOf (ws_Output (spanEnd called b t))"
  by (auto simp: spansOf_def wellCalled_def spanEnd_def modelRequestEndDraft_def addDrafts_def endOf_def)

lemma spanEnd_step: "step p n (spansOf called) t [] {} (spanEnd called b t)"
  using spanEnd_closes [of called b t] by (auto simp: step_def quiet_def spanEnd_def addDrafts_def)

lemma spanEnd_after: "step p n S t cs (spansOf called) t1 \<Longrightarrow> step p n S t cs {} (spanEnd called b t1)"
  using step_trans [of p n S t cs "spansOf called" t1 0 "[]" "{}" "spanEnd called b t1"] spanEnd_step by simp

lemma cancelled_spans: "spansOf (cancelledCall c rnd attempt) = {fst (modelRequestAttemptSpanIDs c rnd attempt)}"
  using span_ids_nonempty [of c rnd attempt]
  by (simp add: spansOf_def wellCalled_def cancelledCall_def textUnnamed_def TextBlocksToContent_def case_prod_beta)

text \<open>One call leaves its span begun, under the name that was asked for.\<close>

lemma callModel_does:
  fixes acts :: "'w turnActivities"
  shows "does (\<lambda>cs x. step p 1 {} t cs {fst (modelRequestAttemptSpanIDs c rnd attempt)} (snd (snd x))
       \<and> step p 1 {} t cs (spansOf (fst x)) (snd (snd x))) tr
     (callModel c (tracedTurn acts) rnd attempt request t (w, tr))"
proof -
  obtain i j where ids: "modelRequestAttemptSpanIDs c rnd attempt = (i, j)" by (cases "modelRequestAttemptSpanIDs c rnd attempt")
  have ne: "i \<noteq> []" "j \<noteq> []" using span_ids_nonempty [of c rnd attempt] ids by simp_all
  have admitted: "does0 (\<lambda>cs. cs = (if b then [CallAdmission] else [])) tr
      (if b then tw_AwaitAdmission (tracedTurn acts) (w, tr) else Inr (w, tr))" for b tr and w :: 'w
    by (cases b) (simp_all only: if_True if_False traced_does0(2) does0_Inr)
  have started: "does0 (\<lambda>cs. cs = (if b then [CallStart i] else [])) tr
      (if b then tw_StartModelRequest (tracedTurn acts) i (w, tr) else Inr (w, tr))" for b tr and w :: 'w
    by (cases b) (simp_all only: if_True if_False traced_does0(3) does0_Inr)
  have accounted: "does0 (\<lambda>cs. cs = (if b then [CallAccount k u] else [])) tr
      (if b then tw_AccountModelRequest (tracedTurn acts) k m u r (w, tr) else Inr (w, tr))" for b k u m r tr and w :: 'w
    by (cases b) (simp_all only: if_True if_False traced_does0(4) does0_Inr)
  show ?thesis
    unfolding callModel_def ids case_prod_conv Let_def
  proof (rule does0_bind [OF admitted], rule does0_bind [OF started], rule does_bind [OF traced_does(3)],
      unfold case_prod_beta fst_conv snd_conv, rule does0_bind [OF accounted], goal_cases)
    case (1 w1 cs1 w2 cs2 x w3 cs3 w4 cs4)
    then show ?case
      by (auto simp: step_def spansOf_def wellCalled_def ne split: if_splits)
  qed
qed

lemma does0_then:
  assumes "does0 (\<lambda>cs. step p n S t cs S1 t1) tr x"
    and "\<And>w cs. step p n S t cs S1 t1 \<Longrightarrow> does (\<lambda>ys r. flows p m S1 t1 S2 get ys r) (tr @ cs) (f (w, tr @ cs))"
    and "n + m \<le> k"
  shows "does (\<lambda>cs r. flows p k S t S2 get cs r) tr (bindE x f)"
  by (rule does0_bind [OF assms(1)], rule does_mono [OF assms(2)]) (auto intro: flows_step assms(3))

text \<open>Calls that leave no trace in what a step relates.\<close>

lemma quiet_calls:
  "does0 (\<lambda>cs. step p 0 S t cs S t) tr (tw_AwaitAdmission (tracedTurn acts) (w, tr))"
  "does0 (\<lambda>cs. step p 0 S t cs S t) tr (tw_RecordModelRetry (tracedTurn acts) e i j (w, tr))"
  "does0 (\<lambda>cs. step p 0 S t cs S t) tr (tw_ResumeModelRetry (tracedTurn acts) i (w, tr))"
  "does0 (\<lambda>cs. step p 0 S t cs S t) tr (tw_AccountModelRequest (tracedTurn acts) i m u r (w, tr))"
  "does (\<lambda>cs b. step p 0 S t cs S t) tr (tw_WaitModelRetry (tracedTurn acts) n (w, tr))"
  by (auto simp: does0_def does_def tracedTurn_def bindE_Inr_iff step_def)

lemma flows_Go: "step p n S t [] (S1 a) (get a) \<Longrightarrow> flows p n S t S1 get [] (Go a)"
  by (simp add: flows_def)

lemma retryModel_does:
  "does (\<lambda>cs r. flows p 0 {} t (\<lambda>_. {}) (\<lambda>t1. t1) cs r) tr (retryModel c (tracedTurn acts) rnd attempt retry t (w, tr))"
proof -
  obtain i j k where ids: "modelRetryEventIDs c rnd attempt = (i, j, k)" by (cases "modelRetryEventIDs c rnd attempt") auto
  show ?thesis
    unfolding retryModel_def ids case_prod_conv Let_def
  proof (rule does_then [OF flush_does, where m = 0], unfold case_prod_conv, rule does0_then [OF quiet_calls(2), where m = 0],
      rule does_then [OF quiet_calls(5), where m = 0], unfold case_prod_conv, rule does_if, goal_cases)
    case 1
    show ?case by (rule ends_does(2)) simp
  next
    case 2
    show ?case by (rule does0_then [OF quiet_calls(3), where m = 0]) (simp_all add: flows_Go quiet_step)
  qed simp_all
qed


text \<open>The number of calls the attempts from here on can make.\<close>

definition attemptsLeft :: "nat \<Rightarrow> bool \<Rightarrow> nat" where
  "attemptsLeft attempt recovered = max 1 (maxModelRequestAttempts - attempt) + (if recovered then 0 else 1)"

lemma attemptsLeft_overflow: "1 + attemptsLeft (Suc attempt) True \<le> attemptsLeft attempt False"
  by (simp add: attemptsLeft_def)

lemma attemptsLeft_retry: "\<not> maxModelRequestAttempts \<le> attempt + 1 \<Longrightarrow> 1 + attemptsLeft (Suc attempt) recovered \<le> attemptsLeft attempt recovered"
  by (simp add: attemptsLeft_def)

lemma attemptsLeft_pos: "1 \<le> attemptsLeft attempt recovered"
  by (simp add: attemptsLeft_def)

abbreviation modelSpans :: "modelCall \<Rightarrow> string set" where
  "modelSpans m \<equiv> spansOf (mc_Called m)"

lemma flows_more: "flows p n S t S2 get cs r \<Longrightarrow> n \<le> m \<Longrightarrow> flows p m S t S2 get cs r"
  using flows_step [of p 0 S t "[]" S t n S2 get cs r m] by (simp add: quiet_step)

lemma requestModel_does:
  "does (\<lambda>cs r. flows p (attemptsLeft attempt recovered) {} t modelSpans mc_Turn cs r) tr
     (requestModel c (tracedTurn acts) rnd attempt recovered request messages t (w, tr))"
proof (induction "attemptsLeft attempt recovered" arbitrary: attempt recovered request messages t w tr rule: less_induct)
  case less
  let ?k = "attemptsLeft attempt recovered"
  have again: "does (\<lambda>ys r. flows p (?k - 1) {} t1 modelSpans mc_Turn ys r) tr1
      (requestModel c (tracedTurn acts) rnd (Suc attempt) recovered1 request1 messages1 t1 (w1, tr1))"
    if "1 + attemptsLeft (Suc attempt) recovered1 \<le> ?k" for recovered1 request1 messages1 t1 w1 tr1
    by (rule does_mono [OF less]) (use that in \<open>auto intro: flows_more\<close>)
  show ?case
  proof (subst requestModel.simps, rule does_bind [OF callModel_does [where p = p]], elim conjE, unfold case_prod_beta fst_conv snd_conv, goal_cases)
    case (1 x w1 cs1)
    have prefix: "does (\<lambda>ys r. flows p ?k {} t modelSpans mc_Turn (cs1 @ ys) r) (tr @ cs1) y"
      if "does (\<lambda>ys r. flows p (?k - 1) S1 t1 modelSpans mc_Turn ys r) (tr @ cs1) y" "step p 1 {} t cs1 S1 t1" for y S1 t1
      by (rule does_mono [OF that(1)], rule flows_step [OF that(2)]) (auto simp: attemptsLeft_def)
    have ended: "step p 1 {} t cs1 {} (spanEnd (fst x) True (spanStart c (fst x) (snd (snd x))))"
      by (intro spanEnd_after step_quiet [OF 1(2)]) simp
    let ?called = "fst x" and ?oc = "fst (snd x)" and ?t2 = "spanStart c (fst x) (snd (snd x))"
    let ?t3 = "spanEnd ?called True ?t2"
    let ?goal = "does (\<lambda>ys r. flows p ?k {} t modelSpans mc_Turn (cs1 @ ys) r) (tr @ cs1)"
    note stop = prefix [OF _ ended, OF ends_does(2) [OF quiet_self]] prefix [OF _ ended, OF ends_does(3) [OF quiet_self]]
      prefix [OF _ ended, OF ends_does(5) [OF quiet_self]]
    have cancelled: "?goal (ending (completeInterrupted c (tracedTurn acts)
        (spanEnd (cancelledCall c rnd attempt) True (spanStart c (cancelledCall c rnd attempt) (snd (snd x)))) (w1, tr @ cs1)))"
      by (rule prefix [OF ends_does(2) [OF quiet_self]], rule spanEnd_after, unfold cancelled_spans, rule step_quiet [OF 1(1)]) simp
    have answered: "?goal (Inr (Go m, w1, tr @ cs1))" if "mc_Called m = ?called" "mc_Turn m = ?t2" for m
      using step_more [OF step_quiet [OF 1(2), of ?t2] attemptsLeft_pos] that by (simp add: flows_def)
    have recovered: "?goal (bindE (flushOutput c (tracedTurn acts) (addDrafts [compactedDraft] ?t3) (w1, tr @ cs1)) (\<lambda>(t4, w2).
        requestModel c (tracedTurn acts) rnd (Suc attempt) True request1 messages1 t4 w2))" if "\<not> recovered" for request1 messages1
    proof (rule prefix [OF _ step_quiet [OF ended quiet_adds(1)]], rule does_then [OF flush_does, where m = "?k - 1"], goal_cases)
      case (1 t4 w2 cs2)
      show ?case unfolding case_prod_conv by (rule again) (use attemptsLeft_overflow that in simp)
    qed simp
    have retried: "?goal (bindE (retryModel c (tracedTurn acts) rnd attempt retry ?t3 (w1, tr @ cs1)) (\<lambda>(r, w2). case r of
        Ended d \<Rightarrow> Inr (Ended d, w2)
      | Go t4 \<Rightarrow> requestModel c (tracedTurn acts) rnd (Suc attempt) recovered request messages t4 w2))"
      if "\<not> maxModelRequestAttempts \<le> attempt + 1" for retry
    proof (rule prefix [OF _ ended], rule does_bind [OF retryModel_does [where p = p]], unfold case_prod_conv, goal_cases)
      case (1 r w2 cs2)
      show ?case
      proof (cases r)
        case (Go t4)
        then have "step p 0 {} ?t3 cs2 {} t4" using 1 by (simp add: flows_def)
        then show ?thesis unfolding Go flow.case
          by (intro does_mono [OF again [OF attemptsLeft_retry [OF that]]] flows_step [where n = 0]) auto
      next
        case (Ended d)
        then show ?thesis using 1 by (auto simp: flows_def intro: closing_more)
      qed
    qed
    show ?case
      unfolding Let_def
      by (intro does_if does_sum does_option cancelled stop answered recovered [unfolded case_prod_beta] retried [unfolded case_prod_beta])
        (assumption | simp only: modelCall.simps)+
  qed
qed


section \<open>Tools\<close>

lemma executeTool_does:
  assumes "mayRun p (executeToolInput c (t\<lparr>ws_AttemptID := attemptID\<rparr>) attemptID b eventID stepID d advisor)"
  shows "does (\<lambda>cs x. step p 0 S t cs S (snd (snd x))) tr
    (executeTool c (tracedTurn acts) t attemptID b eventID stepID d advisor (w, tr))"
proof -
  have keeps: "ws_Output (rememberLoadedSkill d b x t) = ws_Output t" "ws_Usage (rememberLoadedSkill d b x t) = ws_Usage t" for x and t :: turnState
    by (auto simp: rememberLoadedSkill_def split: sum.split)
  have "xi_Ordinal (executeToolInput c (t\<lparr>ws_AttemptID := attemptID\<rparr>) attemptID b eventID stepID d advisor) = ws_Ordinal t"
    by (simp add: executeToolInput_def)
  with assms keeps show ?thesis
    unfolding executeTool_def Let_def
    by (intro does_bind [OF traced_does(5)]) (auto simp: step_def case_prod_beta)
qed

text \<open>A call that was planned to run may run.\<close>

definition runnable :: "PrepareTurnResult \<Rightarrow> plannedToolUse \<Rightarrow> bool" where
  "runnable p u \<longleftrightarrow> pu_StepID u \<noteq> [] \<and> indexTurnTools (pt_Tools p) (cb_ToolName (pu_Use u)) = Some (pu_Definition u)
     \<and> ut_Kind (pu_Definition u) \<notin> {TurnToolCustom, TurnToolSelfHosted}
     \<and> (privateTool (ut_Kind (pu_Definition u)) \<or> pp_Type (ut_Permission (pu_Definition u)) \<noteq> ''always_ask'')"

lemma runnable_mayRun:
  "runnable (wc_Prepared c) u \<Longrightarrow> attemptID \<noteq> [] \<Longrightarrow>
     mayRun (wc_Prepared c) (executeToolInput c t attemptID (pu_Use u) (pu_PublicEventID u) (pu_StepID u) (pu_Definition u) advisor)"
  by (auto simp: runnable_def mayRun_def executeToolInput_def)

lemma planUse_runnable:
  assumes "indexTurnTools (pt_Tools p) (cb_ToolName b) = Some d" "ps_ToolStepID planned \<noteq> []" "list_all (runnable p) (tp_Executable plan)"
  shows "list_all (runnable p) (tp_Executable (planUse events d planned b plan))"
  using assms by (auto simp: planUse_def Let_def runnable_def privateTool_def)

lemma planUses_runnable:
  "list_all (\<lambda>b. case steps (cb_ToolUseID b) of None \<Rightarrow> False | Some q \<Rightarrow> ps_ToolStepID q \<noteq> []) bs \<Longrightarrow>
   list_all (runnable p) (tp_Executable plan) \<Longrightarrow>
   list_all (runnable p) (tp_Executable (planUses (indexTurnTools (pt_Tools p)) steps events bs plan))"
  by (induction bs arbitrary: plan) (auto split: option.split simp: planUse_runnable)

lemma firstFailure_None: "firstFailure f xs = None \<longleftrightarrow> list_all (\<lambda>x. f x = None) xs"
  by (induction xs) (auto split: option.split)

lemma planToolBatch_runnable:
  assumes "planToolBatch bs (indexTurnTools (pt_Tools p)) steps events = Inr plan"
  shows "list_all (runnable p) (tp_Executable plan)"
proof -
  have named: "list_all (\<lambda>b. case steps (cb_ToolUseID b) of None \<Rightarrow> False | Some q \<Rightarrow> ps_ToolStepID q \<noteq> []) bs"
    if "list_all (\<lambda>b. planCheck (indexTurnTools (pt_Tools p)) steps b = None) bs"
    using that by (rule list.pred_mono_strong) (auto simp: planCheck_def split: if_splits option.splits)
  from assms show ?thesis
    by (auto simp: planToolBatch_def firstFailure_None split: option.split_asm intro!: planUses_runnable named)
qed

lemma step_trans0: "step p 0 S t xs S t1 \<Longrightarrow> step p 0 S t1 ys S t2 \<Longrightarrow> step p 0 S t (xs @ ys) S t2"
  using step_trans [of p 0 S t xs S t1 0 ys S t2] by simp

lemma beforeAdvisor_does: "does (\<lambda>cs t1. step p 0 S t cs S t1) tr (beforeAdvisor c (tracedTurn acts) t (w, tr))"
  unfolding beforeAdvisor_def
proof (rule does_if, rule does_bind [OF flush_does [where S = S and p = p]], unfold case_prod_conv,
    rule does0_bind [OF traced_does0(2)], goal_cases)
  case (1 t1 w1 cs1 w2 cs2)
  then show ?case by (auto intro: step_trans0 simp: step_def)
qed (simp add: quiet_step)

lemma executeToolBatch_does:
  assumes "list_all (runnable (wc_Prepared c)) us" "attemptID \<noteq> []"
  shows "does (\<lambda>cs r. step (wc_Prepared c) 0 S t cs S (snd (snd r))) tr
    (executeToolBatch c (tracedTurn acts) attemptID request assistant us t x injected (w, tr))"
  using assms(1)
proof (induction us arbitrary: t x injected w tr)
  case Nil
  then show ?case by (simp add: quiet_step)
next
  case (Cons u us)
  let ?p = "wc_Prepared c"
  have run: "does (\<lambda>cs r. step ?p 0 S t1 cs S (snd (snd r))) tr1
      (executeTool c (tracedTurn acts) t1 attemptID (pu_Use u) (pu_PublicEventID u) (pu_StepID u) (pu_Definition u) advisor (w1, tr1))"
    for t1 tr1 advisor w1
    by (rule executeTool_does) (use Cons.prems assms(2) in \<open>simp add: runnable_mayRun\<close>)
  have first: "does (\<lambda>cs t1. step ?p 0 S t cs S t1) tr
      (if ut_Kind (pu_Definition u) = TurnToolAdvisor then beforeAdvisor c (tracedTurn acts) t (w, tr) else Inr (t, w, tr))"
    by (intro does_if beforeAdvisor_does) (simp add: quiet_step)
  show ?case
    unfolding executeToolBatch.simps Let_def
  proof (rule does_bind [OF first], unfold case_prod_conv, rule does_sum, goal_cases)
    case (1 t1 w1 cs1 e)
    then show ?case by simp
  next
    case (2 t1 w1 cs1 advisor)
    show ?case
    proof (rule does_mono [where R = "\<lambda>cs r. step ?p 0 S t1 cs S (snd (snd r))", OF _ step_trans0 [OF 2(1)]],
        rule does_bind [OF run], unfold case_prod_beta fst_conv snd_conv, goal_cases)
      case (1 y w2 cs2)
      note onwards = does_mono [where R = "\<lambda>cs r. step ?p 0 S (snd (snd y)) cs S (snd (snd r))", OF Cons.IH step_trans0 [OF 1]]
      show ?case
        by (intro does_if onwards) (use 1 Cons.prems in \<open>simp_all\<close>)
    qed
  qed
qed


lemma does_step_quiet:
  assumes "does (\<lambda>cs r. step p 0 S t cs S (snd (snd r))) tr x"
    and "\<And>a w cs. does (\<lambda>ys b. ys = [] \<and> quiet (snd (snd a)) (snd (snd b))) (tr @ cs) (f (a, w, tr @ cs))"
  shows "does (\<lambda>cs r. step p 0 S t cs S (snd (snd r))) tr (bindE x f)"
  by (rule does_bind [OF assms(1)], rule does_mono [OF assms(2)]) (auto intro: step_quiet)

lemma resumeAction_does:
  assumes "a \<in> set (pt_ResumeActions (wc_Prepared c))"
  shows "does (\<lambda>cs r. step (wc_Prepared c) 0 S t cs S (snd (snd r))) tr (resumeAction c (tracedTurn acts) a t (w, tr))"
proof -
  let ?p = "wc_Prepared c"
  have run: "does (\<lambda>cs r. step ?p 0 S t cs S (snd (snd r))) tr
      (executeTool c (tracedTurn acts) t (pt_AttemptID ?p) (resumeUseBlock a) (ra_ActionEventID a) (ra_ToolStepID a) d None (w, tr))"
    if "ra_Kind a = PendingToolConfirmation" "ra_Confirmation a \<noteq> ''deny''" "indexTurnTools (pt_Tools ?p) (ra_ToolName a) = Some d"
      "ut_Kind d = TurnToolBuiltin \<or> ut_Kind d = TurnToolMCP" "\<not> (ra_ToolStepID a = [] \<or> pt_AttemptID ?p = [])" for d
  proof (rule executeTool_does)
    show "mayRun ?p (executeToolInput c (t\<lparr>ws_AttemptID := pt_AttemptID ?p\<rparr>) (pt_AttemptID ?p) (resumeUseBlock a)
        (ra_ActionEventID a) (ra_ToolStepID a) d None)"
      using that assms by (auto simp: mayRun_def executeToolInput_def resumeUseBlock_def confirmedFor_def list_ex_iff)
  qed
  show ?thesis
    unfolding resumeAction_def Let_def
  proof (rule does_option, goal_cases)
    case 1
    show ?case by (simp add: quiet_step)
  next
    case (2 d)
    show ?case
    proof (cases "ra_Kind a")
      case PendingToolConfirmation
      show ?thesis
        unfolding PendingToolConfirmation PendingActionKind.case
        by (intro does_if does_step_quiet [OF run])
          (use 2 PendingToolConfirmation in \<open>auto simp: quiet_step case_prod_beta intro: quiet_trans [OF quiet_adds(1)]\<close>)
    qed (simp_all add: quiet_step)
  qed
qed

lemma resumeActions_does:
  assumes "set as \<subseteq> set (pt_ResumeActions (wc_Prepared c))"
  shows "does (\<lambda>cs r. step (wc_Prepared c) 0 S t cs S (snd (snd r))) tr (resumeActions c (tracedTurn acts) as results t (w, tr))"
  using assms
proof (induction as arbitrary: results t w tr)
  case Nil
  then show ?case by (simp add: quiet_step)
next
  case (Cons a as)
  then have a: "a \<in> set (pt_ResumeActions (wc_Prepared c))" and rest: "set as \<subseteq> set (pt_ResumeActions (wc_Prepared c))" by auto
  show ?case
    unfolding resumeActions.simps
  proof (rule does_bind [OF resumeAction_does [OF a, where S = S]], unfold case_prod_beta fst_conv snd_conv, goal_cases)
    case (1 r w1 cs1)
    note onwards = does_mono [where R = "\<lambda>cs r'. step (wc_Prepared c) 0 S (snd (snd r)) cs S (snd (snd r'))", OF Cons.IH [OF rest] step_trans0 [OF 1]]
    show ?case
      by (cases "fst (snd r)"; cases "fst r") (simp_all add: 1 onwards case_prod_beta)
  qed
qed

lemma resumeTurn_does:
  "does (\<lambda>cs r. step (wc_Prepared c) 0 S t cs S (snd r)) tr (resumeWorkflowTurn c (tracedTurn acts) messages t (w, tr))"
  unfolding resumeWorkflowTurn_def Let_def
proof (rule does_if, goal_cases)
  case 1
  show ?case by (simp add: quiet_step)
next
  case 2
  show ?case
  proof (rule does_bind [OF resumeActions_does [OF subset_refl, where S = S]], unfold case_prod_beta fst_conv snd_conv, goal_cases)
    case (1 r w1 cs1)
    then show ?case by (cases "fst (snd r)") (auto intro: step_quiet)
  qed
qed

section \<open>After the answer\<close>

abbreviation goesOn :: "PrepareTurnResult \<Rightarrow> string set \<Rightarrow> turnState \<Rightarrow> turnCall list \<Rightarrow> loopState flow \<Rightarrow> bool" where
  "goesOn p S t cs r \<equiv> flows p 0 S t (\<lambda>_. {}) ls_Turn cs r"

lemma closed_round_quiet [simp]: "quiet t (closeInterruptedProviderToolRound c us bs n t)"
  by (simp add: closeInterruptedProviderToolRound_def quiet_def addTranscript_def Let_def)

lemma continued: "quiet t (ls_Turn s) \<Longrightarrow> does (\<lambda>cs r. goesOn p {} t cs r) tr (Inr (Go s, w, tr))"
  by (simp add: flows_def quiet_step)

lemma addUserText_turn [simp]: "quiet (ls_Turn s) (ls_Turn (addUserText c txt base s))"
  by (simp add: addUserText_def onTurn_def Let_def)

lemma addUserText_after: "quiet t (ls_Turn s) \<Longrightarrow> quiet t (ls_Turn (addUserText c txt base s))"
  by (rule quiet_trans [OF _ addUserText_turn])

lemma continuePause_does:
  "does (\<lambda>cs r. goesOn p {} (spanEnd (an_Called a) False (ls_Turn s)) cs r) tr (continuePause c (tracedTurn acts) a s (w, tr))"
  unfolding continuePause_def Let_def by (intro does_if ends_does continued) simp_all

lemma continueOutput_does:
  "does (\<lambda>cs r. goesOn p {} (spanEnd (an_Called a) False (ls_Turn s)) cs r) tr (continueOutput c (tracedTurn acts) a s (w, tr))"
proof -
  have "quiet (spanEnd (an_Called a) False (ls_Turn s)) (ls_Turn (addUserText c continueOutputText base
      (s\<lparr>ls_Turn := spanEnd (an_Called a) False (ls_Turn s), ls_OutputContinuations := k\<rparr>)))" for base k
    using addUserText_turn [of "s\<lparr>ls_Turn := spanEnd (an_Called a) False (ls_Turn s), ls_OutputContinuations := k\<rparr>"] by simp
  then show ?thesis
    unfolding continueOutput_def Let_def by (intro does_if ends_does continued) simp_all
qed

lemma does_flows_quiet:
  "quiet t t1 \<Longrightarrow> does (\<lambda>cs r. flows p n S t1 S2 get cs r) tr x \<Longrightarrow> does (\<lambda>cs r. flows p n S t S2 get cs r) tr x"
  by (rule does_mono, assumption, rule flows_quiet)

lemma toolPhase_does:
  "does (\<lambda>cs r. goesOn (wc_Prepared c) {} (spanEnd (an_Called a) False (ls_Turn s)) cs r) tr (toolPhase c (tracedTurn acts) a s (w, tr))"
  unfolding toolPhase_def Let_def
proof (rule does_if, goal_cases)
  case 1
  show ?case by (intro does_if ends_does) simp_all
next
  case attempt: 2
  show ?case
  proof (rule does_sum, goal_cases)
    case 1
    show ?case by (intro does_if ends_does) simp_all
  next
    case (2 plan)
    have run: "list_all (runnable (wc_Prepared c)) (tp_Executable plan)" by (rule planToolBatch_runnable [OF 2])
    show ?case
    proof (rule does_if, goal_cases)
      case 1
      show ?case by (intro ends_does) (rule quiet_trans [OF quiet_adds(1) closed_round_quiet])
    next
      case b: 2
      let ?t = "spanEnd (an_Called a) False (ls_Turn s)"
      show ?case
      proof (rule does_flows_quiet [OF quiet_adds(1)], rule does_then [OF executeToolBatch_does [OF run attempt, where S = "{}"], where m = 0],
          unfold case_prod_beta fst_conv snd_conv, goal_cases)
        case (1 y w2 cs2)
        show ?case
        proof (cases "fst (snd y)")
          case BatchDone
          show ?thesis
            unfolding BatchDone batchEnd.case
            by (intro does_if ends_does continued) (simp_all add: quiet_trans [OF quiet_adds(1) quiet_adds(2)])
        next
          case BatchInterrupted
          show ?thesis
            unfolding BatchInterrupted batchEnd.case
            by (intro ends_does) (rule quiet_trans [OF quiet_adds(1) closed_round_quiet])
        next
          case (BatchFailed failure)
          show ?thesis
            unfolding BatchFailed batchEnd.case by (intro ends_does) simp
        qed
      qed simp
    qed
  qed
qed


lemma quiet_evaluation [simp]:
  "quiet t (t\<lparr>ws_ActiveEvaluationStartID := i, ws_ActiveIteration := k\<rparr>)" "quiet t (t\<lparr>ws_ActiveEvaluationStartID := i\<rparr>)"
  by (simp_all add: quiet_def)

lemma evaluateOutcome_does:
  fixes acts :: "'w turnActivities"
  shows "does (\<lambda>cs x. step p 0 S t cs S (snd (snd x))) tr (evaluateOutcome c (tracedTurn acts) input t (w, tr))"
proof -
  have accounted: "does0 (\<lambda>cs. cs = (if b then [CallAccount k u] else [])) tr
      (if b then tw_AccountModelRequest (tracedTurn acts) k m u r (w, tr) else Inr (w, tr))" for b k u m r tr and w :: 'w
    by (cases b) (simp_all only: if_True if_False traced_does0(4) does0_Inr)
  show ?thesis
    unfolding evaluateOutcome_def Let_def
  proof (rule does_bind [OF traced_does(4)], unfold case_prod_beta fst_conv snd_conv, rule does0_bind [OF accounted], goal_cases)
    case (1 x w1 cs1 w2 cs2)
    then show ?case by (auto simp: step_def)
  qed
qed

lemma outcomePhase_does:
  "does (\<lambda>cs r. goesOn p {} (ls_Turn s) cs r) tr (outcomePhase c (tracedTurn acts) outcome cand s (w, tr))"
proof -
  obtain i j where ids: "outcomeEvaluationSpanIDs c (ls_OutcomeIteration s) = (i, j)" by (cases "outcomeEvaluationSpanIDs c (ls_OutcomeIteration s)")
  note admission = beforeAdvisor_does [unfolded beforeAdvisor_def, where S = "{}"]
  have heartbeat: "does (\<lambda>cs t1. step p 0 {} t cs {} t1) tr
      (if b then bindE (flushOutput c (tracedTurn acts) (addDrafts ds t) (w, tr))
         (\<lambda>(t, w2). Inr (t\<lparr>ws_ActiveEvaluationStartID := i, ws_ActiveIteration := k\<rparr>, w2)) else Inr (t, w, tr))" for b t ds k tr and w :: 'a
  proof (rule does_if, rule does_bind [OF flush_does [where p = p and S = "{}"]], goal_cases)
    case (1 t1 w1 cs)
    have "step p 0 {} t cs {} t1" by (rule quiet_then_step [OF quiet_adds(1) 1(2)])
    then show ?case unfolding case_prod_conv does_Inr append_Nil2 by (rule step_quiet) simp
  qed (simp add: quiet_step)
  have failed: "quiet t (if b then (addDrafts ds t)\<lparr>ws_ActiveEvaluationStartID := []\<rparr> else t)" for t :: turnState and b ds
    by (simp add: quiet_def addDrafts_def)
  have evaluated: "quiet t (if b then (if b2 then addDrafts ds t else (addDrafts ds t)\<lparr>ws_ActiveEvaluationStartID := []\<rparr>) else addDrafts es t)"
    for t :: turnState and b b2 ds es by (simp add: quiet_def addDrafts_def)
  show ?thesis
    unfolding outcomePhase_def Let_def ids case_prod_conv
  proof (rule does_then [OF admission, where m = 0], unfold case_prod_conv, rule does_then [OF heartbeat, where m = 0],
      unfold case_prod_conv, rule does_then [OF evaluateOutcome_does, where m = 0], unfold case_prod_beta fst_conv snd_conv, goal_cases)
    case (1 t1 w1 cs1 t2 w2 cs2 y w3 cs3)
    show ?case
      by (intro does_if ends_does continued quiet_self failed evaluated) (rule addUserText_after, simp add: quiet_def addDrafts_def)+
  qed simp_all
qed

lemma finishPhase_does:
  "does (\<lambda>cs r. goesOn p {} (spanEnd (an_Called a) False (ls_Turn s)) cs r) tr (finishPhase c (tracedTurn acts) a s (w, tr))"
  unfolding finishPhase_def Let_def
  using outcomePhase_does [of p "s\<lparr>ls_Turn := spanEnd (an_Called a) False (ls_Turn s)\<rparr>" tr c]
  by (intro does_option does_if ends_does) simp_all

lemma recordAnswer_quiet [simp]: "quiet (ls_Turn s) (ls_Turn (recordAnswer c a s))"
  by (simp add: recordAnswer_def onTurn_def quiet_def addTranscript_def Let_def)

lemma does_from_span:
  assumes "does (\<lambda>cs r. goesOn p {} (spanEnd called False t) cs r) tr x"
  shows "does (\<lambda>cs r. goesOn p (spansOf called) t cs r) tr x"
  by (rule does_mono [OF assms]) (use flows_step [where n = 0 and m = 0 and k = 0, OF spanEnd_step [of p 0 called t False]] in simp)

lemma answerPhase_does:
  "does (\<lambda>cs r. goesOn (wc_Prepared c) (spansOf (an_Called a)) (ls_Turn s) cs r) tr (answerPhase c (tracedTurn acts) a s (w, tr))"
proof -
  have q: "quiet (ls_Turn s) (ls_Turn (onTurn (addDrafts ds) (recordAnswer c a s)))" for ds
    using quiet_trans [OF recordAnswer_quiet [of s c a] quiet_adds(1)] by (simp add: onTurn_def)
  have q2: "quiet (ls_Turn s) (ls_Turn (onTurn (addDrafts es) (onTurn (addDrafts ds) (recordAnswer c a s))))" for ds es
    using quiet_trans [OF q [of ds] quiet_adds(1)] by (simp add: onTurn_def)
  show ?thesis
    unfolding answerPhase_def Let_def
  proof (rule does_if, goal_cases)
    case 1
    then have "spansOf (an_Called a) = {}" by (simp add: spansOf_def wellCalled_def)
    then show ?case by (intro does_if) (simp_all add: ends_does q)
  next
    case 2
    show ?case
      by (rule does_flows_quiet [OF q2 [of "messageDrafts (an_Called a)" "thinkingDrafts (an_Called a)"]], rule does_from_span)
        (intro does_if ends_does continuePause_does continueOutput_does finishPhase_does toolPhase_does quiet_self)
  qed
qed


section \<open>Rounds and turns\<close>

lemma does_andThen:
  assumes "does (\<lambda>cs r. flows p n S t S1 get cs r) tr x"
    and "\<And>a w cs. does (\<lambda>ys r. flows p m (S1 a) (get a) S2 get2 ys r) (tr @ cs) (f a (w, tr @ cs))"
    and "n + m \<le> k"
  shows "does (\<lambda>cs r. flows p k S t S2 get2 cs r) tr (andThen x f)"
  unfolding andThen_def
proof (rule does_bind [OF assms(1)], unfold case_prod_conv, goal_cases)
  case (1 r w cs)
  show ?case
  proof (cases r)
    case (Go a)
    then have "step p n S t cs (S1 a) (get a)" using 1 by (simp add: flows_def)
    then show ?thesis unfolding Go flow.case
      by (intro does_mono [OF assms(2)]) (rule flows_step [OF _ _ assms(3)])
  next
    case (Ended d)
    then show ?thesis using 1 assms(3) by (auto simp: flows_def intro: closing_more)
  qed
qed

lemma turnRound_does:
  "does (\<lambda>cs r. flows (wc_Prepared c) 4 {} (ls_Turn s) (\<lambda>_. {}) ls_Turn cs r) tr (turnRound c (tracedTurn acts) rnd s (w, tr))"
proof -
  let ?p = "wc_Prepared c"
  have flushed: "does (\<lambda>cs t1. step ?p 0 {} (ls_Turn s) cs {} t1) tr
      (if b then flushOutput c (tracedTurn acts) (ls_Turn s) (w, tr) else Inr (ls_Turn s, w, tr))" for b
    by (intro does_if flush_does) (simp add: quiet_step)
  have four: "attemptsLeft 0 False \<le> 4" by (simp add: attemptsLeft_def maxModelRequestAttempts_def)
  show ?thesis
    unfolding turnRound_def Let_def
  proof (rule does_then [OF flushed, where m = 4], unfold case_prod_conv, rule does_sum, goal_cases)
    case (1 t w1 cs e)
    show ?case by (intro ends_does) simp
  next
    case (2 t w1 cs r)
    have q: "quiet t (if b then addDrafts ds t else t)" for b ds by simp
    have ls: "s\<lparr>ls_Turn := a, ls_Messages := b\<rparr> = s\<lparr>ls_Messages := b, ls_Turn := a\<rparr>" for a b by simp
    show ?case
    proof (rule does_flows_quiet [OF q], rule does_andThen [OF requestModel_does, where m = 0], goal_cases)
      case (1 m w2 cs2)
      show ?case
        using answerPhase_does [of c "answerOf c (length (ws_ToolUseMappings (mc_Turn m))) m"
            "s\<lparr>ls_Turn := mc_Turn m, ls_Messages := mc_Messages m\<rparr>" "(tr @ cs) @ cs2" acts w2]
        by (simp add: answerOf_def case_prod_beta Let_def)
    qed (use four in simp)
  qed simp
qed

lemma turnRounds_does:
  "does (\<lambda>cs r. flows (wc_Prepared c) (4 * left) {} (ls_Turn s) (\<lambda>_. {}) ls_Turn cs r) tr (turnRounds c (tracedTurn acts) rnd left s (w, tr))"
proof (induction left arbitrary: rnd s w tr)
  case 0
  then show ?case by (simp add: flows_Go quiet_step)
next
  case (Suc left)
  show ?case
    unfolding turnRounds.simps by (rule does_andThen [OF turnRound_does Suc.IH]) simp
qed

lemma closes_within: "does (\<lambda>cs d. closing p 0 S t cs d) tr x \<Longrightarrow> does (\<lambda>cs d. closing p n S t cs d) tr x"
  by (rule does_mono, assumption, erule closing_more) simp

lemma runPrepared_does:
  "does (\<lambda>cs d. closing (wc_Prepared c) (4 * maxRounds (wc_Prepared c)) {} (initialTurn c) cs d) tr (runPrepared c (tracedTurn acts) (w, tr))"
proof -
  let ?p = "wc_Prepared c" and ?n = "4 * maxRounds (wc_Prepared c)"
  show ?thesis
    unfolding runPrepared_def Let_def
  proof (rule does_if, goal_cases)
    case 1
    show ?case by (rule closes_within, rule closes_does)
  next
    case 2
    show ?case
    proof (rule does_close [OF resumeTurn_does [where S = "{}"], where m = ?n], unfold case_prod_beta fst_conv snd_conv, goal_cases)
      case (1 r w1 cs1)
      show ?case
      proof (cases "fst r")
        case (Resumed messages)
        show ?thesis
          unfolding Resumed resumeEnd.case
        proof (rule does_bind [OF turnRounds_does], goal_cases)
          case (1 r2 w2 cs2)
          show ?case
          proof (cases r2)
            case (Go s)
            then have st: "step ?p ?n {} (snd r) cs2 {} (ls_Turn s)" using 1 by (simp add: flows_def initialLoop_def)
            have "does (\<lambda>cs d. closing ?p 0 {} (ls_Turn s) cs d) ((tr @ cs1) @ cs2) (exceedRounds c (tracedTurn acts) (ls_Turn s) (w2, (tr @ cs1) @ cs2))"
              unfolding exceedRounds_def by (intro does_if closes_does)
            then show ?thesis unfolding Go fst_conv snd_conv flow.case
              by (rule does_mono) (use step_closing [OF st, where m = 0] in simp)
          next
            case (Ended d)
            then show ?thesis using 1 by (simp add: flows_def initialLoop_def)
          qed
        qed
      next
        case ResumeInterrupted
        show ?thesis unfolding ResumeInterrupted resumeEnd.case by (rule closes_within, rule closes_does)
      next
        case (ResumeFailed failure)
        show ?thesis unfolding ResumeFailed resumeEnd.case by (rule closes_within, rule closes_does)
      qed
    qed simp
  qed
qed

text \<open>A turn that returns: it found its work done, or it ran and committed.\<close>

lemma turn_runs:
  assumes "runWorkflowTurnInternal c (tracedTurn acts) (w, []) = Inr (d, w1, tr)"
  obtains p where "tr = [CallPrepare p]" "pt_AlreadyCompleted p"
  | p calls where "tr = CallPrepare p # calls" "\<not> pt_AlreadyCompleted p"
      "closing p (4 * maxRounds p) {} (initialTurn (c\<lparr>wc_Prepared := p\<rparr>)) calls d"
proof -
  have "does (\<lambda>cs d. (\<exists>p. cs = [CallPrepare p] \<and> pt_AlreadyCompleted p) \<or>
      (\<exists>p calls. cs = CallPrepare p # calls \<and> \<not> pt_AlreadyCompleted p
        \<and> closing p (4 * maxRounds p) {} (initialTurn (c\<lparr>wc_Prepared := p\<rparr>)) calls d)) []
      (runWorkflowTurnInternal c (tracedTurn acts) (w, []))"
    unfolding runWorkflowTurnInternal_def
  proof (rule does_bind [OF traced_does(1)], unfold case_prod_conv, rule does_if, goal_cases)
    case (1 q w1 cs)
    then show ?case by simp
  next
    case (2 q w1 cs)
    show ?case
      by (rule does_mono [OF runPrepared_does]) (use 2 in simp)
  qed
  with assms that show thesis unfolding does_def by fastforce
qed


section \<open>A sample turn\<close>

definition sampleBash :: TurnTool where
  "sampleBash = \<lparr>ut_Name = ''bash'', ut_Kind = TurnToolBuiltin, ut_Permission = \<lparr>pp_Type = ''always_allow''\<rparr>,
     ut_MCPServer = \<lparr>ms_Name = [], ms_URL = []\<rparr>, ut_MCPToolName = [], ut_Model = []\<rparr>"

definition samplePrepared :: PrepareTurnResult where
  "samplePrepared = \<lparr>pt_AlreadyCompleted = False, pt_Terminated = False, pt_FatalError = [], pt_SessionOutputsEnabled = False,
     pt_AttemptID = ''att_1'', pt_ThreadID = [], pt_IsChild = False, pt_SkillRuntimeRoot = [],
     pt_Request = sampleRequest\<lparr>rq_Model := [], rq_System := [], rq_Messages := [userText ''go'']\<rparr>, pt_Tools = [sampleBash], pt_ResumeActions = [], pt_PreludeEvents = [],
     pt_UsesProviderTranscript = True, pt_TranscriptDelta = [userText ''go''], pt_Outcome = None,
     pt_ContextProjection = \<lparr>cp_Compacted = False, cp_OriginalEstimatedTokens = 0, cp_ProjectedEstimatedTokens = 0, cp_DroppedMessages = 0\<rparr>\<rparr>"

definition sampleTurn :: turnContext where
  "sampleTurn = \<lparr>wc_SessionID = ''s'', wc_TriggerEventID = ''e'', wc_ResolutionEventIDs = [],
     wc_Versions = \<lparr>gv_LiveModelSpanStarts = True, gv_MCPToolEvents = True, gv_TerminalSessionErrors = True,
       gv_OutcomeHeartbeats = True, gv_ModelRetryLifecycle = True, gv_ContextCompactionEvents = True,
       gv_ProviderStopReasons = True, gv_ModelRequestAccounting = True, gv_CumulativePauseContinuations = True\<rparr>,
     wc_Prepared = samplePrepared, wc_Sum = id, wc_Quote = id, wc_Env = sampleEnv, wc_AdvisorPayload = (\<lambda>_ _. None)\<rparr>"

text \<open>The first answer asks for a tool, the second says what it found; the world counts the answers.\<close>

definition sampleAnswer :: "nat \<Rightarrow> CallModelInput \<Rightarrow> CallModelResult" where
  "sampleAnswer n i = \<lparr>cr_Response = (if n = 0
       then \<lparr>rp_Content = [toolUseBlock ''tu_1'' ''bash'' None], rp_StopReason = ''tool_use'',
              rp_Usage = zeroUsage\<lparr>InputTokens := 9, OutputTokens := 3\<rparr>\<rparr>
       else \<lparr>rp_Content = [textBlock ''ok''], rp_StopReason = ''end_turn'', rp_Usage = zeroUsage\<lparr>InputTokens := 12, OutputTokens := 1\<rparr>\<rparr>),
     cr_MessageEventID = ''sevt_m'', cr_ThinkingEventID = [], cr_ModelRequestStartID = ci_ModelRequestStartID i,
     cr_ModelRequestEndID = ci_ModelRequestEndID i,
     cr_ToolSteps = (if n = 0 then [\<lparr>ps_ToolUseEventID = ''sevt_u'', ps_ProviderToolUseID = ''tu_1'', ps_ToolStepID = ''step_1''\<rparr>] else []),
     cr_FatalError = [], cr_FatalErrorType = [], cr_ContextOverflow = False, cr_ContextOverflowError = [], cr_RetryError = None\<rparr>"

definition sampleActivities :: "nat turnActivities" where
  "sampleActivities = \<lparr>tw_PrepareTurn = (\<lambda>_ _ w. Inr (samplePrepared, w)), tw_AppendWorkflowEvents = (\<lambda>_ w. Inr w),
     tw_AwaitAdmission = Inr, tw_StartModelRequest = (\<lambda>_ w. Inr w),
     tw_CallModel = (\<lambda>i w. Inr ((sampleAnswer w i, \<lparr>io_Interrupted = False, io_Completed = True\<rparr>), Suc w)),
     tw_AccountModelRequest = (\<lambda>_ _ _ _ w. Inr w), tw_RecordModelRetry = (\<lambda>_ _ _ w. Inr w),
     tw_WaitModelRetry = (\<lambda>_ w. Inr (False, w)), tw_ResumeModelRetry = (\<lambda>_ w. Inr w),
     tw_EvaluateOutcome = (\<lambda>i w. Inr ((\<lparr>or_StartEventID = [], or_EndEventID = [], or_Result = ''satisfied'', or_Explanation = [],
        or_Usage = zeroUsage, or_StopReason = [], or_FatalError = []\<rparr>, \<lparr>io_Interrupted = False, io_Completed = True\<rparr>), w)),
     tw_ExecuteTool = (\<lambda>i w. Inr ((\<lparr>xr_Result = \<lparr>sr_Content = Some [JObj [(''type'', JStr ''text''), (''text'', JStr ''2'')]], sr_IsError = False,
        sr_InjectedContent = None, sr_Events = None, sr_Raw = None, sr_RawPath = []\<rparr>, xr_Events = [], xr_Ambiguous = False, xr_FatalError = []\<rparr>, \<lparr>io_Interrupted = False, io_Completed = True\<rparr>), w)),
     tw_PublishSessionOutputs = (\<lambda>w. Inr ([], w)), tw_CompleteWorkflowTurn = (\<lambda>_ _ w. Inr (TurnCompleted, w))\<rparr>"


definition sampleTurnRun :: "storeError + TurnDisposition \<times> nat \<times> turnCall list" where
  "sampleTurnRun = runWorkflowTurnInternal sampleTurn (tracedTurn sampleActivities) (0, [])"

lemma sampleTurnRun_eval: "(case sampleTurnRun of Inl e \<Rightarrow> False | Inr (d, w, tr) \<Rightarrow>
   (case tr of CallPrepare p # calls \<Rightarrow> \<not> pt_AlreadyCompleted p \<and> maxRounds p = 20 \<and> list_all answersNamed calls
      \<and> modelCallsIn calls = 2 \<and> length (startedIn calls) = 2 \<and> ordinalAfter 0 calls = 1 | _ \<Rightarrow> False))"
  by code_simp

lemma sampleTurn_run:
  obtains d w1 p calls where "runWorkflowTurnInternal sampleTurn (tracedTurn sampleActivities) (0, []) = Inr (d, w1, CallPrepare p # calls)"
    "\<not> pt_AlreadyCompleted p" "maxRounds p = 20" "list_all answersNamed calls" "modelCallsIn calls = 2" "length (startedIn calls) = 2"
    "ordinalAfter 0 calls = 1"
  using sampleTurnRun_eval that unfolding sampleTurnRun_def
  by (auto split: sum.split_asm prod.split_asm list.split_asm turnCall.split_asm)

section \<open>Properties of a turn\<close>

lemma turn_calls:
  assumes "runWorkflowTurnInternal c (tracedTurn acts) (w, []) = Inr (d, w1, CallPrepare p # calls)"
  shows "pt_AlreadyCompleted p \<and> calls = [] \<or>
    \<not> pt_AlreadyCompleted p \<and> closing p (4 * maxRounds p) {} (initialTurn (c\<lparr>wc_Prepared := p\<rparr>)) calls d"
  using assms by (cases rule: turn_runs) auto

lemma initialTurn_counts: "ws_Ordinal (initialTurn c) = 0" "ws_Usage (initialTurn c) = zeroUsage"
  by (simp_all add: initialTurn_def Let_def)

fun toolPermitted :: "PrepareTurnResult \<Rightarrow> turnCall \<Rightarrow> bool" where
  "toolPermitted p (CallExecute i r completed) = mayRun p i"
| "toolPermitted p _ = True"

lemma allowed_permitted: "list_all (callAllowed p) cs \<Longrightarrow> list_all (toolPermitted p) cs"
proof (rule list.pred_mono_strong, assumption)
  show "toolPermitted p x" if "callAllowed p x" for x using that by (cases x) simp_all
qed

lemma allowed_uncommitted: "list_all (callAllowed p) cs \<Longrightarrow> filter committed cs = []"
  by (induction cs) (auto elim!: committed.elims)

text \<open>
  C7. Whatever the model asks and the activities return, a turn runs a tool only if it is one of its tools, under a
  durable attempt and step, and it is private to the runtime, needs no permission, or the user allowed that very
  call with that very input; custom and self-hosted tools it never runs. The runs are numbered without gaps.
\<close>

theorem turn_tools_permitted:
  assumes "runWorkflowTurnInternal c (tracedTurn acts) (w, []) = Inr (d, w1, CallPrepare p # calls)"
  shows "list_all (toolPermitted p) calls \<and> numbered 0 calls"
  using turn_calls [OF assms]
proof (elim disjE conjE)
  assume "closing p (4 * maxRounds p) {} (initialTurn (c\<lparr>wc_Prepared := p\<rparr>)) calls d"
  then obtain pre out where "calls = pre @ [CallCommit out d]" "list_all (callAllowed p) pre" "numbered 0 pre"
    by (auto simp: closing_def step_def initialTurn_counts)
  then show ?thesis using allowed_permitted by simp
qed simp

theorem turn_tools_permitted_witness:
  "\<exists>d w1 p calls. runWorkflowTurnInternal sampleTurn (tracedTurn sampleActivities) (0, []) = Inr (d, w1, CallPrepare p # calls)
     \<and> ordinalAfter 0 calls = 1 \<and> list_all (toolPermitted p) calls"
proof (rule sampleTurn_run, goal_cases)
  case (1 d w1 p calls)
  with turn_tools_permitted [OF 1(1)] show ?case by blast
qed

text \<open>
  C9. A turn that finds its trigger already completed returns with no further activity; every other turn that returns
  commits exactly once, as its last act, and the usage it commits is that of all the model requests and evaluations it
  completed, each counted once.
\<close>

theorem turn_commits_once:
  assumes "runWorkflowTurnInternal c (tracedTurn acts) (w, []) = Inr (d, w1, CallPrepare p # calls)"
  shows "if pt_AlreadyCompleted p then calls = []
    else \<exists>pre out. calls = pre @ [CallCommit out d] \<and> filter committed pre = []
      \<and> to_Usage out = foldl usageAdd zeroUsage (usagesIn pre)"
  using turn_calls [OF assms(1)] allowed_uncommitted
  by (fastforce simp: closing_def step_def initialTurn_counts)

theorem turn_commits_once_witness:
  "\<exists>d w1 p calls out. runWorkflowTurnInternal sampleTurn (tracedTurn sampleActivities) (0, []) = Inr (d, w1, CallPrepare p # calls)
     \<and> last calls = CallCommit out d \<and> filter committed (butlast calls) = []"
proof (rule sampleTurn_run, goal_cases)
  case (1 d w1 p calls)
  with turn_commits_once [OF 1(1)] show ?case by fastforce
qed

text \<open>Whatever the activities answer, the requests of a turn are bounded by the rounds its outcome allows.\<close>

lemma turn_requests_bounded:
  assumes "runWorkflowTurnInternal c (tracedTurn acts) (w, []) = Inr (d, w1, CallPrepare p # calls)"
  shows "modelCallsIn calls \<le> 4 * maxRounds p"
  using turn_calls [OF assms] by (auto simp: closing_def step_def)

text \<open>
  C10. Every model request a turn made public when it began is made public as ended by the time the turn has
  committed: retried, overflown, failed, cancelled by an interrupt or answered. The model activity must name its
  requests as it was told and give public text an event of its own.
\<close>

theorem turn_spans_closed:
  assumes "runWorkflowTurnInternal c (tracedTurn acts) (w, []) = Inr (d, w1, CallPrepare p # calls)"
    and "list_all answersNamed calls"
  shows "set (startedIn calls) \<subseteq> endsOf (draftedIn calls)"
  using turn_calls [OF assms(1)]
proof (elim disjE conjE)
  assume "closing p (4 * maxRounds p) {} (initialTurn (c\<lparr>wc_Prepared := p\<rparr>)) calls d"
  with assms(2) show ?thesis by (auto simp: closing_def step_def dest!: subsetD)
qed simp

theorem turn_spans_closed_witness:
  "\<exists>d w1 p calls. runWorkflowTurnInternal sampleTurn (tracedTurn sampleActivities) (0, []) = Inr (d, w1, CallPrepare p # calls)
     \<and> length (startedIn calls) = 2 \<and> set (startedIn calls) \<subseteq> endsOf (draftedIn calls)"
proof (rule sampleTurn_run, goal_cases)
  case (1 d w1 p calls)
  with turn_spans_closed [OF 1(1,4)] show ?case by blast
qed

end
