(* ===== verification/TurnRequests.thy ===== *)
theory TurnRequests
  imports TurnLaws
begin

text \<open>
  What a turn sends to the model: every request of a turn is a conversation the provider accepts, in which roles
  alternate and every call is answered in full by the message after it, through resumptions, continuations,
  evaluations, tool rounds and compactions.
\<close>

section \<open>Conversations up to identifiers\<close>

definition sameIds :: "Role \<times> blockShape list \<Rightarrow> Role \<times> blockShape list \<Rightarrow> bool" where
  "sameIds a b \<longleftrightarrow> fst a = fst b \<and> usesOf a = usesOf b \<and> resultsOf a = resultsOf b"

lemma sameIds_refl [simp]: "sameIds a a"
  by (simp add: sameIds_def)

lemma sameIds_whole: "list_all2 sameIds xs ys \<Longrightarrow> wholeFrom prev ids xs = wholeFrom prev ids ys"
  by (induction xs ys arbitrary: prev ids rule: list_all2_induct) (auto simp: sameIds_def wholeNext_def)

lemma sameIds_last: "list_all2 sameIds xs ys \<Longrightarrow> lastUses ids xs = lastUses ids ys"
  by (induction xs ys arbitrary: ids rule: list_all2_induct) (auto simp: sameIds_def lastUses_def split: if_splits)

lemma sameIds_append:
  assumes "list_all2 sameIds xs ys" "sameIds a b"
  shows "list_all2 sameIds (appendShape xs a) (appendShape ys b)"
proof (cases xs rule: rev_cases)
  case Nil
  with assms show ?thesis by (simp add: appendShape_def)
next
  case (snoc zs z)
  with assms(1) obtain ws v where ys: "ys = ws @ [v]" "list_all2 sameIds zs ws" "sameIds z v"
    by (auto simp: list_all2_append1 list_all2_Cons1)
  with assms(2) snoc show ?thesis
    by (auto simp: appendShape_def sameIds_def merge_shape_ids intro!: list_all2_appendI)
qed

lemma sameIds_wholeShape: "list_all2 sameIds xs ys \<Longrightarrow> wholeShape xs = wholeShape ys"
  using sameIds_whole sameIds_last by (simp add: wholeShape_def)

definition plainBlocks :: "ContentBlock list \<Rightarrow> bool" where
  "plainBlocks bs \<longleftrightarrow> list_all (\<lambda>b. cb_Type b \<noteq> ''tool_use'' \<and> cb_Type b \<noteq> ''tool_result'') bs"

lemma block_ids:
  "usesOf (r, map shapeB bs) = map cb_ToolUseID (filter (\<lambda>b. cb_Type b = ''tool_use'') bs)"
  "resultsOf (r, map shapeB bs) = map cb_ToolResultFor (filter (\<lambda>b. cb_Type b = ''tool_result'') bs)"
  by (induction bs) (auto simp: usesOf_def resultsOf_def shapeB_def)

lemma plain_ids: "plainBlocks bs \<Longrightarrow> filter (\<lambda>b. cb_Type b = ''tool_use'') bs = []"
    "plainBlocks bs \<Longrightarrow> filter (\<lambda>b. cb_Type b = ''tool_result'') bs = []"
  by (auto simp: plainBlocks_def list_all_iff filter_empty_conv)

section \<open>What the activities promise\<close>

text \<open>A model does not answer with tool results, and what a tool adds for the model is neither a call nor a result.\<close>

fun plainCall :: "turnCall \<Rightarrow> bool" where
  "plainCall (CallModel i r completed) \<longleftrightarrow> list_all (\<lambda>b. cb_Type b \<noteq> ''tool_result'') (rp_Content (cr_Response r))"
| "plainCall (CallExecute i r completed) \<longleftrightarrow> plainBlocks (elems (sr_InjectedContent (xr_Result r)))"
| "plainCall _ = True"

fun wholeRequest :: "turnCall \<Rightarrow> bool" where
  "wholeRequest (CallModel i r completed) = wholeConversation (rq_Messages (ci_Request i))"
| "wholeRequest _ = True"

text \<open>The messages a resumption adds to those that were prepared, with the results left blank.\<close>

definition blankResult :: "string \<Rightarrow> ContentBlock" where
  "blankResult i = emptyBlock\<lparr>cb_Type := ''tool_result'', cb_ToolResultFor := i\<rparr>"

definition resumptionOf :: "PrepareTurnResult \<Rightarrow> Message list" where
  "resumptionOf p =
     (let actions = pt_ResumeActions p;
          answers = \<lparr>mg_Role = RoleUser, mg_Content = map (blankResult \<circ> resumeProviderID) actions, mg_ContextUsage = None\<rparr>
      in if actions = [] then []
         else if pt_UsesProviderTranscript p then [answers]
         else [\<lparr>mg_Role = RoleAssistant, mg_Content = map resumeUseBlock actions, mg_ContextUsage = None\<rparr>, answers])"

definition preparedWhole :: "PrepareTurnResult \<Rightarrow> bool" where
  "preparedWhole p \<longleftrightarrow> wholeConversation (AppendMerging (rq_Messages (pt_Request p)) (resumptionOf p))"

section \<open>Calls that are not requests\<close>

lemma no_requests: "modelCallsIn cs = 0 \<Longrightarrow> list_all wholeRequest cs"
  by (induction cs rule: modelCallsIn.induct) auto

lemma does_conj: "does R tr x \<Longrightarrow> does S tr x \<Longrightarrow> does (\<lambda>cs a. R cs a \<and> S cs a) tr x"
  unfolding does_def by (metis same_append_eq)

text \<open>Where a phase goes on, given that its calls kept what the activities promise.\<close>

definition afterwards :: "('a \<Rightarrow> bool) \<Rightarrow> turnCall list \<Rightarrow> 'a flow \<Rightarrow> bool" where
  "afterwards J cs r \<longleftrightarrow> (list_all plainCall cs \<longrightarrow> (case r of Go a \<Rightarrow> J a | Ended d \<Rightarrow> True))"

section \<open>The model request\<close>

lemma callModel_asks:
  fixes acts :: "'w turnActivities"
  assumes "wholeConversation (rq_Messages request)"
  shows "does (\<lambda>cs x. list_all wholeRequest cs \<and> (list_all plainCall cs \<longrightarrow>
       list_all (\<lambda>b. cb_Type b \<noteq> ''tool_result'') (rp_Content (cr_Response (fst x))))) tr
     (callModel c (tracedTurn acts) rnd attempt request t (w, tr))"
proof -
  obtain i j where ids: "modelRequestAttemptSpanIDs c rnd attempt = (i, j)" by (cases "modelRequestAttemptSpanIDs c rnd attempt")
  have admitted: "does0 (\<lambda>cs. cs = (if b then [CallAdmission] else [])) tr
      (if b then tw_AwaitAdmission (tracedTurn acts) (w, tr) else Inr (w, tr))" for b tr and w :: 'w
    by (cases b) (simp_all only: if_True if_False traced_does0(2) does0_Inr)
  have started: "does0 (\<lambda>cs. cs = (if b then [CallStart i] else [])) tr
      (if b then tw_StartModelRequest (tracedTurn acts) i (w, tr) else Inr (w, tr))" for b tr and w :: 'w
    by (cases b) (simp_all only: if_True if_False traced_does0(3) does0_Inr)
  have accounted: "does0 (\<lambda>cs. cs = (if b then [CallAccount k u] else [])) tr
      (if b then tw_AccountModelRequest (tracedTurn acts) k m u r (w, tr) else Inr (w, tr))" for b k u m r tr and w :: 'w
    by (cases b) (simp_all only: if_True if_False traced_does0(4) does0_Inr)
  show ?thesis
    unfolding callModel_def ids case_prod_conv Let_def
  proof (rule does0_bind [OF admitted], rule does0_bind [OF started], rule does_bind [OF traced_does(3)],
      unfold case_prod_beta fst_conv snd_conv, rule does0_bind [OF accounted], goal_cases)
    case (1 w1 cs1 w2 cs2 x w3 cs3 w4 cs4)
    then show ?case using assms by auto
  qed
qed

definition askedWell :: "modelCall \<Rightarrow> bool" where
  "askedWell m \<longleftrightarrow> wholeConversation (rq_Messages (mc_Request m)) \<and> wholeConversation (mc_Messages m)
     \<and> list_all (\<lambda>b. cb_Type b \<noteq> ''tool_result'') (rp_Content (cr_Response (mc_Called m)))"

text \<open>Requests that are whole, and where it goes on.\<close>

definition asks :: "('a \<Rightarrow> bool) \<Rightarrow> turnCall list \<Rightarrow> 'a flow \<Rightarrow> bool" where
  "asks J cs r \<longleftrightarrow> (list_all plainCall cs \<longrightarrow> list_all wholeRequest cs) \<and> afterwards J cs r"

lemma asks_Ended: "modelCallsIn cs = 0 \<Longrightarrow> asks J cs (Ended d)"
  by (simp add: asks_def afterwards_def no_requests)

lemma asks_ends:
  "does (asks J) tr (ending (complete c (tracedTurn acts) t pe (w, tr)))"
  "does (asks J) tr (ending (completeInterrupted c (tracedTurn acts) t (w, tr)))"
  "does (asks J) tr (ending (terminateTyped c (tracedTurn acts) t ty msg (w, tr)))"
  "does (asks J) tr (ending (terminate c (tracedTurn acts) t msg (w, tr)))"
  "does (asks J) tr (ending (exhaustModelRetries c (tracedTurn acts) t retry (w, tr)))"
proof -
  have fin: "does (asks J) tr (ending x)" if "does (\<lambda>cs d. closing p 0 {} t cs d) tr x"
    for p t and x :: "storeError + TurnDisposition \<times> 'b \<times> turnCall list"
    unfolding ending_def
    by (rule does_bind [OF that]) (auto simp: closing_def step_def intro!: asks_Ended)
  show "does (asks J) tr (ending (complete c (tracedTurn acts) t pe (w, tr)))"
    "does (asks J) tr (ending (completeInterrupted c (tracedTurn acts) t (w, tr)))"
    "does (asks J) tr (ending (terminateTyped c (tracedTurn acts) t ty msg (w, tr)))"
    "does (asks J) tr (ending (terminate c (tracedTurn acts) t msg (w, tr)))"
    "does (asks J) tr (ending (exhaustModelRetries c (tracedTurn acts) t retry (w, tr)))"
    by (rule fin, rule closes_does)+
qed

lemma asks_go: "J a \<Longrightarrow> does (asks J) tr (Inr (Go a, w, tr))"
  by (simp add: asks_def afterwards_def)

text \<open>After calls that are not requests.\<close>

lemma asks_then:
  assumes "does R tr x" "\<And>cs a. R cs a \<Longrightarrow> modelCallsIn cs = 0"
    and "\<And>a w cs. R cs a \<Longrightarrow> does (\<lambda>ys r. list_all plainCall cs \<longrightarrow> asks J ys r) (tr @ cs) (f (a, w, tr @ cs))"
  shows "does (asks J) tr (bindE x f)"
proof (rule does_bind [OF assms(1)], goal_cases)
  case (1 a w cs)
  have "list_all wholeRequest cs" using assms(2) [OF 1] by (rule no_requests)
  then show ?case by (intro does_mono [OF assms(3) [OF 1]]) (auto simp: asks_def afterwards_def)
qed

lemma asks_weak: "does (asks J) tr x \<Longrightarrow> does (\<lambda>ys r. b \<longrightarrow> asks J ys r) tr x"
  by (rule does_mono, assumption) simp

lemma step_no_requests: "step p 0 S t cs S1 t1 \<Longrightarrow> modelCallsIn cs = 0"
  by (simp add: step_def)

lemma requestModel_asks:
  assumes "wholeConversation (rq_Messages request)" "wholeConversation messages"
  shows "does (asks askedWell) tr (requestModel c (tracedTurn acts) rnd attempt recovered request messages t (w, tr))"
  using assms
proof (induction "attemptsLeft attempt recovered" arbitrary: attempt recovered request messages t w tr rule: less_induct)
  case less
  let ?k = "attemptsLeft attempt recovered"
  have again: "does (asks askedWell) tr1 (requestModel c (tracedTurn acts) rnd (Suc attempt) recovered1 request1 messages1 t1 (w1, tr1))"
    if "1 + attemptsLeft (Suc attempt) recovered1 \<le> ?k" "wholeConversation (rq_Messages request1)" "wholeConversation messages1"
    for recovered1 request1 messages1 t1 w1 tr1
    by (rule less(1)) (use that in auto)
  show ?case
  proof (subst requestModel.simps, rule does_bind [OF callModel_asks [OF less(2)]], unfold case_prod_beta fst_conv snd_conv, goal_cases)
    case (1 x w1 cs1)
    let ?called = "fst x" and ?t2 = "spanStart c (fst x) (snd (snd x))"
    let ?t3 = "spanEnd ?called True ?t2"
    let ?goal = "does (\<lambda>ys r. asks askedWell (cs1 @ ys) r) (tr @ cs1)"
    have prefix: "?goal y" if "does (\<lambda>ys r. list_all plainCall cs1 \<longrightarrow> asks askedWell ys r) (tr @ cs1) y" for y
      by (rule does_mono [OF that]) (use 1 in \<open>auto simp: asks_def afterwards_def\<close>)
    note stop = prefix [OF asks_weak [OF asks_ends(2)]] prefix [OF asks_weak [OF asks_ends(3)]] prefix [OF asks_weak [OF asks_ends(5)]]
    have answered: "?goal (Inr (Go \<lparr>mc_Called = ?called, mc_Interrupted = b, mc_Request = request, mc_Messages = messages,
        mc_Turn = ?t2\<rparr>, w1, tr @ cs1))" for b
      by (rule prefix) (use 1 less(2,3) in \<open>auto simp: asks_def afterwards_def askedWell_def\<close>)
    have recovered: "?goal (bindE (flushOutput c (tracedTurn acts) (addDrafts [compactedDraft] ?t3) (w1, tr @ cs1)) (\<lambda>(t4, w2).
        requestModel c (tracedTurn acts) rnd (Suc attempt) True (pc_Request q) (rq_Messages (pc_Request q)) t4 w2))"
      if "prepareRequestContext (wc_Env c) request True 0 = Inr q" "\<not> recovered" for q
    proof (rule prefix, rule asks_weak, rule asks_then [OF flush_does [where p = undefined and S = "{}"]], goal_cases)
      case (2 t4 w2 cs2)
      show ?case unfolding case_prod_conv
        by (intro asks_weak again prepared_keeps_whole [OF less(2) that(1)]) (use attemptsLeft_overflow that(2) in simp)
    qed (rule step_no_requests)
    have retried: "?goal (bindE (retryModel c (tracedTurn acts) rnd attempt retry ?t3 (w1, tr @ cs1)) (\<lambda>(r, w2). case r of
        Ended d \<Rightarrow> Inr (Ended d, w2)
      | Go t4 \<Rightarrow> requestModel c (tracedTurn acts) rnd (Suc attempt) recovered request messages t4 w2))"
      if "\<not> maxModelRequestAttempts \<le> attempt + 1" for retry
    proof (rule prefix, rule asks_weak, rule asks_then [OF retryModel_does [where p = undefined]], goal_cases)
      case (1 cs r)
      then show ?case by (cases r) (auto simp: flows_def closing_def step_def)
    next
      case (2 r w2 cs2)
      show ?case unfolding case_prod_conv
      proof (cases r)
        case (Go t4)
        then show "does (\<lambda>ys r. list_all plainCall cs2 \<longrightarrow> asks askedWell ys r) ((tr @ cs1) @ cs2) (case r of Ended d \<Rightarrow> Inr (Ended d, w2, (tr @ cs1) @ cs2)
            | Go t4 \<Rightarrow> requestModel c (tracedTurn acts) rnd (Suc attempt) recovered request messages t4 (w2, (tr @ cs1) @ cs2))"
          by (simp only: flow.case) (intro asks_weak again attemptsLeft_retry that less(2,3))
      next
        case (Ended d)
        then show "does (\<lambda>ys r. list_all plainCall cs2 \<longrightarrow> asks askedWell ys r) ((tr @ cs1) @ cs2) (case r of Ended d \<Rightarrow> Inr (Ended d, w2, (tr @ cs1) @ cs2)
            | Go t4 \<Rightarrow> requestModel c (tracedTurn acts) rnd (Suc attempt) recovered request messages t4 (w2, (tr @ cs1) @ cs2))"
          by (simp add: asks_Ended)
      qed
    qed
    show ?case
      unfolding Let_def
      by (intro does_if does_sum does_option stop answered recovered [unfolded case_prod_beta] retried [unfolded case_prod_beta])
        assumption+
  qed
qed


section \<open>After the answer\<close>

definition loopWhole :: "loopState \<Rightarrow> bool" where
  "loopWhole s \<longleftrightarrow> wholeConversation (ls_Messages s) \<and> (ls_PauseChainActive s \<longrightarrow> wholeConversation (ls_PauseMessagesBase s))"

definition soundAnswer :: "answer \<Rightarrow> bool" where
  "soundAnswer a \<longleftrightarrow> mg_Role (an_Assistant a) = RoleAssistant
     \<and> mg_Content (an_Assistant a) = rp_Content (cr_Response (an_Called a))
     \<and> list_all (\<lambda>b. cb_Type b \<noteq> ''tool_result'') (rp_Content (cr_Response (an_Called a)))
     \<and> an_ToolUses a = filter (\<lambda>b. cb_Type b = ''tool_use'') (rp_Content (cr_Response (an_Called a)))
     \<and> (an_Failure a = [] \<and> an_Disposition a \<in> {providerResponseContinuePause, providerResponseContinueOutput} \<longrightarrow> an_ToolUses a = [])"

lemma continuing_has_no_calls:
  "snd (classifyProviderResponse qt r n) = [] \<Longrightarrow> fst (classifyProviderResponse qt r n) \<in> {providerResponseContinuePause, providerResponseContinueOutput} \<Longrightarrow> n = 0"
  by (auto simp: classifyProviderResponse_def split: if_splits)

lemma answerOf_sound:
  assumes "askedWell m"
  shows "soundAnswer (answerOf c k m)"
proof -
  let ?kind = "classifyProviderResponse (wc_Quote c) (rp_StopReason (cr_Response (mc_Called m)))
      (length (filter (\<lambda>b. cb_Type b = ''tool_use'') (rp_Content (cr_Response (mc_Called m)))))"
  have "snd ?kind = [] \<and> (fst ?kind = providerResponseContinuePause \<or> fst ?kind = providerResponseContinueOutput) \<longrightarrow>
      filter (\<lambda>b. cb_Type b = ''tool_use'') (rp_Content (cr_Response (mc_Called m))) = []"
    using continuing_has_no_calls [of "wc_Quote c" "rp_StopReason (cr_Response (mc_Called m))"
      "length (filter (\<lambda>b. cb_Type b = ''tool_use'') (rp_Content (cr_Response (mc_Called m))))"] by simp
  with assms show ?thesis
    by (simp add: soundAnswer_def answerOf_def askedWell_def AnchoredAssistantMessage_def Let_def case_prod_beta)
qed

lemma append_answer:
  assumes "wholeConversation ms" "soundAnswer a" "an_ToolUses a = []"
  shows "wholeConversation (AppendMerging ms [an_Assistant a])"
proof -
  have "filter (\<lambda>b. cb_Type b = ''tool_result'') (mg_Content (an_Assistant a)) = []"
    using assms(2) by (auto simp: soundAnswer_def list_all_iff filter_empty_conv)
  then have "plainShape (shapeM (an_Assistant a))"
    using assms(2,3) by (simp add: plainShape_def shapeM_def block_ids soundAnswer_def)
  then show ?thesis using append_plain assms(1) by (simp add: wholeConversation_def AppendMerging_shape)
qed

lemma append_text:
  assumes "wholeConversation ms"
  shows "wholeConversation (AppendMerging ms [userText txt])"
proof -
  have "plainShape (shapeM (userText txt))"
    by (simp add: plainShape_def shapeM_def userText_def usesOf_def resultsOf_def shapeB_def textBlock_def)
  then show ?thesis using append_plain assms by (simp add: wholeConversation_def AppendMerging_shape)
qed

lemma addUserText_whole: "wholeConversation base \<Longrightarrow> \<not> ls_PauseChainActive s \<or> wholeConversation (ls_PauseMessagesBase s) \<Longrightarrow>
    loopWhole (addUserText c txt base s)"
  using append_text by (auto simp: addUserText_def loopWhole_def onTurn_def Let_def)

lemma continuePause_asks:
  assumes "loopWhole s" "soundAnswer a" "an_ToolUses a = []"
  shows "does (asks loopWhole) tr (continuePause c (tracedTurn acts) a s (w, tr))"
  unfolding continuePause_def Let_def
  by (intro does_if asks_ends asks_go) (use assms append_answer in \<open>auto simp: loopWhole_def\<close>)

lemma continueOutput_asks:
  assumes "loopWhole s" "soundAnswer a" "an_ToolUses a = []"
  shows "does (asks loopWhole) tr (continueOutput c (tracedTurn acts) a s (w, tr))"
  unfolding continueOutput_def Let_def
  by (intro does_if asks_ends asks_go addUserText_whole) (use assms append_answer in \<open>auto simp: loopWhole_def\<close>)

lemma outcomePhase_asks:
  assumes "loopWhole s" "wholeConversation cand"
  shows "does (asks loopWhole) tr (outcomePhase c (tracedTurn acts) outcome cand s (w, tr))"
proof -
  obtain i j where ids: "outcomeEvaluationSpanIDs c (ls_OutcomeIteration s) = (i, j)" by (cases "outcomeEvaluationSpanIDs c (ls_OutcomeIteration s)")
  note admission = beforeAdvisor_does [unfolded beforeAdvisor_def, where S = "{}" and p = undefined]
  have heartbeat: "does (\<lambda>cs t1. modelCallsIn cs = 0) tr
      (if b then bindE (flushOutput c (tracedTurn acts) (addDrafts ds t) (w, tr))
         (\<lambda>(t, w2). Inr (t\<lparr>ws_ActiveEvaluationStartID := i, ws_ActiveIteration := k\<rparr>, w2)) else Inr (t, w, tr))" for b t ds k tr and w :: 'a
    by (rule does_if, rule does_bind [OF flush_does [where p = undefined and S = "{}"]]) (auto dest: step_no_requests)
  show ?thesis
    unfolding outcomePhase_def Let_def ids case_prod_conv
  proof (rule asks_then [OF admission step_no_requests], assumption, unfold case_prod_conv, rule asks_weak,
      rule asks_then [OF heartbeat], assumption, unfold case_prod_conv, rule asks_weak,
      rule asks_then [OF evaluateOutcome_does [where p = undefined and S = "{}"] step_no_requests], assumption,
      unfold case_prod_beta fst_conv snd_conv, rule asks_weak, goal_cases)
    case (1 t1 w1 cs1 t2 w2 cs2 y w3 cs3)
    show ?case
      by (intro does_if asks_ends asks_go addUserText_whole) (use assms in \<open>auto simp: loopWhole_def\<close>)
  qed
qed

lemma finishPhase_asks:
  assumes "loopWhole s" "soundAnswer a" "an_ToolUses a = []"
  shows "does (asks loopWhole) tr (finishPhase c (tracedTurn acts) a s (w, tr))"
  unfolding finishPhase_def Let_def
  by (intro does_option does_if asks_ends outcomePhase_asks append_answer)
    (use assms in \<open>auto simp: loopWhole_def\<close>)


section \<open>Tool rounds\<close>

definition resultBlocks :: "string list \<Rightarrow> ContentBlock list \<Rightarrow> bool" where
  "resultBlocks ids bs \<longleftrightarrow> (\<exists>rs inj. bs = rs @ inj \<and> map cb_ToolResultFor rs = ids
     \<and> list_all (\<lambda>b. cb_Type b = ''tool_result'') rs \<and> plainBlocks inj)"

lemma resultBlocks_ids:
  assumes "resultBlocks ids bs"
  shows "usesOf (r, map shapeB bs) = []" "resultsOf (r, map shapeB bs) = ids"
proof -
  from assms obtain rs inj where b: "bs = rs @ inj" "map cb_ToolResultFor rs = ids" "list_all (\<lambda>b. cb_Type b = ''tool_result'') rs" "plainBlocks inj"
    by (auto simp: resultBlocks_def)
  have "filter (\<lambda>b. cb_Type b = ''tool_use'') rs = []" "filter (\<lambda>b. cb_Type b = ''tool_result'') rs = rs"
    using b(3) by (auto simp: list_all_iff filter_empty_conv intro!: filter_True)
  with b show "usesOf (r, map shapeB bs) = []" "resultsOf (r, map shapeB bs) = ids"
    unfolding block_ids by (simp_all add: plain_ids)
qed

lemma toolResultBlock_ids: "cb_Type (toolResultBlock c i content e) = ''tool_result''" "cb_ToolResultFor (toolResultBlock c i content e) = i"
  by (simp_all add: toolResultBlock_def)

lemma executeTool_adds:
  "does (\<lambda>cs x. list_all plainCall cs \<longrightarrow> plainBlocks (elems (sr_InjectedContent (xr_Result (fst x))))) tr
    (executeTool c (tracedTurn acts) t attemptID b eventID stepID d advisor (w, tr))"
  unfolding executeTool_def Let_def by (rule does_bind [OF traced_does(5)]) (simp add: case_prod_beta)

definition batchResults ::
    "ContentBlock list \<Rightarrow> ContentBlock list \<Rightarrow> plannedToolUse list \<Rightarrow> turnCall list \<Rightarrow> toolBatchExecution \<times> batchEnd \<times> turnState \<Rightarrow> bool" where
  "batchResults injected prior us cs r \<longleftrightarrow> (plainBlocks injected \<longrightarrow> list_all plainCall cs \<longrightarrow> fst (snd r) = BatchDone \<longrightarrow>
     (\<exists>bs. tx_ResultBlocks (fst r) = prior @ bs \<and> resultBlocks (map (cb_ToolUseID \<circ> pu_Use) us) bs))"

lemma batchResults_Cons:
  assumes "batchResults (injected @ added) (prior @ [b]) us ys r" "plainBlocks injected \<Longrightarrow> list_all plainCall cs \<Longrightarrow> plainBlocks added"
    and "cb_Type b = ''tool_result''" "cb_ToolResultFor b = cb_ToolUseID (pu_Use u)"
  shows "batchResults injected prior (u # us) (cs @ ys) r"
  unfolding batchResults_def
proof (intro impI)
  assume p: "plainBlocks injected" "list_all plainCall (cs @ ys)" "fst (snd r) = BatchDone"
  then have "plainBlocks (injected @ added)" using assms(2) by (simp add: plainBlocks_def)
  with assms(1) p obtain bs where bs: "tx_ResultBlocks (fst r) = (prior @ [b]) @ bs" "resultBlocks (map (cb_ToolUseID \<circ> pu_Use) us) bs"
    by (auto simp: batchResults_def)
  then obtain rs inj where r: "bs = rs @ inj" "map cb_ToolResultFor rs = map (cb_ToolUseID \<circ> pu_Use) us"
      "list_all (\<lambda>b. cb_Type b = ''tool_result'') rs" "plainBlocks inj" by (auto simp: resultBlocks_def)
  then have "resultBlocks (map (cb_ToolUseID \<circ> pu_Use) (u # us)) (b # bs)"
    unfolding resultBlocks_def by (intro exI [of _ "b # rs"] exI [of _ inj]) (simp add: assms(3,4))
  with bs(1) show "\<exists>bs. tx_ResultBlocks (fst r) = prior @ bs \<and> resultBlocks (map (cb_ToolUseID \<circ> pu_Use) (u # us)) bs" by auto
qed

lemma executeToolBatch_results:
  "does (batchResults injected (tx_ResultBlocks x) us) tr
    (executeToolBatch c (tracedTurn acts) attemptID request assistant us t x injected (w, tr))"
proof (induction us arbitrary: t x injected w tr)
  case Nil
  then show ?case
    by (simp add: batchResults_def resultBlocks_def)
next
  case (Cons u us)
  have quiet: "does (\<lambda>cs t1. True) tr
      (if ut_Kind (pu_Definition u) = TurnToolAdvisor then beforeAdvisor c (tracedTurn acts) t (w, tr) else Inr (t, w, tr))"
    by (intro does_if does_mono [OF beforeAdvisor_does [where p = undefined and S = "{}"]]) simp_all
  have stop: "does (\<lambda>ys r. batchResults inj bs vs (cs @ ys) r) tr1 (Inr ((z, how, t1), w1, tr1))" if "how \<noteq> BatchDone" for inj bs vs cs z how t1 w1 tr1
    using that by (simp add: batchResults_def)
  show ?case
    unfolding executeToolBatch.simps Let_def
  proof (rule does_bind [OF quiet], unfold case_prod_conv, rule does_sum, goal_cases)
    case (1 t1 w1 cs1 e)
    show ?case by (rule stop) simp
  next
    case (2 t1 w1 cs1 advisor)
    show ?case
    proof (rule does_bind [OF executeTool_adds], unfold case_prod_beta fst_conv snd_conv, goal_cases)
      case (1 y w2 cs2)
      have onwards: "does (\<lambda>ys r. batchResults injected (tx_ResultBlocks x) (u # us) ((cs1 @ cs2) @ ys) r) ((tr @ cs1) @ cs2)
          (executeToolBatch c (tracedTurn acts) attemptID request assistant us t2
            \<lparr>tx_ResultDrafts = ds, tx_ResultBlocks = tx_ResultBlocks x @ [toolResultBlock c (cb_ToolUseID (pu_Use u)) content e]\<rparr>
            (injected @ elems (sr_InjectedContent (xr_Result (fst y)))) (w2, (tr @ cs1) @ cs2))" for t2 ds content e
        by (rule does_mono [OF Cons.IH], unfold toolBatchExecution.simps, erule batchResults_Cons)
          (use 1 in \<open>auto simp: toolResultBlock_ids\<close>)
      show ?case
        unfolding append_assoc [symmetric]
        by (intro does_if stop onwards) (simp_all add: batchResults_def)
    qed
  qed
qed


text \<open>Without pending actions, the calls that run are those of the model.\<close>

lemma planUse_cases:
  "tp_PendingActionEventIDs (planUse events d planned b plan) = tp_PendingActionEventIDs plan
     \<and> map pu_Use (tp_Executable (planUse events d planned b plan)) = map pu_Use (tp_Executable plan) @ [b]
   \<or> tp_PendingActionEventIDs (planUse events d planned b plan) = tp_PendingActionEventIDs plan @ [ps_ToolUseEventID planned]"
  by (simp add: planUse_def Let_def)

lemma planUses_all:
  "list_all (\<lambda>b. planCheck tools steps b = None) bs \<Longrightarrow> tp_PendingActionEventIDs (planUses tools steps events bs plan) = [] \<Longrightarrow>
     tp_PendingActionEventIDs plan = [] \<and> map pu_Use (tp_Executable (planUses tools steps events bs plan)) = map pu_Use (tp_Executable plan) @ bs"
proof (induction bs arbitrary: plan)
  case (Cons b bs)
  have "planCheck tools steps b = None" using Cons.prems(1) by simp
  then obtain d planned where t: "tools (cb_ToolName b) = Some d" "steps (cb_ToolUseID b) = Some planned"
    by (cases "steps (cb_ToolUseID b)"; cases "tools (cb_ToolName b)") (simp_all add: planCheck_def split: if_split_asm)
  define plan1 where "plan1 = planUse events d planned b plan"
  have same: "planUses tools steps events (b # bs) plan = planUses tools steps events bs plan1" by (simp add: t plan1_def)
  have "tp_PendingActionEventIDs plan1 = []" "map pu_Use (tp_Executable (planUses tools steps events bs plan1)) = map pu_Use (tp_Executable plan1) @ bs"
    using Cons.IH [of plan1] Cons.prems unfolding same by simp_all
  moreover have "tp_PendingActionEventIDs plan1 = tp_PendingActionEventIDs plan \<and> map pu_Use (tp_Executable plan1) = map pu_Use (tp_Executable plan) @ [b]"
    using planUse_cases [of events d planned b plan] calculation(1) unfolding plan1_def [symmetric] by simp
  ultimately show ?case unfolding same by simp
qed simp

lemma planToolBatch_all:
  assumes "planToolBatch bs tools steps events = Inr plan" "tp_PendingActionEventIDs plan = []"
  shows "map pu_Use (tp_Executable plan) = bs"
  using assms planUses_all [of tools steps bs events "\<lparr>tp_ActionDrafts = [], tp_Executable = [], tp_PendingActionEventIDs = []\<rparr>"]
  by (auto simp: planToolBatch_def firstFailure_None split: option.split_asm)

lemma append_answered_round:
  assumes "wholeConversation ms" "soundAnswer a" "resultBlocks (map cb_ToolUseID (an_ToolUses a)) bs"
  shows "wholeConversation (AppendMerging ms [an_Assistant a, \<lparr>mg_Role = RoleUser, mg_Content = bs, mg_ContextUsage = None\<rparr>])"
proof -
  let ?a = "shapeM (an_Assistant a)" and ?u = "shapeM \<lparr>mg_Role = RoleUser, mg_Content = bs, mg_ContextUsage = None\<rparr>"
  have "filter (\<lambda>b. cb_Type b = ''tool_result'') (mg_Content (an_Assistant a)) = []"
    using assms(2) by (auto simp: soundAnswer_def list_all_iff filter_empty_conv)
  then have a: "fst ?a = RoleAssistant" "resultsOf ?a = []" "usesOf ?a = map cb_ToolUseID (an_ToolUses a)"
    using assms(2) by (simp_all add: shapeM_def block_ids soundAnswer_def)
  have u: "fst ?u = RoleUser" "usesOf ?u = []" "resultsOf ?u = map cb_ToolUseID (an_ToolUses a)"
    using resultBlocks_ids [OF assms(3), of RoleUser] by (simp_all add: shapeM_def)
  from append_round [of "map shapeM ms", OF _ a(1,2) u(1,2)] a(3) u(3) assms(1) show ?thesis
    by (simp add: wholeConversation_def AppendMerging_shape)
qed

lemma toolPhase_asks:
  assumes "loopWhole s" "soundAnswer a"
  shows "does (asks loopWhole) tr (toolPhase c (tracedTurn acts) a s (w, tr))"
  unfolding toolPhase_def Let_def
proof (rule does_if, goal_cases)
  case 1
  show ?case by (intro does_if asks_ends)
next
  case attempt: 2
  show ?case
  proof (rule does_sum, goal_cases)
    case 1
    show ?case by (intro does_if asks_ends)
  next
    case (2 plan)
    have run: "list_all (runnable (wc_Prepared c)) (tp_Executable plan)" by (rule planToolBatch_runnable [OF 2])
    show ?case
    proof (rule does_if, goal_cases)
      case 1
      show ?case by (intro asks_ends)
    next
      case b: 2
      show ?case
      proof (rule asks_then [OF does_conj [OF executeToolBatch_does [OF run attempt, where S = "{}"] executeToolBatch_results]],
          erule conjunct1 [THEN step_no_requests], unfold case_prod_beta fst_conv snd_conv, goal_cases)
        case (1 y w2 cs2)
        then have r: "batchResults [] [] (tp_Executable plan) cs2 y" by simp
        show ?case
        proof (cases "fst (snd y)")
          case BatchDone
          have whole: "wholeConversation (AppendMerging (ls_Messages s)
              [an_Assistant a, \<lparr>mg_Role = RoleUser, mg_Content = tx_ResultBlocks (fst y), mg_ContextUsage = None\<rparr>])"
            if "list_all plainCall cs2" "tp_PendingActionEventIDs plan = []"
          proof -
            have "map (cb_ToolUseID \<circ> pu_Use) (tp_Executable plan) = map cb_ToolUseID (an_ToolUses a)"
              using planToolBatch_all [OF 2 that(2)] by (simp flip: map_map)
            with r that(1) BatchDone have "resultBlocks (map cb_ToolUseID (an_ToolUses a)) (tx_ResultBlocks (fst y))"
              by (simp add: batchResults_def plainBlocks_def)
            from append_answered_round [OF _ assms(2) this] assms(1) show ?thesis by (simp add: loopWhole_def)
          qed
          show ?thesis
            unfolding BatchDone batchEnd.case
          proof (rule does_if, goal_cases)
            case 1
            show ?case by (rule asks_weak, rule asks_ends)
          next
            case 2
            then show ?case using whole assms(1) by (simp add: asks_def afterwards_def loopWhole_def)
          qed
        next
          case BatchInterrupted
          show ?thesis unfolding BatchInterrupted batchEnd.case by (rule asks_weak, rule asks_ends)
        next
          case (BatchFailed failure)
          show ?thesis unfolding BatchFailed batchEnd.case by (rule asks_weak, rule asks_ends)
        qed
      qed
    qed
  qed
qed


section \<open>Rounds\<close>

lemma onTurn_whole [simp]: "loopWhole (onTurn f s) = loopWhole s"
  by (simp add: loopWhole_def onTurn_def)

lemma recordAnswer_whole: "loopWhole s \<Longrightarrow> loopWhole (recordAnswer c a s)"
  by (simp add: recordAnswer_def loopWhole_def onTurn_def Let_def)

lemma answerPhase_asks:
  assumes "loopWhole s" "soundAnswer a"
  shows "does (asks loopWhole) tr (answerPhase c (tracedTurn acts) a s (w, tr))"
proof -
  have s: "loopWhole (onTurn f (recordAnswer c a s))" "loopWhole (onTurn g (onTurn f (recordAnswer c a s)))" for f g
    using recordAnswer_whole [OF assms(1)] by simp_all
  have none: "an_ToolUses a = []"
    if "an_Failure a = []" "an_Disposition a \<in> {providerResponseContinuePause, providerResponseContinueOutput}"
    using assms(2) that unfolding soundAnswer_def by blast
  show ?thesis
    unfolding answerPhase_def Let_def
    by (intro does_if asks_ends continuePause_asks continueOutput_asks finishPhase_asks toolPhase_asks s assms(2))
      (use none in auto)
qed

lemma turnRound_asks:
  assumes "loopWhole s"
  shows "does (asks loopWhole) tr (turnRound c (tracedTurn acts) rnd s (w, tr))"
proof -
  have flushed: "does (\<lambda>cs t1. step undefined 0 {} (ls_Turn s) cs {} t1) tr
      (if b then flushOutput c (tracedTurn acts) (ls_Turn s) (w, tr) else Inr (ls_Turn s, w, tr))" for b
    by (intro does_if flush_does) (simp add: quiet_step)
  show ?thesis
    unfolding turnRound_def Let_def
  proof (rule asks_then [OF flushed step_no_requests], assumption, unfold case_prod_conv, rule asks_weak, rule does_sum, goal_cases)
    case (1 t w1 cs e)
    show ?case by (rule asks_ends)
  next
    case (2 t w1 cs r)
    have whole: "wholeConversation (rq_Messages (pc_Request r))"
      using prepared_keeps_whole [OF _ 2(2)] assms by (simp add: loopWhole_def)
    have messages: "wholeConversation (if b then rq_Messages (pc_Request r) else ls_Messages s)" for b
      using whole assms by (simp add: loopWhole_def)
    show ?case
      unfolding andThen_def
    proof (rule does_bind [OF requestModel_asks [OF whole messages]], unfold case_prod_conv, goal_cases)
      case (1 q w2 cs2)
      show ?case
      proof (cases q)
        case (Ended d)
        then show ?thesis using 1 by (simp add: asks_def afterwards_def)
      next
        case (Go m)
        show ?thesis
        proof (cases "list_all plainCall cs2")
          case True
          with 1 Go have m: "askedWell m" "list_all wholeRequest cs2" by (simp_all add: asks_def afterwards_def)
          then have "loopWhole (s\<lparr>ls_Turn := mc_Turn m, ls_Messages := mc_Messages m\<rparr>)"
            using assms by (simp add: loopWhole_def askedWell_def)
          from answerPhase_asks [OF this answerOf_sound [OF m(1)]] show ?thesis
            unfolding Go flow.case by (rule does_mono) (use m(2) in \<open>auto simp: asks_def afterwards_def\<close>)
        next
          case False
          have "does (\<lambda>ys r. True) ((tr @ cs) @ cs2) (answerPhase c (tracedTurn acts) (answerOf c (length (ws_ToolUseMappings (mc_Turn m))) m)
              (s\<lparr>ls_Turn := mc_Turn m, ls_Messages := mc_Messages m\<rparr>) (w2, (tr @ cs) @ cs2))"
            by (rule does_mono [OF answerPhase_does]) simp
          with False show ?thesis unfolding Go flow.case by (rule_tac does_mono) (auto simp: asks_def afterwards_def)
        qed
      qed
    qed
  qed
qed

lemma asks_andThen:
  assumes "does (asks J) tr x" "\<And>a w cs. does (\<lambda>_ _. True) (tr @ cs) (f a (w, tr @ cs))"
    and "\<And>a w cs. J a \<Longrightarrow> does (asks K) (tr @ cs) (f a (w, tr @ cs))"
  shows "does (asks K) tr (andThen x f)"
  unfolding andThen_def
proof (rule does_bind [OF assms(1)], unfold case_prod_conv, goal_cases)
  case (1 r w cs)
  show ?case
  proof (cases r)
    case (Ended d)
    then show ?thesis using 1 by (simp add: asks_def afterwards_def)
  next
    case (Go a)
    show ?thesis
    proof (cases "list_all plainCall cs")
      case True
      with 1 Go have "J a" "list_all wholeRequest cs" by (simp_all add: asks_def afterwards_def)
      then show ?thesis unfolding Go flow.case
        by (intro does_mono [OF assms(3)]) (auto simp: asks_def afterwards_def)
    next
      case False
      then show ?thesis unfolding Go flow.case
        by (intro does_mono [OF assms(2)]) (auto simp: asks_def afterwards_def)
    qed
  qed
qed

lemma turnRounds_asks:
  "loopWhole s \<Longrightarrow> does (asks loopWhole) tr (turnRounds c (tracedTurn acts) rnd left s (w, tr))"
proof (induction left arbitrary: rnd s w tr)
  case 0
  then show ?case by (simp add: asks_def afterwards_def)
next
  case (Suc left)
  show ?case
    unfolding turnRounds.simps
    by (rule asks_andThen [OF turnRound_asks [OF Suc.prems]])
      (rule does_mono [OF turnRounds_does], simp, rule Suc.IH)
qed

section \<open>The turn\<close>

lemma resumeAction_answers:
  "does (\<lambda>cs r. (case fst (snd r) of Resumed m \<Rightarrow> fst r \<noteq> None | _ \<Rightarrow> True)) tr (resumeAction c (tracedTurn acts) a t (w, tr))"
proof -
  have run: "does (\<lambda>cs r. True) tr (executeTool c (tracedTurn acts) t i b e st d adv (w, tr))" for i b e st d adv
    by (rule does_mono [OF executeTool_adds]) simp
  show ?thesis
    unfolding resumeAction_def Let_def
  proof (rule does_option, goal_cases)
    case (2 d)
    show ?case
      by (cases "ra_Kind a") (auto simp: case_prod_beta intro!: does_bind [OF run])
  qed simp
qed

definition answered :: "ContentBlock list \<Rightarrow> ResumeAction list \<Rightarrow> ContentBlock list \<Rightarrow> bool" where
  "answered prior as bs \<longleftrightarrow> (\<exists>rs. bs = prior @ rs \<and> map cb_ToolResultFor rs = map resumeProviderID as
     \<and> list_all (\<lambda>b. cb_Type b = ''tool_result'') rs)"

lemma resumeActions_answers:
  "does (\<lambda>cs r. (case fst (snd r) of Resumed m \<Rightarrow> answered prior as (fst r) | _ \<Rightarrow> True)) tr
    (resumeActions c (tracedTurn acts) as prior t (w, tr))"
proof (induction as arbitrary: prior t w tr)
  case Nil
  then show ?case by (simp add: answered_def)
next
  case (Cons a as)
  show ?case
    unfolding resumeActions.simps
  proof (rule does_bind [OF resumeAction_answers], unfold case_prod_beta fst_conv snd_conv, goal_cases)
    case (1 r w1 cs1)
    have onwards: "does (\<lambda>ys r. (case fst (snd r) of Resumed m \<Rightarrow> answered prior (a # as) (fst r) | _ \<Rightarrow> True)) (tr @ cs1)
        (resumeActions c (tracedTurn acts) as (prior @ [toolResultBlock c (resumeProviderID a) content e]) t1 (w1, tr @ cs1))" for content e t1
    proof (rule does_mono [OF Cons.IH], goal_cases)
      case (1 ys r)
      then show ?case
      proof (cases "fst (snd r)")
        case (Resumed m)
        with 1 obtain rs where "fst r = (prior @ [toolResultBlock c (resumeProviderID a) content e]) @ rs"
            "map cb_ToolResultFor rs = map resumeProviderID as" "list_all (\<lambda>b. cb_Type b = ''tool_result'') rs"
          by (auto simp: answered_def)
        then show ?thesis unfolding Resumed resumeEnd.case answered_def
          by (intro exI [of _ "toolResultBlock c (resumeProviderID a) content e # rs"]) (simp add: toolResultBlock_ids)
      qed simp_all
    qed
    from 1 show ?case
      by (cases "fst (snd r)"; cases "fst r") (simp_all add: onwards case_prod_beta)
  qed
qed

lemma resumption_whole:
  assumes "preparedWhole (wc_Prepared c)"
  shows "does (\<lambda>cs r. (case fst r of Resumed m \<Rightarrow> wholeConversation m | _ \<Rightarrow> True)) tr
    (resumeWorkflowTurn c (tracedTurn acts) (rq_Messages (pt_Request (wc_Prepared c))) t (w, tr))"
proof -
  let ?p = "wc_Prepared c" and ?ms = "rq_Messages (pt_Request (wc_Prepared c))"
  have ids: "sameIds (shapeM \<lparr>mg_Role = RoleUser, mg_Content = map (blankResult \<circ> resumeProviderID) as, mg_ContextUsage = None\<rparr>)
      (shapeM \<lparr>mg_Role = RoleUser, mg_Content = bs, mg_ContextUsage = None\<rparr>)" if "answered [] as bs" for as bs
  proof -
    from that have r: "map cb_ToolResultFor bs = map resumeProviderID as" "list_all (\<lambda>b. cb_Type b = ''tool_result'') bs"
      by (auto simp: answered_def)
    then have "filter (\<lambda>b. cb_Type b = ''tool_result'') bs = bs" "filter (\<lambda>b. cb_Type b = ''tool_use'') bs = []"
      by (auto simp: list_all_iff filter_empty_conv intro!: filter_True)
    with r have bs: "usesOf (RoleUser, map shapeB bs) = []" "resultsOf (RoleUser, map shapeB bs) = map resumeProviderID as"
      by (simp_all add: block_ids)
    have "usesOf (RoleUser, map shapeB (map (blankResult \<circ> resumeProviderID) as)) = []"
      "resultsOf (RoleUser, map shapeB (map (blankResult \<circ> resumeProviderID) as)) = map resumeProviderID as"
      by (induction as) (simp_all add: usesOf_def resultsOf_def shapeB_def blankResult_def)
    with bs show ?thesis
      unfolding sameIds_def shapeM_def Message.select_convs fst_conv by simp
  qed
  show ?thesis
    unfolding resumeWorkflowTurn_def Let_def
  proof (rule does_if, goal_cases)
    case 1
    then show ?case using assms by (simp add: preparedWhole_def resumptionOf_def AppendMerging_def)
  next
    case 2
    show ?case
    proof (rule does_bind [OF resumeActions_answers], unfold case_prod_beta fst_conv snd_conv, goal_cases)
      case (1 r w1 cs1)
      show ?case
      proof (cases "fst (snd r)")
        case (Resumed m)
        with 1 have a: "answered [] (pt_ResumeActions ?p) (fst r)" by simp
        let ?answers = "\<lparr>mg_Role = RoleUser, mg_Content = fst r, mg_ContextUsage = None\<rparr>"
        let ?added = "if pt_UsesProviderTranscript ?p then [?answers]
          else [\<lparr>mg_Role = RoleAssistant, mg_Content = map resumeUseBlock (pt_ResumeActions ?p), mg_ContextUsage = None\<rparr>, ?answers]"
        have "list_all2 sameIds (map shapeM (AppendMerging ?ms (resumptionOf ?p))) (map shapeM (AppendMerging ?ms ?added))"
          using 2 ids [OF a] by (auto simp: AppendMerging_shape resumptionOf_def Let_def list.rel_refl intro!: sameIds_append)
        then have "wholeConversation (AppendMerging ?ms ?added)"
          using assms sameIds_wholeShape by (simp add: preparedWhole_def wholeConversation_def)
        then show ?thesis unfolding Resumed resumeEnd.case does_Inr fst_conv .
      next
        case ResumeInterrupted
        then show ?thesis by simp
      next
        case (ResumeFailed e)
        then show ?thesis by simp
      qed
    qed
  qed
qed


lemma runPrepared_asks:
  assumes "preparedWhole (wc_Prepared c)"
  shows "does (\<lambda>cs d. list_all plainCall cs \<longrightarrow> list_all wholeRequest cs) tr (runPrepared c (tracedTurn acts) (w, tr))"
proof -
  have ends: "list_all wholeRequest cs" if "closing p 0 {} t cs d" for p t cs d
    using that by (auto simp: closing_def step_def intro!: no_requests)
  have closed: "does (\<lambda>cs d. list_all wholeRequest cs) tr1 x" if "does (\<lambda>cs d. closing undefined 0 {} t1 cs d) tr1 x"
    for t1 tr1 and x :: "storeError + TurnDisposition \<times> 'a \<times> turnCall list"
    by (rule does_mono [OF that]) (rule ends)
  have weak: "does (\<lambda>ys d. list_all plainCall (cs @ ys) \<longrightarrow> list_all wholeRequest (cs @ ys)) tr1 x"
    if "list_all wholeRequest cs" "does (\<lambda>cs d. list_all wholeRequest cs) tr1 x"
    for cs tr1 and x :: "storeError + TurnDisposition \<times> 'a \<times> turnCall list"
    by (rule does_mono [OF that(2)]) (use that(1) in simp)
  show ?thesis
    unfolding runPrepared_def Let_def
  proof (rule does_if, goal_cases)
    case 1
    show ?case by (rule weak [of "[]", simplified], rule closed, rule closes_does)
  next
    case 2
    show ?case
    proof (rule does_bind [OF does_conj [OF resumeTurn_does [where S = "{}"] resumption_whole [OF assms]]],
        unfold case_prod_beta fst_conv snd_conv, goal_cases)
      case (1 r w1 cs1)
      then have none: "list_all wholeRequest cs1" using no_requests step_no_requests by blast
      show ?case
      proof (cases "fst r")
        case (Resumed messages)
        with 1 have "loopWhole (initialLoop messages (snd r))" by (simp add: loopWhole_def initialLoop_def)
        from turnRounds_asks [OF this] show ?thesis
          unfolding Resumed resumeEnd.case
        proof (rule does_bind, goal_cases)
          case (1 r2 w2 cs2)
          show ?case
          proof (cases r2)
            case (Ended d)
            then show ?thesis using 1 none by (simp add: asks_def)
          next
            case (Go s)
            have "does (\<lambda>cs d. list_all wholeRequest cs) ((tr @ cs1) @ cs2)
                (exceedRounds c (tracedTurn acts) (ls_Turn s) (w2, (tr @ cs1) @ cs2))"
              unfolding exceedRounds_def by (rule does_if; rule closed; rule closes_does)
            then show ?thesis unfolding Go fst_conv snd_conv flow.case
              by (rule does_mono) (use 1 none in \<open>simp add: asks_def\<close>)
          qed
        qed
      next
        case ResumeInterrupted
        show ?thesis unfolding ResumeInterrupted resumeEnd.case
          by (rule weak [OF none], rule closed, rule closes_does)
      next
        case (ResumeFailed e)
        show ?thesis unfolding ResumeFailed resumeEnd.case
          by (rule weak [OF none], rule closed, rule closes_does)
      qed
    qed
  qed
qed

text \<open>
  C8. Every request a turn sends is a conversation the provider accepts, in which roles alternate and each message
  answers all calls of the one before: the first request, those after tools ran, paused or truncated answers,
  failed evaluations, retries and compactions. It takes a prepared conversation that the resumed answers complete,
  a model that sends no tool results and tools that add only text.
\<close>

theorem turn_requests_whole:
  assumes "runWorkflowTurnInternal c (tracedTurn acts) (w, []) = Inr (d, w1, CallPrepare p # calls)"
    and "preparedWhole p" "list_all plainCall calls"
  shows "list_all wholeRequest calls"
proof -
  have "does (\<lambda>cs d. \<forall>q ys. cs = CallPrepare q # ys \<longrightarrow> preparedWhole q \<longrightarrow> list_all plainCall ys \<longrightarrow> list_all wholeRequest ys) []
      (runWorkflowTurnInternal c (tracedTurn acts) (w, []))"
    unfolding runWorkflowTurnInternal_def
  proof (rule does_bind [OF traced_does(1)], unfold case_prod_conv, rule does_if, goal_cases)
    case (1 q w1 cs)
    then show ?case by simp
  next
    case (2 q w1 cs)
    show ?case
    proof (cases "preparedWhole q")
      case True
      then have "preparedWhole (wc_Prepared (c\<lparr>wc_Prepared := q\<rparr>))" by simp
      from runPrepared_asks [OF this] show ?thesis by (rule does_mono) (use 2 in simp)
    next
      case False
      show ?thesis by (rule does_mono [OF runPrepared_does]) (use 2 False in simp)
    qed
  qed
  with assms show ?thesis unfolding does_def by auto
qed

lemma sampleTurnRun_plain: "(case sampleTurnRun of Inl e \<Rightarrow> False | Inr (d, w, tr) \<Rightarrow>
   (case tr of CallPrepare p # calls \<Rightarrow> preparedWhole p \<and> list_all plainCall calls \<and> modelCallsIn calls = 2 | _ \<Rightarrow> False))"
  by code_simp

theorem turn_requests_whole_witness:
  "\<exists>d w1 p calls. runWorkflowTurnInternal sampleTurn (tracedTurn sampleActivities) (0, []) = Inr (d, w1, CallPrepare p # calls)
     \<and> modelCallsIn calls = 2 \<and> list_all wholeRequest calls"
proof -
  obtain d w1 p calls where r: "runWorkflowTurnInternal sampleTurn (tracedTurn sampleActivities) (0, []) = Inr (d, w1, CallPrepare p # calls)"
      "preparedWhole p" "list_all plainCall calls" "modelCallsIn calls = 2"
    using sampleTurnRun_plain unfolding sampleTurnRun_def
    by (auto split: sum.split_asm prod.split_asm list.split_asm turnCall.split_asm)
  with turn_requests_whole [OF r(1-3)] show ?thesis by blast
qed

end
