(* ===== verification/SandboxSpec.thy ===== *)
theory SandboxSpec
  imports Sessions
begin

text \<open>
  The sandbox of a Session (\<open>sandboxSpecForSession\<close> in \<open>internal/temporal/activities.go\<close>, \<open>Spec\<close> in
  \<open>internal/sandbox/sandbox.go\<close>): which packages are installed, which Memory Stores are mounted and which hosts it may
  reach. A Session with limited networking reaches what its configuration names, and nothing else.
\<close>

section \<open>The specification of a sandbox\<close>

record PackageSet =
  pk_Apt :: "string list"
  pk_Cargo :: "string list"
  pk_Gem :: "string list"
  pk_Go :: "string list"
  pk_NPM :: "string list"
  pk_Pip :: "string list"

definition PackageSet_Empty :: "PackageSet \<Rightarrow> bool" where
  "PackageSet_Empty p \<longleftrightarrow> pk_Apt p = [] \<and> pk_Cargo p = [] \<and> pk_Gem p = [] \<and> pk_Go p = [] \<and> pk_NPM p = [] \<and> pk_Pip p = []"

record MemoryStoreMount =
  mm_Identity :: string
  mm_StoreID :: string
  mm_RuntimePath :: string
  mm_Access :: string

record sandboxSpec =
  sp_Timeout :: int
  sp_Network :: string
  sp_NetworkAllowedHosts :: "string list"
  sp_SetupNetworkAllowedHosts :: "string list"
  sp_Packages :: PackageSet
  sp_MemoryStores :: "MemoryStoreMount list"

definition sandboxTurnTimeout :: int where "sandboxTurnTimeout = 120 * 1000000000"
definition defaultCloudSandboxNetwork :: string where "defaultCloudSandboxNetwork = ''bridge''"

definition publicPackageRegistryHosts :: "string list" where
  "publicPackageRegistryHosts =
     [''api.rubygems.org'', ''archive.ubuntu.com'', ''crates.io'', ''deb.debian.org'', ''files.pythonhosted.org'',
      ''index.crates.io'', ''index.rubygems.org'', ''ports.ubuntu.com'', ''proxy.golang.org'', ''pypi.org'',
      ''registry.npmjs.org'', ''rubygems.org'', ''security.debian.org'', ''security.ubuntu.com'',
      ''snapshot.debian.org'', ''static.crates.io'', ''storage.googleapis.com'', ''sum.golang.org'']"

fun stringItems :: "jval list \<Rightarrow> string list option" where
  "stringItems [] = Some []"
| "stringItems (JStr s # vs) = map_option (Cons s) (stringItems vs)"
| "stringItems _ = None"

definition environmentPackageList :: "jval option \<Rightarrow> string \<Rightarrow> string list res" where
  "environmentPackageList raw manager =
     (case raw of
        None \<Rightarrow> Inr []
      | Some JNull \<Rightarrow> Inr []
      | Some (JStrs xs) \<Rightarrow> Inr xs
      | Some (JArr vs) \<Rightarrow> (case stringItems vs of
            None \<Rightarrow> Inl (Validation (''session environment packages.'' @ manager @ '' must contain strings''))
          | Some xs \<Rightarrow> Inr xs)
      | _ \<Rightarrow> Inl (Validation (''session environment packages.'' @ manager @ '' must be an array'')))"

definition environmentNetworkHostList :: "jval option \<Rightarrow> string list res" where
  "environmentNetworkHostList raw =
     (case raw of
        None \<Rightarrow> Inr []
      | Some JNull \<Rightarrow> Inr []
      | Some (JStrs xs) \<Rightarrow> Inr xs
      | Some (JArr vs) \<Rightarrow> (case stringItems vs of
            None \<Rightarrow> Inl (Validation ''session environment networking.allowed_hosts must contain strings'')
          | Some xs \<Rightarrow> Inr xs)
      | _ \<Rightarrow> Inl (Validation ''session environment networking.allowed_hosts must be an array''))"

definition environmentNetworkBool :: "jval option \<Rightarrow> string \<Rightarrow> bool res" where
  "environmentNetworkBool raw field =
     (case raw of
        None \<Rightarrow> Inr False
      | Some JNull \<Rightarrow> Inr False
      | Some (JBool b) \<Rightarrow> Inr b
      | _ \<Rightarrow> Inl (Validation (''session environment networking.'' @ field @ '' must be a boolean'')))"

definition normalizedNetworkHosts :: "unicodeTables \<Rightarrow> string list \<Rightarrow> string list" where
  "normalizedNetworkHosts u hosts = sort (remdups (map (toLower u) hosts))"

record specEnv =
  se_Tables :: unicodeTables
  se_Text :: "goError \<Rightarrow> string"
  se_URL :: "string \<Rightarrow> parsedURL option"
  se_Addr :: "string \<Rightarrow> ipaddr option"

definition memoryMounts :: "SessionResource list \<Rightarrow> MemoryStoreMount list" where
  "memoryMounts rs =
     map (\<lambda>r. \<lparr>mm_Identity = rs_ID r, mm_StoreID = rs_MemoryStoreID r, mm_RuntimePath = rs_MountPath r,
         mm_Access = rs_MemoryAccess r\<rparr>)
       (filter (\<lambda>r. rs_State r = SessionResourceActive \<and> rs_ResourceType r = ''memory_store'') rs)"

definition packagesOf :: "payload \<Rightarrow> PackageSet res" where
  "packagesOf m =
     bindE (environmentPackageList (jget m ''apt'') ''apt'') (\<lambda>apt.
     bindE (environmentPackageList (jget m ''cargo'') ''cargo'') (\<lambda>cargo.
     bindE (environmentPackageList (jget m ''gem'') ''gem'') (\<lambda>gem.
     bindE (environmentPackageList (jget m ''go'') ''go'') (\<lambda>go.
     bindE (environmentPackageList (jget m ''npm'') ''npm'') (\<lambda>npm.
     bindE (environmentPackageList (jget m ''pip'') ''pip'') (\<lambda>pip.
       Inr \<lparr>pk_Apt = apt, pk_Cargo = cargo, pk_Gem = gem, pk_Go = go, pk_NPM = npm, pk_Pip = pip\<rparr>))))))"

fun serverHosts :: "(string \<Rightarrow> parsedURL option) \<Rightarrow> MCPServer list \<Rightarrow> string list res" where
  "serverHosts parseURL [] = Inr []"
| "serverHosts parseURL (s # ss) =
     (case parseURL (ms_URL s) of
        None \<Rightarrow> Inl (Validation ''session agent MCP server has an invalid URL'')
      | Some p \<Rightarrow> if url_Hostname p = [] then Inl (Validation ''session agent MCP server has an invalid URL'')
                  else bindE (serverHosts parseURL ss) (\<lambda>hs. Inr (url_Hostname p # hs)))"

definition mcpHosts :: "specEnv \<Rightarrow> Session \<Rightarrow> string list res" where
  "mcpHosts env session =
     (case ParseMCPServers (se_URL env) (se_Addr env) (elems (ag_MCPServers (s_AgentSnapshot session))) of
        Inl e \<Rightarrow> Inl (Validation (''session agent MCP servers cannot be added to the network policy: '' @ se_Text env e))
      | Inr servers \<Rightarrow> serverHosts (se_URL env) (map snd servers))"

definition limitedNetwork :: "specEnv \<Rightarrow> Session \<Rightarrow> payload \<Rightarrow> sandboxSpec \<Rightarrow> sandboxSpec res" where
  "limitedNetwork env session networking spec =
     bindE (environmentNetworkHostList (jget networking ''allowed_hosts'')) (\<lambda>allowed.
     bindE (environmentNetworkBool (jget networking ''allow_mcp_servers'') ''allow_mcp_servers'') (\<lambda>mcp.
     bindE (environmentNetworkBool (jget networking ''allow_package_managers'') ''allow_package_managers'') (\<lambda>managers.
     bindE (if mcp then mcpHosts env session else Inr []) (\<lambda>servers.
       (let hosts = normalizedNetworkHosts (se_Tables env)
              (allowed @ servers @ (if managers then publicPackageRegistryHosts else []));
            limited = spec\<lparr>sp_Network := ''limited'', sp_NetworkAllowedHosts := hosts\<rparr>
        in Inr (if PackageSet_Empty (sp_Packages spec) then limited
                else limited\<lparr>sp_SetupNetworkAllowedHosts :=
                  normalizedNetworkHosts (se_Tables env) (hosts @ publicPackageRegistryHosts)\<rparr>))))))"

definition sandboxSpecForSession :: "specEnv \<Rightarrow> Session \<Rightarrow> sandboxSpec res" where
  "sandboxSpecForSession env session =
     (let config = (case s_EnvironmentConfig session of None \<Rightarrow> [] | Some m \<Rightarrow> m);
          none = \<lparr>pk_Apt = [], pk_Cargo = [], pk_Gem = [], pk_Go = [], pk_NPM = [], pk_Pip = []\<rparr>
      in bindE (case jget config ''packages'' of
              None \<Rightarrow> Inr none
            | Some v \<Rightarrow> (case asObj (Some v) of
                None \<Rightarrow> Inl (Validation ''session environment packages must be an object'')
              | Some m \<Rightarrow> packagesOf m)) (\<lambda>packages.
         (let spec = \<lparr>sp_Timeout = sandboxTurnTimeout, sp_Network = defaultCloudSandboxNetwork,
                sp_NetworkAllowedHosts = [], sp_SetupNetworkAllowedHosts = [], sp_Packages = packages,
                sp_MemoryStores = memoryMounts (s_Resources session)\<rparr>
          in case jget config ''networking'' of
               None \<Rightarrow> Inr spec
             | Some v \<Rightarrow> (case asObj (Some v) of
                 None \<Rightarrow> Inl (Validation ''session environment networking must be an object'')
               | Some networking \<Rightarrow> (case asStr (jget networking ''type'') of
                   None \<Rightarrow> Inl (Validation ''session environment networking.type must be unrestricted or limited'')
                 | Some ty \<Rightarrow>
                     if ty = ''unrestricted'' then Inr spec
                     else if ty \<noteq> ''limited''
                     then Inl (Validation ''session environment networking.type must be unrestricted or limited'')
                     else limitedNetwork env session networking spec)))))"

section \<open>Limited networking\<close>

text \<open>The hosts a configuration names: its list, its MCP servers and the package registries, where it allows them.\<close>

definition serverNames :: "specEnv \<Rightarrow> Session \<Rightarrow> string set" where
  "serverNames env session =
     (case ParseMCPServers (se_URL env) (se_Addr env) (elems (ag_MCPServers (s_AgentSnapshot session))) of
        Inl _ \<Rightarrow> {}
      | Inr servers \<Rightarrow> {url_Hostname p | s p. s \<in> set (map snd servers) \<and> se_URL env (ms_URL s) = Some p})"

definition namedHosts :: "specEnv \<Rightarrow> Session \<Rightarrow> payload \<Rightarrow> string set" where
  "namedHosts env session networking =
     (case environmentNetworkHostList (jget networking ''allowed_hosts'') of Inl _ \<Rightarrow> {} | Inr hs \<Rightarrow> set hs)
     \<union> (if jget networking ''allow_mcp_servers'' = Some (JBool True) then serverNames env session else {})
     \<union> (if jget networking ''allow_package_managers'' = Some (JBool True) then set publicPackageRegistryHosts else {})"

lemma serverHosts_set:
  "serverHosts parseURL ss = Inr hs \<Longrightarrow> set hs = {url_Hostname p | s p. s \<in> set ss \<and> parseURL (ms_URL s) = Some p}"
proof (induction ss arbitrary: hs)
  case (Cons s ss)
  from Cons(2) obtain p hs' where "parseURL (ms_URL s) = Some p" "serverHosts parseURL ss = Inr hs'" "hs = url_Hostname p # hs'"
    by (auto simp: bindE_Inr_iff split: option.split_asm if_split_asm)
  with Cons(1) show ?case by auto
qed simp

lemma NetworkBool_True: "environmentNetworkBool raw f = Inr b \<Longrightarrow> b = (raw = Some (JBool True))"
  by (auto simp: environmentNetworkBool_def split: option.split_asm jval.split_asm)

lemma set_normalized: "set (normalizedNetworkHosts u hs) = toLower u ` set hs"
  "sorted (normalizedNetworkHosts u hs)" "distinct (normalizedNetworkHosts u hs)"
  by (simp_all add: normalizedNetworkHosts_def)

lemma mcpHosts_set: "mcpHosts env session = Inr hs \<Longrightarrow> set hs = serverNames env session"
  by (simp add: mcpHosts_def serverNames_def serverHosts_set split: sum.split_asm)

lemma limitedNetwork_hosts:
  assumes "limitedNetwork env session networking spec = Inr spec'"
  shows "sp_Network spec' = ''limited'' \<and> set (sp_NetworkAllowedHosts spec') = toLower (se_Tables env) ` namedHosts env session networking
    \<and> sorted (sp_NetworkAllowedHosts spec') \<and> distinct (sp_NetworkAllowedHosts spec')
    \<and> (sp_SetupNetworkAllowedHosts spec = [] \<longrightarrow> set (sp_SetupNetworkAllowedHosts spec') \<subseteq>
        toLower (se_Tables env) ` (set (sp_NetworkAllowedHosts spec') \<union> set publicPackageRegistryHosts))"
proof -
  from assms obtain allowed mcp managers servers where
    a: "environmentNetworkHostList (jget networking ''allowed_hosts'') = Inr allowed" and
    m: "environmentNetworkBool (jget networking ''allow_mcp_servers'') ''allow_mcp_servers'' = Inr mcp" and
    p: "environmentNetworkBool (jget networking ''allow_package_managers'') ''allow_package_managers'' = Inr managers" and
    s: "(if mcp then mcpHosts env session else Inr []) = Inr servers" and
    spec': "spec' = (let hosts = normalizedNetworkHosts (se_Tables env)
              (allowed @ servers @ (if managers then publicPackageRegistryHosts else []));
            limited = spec\<lparr>sp_Network := ''limited'', sp_NetworkAllowedHosts := hosts\<rparr>
        in if PackageSet_Empty (sp_Packages spec) then limited
                else limited\<lparr>sp_SetupNetworkAllowedHosts :=
                  normalizedNetworkHosts (se_Tables env) (hosts @ publicPackageRegistryHosts)\<rparr>)"
    by (auto simp: limitedNetwork_def bindE_Inr_iff Let_def)
  have "set servers = (if mcp then serverNames env session else {})"
    using s mcpHosts_set by (auto split: if_split_asm)
  then have hosts: "set allowed \<union> set servers \<union> (if managers then set publicPackageRegistryHosts else {})
      = namedHosts env session networking"
    using NetworkBool_True [OF m] NetworkBool_True [OF p] a by (simp add: namedHosts_def)
  then have "toLower (se_Tables env) ` (set allowed \<union> (set servers \<union> set (if managers then publicPackageRegistryHosts else [])))
      = toLower (se_Tables env) ` namedHosts env session networking"
    by (simp add: Un_assoc if_distrib [of set] cong: if_cong)
  then show ?thesis
    unfolding spec' Let_def by (auto simp: set_normalized simp del: image_Un)
qed

lemma asObj_Some: "asObj (Some v) = Some m \<longleftrightarrow> v = JObj m"
  by (cases v) auto

lemma asStr_Some: "asStr v = Some s \<longleftrightarrow> v = Some (JStr s)"
  by (cases v rule: asStr.cases) auto

lemma bindE_chain: "bindE m f = Inr y \<Longrightarrow> (\<And>x. m = Inr x \<Longrightarrow> f x = Inr y \<Longrightarrow> P) \<Longrightarrow> P"
  by (auto simp: bindE_Inr_iff)

text \<open>
  C27. A limited network stays limited: a Session whose environment configures networking gets the open network only if
  it says unrestricted; a limited one reaches exactly the hosts it names, its list, its MCP servers and the package
  registries where it allows them, in lower case, each once; while packages are installed at most the registries too.
\<close>

theorem limited_network_confined:
  assumes "sandboxSpecForSession env session = Inr spec" "s_EnvironmentConfig session = Some config"
    and "jget config ''networking'' = Some v"
  shows "\<exists>n. v = JObj n \<and> (jget n ''type'' = Some (JStr ''unrestricted'') \<and> sp_Network spec = ''bridge''
     \<or> jget n ''type'' = Some (JStr ''limited'') \<and> sp_Network spec = ''limited''
       \<and> set (sp_NetworkAllowedHosts spec) = toLower (se_Tables env) ` namedHosts env session n
       \<and> sorted (sp_NetworkAllowedHosts spec) \<and> distinct (sp_NetworkAllowedHosts spec)
       \<and> set (sp_SetupNetworkAllowedHosts spec) \<subseteq>
           toLower (se_Tables env) ` (set (sp_NetworkAllowedHosts spec) \<union> set publicPackageRegistryHosts))"
proof -
  let ?start = "\<lambda>packages. \<lparr>sp_Timeout = sandboxTurnTimeout, sp_Network = defaultCloudSandboxNetwork,
      sp_NetworkAllowedHosts = [], sp_SetupNetworkAllowedHosts = [], sp_Packages = packages,
      sp_MemoryStores = memoryMounts (s_Resources session)\<rparr>"
  from assms obtain n packages ty where n: "v = JObj n" "jget n ''type'' = Some (JStr ty)" and
    rest: "(if ty = ''unrestricted'' then Inr (?start packages)
      else if ty \<noteq> ''limited''
      then Inl (Validation ''session environment networking.type must be unrestricted or limited'')
      else limitedNetwork env session n (?start packages)) = Inr spec"
    by (auto elim!: bindE_chain simp: sandboxSpecForSession_def Let_def asObj_Some asStr_Some split: option.split_asm split del: if_split)
  show ?thesis
  proof (cases "ty = ''unrestricted''")
    case True
    with n rest show ?thesis by (auto simp: defaultCloudSandboxNetwork_def)
  next
    case False
    with rest have "ty = ''limited''" "limitedNetwork env session n (?start packages) = Inr spec"
      by (simp_all split: if_split_asm)
    moreover have "sp_SetupNetworkAllowedHosts (?start packages) = []" by simp
    ultimately show ?thesis using n limitedNetwork_hosts [of env session n "?start packages" spec] by blast
  qed
qed

definition sampleSpecEnv :: specEnv where
  "sampleSpecEnv = \<lparr>se_Tables = \<lparr>u_letter = \<lambda>_. False, u_digit = \<lambda>_. False, u_lower = id\<rparr>,
     se_Text = \<lambda>_. [], se_URL = \<lambda>_. None, se_Addr = \<lambda>_. None\<rparr>"

definition sampleLimited :: Session where
  "sampleLimited = sampleSession\<lparr>s_EnvironmentConfig := Some [(''networking'', JObj [(''type'', JStr ''limited''),
     (''allowed_hosts'', JArr [JStr ''B.io'', JStr ''a.io'', JStr ''b.io''])])]\<rparr>"

lemma sampleLimited_eval:
  "case sandboxSpecForSession sampleSpecEnv sampleLimited of Inl _ \<Rightarrow> False
   | Inr spec \<Rightarrow> sp_NetworkAllowedHosts spec = [''a.io'', ''b.io'']"
  by code_simp

theorem limited_network_confined_witness:
  "\<exists>spec. sandboxSpecForSession sampleSpecEnv sampleLimited = Inr spec \<and> sp_Network spec = ''limited''
     \<and> sp_NetworkAllowedHosts spec = [''a.io'', ''b.io'']"
proof -
  obtain spec where s: "sandboxSpecForSession sampleSpecEnv sampleLimited = Inr spec" "sp_NetworkAllowedHosts spec = [''a.io'', ''b.io'']"
    using sampleLimited_eval by (auto split: sum.split_asm)
  have "s_EnvironmentConfig sampleLimited = Some [(''networking'', JObj [(''type'', JStr ''limited''),
     (''allowed_hosts'', JArr [JStr ''B.io'', JStr ''a.io'', JStr ''b.io''])])]" by (simp add: sampleLimited_def)
  from limited_network_confined [OF s(1) this] s show ?thesis by (auto simp: jget_def)
qed

end
