(* ===== verification/Builtins.thy ===== *)
theory Builtins
  imports Events
begin

text \<open>
  The built-in tools (\<open>internal/agentruntime/tools\<close>): commands, files, glob and grep over a sandbox, the answer of an
  MCP server as the model reads it, and the storage of results that are too large to be inlined. The sandbox
  (\<open>Sandbox\<close> in \<open>internal/sandbox/sandbox.go\<close>) is an argument: three operations on a state of its own. A failed tool
  answers with an error that the model reads.
\<close>

section \<open>The sandbox and the outcome of a tool\<close>

record Command =
  cm_Path :: string
  cm_Args :: "string list"
  cm_Stdin :: string

record execResult =
  ex_Stdout :: string
  ex_Stderr :: string
  ex_ExitCode :: int
  ex_TimedOut :: bool

text \<open>\<open>Inl\<close> is the text of an error; \<open>WriteFile\<close> answers \<open>None\<close> when it succeeds.\<close>

record 'b Sandbox =
  sx_Exec :: "Command \<Rightarrow> 'b \<Rightarrow> (string + execResult) \<times> 'b"
  sx_ReadFile :: "string \<Rightarrow> 'b \<Rightarrow> (string + string) \<times> 'b"
  sx_WriteFile :: "string \<Rightarrow> string \<Rightarrow> 'b \<Rightarrow> string option \<times> 'b"

text \<open>\<open>json.MarshalIndent\<close>, \<open>%q\<close>, the decoding of an MCP answer and of base64, and the Unicode tables.\<close>

record toolEnv =
  te_Indent :: "jval \<Rightarrow> string + string"
  te_Quote :: "string \<Rightarrow> string"
  te_Decode :: "string \<Rightarrow> string + (string + payload) list \<times> jval option"
  te_Base64 :: "string \<Rightarrow> string + string"
  te_Tables :: unicodeTables

record toolOutcome =
  to_Content :: "jval list"
  to_IsError :: bool

definition toolText :: "string \<Rightarrow> bool \<Rightarrow> toolOutcome" where
  "toolText s isErr = \<lparr>to_Content = [JObj [(''type'', JStr ''text''), (''text'', JStr s)]], to_IsError = isErr\<rparr>"

type_synonym 'b Executor = "payload \<Rightarrow> 'b \<Rightarrow> toolOutcome \<times> 'b"

definition notImplemented :: "string \<Rightarrow> 'b Executor" where
  "notImplemented n inp b = (toolText (n @ '': not implemented'') True, b)"

abbreviation newLine :: string where "newLine \<equiv> [CHR 0x0A]"

section \<open>Commands and files (builtins.go)\<close>

definition execBash :: "'b Sandbox \<Rightarrow> 'b Executor" where
  "execBash sb inp b =
     (let cmd = strOf (jget inp ''command'')
      in if cmd = [] then (toolText ''bash: command is required'' True, b)
         else (case sx_Exec sb \<lparr>cm_Path = ''/bin/sh'', cm_Args = [''-c'', cmd], cm_Stdin = []\<rparr> b of
             (Inl e, b1) \<Rightarrow> (toolText (''bash: '' @ e) True, b1)
           | (Inr res, b1) \<Rightarrow>
               (toolText (ex_Stdout res @ ex_Stderr res @ (if ex_TimedOut res then newLine @ ''[timed out]'' else []))
                  (ex_ExitCode res \<noteq> 0), b1)))"

definition execRead :: "'b Sandbox \<Rightarrow> 'b Executor" where
  "execRead sb inp b =
     (let path = strOf (jget inp ''path'')
      in if path = [] then (toolText ''read: path is required'' True, b)
         else (case sx_ReadFile sb path b of
             (Inl e, b1) \<Rightarrow> (toolText (''read: '' @ e) True, b1)
           | (Inr contents, b1) \<Rightarrow> (toolText contents False, b1)))"

definition execWrite :: "'b Sandbox \<Rightarrow> 'b Executor" where
  "execWrite sb inp b =
     (let path = strOf (jget inp ''path'')
      in if path = [] then (toolText ''write: path is required'' True, b)
         else (case sx_WriteFile sb path (strOf (jget inp ''file_text'')) b of
             (Some e, b1) \<Rightarrow> (toolText (''write: '' @ e) True, b1)
           | (None, b1) \<Rightarrow> (toolText (''wrote '' @ path) False, b1)))"

text \<open>\<open>strings.Cut\<close>, \<open>strings.Count\<close> for a non-empty \<open>sep\<close>, and \<open>strings.Replace\<close> of the first occurrence.\<close>

fun cutAt :: "string \<Rightarrow> string \<Rightarrow> (string \<times> string) option" where
  "cutAt sep [] = (if sep = [] then Some ([], []) else None)"
| "cutAt sep (c # s) =
     (if hasPrefix (c # s) sep then Some ([], drop (length sep) (c # s))
      else map_option (\<lambda>(a, b). (c # a, b)) (cutAt sep s))"

lemma cutAt_Some: "cutAt sep s = Some (a, b) \<Longrightarrow> s = a @ sep @ b"
  by (induction sep s arbitrary: a rule: cutAt.induct) (auto simp: hasPrefix_iff split: if_splits)

function countSub :: "string \<Rightarrow> string \<Rightarrow> nat" where
  "countSub sep s =
     (if sep = [] then 0 else (case cutAt sep s of None \<Rightarrow> 0 | Some (_, rest) \<Rightarrow> Suc (countSub sep rest)))"
  by pat_completeness auto
termination
  by (relation "measure (length \<circ> snd)") (auto dest: cutAt_Some)

declare countSub.simps [simp del]

definition replaceFirst :: "string \<Rightarrow> string \<Rightarrow> string \<Rightarrow> string" where
  "replaceFirst s old new = (case cutAt old s of None \<Rightarrow> s | Some (a, b) \<Rightarrow> a @ new @ b)"

definition execEdit :: "'b Sandbox \<Rightarrow> 'b Executor" where
  "execEdit sb inp b =
     (let path = strOf (jget inp ''path''); old = strOf (jget inp ''old_str''); new = strOf (jget inp ''new_str'')
      in if path = [] then (toolText ''edit: path is required'' True, b)
         else (case sx_ReadFile sb path b of
             (Inl e, b1) \<Rightarrow> (toolText (''edit: '' @ e) True, b1)
           | (Inr s, b1) \<Rightarrow>
               if old = [] \<or> countSub old s = 0 then (toolText ''edit: old_str not found'' True, b1)
               else if 1 < countSub old s then (toolText ''edit: old_str is not unique'' True, b1)
               else (case sx_WriteFile sb path (replaceFirst s old new) b1 of
                   (Some e, b2) \<Rightarrow> (toolText (''edit: '' @ e) True, b2)
                 | (None, b2) \<Rightarrow> (toolText (''edited '' @ path) False, b2))))"

section \<open>Searching (builtins.go)\<close>

text \<open>
  The expression that \<open>globToRegexp\<close> builds, as the pieces it writes: \<open>.*\<close>, \<open>(?:/)?\<close>, \<open>[^/]*\<close>, \<open>[^/]\<close> and a quoted
  character. A piece matches as Go's \<open>regexp\<close> does, on the runes of the text, between both anchors; \<open>.\<close> is not a
  newline. Each byte of the pattern is quoted by itself, as the character whose code it is. Such an expression always
  compiles.
\<close>

datatype globPiece = AnyDepth | OptSlash | Segment | OneRune | Literal nat

fun globToRegexp :: "string \<Rightarrow> globPiece list" where
  "globToRegexp [] = []"
| "globToRegexp (c # s) =
     (if c = CHR ''*''
      then (case s of
          [] \<Rightarrow> [Segment]
        | d # s1 \<Rightarrow>
            if d = CHR ''*''
            then (case s1 of
                [] \<Rightarrow> [AnyDepth]
              | e # s2 \<Rightarrow> if e = slash then AnyDepth # OptSlash # globToRegexp s2 else AnyDepth # globToRegexp s1)
            else Segment # globToRegexp s)
      else if c = CHR ''?'' then OneRune # globToRegexp s
      else Literal (byteOf c) # globToRegexp s)"

fun globMatch :: "globPiece list \<Rightarrow> nat list \<Rightarrow> bool" where
  "globMatch [] rs \<longleftrightarrow> rs = []"
| "globMatch (Literal r # ps) rs \<longleftrightarrow> (case rs of [] \<Rightarrow> False | x # xs \<Rightarrow> x = r \<and> globMatch ps xs)"
| "globMatch (OneRune # ps) rs \<longleftrightarrow> (case rs of [] \<Rightarrow> False | x # xs \<Rightarrow> x \<noteq> byteOf slash \<and> globMatch ps xs)"
| "globMatch (OptSlash # ps) rs \<longleftrightarrow>
     (case rs of [] \<Rightarrow> False | x # xs \<Rightarrow> x = byteOf slash \<and> globMatch ps xs) \<or> globMatch ps rs"
| "globMatch (Segment # ps) rs \<longleftrightarrow>
     (case rs of [] \<Rightarrow> False | x # xs \<Rightarrow> x \<noteq> byteOf slash \<and> globMatch (Segment # ps) xs) \<or> globMatch ps rs"
| "globMatch (AnyDepth # ps) rs \<longleftrightarrow>
     (case rs of [] \<Rightarrow> False | x # xs \<Rightarrow> x \<noteq> 10 \<and> globMatch (AnyDepth # ps) xs) \<or> globMatch ps rs"

definition matchesGlob :: "string \<Rightarrow> string \<Rightarrow> bool" where
  "matchesGlob pattern f = globMatch (globToRegexp pattern) (runes f)"

definition fileLines :: "string \<Rightarrow> string list" where
  "fileLines out = map (\<lambda>l. trimPrefix l ''./'') (filter (\<lambda>l. l \<noteq> []) (map trimSpace (splitOn (CHR 0x0A) out)))"

definition listFiles :: "'b Sandbox \<Rightarrow> string \<Rightarrow> 'b \<Rightarrow> (toolOutcome + string list) \<times> 'b" where
  "listFiles sb start b =
     (case sx_Exec sb \<lparr>cm_Path = ''find'', cm_Args = [start, ''-type'', ''f''], cm_Stdin = []\<rparr> b of
        (Inl e, b1) \<Rightarrow> (Inl (toolText (''glob: '' @ e) True), b1)
      | (Inr res, b1) \<Rightarrow>
          if ex_TimedOut res then (Inl (toolText ''glob: timed out'' True), b1)
          else if ex_ExitCode res \<noteq> 0 then (Inl (toolText (''glob: '' @ trimSpace (ex_Stderr res)) True), b1)
          else (Inr (fileLines (ex_Stdout res)), b1))"


definition execGlob :: "'b Sandbox \<Rightarrow> 'b Executor" where
  "execGlob sb inp b =
     (let pattern = strOf (jget inp ''pattern''); start = strOf (jget inp ''path'')
      in if pattern = [] then (toolText ''glob: pattern is required'' True, b)
         else (case listFiles sb (if start = [] then ''.'' else start) b of
             (Inl res, b1) \<Rightarrow> (res, b1)
           | (Inr files, b1) \<Rightarrow>
               (toolText (joinWith newLine (sort (filter (matchesGlob pattern) files))) False, b1)))"

definition execGrep :: "'b Sandbox \<Rightarrow> 'b Executor" where
  "execGrep sb inp b =
     (let pattern = strOf (jget inp ''pattern''); path = strOf (jget inp ''path'')
      in if pattern = [] then (toolText ''grep: pattern is required'' True, b)
         else (case sx_Exec sb \<lparr>cm_Path = ''grep'', cm_Args = [''-rnE'', ''--'', pattern, if path = [] then ''.'' else path],
                 cm_Stdin = []\<rparr> b of
             (Inl e, b1) \<Rightarrow> (toolText (''grep: '' @ e) True, b1)
           | (Inr res, b1) \<Rightarrow>
               if ex_TimedOut res then (toolText ''grep: timed out'' True, b1)
               else if 2 \<le> ex_ExitCode res then (toolText (''grep: '' @ trimSpace (ex_Stderr res)) True, b1)
               else (toolText (ex_Stdout res) False, b1)))"

section \<open>The registry (registry.go)\<close>

definition Registry :: "'b Sandbox \<Rightarrow> (string \<times> 'b Executor) list" where
  "Registry sb =
     [(''bash'', execBash sb), (''read'', execRead sb), (''write'', execWrite sb), (''edit'', execEdit sb),
      (''glob'', execGlob sb), (''grep'', execGrep sb), (''web_fetch'', notImplemented ''web_fetch''),
      (''web_search'', notImplemented ''web_search'')]"

definition Names :: "string list" where
  "Names = sort (map fst (Registry (undefined :: unit Sandbox)))"

definition property :: "string \<Rightarrow> string \<Rightarrow> string \<times> jval" where
  "property n description = (n, JObj [(''type'', JStr ''string''), (''description'', JStr description)])"

definition objectSchema :: "payload \<Rightarrow> string list \<Rightarrow> payload option" where
  "objectSchema properties required =
     Some [(''type'', JStr ''object''), (''properties'', JObj properties), (''required'', JArr (map JStr required))]"

definition Schema :: "string \<Rightarrow> payload option" where
  "Schema n =
     (if n = ''bash'' then objectSchema
        [property ''command'' ''The shell command to run.'',
         (''restart'', JObj [(''type'', JStr ''boolean''),
            (''description'', JStr ''Restart the shell session before running.'')])] [''command'']
      else if n = ''read'' then objectSchema
        [property ''path'' ''Path of the file to read, relative to the sandbox root.'',
         (''view_range'', JObj [(''type'', JStr ''array''),
            (''description'', JStr ''Optional [start, end] 1-based line range to view.''),
            (''items'', JObj [(''type'', JStr ''integer'')]), (''minItems'', JInt 2), (''maxItems'', JInt 2)])] [''path'']
      else if n = ''write'' then objectSchema
        [property ''path'' ''Path of the file to write, relative to the sandbox root.'',
         property ''file_text'' ''The full contents to write to the file.''] [''path'', ''file_text'']
      else if n = ''edit'' then objectSchema
        [property ''path'' ''Path of the file to edit, relative to the sandbox root.'',
         property ''old_str'' ''The exact, unique string to replace.'',
         property ''new_str'' ''The replacement string.''] [''path'', ''old_str'', ''new_str'']
      else if n = ''glob'' then objectSchema
        [property ''pattern'' ''Glob pattern to match paths against (`*` and `?` within a path segment, `**` across segments).'',
         property ''path'' ''Optional root directory to search under, relative to the sandbox root. Defaults to the whole sandbox.'']
        [''pattern'']
      else if n = ''grep'' then objectSchema
        [property ''pattern'' ''Extended regular expression to search file contents for.'',
         property ''path'' ''Optional root directory to search under, relative to the sandbox root. Defaults to the whole sandbox.'']
        [''pattern'']
      else if n = ''web_fetch'' \<or> n = ''web_search'' then Some [(''type'', JStr ''object'')]
      else None)"

section \<open>Large results (result_storage.go)\<close>

definition MaxInlineResultChars :: int where "MaxInlineResultChars = 100000"
definition ResultPreviewChars :: int where "ResultPreviewChars = 2000"
definition ToolResultsDirectory :: string where "ToolResultsDirectory = ''tool-results''"

definition serializeResult :: "toolEnv \<Rightarrow> jval list \<Rightarrow> string + string \<times> string" where
  "serializeResult env content =
     (let indented = (case te_Indent env (JArr content) of Inl e \<Rightarrow> Inl e | Inr raw \<Rightarrow> Inr (raw, ''.json''))
      in case content of
           [JObj block] \<Rightarrow>
             if strOf (jget block ''type'') = ''text''
             then (case asStr (jget block ''text'') of Some t \<Rightarrow> Inr (t, ''.txt'') | None \<Rightarrow> indented) else indented
         | _ \<Rightarrow> indented)"

definition safeRune :: "nat \<Rightarrow> char" where
  "safeRune r =
     (if asciiLower r \<or> asciiUpper r \<or> asciiDigit r \<or> r = byteOf (CHR ''-'') \<or> r = byteOf (CHR ''_'')
      then char_of r else CHR ''_'')"

definition safeResultFilename :: "string \<Rightarrow> string" where
  "safeResultFilename toolUseID =
     (let b = map safeRune (runes toolUseID) in if b = [] then ''tool-result'' else b)"

definition truncateRunes :: "string \<Rightarrow> int \<Rightarrow> string" where
  "truncateRunes s limit =
     (if limit \<le> 0 then [] else if int (runeCount s) \<le> limit then s
      else concat (map encodeRune (take (nat limit) (runes s))))"

definition persistedMessage :: "string \<Rightarrow> nat \<Rightarrow> string \<Rightarrow> string" where
  "persistedMessage resultPath characters preview =
     ''<persisted-output>'' @ newLine @ ''Tool output exceeded '' @ itoa MaxInlineResultChars
     @ '' characters. The full output was saved to '' @ resultPath @ '' ('' @ itoa (int characters) @ '' characters).''
     @ newLine @ ''Use the read tool with view_range to inspect it in chunks.'' @ newLine @ newLine
     @ ''Preview:'' @ newLine @ preview @ newLine @ ''</persisted-output>''"

text \<open>The executing activity always has a sandbox here.\<close>

definition MaterializeLargeResult ::
    "toolEnv \<Rightarrow> 'b Sandbox \<Rightarrow> string \<Rightarrow> toolOutcome \<Rightarrow> 'b \<Rightarrow> (string + toolOutcome) \<times> 'b" where
  "MaterializeLargeResult env sb toolUseID result b =
     (case serializeResult env (to_Content result) of
        Inl e \<Rightarrow> (Inl (''serialize tool result: '' @ e), b)
      | Inr (serialized, extension) \<Rightarrow>
          if int (runeCount serialized) \<le> MaxInlineResultChars then (Inr result, b)
          else
            (let resultPath = pathJoin ToolResultsDirectory (safeResultFilename toolUseID @ extension)
             in case sx_WriteFile sb resultPath serialized b of
                  (Some e, b1) \<Rightarrow> (Inl (''materialize tool result '' @ te_Quote env resultPath @ '': '' @ e), b1)
                | (None, b1) \<Rightarrow>
                    (Inr (toolText (persistedMessage resultPath (runeCount serialized)
                       (truncateRunes serialized ResultPreviewChars)) (to_IsError result)), b1)))"

section \<open>Answers of MCP servers (mcp_result.go)\<close>

definition extensionForMIME :: "unicodeTables \<Rightarrow> string \<Rightarrow> string" where
  "extensionForMIME u mimeType =
     (let m = toLower u (trimSpace mimeType)
      in if m = ''image/png'' then ''.png'' else if m = ''image/jpeg'' then ''.jpg'' else if m = ''image/gif'' then ''.gif''
         else if m = ''image/webp'' then ''.webp'' else if m = ''application/pdf'' then ''.pdf''
         else if m = ''audio/mpeg'' then ''.mp3'' else if m = ''audio/wav'' \<or> m = ''audio/x-wav'' then ''.wav''
         else if m = ''application/json'' then ''.json'' else if m = ''text/plain'' then ''.txt'' else ''.bin'')"

definition persistMCPBase64 ::
    "toolEnv \<Rightarrow> 'b Sandbox \<Rightarrow> string \<Rightarrow> nat \<Rightarrow> string \<Rightarrow> payload \<Rightarrow> 'b \<Rightarrow> (string + string) \<times> 'b" where
  "persistMCPBase64 env sb toolUseID i kind block b =
     (let given = strOf (jget block ''data'');
          encoded = (if given = [] then strOf (jget block ''blob'') else given)
      in case te_Base64 env encoded of
           Inl e \<Rightarrow> (Inl (''decode MCP '' @ kind @ '' content: '' @ e), b)
         | Inr contents \<Rightarrow>
             (let location = pathJoin ToolResultsDirectory (safeResultFilename toolUseID @ ''-'' @ itoa (int i)
                    @ extensionForMIME (te_Tables env) (strOf (jget block ''mimeType'')))
              in case sx_WriteFile sb location contents b of
                   (Some e, b1) \<Rightarrow> (Inl (''persist MCP '' @ kind @ '' content: '' @ e), b1)
                 | (None, b1) \<Rightarrow> (Inr location, b1)))"

text \<open>What one block contributes to the text; \<open>Inl\<close> ends the projection.\<close>

definition mcpBlock ::
    "toolEnv \<Rightarrow> 'b Sandbox \<Rightarrow> string \<Rightarrow> nat \<Rightarrow> payload \<Rightarrow> 'b \<Rightarrow> (string + string list) \<times> 'b" where
  "mcpBlock env sb toolUseID i block b =
     (let typ = strOf (jget block ''type'');
          saved = (\<lambda>kind from words. case persistMCPBase64 env sb toolUseID i kind from b of
              (Inl e, b1) \<Rightarrow> (Inl e, b1) | (Inr location, b1) \<Rightarrow> (Inr [words @ '' saved to '' @ location], b1))
      in if typ = ''text''
         then (let t = strOf (jget block ''text'') in (Inr (if t = [] then [] else [t]), b))
         else if typ = ''image'' \<or> typ = ''audio'' then saved typ block (''MCP '' @ typ @ '' content'')
         else if typ = ''resource''
         then
           (let resource = objOf (jget block ''resource''); uri = strOf (jget resource ''uri'');
                t = strOf (jget resource ''text'')
            in if t \<noteq> [] then (Inr [if uri \<noteq> [] then ''Resource '' @ uri @ '':'' @ newLine @ t else t], b)
               else if asStr (jget resource ''blob'') \<noteq> None then saved ''resource'' resource (''MCP resource '' @ uri)
               else (Inr [], b))
         else if typ = ''resource_link''
         then (Inr [''MCP resource link '' @ strOf (jget block ''name'') @ '': '' @ strOf (jget block ''uri'')], b)
         else (Inr (if typ = [] then [] else [''MCP returned unsupported '' @ typ @ '' content.'']), b))"

fun mcpBlocks ::
    "toolEnv \<Rightarrow> 'b Sandbox \<Rightarrow> string \<Rightarrow> nat \<Rightarrow> (string + payload) list \<Rightarrow> 'b \<Rightarrow> (string + string list) \<times> 'b" where
  "mcpBlocks env sb toolUseID i [] b = (Inr [], b)"
| "mcpBlocks env sb toolUseID i (Inl e # blocks) b =
     (Inl (''decode MCP content block '' @ itoa (int i) @ '': '' @ e), b)"
| "mcpBlocks env sb toolUseID i (Inr block # blocks) b =
     (case mcpBlock env sb toolUseID i block b of
        (Inl e, b1) \<Rightarrow> (Inl e, b1)
      | (Inr parts, b1) \<Rightarrow> (case mcpBlocks env sb toolUseID (Suc i) blocks b1 of
            (Inl e, b2) \<Rightarrow> (Inl e, b2) | (Inr parts', b2) \<Rightarrow> (Inr (parts @ parts'), b2)))"

record mcpResult =
  mr_Raw :: string
  mr_IsError :: bool

definition mcpText :: "toolEnv \<Rightarrow> string list \<Rightarrow> jval option \<Rightarrow> string + string" where
  "mcpText env parts structured =
     (let said = (\<lambda>ps. joinWith (newLine @ newLine) (if ps = [] then [''MCP tool returned no model-visible content.''] else ps))
      in case structured of
           None \<Rightarrow> Inr (said parts)
         | Some JNull \<Rightarrow> Inr (said parts)
         | Some v \<Rightarrow> (case te_Indent env v of
               Inl e \<Rightarrow> Inl (''encode MCP structured content: '' @ e)
             | Inr t \<Rightarrow> Inr (said (parts @ [''Structured content:'' @ newLine @ t]))))"

definition rawMCPResult ::
    "toolEnv \<Rightarrow> 'b Sandbox \<Rightarrow> string \<Rightarrow> string \<Rightarrow> 'b \<Rightarrow> (string + string option \<times> string) \<times> 'b" where
  "rawMCPResult env sb toolUseID raw b =
     (if MaxInlineResultChars < int (length raw)
      then
        (let rawPath = pathJoin ToolResultsDirectory (safeResultFilename toolUseID @ ''.mcp.json'')
         in case sx_WriteFile sb rawPath raw b of
              (Some e, b1) \<Rightarrow> (Inl (''persist raw MCP result '' @ te_Quote env rawPath @ '': '' @ e), b1)
            | (None, b1) \<Rightarrow> (Inr (None, rawPath), b1))
      else (Inr (Some raw, []), b))"

definition ProjectMCPResult ::
    "toolEnv \<Rightarrow> 'b Sandbox \<Rightarrow> string \<Rightarrow> mcpResult \<Rightarrow> 'b \<Rightarrow> (string + toolOutcome \<times> string option \<times> string) \<times> 'b" where
  "ProjectMCPResult env sb toolUseID inp b =
     (case te_Decode env (mr_Raw inp) of
        Inl e \<Rightarrow> (Inl (''decode MCP result: '' @ e), b)
      | Inr (blocks, structured) \<Rightarrow> (case mcpBlocks env sb toolUseID 0 blocks b of
          (Inl e, b1) \<Rightarrow> (Inl e, b1)
        | (Inr parts, b1) \<Rightarrow> (case mcpText env parts structured of
            Inl e \<Rightarrow> (Inl e, b1)
          | Inr t \<Rightarrow> (case MaterializeLargeResult env sb toolUseID (toolText t (mr_IsError inp)) b1 of
              (Inl e, b2) \<Rightarrow> (Inl e, b2)
            | (Inr result, b2) \<Rightarrow> (case rawMCPResult env sb toolUseID (mr_Raw inp) b2 of
                (Inl e, b3) \<Rightarrow> (Inl e, b3)
              | (Inr (raw, rawPath), b3) \<Rightarrow> (Inr (result, raw, rawPath), b3))))))"

section \<open>What an edit does\<close>

lemma cutAt_first: "cutAt sep (a @ sep @ b) = Some (x, y) \<Longrightarrow> length x \<le> length a"
proof (induction a arbitrary: x)
  case Nil
  then show ?case by (cases sep; cases b) (auto simp: hasPrefix_def split: if_splits)
next
  case (Cons c a)
  then show ?case by (auto split: if_splits)
qed

lemma cutAt_None: "cutAt sep s = None \<Longrightarrow> s \<noteq> a @ sep @ b"
proof (induction sep s arbitrary: a rule: cutAt.induct)
  case (2 sep c s)
  then show ?case by (cases a) (auto simp: hasPrefix_iff split: if_splits)
qed (auto split: if_splits)

lemma countSub_one:
  assumes "sep \<noteq> []" "countSub sep s \<noteq> 0" "\<not> 1 < countSub sep s"
  obtains a b where "cutAt sep s = Some (a, b)" "cutAt sep b = None"
proof -
  from assms obtain a b where ab: "cutAt sep s = Some (a, b)" by (auto simp: countSub.simps [of sep s] split: option.split_asm)
  with assms have "countSub sep b = 0" by (simp add: countSub.simps [of sep s])
  with assms(1) have "cutAt sep b = None" by (auto simp: countSub.simps [of sep b] split: option.split_asm)
  with ab that show thesis by blast
qed

lemma occurrence_overlaps:
  assumes "cutAt sep s = Some (pre, post)" "cutAt sep post = None" "s = a @ sep @ c"
  shows "length pre \<le> length a \<and> length a < length pre + length sep"
proof
  show "length pre \<le> length a" using assms(1,3) cutAt_first by blast
  show "length a < length pre + length sep"
  proof (rule ccontr)
    assume "\<not> length a < length pre + length sep"
    then have far: "length (pre @ sep) \<le> length a" by simp
    have "(pre @ sep) @ post = a @ sep @ c" using cutAt_Some [OF assms(1)] assms(3) by simp
    then have "take (length (pre @ sep)) a = pre @ sep"
      using far by (metis append_eq_append_conv_if)
    then have "a = (pre @ sep) @ drop (length (pre @ sep)) a" by (metis append_take_drop_id)
    with \<open>(pre @ sep) @ post = a @ sep @ c\<close> have "post = drop (length (pre @ sep)) a @ sep @ c"
      by (metis append.assoc same_append_eq)
    with cutAt_None [OF assms(2)] show False by blast
  qed
qed

text \<open>
  C29. An edit that succeeds replaced one occurrence of the old text in the file as it was read, the only one but for
  those that overlap it; an edit that fails wrote nothing, unless the write itself failed.
\<close>

theorem edit_replaces_one:
  assumes "execEdit sb inp b = (res, b')"
    and "path = strOf (jget inp ''path'')" "old = strOf (jget inp ''old_str'')" "new = strOf (jget inp ''new_str'')"
  shows "if to_IsError res
    then b' = b \<or> b' = snd (sx_ReadFile sb path b)
      \<or> (\<exists>e contents. sx_WriteFile sb path contents (snd (sx_ReadFile sb path b)) = (Some e, b'))
    else \<exists>pre post b1. old \<noteq> [] \<and> sx_ReadFile sb path b = (Inr (pre @ old @ post), b1)
      \<and> sx_WriteFile sb path (pre @ new @ post) b1 = (None, b')
      \<and> (\<forall>a c. pre @ old @ post = a @ old @ c \<longrightarrow> length pre \<le> length a \<and> length a < length pre + length old)"
proof (cases "to_IsError res")
  case True
  with assms show ?thesis
    by (auto simp: execEdit_def Let_def toolText_def split: if_split_asm prod.split_asm sum.split_asm option.split_asm)
next
  case False
  with assms obtain s b1 where s: "sx_ReadFile sb path b = (Inr s, b1)" "old \<noteq> []" "countSub old s \<noteq> 0" "\<not> 1 < countSub old s"
      "sx_WriteFile sb path (replaceFirst s old new) b1 = (None, b')"
    by (auto simp: execEdit_def Let_def toolText_def split: if_split_asm prod.split_asm sum.split_asm option.split_asm)
  from s(2-4) obtain pre post where c: "cutAt old s = Some (pre, post)" "cutAt old post = None" by (rule countSub_one)
  have "s = pre @ old @ post" "replaceFirst s old new = pre @ new @ post"
    using cutAt_Some [OF c(1)] c(1) by (simp_all add: replaceFirst_def)
  moreover have "length pre \<le> length a \<and> length a < length pre + length old" if "s = a @ old @ d" for a d
    by (rule occurrence_overlaps [OF c that])
  ultimately show ?thesis using False s by auto
qed

text \<open>A sandbox that holds one file.\<close>

definition oneFile :: "string Sandbox" where
  "oneFile = \<lparr>sx_Exec = \<lambda>_ b. (Inl ''no shell'', b), sx_ReadFile = \<lambda>_ b. (Inr b, b), sx_WriteFile = \<lambda>_ new _. (None, new)\<rparr>"

theorem edit_replaces_one_witness:
  "snd (execEdit oneFile [(''path'', JStr ''f''), (''old_str'', JStr ''b''), (''new_str'', JStr ''xy'')] ''abc'') = ''axyc''"
  using edit_replaces_one [OF prod.collapse [symmetric] refl refl refl, of oneFile
      "[(''path'', JStr ''f''), (''old_str'', JStr ''b''), (''new_str'', JStr ''xy'')]" "''abc''"]
  by (simp add: execEdit_def Let_def toolText_def oneFile_def jget_def countSub.simps hasPrefix_def replaceFirst_def)

text \<open>An old text that overlaps itself occurs twice and is accepted.\<close>

lemma edit_overlap_accepted:
  "to_IsError (fst (execEdit oneFile [(''path'', JStr ''f''), (''old_str'', JStr ''aa''), (''new_str'', JStr ''x'')] ''aaa'')) = False"
  by (simp add: execEdit_def Let_def toolText_def oneFile_def jget_def countSub.simps hasPrefix_def replaceFirst_def)

section \<open>What a glob matches\<close>

fun pieceMatches :: "globPiece \<Rightarrow> nat list \<Rightarrow> bool" where
  "pieceMatches (Literal r) xs \<longleftrightarrow> xs = [r]"
| "pieceMatches OneRune xs \<longleftrightarrow> (\<exists>x. xs = [x] \<and> x \<noteq> byteOf slash)"
| "pieceMatches OptSlash xs \<longleftrightarrow> xs = [] \<or> xs = [byteOf slash]"
| "pieceMatches Segment xs \<longleftrightarrow> byteOf slash \<notin> set xs"
| "pieceMatches AnyDepth xs \<longleftrightarrow> 10 \<notin> set xs"

declare globMatch.simps(5,6) [simp del]

lemma segment_Cons:
  "globMatch (Segment # ps) rs \<longleftrightarrow> (\<exists>xs ys. rs = xs @ ys \<and> pieceMatches Segment xs \<and> globMatch ps ys)"
proof (induction rs)
  case (Cons r rs)
  show ?case
  proof
    assume "globMatch (Segment # ps) (r # rs)"
    then have "globMatch ps (r # rs) \<or> r \<noteq> byteOf slash \<and> globMatch (Segment # ps) rs"
      by (simp add: globMatch.simps(5) [of ps "r # rs"] disj_commute)
    then show "\<exists>xs ys. r # rs = xs @ ys \<and> pieceMatches Segment xs \<and> globMatch ps ys"
    proof (elim disjE conjE)
      assume "globMatch ps (r # rs)"
      then have "r # rs = [] @ (r # rs) \<and> pieceMatches Segment [] \<and> globMatch ps (r # rs)" by simp
      then show ?thesis by blast
    next
      assume 2: "r \<noteq> byteOf slash" "globMatch (Segment # ps) rs"
      with Cons obtain xs ys where "rs = xs @ ys" "byteOf slash \<notin> set xs" "globMatch ps ys" by auto
      with 2 have "r # rs = (r # xs) @ ys \<and> pieceMatches Segment (r # xs) \<and> globMatch ps ys" by simp
      then show ?thesis by blast
    qed
  qed (auto simp: globMatch.simps(5) [of ps "r # rs"] Cons Cons_eq_append_conv; blast)
qed (simp add: globMatch.simps(5))

lemma anyDepth_Cons:
  "globMatch (AnyDepth # ps) rs \<longleftrightarrow> (\<exists>xs ys. rs = xs @ ys \<and> pieceMatches AnyDepth xs \<and> globMatch ps ys)"
proof (induction rs)
  case (Cons r rs)
  show ?case
  proof
    assume "globMatch (AnyDepth # ps) (r # rs)"
    then have "globMatch ps (r # rs) \<or> r \<noteq> 10 \<and> globMatch (AnyDepth # ps) rs"
      by (simp add: globMatch.simps(6) [of ps "r # rs"] disj_commute)
    then show "\<exists>xs ys. r # rs = xs @ ys \<and> pieceMatches AnyDepth xs \<and> globMatch ps ys"
    proof (elim disjE conjE)
      assume "globMatch ps (r # rs)"
      then have "r # rs = [] @ (r # rs) \<and> pieceMatches AnyDepth [] \<and> globMatch ps (r # rs)" by simp
      then show ?thesis by blast
    next
      assume 2: "r \<noteq> 10" "globMatch (AnyDepth # ps) rs"
      with Cons obtain xs ys where "rs = xs @ ys" "10 \<notin> set xs" "globMatch ps ys" by auto
      with 2 have "r # rs = (r # xs) @ ys \<and> pieceMatches AnyDepth (r # xs) \<and> globMatch ps ys" by simp
      then show ?thesis by blast
    qed
  qed (auto simp: globMatch.simps(6) [of ps "r # rs"] Cons Cons_eq_append_conv; blast)
qed (simp add: globMatch.simps(6))

lemma globMatch_Cons:
  "globMatch (p # ps) rs \<longleftrightarrow> (\<exists>xs ys. rs = xs @ ys \<and> pieceMatches p xs \<and> globMatch ps ys)"
proof (cases p)
  case Segment
  then show ?thesis by (simp only: segment_Cons)
next
  case AnyDepth
  then show ?thesis by (simp only: anyDepth_Cons)
next
  case OptSlash
  have "(\<exists>xs ys. rs = xs @ ys \<and> (xs = [] \<or> xs = [byteOf slash]) \<and> globMatch ps ys)
      \<longleftrightarrow> globMatch ps rs \<or> (\<exists>ys. rs = byteOf slash # ys \<and> globMatch ps ys)"
    by (metis append_Cons append_Nil)
  with OptSlash show ?thesis by (cases rs) auto
next
  case (Literal c)
  then show ?thesis by (cases rs) auto
next
  case OneRune
  have "(\<exists>xs ys. rs = xs @ ys \<and> (\<exists>x. xs = [x] \<and> x \<noteq> byteOf slash) \<and> globMatch ps ys)
      \<longleftrightarrow> (\<exists>x ys. rs = x # ys \<and> x \<noteq> byteOf slash \<and> globMatch ps ys)"
    by (metis append_Cons append_Nil)
  with OneRune show ?thesis by (cases rs) auto
qed

lemma globMatch_pieces: "globMatch ps rs \<longleftrightarrow> (\<exists>xss. rs = concat xss \<and> list_all2 pieceMatches ps xss)"
proof (induction ps arbitrary: rs)
  case (Cons p ps)
  show ?case
  proof
    assume "globMatch (p # ps) rs"
    then obtain xs ys xss where "rs = xs @ ys" "pieceMatches p xs" "ys = concat xss" "list_all2 pieceMatches ps xss"
      using globMatch_Cons Cons by blast
    then show "\<exists>xss. rs = concat xss \<and> list_all2 pieceMatches (p # ps) xss"
      by (intro exI [of _ "xs # xss"]) simp
  next
    assume "\<exists>xss. rs = concat xss \<and> list_all2 pieceMatches (p # ps) xss"
    then show "globMatch (p # ps) rs" unfolding globMatch_Cons by (auto simp: list_all2_Cons1 Cons) blast
  qed
qed auto

text \<open>
  A glob matches exactly the texts that its pieces spell: the matcher agrees with the reading of the expression as a
  sequence of pieces, each matching a stretch of the text.
\<close>

theorem glob_reads_pieces:
  "matchesGlob pattern f = (\<exists>xss. runes f = concat xss \<and> list_all2 pieceMatches (globToRegexp pattern) xss)"
  by (simp add: matchesGlob_def globMatch_pieces)

text \<open>Without a double star a glob stays within the segments of its pattern.\<close>

definition shallow :: "globPiece \<Rightarrow> bool" where
  "shallow p \<longleftrightarrow> p \<noteq> AnyDepth \<and> p \<noteq> OptSlash"

lemma globToRegexp_shallow:
  "\<not> contains pattern ''**'' \<Longrightarrow> list_all shallow (globToRegexp pattern)
     \<and> count_list (globToRegexp pattern) (Literal (byteOf slash)) = count_list pattern slash"
proof (induction pattern rule: globToRegexp.induct)
  case (2 c s)
  show ?case
  proof (cases "c = CHR ''*''")
    case True
    then show ?thesis
    proof (cases s)
      case Nil
      with True show ?thesis by (simp add: shallow_def)
    next
      case (Cons d s1)
      with True "2.prems" have "d \<noteq> CHR ''*''" by (cases "d = CHR ''*''") (simp_all add: hasPrefix_def)
      with 2 True Cons show ?thesis by (auto simp: shallow_def)
    qed
  next
    case False
    moreover have "byteOf c = byteOf slash \<longleftrightarrow> c = slash" unfolding byteOf_def by (rule of_char_eq_iff)
    ultimately show ?thesis using 2 by (auto simp: shallow_def)
  qed
qed simp

lemma shallow_slashes:
  "list_all shallow ps \<Longrightarrow> list_all2 pieceMatches ps xss \<Longrightarrow>
     count_list (concat xss) (byteOf slash) = count_list ps (Literal (byteOf slash))"
proof (induction ps arbitrary: xss)
  case (Cons p ps)
  then obtain xs yss where x: "xss = xs # yss" "pieceMatches p xs" "list_all2 pieceMatches ps yss" by (auto simp: list_all2_Cons1)
  have "count_list xs (byteOf slash) = (if p = Literal (byteOf slash) then 1 else 0)"
    using x(2) Cons(2) by (cases p) (auto simp: shallow_def count_list_0_iff)
  with Cons x show ?case by simp
qed simp

theorem glob_within_segments:
  assumes "\<not> contains pattern ''**''" "matchesGlob pattern f"
  shows "count_list (runes f) (byteOf slash) = count_list pattern slash"
proof -
  from assms(2) obtain xss where "runes f = concat xss" "list_all2 pieceMatches (globToRegexp pattern) xss"
    unfolding matchesGlob_def globMatch_pieces by blast
  with globToRegexp_shallow [OF assms(1)] shallow_slashes [of "globToRegexp pattern" xss] show ?thesis by simp
qed

text \<open>A character outside ASCII is quoted byte by byte: such a pattern does not match itself.\<close>

lemma glob_misses_non_ascii: "\<not> matchesGlob [CHR 0xC3, CHR 0xA9] [CHR 0xC3, CHR 0xA9]"
  by code_simp

section \<open>Where results are stored\<close>

definition confinedPath :: "string \<Rightarrow> bool" where
  "confinedPath p \<longleftrightarrow> (\<exists>w. p = ToolResultsDirectory @ ''/'' @ w \<and> properComp w)"

lemma cleanStep_keep: "properComp w \<Longrightarrow> cleanStep r st w = w # st"
  by (simp add: properComp_def)

lemma pathJoin_results: "properComp w \<Longrightarrow> pathJoin ToolResultsDirectory w = ToolResultsDirectory @ ''/'' @ w"
proof -
  assume w: "properComp w"
  have "properComp ToolResultsDirectory" by (simp add: properComp_def ToolResultsDirectory_def)
  moreover have "slash \<notin> set w" "w \<noteq> []" using w by (simp_all add: properComp_def)
  ultimately show ?thesis using w
    by (simp add: pathJoin_def pathClean_def cleanComps_def splitOn_append splitOn_id properComp_def ToolResultsDirectory_def)
qed

lemma safeRune_slash: "safeRune r \<noteq> slash \<and> safeRune r \<noteq> CHR ''.''"
proof -
  have "char_of r \<noteq> slash \<and> char_of r \<noteq> CHR ''.''"
    if "asciiLower r \<or> asciiUpper r \<or> asciiDigit r \<or> r = byteOf (CHR ''-'') \<or> r = byteOf (CHR ''_'')"
  proof -
    from that have "r < 256 \<and> r \<noteq> byteOf slash \<and> r \<noteq> byteOf (CHR ''.'')"
      by (auto simp: asciiLower_def asciiUpper_def asciiDigit_def byteOf_def)
    then show ?thesis using byteOf_char_of [of r] by auto
  qed
  then show ?thesis by (simp add: safeRune_def)
qed

lemma safeResultFilename_safe:
  "safeResultFilename i \<noteq> []" "slash \<notin> set (safeResultFilename i)" "CHR ''.'' \<notin> set (safeResultFilename i)"
proof -
  have "\<forall>c \<in> set (safeResultFilename i). c \<noteq> slash \<and> c \<noteq> CHR ''.''"
    using safeRune_slash by (auto simp: safeResultFilename_def Let_def)
  then show "slash \<notin> set (safeResultFilename i)" "CHR ''.'' \<notin> set (safeResultFilename i)" by blast+
qed (simp add: safeResultFilename_def Let_def)

lemma confined_named:
  assumes "slash \<notin> set e"
  shows "confinedPath (pathJoin ToolResultsDirectory (safeResultFilename i @ e))"
proof -
  obtain c w where "safeResultFilename i = c # w" using safeResultFilename_safe(1) by (cases "safeResultFilename i") auto
  moreover then have "c \<noteq> CHR ''.''" using safeResultFilename_safe(3) [of i] by auto
  ultimately have "properComp (safeResultFilename i @ e)"
    using safeResultFilename_safe(2) [of i] assms by (auto simp: properComp_def)
  then show ?thesis by (auto simp: confinedPath_def pathJoin_results)
qed

lemma extension_safe: "slash \<notin> set (extensionForMIME u m)"
  by (simp add: extensionForMIME_def Let_def)

lemma itoa_safe: "slash \<notin> set (itoa (int n))"
proof
  assume "slash \<in> set (itoa (int n))"
  then have "isDigitByte slash" using decNat_digits [of n] by (auto simp: itoa_def list_all_iff)
  then show False by (simp add: isDigitByte_def byteOf_def)
qed

text \<open>What every write below \<open>tool-results\<close> keeps of the sandbox.\<close>

definition keptBelow :: "'b Sandbox \<Rightarrow> ('b \<Rightarrow> bool) \<Rightarrow> bool" where
  "keptBelow sb P \<longleftrightarrow> (\<forall>p c b. confinedPath p \<longrightarrow> P b \<longrightarrow> P (snd (sx_WriteFile sb p c b)))"

lemma keptBelowD: "keptBelow sb P \<Longrightarrow> sx_WriteFile sb p c b = (r, b') \<Longrightarrow> confinedPath p \<Longrightarrow> P b \<Longrightarrow> P b'"
  by (metis keptBelow_def snd_conv)

lemma serialized_extension: "serializeResult env content = Inr (s, e) \<Longrightarrow> e = ''.txt'' \<or> e = ''.json''"
  by (auto simp: serializeResult_def Let_def split: list.split_asm jval.split_asm if_split_asm option.split_asm sum.split_asm)

lemma MaterializeLargeResult_kept:
  assumes "MaterializeLargeResult env sb i result b = (r, b')" "keptBelow sb P" "P b"
  shows "P b'"
proof -
  have "confinedPath (pathJoin ToolResultsDirectory (safeResultFilename i @ e))" if "e = ''.txt'' \<or> e = ''.json''" for e
    using that by (auto intro: confined_named)
  with assms show ?thesis unfolding MaterializeLargeResult_def Let_def
    by (auto split: sum.split_asm prod.split_asm if_split_asm option.split_asm dest!: serialized_extension
        intro: keptBelowD [OF assms(2)])
qed

lemma persistMCPBase64_kept:
  assumes "persistMCPBase64 env sb i n kind block b = (r, b')" "keptBelow sb P" "P b"
  shows "P b'"
proof -
  have "confinedPath (pathJoin ToolResultsDirectory (safeResultFilename i @ ''-'' @ itoa (int n) @ extensionForMIME u m))" for u m
    using itoa_safe extension_safe by (intro confined_named) auto
  with assms show ?thesis unfolding persistMCPBase64_def Let_def
    by (auto split: sum.split_asm option.split_asm prod.split_asm intro: keptBelowD [OF assms(2)])
qed

lemma mcpBlock_kept:
  assumes "mcpBlock env sb i n block b = (r, b')" "keptBelow sb P" "P b"
  shows "P b'"
  using assms persistMCPBase64_kept [OF _ assms(2,3)] unfolding mcpBlock_def Let_def
  by (auto split: if_split_asm sum.split_asm prod.split_asm)

lemma mcpBlocks_kept:
  "mcpBlocks env sb i n blocks b = (r, b') \<Longrightarrow> keptBelow sb P \<Longrightarrow> P b \<Longrightarrow> P b'"
proof (induction env sb i n blocks b arbitrary: r b' rule: mcpBlocks.induct)
  case (3 env sb i n block blocks b)
  obtain q b1 where q: "mcpBlock env sb i n block b = (q, b1)" by (cases "mcpBlock env sb i n block b")
  have "P b1" using mcpBlock_kept [OF q] 3(3,4) by blast
  with 3 q show ?case by (auto split: sum.split_asm prod.split_asm)
qed simp_all

lemma rawMCPResult_kept:
  assumes "rawMCPResult env sb i raw b = (r, b')" "keptBelow sb P" "P b"
  shows "P b'"
proof -
  have "confinedPath (pathJoin ToolResultsDirectory (safeResultFilename i @ ''.mcp.json''))" by (rule confined_named) simp
  with assms show ?thesis unfolding rawMCPResult_def Let_def
    by (auto split: prod.split_asm if_split_asm option.split_asm intro: keptBelowD [OF assms(2)])
qed

text \<open>
  A text is inlined whole when it has at most 100,000 characters; a longer one is written whole to a file, which the
  text in its place names together with the length and the head of what it holds. The bytes of the answer itself are
  kept in the same two ways.
\<close>

definition materialized :: "'b Sandbox \<Rightarrow> string \<Rightarrow> string \<Rightarrow> 'b \<Rightarrow> 'b \<Rightarrow> bool" where
  "materialized sb full t b b' \<longleftrightarrow>
     int (runeCount full) \<le> 100000 \<and> t = full \<and> b' = b
     \<or> 100000 < int (runeCount full) \<and> (\<exists>p. confinedPath p \<and> sx_WriteFile sb p full b = (None, b')
         \<and> t = persistedMessage p (runeCount full) (truncateRunes full ResultPreviewChars))"

definition answerKept :: "'b Sandbox \<Rightarrow> string \<Rightarrow> string option \<Rightarrow> string \<Rightarrow> 'b \<Rightarrow> 'b \<Rightarrow> bool" where
  "answerKept sb answer kept p b b' \<longleftrightarrow>
     int (length answer) \<le> 100000 \<and> kept = Some answer \<and> p = [] \<and> b' = b
     \<or> 100000 < int (length answer) \<and> kept = None \<and> confinedPath p \<and> sx_WriteFile sb p answer b = (None, b')"

lemma MaterializeLargeResult_text:
  assumes "MaterializeLargeResult env sb i (toolText full e) b = (Inr result, b')"
  obtains t where "to_Content result = [JObj [(''type'', JStr ''text''), (''text'', JStr t)]]" "to_IsError result = e"
    "materialized sb full t b b'"
proof -
  let ?p = "pathJoin ToolResultsDirectory (safeResultFilename i @ ''.txt'')"
  let ?m = "persistedMessage ?p (runeCount full) (truncateRunes full ResultPreviewChars)"
  have p: "confinedPath ?p" by (rule confined_named) simp
  from assms consider
      "int (runeCount full) \<le> 100000" "result = toolText full e" "b' = b"
    | "100000 < int (runeCount full)" "sx_WriteFile sb ?p full b = (None, b')" "result = toolText ?m e"
    unfolding MaterializeLargeResult_def Let_def
    by (auto simp: serializeResult_def toolText_def jget_def Let_def MaxInlineResultChars_def
        split: if_split_asm prod.split_asm option.split_asm)
  then show thesis
  proof cases
    case 1
    then show ?thesis by (intro that [of full]) (simp_all add: toolText_def materialized_def)
  next
    case 2
    with p show ?thesis by (intro that [of ?m]) (auto simp: toolText_def materialized_def)
  qed
qed

lemma rawMCPResult_kept_whole:
  assumes "rawMCPResult env sb i answer b = (Inr (raw, p), b')"
  shows "answerKept sb answer raw p b b'"
proof -
  have "confinedPath (pathJoin ToolResultsDirectory (safeResultFilename i @ ''.mcp.json''))" by (rule confined_named) simp
  with assms show ?thesis unfolding rawMCPResult_def answerKept_def Let_def
    by (auto simp: MaxInlineResultChars_def split: prod.split_asm if_split_asm option.split_asm)
qed

lemma ProjectMCPResult_kept:
  assumes "ProjectMCPResult env sb i answer b = (r, b')" "keptBelow sb P" "P b"
  shows "P b'"
  using assms unfolding ProjectMCPResult_def
  by (auto split: sum.split_asm prod.split_asm dest!: mcpBlocks_kept [OF _ assms(2)]
      MaterializeLargeResult_kept [OF _ assms(2)] rawMCPResult_kept [OF _ assms(2)])

lemma ProjectMCPResult_InrE:
  assumes "ProjectMCPResult env sb i answer b = (Inr (result, raw, rawPath), b')"
  obtains blocks structured parts full b1 b2 where
    "te_Decode env (mr_Raw answer) = Inr (blocks, structured)" "mcpBlocks env sb i 0 blocks b = (Inr parts, b1)"
    "mcpText env parts structured = Inr full"
    "MaterializeLargeResult env sb i (toolText full (mr_IsError answer)) b1 = (Inr result, b2)"
    "rawMCPResult env sb i (mr_Raw answer) b2 = (Inr (raw, rawPath), b')"
  using assms unfolding ProjectMCPResult_def by (auto split: sum.split_asm prod.split_asm)

text \<open>
  C28. Results are stored below tool-results: whatever a server answers and however a call is named, projecting an answer
  writes only beneath that directory, so that it keeps everything of the sandbox that such writes keep. The text the
  model reads is what the blocks and the structured part of the answer say: whole when it has at most 100,000
  characters, and otherwise written whole to a file that the text read in its place names, with its length and its
  head. The answer's own bytes are kept beside it, in the result or, beyond 100,000 bytes, whole in a file of their own.
\<close>

theorem results_confined:
  assumes "ProjectMCPResult env sb i answer b = (r, b')" "keptBelow sb P" "P b"
  shows "P b' \<and> (\<forall>result raw rawPath. r = Inr (result, raw, rawPath) \<longrightarrow>
      (\<exists>blocks structured parts full t b1 b2. te_Decode env (mr_Raw answer) = Inr (blocks, structured)
        \<and> mcpBlocks env sb i 0 blocks b = (Inr parts, b1) \<and> mcpText env parts structured = Inr full
        \<and> to_Content result = [JObj [(''type'', JStr ''text''), (''text'', JStr t)]] \<and> to_IsError result = mr_IsError answer
        \<and> materialized sb full t b1 b2 \<and> answerKept sb (mr_Raw answer) raw rawPath b2 b'))"
proof (intro conjI allI impI)
  show "P b'" using assms by (rule ProjectMCPResult_kept)
next
  fix result raw rawPath assume "r = Inr (result, raw, rawPath)"
  with assms(1) have "ProjectMCPResult env sb i answer b = (Inr (result, raw, rawPath), b')" by simp
  then show "\<exists>blocks structured parts full t b1 b2. te_Decode env (mr_Raw answer) = Inr (blocks, structured)
      \<and> mcpBlocks env sb i 0 blocks b = (Inr parts, b1) \<and> mcpText env parts structured = Inr full
      \<and> to_Content result = [JObj [(''type'', JStr ''text''), (''text'', JStr t)]] \<and> to_IsError result = mr_IsError answer
      \<and> materialized sb full t b1 b2 \<and> answerKept sb (mr_Raw answer) raw rawPath b2 b'"
    by (elim ProjectMCPResult_InrE MaterializeLargeResult_text) (blast intro: rawMCPResult_kept_whole)
qed

text \<open>A sandbox that records the paths it was asked to write.\<close>

definition pathLog :: "string list Sandbox" where
  "pathLog = \<lparr>sx_Exec = \<lambda>_ b. (Inl ''no shell'', b), sx_ReadFile = \<lambda>_ b. (Inl ''no file'', b),
     sx_WriteFile = \<lambda>p _ b. (None, p # b)\<rparr>"

definition sampleToolEnv :: toolEnv where
  "sampleToolEnv = \<lparr>te_Indent = \<lambda>_. Inl ''not encodable'', te_Quote = id,
     te_Decode = \<lambda>_. Inr ([Inr [(''type'', JStr ''image''), (''data'', JStr ''AA=='')]], None), te_Base64 = \<lambda>s. Inr s,
     te_Tables = \<lparr>u_letter = \<lambda>_. False, u_digit = \<lambda>_. False, u_lower = id\<rparr>\<rparr>"

theorem results_confined_witness:
  "list_all confinedPath (snd (ProjectMCPResult sampleToolEnv pathLog ''../evil'' \<lparr>mr_Raw = [], mr_IsError = False\<rparr> []))"
proof -
  have "keptBelow pathLog (list_all confinedPath)" by (simp add: keptBelow_def pathLog_def)
  from results_confined [OF prod.collapse [symmetric] this, of "[]" sampleToolEnv "''../evil''"
      "\<lparr>mr_Raw = [], mr_IsError = False\<rparr>"] show ?thesis by simp
qed

lemma hostile_name_stored_safely:
  "snd (ProjectMCPResult sampleToolEnv pathLog ''../evil'' \<lparr>mr_Raw = [], mr_IsError = False\<rparr> [])
     = [''tool-results/___evil-0.bin'']"
  by code_simp

end
