(* ===== verification/ToolActivity.thy ===== *)
theory ToolActivity
  imports JournalSafety ToolRounds SandboxSpec Builtins
begin

text \<open>
  The activity that runs one tool step (\<open>ExecuteTool\<close> and its helpers in \<open>internal/temporal/activities.go\<close>). An
  execution is a sequence of transactions, any of which may be lost or commit without its acknowledgement, with at most
  one external effect between them. Executions of one step may overlap, crash anywhere and be delivered again; the step
  in the journal makes the effect happen at most once.
\<close>

section \<open>An execution\<close>

text \<open>What the caller sees of a transaction: the commit, an error and no commit, or an error although it committed.\<close>

datatype fate = Commits | Lost string | Unacknowledged string

datatype activityError = Failed storeError | Said string

text \<open>The one call of an execution that changes the world: a built-in tool, an MCP server, the advisor's model.\<close>

datatype effect = RunTool string payload | CallMCP MCPServer string payload | AskAdvisor Request

datatype process =
    Returns "activityError + ExecuteToolResult"
  | Transact "fate \<Rightarrow> time \<Rightarrow> books \<Rightarrow> process \<times> books"
  | Acts string effect process

definition attempt :: "fate \<Rightarrow> (books \<Rightarrow> storeError + 'a \<times> books) \<Rightarrow> books \<Rightarrow> (activityError + 'a) \<times> books" where
  "attempt f op b =
     (case f of
        Lost e \<Rightarrow> (Inl (Said e), b)
      | Unacknowledged e \<Rightarrow> (case op b of Inl _ \<Rightarrow> (Inl (Said e), b) | Inr (_, b1) \<Rightarrow> (Inl (Said e), b1))
      | Commits \<Rightarrow> (case op b of Inl e \<Rightarrow> (Inl (Failed e), b) | Inr (x, b1) \<Rightarrow> (Inr x, b1)))"

definition transact :: "(time \<Rightarrow> books \<Rightarrow> storeError + 'a \<times> books) \<Rightarrow> ('a \<Rightarrow> process) \<Rightarrow> process" where
  "transact op k =
     Transact (\<lambda>f now b. case attempt f (op now) b of (Inl e, b1) \<Rightarrow> (Returns (Inl e), b1) | (Inr x, b1) \<Rightarrow> (k x, b1))"

definition onJournal :: "(ledger \<Rightarrow> journal \<Rightarrow> storeError + 'a \<times> journal) \<Rightarrow> books \<Rightarrow> storeError + 'a \<times> books" where
  "onJournal op = (\<lambda>(l, us). bindE (op l (lg_Journal l)) (\<lambda>(x, j). Inr (x, (l\<lparr>lg_Journal := j\<rparr>, us))))"

text \<open>A result that is known is written up to \<open>toolResultWriteAttempts\<close> times, unless the time for it runs out.\<close>

definition toolResultWriteAttempts :: nat where "toolResultWriteAttempts = 3"

fun writeDurably :: "(time \<Rightarrow> books \<Rightarrow> storeError + unit \<times> books) \<Rightarrow> (nat \<Rightarrow> bool) \<Rightarrow> nat \<Rightarrow> process \<Rightarrow> process" where
  "writeDurably op waits left k =
     Transact (\<lambda>f now b. case attempt f (op now) b of
         (Inr _, b1) \<Rightarrow> (k, b1)
       | (Inl e, b1) \<Rightarrow> (case left of
             0 \<Rightarrow> (Returns (Inl e), b1)
           | Suc n \<Rightarrow> (if waits n then writeDurably op waits n k else Returns (Inl e), b1)))"

declare writeDurably.simps [simp del]

section \<open>The worker and its answers\<close>

text \<open>Of the pinned versions of a Skill only the names are read.\<close>

record SkillRuntime =
  sk_Root :: string
  sk_Versions :: "string list"

definition SkillPath :: "SkillRuntime \<Rightarrow> string \<Rightarrow> string" where
  "SkillPath r n = sk_Root r @ ''/'' @ n"

record 'b toolWorker =
  wk_Runtime :: toolRuntime
  wk_Spec :: specEnv
  wk_Env :: toolEnv
  wk_Provider :: providerEnv
  wk_Sandbox :: "'b Sandbox"
  wk_HasCoordinator :: bool
  wk_HasAdvisor :: bool
  wk_HasModel :: bool
  wk_HasSandboxes :: bool
  wk_HasMCP :: bool
  wk_HasSessionSkills :: bool
  wk_HasThreadSkills :: bool

datatype mcpAnswer = MCPUnauthenticated | MCPFailed string | MCPAnswered mcpResult

text \<open>
  What an execution hears from the outside. A refusal of the sandbox is a text and whether it is permanent;
  \<open>an_Box\<close> is the sandbox as the tool finds it; \<open>an_Waits\<close> tells which pauses before another write end in time.
\<close>

record 'b answers =
  an_Session :: "activityError + Session"
  an_Acquire :: "sandboxSpec \<Rightarrow> (string \<times> bool) option"
  an_Reconcile :: "(string \<times> bool) option"
  an_Lock :: "(string \<times> bool) option"
  an_SessionSkills :: "activityError + string list"
  an_ThreadSkills :: "activityError + SkillRuntime"
  an_Box :: 'b
  an_MCP :: mcpAnswer
  an_Model :: "string + Response"
  an_Cancelled :: bool
  an_Writeback :: "string option"
  an_Waits :: "nat \<Rightarrow> bool"

definition inputOf :: "ExecuteToolInput \<Rightarrow> payload" where
  "inputOf inp = (case xi_Input inp of None \<Rightarrow> [] | Some m \<Rightarrow> m)"

definition emptyStepResult :: ToolStepResult where
  "emptyStepResult = \<lparr>sr_Content = None, sr_IsError = False, sr_InjectedContent = None, sr_Events = None, sr_Raw = None,
     sr_RawPath = []\<rparr>"

definition emptyToolResult :: ExecuteToolResult where
  "emptyToolResult = \<lparr>xr_Result = emptyStepResult, xr_Events = [], xr_Ambiguous = False, xr_FatalError = []\<rparr>"

definition fatal :: "string \<Rightarrow> process" where
  "fatal message = Returns (Inr (emptyToolResult\<lparr>xr_FatalError := message\<rparr>))"

definition ambiguous :: process where
  "ambiguous = Returns (Inr (emptyToolResult\<lparr>xr_Ambiguous := True\<rparr>))"

definition workflowToolResult :: "ToolStepResult \<Rightarrow> ToolStepResult" where
  "workflowToolResult result = result\<lparr>sr_Raw := None, sr_RawPath := [], sr_Events := None\<rparr>"

section \<open>The result of a tool\<close>

definition advisorErrorResult :: "string \<Rightarrow> ToolStepResult" where
  "advisorErrorResult message = textResult message True"

definition mcpAuthenticationFailureEvent :: "MCPServer \<Rightarrow> EventDraft" where
  "mcpAuthenticationFailureEvent server = \<lparr>d_ID = [], d_Type = EvSessionError, d_Payload = [(''error'', JObj
     [(''type'', JStr ''mcp_authentication_failed_error''),
      (''message'', JStr (''Authentication failed for MCP server '' @ ms_Name server @ ''.'')),
      (''mcp_server_name'', JStr (ms_Name server)),
      (''retry_status'', JObj [(''type'', JStr ''exhausted'')])])]\<rparr>"

definition toolTimeNow :: "toolRuntime \<Rightarrow> time \<Rightarrow> toolRuntime" where
  "toolTimeNow r now = r\<lparr>tr_Runtime := (tr_Runtime r)\<lparr>rt_Now := now\<rparr>\<rparr>"

definition outcomeResult :: "string + toolOutcome \<Rightarrow> ToolStepResult" where
  "outcomeResult outcome =
     (case outcome of Inl e \<Rightarrow> textResult e True
      | Inr t \<Rightarrow> emptyStepResult\<lparr>sr_Content := Some (to_Content t), sr_IsError := to_IsError t\<rparr>)"

text \<open>A failed writeback is appended to the result, as an error.\<close>

definition writeback :: "string option \<Rightarrow> ToolStepResult \<Rightarrow> ToolStepResult" where
  "writeback failure result =
     (case failure of None \<Rightarrow> result
      | Some e \<Rightarrow> result\<lparr>sr_Content := Some (elems (sr_Content result) @ textContent (''Memory Store writeback failed: '' @ e)),
          sr_IsError := True\<rparr>)"

definition finishTool :: "'b toolWorker \<Rightarrow> 'b answers \<Rightarrow> string \<Rightarrow> EventDraft list \<Rightarrow> ToolStepResult \<Rightarrow> process" where
  "finishTool wk an stepID events result0 =
     (let result1 = writeback (an_Writeback an) result0;
          result = (if events = [] then result1 else result1\<lparr>sr_Events := Some events\<rparr>)
      in writeDurably (\<lambda>now. onJournal (\<lambda>_. CompleteToolStep (tr_RecodeResult (wk_Runtime wk)) (tr_Respace (wk_Runtime wk)) now stepID result))
           (an_Waits an) (toolResultWriteAttempts - 1)
           (Returns (Inr (emptyToolResult\<lparr>xr_Events := events, xr_Result := workflowToolResult result\<rparr>))))"

section \<open>Skills\<close>

definition skillRuntime :: "'b toolWorker \<Rightarrow> 'b answers \<Rightarrow> string \<Rightarrow> (activityError + SkillRuntime) option" where
  "skillRuntime wk an threadID =
     (if wk_HasThreadSkills wk \<and> threadID \<noteq> [] then Some (an_ThreadSkills an)
      else if wk_HasSessionSkills wk
      then Some (case an_SessionSkills an of
          Inl e \<Rightarrow> Inl e | Inr names \<Rightarrow> Inr \<lparr>sk_Root = SessionSkillsRoot, sk_Versions = names\<rparr>)
      else None)"

definition loadSkill :: "'b Sandbox \<Rightarrow> 'b \<Rightarrow> SkillRuntime \<Rightarrow> string \<Rightarrow> ToolStepResult" where
  "loadSkill sb box sk n =
     (case fst (sx_ReadFile sb (SkillPath sk n @ ''/SKILL.md'') box) of
        Inl e \<Rightarrow> textResult (''Skill: load failed: '' @ e) True
      | Inr body \<Rightarrow>
          if \<not> validUtf8 body then textResult ''Skill: SKILL.md is not valid UTF-8'' True
          else (textResult (''Launching skill: '' @ n) False)
                 \<lparr>sr_InjectedContent := Some [RuntimeSkillInjectionAt (sk_Root sk) n body]\<rparr>)"

definition runSkill :: "'b toolWorker \<Rightarrow> 'b answers \<Rightarrow> ExecuteToolInput \<Rightarrow> process" where
  "runSkill wk an inp =
     (let finish = finishTool wk an (xi_ToolStepID inp) []
      in case RuntimeSkillName (inputOf inp) of
           Inl e \<Rightarrow> finish (textResult e True)
         | Inr n \<Rightarrow>
             if xi_SkillAlreadyLoaded inp then finish (textResult (''Skill '' @ n @ '' is already loaded'') False)
             else (case skillRuntime wk an (xi_ThreadID inp) of
                 None \<Rightarrow> fatal ''custom Skill runtime metadata is unavailable''
               | Some (Inl e) \<Rightarrow> Returns (Inl e)
               | Some (Inr sk) \<Rightarrow>
                   if xi_SkillRuntimeRoot inp \<noteq> [] \<and> xi_SkillRuntimeRoot inp \<noteq> sk_Root sk
                   then fatal ''custom Skill runtime scope changed after turn preparation''
                   else if n \<notin> set (sk_Versions sk)
                   then finish (textResult (''Skill: unknown or unavailable Skill '' @ n) True)
                   else if \<not> hasPrefix (SkillPath sk n) (SessionSkillsRoot @ ''/'')
                   then fatal ''custom Skill runtime path is outside the Skill root''
                   else finish (loadSkill (wk_Sandbox wk) (an_Box an) sk n)))"

section \<open>Tools and MCP servers\<close>

definition runMCP :: "'b toolWorker \<Rightarrow> 'b answers \<Rightarrow> ExecuteToolInput \<Rightarrow> process" where
  "runMCP wk an inp =
     (let server = xi_MCPServer inp; finish = finishTool wk an (xi_ToolStepID inp)
      in Acts (xi_ToolStepID inp) (CallMCP server (xi_MCPToolName inp) (inputOf inp))
           (case an_MCP an of
              MCPUnauthenticated \<Rightarrow> finish [mcpAuthenticationFailureEvent server]
                (textResult (''Authentication failed for MCP server '' @ ms_Name server @ ''.'') True)
            | MCPFailed e \<Rightarrow> Returns (Inl (Said e))
            | MCPAnswered answer \<Rightarrow> finish []
                (case fst (ProjectMCPResult (wk_Env wk) (wk_Sandbox wk) (xi_ToolUseEventID inp) answer (an_Box an)) of
                   Inl e \<Rightarrow> textResult e True
                 | Inr (t, raw, rawPath) \<Rightarrow> (outcomeResult (Inr t))\<lparr>sr_Raw := raw, sr_RawPath := rawPath\<rparr>)))"

definition runBuiltin :: "'b toolWorker \<Rightarrow> 'b answers \<Rightarrow> ExecuteToolInput \<Rightarrow> 'b Executor \<Rightarrow> process" where
  "runBuiltin wk an inp executor =
     Acts (xi_ToolStepID inp) (RunTool (xi_ToolName inp) (inputOf inp))
       (let (executed, box) = executor (inputOf inp) (an_Box an)
        in finishTool wk an (xi_ToolStepID inp) []
             (outcomeResult (fst (MaterializeLargeResult (wk_Env wk) (wk_Sandbox wk) (xi_ToolUseEventID inp) executed box))))"

section \<open>Provisioning (before the step starts)\<close>

definition kindText :: "TurnToolKind \<Rightarrow> string" where
  "kindText kind = (case kind of TurnToolBuiltin \<Rightarrow> ''builtin'' | TurnToolCustom \<Rightarrow> ''custom'' | TurnToolMCP \<Rightarrow> ''mcp''
     | TurnToolSelfHosted \<Rightarrow> ''self_hosted'' | TurnToolRuntimeSkill \<Rightarrow> ''runtime_skill''
     | TurnToolCoordinator \<Rightarrow> ''coordinator'' | TurnToolAdvisor \<Rightarrow> ''advisor'')"

text \<open>What runs the tool, or why it cannot run here.\<close>

definition ownerOf :: "'b toolWorker \<Rightarrow> 'b answers \<Rightarrow> ExecuteToolInput \<Rightarrow> string + process" where
  "ownerOf wk an inp =
     (case xi_ToolKind inp of
        TurnToolBuiltin \<Rightarrow> (case map_of (Registry (wk_Sandbox wk)) (xi_ToolName inp) of
            None \<Rightarrow> Inl (''built-in tool is not registered: '' @ xi_ToolName inp)
          | Some executor \<Rightarrow> Inr (runBuiltin wk an inp executor))
      | TurnToolMCP \<Rightarrow>
          if \<not> wk_HasMCP wk \<or> ms_Name (xi_MCPServer inp) = [] \<or> ms_URL (xi_MCPServer inp) = [] \<or> xi_MCPToolName inp = []
          then Inl ''MCP tool execution is missing its pinned server definition'' else Inr (runMCP wk an inp)
      | TurnToolRuntimeSkill \<Rightarrow>
          if \<not> wk_HasSessionSkills wk \<and> \<not> wk_HasThreadSkills wk
          then Inl ''custom Skill runtime metadata is unavailable'' else Inr (runSkill wk an inp)
      | kind \<Rightarrow> Inl (''tool execution owner is not server-executable: '' @ kindText kind))"

definition boxRefusal :: "string \<times> bool \<Rightarrow> process" where
  "boxRefusal = (\<lambda>(message, permanent). if permanent then fatal message else Returns (Inl (Said message)))"

definition afterRefusals :: "(string \<times> bool) option list \<Rightarrow> process \<Rightarrow> process" where
  "afterRefusals refusals k = (case map_option the (find (\<lambda>a. a \<noteq> None) refusals) of None \<Rightarrow> k | Some a \<Rightarrow> boxRefusal a)"

definition provisionAndRun :: "'b toolWorker \<Rightarrow> 'b answers \<Rightarrow> bool \<Rightarrow> ExecuteToolInput \<Rightarrow> process" where
  "provisionAndRun wk an retrySafeStarted inp =
     (if \<not> wk_HasSandboxes wk then Returns (Inl (Said ''temporal: sandbox tool execution requires a sandbox''))
      else (case ownerOf wk an inp of
        Inl message \<Rightarrow> fatal message
      | Inr run \<Rightarrow> (case an_Session an of
          Inl e \<Rightarrow> Returns (Inl e)
        | Inr session \<Rightarrow> (case sandboxSpecForSession (wk_Spec wk) session of
            Inl e \<Rightarrow> Returns (Inl (Failed (Refused e)))
          | Inr spec \<Rightarrow>
              afterRefusals [an_Acquire an spec, an_Reconcile an, an_Lock an]
                (if retrySafeStarted then run
                 else transact (\<lambda>now. onJournal (\<lambda>_. StartToolStep now (xi_ToolStepID inp))) (\<lambda>_. run))))))"

section \<open>The coordinator's tools and the advisor\<close>

definition runCoordinator :: "'b toolWorker \<Rightarrow> ExecuteToolInput \<Rightarrow> process" where
  "runCoordinator wk inp =
     (if \<not> wk_HasCoordinator wk
      then Returns (Inl (Said ''temporal: event source cannot execute coordinator tools''))
      else transact (\<lambda>now (l, us). bindE (ExecuteCoordinatorToolStep (toolTimeNow (wk_Runtime wk) now) (xi_ThreadID inp)
               (xi_TriggerEventID inp) (xi_ToolStepID inp) (xi_ToolName inp) (xi_Input inp) l)
               (\<lambda>(done, l1). Inr (cx_Result done, (l1, us))))
             (\<lambda>result. Returns (Inr (emptyToolResult\<lparr>xr_Result := workflowToolResult result\<rparr>))))"

definition completeAdvisorToolStep ::
    "'b toolWorker \<Rightarrow> 'b answers \<Rightarrow> ExecuteToolInput \<Rightarrow> ToolStepResult \<Rightarrow> AdvisorConsultation \<Rightarrow> process" where
  "completeAdvisorToolStep wk an inp result c =
     (if \<not> wk_HasAdvisor wk then Returns (Inl (Said ''temporal: advisor persistence is not configured''))
      else writeDurably (\<lambda>now b. bindE (CompleteAdvisorToolStep (toolTimeNow (wk_Runtime wk) now) (xi_ThreadID inp)
               (xi_TriggerEventID inp) (xi_ToolStepID inp) result c b) (\<lambda>b1. Inr ((), b1)))
             (an_Waits an) (toolResultWriteAttempts - 1)
             (Returns (Inr (emptyToolResult\<lparr>xr_Result := workflowToolResult result\<rparr>))))"

definition emptyConsultation :: AdvisorConsultation where
  "emptyConsultation = \<lparr>ac_ThreadID = [], ac_UsageRequestID = [], ac_LifecycleIDs = [], ac_Model = [], ac_UsageModel = [],
     ac_Usage = zeroUsage, ac_UsageKnown = False, ac_StopReason = [], ac_PublicContent = None, ac_AdviceDelivered = False\<rparr>"

definition advisorInterrupted :: string where
  "advisorInterrupted = ''Advisor execution was interrupted after the model request began; the request will not be repeated to avoid duplicate usage.''"

definition interruptAdvisor :: "'b toolWorker \<Rightarrow> 'b answers \<Rightarrow> ExecuteToolInput \<Rightarrow> process" where
  "interruptAdvisor wk an inp =
     completeAdvisorToolStep wk an inp (advisorErrorResult advisorInterrupted)
       ((case xi_Advisor inp of None \<Rightarrow> emptyConsultation | Some (_, c) \<Rightarrow> c)
          \<lparr>ac_StopReason := ''interrupted'', ac_UsageKnown := False\<rparr>)"

text \<open>What the model's answer, or its absence, is recorded as.\<close>

definition adviceOf :: "'b answers \<Rightarrow> AdvisorConsultation \<Rightarrow> ToolStepResult \<times> AdvisorConsultation" where
  "adviceOf an c =
     (case an_Model an of
        Inl e \<Rightarrow>
          if an_Cancelled an
          then (advisorErrorResult advisorInterrupted, c\<lparr>ac_StopReason := ''interrupted'', ac_UsageKnown := False\<rparr>)
          else (advisorErrorResult (''Advisor request failed: '' @ e), c\<lparr>ac_StopReason := ''error'', ac_UsageKnown := False\<rparr>)
      | Inr response \<Rightarrow>
          (let content = TextBlocksToContent (rp_Content response);
               c1 = c\<lparr>ac_Usage := rp_Usage response, ac_UsageKnown := True, ac_StopReason := rp_StopReason response,
                 ac_PublicContent := Some content\<rparr>
           in if trimSpace (FlattenResultText content) = []
              then (advisorErrorResult ''Advisor returned no review text.'', c1)
              else (emptyStepResult\<lparr>sr_Content := Some content\<rparr>, c1\<lparr>ac_AdviceDelivered := True\<rparr>)))"

definition executeAdvisorTool :: "'b toolWorker \<Rightarrow> 'b answers \<Rightarrow> ExecuteToolInput \<Rightarrow> process" where
  "executeAdvisorTool wk an inp =
     (if \<not> wk_HasModel wk then Returns (Inl (Said ''temporal: advisor requires a model client''))
      else
        (let incomplete = Returns (Inl (Failed (Refused (Validation ''advisor execution metadata is incomplete''))))
         in case xi_Advisor inp of
              None \<Rightarrow> incomplete
            | Some (request, c0) \<Rightarrow>
                if trimSpace (rq_Model request) = [] \<or> trimSpace (ac_ThreadID c0) = [] \<or> length (ac_LifecycleIDs c0) \<noteq> 9
                then incomplete
                else transact (\<lambda>now. onJournal (\<lambda>_. StartToolStep now (xi_ToolStepID inp))) (\<lambda>_.
                  let c = c0\<lparr>ac_Model := rq_Model request, ac_UsageModel := rq_Model request\<rparr>
                  in case prepareRequestContext (wk_Provider wk) request False 0 of
                       Inl e \<Rightarrow> completeAdvisorToolStep wk an inp
                         (advisorErrorResult (''Advisor request was too large: '' @ e))
                         (c\<lparr>ac_StopReason := ''context_limit'', ac_UsageKnown := False\<rparr>)
                     | Inr prepared \<Rightarrow>
                         (let sent = pc_Request prepared;
                              (result, told) = adviceOf an (c\<lparr>ac_Model := rq_Model sent, ac_UsageModel := rq_Model sent\<rparr>)
                          in Acts (xi_ToolStepID inp) (AskAdvisor sent) (completeAdvisorToolStep wk an inp result told)))))"

section \<open>The activity\<close>

definition prepared :: "'b toolWorker \<Rightarrow> 'b answers \<Rightarrow> ExecuteToolInput \<Rightarrow> process" where
  "prepared wk an inp =
     (if xi_ToolKind inp = TurnToolCoordinator then runCoordinator wk inp
      else if xi_ToolKind inp = TurnToolAdvisor then executeAdvisorTool wk an inp
      else provisionAndRun wk an False inp)"

text \<open>
  A step that was started without a result is not run again: the advisor records that it was interrupted, a Skill,
  which only reads, is read again, and everything else is ambiguous.
\<close>

definition started :: "'b toolWorker \<Rightarrow> 'b answers \<Rightarrow> ExecuteToolInput \<Rightarrow> process" where
  "started wk an inp =
     (if xi_ToolKind inp = TurnToolAdvisor then interruptAdvisor wk an inp
      else if xi_ToolKind inp = TurnToolRuntimeSkill then provisionAndRun wk an True inp
      else transact (\<lambda>now. onJournal (\<lambda>_. MarkToolStepAmbiguous now (xi_ToolStepID inp))) (\<lambda>_. ambiguous))"

definition onStep :: "'b toolWorker \<Rightarrow> 'b answers \<Rightarrow> ExecuteToolInput \<Rightarrow> ToolStep \<Rightarrow> process" where
  "onStep wk an inp step =
     (case ts_State step of
        ToolStepCompleted \<Rightarrow> (case ts_Result step of
            None \<Rightarrow> Returns (Inl (Said (''temporal: completed tool step '' @ ts_ID step @ '' has no result'')))
          | Some result \<Rightarrow> Returns (Inr (emptyToolResult\<lparr>xr_Events := elems (sr_Events result),
              xr_Result := workflowToolResult result\<rparr>)))
      | ToolStepAmbiguous \<Rightarrow> ambiguous
      | ToolStepStarted \<Rightarrow> started wk an inp
      | ToolStepPrepared \<Rightarrow> prepared wk an inp)"

definition ExecuteTool :: "'b toolWorker \<Rightarrow> 'b answers \<Rightarrow> ExecuteToolInput \<Rightarrow> process" where
  "ExecuteTool wk an inp =
     transact (\<lambda>now. onJournal (\<lambda>l. EnsureAttempt now (s_ID (lg_Session l)) (xi_TriggerEventID inp) (xi_AttemptID inp))) (\<lambda>_.
     transact (\<lambda>now. onJournal (\<lambda>_. EnsureToolStep (rt_Recode (tr_Runtime (wk_Runtime wk))) now (xi_AttemptID inp)
         (xi_ToolStepID inp) (xi_Ordinal inp) (xi_ToolUseEventID inp) (xi_ToolName inp) (xi_Input inp)))
       (onStep wk an inp))"

end
