(* ===== verification/ToolSafety.thy ===== *)
theory ToolSafety
  imports ToolActivity
begin

text \<open>
  A pool of executions of \<open>ExecuteTool\<close> beside every other transaction on the journal. Two predicates on executions, each
  proved for every input and answer, carry the results: an execution \<open>behaves\<close> if it acts only right after the
  transaction with which it entered its step, and it is \<open>honest\<close> if it tells no result that is not recorded.
\<close>

section \<open>Executions side by side\<close>

text \<open>
  Any number of executions of any steps, with workers, inputs and answers of their own, beside every other transaction
  on the journal. An execution may be delivered again at any time and may vanish at any time.
\<close>

record pool =
  po_Books :: books
  po_Running :: "(string \<times> process) multiset"
  po_Effects :: "(string \<times> effect) list"
  po_Answers :: "(string \<times> ExecuteToolResult) list"

definition journalOf :: "books \<Rightarrow> journal" where
  "journalOf b = lg_Journal (fst b)"

inductive poolStep :: "'b toolWorker set \<Rightarrow> pool \<Rightarrow> pool \<Rightarrow> bool" for workers where
  deliver:
    "wk \<in> workers \<Longrightarrow> poolStep workers s (s\<lparr>po_Running := add_mset (xi_ToolStepID inp, ExecuteTool wk an inp) (po_Running s)\<rparr>)"
| transaction:
    "\<lbrakk>po_Running s = add_mset (j, Transact f) others; f fate now (po_Books s) = (p, b)\<rbrakk> \<Longrightarrow>
      poolStep workers s (s\<lparr>po_Books := b, po_Running := add_mset (j, p) others\<rparr>)"
| act:
    "po_Running s = add_mset (j, Acts i e p) others \<Longrightarrow>
      poolStep workers s (s\<lparr>po_Running := add_mset (j, p) others, po_Effects := (i, e) # po_Effects s\<rparr>)"
| answer:
    "po_Running s = add_mset (j, Returns (Inr x)) others \<Longrightarrow>
      poolStep workers s (s\<lparr>po_Running := others, po_Answers := (j, x) # po_Answers s\<rparr>)"
| vanish:
    "po_Running s = add_mset (j, p) others \<Longrightarrow> poolStep workers s (s\<lparr>po_Running := others\<rparr>)"
| elsewhere:
    "change\<^sup>*\<^sup>* (journalOf (po_Books s)) (journalOf b) \<Longrightarrow> poolStep workers s (s\<lparr>po_Books := b\<rparr>)"

definition idlePool :: "books \<Rightarrow> pool" where
  "idlePool b = \<lparr>po_Books = b, po_Running = {#}, po_Effects = [], po_Answers = []\<rparr>"

definition crossedStep :: "string \<Rightarrow> journal \<Rightarrow> bool" where
  "crossedStep j s \<longleftrightarrow> (\<exists>t \<in> set (jn_Steps s). ts_ID t = j \<and> crossed t)"

lemma change_crossed: "change s s' \<Longrightarrow> crossedStep j s \<Longrightarrow> crossedStep j s'"
proof (induction rule: change.induct)
  case (attempt_added row s s')
  then show ?case by (auto simp: crossedStep_def InsertTurnAttempt_def Let_def split: if_split_asm)
next
  case (step_added step s s')
  then show ?case by (auto simp: crossedStep_def InsertToolStep_def split: if_split_asm)
next
  case (steps_moved s p f)
  from steps_moved(2) obtain t where t: "t \<in> set (jn_Steps s)" "ts_ID t = j" "crossed t" by (auto simp: crossedStep_def)
  let ?t = "if p t then f t else t"
  have "ts_ID ?t = j \<and> crossed ?t"
    using steps_moved(1) t by (auto simp: stepMoves_def sameKeys_def crossed_def)
  moreover have "?t \<in> set (updateWhere p f (jn_Steps s))" using t(1) by (auto simp: updateWhere_map)
  ultimately show ?case by (auto simp: crossedStep_def)
qed (simp add: crossedStep_def)

lemma changes_crossed: "change\<^sup>*\<^sup>* s s' \<Longrightarrow> crossedStep j s \<Longrightarrow> crossedStep j s'"
  by (induction rule: rtranclp_induct) (auto intro: change_crossed)

section \<open>A step is entered once\<close>

text \<open>
  An execution of step \<open>j\<close> that behaves: its transactions move the journal, and it may act (once) only right after a
  transaction of its own that crossed the boundary of the step.
\<close>

inductive behaves :: "string \<Rightarrow> bool \<Rightarrow> process \<Rightarrow> bool" where
  returns: "behaves j h (Returns r)"
| acts: "behaves j False p \<Longrightarrow> behaves j True (Acts j e p)"
| transacts:
    "(\<And>fate now b p b'. f fate now b = (p, b') \<Longrightarrow> jinv (journalOf b) \<Longrightarrow>
        change\<^sup>*\<^sup>* (journalOf b) (journalOf b')
        \<and> (\<exists>h'. behaves j h' p \<and> (h' \<longrightarrow> \<not> crossedStep j (journalOf b) \<and> crossedStep j (journalOf b')))) \<Longrightarrow>
      behaves j h (Transact f)"

inductive_cases behaves_actsE: "behaves j h (Acts i e p)"
inductive_cases behaves_transactsE: "behaves j h (Transact f)"

definition moves :: "(books \<Rightarrow> storeError + 'a \<times> books) \<Rightarrow> bool" where
  "moves op \<longleftrightarrow> (\<forall>b x b'. op b = Inr (x, b') \<longrightarrow> jinv (journalOf b) \<longrightarrow> change\<^sup>*\<^sup>* (journalOf b) (journalOf b'))"

lemma movesD: "moves op \<Longrightarrow> op b = Inr (x, b') \<Longrightarrow> jinv (journalOf b) \<Longrightarrow> change\<^sup>*\<^sup>* (journalOf b) (journalOf b')"
  unfolding moves_def by blast

lemma attempt_cases:
  assumes "attempt f op b = (r, b')"
  obtains e where "r = Inl e" "b' = b" | e x where "r = Inl e" "op b = Inr (x, b')" | x where "r = Inr x" "op b = Inr (x, b')"
  using assms by (auto simp: attempt_def split: fate.split_asm sum.split_asm prod.split_asm)

lemma attempt_moves: "attempt f op b = (r, b') \<Longrightarrow> moves op \<Longrightarrow> jinv (journalOf b) \<Longrightarrow> change\<^sup>*\<^sup>* (journalOf b) (journalOf b')"
  by (erule attempt_cases) (simp, (erule (2) movesD)+)

lemma behaves_transact:
  assumes "\<And>now. moves (op now)"
    and "\<And>now b x b'. op now b = Inr (x, b') \<Longrightarrow> jinv (journalOf b) \<Longrightarrow>
      \<exists>h'. behaves j h' (k x) \<and> (h' \<longrightarrow> \<not> crossedStep j (journalOf b) \<and> crossedStep j (journalOf b'))"
  shows "behaves j h (transact op k)"
  unfolding transact_def
proof (rule behaves.transacts)
  fix fate now b p b'
  assume r: "(case attempt fate (op now) b of (Inl e, b1) \<Rightarrow> (Returns (Inl e), b1) | (Inr x, b1) \<Rightarrow> (k x, b1)) = (p, b')"
    and inv: "jinv (journalOf b)"
  obtain o1 b1 where a: "attempt fate (op now) b = (o1, b1)" by (cases "attempt fate (op now) b")
  have move: "change\<^sup>*\<^sup>* (journalOf b) (journalOf b1)" by (rule attempt_moves [OF a assms(1) inv])
  show "change\<^sup>*\<^sup>* (journalOf b) (journalOf b')
        \<and> (\<exists>h'. behaves j h' p \<and> (h' \<longrightarrow> \<not> crossedStep j (journalOf b) \<and> crossedStep j (journalOf b')))"
  proof (cases o1)
    case (Inl e)
    with a r move show ?thesis by (auto intro: behaves.returns exI [of _ False])
  next
    case (Inr x)
    with a have "op now b = Inr (x, b1)" by (auto elim: attempt_cases)
    from assms(2) [OF this inv] a r Inr move show ?thesis by simp
  qed
qed

lemma behaves_writeDurably:
  assumes "\<And>now. moves (op now)" "behaves j False k"
  shows "behaves j h (writeDurably op waits n k)"
proof (induction n arbitrary: h)
  case 0
  show ?case unfolding writeDurably.simps [of _ _ 0]
    using assms by (intro behaves.transacts) (auto split: prod.split_asm sum.split_asm dest: attempt_moves intro: behaves.returns)
next
  case (Suc n)
  then show ?case unfolding writeDurably.simps [of _ _ "Suc n"]
    using assms by (intro behaves.transacts)
      (auto split: prod.split_asm sum.split_asm if_split_asm dest: attempt_moves intro: behaves.returns)
qed

section \<open>The transactions move the journal\<close>

lemma insertThread_journal: "insertThread k t l = Inr l' \<Longrightarrow> lg_Journal l' = lg_Journal l"
  by (auto simp: insertThread_def split: if_split_asm)

lemma putSessionThreadTx_journal: "putSessionThreadTx t l = Inr l' \<Longrightarrow> lg_Journal l' = lg_Journal l"
  by (auto simp: putSessionThreadTx_def split: if_split_asm)

lemma appendThreadDrafts_journal:
  "appendThreadDrafts r i ds seq turn l = Inr (es, n, l') \<Longrightarrow> lg_Journal l' = lg_Journal l"
proof (induction ds arbitrary: seq l es n l')
  case (Cons d ds)
  then show ?case
    by (auto simp: Let_def InsertEvent_def NewID_def bindE_Inr_iff split: option.split_asm if_split_asm prod.split_asm)
qed simp

lemma appendRows_journal: "appendRows r rows seq l = Inr (n, l') \<Longrightarrow> lg_Journal l' = lg_Journal l"
  by (induction r rows seq l arbitrary: n l' rule: appendRows.induct)
    (auto elim!: bindE_chain simp del: appendThreadDrafts.simps dest!: appendThreadDrafts_journal)

lemmas unmoved = insertThread_journal putSessionThreadTx_journal appendThreadDrafts_journal appendRows_journal

lemma startsChild_journal: "startsChild r p turn name child n l = Inr (m, l') \<Longrightarrow> lg_Journal l' = lg_Journal l"
  unfolding startsChild_def Let_def
  by (auto elim!: bindE_chain simp del: appendThreadDrafts.simps split: if_split_asm dest!: unmoved)

lemma deliverToChild_journal:
  "deliverToChild r session p turn inp created child l = Inr (x, l') \<Longrightarrow> lg_Journal l' = lg_Journal l"
  unfolding deliverToChild_def Let_def putSessionOnly_def
  by (auto elim!: bindE_chain simp del: appendThreadDrafts.simps split: if_split_asm dest!: unmoved startsChild_journal)

lemma targetThread_journal: "targetThread r session p member inp l = Inr (Inr (child, l')) \<Longrightarrow> lg_Journal l' = lg_Journal l"
  by (auto simp: targetThread_def newChild_def NewID_def Let_def split: if_splits sum.splits storeError.splits)

lemma coordinatorAction_journal:
  "coordinatorAction r session p turn name inp l = Inr (x, l') \<Longrightarrow> lg_Journal l' = lg_Journal l"
  unfolding coordinatorAction_def executeSendToAgentLocked_def Let_def
  by (auto elim!: bindE_chain split: if_split_asm option.split_asm sum.split_asm prod.split_asm
      dest!: deliverToChild_journal targetThread_journal)

lemma recordConsultation_journal:
  "recordConsultation r session configured p turn c b = Inr (session', b') \<Longrightarrow> journalOf b' = journalOf b"
  unfolding recordConsultation_def Let_def journalOf_def MarkEventProcessed_def
  by (auto elim!: bindE_chain split: if_split_asm prod.split_asm dest!: unmoved)

lemma moves_onJournal:
  assumes "\<And>l s x s'. op l s = Inr (x, s') \<Longrightarrow> jinv s \<Longrightarrow> change\<^sup>*\<^sup>* s s'"
  shows "moves (onJournal op)"
  unfolding moves_def onJournal_def journalOf_def using assms by (auto simp: bindE_Inr_iff)

lemma moves_journal_ops:
  "moves (onJournal (\<lambda>l. EnsureAttempt now (s_ID (lg_Session l)) e i))"
  "moves (onJournal (\<lambda>_. EnsureToolStep recode now i j n ev name inp))"
  "moves (onJournal (\<lambda>_. StartToolStep now j))"
  "moves (onJournal (\<lambda>_. MarkToolStepAmbiguous now j))"
  "moves (onJournal (\<lambda>_. CompleteToolStep recodeR respace now j result))"
  by (rule moves_onJournal; blast dest: EnsureAttempt_change EnsureToolStep_change StartToolStep_change
      MarkToolStepAmbiguous_change CompleteToolStep_change intro: r_into_rtranclp)+

lemma ExecuteCoordinatorToolStep_change:
  assumes "ExecuteCoordinatorToolStep r p turn j name inp l = Inr (x, l')" "jinv (lg_Journal l)"
  shows "change\<^sup>*\<^sup>* (lg_Journal l) (lg_Journal l')"
proof -
  have "change\<^sup>*\<^sup>* s s'" if "lockCoordinatorToolStep j s = Inr (att, t)" "jinv s"
      "CompletePreparedToolStepRow stored now j s = (Suc 0, s')" for att t s stored now s'
    using coordinator_change [OF that(1) _ that(3)] that(2) by (auto simp: jinv_def)
  with assms show ?thesis
    unfolding ExecuteCoordinatorToolStep_def Let_def
    by (auto elim!: bindE_chain split: if_split_asm option.split_asm prod.split_asm dest!: coordinatorAction_journal
        simp del: deepEq.simps)
qed

lemma completeAdvisorRow_change: "completeAdvisorRow respace result now j s = Inr s' \<Longrightarrow> change s s'"
proof -
  assume "completeAdvisorRow respace result now j s = Inr s'"
  then obtain n where "CompleteToolStepRow (jsonbResult respace result) now j s = (n, s')"
    by (auto simp: completeAdvisorRow_def elim!: bindE_chain split: if_split_asm option.split_asm prod.split_asm)
  from setSteps_change [OF this [unfolded CompleteToolStepRow_def]] show ?thesis by (auto simp: move_defs)
qed

lemma CompleteAdvisorToolStep_row:
  assumes "CompleteAdvisorToolStep r p turn j result c b = Inr b'"
  obtains stored now where "tr_RecodeResult r result = Some stored"
    "completeAdvisorRow (tr_Respace r) stored now j (journalOf b) = Inr (journalOf b')"
proof -
  obtain l us where b: "b = (l, us)" by (cases b)
  from assms obtain stored d d' e session configured session1 l1 us' s2 j' where
    stored: "tr_RecodeResult r result = Some stored" and
    1: "(if d then recordConsultation r session configured p turn c b
         else if d' then Inl e else Inr (session, b)) = Inr (session1, (l1, us'))" and
    2: "completeAdvisorRow (tr_Respace r) stored (truncMicros (rt_Now (tr_Runtime r))) j (lg_Journal l1) = Inr j'"
      "b' = ((putSessionOnly s2 l1)\<lparr>lg_Journal := j'\<rparr>, us')"
    unfolding CompleteAdvisorToolStep_def Let_def b
    by (auto elim!: bindE_chain simp: if_Inl split: option.split_asm split del: if_split)
  have "lg_Journal l1 = journalOf b"
    using 1 recordConsultation_journal [of r session configured p turn c b session1 "(l1, us')"]
    by (auto simp: journalOf_def split: if_split_asm)
  with 2 stored show ?thesis by (intro that) (simp_all add: journalOf_def)
qed

section \<open>Every execution behaves\<close>

lemma moves_coordinator:
  "moves (\<lambda>(l, us). bindE (ExecuteCoordinatorToolStep r p turn j name inp l) (\<lambda>(d, l1). Inr (cx_Result d, (l1, us))))"
  unfolding moves_def journalOf_def by (auto simp: bindE_Inr_iff dest: ExecuteCoordinatorToolStep_change)

lemma moves_advisor: "moves (\<lambda>b. bindE (CompleteAdvisorToolStep r p turn j result c b) (\<lambda>b1. Inr ((), b1)))"
  unfolding moves_def
  by (auto elim!: bindE_chain CompleteAdvisorToolStep_row intro: r_into_rtranclp completeAdvisorRow_change)

lemma StartToolStep_crosses:
  assumes "onJournal (\<lambda>_. StartToolStep now j) b = Inr (x, b')" "jinv (journalOf b)"
  shows "\<not> crossedStep j (journalOf b) \<and> crossedStep j (journalOf b')"
proof -
  let ?p = "\<lambda>t. ts_ID t = j \<and> ts_State t = ToolStepPrepared
     \<and> list_ex (\<lambda>a. ta_ID a = ts_AttemptID t \<and> ta_State a = RunAttemptActive) (jn_Attempts (journalOf b))"
  let ?f = "\<lambda>t. t\<lparr>ts_State := ToolStepStarted, ts_StartedAt := Some now, ts_UpdatedAt := now\<rparr>"
  from assms(1) have one: "affected ?p (jn_Steps (journalOf b)) = 1"
    and s': "jn_Steps (journalOf b') = updateWhere ?p ?f (jn_Steps (journalOf b))"
    by (auto simp: onJournal_def bindE_Inr_iff journalOf_def StartToolStep_def StartToolStepRow_def setSteps_def Let_def
        split: option.split_asm if_split_asm prod.split_asm)
  then obtain t where t: "t \<in> set (jn_Steps (journalOf b))" "?p t" using affected_pos [of ?p "jn_Steps (journalOf b)"] by auto
  have "u = t" if "u \<in> set (jn_Steps (journalOf b))" "ts_ID u = j" for u
    using GetToolStep_key [of "journalOf b"] that t assms(2) by (metis jinv_def option.inject)
  then have "\<not> crossed u" if "u \<in> set (jn_Steps (journalOf b))" "ts_ID u = j" for u
    using that t(2) by (simp add: crossed_def)
  then have "\<not> crossedStep j (journalOf b)" by (auto simp: crossedStep_def)
  moreover have "?f t \<in> set (jn_Steps (journalOf b'))" unfolding s' updateWhere_map using t by force
  with t(2) have "crossedStep j (journalOf b')" unfolding crossedStep_def by (intro bexI [of _ "?f t"]) (simp_all add: crossed_def)
  ultimately show ?thesis by blast
qed

abbreviation quiet :: "string \<Rightarrow> process \<Rightarrow> bool" where
  "quiet j p \<equiv> behaves j False p"

lemma quiet_ends [simp]: "behaves j h (Returns r)" "behaves j h (fatal m)" "behaves j h ambiguous"
  by (simp_all add: fatal_def ambiguous_def behaves.returns)

lemma behaves_finishTool: "behaves j h (finishTool wk an i events result)"
  unfolding finishTool_def Let_def by (rule behaves_writeDurably) (simp_all add: moves_journal_ops)

lemma behaves_completeAdvisor: "behaves j h (completeAdvisorToolStep wk an inp result c)"
  unfolding completeAdvisorToolStep_def by (auto intro!: behaves_writeDurably simp: moves_advisor)

lemma behaves_runSkill: "behaves j h (runSkill wk an inp)"
  unfolding runSkill_def Let_def by (simp add: behaves_finishTool split: sum.split option.split)

lemma behaves_run:
  assumes "ownerOf wk an inp = Inr run"
  shows "behaves (xi_ToolStepID inp) True run"
    and "xi_ToolKind inp = TurnToolRuntimeSkill \<Longrightarrow> behaves (xi_ToolStepID inp) h run"
proof -
  have "behaves (xi_ToolStepID inp) True (runBuiltin wk an inp executor)" for executor
    unfolding runBuiltin_def by (auto intro!: behaves.acts simp: behaves_finishTool split: prod.split)
  moreover have "behaves (xi_ToolStepID inp) True (runMCP wk an inp)"
    unfolding runMCP_def Let_def by (auto intro!: behaves.acts simp: behaves_finishTool split: mcpAnswer.split)
  ultimately show "behaves (xi_ToolStepID inp) True run"
    and "xi_ToolKind inp = TurnToolRuntimeSkill \<Longrightarrow> behaves (xi_ToolStepID inp) h run"
    using assms behaves_runSkill by (auto simp: ownerOf_def split: TurnToolKind.split_asm option.split_asm if_split_asm)
qed

lemma behaves_start:
  assumes "behaves j True p"
  shows "behaves j h (transact (\<lambda>now. onJournal (\<lambda>_. StartToolStep now j)) (\<lambda>_. p))"
  by (rule behaves_transact) (use assms StartToolStep_crosses in \<open>auto simp: moves_journal_ops\<close>)

lemma behaves_afterRefusals: "behaves j h k \<Longrightarrow> behaves j h (afterRefusals refusals k)"
  by (auto simp: afterRefusals_def boxRefusal_def split: option.split prod.split)

lemma behaves_provision:
  assumes "retrySafe \<Longrightarrow> xi_ToolKind inp = TurnToolRuntimeSkill"
  shows "behaves (xi_ToolStepID inp) h (provisionAndRun wk an retrySafe inp)"
  unfolding provisionAndRun_def
  using behaves_run [of wk an inp] behaves_start assms
  by (auto intro!: behaves_afterRefusals split: sum.split)

lemma quiet_onStep: "quiet (xi_ToolStepID inp) (onStep wk an inp t)"
proof -
  have "quiet (xi_ToolStepID inp) (prepared wk an inp)"
    unfolding prepared_def runCoordinator_def executeAdvisorTool_def Let_def
    by (auto intro!: behaves_provision behaves_start behaves.acts behaves_completeAdvisor behaves_transact [OF moves_coordinator]
        split: option.split prod.split sum.split)
  moreover have "quiet (xi_ToolStepID inp) (started wk an inp)"
    unfolding started_def interruptAdvisor_def
    by (auto intro!: behaves_provision behaves_completeAdvisor behaves_transact simp: moves_journal_ops)
  ultimately show ?thesis unfolding onStep_def by (auto split: ToolStepState.split option.split)
qed

lemma quiet_transact: "(\<And>now. moves (op now)) \<Longrightarrow> (\<And>x. quiet j (k x)) \<Longrightarrow> quiet j (transact op k)"
  by (rule behaves_transact) (auto intro: exI [of _ False])

lemma ExecuteTool_quiet: "quiet (xi_ToolStepID inp) (ExecuteTool wk an inp)"
  unfolding ExecuteTool_def by (intro quiet_transact moves_journal_ops quiet_onStep)

section \<open>At most one effect\<close>

text \<open>Who may act next (\<open>True\<close>), one entry per running execution; a step that may be acted on, or was, is crossed.\<close>

type_synonym marked = "(string \<times> bool \<times> process) multiset"

definition entitled :: "string \<Rightarrow> marked \<Rightarrow> nat" where
  "entitled j qs = size (filter_mset (\<lambda>(i, h, p). h \<and> i = j) qs)"

definition effectsOf :: "string \<Rightarrow> pool \<Rightarrow> nat" where
  "effectsOf j s = count (mset (map fst (po_Effects s))) j"

definition sound :: "marked \<Rightarrow> pool \<Rightarrow> bool" where
  "sound qs s \<longleftrightarrow> jinv (journalOf (po_Books s))
     \<and> po_Running s = image_mset (\<lambda>(j, h, p). (j, p)) qs
     \<and> (\<forall>(j, h, p) \<in># qs. behaves j h p)
     \<and> (\<forall>j. entitled j qs + effectsOf j s \<le> of_bool (crossedStep j (journalOf (po_Books s))))"

lemma entitled_add [simp]: "entitled j (add_mset (i, h, p) qs) = of_bool (h \<and> i = j) + entitled j qs"
  by (simp add: entitled_def)

lemma marked_split:
  assumes "add_mset (j, p) others = image_mset (\<lambda>(j, h, p). (j, p)) qs"
  obtains h qs' where "qs = add_mset (j, h, p) qs'" "others = image_mset (\<lambda>(j, h, p). (j, p)) qs'"
proof -
  from msed_map_invR [OF assms [symmetric]] obtain q qs' where
    "qs = add_mset q qs'" "(\<lambda>(j, h, p). (j, p)) q = (j, p)" "image_mset (\<lambda>(j, h, p). (j, p)) qs' = others" by blast
  then show thesis by (intro that [of "fst (snd q)" qs']) (auto split: prod.splits)
qed

lemma crossed_mono: "change\<^sup>*\<^sup>* s s' \<Longrightarrow> of_bool (crossedStep j s) \<le> (of_bool (crossedStep j s') :: nat)"
  using changes_crossed by simp

lemma sound_drop:
  assumes "sound (add_mset (j, h, p) qs) s" "po_Books s' = po_Books s" "po_Effects s' = po_Effects s"
    and "po_Running s' = image_mset (\<lambda>(j, h, p). (j, p)) qs"
  shows "sound qs s'"
proof -
  have "entitled k qs + effectsOf k s' \<le> of_bool (crossedStep k (journalOf (po_Books s)))" for k
  proof -
    have "entitled k (add_mset (j, h, p) qs) + effectsOf k s \<le> of_bool (crossedStep k (journalOf (po_Books s)))"
      using assms(1) unfolding sound_def by blast
    moreover have "entitled k qs \<le> entitled k (add_mset (j, h, p) qs)" "effectsOf k s' = effectsOf k s"
      using assms(3) by (simp_all add: effectsOf_def)
    ultimately show ?thesis by linarith
  qed
  with assms show ?thesis unfolding sound_def by auto
qed

lemma poolStep_sound:
  assumes "poolStep workers s s'" "sound qs s"
  shows "\<exists>qs'. sound qs' s'"
  using assms
proof (induction rule: poolStep.induct)
  case (deliver wk s inp an)
  then have "sound (add_mset (xi_ToolStepID inp, False, ExecuteTool wk an inp) qs)
      (s\<lparr>po_Running := add_mset (xi_ToolStepID inp, ExecuteTool wk an inp) (po_Running s)\<rparr>)"
    by (simp add: sound_def effectsOf_def ExecuteTool_quiet)
  then show ?case by blast
next
  case (transaction s j f others fate now p b)
  have run: "add_mset (j, Transact f) others = image_mset (\<lambda>(j, h, p). (j, p)) qs"
    using transaction by (simp add: sound_def)
  then obtain h qs' where qs: "qs = add_mset (j, h, Transact f) qs'" "others = image_mset (\<lambda>(j, h, p). (j, p)) qs'"
    by (rule marked_split)
  from transaction(3) have inv: "jinv (journalOf (po_Books s))" and bound:
      "\<forall>i. entitled i qs + effectsOf i s \<le> of_bool (crossedStep i (journalOf (po_Books s)))"
    and "behaves j h (Transact f)" and others: "\<forall>(j, h, p) \<in># qs'. behaves j h p"
    by (auto simp: sound_def qs)
  from behaves_transactsE [OF this(3)] transaction(2) inv obtain h' where
    move: "change\<^sup>*\<^sup>* (journalOf (po_Books s)) (journalOf b)" and h': "behaves j h' p"
      "h' \<longrightarrow> \<not> crossedStep j (journalOf (po_Books s)) \<and> crossedStep j (journalOf b)" by metis
  have "entitled i (add_mset (j, h', p) qs') + effectsOf i s \<le> of_bool (crossedStep i (journalOf b))" for i
  proof (cases "h' \<and> i = j")
    case True
    with bound [rule_format, of i] h'(2) show ?thesis by (simp add: qs(1))
  next
    case False
    then have "entitled i (add_mset (j, h', p) qs') + effectsOf i s \<le> entitled i qs + effectsOf i s"
      by (auto simp: qs(1))
    also have "\<dots> \<le> of_bool (crossedStep i (journalOf (po_Books s)))" using bound by blast
    also note crossed_mono [OF move]
    finally show ?thesis .
  qed
  with changes_jinv [OF move inv] h'(1) others qs(2)
  have "sound (add_mset (j, h', p) qs') (s\<lparr>po_Books := b, po_Running := add_mset (j, p) others\<rparr>)"
    by (simp add: sound_def effectsOf_def)
  then show ?case by blast
next
  case (act s j i e p others)
  have run: "add_mset (j, Acts i e p) others = image_mset (\<lambda>(j, h, p). (j, p)) qs"
    using act by (simp add: sound_def)
  then obtain h qs' where qs: "qs = add_mset (j, h, Acts i e p) qs'" "others = image_mset (\<lambda>(j, h, p). (j, p)) qs'"
    by (rule marked_split)
  from act(2) have "behaves j h (Acts i e p)" by (auto simp: sound_def qs)
  then have h: "h" "i = j" "behaves j False p" by (auto elim: behaves_actsE)
  have "sound (add_mset (j, False, p) qs') (s\<lparr>po_Running := add_mset (j, p) others, po_Effects := (i, e) # po_Effects s\<rparr>)"
  proof -
    let ?s = "s\<lparr>po_Running := add_mset (j, p) others, po_Effects := (i, e) # po_Effects s\<rparr>"
    have "entitled k (add_mset (j, False, p) qs')
        + effectsOf k ?s = entitled k qs + effectsOf k s" for k
      using h by (simp add: qs(1) effectsOf_def)
    moreover have "\<forall>k. entitled k qs + effectsOf k s \<le> of_bool (crossedStep k (journalOf (po_Books s)))"
      using act(2) unfolding sound_def by blast
    ultimately have "\<forall>k. entitled k (add_mset (j, False, p) qs') + effectsOf k ?s
        \<le> of_bool (crossedStep k (journalOf (po_Books ?s)))" by (simp del: entitled_add)
    then show ?thesis using act(2) h(3) qs unfolding sound_def by (auto simp del: entitled_add)
  qed
  then show ?case by blast
next
  case (answer s j x others)
  have run: "add_mset (j, Returns (Inr x)) others = image_mset (\<lambda>(j, h, p). (j, p)) qs"
    using answer by (simp add: sound_def)
  then obtain h qs' where qs: "qs = add_mset (j, h, Returns (Inr x)) qs'" "others = image_mset (\<lambda>(j, h, p). (j, p)) qs'"
    by (rule marked_split)
  have "sound qs' (s\<lparr>po_Running := others, po_Answers := (j, x) # po_Answers s\<rparr>)"
    using answer(2) qs unfolding qs(1) by (auto intro: sound_drop)
  then show ?case by blast
next
  case (vanish s j p others)
  have run: "add_mset (j, p) others = image_mset (\<lambda>(j, h, p). (j, p)) qs" using vanish by (simp add: sound_def)
  then obtain h qs' where qs: "qs = add_mset (j, h, p) qs'" "others = image_mset (\<lambda>(j, h, p). (j, p)) qs'"
    by (rule marked_split)
  have "sound qs' (s\<lparr>po_Running := others\<rparr>)"
    using vanish(2) qs unfolding qs(1) by (auto intro: sound_drop)
  then show ?case by blast
next
  case (elsewhere s b)
  then have old: "jinv (journalOf (po_Books s))" "po_Running s = image_mset (\<lambda>(j, h, p). (j, p)) qs"
      "\<forall>(j, h, p) \<in># qs. behaves j h p"
    and bound: "\<forall>k. entitled k qs + effectsOf k s \<le> of_bool (crossedStep k (journalOf (po_Books s)))"
    unfolding sound_def by blast+
  have "entitled k qs + effectsOf k (s\<lparr>po_Books := b\<rparr>) \<le> of_bool (crossedStep k (journalOf b))" for k
  proof -
    have "effectsOf k (s\<lparr>po_Books := b\<rparr>) = effectsOf k s" by (simp add: effectsOf_def)
    with order_trans [OF bound [rule_format] crossed_mono [OF elsewhere(1)]] show ?thesis by metis
  qed
  with old changes_jinv [OF elsewhere(1)] have "sound qs (s\<lparr>po_Books := b\<rparr>)" by (simp add: sound_def)
  then show ?case by blast
qed


definition poolReaches :: "'b toolWorker set \<Rightarrow> books \<Rightarrow> pool \<Rightarrow> bool" where
  "poolReaches workers b s \<longleftrightarrow> jinv (journalOf b) \<and> (poolStep workers)\<^sup>*\<^sup>* (idlePool b) s"

lemma poolReaches_sound: "poolReaches workers b s \<Longrightarrow> \<exists>qs. sound qs s"
proof -
  assume r: "poolReaches workers b s"
  then have "sound {#} (idlePool b)" by (simp add: poolReaches_def sound_def idlePool_def entitled_def effectsOf_def)
  have "(poolStep workers)\<^sup>*\<^sup>* (idlePool b) s" using r by (simp add: poolReaches_def)
  then show ?thesis using \<open>sound {#} (idlePool b)\<close> by (induction rule: rtranclp_induct) (blast dest: poolStep_sound)+
qed

text \<open>
  C5. A tool step acts at most once: whatever executions of it run, overlap, crash or are delivered again, on whatever
  workers, and whichever of their transactions are lost or commit unacknowledged, its built-in tool, MCP call or advisor
  request happens at most once, and only after the journal says that the step was started.
\<close>

theorem tool_acts_once:
  assumes "poolReaches workers b s"
  shows "distinct (map fst (po_Effects s)) \<and> (\<forall>(j, e) \<in> set (po_Effects s). crossedStep j (journalOf (po_Books s)))"
proof -
  obtain qs where "sound qs s" using poolReaches_sound [OF assms] by blast
  then have le: "effectsOf j s \<le> of_bool (crossedStep j (journalOf (po_Books s)))" for j
    unfolding sound_def using add_leD2 by blast
  have one: "effectsOf j s \<le> 1" for j by (rule le_trans [OF le]) simp
  have "distinct xs" if "\<And>x. count (mset xs) x \<le> 1" for xs :: "string list"
  proof -
    have "count (mset xs) a = (if a \<in> set xs then 1 else 0)" for a
      using that [of a] count_eq_zero_iff [of "mset xs" a] by (cases "count (mset xs) a") auto
    then show ?thesis by (simp add: distinct_count_atmost_1)
  qed
  then have "distinct (map fst (po_Effects s))" using one by (simp add: effectsOf_def)
  moreover have "crossedStep j (journalOf (po_Books s))" if "(j, e) \<in> set (po_Effects s)" for j e
  proof -
    have "j \<in># mset (map fst (po_Effects s))" using that by force
    then have "0 < effectsOf j s" unfolding effectsOf_def by (simp only: count_greater_zero_iff)
    then show ?thesis using le [of j] by (cases "crossedStep j (journalOf (po_Books s))") auto
  qed
  ultimately show ?thesis by blast
qed

section \<open>Answers are the recorded ones\<close>

text \<open>
  What the Workflow is told is the recorded result without what is kept for diagnosis, or the result whose encoding is
  recorded, in the form of its column (or equals what is recorded).
\<close>

definition recordedAnswer :: "'b toolWorker set \<Rightarrow> string \<Rightarrow> ExecuteToolResult \<Rightarrow> journal \<Rightarrow> bool" where
  "recordedAnswer workers j x s \<longleftrightarrow> (\<exists>t \<in> set (jn_Steps s). ts_ID t = j \<and> ts_State t = ToolStepCompleted \<and>
     (\<exists>stored. ts_Result t = Some stored \<and> (xr_Result x = workflowToolResult stored
        \<or> (\<exists>wk \<in> workers. \<exists>result enc. tr_RecodeResult (wk_Runtime wk) result = Some enc
             \<and> (stored = jsonbResult (tr_Respace (wk_Runtime wk)) enc \<or> resultEq stored enc) \<and> xr_Result x = workflowToolResult result))))"

lemma change_recorded: "change s s' \<Longrightarrow> recordedAnswer workers j x s \<Longrightarrow> recordedAnswer workers j x s'"
proof -
  assume c: "change s s'" and r: "recordedAnswer workers j x s"
  have "t \<in> set (jn_Steps s')" if t: "t \<in> set (jn_Steps s)" "ts_State t = ToolStepCompleted" for t
    using c
  proof cases
    case (steps_moved p f)
    with t have "\<not> p t" by (auto simp: stepMoves_def)
    with t(1) show ?thesis by (auto simp: steps_moved updateWhere_map)
  qed (use t in \<open>auto simp: InsertTurnAttempt_def InsertToolStep_def Let_def split: if_split_asm\<close>)
  with r show ?thesis unfolding recordedAnswer_def by blast
qed

lemma changes_recorded: "change\<^sup>*\<^sup>* s s' \<Longrightarrow> recordedAnswer workers j x s \<Longrightarrow> recordedAnswer workers j x s'"
  by (induction rule: rtranclp_induct) (auto intro: change_recorded)

abbreviation settled :: "ExecuteToolResult \<Rightarrow> bool" where
  "settled x \<equiv> xr_Result x \<noteq> emptyStepResult"

inductive honest :: "'b toolWorker set \<Rightarrow> string \<Rightarrow> process \<Rightarrow> bool" for workers j where
  fails: "honest workers j (Returns (Inl e))"
| unsettled: "\<not> settled x \<Longrightarrow> honest workers j (Returns (Inr x))"
| acts: "honest workers j p \<Longrightarrow> honest workers j (Acts i e p)"
| transacts:
    "(\<And>fate now b p b'. f fate now b = (p, b') \<Longrightarrow>
        honest workers j p \<or> (\<exists>x. p = Returns (Inr x) \<and> recordedAnswer workers j x (journalOf b'))) \<Longrightarrow>
      honest workers j (Transact f)"

inductive_cases honest_transactsE: "honest workers j (Transact f)"
inductive_cases honest_actsE: "honest workers j (Acts i e p)"
inductive_cases honest_returnsE: "honest workers j (Returns r)"

lemma honest_transact:
  assumes "\<And>now b x b'. op now b = Inr (x, b') \<Longrightarrow>
      honest workers j (k x) \<or> (\<exists>y. k x = Returns (Inr y) \<and> recordedAnswer workers j y (journalOf b'))"
  shows "honest workers j (transact op k)"
  unfolding transact_def
proof (rule honest.transacts)
  fix fate now b p b'
  assume r: "(case attempt fate (op now) b of (Inl e, b1) \<Rightarrow> (Returns (Inl e), b1) | (Inr x, b1) \<Rightarrow> (k x, b1)) = (p, b')"
  obtain o1 b1 where a: "attempt fate (op now) b = (o1, b1)" by (cases "attempt fate (op now) b")
  show "honest workers j p \<or> (\<exists>x. p = Returns (Inr x) \<and> recordedAnswer workers j x (journalOf b'))"
  proof (cases o1)
    case (Inl e)
    with a r show ?thesis by (auto intro: honest.fails)
  next
    case (Inr x)
    with a have "op now b = Inr (x, b1)" by (auto elim: attempt_cases)
    from assms [OF this] a r Inr show ?thesis by simp
  qed
qed

lemma honest_writeDurably:
  assumes "\<And>now b u b'. op now b = Inr (u, b') \<Longrightarrow> recordedAnswer workers j x (journalOf b')"
  shows "honest workers j (writeDurably op waits n (Returns (Inr x)))"
proof (induction n)
  case 0
  show ?case unfolding writeDurably.simps [of _ _ 0]
    using assms by (intro honest.transacts) (auto split: prod.split_asm sum.split_asm elim!: attempt_cases intro: honest.fails)
next
  case (Suc n)
  then show ?case unfolding writeDurably.simps [of _ _ "Suc n"]
    using assms by (intro honest.transacts)
      (auto split: prod.split_asm sum.split_asm if_split_asm elim!: attempt_cases intro: honest.fails)
qed

lemma honest_ends [simp]: "honest workers j (fatal m)" "honest workers j ambiguous" "honest workers j (Returns (Inl e))"
  by (simp_all add: fatal_def ambiguous_def emptyToolResult_def honest.unsettled honest.fails)

lemma setSteps_find:
  assumes "setSteps (\<lambda>t. ts_ID t = j \<and> P t) f s = (n, s')" "\<And>t. ts_ID (f t) = ts_ID t" "GetToolStep j s' = Some row" "n = 1"
  obtains t where "t \<in> set (jn_Steps s)" "ts_ID t = j" "P t" "f t \<in> set (jn_Steps s')"
proof -
  have "0 < affected (\<lambda>t. ts_ID t = j \<and> P t) (jn_Steps s)" using assms(1,4) by (simp add: setSteps_def)
  then obtain t where "t \<in> set (jn_Steps s)" "ts_ID t = j" "P t" by (auto simp: affected_pos)
  moreover then have "f t \<in> set (jn_Steps s')" using assms(1) by (force simp: setSteps_def updateWhere_map)
  ultimately show thesis by (rule that)
qed

definition recordedStep :: "(string \<Rightarrow> string) \<Rightarrow> string \<Rightarrow> ToolStepResult \<Rightarrow> journal \<Rightarrow> bool" where
  "recordedStep respace j enc s \<longleftrightarrow> (\<exists>t \<in> set (jn_Steps s). ts_ID t = j \<and> ts_State t = ToolStepCompleted
     \<and> (\<exists>stored. ts_Result t = Some stored \<and> (stored = jsonbResult respace enc \<or> resultEq stored enc)))"

lemma setSteps_recorded:
  assumes "setSteps (\<lambda>t. ts_ID t = j \<and> P t)
      (\<lambda>t. t\<lparr>ts_State := ToolStepCompleted, ts_Result := Some (jsonbResult respace enc), ts_FinishedAt := fin, ts_UpdatedAt := now\<rparr>) s = (1, s')"
  shows "recordedStep respace j enc s'"
proof -
  let ?f = "\<lambda>t. t\<lparr>ts_State := ToolStepCompleted, ts_Result := Some (jsonbResult respace enc), ts_FinishedAt := fin, ts_UpdatedAt := now\<rparr>"
  have "0 < affected (\<lambda>t. ts_ID t = j \<and> P t) (jn_Steps s)" using assms by (simp add: setSteps_def)
  then obtain t where t: "t \<in> set (jn_Steps s)" "ts_ID t = j" "P t" by (auto simp: affected_pos)
  then have "?f t \<in> set (jn_Steps s')" using assms by (force simp: setSteps_def updateWhere_map)
  then show ?thesis unfolding recordedStep_def using t(2) by (intro bexI [of _ "?f t"]) simp_all
qed

lemma replayed_recorded:
  assumes "GetToolStep j s = Some row" "ts_State row = ToolStepCompleted" "ts_Result row = Some stored" "resultEq stored enc"
  shows "recordedStep respace j enc s"
  using assms unfolding recordedStep_def GetToolStep_def by (auto simp: find_Some_iff intro!: bexI [of _ row])

lemma CompleteToolStep_recorded:
  assumes "CompleteToolStep recode respace now j result s = Inr (u, s')"
  shows "\<exists>enc. recode result = Some enc \<and> recordedStep respace j enc s'"
  using assms unfolding CompleteToolStep_def CompleteToolStepRow_def Let_def toolStepFromRow_def
  by (auto elim!: bindE_chain split: option.split_asm if_split_asm prod.split_asm
      intro: setSteps_recorded replayed_recorded)

lemma completeAdvisorRow_recorded:
  assumes "completeAdvisorRow respace enc now j s = Inr s'"
  shows "recordedStep respace j enc s'"
  using assms unfolding completeAdvisorRow_def CompleteToolStepRow_def Let_def toolStepFromRow_def
  by (auto elim!: bindE_chain split: option.split_asm if_split_asm prod.split_asm
      intro: setSteps_recorded replayed_recorded)

lemma recordedAnswerI:
  assumes "recordedStep (tr_Respace (wk_Runtime wk)) j enc s" "wk \<in> workers" "tr_RecodeResult (wk_Runtime wk) result = Some enc"
    and "xr_Result x = workflowToolResult result"
  shows "recordedAnswer workers j x s"
  using assms unfolding recordedAnswer_def recordedStep_def by blast

lemma honest_finishTool: "wk \<in> workers \<Longrightarrow> honest workers j (finishTool wk an j events result)"
  unfolding finishTool_def Let_def
  by (rule honest_writeDurably)
    (auto simp: onJournal_def bindE_Inr_iff journalOf_def dest!: CompleteToolStep_recorded;
      erule (2) recordedAnswerI; simp)

lemma CompleteAdvisorToolStep_recorded:
  assumes "CompleteAdvisorToolStep (toolTimeNow (wk_Runtime wk) now) p turn j result c b = Inr b'" "wk \<in> workers"
    and "xr_Result x = workflowToolResult result"
  shows "recordedAnswer workers j x (journalOf b')"
  using assms(1)
proof (rule CompleteAdvisorToolStep_row)
  fix enc t
  assume "tr_RecodeResult (toolTimeNow (wk_Runtime wk) now) result = Some enc"
    and "completeAdvisorRow (tr_Respace (toolTimeNow (wk_Runtime wk) now)) enc t j (journalOf b) = Inr (journalOf b')"
  then show ?thesis
    using recordedAnswerI [OF completeAdvisorRow_recorded assms(2) _ assms(3)] by (auto simp: toolTimeNow_def)
qed

lemma honest_completeAdvisor:
  "wk \<in> workers \<Longrightarrow> honest workers (xi_ToolStepID inp) (completeAdvisorToolStep wk an inp result c)"
  unfolding completeAdvisorToolStep_def
  by (auto intro!: honest_writeDurably elim!: bindE_chain intro: CompleteAdvisorToolStep_recorded)

lemma honest_run:
  assumes "ownerOf wk an inp = Inr run" "wk \<in> workers"
  shows "honest workers (xi_ToolStepID inp) run"
proof -
  let ?j = "xi_ToolStepID inp"
  have "honest workers ?j (runBuiltin wk an inp executor)" for executor
    unfolding runBuiltin_def by (auto intro!: honest.acts honest_finishTool assms(2) split: prod.split)
  moreover have "honest workers ?j (runMCP wk an inp)"
    unfolding runMCP_def Let_def by (auto intro!: honest.acts honest_finishTool assms(2) split: mcpAnswer.split)
  moreover have "honest workers ?j (runSkill wk an inp)"
    unfolding runSkill_def Let_def by (auto intro!: honest_finishTool assms(2) split: sum.split option.split)
  ultimately show ?thesis
    using assms(1) by (auto simp: ownerOf_def split: TurnToolKind.split_asm option.split_asm if_split_asm)
qed

lemma honest_provision: "wk \<in> workers \<Longrightarrow> honest workers (xi_ToolStepID inp) (provisionAndRun wk an retrySafe inp)"
  unfolding provisionAndRun_def afterRefusals_def boxRefusal_def
  by (auto intro!: honest_transact intro: honest_run split: sum.split option.split prod.split)

lemma honest_coordinator:
  assumes "wk \<in> workers"
  shows "honest workers (xi_ToolStepID inp) (runCoordinator wk inp)"
proof -
  let ?j = "xi_ToolStepID inp"
  have "recordedAnswer workers ?j (emptyToolResult\<lparr>xr_Result := workflowToolResult x\<rparr>) (lg_Journal l')"
    if step: "ExecuteCoordinatorToolStep (toolTimeNow (wk_Runtime wk) now) p turn ?j name given l = Inr (d, l')" "x = cx_Result d"
    for now p turn name given l d l' x
  proof -
    have "recordedAnswer workers ?j (emptyToolResult\<lparr>xr_Result := workflowToolResult r\<rparr>) s'"
      if row: "CompletePreparedToolStepRow (jsonbResult (tr_Respace (wk_Runtime wk)) enc) now' ?j s = (Suc 0, s')" and "tr_RecodeResult (wk_Runtime wk) r = Some enc"
      for enc now' s s' r
    proof (rule recordedAnswerI [OF _ assms that(2)])
      show "recordedStep (tr_Respace (wk_Runtime wk)) ?j enc s'" using row unfolding CompletePreparedToolStepRow_def by (auto intro: setSteps_recorded)
    qed simp
    moreover have "recordedAnswer workers ?j (emptyToolResult\<lparr>xr_Result := workflowToolResult r\<rparr>) (lg_Journal l)"
      if "lockCoordinatorToolStep ?j (lg_Journal l) = Inr (a, t)" "ts_State t = ToolStepCompleted" "ts_Result t = Some r" for a t r
      using that by (auto simp: recordedAnswer_def lockCoordinatorToolStep_def GetToolStep_def find_Some_iff
          split: option.split_asm if_split_asm intro!: bexI [of _ t])
    ultimately show ?thesis
      using step assms unfolding ExecuteCoordinatorToolStep_def Let_def
      by (auto elim!: bindE_chain split: if_split_asm option.split_asm prod.split_asm simp: toolTimeNow_def
          simp del: deepEq.simps)
  qed
  then show ?thesis
    unfolding runCoordinator_def by (auto intro!: honest_transact simp: bindE_Inr_iff journalOf_def)
qed

lemma honest_onStep:
  assumes "wk \<in> workers" "ts_State t = ToolStepPrepared \<or> GetToolStep (xi_ToolStepID inp) s = Some t"
  shows "honest workers (xi_ToolStepID inp) (onStep wk an inp t)
    \<or> (\<exists>x. onStep wk an inp t = Returns (Inr x) \<and> recordedAnswer workers (xi_ToolStepID inp) x s)"
proof -
  let ?j = "xi_ToolStepID inp"
  have "honest workers ?j (prepared wk an inp)"
    unfolding prepared_def executeAdvisorTool_def Let_def
    by (auto intro!: honest_coordinator honest_provision honest_transact honest.acts assms(1)
        intro: honest_completeAdvisor split: option.split prod.split sum.split)
  moreover have "honest workers ?j (started wk an inp)"
    unfolding started_def interruptAdvisor_def
    by (auto intro!: honest_provision honest_completeAdvisor honest_transact assms(1))
  ultimately show ?thesis
  proof (cases "ts_State t")
    case ToolStepCompleted
    then show ?thesis
    proof (cases "ts_Result t")
      case (Some r)
      from ToolStepCompleted assms(2) have "GetToolStep ?j s = Some t" by simp
      then have "t \<in> set (jn_Steps s)" "ts_ID t = ?j" by (auto simp: GetToolStep_def find_Some_iff)
      with ToolStepCompleted Some show ?thesis by (auto simp: onStep_def recordedAnswer_def intro!: bexI [of _ t])
    qed (simp add: onStep_def)
  qed (simp_all add: onStep_def)
qed

lemma EnsureToolStep_result:
  assumes "EnsureToolStep recode now i j n e name given s = Inr (t, s')"
  shows "ts_State t = ToolStepPrepared \<or> GetToolStep j s' = Some t"
  using assms unfolding EnsureToolStep_def
  by (auto elim!: bindE_chain simp: toolStepFromRow_def newStep_def split: if_split_asm option.split_asm)

lemma ExecuteTool_honest: "wk \<in> workers \<Longrightarrow> honest workers (xi_ToolStepID inp) (ExecuteTool wk an inp)"
  unfolding ExecuteTool_def
  by (rule honest_transact, rule disjI1, rule honest_transact)
    (auto simp: onJournal_def bindE_Inr_iff journalOf_def dest!: EnsureToolStep_result;
      use honest_onStep in blast)

definition truthful :: "'b toolWorker set \<Rightarrow> pool \<Rightarrow> bool" where
  "truthful workers s \<longleftrightarrow>
     (\<forall>(j, p) \<in># po_Running s. honest workers j p
        \<or> (\<exists>x. p = Returns (Inr x) \<and> recordedAnswer workers j x (journalOf (po_Books s))))
     \<and> (\<forall>(j, x) \<in> set (po_Answers s). settled x \<longrightarrow> recordedAnswer workers j x (journalOf (po_Books s)))
     \<and> (\<exists>qs. sound qs s)"

lemma truthful_moved:
  assumes "truthful workers s" "change\<^sup>*\<^sup>* (journalOf (po_Books s)) (journalOf b)"
  shows "\<forall>(j, p) \<in># po_Running s. honest workers j p \<or> (\<exists>x. p = Returns (Inr x) \<and> recordedAnswer workers j x (journalOf b))"
    and "\<forall>(j, x) \<in> set (po_Answers s). settled x \<longrightarrow> recordedAnswer workers j x (journalOf b)"
  using assms changes_recorded [OF assms(2)] unfolding truthful_def by fast+

lemma poolStep_moves:
  assumes "poolStep workers s s'" "sound qs s"
  shows "change\<^sup>*\<^sup>* (journalOf (po_Books s)) (journalOf (po_Books s'))"
  using assms
proof (induction rule: poolStep.induct)
  case (transaction s j f others fate now p b)
  then have "add_mset (j, Transact f) others = image_mset (\<lambda>(j, h, p). (j, p)) qs" by (simp add: sound_def)
  then obtain h qs' where "qs = add_mset (j, h, Transact f) qs'" by (rule marked_split)
  with transaction(3) have "behaves j h (Transact f)" "jinv (journalOf (po_Books s))" by (auto simp: sound_def)
  from behaves_transactsE [OF this(1)] transaction(2) this(2) show ?case by simp metis
qed simp_all

lemma poolStep_truthful:
  assumes "poolStep workers s s'" "truthful workers s"
  shows "truthful workers s'"
proof -
  obtain qs where qs: "sound qs s" using assms(2) by (auto simp: truthful_def)
  from poolStep_sound [OF assms(1) qs] have ok: "\<exists>qs. sound qs s'" .
  note kept = truthful_moved [OF assms(2) poolStep_moves [OF assms(1) qs]]
  have running: "\<forall>(j, p) \<in># po_Running s'. honest workers j p
      \<or> (\<exists>x. p = Returns (Inr x) \<and> recordedAnswer workers j x (journalOf (po_Books s')))"
    using assms(1) kept(1)
  proof (cases rule: poolStep.cases)
    case (transaction j f others fate now p b)
    with kept(1) have "honest workers j (Transact f)" by auto
    from honest_transactsE [OF this] transaction(3)
    have "honest workers j p \<or> (\<exists>x. p = Returns (Inr x) \<and> recordedAnswer workers j x (journalOf b))" by metis
    with transaction kept(1) show ?thesis by auto
  next
    case (act j i e p others)
    with kept(1) have "honest workers j (Acts i e p)" by auto
    then have "honest workers j p" by (rule honest_actsE)
    with act kept(1) show ?thesis by auto
  qed (auto simp: ExecuteTool_honest)
  have "\<forall>(j, x) \<in> set (po_Answers s'). settled x \<longrightarrow> recordedAnswer workers j x (journalOf (po_Books s'))"
    using assms(1) kept(2)
  proof (cases rule: poolStep.cases)
    case (answer j x others)
    with kept(1) have "honest workers j (Returns (Inr x)) \<or> recordedAnswer workers j x (journalOf (po_Books s'))" by auto
    then have "settled x \<longrightarrow> recordedAnswer workers j x (journalOf (po_Books s'))" by (auto elim: honest_returnsE)
    with answer kept(2) show ?thesis by auto
  qed auto
  with running ok show ?thesis by (simp add: truthful_def)
qed

text \<open>
  C6. What the Workflow is told is what is recorded: every answer of an execution that carries a result is that of a
  completed step of the journal, the stored result or the one whose encoding is stored, without the parts that are kept
  for diagnosis; so executions that overlap or are delivered again tell the same.
\<close>

theorem tool_answers_recorded:
  assumes "poolReaches workers b s" "(j, x) \<in> set (po_Answers s)" "xr_Result x \<noteq> emptyStepResult"
  shows "recordedAnswer workers j x (journalOf (po_Books s))"
proof -
  have inv: "jinv (journalOf b)" and r: "(poolStep workers)\<^sup>*\<^sup>* (idlePool b) s" using assms(1) by (auto simp: poolReaches_def)
  have "sound {#} (idlePool b)" using inv by (simp add: sound_def idlePool_def entitled_def effectsOf_def)
  then have "truthful workers (idlePool b)" by (auto simp: truthful_def idlePool_def)
  with r have "truthful workers s" by (induction rule: rtranclp_induct) (auto intro: poolStep_truthful)
  with assms(2,3) show ?thesis by (auto simp: truthful_def)
qed

section \<open>A run\<close>

text \<open>The transactions of one execution in a row, up to its effect or its end.\<close>

fun runs :: "(fate \<times> time) list \<Rightarrow> process \<Rightarrow> books \<Rightarrow> process \<times> books" where
  "runs ((f, now) # fs) (Transact g) b = (case g f now b of (p, b1) \<Rightarrow> runs fs p b1)"
| "runs _ p b = (p, b)"

lemma runs_pool:
  "runs fs p b = (p', b') \<Longrightarrow>
     (poolStep workers)\<^sup>*\<^sup>* \<lparr>po_Books = b, po_Running = add_mset (j, p) M, po_Effects = es, po_Answers = xs\<rparr>
       \<lparr>po_Books = b', po_Running = add_mset (j, p') M, po_Effects = es, po_Answers = xs\<rparr>"
proof (induction fs p b rule: runs.induct)
  case (1 f now fs g b)
  obtain q b1 where q: "g f now b = (q, b1)" by (cases "g f now b")
  have "poolStep workers \<lparr>po_Books = b, po_Running = add_mset (j, Transact g) M, po_Effects = es, po_Answers = xs\<rparr>
       \<lparr>po_Books = b1, po_Running = add_mset (j, q) M, po_Effects = es, po_Answers = xs\<rparr>"
    using poolStep.transaction [of "\<lparr>po_Books = b, po_Running = add_mset (j, Transact g) M, po_Effects = es, po_Answers = xs\<rparr>"
        j g M f now q b1 workers] q by simp
  with 1 q show ?case by (auto intro: converse_rtranclp_into_rtranclp)
qed simp_all

definition sampleWorker :: "string toolWorker" where
  "sampleWorker = \<lparr>wk_Runtime = \<lparr>tr_Runtime = sampleRuntime, tr_Marshal = \<lambda>_. Some [], tr_Unmarshal = \<lambda>_. None,
       tr_RecodeResult = Some, tr_Respace = id, tr_Tables = te_Tables sampleToolEnv\<rparr>,
     wk_Spec = sampleSpecEnv, wk_Env = sampleToolEnv, wk_Provider = sampleEnv, wk_Sandbox = oneFile,
     wk_HasCoordinator = True, wk_HasAdvisor = True, wk_HasModel = True, wk_HasSandboxes = True, wk_HasMCP = True,
     wk_HasSessionSkills = True, wk_HasThreadSkills = True\<rparr>"

definition sampleAnswers :: "string answers" where
  "sampleAnswers = \<lparr>an_Session = Inr sampleSession, an_Acquire = \<lambda>_. None, an_Reconcile = None, an_Lock = None,
     an_SessionSkills = Inr [], an_ThreadSkills = Inr \<lparr>sk_Root = [], sk_Versions = []\<rparr>, an_Box = ''old'',
     an_MCP = MCPFailed [], an_Model = Inl [], an_Cancelled = False, an_Writeback = None, an_Waits = \<lambda>_. True\<rparr>"

definition sampleInput :: ExecuteToolInput where
  "sampleInput = \<lparr>xi_ThreadID = ''main'', xi_TriggerEventID = ''trigger'', xi_AttemptID = ''att'', xi_Ordinal = 0,
     xi_ToolUseEventID = ''use'', xi_ToolStepID = ''stp'', xi_ToolName = ''write'', xi_ToolKind = TurnToolBuiltin,
     xi_MCPServer = \<lparr>ms_Name = [], ms_URL = []\<rparr>, xi_MCPToolName = [],
     xi_Input = Some [(''path'', JStr ''f''), (''file_text'', JStr ''new'')],
     xi_SkillRuntimeRoot = [], xi_SkillAlreadyLoaded = False, xi_Advisor = None\<rparr>"

definition sampleBooks :: books where
  "sampleBooks = (sampleLedger [] [], [])"

text \<open>
  The tool writes; its execution vanishes, or its result is recorded on the third try; delivered again, the step is
  ambiguous, or the same answer is given.
\<close>

definition firstRun :: "process \<times> books" where
  "firstRun = runs [(Commits, 1), (Commits, 2), (Commits, 3)] (ExecuteTool sampleWorker sampleAnswers sampleInput) sampleBooks"

definition writes :: "process \<Rightarrow> process" where
  "writes p = (case p of Acts i e q \<Rightarrow> q | q \<Rightarrow> q)"

definition effectName :: "process \<Rightarrow> string \<times> string" where
  "effectName p = (case p of Acts i (RunTool n _) q \<Rightarrow> (i, n) | _ \<Rightarrow> ([], []))"

definition returned :: "process \<Rightarrow> bool \<times> bool" where
  "returned p = (case p of Returns (Inr x) \<Rightarrow> (xr_Ambiguous x, sr_Content (xr_Result x) \<noteq> None) | _ \<Rightarrow> (False, False))"

lemma sample_runs:
  "effectName (fst firstRun) = (''stp'', ''write'')"
  "returned (fst (runs [(Commits, 4), (Commits, 5), (Commits, 6)]
     (ExecuteTool sampleWorker sampleAnswers sampleInput) (snd firstRun))) = (True, False)"
  "returned (fst (runs [(Lost [], 4), (Unacknowledged [], 5), (Commits, 6)] (writes (fst firstRun)) (snd firstRun)))
     = (False, True)"
  by code_simp+

lemma effectName_E: "effectName p = (i, c # n) \<Longrightarrow> \<exists>m q. p = Acts i (RunTool (c # n) m) q"
  by (auto simp: effectName_def split: process.split_asm effect.split_asm)

lemma returned_E:
  "returned p = (a, c) \<Longrightarrow> a \<or> c \<Longrightarrow> \<exists>x. p = Returns (Inr x) \<and> xr_Ambiguous x = a \<and> (sr_Content (xr_Result x) \<noteq> None) = c"
  by (auto simp: returned_def split: process.split_asm sum.split_asm)

abbreviation samplePool :: "books \<Rightarrow> process multiset \<Rightarrow> (string \<times> effect) list \<Rightarrow> (string \<times> ExecuteToolResult) list \<Rightarrow> pool" where
  "samplePool b ps es xs \<equiv>
     \<lparr>po_Books = b, po_Running = image_mset (Pair ''stp'') ps, po_Effects = es, po_Answers = xs\<rparr>"

abbreviation sampleSteps :: "pool \<Rightarrow> pool \<Rightarrow> bool" where
  "sampleSteps \<equiv> (poolStep {sampleWorker})\<^sup>*\<^sup>*"

lemma sample_deliver:
  "runs fs (ExecuteTool sampleWorker sampleAnswers sampleInput) b = (p, b') \<Longrightarrow> sampleSteps (samplePool b {#} es xs) (samplePool b' {#p#} es xs)"
  using runs_pool [of fs "ExecuteTool sampleWorker sampleAnswers sampleInput" b p b' "{sampleWorker}" "''stp''" "{#}" es xs]
    poolStep.deliver [of sampleWorker "{sampleWorker}" "samplePool b {#} es xs" sampleInput sampleAnswers]
  by (simp add: sampleInput_def converse_rtranclp_into_rtranclp)

lemma sample_act: "sampleSteps (samplePool b {#Acts i e p#} es xs) (samplePool b {#p#} ((i, e) # es) xs)"
  using poolStep.act [of "samplePool b {#Acts i e p#} es xs" "''stp''" i e p "{#}" "{sampleWorker}"] by simp

lemma sample_answer: "sampleSteps (samplePool b {#Returns (Inr x)#} es xs) (samplePool b {#} es ((''stp'', x) # xs))"
  using poolStep.answer [of "samplePool b {#Returns (Inr x)#} es xs" "''stp''" x "{#}" "{sampleWorker}"] by simp

lemma sample_vanish: "sampleSteps (samplePool b {#p#} es xs) (samplePool b {#} es xs)"
  using poolStep.vanish [of "samplePool b {#p#} es xs" "''stp''" p "{#}" "{sampleWorker}"] by simp

lemma sample_first:
  obtains n q b where "firstRun = (Acts ''stp'' (RunTool ''write'' n) q, b)"
    "poolReaches {sampleWorker} sampleBooks (samplePool b {#q#} [(''stp'', RunTool ''write'' n)] [])"
proof -
  obtain n q b where f: "firstRun = (Acts ''stp'' (RunTool ''write'' n) q, b)"
    using effectName_E [OF sample_runs(1)] prod.collapse by metis
  have "jinv (journalOf sampleBooks)"
    using jinit_jinv [of "[''sesn_1'']"] by (simp add: sampleBooks_def sampleLedger_def journalOf_def jinit_def)
  moreover have "sampleSteps (samplePool sampleBooks {#} [] []) (samplePool b {#q#} [(''stp'', RunTool ''write'' n)] [])"
    using sample_deliver [OF f [unfolded firstRun_def], of "[]" "[]"] sample_act by (rule rtranclp_trans)
  ultimately show thesis using f that by (simp add: poolReaches_def idlePool_def)
qed

theorem tool_acts_once_witness:
  "\<exists>s n x. poolReaches {sampleWorker} sampleBooks s \<and> po_Effects s = [(''stp'', RunTool ''write'' n)]
     \<and> po_Answers s = [(''stp'', x)] \<and> xr_Ambiguous x \<and> crossedStep ''stp'' (journalOf (po_Books s))"
proof -
  obtain n q b where f: "firstRun = (Acts ''stp'' (RunTool ''write'' n) q, b)"
    and r: "poolReaches {sampleWorker} sampleBooks (samplePool b {#q#} [(''stp'', RunTool ''write'' n)] [])" by (rule sample_first)
  have "returned (fst (runs [(Commits, 4), (Commits, 5), (Commits, 6)]
     (ExecuteTool sampleWorker sampleAnswers sampleInput) b)) = (True, False)" using sample_runs(2) by (simp add: f)
  from returned_E [OF this] obtain x b' where again: "runs [(Commits, 4), (Commits, 5), (Commits, 6)]
     (ExecuteTool sampleWorker sampleAnswers sampleInput) b = (Returns (Inr x), b')" "xr_Ambiguous x"
    using prod.collapse by metis
  let ?e = "[(''stp'', RunTool ''write'' n)]"
  have "sampleSteps (samplePool b {#q#} ?e []) (samplePool b' {#} ?e [(''stp'', x)])"
    by (rule rtranclp_trans [OF sample_vanish rtranclp_trans [OF sample_deliver [OF again(1)] sample_answer]])
  with r have "poolReaches {sampleWorker} sampleBooks (samplePool b' {#} ?e [(''stp'', x)])" by (auto simp: poolReaches_def)
  with tool_acts_once [OF this] again(2) show ?thesis by fastforce
qed

theorem tool_answers_recorded_witness:
  "\<exists>s x. poolReaches {sampleWorker} sampleBooks s \<and> po_Answers s = [(''stp'', x)] \<and> xr_Result x \<noteq> emptyStepResult
     \<and> recordedAnswer {sampleWorker} ''stp'' x (journalOf (po_Books s))"
proof -
  obtain n q b where f: "firstRun = (Acts ''stp'' (RunTool ''write'' n) q, b)"
    and r: "poolReaches {sampleWorker} sampleBooks (samplePool b {#q#} [(''stp'', RunTool ''write'' n)] [])" by (rule sample_first)
  have "returned (fst (runs [(Lost [], 4), (Unacknowledged [], 5), (Commits, 6)] q b)) = (False, True)"
    using sample_runs(3) by (simp add: f writes_def)
  from returned_E [OF this] obtain x b' where
    ends: "runs [(Lost [], 4), (Unacknowledged [], 5), (Commits, 6)] q b = (Returns (Inr x), b')"
      "sr_Content (xr_Result x) \<noteq> None"
    using prod.collapse by metis
  let ?e = "[(''stp'', RunTool ''write'' n)]"
  have "sampleSteps (samplePool b {#q#} ?e []) (samplePool b' {#} ?e [(''stp'', x)])"
    using runs_pool [OF ends(1), of "{sampleWorker}" "''stp''" "{#}" ?e "[]"] sample_answer by (simp add: rtranclp_trans)
  with r have p: "poolReaches {sampleWorker} sampleBooks (samplePool b' {#} ?e [(''stp'', x)])" by (auto simp: poolReaches_def)
  have "xr_Result x \<noteq> emptyStepResult" using ends(2) by (auto simp: emptyStepResult_def)
  with tool_answers_recorded [OF p, of "''stp''" x] p show ?thesis by fastforce
qed

end
