(* ===== verification/Spec2Isabelle.thy ===== *)
theory Spec2Isabelle
  imports Pricing Tools Agents Resources Sessions Messages Compaction JournalSafety Wakeups DrainEnds TurnRequests ToolSafety
begin

text \<open>
  A model of the managed-agent server: the Go program that keeps Agents, Environments and Sessions for API
  clients, runs the turns of a Session against a model provider and its tools, and records everything in one
  PostgreSQL ledger per Session.

  \<^bold>\<open>How the program works.\<close> A client posts events to a Session. \<^bold>\<open>Admission\<close> (\<open>AdmitEvents\<close> in
  \<open>internal/pg/store.go\<close>) is one transaction: it routes each draft to its Thread, appends it to the event log,
  claims the pending actions that the draft answers, and leaves a wakeup in the \<^bold>\<open>outbox\<close>. A \<^bold>\<open>relay\<close>
  (\<open>internal/temporal/relay.go\<close>) hands wakeups to Temporal, whose \<^bold>\<open>Session and Thread Workflows\<close>
  (\<open>session_workflow.go\<close>, \<open>session_thread_workflow.go\<close>) drain the log: they read the next input, or the open
  requires-action \<^bold>\<open>barrier\<close>, and run a \<^bold>\<open>turn\<close> for it (\<open>agent_workflow.go\<close>, \<open>agent_workflow_tools.go\<close>).
  A turn prepares the conversation by \<^bold>\<open>projecting\<close> the log (\<open>internal/domain/message.go\<close>), requests the model,
  runs the tools it asks for under the \<^bold>\<open>tool-execution journal\<close> (\<open>internal/pg/journal.go\<close>), publishes
  \<^bold>\<open>progress\<close>, and ends in one \<^bold>\<open>completion\<close> transaction, which appends the output, records the usage, settles
  the status of Thread and Session, and opens or closes a barrier. Tools of a self-hosted Environment run on
  workers that poll a \<^bold>\<open>work queue\<close>. Configuration (tools, rosters, resources, budgets) is checked when it is
  stored. Effects of the program are state here: a transaction is a function from the rows it reads to an error or
  the rows it leaves, an activity is a function on the world, a Workflow is a recursive function over activities,
  and interleavings are sequences of such steps.

  \<^bold>\<open>Foundations.\<close>
  \<^item> \<open>Prelude\<close>: error values (\<open>domain/errors.go\<close>), the error monad \<open>bindE\<close>, wrap-around of \<open>int64\<close> and of
    \<open>time.Duration\<close>, association lists for Go maps, tables updated by a predicate (\<open>updateWhere\<close>), and the locale
    \<open>redeliverable\<close> of operations that may run again.
  \<^item> \<open>GoStrings\<close>: the functions of Go's \<open>strings\<close>, \<open>utf8\<close> and \<open>path\<close> packages that the program uses, on byte
    strings, with \<open>path.Clean\<close> proved to give proper components.
  \<^item> \<open>Doubles\<close>: \<open>float64\<close> as rationals with every operation rounded to the nearest double, ties to even, and
    \<open>Duration.Seconds\<close>; how far sums of rounded seconds are from the exact ones.
  \<^item> \<open>Events\<close>: JSON values and the event vocabulary (\<open>domain/event.go\<close>, \<open>domain/pending.go\<close>).

  \<^bold>\<open>Configuration and accounting.\<close>
  \<^item> \<open>Pricing\<close> (\<open>domain/usage.go\<close>, \<open>domain/budget.go\<close>, budget input of \<open>httpapi/sessions.go\<close>): 64-bit cost
    arithmetic, proved equal to the exact list price within stated bounds; budget printing and parsing.
  \<^item> \<open>Tools\<close> (\<open>domain/tools.go\<close>): the admission check of tool configurations, its parser and the address filter
    of MCP servers; accepted configurations are well formed, stored servers are public.
  \<^item> \<open>Agents\<close> (\<open>domain/agent.go\<close>, \<open>environment.go\<close>, \<open>metadata.go\<close>, \<open>skill_reference.go\<close>): patches, rosters
    and their round trip through storage, retried updates.
  \<^item> \<open>Resources\<close> (\<open>domain/session_resource.go\<close>): mount paths, confined to their directories.
  \<^item> \<open>Sessions\<close> (\<open>domain/session.go\<close>, \<open>session_thread.go\<close>): the clock of active time in doubles, budget stop, updates,
    and the status of a Session as an aggregate of its Threads.

  \<^bold>\<open>The conversation.\<close>
  \<^item> \<open>Messages\<close> (\<open>domain/message.go\<close>): projection of the log; roles alternate and calls pair with results.
  \<^item> \<open>Compaction\<close> (\<open>domain/context.go\<close>): the token estimate and the bounded projection, which keeps a
    conversation legal and its parts in bounds.
  \<^item> \<open>Requests\<close> (\<open>model/context.go\<close>, \<open>model/client.go\<close>, \<open>temporal/context.go\<close>, \<open>agentruntime/skills.go\<close>):
    limits, exact measurement from reported usage, admission and forced compaction of a request.

  \<^bold>\<open>The ledger.\<close>
  \<^item> \<open>Journal\<close>, \<open>JournalSafety\<close> (\<open>pg/journal.go\<close>, \<open>domain/execution.go\<close>): attempts and tool steps as
    interleaved transactions with the inductive relation \<open>jstep\<close>, in which an execution that begins an attempt makes
    each of its reads under READ COMMITTED a step of its own; no side effect is silently replayed as long as executions
    that begin one turn together carry one attempt name. A result is stored as \<open>jsonb\<close>, which respaces its raw bytes.
  \<^item> \<open>EnvWork\<close> (\<open>pg/environment_work.go\<close> and its service): the work queue with \<open>wstep\<close>; one worker per Session.
  \<^item> \<open>Outbox\<close> (\<open>pg/outbox.go\<close>, \<open>temporal/relay.go\<close>): wakeups, conditional deletion and relay passes with
    admissions in between; locales \<open>wakeup_store\<close> and \<open>relay_invariant\<close>, each interpreted for both tables.
  \<^item> \<open>Ledger\<close>, \<open>Barrier\<close>, \<open>Admission\<close>, \<open>Completion\<close>, \<open>Progress\<close> (\<open>pg/store.go\<close>, \<open>pg/pending.go\<close>,
    \<open>pg/transcript.go\<close>, \<open>pg/thread_completion.go\<close>, \<open>pg/turn_completion.go\<close>, \<open>pg/thread_retry.go\<close>): the rows of one
    Session and the transactions on them, statement by statement.
  \<^item> \<open>Turns\<close>, \<open>LogSafety\<close>, \<open>TurnSafety\<close>, \<open>Wakeups\<close>: what these transactions guarantee together. The log is
    append-only, a redelivered completion replays, no message is stranded, admitted work is woken.

  \<^bold>\<open>The Workflows.\<close>
  \<^item> \<open>Drain\<close>, \<open>DrainSafety\<close>, \<open>Resume\<close>, \<open>DrainEnds\<close> (\<open>temporal/session_workflow.go\<close>,
    \<open>session_thread_workflow.go\<close>, \<open>interrupt_workflow.go\<close>): the drain loops over arbitrary activities. Messages
    drive one turn each in the order of receipt, no turn overtakes a barrier, what is selected over a barrier is
    what the store accepts, and a loop alone with the store ends.
  \<^item> \<open>ToolRounds\<close>, \<open>TurnLoop\<close>, \<open>TurnLaws\<close>, \<open>TurnRequests\<close> (\<open>temporal/agent_workflow.go\<close>,
    \<open>agent_workflow_tools.go\<close>, \<open>temporal/types.go\<close>): one turn with every version gate, proved for arbitrary
    activities by a relation \<open>does\<close> between the calls a phase makes and the state it leaves. Tools run only with
    permission, requests are whole, spans close, and a turn commits once.
  \<^item> \<open>SandboxSpec\<close> (\<open>temporal/activities.go\<close>): what a Session asks of its sandbox, and that limited networking
    stays limited.

  \<^bold>\<open>Delegation and budgets.\<close>
  \<^item> \<open>Delegation\<close> (\<open>pg/multiagent_runtime.go\<close>, \<open>pg/advisor.go\<close>, \<open>pg/session_threads.go\<close>): the coordinator's tools,
    the advisor's consultation, creation and archival of Threads.
  \<^item> \<open>Budgets\<close> (\<open>pg/budget.go\<close>, \<open>pg/api_store.go\<close>): accounting, admission, the pause and what ends it. These
    transactions are steps of the log too, so \<open>LogSafety\<close> covers them.

  \<^bold>\<open>Tools at work.\<close>
  \<^item> \<open>Builtins\<close> (\<open>agentruntime/tools\<close>): bash, read, write, edit, glob and grep over a sandbox, and where large and MCP
    results are stored. The sandbox is a record of functions on a state of any type.
  \<^item> \<open>ToolActivity\<close> (\<open>temporal/activities.go\<close>): an execution of one tool step, as transactions on the Session's books
    with an external effect between them; a transaction commits, is lost, or commits without its acknowledgement.
  \<^item> \<open>ToolSafety\<close>: a pool of executions that interleave, crash and are delivered again, beside everything else that
    the journal does. Each pending execution holds what entitles it to its effect, so that an effect happens once.

  \<^bold>\<open>Bounds and termination.\<close> A drain is a \<open>partial_function\<close> into an option, as the code's loop has no bound:
  not returning is the value \<open>None\<close>. \<open>drain_returns\<close> shows that it returns from every sound ledger when the loop is
  alone with the store, by the weight of what is left (interrupts, inputs, the barrier, the rows past the cursor). A turn needs no fuel: its rounds are bounded by
  \<open>maxWorkflowToolRounds\<close> and the iterations of its outcome, the attempts of a request by
  \<open>maxModelRequestAttempts\<close> and one overflow recovery, which is the measure that ends \<open>requestModel\<close>. Relay passes,
  batches and scans recurse on their lists. Costs are \<open>int64\<close> with the wrap written out; token sums of the
  context estimate are unbounded integers, as the conversations they measure stay far below \<open>2 ^ 63\<close> bytes.

  \<^bold>\<open>Parameters.\<close> What is not in the repository is an argument: identifiers, clocks, JSON encoding
  (\<open>rt_Recode\<close>, \<open>pv_Codec\<close>), SHA-256, \<open>url.Parse\<close>, \<open>netip.ParseAddr\<close>, Unicode tables, the Catwalk model
  catalogue, Temporal's answers to a delivery, and the results of all activities of a turn.

  \<^bold>\<open>Not modelled.\<close>
  \<^item> HTTP handlers beyond budget parsing, the command line and its client: decoding and printing around the
    transactions; the services of \<open>internal/app\<close> mostly check that a resource exists and call the repository.
  \<^item> Drivers of sandboxes, MCP, OAuth, credential and model clients: network and process I/O. What the program
    relies on is their answer, which is an argument of the turn.
  \<^item> The stores of Memory, Vault, Skill and File records, and the listing queries.
  \<^item> Code generated by sqlc as such (its queries are modelled with their callers), migrations, the website.
\<close>

end
